(* ===== verification/Prelude.thy ===== *)
theory Prelude
  imports Complex_Main
begin

text \<open>
  Shared vocabulary of the development.

  A service coroutine of the server runs inside a database session: it reads and writes rows,
  and it may raise.  Mutations made before an exception stay in the session until the
  surrounding transaction rolls back, and some callers catch the exception and carry on, so an
  operation is a function from the session state to a result (an error or a value) \<^emph>\<open>and\<close> the
  session state reached: \<open>('s, 'a) op\<close>.  The combinators below are Python's sequencing,
  \<open>raise\<close>, \<open>for\<close>, \<open>try\<close> and the transaction wrapper; \<open>hoare\<close> is the partial correctness
  judgement with a separate postcondition for the exceptional exit, and \<open>keeps\<close> the special
  case of an invariant that holds after either exit.
\<close>

section \<open>Errors and operations\<close>

datatype error =
    Http int string        \<comment> \<open>\<open>HTTPException(status, message)\<close>, raised by \<open>reject\<close>\<close>
  | ValueErr string        \<comment> \<open>\<open>ValueError\<close>\<close>
  | RuntimeErr string      \<comment> \<open>\<open>RuntimeError\<close>\<close>
  | KeyErr                 \<comment> \<open>\<open>KeyError\<close>, \<open>IndexError\<close>, \<open>StopIteration\<close> and missing rows\<close>

type_synonym ('s, 'a) op = "'s \<Rightarrow> (error + 'a) \<times> 's"

definition ret :: "'a \<Rightarrow> ('s, 'a) op" where
  "ret a s = (Inr a, s)"

definition throw :: "error \<Rightarrow> ('s, 'a) op" where
  "throw e s = (Inl e, s)"

definition bnd :: "('s, 'a) op \<Rightarrow> ('a \<Rightarrow> ('s, 'b) op) \<Rightarrow> ('s, 'b) op" where
  "bnd m f s = (case m s of (Inl e, s') \<Rightarrow> (Inl e, s') | (Inr a, s') \<Rightarrow> f a s')"

definition seq :: "('s, 'a) op \<Rightarrow> ('s, 'b) op \<Rightarrow> ('s, 'b) op" where
  "seq m k = bnd m (\<lambda>_. k)"

definition gets :: "('s \<Rightarrow> 'a) \<Rightarrow> ('s, 'a) op" where
  "gets f s = (Inr (f s), s)"

definition modify :: "('s \<Rightarrow> 's) \<Rightarrow> ('s, unit) op" where
  "modify f s = (Inr (), f s)"

definition do_if :: "bool \<Rightarrow> ('s, unit) op \<Rightarrow> ('s, unit) op" where
  "do_if b m = (if b then m else ret ())"

fun for_each :: "'a list \<Rightarrow> ('a \<Rightarrow> ('s, unit) op) \<Rightarrow> ('s, unit) op" where
  "for_each [] f = ret ()"
| "for_each (x # xs) f = seq (f x) (for_each xs f)"

fun collect :: "'a list \<Rightarrow> ('a \<Rightarrow> ('s, 'b) op) \<Rightarrow> ('s, 'b list) op" where
  "collect [] f = ret []"
| "collect (x # xs) f = bnd (f x) (\<lambda>y. bnd (collect xs f) (\<lambda>ys. ret (y # ys)))"

definition attempt :: "('s, 'a) op \<Rightarrow> (error \<Rightarrow> ('s, 'a) op) \<Rightarrow> ('s, 'a) op" where
  "attempt m h s = (case m s of (Inl e, s') \<Rightarrow> h e s' | (Inr a, s') \<Rightarrow> (Inr a, s'))"

text \<open>The transaction wrapper: an exception discards everything the session wrote.\<close>

definition transaction :: "('s, 'a) op \<Rightarrow> ('s, 'a) op" where
  "transaction m s = (case m s of (Inl e, _) \<Rightarrow> (Inl e, s) | (Inr a, s') \<Rightarrow> (Inr a, s'))"

definition reject :: "string \<Rightarrow> int \<Rightarrow> ('s, 'a) op" where
  "reject message status = throw (Http status message)"

text \<open>A pure computation that may raise, inside a session.\<close>

definition lift :: "error + 'a \<Rightarrow> ('s, 'a) op" where
  "lift r s = (r, s)"

lemmas op_defs = ret_def throw_def bnd_def seq_def gets_def modify_def do_if_def reject_def
  attempt_def transaction_def lift_def

section \<open>Partial correctness of operations\<close>

named_theorems wp \<open>Hoare rules of the primitives and of the modelled operations\<close>
named_theorems keeps_rules \<open>invariants kept by operations\<close>

definition hoare ::
  "('s \<Rightarrow> bool) \<Rightarrow> ('s, 'a) op \<Rightarrow> ('a \<Rightarrow> 's \<Rightarrow> bool) \<Rightarrow> (error \<Rightarrow> 's \<Rightarrow> bool) \<Rightarrow> bool" where
  "hoare P m Q E \<longleftrightarrow> (\<forall>s. P s \<longrightarrow> (case m s of (Inr a, s') \<Rightarrow> Q a s' | (Inl e, s') \<Rightarrow> E e s'))"

definition keeps :: "('s \<Rightarrow> bool) \<Rightarrow> ('s, 'a) op \<Rightarrow> bool" where
  "keeps I m \<longleftrightarrow> hoare I m (\<lambda>_. I) (\<lambda>_. I)"

lemma hoare_cases:
  "hoare P m Q E \<longleftrightarrow>
   (\<forall>s. P s \<longrightarrow> (\<forall>a s'. m s = (Inr a, s') \<longrightarrow> Q a s') \<and> (\<forall>e s'. m s = (Inl e, s') \<longrightarrow> E e s'))"
  by (auto simp: hoare_def split: prod.splits sum.splits)

lemma keeps_iff: "keeps I m \<longleftrightarrow> (\<forall>s. I s \<longrightarrow> I (snd (m s)))"
  unfolding keeps_def hoare_def
  by (intro iff_allI imp_cong refl) (simp split: prod.splits sum.splits)

lemma keepsD: "keeps I m \<Longrightarrow> I s \<Longrightarrow> I (snd (m s))"
  by (simp add: keeps_iff)

lemma keepsI: "(\<And>s. I s \<Longrightarrow> I (snd (m s))) \<Longrightarrow> keeps I m"
  by (simp add: keeps_iff)

lemma keeps_run: "keeps I m \<Longrightarrow> I s \<Longrightarrow> m s = (r, s') \<Longrightarrow> I s'"
  using keepsD by fastforce

lemma keeps_ret [keeps_rules, intro]: "keeps I (ret a)"
  by (rule keepsI) (simp add: ret_def)

lemma keeps_throw [keeps_rules, intro]: "keeps I (throw e)"
  by (rule keepsI) (simp add: throw_def)

lemma keeps_reject [keeps_rules, intro]: "keeps I (reject msg st)"
  by (rule keepsI) (simp add: reject_def throw_def)

lemma keeps_gets [keeps_rules, intro]: "keeps I (gets f)"
  by (rule keepsI) (simp add: gets_def)

lemma keeps_lift [keeps_rules, intro]: "keeps I (lift r)"
  by (rule keepsI) (simp add: lift_def)

lemma keeps_bnd [keeps_rules, intro]:
  assumes "keeps I m" and "\<And>a. keeps I (f a)"
  shows "keeps I (bnd m f)"
proof (rule keepsI)
  fix s assume "I s"
  then show "I (snd (bnd m f s))"
    using keeps_run[OF assms(1)] keepsD[OF assms(2)]
    by (auto simp: bnd_def split: prod.splits sum.splits)
qed

lemma keeps_seq [keeps_rules, intro]: "keeps I m \<Longrightarrow> keeps I k \<Longrightarrow> keeps I (seq m k)"
  by (simp add: seq_def keeps_bnd)

lemma keeps_do_if [keeps_rules, intro]: "(b \<Longrightarrow> keeps I m) \<Longrightarrow> keeps I (do_if b m)"
  by (simp add: do_if_def keeps_ret)

lemma keeps_modify: "(\<And>s. I s \<Longrightarrow> I (f s)) \<Longrightarrow> keeps I (modify f)"
  by (rule keepsI) (simp add: modify_def)

lemma keeps_for_each [keeps_rules]:
  "(\<And>x. x \<in> set xs \<Longrightarrow> keeps I (f x)) \<Longrightarrow> keeps I (for_each xs f)"
  by (induction xs) auto

lemma keeps_collect [keeps_rules]:
  "(\<And>x. x \<in> set xs \<Longrightarrow> keeps I (f x)) \<Longrightarrow> keeps I (collect xs f)"
  by (induction xs) auto

lemma keeps_attempt [keeps_rules]:
  assumes "keeps I m" and "\<And>e. keeps I (h e)"
  shows "keeps I (attempt m h)"
proof (rule keepsI)
  fix s assume "I s"
  then show "I (snd (attempt m h s))"
    using keeps_run[OF assms(1)] keepsD[OF assms(2)]
    by (auto simp: attempt_def split: prod.splits sum.splits)
qed

lemma keeps_transaction [keeps_rules]: "keeps I m \<Longrightarrow> keeps I (transaction m)"
  by (rule keepsI)
    (auto simp: transaction_def dest: keeps_run split: prod.splits sum.splits)

lemma keeps_if [keeps_rules]:
  "(b \<Longrightarrow> keeps I m) \<Longrightarrow> (\<not> b \<Longrightarrow> keeps I k) \<Longrightarrow> keeps I (if b then m else k)"
  by simp

lemma keeps_option [keeps_rules]:
  "(x = None \<Longrightarrow> keeps I m) \<Longrightarrow> (\<And>a. x = Some a \<Longrightarrow> keeps I (k a)) \<Longrightarrow>
   keeps I (case x of None \<Rightarrow> m | Some a \<Rightarrow> k a)"
  by (cases x) auto

lemma keeps_let [keeps_rules]: "(\<And>x. keeps I (f x)) \<Longrightarrow> keeps I (let x = t in f x)"
  by (simp add: Let_def)

lemma keeps_prod [keeps_rules]: "(\<And>a b. p = (a, b) \<Longrightarrow> keeps I (f a b)) \<Longrightarrow> keeps I (case p of (a, b) \<Rightarrow> f a b)"
  by (cases p) simp

lemma keeps_list [keeps_rules]:
  "(xs = [] \<Longrightarrow> keeps I m) \<Longrightarrow> (\<And>y ys. xs = y # ys \<Longrightarrow> keeps I (k y ys)) \<Longrightarrow>
   keeps I (case xs of [] \<Rightarrow> m | y # ys \<Rightarrow> k y ys)"
  by (cases xs) auto

lemma keeps_sum [keeps_rules]:
  "(\<And>e. x = Inl e \<Longrightarrow> keeps I (f e)) \<Longrightarrow> (\<And>a. x = Inr a \<Longrightarrow> keeps I (g a)) \<Longrightarrow>
   keeps I (case x of Inl e \<Rightarrow> f e | Inr a \<Rightarrow> g a)"
  by (cases x) auto

lemma keeps_error [keeps_rules]:
  "(\<And>c w. e = Http c w \<Longrightarrow> keeps I (f c w)) \<Longrightarrow> (\<And>w. e = ValueErr w \<Longrightarrow> keeps I (g w)) \<Longrightarrow>
   (\<And>w. e = RuntimeErr w \<Longrightarrow> keeps I (h w)) \<Longrightarrow> (e = KeyErr \<Longrightarrow> keeps I k) \<Longrightarrow>
   keeps I (case e of Http c w \<Rightarrow> f c w | ValueErr w \<Rightarrow> g w | RuntimeErr w \<Rightarrow> h w | KeyErr \<Rightarrow> k)"
  by (cases e) auto

lemma hoareD_ok: "hoare P m Q E \<Longrightarrow> P s \<Longrightarrow> m s = (Inr a, s') \<Longrightarrow> Q a s'"
  by (simp add: hoare_cases)

lemma hoareD_err: "hoare P m Q E \<Longrightarrow> P s \<Longrightarrow> m s = (Inl e, s') \<Longrightarrow> E e s'"
  by (simp add: hoare_cases)

lemma hoareI:
  "(\<And>s a s'. P s \<Longrightarrow> m s = (Inr a, s') \<Longrightarrow> Q a s') \<Longrightarrow>
   (\<And>s e s'. P s \<Longrightarrow> m s = (Inl e, s') \<Longrightarrow> E e s') \<Longrightarrow> hoare P m Q E"
  by (simp add: hoare_cases)

lemma bnd_ok_iff:
  "bnd m f s = (Inr b, s') \<longleftrightarrow> (\<exists>a t. m s = (Inr a, t) \<and> f a t = (Inr b, s'))"
  by (auto simp: bnd_def split: prod.splits sum.splits)

lemma bnd_err_iff:
  "bnd m f s = (Inl e, s') \<longleftrightarrow> m s = (Inl e, s') \<or> (\<exists>a t. m s = (Inr a, t) \<and> f a t = (Inl e, s'))"
  by (auto simp: bnd_def split: prod.splits sum.splits)

text \<open>Running an operation one step at a time.\<close>

lemma run_simps:
  "bnd (gets f) k s = k (f s) s" "bnd (ret a) k s = k a s" "bnd (throw e) k s = (Inl e, s)"
  "bnd (reject w c) k s = (Inl (Http c w), s)" "bnd (modify g) j s = j () (g s)"
  "bnd (lift (Inr x)) k s = k x s" "bnd (lift (Inl e)) k s = (Inl e, s)"
  "seq (modify g) l s = l (g s)" "seq (ret u) l s = l s" "do_if True m = m" "do_if False m = ret ()"
  "ret a s = (Inr a, s)" "throw e s = (Inl e, s)" "reject w c s = (Inl (Http c w), s)"
  "gets f s = (Inr (f s), s)" "modify g s = (Inr (), g s)"
  by (simp_all add: op_defs)

lemma step_runs:
  "m s = (Inr a, s1) \<Longrightarrow> bnd m k s = k a s1" "m s = (Inl e, s1) \<Longrightarrow> bnd m k s = (Inl e, s1)"
  "m s = (Inr a, s1) \<Longrightarrow> seq m j s = j s1" "m s = (Inl e, s1) \<Longrightarrow> seq m j s = (Inl e, s1)"
  by (simp_all add: bnd_def seq_def)

lemma hoare_bnd [wp]:
  assumes "hoare P m R E" and "\<And>a. hoare (R a) (f a) Q E"
  shows "hoare P (bnd m f) Q E"
  using assms unfolding hoare_cases bnd_ok_iff bnd_err_iff by blast

lemma hoare_seq [wp]: "hoare P m (\<lambda>_. R) E \<Longrightarrow> hoare R k Q E \<Longrightarrow> hoare P (seq m k) Q E"
  unfolding seq_def by (rule hoare_bnd)

lemma hoare_weaken: "hoare P' m Q E \<Longrightarrow> (\<And>s. P s \<Longrightarrow> P' s) \<Longrightarrow> hoare P m Q E"
  unfolding hoare_cases by blast

section \<open>Python numbers and time\<close>

text \<open>
  Python's \<open>float\<close> is modelled by \<open>real\<close>: the arithmetic below is the exact one and the
  theorems about it do not speak of IEEE rounding.  \<open>round\<close> on a float is round-half-to-even;
  \<open>int(x)\<close> truncates towards zero; \<open>//\<close> by a positive number is the floor.
\<close>

definition py_round :: "real \<Rightarrow> int" where
  "py_round x = (let f = \<lfloor>x\<rfloor>; d = x - of_int f in
     if d < 1/2 then f else if d > 1/2 then f + 1 else if even f then f else f + 1)"

definition py_trunc :: "real \<Rightarrow> int" where
  "py_trunc x = (if x \<ge> 0 then \<lfloor>x\<rfloor> else \<lceil>x\<rceil>)"

lemma py_round_bounds: "of_int (py_round x) \<le> x + 1/2 \<and> x - 1/2 \<le> of_int (py_round x)"
  by (auto simp: py_round_def Let_def) linarith+

lemma py_round_of_int [simp]: "py_round (of_int n) = n"
  by (simp add: py_round_def)

lemma py_round_numeral [simp]: "py_round (numeral n) = numeral n" "py_round 0 = 0" "py_round 1 = 1"
  using py_round_of_int[of "numeral n"] py_round_of_int[of 0] py_round_of_int[of 1] by simp_all

lemma py_round_mono:
  assumes "x \<le> y"
  shows "py_round x \<le> py_round y"
proof (cases "\<lfloor>x\<rfloor> = \<lfloor>y\<rfloor>")
  case True
  with assms show ?thesis by (auto simp: py_round_def Let_def)
next
  case False
  with assms have "\<lfloor>x\<rfloor> + 1 \<le> \<lfloor>y\<rfloor>"
    by (metis add.commute floor_mono order_le_imp_less_or_eq zless_imp_add1_zle)
  moreover have "py_round x \<le> \<lfloor>x\<rfloor> + 1" and "\<lfloor>y\<rfloor> \<le> py_round y"
    by (auto simp: py_round_def Let_def)
  ultimately show ?thesis by linarith
qed

lemma py_round_le_int: "x \<le> of_int n \<Longrightarrow> py_round x \<le> n"
  using py_round_mono[of x "of_int n"] by simp

lemma py_round_ge_int: "of_int n \<le> x \<Longrightarrow> n \<le> py_round x"
  using py_round_mono[of "of_int n" x] by simp

text \<open>Instants are microseconds on the UTC time line; \<open>timedelta(seconds=n)\<close> is \<open>seconds n\<close>.\<close>

type_synonym time = int

definition seconds :: "int \<Rightarrow> time" where
  "seconds n = n * 1000000"

definition minutes :: "int \<Rightarrow> time" where
  "minutes n = seconds (60 * n)"

lemma seconds_mono [simp]: "seconds a \<le> seconds b \<longleftrightarrow> a \<le> b" "seconds a < seconds b \<longleftrightarrow> a < b"
  by (simp_all add: seconds_def)

section \<open>Lists\<close>

definition index_of :: "'a \<Rightarrow> 'a list \<Rightarrow> nat" where
  "index_of x xs = length (takeWhile (\<lambda>y. y \<noteq> x) xs)"

lemma index_of_less: "x \<in> set xs \<Longrightarrow> index_of x xs < length xs"
  unfolding index_of_def by (induction xs) auto

lemma nth_index_of [simp]: "x \<in> set xs \<Longrightarrow> xs ! index_of x xs = x"
  unfolding index_of_def by (induction xs) auto

lemma index_of_nth: "distinct xs \<Longrightarrow> i < length xs \<Longrightarrow> index_of (xs ! i) xs = i"
  by (metis distinct_Ex1 index_of_less nth_index_of nth_mem)

lemma find_Some_in: "find P xs = Some x \<Longrightarrow> x \<in> set xs \<and> P x"
  by (induction xs) (auto split: if_splits)

text \<open>\<open>sorted(set(xs))\<close> of the readiness lists.\<close>

definition sorted_set :: "int list \<Rightarrow> int list" where
  "sorted_set xs = sort (remdups xs)"

lemma set_sorted_set [simp]: "set (sorted_set xs) = set xs"
  by (simp add: sorted_set_def)

end
