(* ===== verification/Ranks.thy ===== *)
theory Ranks
  imports Pytext
begin

text \<open>
  \<open>somsai_rank_pool.py\<close>: the ladder of 26 divisions, the division of a rating, the mean
  division of a party, and the matrix of star ranges each division's pool draws from.

  A rank is its canonical name.  The half-open range \<open><5.8\<close> is stored by the code as the
  closed range up to the float just below 5.8 (\<open>math.nextafter\<close>); over the reals that is the
  strict bound \<open>Below 5.8\<close>.
\<close>

section \<open>The ladder\<close>

definition ROMANS :: "string list" where
  "ROMANS = [''I'', ''II'', ''III'', ''IV'', ''V'']"

definition BANDS :: "string list" where
  "BANDS = [''BRONZE'', ''SILVER'', ''GOLD'', ''PLATINUM'', ''DIAMOND'']"

definition RANKS :: "string list" where
  "RANKS = concat (map (\<lambda>band. map (\<lambda>roman. band @ '' '' @ roman) ROMANS) BANDS) @ [''ARCHSOM'']"

definition normalise_rank :: "string \<Rightarrow> error + string" where
  "normalise_rank value =
     (let rank = py_join '' '' (py_split (py_upper value))
      in if rank \<in> set RANKS then Inr rank else Inl (ValueErr ''Unknown SOMSAI rank''))"

definition rank_midpoint_rating :: "string \<Rightarrow> error + real" where
  "rank_midpoint_rating value =
     (case normalise_rank value of
        Inl e \<Rightarrow> Inl e
      | Inr rank \<Rightarrow>
          if rank = ''ARCHSOM'' then Inr 3500
          else (case py_split rank of
                  [band, roman] \<Rightarrow>
                    Inr (500 + real (index_of band BANDS) * 500 + real (index_of roman ROMANS) * 100 + 50)
                | _ \<Rightarrow> Inl (ValueErr ''unpack'')))"

definition rank_position :: "string \<Rightarrow> error + nat" where
  "rank_position rank =
     (case normalise_rank rank of Inl e \<Rightarrow> Inl e | Inr r \<Rightarrow> Inr (index_of r RANKS))"

definition rank_from_rating :: "real \<Rightarrow> string" where
  "rank_from_rating rating =
     (if rating \<ge> 3000 then ''ARCHSOM''
      else if rating < 600 then ''BRONZE I''
      else let band_index = min 4 (max 0 (\<lfloor>rating / 500\<rfloor> - 1));
               roman_index = min 4 (max 0 \<lfloor>(rating - of_int (500 + band_index * 500)) / 100\<rfloor>)
           in BANDS ! nat band_index @ '' '' @ ROMANS ! nat roman_index)"

text \<open>
  \<open>average_rank\<close>: every position is that of a rank the code itself produced, so
  \<open>rank_position\<close> cannot raise; the model reads the position off the ladder.
\<close>

definition average_rank :: "real list \<Rightarrow> string" where
  "average_rank ratings =
     (if ratings = [] then ''SILVER I''
      else RANKS ! nat \<lfloor>real (\<Sum>v\<leftarrow>ratings. index_of (rank_from_rating v) RANKS) / real (length ratings)\<rfloor>)"

section \<open>The pool matrix\<close>

datatype upper_limit = UpTo real | Below real

type_synonym star_range = "real option \<times> upper_limit option"

record rank_pool_rule =
  rule_best_of :: int
  rule_bans :: int
  rule_slots :: "(string \<times> star_range) list"

definition parse_range :: "string \<Rightarrow> error + star_range" where
  "parse_range value =
     (if ends_with value ''+'' then
        (case py_float (butlast value) of
           Some lo \<Rightarrow> Inr (Some lo, None) | None \<Rightarrow> Inl (ValueErr ''float''))
      else if starts_with value ''<'' then
        (case py_float (tl value) of
           Some hi \<Rightarrow> Inr (None, Some (Below hi)) | None \<Rightarrow> Inl (ValueErr ''float''))
      else
        (case split_on (CHR ''-'') value of
           [low, high] \<Rightarrow>
             (case (py_float low, py_float high) of
                (Some lo, Some hi) \<Rightarrow> Inr (Some lo, Some (UpTo hi))
              | _ \<Rightarrow> Inl (ValueErr ''float''))
         | _ \<Rightarrow> Inl (ValueErr ''unpack'')))"

fun parse_slots :: "(string \<times> string) list \<Rightarrow> (string \<times> star_range) list" where
  "parse_slots [] = []"
| "parse_slots ((slot, value) # rest) =
     (case parse_range value of Inl _ \<Rightarrow> parse_slots rest | Inr r \<Rightarrow> (slot, r) # parse_slots rest)"

definition numbered :: "string \<Rightarrow> nat \<Rightarrow> string \<Rightarrow> (string \<times> string) list" where
  "numbered prefix n value = map (\<lambda>i. (prefix @ [digit_char i], value)) [1..<Suc n]"

definition archsom_slots :: "(string \<times> string) list" where
  "archsom_slots =
     numbered ''NM'' 5 ''8+'' @ [(''NM6'', ''7.01+''),
      (''HD1'', ''8+''), (''HD2'', ''7.6+''), (''HD3'', ''7.8+''),
      (''HR1'', ''8+''), (''HR2'', ''7.6+''), (''HR3'', ''7.8+'')] @
     numbered ''DT'' 4 ''8+'' @ numbered ''FM'' 3 ''7.6+'' @ [(''TB'', ''8.3+'')]"

definition diamond_slots :: "(string \<times> string) list" where
  "diamond_slots =
     [(''NM1'', ''7.6-7.99''), (''NM2'', ''7.6-7.99''), (''NM3'', ''7.6-7.99''), (''NM4'', ''7.4-7.99''),
      (''NM5'', ''7.6-7.99''), (''NM6'', ''6-7''), (''HD1'', ''7.6-7.99''), (''HD2'', ''7.2-7.59''),
      (''HD3'', ''7.4-7.79''), (''HR1'', ''7.6-7.99''), (''HR2'', ''7.2-7.59''), (''HR3'', ''7.4-7.79''),
      (''DT1'', ''7.6-7.99''), (''DT2'', ''7.6-7.99''), (''DT3'', ''7.6-7.99''), (''DT4'', ''7.6-7.99''),
      (''FM1'', ''7.2-7.59''), (''FM2'', ''7.2-7.59''), (''FM3'', ''7.2-7.59''), (''TB'', ''8-8.29'')]"

definition platinum_slots :: "(string \<times> string) list" where
  "platinum_slots =
     [(''NM1'', ''7.2-7.59''), (''NM2'', ''7-7.59''), (''NM3'', ''7-7.59''), (''NM4'', ''6.8-7.39''),
      (''NM5'', ''7-7.59''), (''HD1'', ''7.2-7.59''), (''HD2'', ''6.8-7.19''), (''HD3'', ''6.8-7.39''),
      (''HR1'', ''7.2-7.59''), (''HR2'', ''6.6-7.19''), (''HR3'', ''6.8-7.39''),
      (''DT1'', ''7.2-7.59''), (''DT2'', ''7.2-7.59''), (''DT3'', ''7.2-7.59''),
      (''FM1'', ''6.6-7.19''), (''FM2'', ''6.6-7.19''), (''FM3'', ''6.6-7.19''), (''TB'', ''7.6-7.99'')]"

definition gold_slots :: "(string \<times> string) list" where
  "gold_slots =
     [(''NM1'', ''6.7-7.19''), (''NM2'', ''6.5-6.99''), (''NM3'', ''6.5-6.99''), (''NM4'', ''6.4-6.79''),
      (''NM5'', ''6.5-6.99''), (''HD1'', ''6.7-7.19''), (''HD2'', ''6.4-6.79''), (''HD3'', ''6.3-6.79''),
      (''HR1'', ''6.7-7.19''), (''HR2'', ''6-6.59''), (''HR3'', ''6.3-6.79''),
      (''DT1'', ''6.7-7.19''), (''DT2'', ''6.7-7.19''), (''DT3'', ''6.7-7.19''), (''TB'', ''7.2-7.59'')]"

definition silver_slots :: "(string \<times> string) list" where
  "silver_slots =
     [(''NM1'', ''5.81-6.69''), (''NM2'', ''5.51-6.49''), (''NM3'', ''5.51-6.49''),
      (''NM4'', ''5.51-6.39''), (''NM5'', ''5.5-6.49''),
      (''HD1'', ''5.81-6.69''), (''HD2'', ''5.41-6.39''), (''HR1'', ''5.81-6.69''), (''HR2'', ''5.61-5.99''),
      (''DT1'', ''5.81-6.69''), (''DT2'', ''5.81-6.69''), (''DT3'', ''5.81-6.69''), (''TB'', ''6.8-7.19'')]"

definition bronze_slots :: "(string \<times> string) list" where
  "bronze_slots =
     [(''NM1'', ''<5.8''), (''NM2'', ''<5.5''), (''NM3'', ''<5.5''), (''NM4'', ''<5.5''), (''HD1'', ''<5.8''),
      (''HD2'', ''<5.4''), (''HR1'', ''<5.8''), (''HR2'', ''<5.6''), (''DT1'', ''<5.8''), (''DT2'', ''<5.8''),
      (''DT3'', ''<5.8''), (''TB'', ''6.6-6.79'')]"

definition RULES_BY_BAND :: "(string \<times> rank_pool_rule) list" where
  "RULES_BY_BAND =
     [(''ARCHSOM'', \<lparr>rule_best_of = 13, rule_bans = 2, rule_slots = parse_slots archsom_slots\<rparr>),
      (''DIAMOND'', \<lparr>rule_best_of = 13, rule_bans = 2, rule_slots = parse_slots diamond_slots\<rparr>),
      (''PLATINUM'', \<lparr>rule_best_of = 11, rule_bans = 2, rule_slots = parse_slots platinum_slots\<rparr>),
      (''GOLD'', \<lparr>rule_best_of = 9, rule_bans = 1, rule_slots = parse_slots gold_slots\<rparr>),
      (''SILVER'', \<lparr>rule_best_of = 7, rule_bans = 1, rule_slots = parse_slots silver_slots\<rparr>),
      (''BRONZE'', \<lparr>rule_best_of = 7, rule_bans = 1, rule_slots = parse_slots bronze_slots\<rparr>)]"

definition rule_for :: "string \<Rightarrow> error + rank_pool_rule" where
  "rule_for value =
     (case normalise_rank value of
        Inl e \<Rightarrow> Inl e
      | Inr rank \<Rightarrow>
          (case map_of RULES_BY_BAND (if rank = ''ARCHSOM'' then ''ARCHSOM'' else hd (py_split rank)) of
             Some rule \<Rightarrow> Inr rule | None \<Rightarrow> Inl KeyErr))"

definition star_within :: "real \<Rightarrow> star_range \<Rightarrow> bool" where
  "star_within stars r \<longleftrightarrow>
     (case fst r of None \<Rightarrow> True | Some low \<Rightarrow> stars \<ge> low) \<and>
     (case snd r of None \<Rightarrow> True | Some (UpTo high) \<Rightarrow> stars \<le> high | Some (Below high) \<Rightarrow> stars < high)"

definition rank_slots :: "string \<Rightarrow> (string \<times> star_range) list" where
  "rank_slots rank = (case rule_for rank of Inl _ \<Rightarrow> [] | Inr rule \<Rightarrow> rule_slots rule)"

definition eligible_ranks :: "string \<Rightarrow> real \<Rightarrow> string list" where
  "eligible_ranks slot stars =
     filter (\<lambda>rank. case map_of (rank_slots rank) slot of
                      None \<Rightarrow> False | Some limits \<Rightarrow> star_within stars limits) RANKS"

definition en_dash :: string where
  "en_dash = [CHR 0xE2, CHR 0x80, CHR 0x93]"

definition eligibility_label :: "string list \<Rightarrow> string" where
  "eligibility_label ranks =
     (if ranks = [] then ''Not used''
      else
        let present = (\<lambda>band. map (\<lambda>rank. py_split rank ! 1) (filter (\<lambda>rank. starts_with rank (band @ '' '')) ranks));
            groups = concat (map (\<lambda>band. case present band of
                        [] \<Rightarrow> []
                      | p # ps \<Rightarrow> [band @ '' '' @ p @ (if ps = [] then '''' else en_dash @ last ps)]) BANDS)
        in py_join '', '' (groups @ (if ''ARCHSOM'' \<in> set ranks then [''ARCHSOM''] else [])))"

section \<open>Evaluation of the matrix\<close>

lemma bands_eval:
  "RANKS = [''BRONZE I'', ''BRONZE II'', ''BRONZE III'', ''BRONZE IV'', ''BRONZE V'',
    ''SILVER I'', ''SILVER II'', ''SILVER III'', ''SILVER IV'', ''SILVER V'',
    ''GOLD I'', ''GOLD II'', ''GOLD III'', ''GOLD IV'', ''GOLD V'',
    ''PLATINUM I'', ''PLATINUM II'', ''PLATINUM III'', ''PLATINUM IV'', ''PLATINUM V'',
    ''DIAMOND I'', ''DIAMOND II'', ''DIAMOND III'', ''DIAMOND IV'', ''DIAMOND V'', ''ARCHSOM'']"
  by (simp add: RANKS_def BANDS_def ROMANS_def)

lemma normalise_ranks: "list_all (\<lambda>r. normalise_rank r = Inr r) RANKS"
  by code_simp

lemma words_of_ranks:
  "list_all (\<lambda>r. case normalise_rank r of Inl _ \<Rightarrow> False | Inr n \<Rightarrow> n = r) RANKS"
  by code_simp

lemma range_names:
  "map fst (parse_slots archsom_slots) = map fst archsom_slots"
  "map fst (parse_slots diamond_slots) = map fst diamond_slots"
  "map fst (parse_slots platinum_slots) = map fst platinum_slots"
  "map fst (parse_slots gold_slots) = map fst gold_slots"
  "map fst (parse_slots silver_slots) = map fst silver_slots"
  "map fst (parse_slots bronze_slots) = map fst bronze_slots"
  by code_simp+

definition band_name :: "string \<Rightarrow> string" where
  "band_name r = (if r = ''ARCHSOM'' then ''ARCHSOM'' else hd (py_split r))"

lemma band_names: "list_all (\<lambda>r. band_name r \<in> set (''ARCHSOM'' # rev BANDS)) RANKS"
  by code_simp

lemma rules_keys: "map fst RULES_BY_BAND = ''ARCHSOM'' # rev BANDS"
  by (simp add: RULES_BY_BAND_def BANDS_def)

lemma rule_for_band:
  assumes "r \<in> set RANKS"
  shows "\<exists>rule. rule_for r = Inr rule \<and> map_of RULES_BY_BAND (band_name r) = Some rule
    \<and> (band_name r, rule) \<in> set RULES_BY_BAND"
proof -
  from assms have n: "normalise_rank r = Inr r"
    using normalise_ranks by (simp only: list_all_iff)
  from assms have "band_name r \<in> fst ` set RULES_BY_BAND"
    using band_names rules_keys by (metis list_all_iff list.set_map)
  then obtain rule where r: "map_of RULES_BY_BAND (band_name r) = Some rule"
    by (metis map_of_eq_None_iff not_Some_eq)
  then have "rule_for r = Inr rule"
    unfolding rule_for_def n by (simp add: band_name_def)
  with r show ?thesis by (blast dest: map_of_SomeD)
qed

definition names_playable :: "int \<Rightarrow> int \<Rightarrow> string list \<Rightarrow> bool" where
  "names_playable bo bans names \<longleftrightarrow>
     length (filter (\<lambda>s. s = ''TB'') names) = 1 \<and>
     bo - 1 + 2 * bans \<le> int (length (filter (\<lambda>s. s \<noteq> ''TB'') names)) \<and>
     odd bo \<and> 7 \<le> bo \<and> 1 \<le> bans \<and> distinct names"

lemma names_playable_bands:
  "names_playable 13 2 (map fst archsom_slots)" "names_playable 13 2 (map fst diamond_slots)"
  "names_playable 11 2 (map fst platinum_slots)" "names_playable 9 1 (map fst gold_slots)"
  "names_playable 7 1 (map fst silver_slots)" "names_playable 7 1 (map fst bronze_slots)"
  by code_simp+

lemma rules_playable:
  "list_all (\<lambda>(b, rule). names_playable (rule_best_of rule) (rule_bans rule) (map fst (rule_slots rule))) RULES_BY_BAND"
  by (simp add: RULES_BY_BAND_def range_names names_playable_bands)

lemma midpoint_evals:
  "list_all (\<lambda>r. case rank_midpoint_rating r of Inl _ \<Rightarrow> False | Inr x \<Rightarrow> rank_from_rating x = r) RANKS"
  by code_simp

lemma tb_ranges:
  "map_of (parse_slots archsom_slots) ''TB'' = Some (Some (83/10), None)"
  "map_of (parse_slots diamond_slots) ''TB'' = Some (Some 8, Some (UpTo (829/100)))"
  "map_of (parse_slots platinum_slots) ''TB'' = Some (Some (76/10), Some (UpTo (799/100)))"
  "map_of (parse_slots gold_slots) ''TB'' = Some (Some (72/10), Some (UpTo (759/100)))"
  "map_of (parse_slots silver_slots) ''TB'' = Some (Some (68/10), Some (UpTo (719/100)))"
  "map_of (parse_slots bronze_slots) ''TB'' = Some (Some (66/10), Some (UpTo (679/100)))"
  by code_simp+

section \<open>Ratings and positions\<close>

lemma floor_div_500: "\<lfloor>x / 500\<rfloor> = \<lfloor>x / 100\<rfloor> div (5::int)" for x :: real
  using floor_divide_real_eq_div[of 5 "x / 100"] by simp

lemma rank_from_rating_middle:
  assumes "600 \<le> x" and "x < 3000"
  shows "\<lfloor>x / 100\<rfloor> \<in> {6..29}"
    and "rank_from_rating x = BANDS ! nat (\<lfloor>x / 100\<rfloor> div 5 - 1) @ '' '' @ ROMANS ! nat (\<lfloor>x / 100\<rfloor> mod 5)"
proof -
  let ?n = "\<lfloor>x / 100\<rfloor>"
  show n: "?n \<in> {6..29}" using assms by (auto simp: le_floor_iff floor_less_iff order_less_le_trans)
  then have "1 \<le> ?n div 5" and "?n div 5 \<le> 5"
    unfolding atLeastAtMost_iff by presburger+
  then have band: "min 4 (max 0 (\<lfloor>x / 500\<rfloor> - 1)) = ?n div 5 - 1"
    unfolding floor_div_500 by simp
  have "(x - of_int (500 + (?n div 5 - 1) * 500)) / 100 = x / 100 - of_int (5 * (?n div 5))"
    by (simp add: field_simps)
  then have "\<lfloor>(x - of_int (500 + (?n div 5 - 1) * 500)) / 100\<rfloor> = ?n - 5 * (?n div 5)"
    by (metis floor_diff_of_int)
  also have "\<dots> = ?n mod 5" by presburger
  finally have roman: "min 4 (max 0 \<lfloor>(x - of_int (500 + (?n div 5 - 1) * 500)) / 100\<rfloor>) = ?n mod 5"
    by auto
  show "rank_from_rating x = BANDS ! nat (?n div 5 - 1) @ '' '' @ ROMANS ! nat (?n mod 5)"
    using assms unfolding rank_from_rating_def Let_def band roman by simp
qed

definition ladder_index :: "real \<Rightarrow> nat" where
  "ladder_index x = (if x \<ge> 3000 then 25 else if x < 600 then 0 else nat (\<lfloor>x / 100\<rfloor> - 5))"

lemma upto_29: "n \<in> {6..29} \<longleftrightarrow> n \<in> set [6..29::int]"
  by (simp only: set_upto)

lemma ladder_names:
  "list_all (\<lambda>n. RANKS ! nat (n - 5) = BANDS ! nat (n div 5 - 1) @ '' '' @ ROMANS ! nat (n mod 5)) [6..29::int]"
  by code_simp

lemma ladder_index_le: "ladder_index x \<le> 25"
proof -
  have "nat (\<lfloor>x / 100\<rfloor> - 5) \<le> 25" if "600 \<le> x" "x < 3000"
    using rank_from_rating_middle(1)[OF that] unfolding atLeastAtMost_iff by arith
  then show ?thesis by (simp add: ladder_index_def)
qed

lemma rank_from_rating_ladder: "rank_from_rating x = RANKS ! ladder_index x"
proof -
  have "RANKS ! nat (\<lfloor>x / 100\<rfloor> - 5) = rank_from_rating x" if "600 \<le> x" "x < 3000"
    using ladder_names rank_from_rating_middle[OF that] by (simp only: list_all_iff upto_29)
  moreover have "rank_from_rating x = ''ARCHSOM''" if "x \<ge> 3000"
    using that by (simp add: rank_from_rating_def)
  moreover have "rank_from_rating x = ''BRONZE I''" if "x < 600"
    using that by (simp add: rank_from_rating_def)
  ultimately show ?thesis by (auto simp: ladder_index_def) (simp_all add: bands_eval)
qed

lemma ranks_distinct: "distinct RANKS" and ranks_length: "length RANKS = 26"
  by code_simp+

lemma rank_from_rating_in: "rank_from_rating x \<in> set RANKS"
  unfolding rank_from_rating_ladder using ladder_index_le[of x]
  by (intro nth_mem) (simp only: ranks_length)

lemma index_rank_from_rating: "index_of (rank_from_rating x) RANKS = ladder_index x"
  unfolding rank_from_rating_ladder using ladder_index_le[of x]
  by (intro index_of_nth ranks_distinct) (simp only: ranks_length)

lemma ladder_index_mono: "x \<le> y \<Longrightarrow> ladder_index x \<le> ladder_index y"
proof -
  assume "x \<le> y"
  then have "\<lfloor>x / 100\<rfloor> \<le> \<lfloor>y / 100\<rfloor>" by (intro floor_mono) simp
  with \<open>x \<le> y\<close> show ?thesis
    using ladder_index_le[of x] by (auto simp: ladder_index_def)
qed

lemma rank_position_ok: "r \<in> set RANKS \<Longrightarrow> rank_position r = Inr (index_of r RANKS)"
  using normalise_ranks by (simp only: rank_position_def list_all_iff) simp

lemma sum_list_index_bounds:
  fixes f :: "'a \<Rightarrow> nat"
  assumes "\<forall>v \<in> set vs. lo \<le> f v \<and> f v \<le> hi"
  shows "lo * length vs \<le> (\<Sum>v\<leftarrow>vs. f v) \<and> (\<Sum>v\<leftarrow>vs. f v) \<le> hi * length vs"
  using assms by (induction vs) (auto simp: algebra_simps add_mono)

lemma average_rank_index:
  assumes "vs \<noteq> []"
  shows "average_rank vs = RANKS ! ((\<Sum>v\<leftarrow>vs. ladder_index v) div length vs)"
    and "(\<Sum>v\<leftarrow>vs. ladder_index v) div length vs \<le> 25"
proof -
  let ?s = "\<Sum>v\<leftarrow>vs. ladder_index v"
  have "nat \<lfloor>real ?s / real (length vs)\<rfloor> = ?s div length vs"
    by (simp add: floor_divide_of_nat_eq)
  then show "average_rank vs = RANKS ! (?s div length vs)"
    using assms by (simp add: average_rank_def index_rank_from_rating)
  have "?s \<le> 25 * length vs"
    using sum_list_index_bounds[of vs 0 ladder_index 25] ladder_index_le by simp
  then show "?s div length vs \<le> 25"
    by (metis assms div_le_mono length_greater_0_conv nonzero_mult_div_cancel_right neq0_conv)
qed

section \<open>Properties\<close>

text \<open>A rating names exactly one rung of the ladder: below 600 the lowest one, from 3000 the
  highest one, in between the rung of its 100-point band; the rung found is a valid rank.\<close>

theorem rank_position_of_rating:
  "rank_position (rank_from_rating x) =
     Inr (if x \<ge> 3000 then 25 else if x < 600 then 0 else nat (\<lfloor>x / 100\<rfloor> - 5))"
  using rank_position_ok[OF rank_from_rating_in[of x]]
  by (simp only: index_rank_from_rating ladder_index_def)

text \<open>The representative rating of a rank lies in the rank's own band: converting a rank to
  its midpoint rating and back gives the same rank, for all 26 ranks.\<close>

theorem rank_midpoint_roundtrip:
  "r \<in> set RANKS \<Longrightarrow> \<exists>x. rank_midpoint_rating r = Inr x \<and> rank_from_rating x = r"
proof -
  assume "r \<in> set RANKS"
  then have "case rank_midpoint_rating r of Inl _ \<Rightarrow> False | Inr x \<Rightarrow> rank_from_rating x = r"
    using midpoint_evals by (simp only: list_all_iff)
  then show ?thesis by (cases "rank_midpoint_rating r") auto
qed

text \<open>The pool rank of a group is a valid rank between the lowest and the highest rank of its
  members, and never above the mean position (the floor rounds towards the easier pool).\<close>

theorem average_rank_between:
  assumes "vs \<noteq> []" and "\<forall>v \<in> set vs. lo \<le> v \<and> v \<le> hi"
  shows "\<exists>i. rank_position (average_rank vs) = Inr i
    \<and> index_of (rank_from_rating lo) RANKS \<le> i \<and> i \<le> index_of (rank_from_rating hi) RANKS
    \<and> i * length vs \<le> (\<Sum>v\<leftarrow>vs. index_of (rank_from_rating v) RANKS)"
proof -
  let ?i = "(\<Sum>v\<leftarrow>vs. ladder_index v) div length vs"
  have pos: "rank_position (average_rank vs) = Inr ?i"
    using average_rank_index[OF assms(1)] rank_position_ok[of "RANKS ! ?i"]
      index_of_nth[OF ranks_distinct, of ?i]
    by (simp only: ranks_length nth_mem)
  have "\<forall>v \<in> set vs. ladder_index lo \<le> ladder_index v \<and> ladder_index v \<le> ladder_index hi"
    using assms(2) by (blast intro: ladder_index_mono)
  from sum_list_index_bounds[OF this]
  have "ladder_index lo \<le> ?i" and "?i \<le> ladder_index hi"
    using assms(1) by (metis div_le_mono length_greater_0_conv neq0_conv nonzero_mult_div_cancel_right)+
  then show ?thesis
    using pos by (simp only: index_rank_from_rating) simp
qed

text \<open>Every rank's pool can carry a full match: it has exactly one tiebreaker slot, an odd
  best-of, no repeated slot, and at least best-of minus one ordinary slots left after every ban.\<close>

theorem rank_pool_playable:
  assumes "r \<in> set RANKS"
  shows "\<exists>rule. rule_for r = Inr rule \<and> odd (rule_best_of rule) \<and> distinct (map fst (rule_slots rule))
    \<and> length (filter (\<lambda>s. s = ''TB'') (map fst (rule_slots rule))) = 1
    \<and> rule_best_of rule - 1 + 2 * rule_bans rule
        \<le> int (length (filter (\<lambda>s. s \<noteq> ''TB'') (map fst (rule_slots rule))))"
proof -
  from rule_for_band[OF assms] obtain rule where
    "rule_for r = Inr rule" and "(band_name r, rule) \<in> set RULES_BY_BAND" by blast
  then show ?thesis
    using rules_playable by (fastforce simp: list_all_iff names_playable_def )
qed

theorem rank_pool_playable_witness:
  "\<exists>rule. rule_for ''DIAMOND II'' = Inr rule \<and> odd (rule_best_of rule) \<and> distinct (map fst (rule_slots rule))
    \<and> length (filter (\<lambda>s. s = ''TB'') (map fst (rule_slots rule))) = 1
    \<and> rule_best_of rule - 1 + 2 * rule_bans rule
        \<le> int (length (filter (\<lambda>s. s \<noteq> ''TB'') (map fst (rule_slots rule))))"
  by (rule rank_pool_playable) (simp add: bands_eval)

definition tb_range :: "string \<Rightarrow> star_range option" where
  "tb_range band = (case map_of RULES_BY_BAND band of None \<Rightarrow> None | Some rule \<Rightarrow> map_of (rule_slots rule) ''TB'')"

lemma tb_range_rank: "r \<in> set RANKS \<Longrightarrow> map_of (rank_slots r) ''TB'' = tb_range (band_name r)"
  using rule_for_band[of r] by (auto simp: tb_range_def rank_slots_def )

lemma tb_range_eval [simp]:
  "tb_range ''ARCHSOM'' = Some (Some (83/10), None)"
  "tb_range ''DIAMOND'' = Some (Some 8, Some (UpTo (829/100)))"
  "tb_range ''PLATINUM'' = Some (Some (76/10), Some (UpTo (799/100)))"
  "tb_range ''GOLD'' = Some (Some (72/10), Some (UpTo (759/100)))"
  "tb_range ''SILVER'' = Some (Some (68/10), Some (UpTo (719/100)))"
  "tb_range ''BRONZE'' = Some (Some (66/10), Some (UpTo (679/100)))"
  by (simp_all add: tb_range_def RULES_BY_BAND_def tb_ranges)

definition tb_band :: "real \<Rightarrow> string" where
  "tb_band stars = (if stars \<ge> 83/10 then ''ARCHSOM'' else if stars \<ge> 8 then ''DIAMOND''
     else if stars \<ge> 76/10 then ''PLATINUM'' else if stars \<ge> 72/10 then ''GOLD''
     else if stars \<ge> 68/10 then ''SILVER'' else ''BRONZE'')"

lemma tb_range_band:
  assumes "b \<in> set (''ARCHSOM'' # rev BANDS)" and "tb_range b = Some x" and "star_within stars x"
  shows "b = tb_band stars"
  using assms by (auto simp: BANDS_def star_within_def tb_band_def)

lemma eligible_TB_iff:
  "r \<in> set (eligible_ranks ''TB'' stars) \<longleftrightarrow>
   r \<in> set RANKS \<and> (\<exists>x. tb_range (band_name r) = Some x \<and> star_within stars x)"
  by (auto simp: eligible_ranks_def tb_range_rank split: option.splits)

text \<open>Tiebreaker maps never serve two bands: if the stars of a map make it an eligible
  tiebreaker for two ranks, the ranks belong to the same band.\<close>

theorem tiebreaker_single_band:
  assumes "r \<in> set (eligible_ranks ''TB'' stars)" and "q \<in> set (eligible_ranks ''TB'' stars)"
  shows "band_name r = band_name q"
  using assms tb_range_band band_names unfolding list_all_iff eligible_TB_iff by metis

end
