(* ===== verification/ModTable.thy ===== *)
theory ModTable
  imports Pytext
begin

text \<open>
  \<open>static/mods.json\<close> as \<open>init_mods\<close> of \<open>models/mods/definition.py\<close> loads it into \<open>API_MODS\<close>: for every
  ruleset its mods in the file's order (an acronym listed twice keeps its first place and its last entry, as in the
  \<open>dict\<close>), each with the default values of its settings, the acronyms
  it is incompatible with and whether a player may choose it.  A JSON value is a \<open>setting_value\<close>; \<open>SNull\<close> is \<open>None\<close>; numbers
  are real numbers.  Names, descriptions and the multiplayer flags are not read by the modelled code.
\<close>

datatype setting_value = SBool bool | SNum real | SText string | SNull

type_synonym mod_settings = "(string \<times> setting_value) list"

record api_mod =
  acronym :: string
  settings :: mod_settings

record mod_info =
  default_settings :: mod_settings
  incompatible_mods :: "string list"
  user_playable :: bool

type_synonym mod_table = "(string \<times> mod_info) list"

abbreviation md ::
  "string \<Rightarrow> mod_settings \<Rightarrow> string list \<Rightarrow> bool \<Rightarrow> string \<times> mod_info" where
  "md a ss ics play \<equiv> (a, \<lparr>default_settings = ss, incompatible_mods = ics, user_playable = play\<rparr>)"

definition OSU_MODS :: mod_table where
  "OSU_MODS =
    [md ''EZ'' [(''retries'', SNum 2)] [''HR'', ''AC'', ''DA''] True,
     md ''NF'' [] [''SD'', ''PF'', ''AC'', ''CN''] True,
     md ''HT'' [(''speed_change'', SNum (3 / 4)), (''adjust_pitch'', SBool False)] [''HT'', ''DC'', ''DT'', ''NC'', ''WU'', ''WD'', ''AS''] True,
     md ''DC'' [(''speed_change'', SNum (3 / 4))] [''HT'', ''DC'', ''DT'', ''NC'', ''WU'', ''WD'', ''AS''] True,
     md ''HR'' [] [''EZ'', ''DA'', ''MR''] True,
     md ''SD'' [(''fail_on_slider_tail'', SBool False), (''restart'', SBool False)] [''NF'', ''PF'', ''TP'', ''CN''] True,
     md ''PF'' [(''restart'', SBool True)] [''NF'', ''SD'', ''AC'', ''CN''] True,
     md ''DT'' [(''speed_change'', SNum (3 / 2)), (''adjust_pitch'', SBool False)] [''HT'', ''DC'', ''DT'', ''NC'', ''WU'', ''WD'', ''AS''] True,
     md ''NC'' [(''speed_change'', SNum (3 / 2))] [''HT'', ''DC'', ''DT'', ''NC'', ''WU'', ''WD'', ''AS''] True,
     md ''HD'' [(''only_fade_approach_circles'', SBool False)] [''TC'', ''SI'', ''AD'', ''FR'', ''DP''] True,
     md ''TC'' [] [''HD'', ''TP'', ''SI'', ''GR'', ''DF'', ''DP''] True,
     md ''FL'' [(''follow_delay'', SNum 120), (''size_multiplier'', SNum 1), (''combo_based_size'', SBool True)] [''BL'', ''BM''] True,
     md ''BL'' [] [''FL''] True,
     md ''ST'' [] [''TP'', ''CL''] True,
     md ''AC'' [(''minimum_accuracy'', SNum (9 / 10)), (''accuracy_judge_mode'', SText ''0''), (''restart'', SBool False)] [''EZ'', ''NF'', ''PF'', ''CN''] True,
     md ''TP'' [(''seed'', SNull), (''metronome'', SBool True)] [''SD'', ''TC'', ''ST'', ''DA'', ''RD'', ''SO'', ''AD'', ''DP''] True,
     md ''DA'' [(''circle_size'', SNull), (''approach_rate'', SNull), (''drain_rate'', SNull), (''overall_difficulty'', SNull), (''extended_limits'', SBool False)] [''EZ'', ''HR'', ''TP''] True,
     md ''CL'' [(''no_slider_head_accuracy'', SBool True), (''classic_note_lock'', SBool True), (''always_play_tail_sample'', SBool True), (''fade_hit_circle_early'', SBool True), (''classic_health'', SBool True)] [''ST''] True,
     md ''RD'' [(''angle_sharpness'', SNum 7), (''seed'', SNull)] [''TP''] True,
     md ''MR'' [(''reflection'', SText ''0'')] [''HR''] True,
     md ''AL'' [] [''SG'', ''AT'', ''CN'', ''RX''] True,
     md ''SG'' [] [''AL'', ''AT'', ''CN'', ''RX''] True,
     md ''AT'' [] [''AL'', ''SG'', ''CN'', ''RX'', ''AP'', ''SO'', ''MG'', ''RP'', ''AS'', ''TD''] False,
     md ''CN'' [] [''NF'', ''SD'', ''PF'', ''AC'', ''AL'', ''SG'', ''AT'', ''CN'', ''RX'', ''AP'', ''SO'', ''MG'', ''RP'', ''AS'', ''TD''] False,
     md ''RX'' [] [''AL'', ''SG'', ''AT'', ''CN'', ''AP'', ''MG''] True,
     md ''AP'' [] [''AT'', ''CN'', ''RX'', ''SO'', ''MG'', ''RP'', ''TD''] True,
     md ''SO'' [] [''TP'', ''AT'', ''CN'', ''AP''] True,
     md ''TR'' [] [''WG'', ''MG'', ''RP'', ''FR'', ''DP''] True,
     md ''WG'' [(''strength'', SNum 1)] [''TR'', ''MG'', ''RP'', ''DP''] True,
     md ''SI'' [] [''HD'', ''TC'', ''GR'', ''DF'', ''AD'', ''DP''] True,
     md ''GR'' [(''start_scale'', SNum (1 / 2))] [''TC'', ''SI'', ''GR'', ''DF'', ''AD'', ''DP''] True,
     md ''DF'' [(''start_scale'', SNum 2)] [''TC'', ''SI'', ''GR'', ''DF'', ''AD'', ''DP''] True,
     md ''WU'' [(''initial_rate'', SNum 1), (''final_rate'', SNum (3 / 2)), (''adjust_pitch'', SBool True)] [''HT'', ''DC'', ''DT'', ''NC'', ''WD'', ''AS''] True,
     md ''WD'' [(''initial_rate'', SNum 1), (''final_rate'', SNum (3 / 4)), (''adjust_pitch'', SBool True)] [''HT'', ''DC'', ''DT'', ''NC'', ''WU'', ''AS''] True,
     md ''BR'' [(''spin_speed'', SNum (1 / 2)), (''direction'', SText ''0'')] [''BU''] True,
     md ''AD'' [(''scale'', SNum 4), (''style'', SText ''1'')] [''HD'', ''TP'', ''SI'', ''GR'', ''DF'', ''FR''] True,
     md ''MU'' [(''inverse_muting'', SBool False), (''enable_metronome'', SBool True), (''mute_combo_count'', SNum 100), (''affects_hit_sounds'', SBool True)] [] True,
     md ''NS'' [(''hidden_combo_count'', SNum 10)] [''BM''] True,
     md ''MG'' [(''attraction_strength'', SNum (1 / 2))] [''AT'', ''CN'', ''RX'', ''AP'', ''TR'', ''WG'', ''RP'', ''BU'', ''DP''] True,
     md ''RP'' [(''repulsion_strength'', SNum (1 / 2))] [''AT'', ''CN'', ''AP'', ''TR'', ''WG'', ''MG'', ''BU'', ''DP''] True,
     md ''AS'' [(''initial_rate'', SNum 1), (''adjust_pitch'', SBool True)] [''HT'', ''DC'', ''DT'', ''NC'', ''AT'', ''CN'', ''WU'', ''WD''] True,
     md ''FR'' [] [''HD'', ''TR'', ''AD'', ''DP''] True,
     md ''BU'' [] [''BR'', ''MG'', ''RP''] True,
     md ''SY'' [] [] True,
     md ''DP'' [(''max_depth'', SNum 100), (''show_approach_circles'', SBool True)] [''HD'', ''TC'', ''TP'', ''TR'', ''WG'', ''SI'', ''GR'', ''DF'', ''MG'', ''RP'', ''FR'', ''DP''] True,
     md ''BM'' [(''max_size_combo_count'', SNum 50), (''max_cursor_size'', SNum 10)] [''FL'', ''NS'', ''TD''] True,
     md ''TD'' [] [''AT'', ''CN'', ''AP'', ''BM''] True,
     md ''SV2'' [] [] False]"

definition TAIKO_MODS :: mod_table where
  "TAIKO_MODS =
    [md ''EZ'' [] [''HR'', ''DA''] True,
     md ''NF'' [] [''SD'', ''PF'', ''AC'', ''CN''] True,
     md ''HT'' [(''speed_change'', SNum (3 / 4)), (''adjust_pitch'', SBool False)] [''HT'', ''DC'', ''DT'', ''NC'', ''WU'', ''WD'', ''AS''] True,
     md ''DC'' [(''speed_change'', SNum (3 / 4))] [''HT'', ''DC'', ''DT'', ''NC'', ''WU'', ''WD'', ''AS''] True,
     md ''SR'' [(''one_third_conversion'', SBool False), (''one_sixth_conversion'', SBool True), (''one_eighth_conversion'', SBool False)] [] True,
     md ''HR'' [] [''EZ'', ''DA''] True,
     md ''SD'' [(''restart'', SBool False)] [''NF'', ''PF'', ''CN''] True,
     md ''PF'' [(''restart'', SBool True)] [''NF'', ''SD'', ''AC'', ''CN''] True,
     md ''DT'' [(''speed_change'', SNum (3 / 2)), (''adjust_pitch'', SBool False)] [''HT'', ''DC'', ''DT'', ''NC'', ''WU'', ''WD'', ''AS''] True,
     md ''NC'' [(''speed_change'', SNum (3 / 2))] [''HT'', ''DC'', ''DT'', ''NC'', ''WU'', ''WD'', ''AS''] True,
     md ''HD'' [] [] True,
     md ''FL'' [(''size_multiplier'', SNum 1), (''combo_based_size'', SBool True)] [] True,
     md ''AC'' [(''minimum_accuracy'', SNum (9 / 10)), (''accuracy_judge_mode'', SText ''0''), (''restart'', SBool False)] [''NF'', ''PF'', ''CN''] True,
     md ''RD'' [(''seed'', SNull)] [''SW''] True,
     md ''DA'' [(''scroll_speed'', SNull), (''drain_rate'', SNull), (''overall_difficulty'', SNull), (''extended_limits'', SBool False)] [''EZ'', ''HR''] True,
     md ''CL'' [] [] True,
     md ''SW'' [] [''RD''] True,
     md ''SG'' [] [''AT'', ''CN'', ''RX''] True,
     md ''CS'' [] [] True,
     md ''AT'' [] [''SG'', ''CN'', ''RX'', ''AS''] False,
     md ''CN'' [] [''NF'', ''SD'', ''PF'', ''AC'', ''SG'', ''AT'', ''CN'', ''RX'', ''AS''] False,
     md ''RX'' [] [''SG'', ''AT'', ''CN''] True,
     md ''WU'' [(''initial_rate'', SNum 1), (''final_rate'', SNum (3 / 2)), (''adjust_pitch'', SBool True)] [''HT'', ''DC'', ''DT'', ''NC'', ''WD'', ''AS''] True,
     md ''WD'' [(''initial_rate'', SNum 1), (''final_rate'', SNum (3 / 4)), (''adjust_pitch'', SBool True)] [''HT'', ''DC'', ''DT'', ''NC'', ''WU'', ''AS''] True,
     md ''MU'' [(''inverse_muting'', SBool False), (''enable_metronome'', SBool True), (''mute_combo_count'', SNum 100), (''affects_hit_sounds'', SBool True)] [] True,
     md ''AS'' [(''initial_rate'', SNum 1), (''adjust_pitch'', SBool True)] [''HT'', ''DC'', ''DT'', ''NC'', ''AT'', ''CN'', ''WU'', ''WD''] True,
     md ''SV2'' [] [] False]"

definition CATCH_MODS :: mod_table where
  "CATCH_MODS =
    [md ''EZ'' [(''retries'', SNum 2)] [''HR'', ''AC'', ''DA''] True,
     md ''NF'' [] [''SD'', ''PF'', ''AC'', ''CN''] True,
     md ''HT'' [(''speed_change'', SNum (3 / 4)), (''adjust_pitch'', SBool False)] [''HT'', ''DC'', ''DT'', ''NC'', ''WU'', ''WD''] True,
     md ''DC'' [(''speed_change'', SNum (3 / 4))] [''HT'', ''DC'', ''DT'', ''NC'', ''WU'', ''WD''] True,
     md ''HR'' [] [''EZ'', ''DA''] True,
     md ''SD'' [(''restart'', SBool False)] [''NF'', ''PF'', ''CN''] True,
     md ''PF'' [(''restart'', SBool True)] [''NF'', ''SD'', ''AC'', ''CN''] True,
     md ''DT'' [(''speed_change'', SNum (3 / 2)), (''adjust_pitch'', SBool False)] [''HT'', ''DC'', ''DT'', ''NC'', ''WU'', ''WD''] True,
     md ''NC'' [(''speed_change'', SNum (3 / 2))] [''HT'', ''DC'', ''DT'', ''NC'', ''WU'', ''WD''] True,
     md ''HD'' [] [] True,
     md ''FL'' [(''size_multiplier'', SNum 1), (''combo_based_size'', SBool True)] [] True,
     md ''AC'' [(''minimum_accuracy'', SNum (9 / 10)), (''accuracy_judge_mode'', SText ''0''), (''restart'', SBool False)] [''EZ'', ''NF'', ''PF'', ''CN''] True,
     md ''DA'' [(''circle_size'', SNull), (''approach_rate'', SNull), (''hard_rock_offsets'', SBool False), (''drain_rate'', SNull), (''overall_difficulty'', SNull), (''extended_limits'', SBool False)] [''EZ'', ''HR''] True,
     md ''CL'' [] [] True,
     md ''MR'' [] [] True,
     md ''AT'' [] [''CN'', ''RX'', ''MF''] False,
     md ''CN'' [] [''NF'', ''SD'', ''PF'', ''AC'', ''AT'', ''CN'', ''RX'', ''MF''] False,
     md ''RX'' [] [''AT'', ''CN'', ''MF''] True,
     md ''WU'' [(''initial_rate'', SNum 1), (''final_rate'', SNum (3 / 2)), (''adjust_pitch'', SBool True)] [''HT'', ''DC'', ''DT'', ''NC'', ''WD''] True,
     md ''WD'' [(''initial_rate'', SNum 1), (''final_rate'', SNum (3 / 4)), (''adjust_pitch'', SBool True)] [''HT'', ''DC'', ''DT'', ''NC'', ''WU''] True,
     md ''FF'' [] [] True,
     md ''MU'' [(''inverse_muting'', SBool False), (''enable_metronome'', SBool True), (''mute_combo_count'', SNum 100), (''affects_hit_sounds'', SBool True)] [] True,
     md ''NS'' [(''hidden_combo_count'', SNum 10)] [] True,
     md ''MF'' [] [''AT'', ''CN'', ''RX''] True,
     md ''SY'' [] [] True,
     md ''SV2'' [] [] False]"

definition MANIA_MODS :: mod_table where
  "MANIA_MODS =
    [md ''EZ'' [(''retries'', SNum 2)] [''HR'', ''AC'', ''DA''] True,
     md ''NF'' [] [''SD'', ''PF'', ''AC'', ''CN''] True,
     md ''HT'' [(''speed_change'', SNum (3 / 4)), (''adjust_pitch'', SBool False)] [''HT'', ''DC'', ''DT'', ''NC'', ''WU'', ''WD'', ''AS''] True,
     md ''DC'' [(''speed_change'', SNum (3 / 4))] [''HT'', ''DC'', ''DT'', ''NC'', ''WU'', ''WD'', ''AS''] True,
     md ''NR'' [] [''IN'', ''HO''] True,
     md ''HR'' [] [''EZ'', ''DA''] True,
     md ''SD'' [(''restart'', SBool False)] [''NF'', ''PF'', ''CN''] True,
     md ''PF'' [(''require_perfect_hits'', SBool False), (''restart'', SBool True)] [''NF'', ''SD'', ''AC'', ''CN''] True,
     md ''DT'' [(''speed_change'', SNum (3 / 2)), (''adjust_pitch'', SBool False)] [''HT'', ''DC'', ''DT'', ''NC'', ''WU'', ''WD'', ''AS''] True,
     md ''NC'' [(''speed_change'', SNum (3 / 2))] [''HT'', ''DC'', ''DT'', ''NC'', ''WU'', ''WD'', ''AS''] True,
     md ''FI'' [] [''FI'', ''HD'', ''CO'', ''FL''] True,
     md ''HD'' [] [''FI'', ''CO'', ''FL''] True,
     md ''CO'' [(''coverage'', SNum (1 / 2)), (''direction'', SText ''0'')] [''FI'', ''HD'', ''FL''] True,
     md ''FL'' [(''size_multiplier'', SNum 1), (''combo_based_size'', SBool False)] [''FI'', ''HD'', ''CO''] True,
     md ''AC'' [(''minimum_accuracy'', SNum (9 / 10)), (''accuracy_judge_mode'', SText ''0''), (''restart'', SBool False)] [''EZ'', ''NF'', ''PF'', ''CN''] True,
     md ''RD'' [(''seed'', SNull)] [] True,
     md ''DS'' [] [] True,
     md ''MR'' [] [] True,
     md ''DA'' [(''overall_difficulty'', SNull), (''drain_rate'', SNull), (''extended_limits'', SBool False)] [''EZ'', ''HR''] True,
     md ''CL'' [] [] True,
     md ''IN'' [] [''NR'', ''HO''] True,
     md ''CS'' [] [] True,
     md ''HO'' [] [''NR'', ''IN''] True,
     md ''1K'' [] [''2K'', ''3K'', ''4K'', ''5K'', ''6K'', ''7K'', ''8K'', ''9K'', ''10K''] True,
     md ''2K'' [] [''1K'', ''3K'', ''4K'', ''5K'', ''6K'', ''7K'', ''8K'', ''9K'', ''10K''] True,
     md ''3K'' [] [''1K'', ''2K'', ''4K'', ''5K'', ''6K'', ''7K'', ''8K'', ''9K'', ''10K''] True,
     md ''4K'' [] [''1K'', ''2K'', ''3K'', ''5K'', ''6K'', ''7K'', ''8K'', ''9K'', ''10K''] True,
     md ''5K'' [] [''1K'', ''2K'', ''3K'', ''4K'', ''6K'', ''7K'', ''8K'', ''9K'', ''10K''] True,
     md ''6K'' [] [''1K'', ''2K'', ''3K'', ''4K'', ''5K'', ''7K'', ''8K'', ''9K'', ''10K''] True,
     md ''7K'' [] [''1K'', ''2K'', ''3K'', ''4K'', ''5K'', ''6K'', ''8K'', ''9K'', ''10K''] True,
     md ''8K'' [] [''1K'', ''2K'', ''3K'', ''4K'', ''5K'', ''6K'', ''7K'', ''9K'', ''10K''] True,
     md ''9K'' [] [''1K'', ''2K'', ''3K'', ''4K'', ''5K'', ''6K'', ''7K'', ''8K'', ''10K''] True,
     md ''10K'' [] [''1K'', ''2K'', ''3K'', ''4K'', ''5K'', ''6K'', ''7K'', ''8K'', ''9K''] True,
     md ''AT'' [] [''CN'', ''AS''] False,
     md ''CN'' [] [''NF'', ''SD'', ''PF'', ''AC'', ''AT'', ''CN'', ''AS''] False,
     md ''WU'' [(''initial_rate'', SNum 1), (''final_rate'', SNum (3 / 2)), (''adjust_pitch'', SBool True)] [''HT'', ''DC'', ''DT'', ''NC'', ''WD'', ''AS''] True,
     md ''WD'' [(''initial_rate'', SNum 1), (''final_rate'', SNum (3 / 4)), (''adjust_pitch'', SBool True)] [''HT'', ''DC'', ''DT'', ''NC'', ''WU'', ''AS''] True,
     md ''MU'' [(''inverse_muting'', SBool False), (''enable_metronome'', SBool True), (''mute_combo_count'', SNum 100), (''affects_hit_sounds'', SBool True)] [] True,
     md ''AS'' [(''initial_rate'', SNum 1), (''adjust_pitch'', SBool True)] [''HT'', ''DC'', ''DT'', ''NC'', ''AT'', ''CN'', ''WU'', ''WD''] True,
     md ''SV2'' [] [] False]"

definition SENTAKKI_MODS :: mod_table where
  "SENTAKKI_MODS =
    [md ''HT'' [(''speed_change'', SNum (3 / 4)), (''adjust_pitch'', SBool False)] [''HT'', ''DC'', ''DT'', ''NC'', ''WU'', ''WD'', ''AS''] True,
     md ''DC'' [(''speed_change'', SNum (3 / 4))] [''HT'', ''DC'', ''DT'', ''NC'', ''WU'', ''WD'', ''AS''] True,
     md ''HR'' [(''judgement_mode'', SText ''1''), (''minimum_valid_result'', SText ''2''), (''strict_slider_tracking'', SBool False)] [] True,
     md ''SD'' [(''restart'', SBool False)] [''PF'', ''C'', ''AT''] True,
     md ''PF'' [(''restart'', SBool True)] [''SD'', ''C'', ''AT''] True,
     md ''C'' [(''live_setting'', SText ''50''), (''restart'', SBool False)] [''SD'', ''PF'', ''C'', ''AC'', ''AT''] True,
     md ''AC'' [(''minimum_accuracy'', SNum (9 / 10)), (''accuracy_judge_mode'', SText ''0''), (''restart'', SBool False)] [''SD'', ''PF'', ''C'', ''AC'', ''AT''] True,
     md ''DT'' [(''speed_change'', SNum (3 / 2)), (''adjust_pitch'', SBool False)] [''HT'', ''DC'', ''DT'', ''NC'', ''WU'', ''WD'', ''AS''] True,
     md ''NC'' [(''speed_change'', SNum (3 / 2))] [''HT'', ''DC'', ''DT'', ''NC'', ''WU'', ''WD'', ''AS''] True,
     md ''HD'' [(''visible_radius'', SNum (3 / 5))] [] True,
     md ''Ex'' [(''enable_slide_fans'', SBool False), (''old_conversion'', SBool False), (''enable_twin_notes'', SBool False), (''enable_twin_slides'', SBool False)] [] True,
     md ''CL'' [] [] True,
     md ''MR'' [(''vertical_mirrored'', SBool False), (''horizontal_mirrored'', SBool False)] [] True,
     md ''DA'' [(''break_removal'', SBool False), (''ex_removal'', SBool False), (''all_ex'', SBool False)] [] True,
     md ''AT'' [] [''SD'', ''PF'', ''C'', ''AC'', ''NT'', ''AS''] False,
     md ''NT'' [] [''AT''] True,
     md ''WU'' [(''initial_rate'', SNum 1), (''final_rate'', SNum (3 / 2)), (''adjust_pitch'', SBool True)] [''HT'', ''DC'', ''DT'', ''NC'', ''WD'', ''AS''] True,
     md ''WD'' [(''initial_rate'', SNum 1), (''final_rate'', SNum (3 / 4)), (''adjust_pitch'', SBool True)] [''HT'', ''DC'', ''DT'', ''NC'', ''WU'', ''AS''] True,
     md ''BR'' [(''spin_speed'', SNum (1 / 2)), (''direction'', SText ''0'')] [] True,
     md ''MU'' [(''inverse_muting'', SBool False), (''enable_metronome'', SBool True), (''mute_combo_count'', SNum 100), (''affects_hit_sounds'', SBool True)] [] True,
     md ''AS'' [(''initial_rate'', SNum 1), (''adjust_pitch'', SBool True)] [''HT'', ''DC'', ''DT'', ''NC'', ''AT'', ''WU'', ''WD''] True,
     md ''SY'' [(''interval_colouring'', SBool False)] [] True,
     md ''TD'' [] [] True]"

definition TAU_MODS :: mod_table where
  "TAU_MODS =
    [md ''EZ'' [(''retries'', SNum 2)] [''HR'', ''DA''] True,
     md ''NF'' [] [''SD'', ''PF'', ''CN''] True,
     md ''HT'' [(''speed_change'', SNum (3 / 4)), (''adjust_pitch'', SBool False)] [''HT'', ''DC'', ''DT'', ''NC'', ''WU'', ''WD'', ''AS''] True,
     md ''DC'' [(''speed_change'', SNum (3 / 4))] [''HT'', ''DC'', ''DT'', ''NC'', ''WU'', ''WD'', ''AS''] True,
     md ''LN'' [] [''ST'', ''LT''] True,
     md ''HR'' [] [''EZ'', ''DA''] True,
     md ''SD'' [(''restart'', SBool False)] [''NF'', ''PF'', ''CN'', ''AP''] True,
     md ''PF'' [(''restart'', SBool True)] [''NF'', ''SD'', ''CN''] True,
     md ''DT'' [(''speed_change'', SNum (3 / 2)), (''adjust_pitch'', SBool False)] [''HT'', ''DC'', ''DT'', ''NC'', ''WU'', ''WD'', ''AS''] True,
     md ''NC'' [(''speed_change'', SNum (3 / 2))] [''HT'', ''DC'', ''DT'', ''NC'', ''WU'', ''WD'', ''AS''] True,
     md ''FO'' [] [] True,
     md ''FI'' [] [] True,
     md ''FL'' [(''size_multiplier'', SNum 1), (''combo_based_size'', SBool True)] [] True,
     md ''ST'' [] [''LN'', ''LT''] True,
     md ''DA'' [(''paddle_size'', SNull), (''approach_rate'', SNull), (''drain_rate'', SNull), (''overall_difficulty'', SNull), (''extended_limits'', SBool False)] [''EZ'', ''HR''] True,
     md ''LT'' [(''toggle_sliders'', SBool False), (''toggle_hard_beats'', SBool False), (''sliders_division_level'', SNum 2)] [''LN'', ''ST''] True,
     md ''AT'' [] [''CN'', ''RX'', ''AP'', ''AS''] False,
     md ''CN'' [] [''NF'', ''SD'', ''PF'', ''AT'', ''AT'', ''CN'', ''RX'', ''AP'', ''AS''] False,
     md ''RX'' [] [''AT'', ''AT'', ''CN'', ''AP''] True,
     md ''AP'' [] [''NF'', ''SD'', ''PF'', ''AT'', ''AT'', ''CN'', ''RX''] True,
     md ''WU'' [(''initial_rate'', SNum 1), (''final_rate'', SNum (3 / 2)), (''adjust_pitch'', SBool True)] [''HT'', ''DC'', ''DT'', ''NC'', ''WD'', ''AS''] True,
     md ''WD'' [(''initial_rate'', SNum 1), (''final_rate'', SNum (3 / 4)), (''adjust_pitch'', SBool True)] [''HT'', ''DC'', ''DT'', ''NC'', ''WU'', ''AS''] True,
     md ''AS'' [(''initial_rate'', SNum 1), (''adjust_pitch'', SBool True)] [''HT'', ''DC'', ''DT'', ''NC'', ''AT'', ''AT'', ''CN'', ''WU'', ''WD''] True,
     md ''IS'' [] [] True,
     md ''RB'' [(''direction'', SText ''0'')] [''AT''] True,
     md ''NS'' [(''hidden_combo_count'', SNum 10)] [] True,
     md ''TC'' [] [] True,
     md ''DL'' [(''paddle_count'', SNum 2)] [] True,
     md ''BR'' [(''spin_speed'', SNum (1 / 2)), (''direction'', SText ''0'')] [] True]"

definition RUSH_MODS :: mod_table where
  "RUSH_MODS =
    [md ''NF'' [] [''SD'', ''PF'', ''CN''] True,
     md ''HT'' [(''speed_change'', SNum (3 / 4)), (''adjust_pitch'', SBool False)] [''HT'', ''DC'', ''DT'', ''NC'', ''WU'', ''WD''] True,
     md ''DC'' [(''speed_change'', SNum (3 / 4))] [''HT'', ''DC'', ''DT'', ''NC'', ''WU'', ''WD''] True,
     md ''SD'' [(''restart'', SBool False)] [''NF'', ''PF'', ''CN''] True,
     md ''PF'' [(''restart'', SBool True)] [''NF'', ''SD'', ''CN''] True,
     md ''DT'' [(''speed_change'', SNum (3 / 2)), (''adjust_pitch'', SBool False)] [''HT'', ''DC'', ''DT'', ''NC'', ''WU'', ''WD''] True,
     md ''NC'' [(''speed_change'', SNum (3 / 2))] [''HT'', ''DC'', ''DT'', ''NC'', ''WU'', ''WD''] True,
     md ''FL'' [(''size_multiplier'', SNum 1), (''combo_based_size'', SBool True)] [] True,
     md ''AT'' [] [''CN''] False,
     md ''CN'' [] [''NF'', ''SD'', ''PF'', ''AT'', ''CN''] False,
     md ''WU'' [(''initial_rate'', SNum 1), (''final_rate'', SNum (3 / 2)), (''adjust_pitch'', SBool True)] [''HT'', ''DC'', ''DT'', ''NC'', ''WD''] True,
     md ''WD'' [(''initial_rate'', SNum 1), (''final_rate'', SNum (3 / 4)), (''adjust_pitch'', SBool True)] [''HT'', ''DC'', ''DT'', ''NC'', ''WU''] True]"

definition HISHIGATA_MODS :: mod_table where
  "HISHIGATA_MODS =
    [md ''HT'' [(''speed_change'', SNum (3 / 4)), (''adjust_pitch'', SBool False)] [''HT'', ''DC'', ''DT'', ''NC'', ''WU'', ''WD''] True,
     md ''DC'' [(''speed_change'', SNum (3 / 4))] [''HT'', ''DC'', ''DT'', ''NC'', ''WU'', ''WD''] True,
     md ''NF'' [] [''SD''] True,
     md ''HR'' [] [] True,
     md ''SD'' [(''restart'', SBool False)] [''NF''] True,
     md ''DT'' [(''speed_change'', SNum (3 / 2)), (''adjust_pitch'', SBool False)] [''HT'', ''DC'', ''DT'', ''NC'', ''WU'', ''WD''] True,
     md ''NC'' [(''speed_change'', SNum (3 / 2))] [''HT'', ''DC'', ''DT'', ''NC'', ''WU'', ''WD''] True,
     md ''HD'' [] [] True,
     md ''TW'' [] [''UW'', ''IN''] True,
     md ''UW'' [] [''TW'', ''IN''] True,
     md ''IN'' [] [''TW'', ''UW''] True,
     md ''AT'' [] [] False,
     md ''WU'' [(''initial_rate'', SNum 1), (''final_rate'', SNum (3 / 2)), (''adjust_pitch'', SBool True)] [''HT'', ''DC'', ''DT'', ''NC'', ''WD''] True,
     md ''WD'' [(''initial_rate'', SNum 1), (''final_rate'', SNum (3 / 4)), (''adjust_pitch'', SBool True)] [''HT'', ''DC'', ''DT'', ''NC'', ''WU''] True]"

definition SOYOKAZE_MODS :: mod_table where
  "SOYOKAZE_MODS =
    [md ''EZ'' [(''retries'', SNum 2)] [''HR'', ''DA''] True,
     md ''NF'' [] [''SD'', ''PF'', ''CN''] True,
     md ''HT'' [(''speed_change'', SNum (3 / 4)), (''adjust_pitch'', SBool False)] [''HT'', ''DC'', ''DT'', ''NC'', ''WU'', ''WD''] True,
     md ''DC'' [(''speed_change'', SNum (3 / 4))] [''HT'', ''DC'', ''DT'', ''NC'', ''WU'', ''WD''] True,
     md ''ST'' [] [] True,
     md ''HR'' [] [''EZ'', ''DA''] True,
     md ''SD'' [(''restart'', SBool False)] [''NF'', ''PF'', ''CN''] True,
     md ''PF'' [(''restart'', SBool True)] [''NF'', ''SD'', ''CN''] True,
     md ''DT'' [(''speed_change'', SNum (3 / 2)), (''adjust_pitch'', SBool False)] [''HT'', ''DC'', ''DT'', ''NC'', ''WU'', ''WD''] True,
     md ''NC'' [(''speed_change'', SNum (3 / 2))] [''HT'', ''DC'', ''DT'', ''NC'', ''WU'', ''WD''] True,
     md ''HD'' [(''fading_approach_circle'', SBool True)] [] True,
     md ''RD'' [(''seed'', SNull)] [] True,
     md ''DA'' [(''circle_size'', SNull), (''approach_rate'', SNull), (''drain_rate'', SNull), (''overall_difficulty'', SNull), (''extended_limits'', SBool False)] [''EZ'', ''HR''] True,
     md ''AT'' [] [''CN''] False,
     md ''CN'' [] [''NF'', ''SD'', ''PF'', ''AT'', ''CN''] False,
     md ''WU'' [(''initial_rate'', SNum 1), (''final_rate'', SNum (3 / 2)), (''adjust_pitch'', SBool True)] [''HT'', ''DC'', ''DT'', ''NC'', ''WD''] True,
     md ''WD'' [(''initial_rate'', SNum 1), (''final_rate'', SNum (3 / 4)), (''adjust_pitch'', SBool True)] [''HT'', ''DC'', ''DT'', ''NC'', ''WU''] True,
     md ''HO'' [] [] True]"

definition API_MODS :: "int \<Rightarrow> mod_table option" where
  "API_MODS r =
    (if r = 0 then Some OSU_MODS
     else if r = 1 then Some TAIKO_MODS
     else if r = 2 then Some CATCH_MODS
     else if r = 3 then Some MANIA_MODS
     else if r = 10 then Some SENTAKKI_MODS
     else if r = 11 then Some TAU_MODS
     else if r = 12 then Some RUSH_MODS
     else if r = 13 then Some HISHIGATA_MODS
     else if r = 14 then Some SOYOKAZE_MODS
     else None)"

end
