(* ===== verification/MatchData.thy ===== *)
theory MatchData
  imports ModTable
begin

text \<open>
  The data of a tournament match: the JSON document kept in \<open>SomsaiMatch.state\<close>, built by
  \<open>create_match\<close> and changed by every later operation, and the \<open>SomsaiMatch\<close> row around it.

  JSON keys become record fields.  A key the code reads with a default (\<open>state.get(...)\<close>)
  before any operation has written it is an option (\<open>available\<close>) or starts at that default
  (\<open>force_start\<close>, \<open>draft_history\<close>, \<open>rating_changes\<close>, \<open>reason\<close>).  User ids keyed as strings
  (\<open>offline\<close>, \<open>bot_scores\<close>) are association lists over the ids; teams are 0 and 1.
\<close>

section \<open>Enumerations\<close>

datatype stage =
  Waiting | PoolSelect | Banning | Picking | Ready | Playing | Results | Ended | Cancelled

definition FINAL_STAGES :: "stage set" where
  "FINAL_STAGES = {Ended, Cancelled}"

datatype slot_status = Available | Tiebreaker | Banned | Picked | Played

section \<open>Slots, players and rounds\<close>

record slot =
  slot_id :: string
  category :: string
  s_beatmap_id :: int
  checksum :: string
  s_name :: string
  s_mods :: "api_mod list"
  difficulty_rating :: real
  s_title :: string
  s_stars :: real
  status :: slot_status
  selected_by_team :: "nat option"

type_synonym counters = "(string \<times> int) list"

record player_result =
  user_id :: int
  score :: int
  accuracy :: real
  score_id :: "int option"
  missing :: bool
  is_bot :: bool
  max_combo :: int
  statistics :: counters
  maximum_statistics :: counters
  p_rank :: string
  passed :: bool

record round_result =
  round_no :: nat
  r_slot_id :: string
  r_item_id :: int
  team_scores :: "int list"
  winner_team_id :: "nat option"
  players :: "player_result list"
  picked_by_team :: "nat option"
  forfeit :: bool
  r_reason :: string

record bot_score =
  b_score :: int
  b_accuracy :: real
  b_max_combo :: int
  b_statistics :: counters
  b_maximum_statistics :: counters
  b_rank :: string
  b_passed :: bool

record ai_profile =
  ai_version :: nat
  ai_rating :: int
  ai_division :: string
  ai_minimum_score :: int
  ai_minimum_accuracy :: real
  archetype :: string
  weakness :: "string option"
  match_form :: real
  consistency :: real
  freemod_preference :: "string option"
  tiebreaker_preference :: "string option"
  ai_slot_modifiers :: "(string \<times> real) list"

record bot =
  bot_user :: int
  bot_level :: string
  bot_ai :: ai_profile
  official_id :: "int option"
  bot_username :: string
  official_rank :: "int option"
  bot_seed :: nat

record draft_entry =
  d_action :: string
  d_slot_id :: string
  d_team :: nat

record rating_change =
  rc_user :: int
  rc_before :: int
  rc_after :: int
  rc_delta :: int
  rc_impact :: int
  rc_gap :: real

record pool_candidate =
  pc_id :: int
  pc_name :: string
  pc_revision :: int
  pc_source_url :: "string option"
  pc_slots :: "slot list"
  pc_best_of :: int
  pc_bans_per_team :: int

section \<open>The state document and the match row\<close>

record match_state =
  teams :: "int list list"
  bots :: "bot list"
  bot_scores :: "(int \<times> bot_score) list"
  captains :: "int option list"
  wins :: "nat list"
  slots :: "slot list"
  best_of :: int
  bans_per_team :: int
  pool_name :: string
  pool_revision :: int
  source_url :: "string option"
  pool_candidates :: "pool_candidate list"
  pool_votes :: "(nat \<times> int) list"
  pool_selected :: bool
  match_rating :: int
  pool_rank :: "string option"
  accepted :: "int list"
  ready :: "int list"
  bans :: "nat list"
  turn_team :: nat
  next_pick_team :: nat
  deadline :: "time option"
  is_private :: bool
  arbitrary :: bool
  history :: "round_result list"
  reservations :: "string list"
  current_slot :: "string option"
  playlist_item_id :: int
  settled :: bool
  match_winner :: "nat option"
  offline :: "(int \<times> time) list"
  connected :: "int list"
  server_seen_at :: time
  results_notified :: bool
  available :: "int list option"
  force_start :: bool
  round_started_at :: "time option"
  draft_history :: "draft_entry list"
  rating_changes :: "rating_change list"
  impacts :: "(int \<times> int) list"
  reason :: string

record match_row =
  match_id :: int
  match_name :: string
  match_format :: string
  ruleset_id :: int
  variant_id :: int
  ranked :: bool
  owner_id :: int
  match_pool_id :: int
  room_id :: "int option"
  stage :: stage
  revision :: nat
  state :: match_state
  updated_at :: time
  ended_at :: "time option"

text \<open>\<open>members_of\<close>: the roster, team by team.\<close>

definition members_of :: "match_row \<Rightarrow> int list" where
  "members_of m = concat (teams (state m))"

text \<open>JSON objects updated by key keep the position of an existing key.\<close>

fun put_key :: "'k \<Rightarrow> 'v \<Rightarrow> ('k \<times> 'v) list \<Rightarrow> ('k \<times> 'v) list" where
  "put_key k v [] = [(k, v)]"
| "put_key k v ((k', v') # rest) = (if k = k' then (k, v) # rest else (k', v') # put_key k v rest)"

definition del_key :: "'k \<Rightarrow> ('k \<times> 'v) list \<Rightarrow> ('k \<times> 'v) list" where
  "del_key k xs = filter (\<lambda>p. fst p \<noteq> k) xs"

definition has_key :: "'k \<Rightarrow> ('k \<times> 'v) list \<Rightarrow> bool" where
  "has_key k xs \<longleftrightarrow> k \<in> set (map fst xs)"

text \<open>Equality of two JSON objects: the same keys with the same values, in any order.\<close>

definition same_dict :: "('k \<times> 'v) list \<Rightarrow> ('k \<times> 'v) list \<Rightarrow> bool" where
  "same_dict xs ys \<longleftrightarrow> list_all (\<lambda>k. map_of xs k = map_of ys k) (map fst xs @ map fst ys)"

lemma same_dict_iff: "same_dict xs ys \<longleftrightarrow> map_of xs = map_of ys"
proof
  assume same: "same_dict xs ys"
  show "map_of xs = map_of ys"
  proof
    fix k
    show "map_of xs k = map_of ys k"
    proof (cases "k \<in> set (map fst xs) \<union> set (map fst ys)")
      case True
      then show ?thesis using same by (auto simp: same_dict_def list_all_iff)
    next
      case False
      then have "map_of xs k = None" "map_of ys k = None" by (simp_all add: map_of_eq_None_iff)
      then show ?thesis by simp
    qed
  qed
qed (simp add: same_dict_def list_all_iff)

lemma map_of_put_key [simp]: "map_of (put_key k v xs) = (map_of xs)(k \<mapsto> v)"
  by (induction k v xs rule: put_key.induct) (auto simp: fun_eq_iff)

lemma keys_put_key: "set (map fst (put_key k v xs)) = insert k (set (map fst xs))"
  by (induction k v xs rule: put_key.induct) auto

end
