(* ===== verification/Ratings.thy ===== *)
theory Ratings
  imports Ranks MatchData
begin

text \<open>
  \<open>somsai_rating_service.py\<close>: the Elo policy.  \<open>settle_rows\<close> is the arithmetic of
  \<open>settle_ratings\<close> on the rating rows of the roster; the database part (reading the rows with
  \<open>ensure_rating\<close> and writing them back) is in \<open>Store\<close> and \<open>Match\<close>.
\<close>

section \<open>Coefficients and seeds\<close>

definition K_ANCHORS :: "(real \<times> real) list" where
  "K_ANCHORS = [(0, 40), (600, 40), (1600, 32), (2300, 24), (2800, 16), (3500, 10), (5000, 10)]"

fun k_segments :: "(real \<times> real) list \<Rightarrow> real \<Rightarrow> real" where
  "k_segments ((r0, k0) # (r1, k1) # rest) r =
     (if r0 \<le> r \<and> r \<le> r1 then k0 + (if r1 \<noteq> r0 then (r - r0) / (r1 - r0) else 0) * (k1 - k0)
      else k_segments ((r1, k1) # rest) r)"
| "k_segments [(r1, k1)] r = k1"
| "k_segments [] r = 0"

definition k_factor :: "real \<Rightarrow> int \<Rightarrow> real" where
  "k_factor rating games =
     (if games < 10 then 64 else k_segments K_ANCHORS (max 0 (min 5000 rating)))"

text \<open>
  The logarithm is evaluated at 1 only: the code of the models below is run on players without a
  public rank, whose rating does not need it.
\<close>

lemma ln_code [code]: "ln (x::real) = (if x = 1 then 0 else Code.abort (STR ''ln'') (\<lambda>_. ln x))"
  by simp

definition initial_rating :: "int option \<Rightarrow> int \<Rightarrow> real" where
  "initial_rating rank population =
     (case rank of
        None \<Rightarrow> 1000
      | Some r \<Rightarrow>
          if population < 1 then 1000
          else let percentile = 1 - ln (of_int (max 1 r)) / ln (of_int (max 2 population))
               in of_int (py_round (1000 + 1000 * max 0 (min 1 percentile))))"

section \<open>Performance impacts\<close>

definition own_score :: "int \<Rightarrow> player_result list \<Rightarrow> int" where
  "own_score uid ps = (case find (\<lambda>p. user_id p = uid) ps of None \<Rightarrow> 0 | Some p \<Rightarrow> score p)"

definition round_share :: "int \<Rightarrow> round_result \<Rightarrow> real" where
  "round_share uid r =
     (let average = of_int (\<Sum>p\<leftarrow>players r. score p) / real (max 1 (length (players r)))
      in if average > 0 then min 2 (of_int (own_score uid (players r)) / average) else 0)"

definition impact_of :: "nat \<Rightarrow> int \<Rightarrow> round_result list \<Rightarrow> nat option \<Rightarrow> int" where
  "impact_of team_id uid rounds winning_team =
     (let quality = (\<Sum>r\<leftarrow>rounds. round_share uid r) / real (max 1 (length rounds));
          round_wins = length (filter (\<lambda>r. winner_team_id r = Some team_id) rounds);
          value = 10 + 30 * quality + 20 * real round_wins / real (max 1 (length rounds));
          value = value + (if winning_team = Some team_id then 20 else if winning_team = None then 10 else 0)
      in py_round (max 1 (min 100 value)))"

definition performance_impacts ::
  "int list list \<Rightarrow> round_result list \<Rightarrow> nat option \<Rightarrow> (int \<times> int) list" where
  "performance_impacts tms rounds winning_team =
     fold (\<lambda>(team_id, uid) imps. put_key uid (impact_of team_id uid rounds winning_team) imps)
       (concat (map (\<lambda>(team_id, members). map (\<lambda>uid. (team_id, uid)) members) (enumerate 0 tms))) []"

section \<open>Settlement\<close>

record rating_row =
  rating :: real
  initial_seed :: real
  wins_count :: int
  losses_count :: int
  draws_count :: int
  games :: int
  last_delta :: int

definition team_average :: "real list \<Rightarrow> real" where
  "team_average rs = sum_list rs / real (length rs)"

definition expected_score :: "real \<Rightarrow> real \<Rightarrow> real" where
  "expected_score a0 a1 = 1 / (1 + 10 powr (max (-4000) (min 4000 (a1 - a0)) / 400))"

definition pool_gap :: "string option \<Rightarrow> real \<Rightarrow> real" where
  "pool_gap prank before =
     (case prank of
        None \<Rightarrow> 0
      | Some r \<Rightarrow> (case rank_midpoint_rating r of Inl _ \<Rightarrow> 0 | Inr mid \<Rightarrow> (mid - before) / 100))"

text \<open>
  One player's step and new row.  \<open>prank\<close> is the rank \<open>create_match\<close> stored, a canonical name,
  so \<open>rank_midpoint_rating\<close> does not raise.
\<close>

definition actual_score :: "nat \<Rightarrow> nat option \<Rightarrow> real" where
  "actual_score team_id w = (case w of None \<Rightarrow> 1/2 | Some t \<Rightarrow> if t = team_id then 1 else 0)"

definition expectation_of :: "nat \<Rightarrow> real \<Rightarrow> real" where
  "expectation_of team_id expected = (if team_id = 0 then expected else 1 - expected)"

definition adjustment_of ::
  "string option \<Rightarrow> real \<Rightarrow> real \<Rightarrow> rating_row \<Rightarrow> real" where
  "adjustment_of prank actual expectation row =
     (let adjustment = k_factor (rating row) (games row) * (actual - expectation);
          rank_gap = pool_gap prank (rating row);
          direction = (if actual > expectation then rank_gap else - rank_gap)
      in if prank = None then adjustment
         else adjustment * max (6/10) (min (15/10) (1 + 8/100 * direction)))"

definition settle_row :: "string option \<Rightarrow> real \<Rightarrow> nat \<Rightarrow> nat option \<Rightarrow> rating_row \<Rightarrow> rating_row" where
  "settle_row prank expected team_id w row =
     (let adjustment = adjustment_of prank (actual_score team_id w) (expectation_of team_id expected) row;
          after = max 0 (min 5000 (rating row + adjustment))
      in row\<lparr>rating := of_int (py_round after),
             last_delta := py_round after - py_round (rating row),
             games := games row + 1,
             wins_count := wins_count row + of_bool (w = Some team_id),
             losses_count := losses_count row + of_bool (w \<noteq> None \<and> w \<noteq> Some team_id),
             draws_count := draws_count row + of_bool (w = None)\<rparr>)"

section \<open>Bounds of the coefficients\<close>

lemma k_segments_anchors:
  "0 \<le> r \<Longrightarrow> r \<le> 5000 \<Longrightarrow> k_segments K_ANCHORS r =
     (if r \<le> 600 then 40 else if r \<le> 1600 then 40 - (r - 600) / 125
      else if r \<le> 2300 then 32 - (r - 1600) * 8 / 700 else if r \<le> 2800 then 24 - (r - 2300) * 8 / 500
      else if r \<le> 3500 then 16 - (r - 2800) * 6 / 700 else 10)"
  by (simp add: K_ANCHORS_def field_simps)

lemma k_factor_clamped: "k_factor x g = (if g < 10 then 64 else k_factor (max 0 (min 5000 x)) g)"
  by (simp add: k_factor_def)

lemma k_factor_range: "10 \<le> k_factor x g \<and> k_factor x g \<le> 64"
proof -
  have "10 \<le> k_segments K_ANCHORS r \<and> k_segments K_ANCHORS r \<le> 64" if "0 \<le> r" "r \<le> 5000" for r
    unfolding k_segments_anchors[OF that] using that by (auto simp: field_simps)
  from this[of "max 0 (min 5000 x)"] show ?thesis by (simp add: k_factor_def)
qed

lemma k_factor_pos: "0 < k_factor x g"
  using k_factor_range[of x g] by linarith

lemma k_factor_antimono:
  assumes "10 \<le> g" and "x \<le> y"
  shows "k_factor y g \<le> k_factor x g"
proof -
  have "k_segments K_ANCHORS b \<le> k_segments K_ANCHORS a"
    if "0 \<le> a" "a \<le> b" "b \<le> 5000" for a b
    using that by (subst (1 2) k_segments_anchors) (auto simp: field_simps)
  from this[of "max 0 (min 5000 x)" "max 0 (min 5000 y)"] show ?thesis
    using assms by (auto simp: k_factor_def)
qed

lemma impact_bounds: "1 \<le> impact_of t uid rounds w \<and> impact_of t uid rounds w \<le> 100"
  unfolding impact_of_def Let_def
  by (intro conjI py_round_ge_int py_round_le_int) (auto simp: max_def min_def)

lemma expected_score_bounds: "0 < expected_score a b \<and> expected_score a b < 1"
  by (simp add: expected_score_def add_pos_pos)

lemma expected_score_swap: "expected_score a b + expected_score b a = 1"
proof -
  define d where "d = max (-4000) (min 4000 (b - a)) / 400"
  have "max (-4000) (min 4000 (a - b)) / 400 = - d"
    by (simp add: d_def max_def min_def)
  then have "expected_score b a = 1 / (1 + 10 powr (- d))" "expected_score a b = 1 / (1 + 10 powr d)"
    by (simp_all add: expected_score_def d_def)
  moreover have "1 / (1 + 10 powr d) + 1 / (1 + 10 powr (- d)) = (1::real)"
    using powr_gt_zero[of 10 d] by (simp add: powr_minus divide_simps del: powr_gt_zero) (simp add: algebra_simps)
  ultimately show ?thesis by simp
qed

section \<open>Settlement of one row\<close>

lemma settle_row_fields:
  "games (settle_row pr e t w row) = games row + 1"
  "wins_count (settle_row pr e t w row) = wins_count row + of_bool (w = Some t)"
  "losses_count (settle_row pr e t w row) = losses_count row + of_bool (w \<noteq> None \<and> w \<noteq> Some t)"
  "draws_count (settle_row pr e t w row) = draws_count row + of_bool (w = None)"
  "initial_seed (settle_row pr e t w row) = initial_seed row"
  by (simp_all add: settle_row_def Let_def)

text \<open>The new rating: the old one plus a positive multiple of (actual - expectation), clamped and rounded.\<close>

lemma settle_row_rating:
  obtains c where "0 < c"
    and "rating (settle_row pr e t w row) = of_int (py_round (max 0 (min 5000
           (rating row + c * (actual_score t w - expectation_of t e)))))"
proof -
  define c where "c = k_factor (rating row) (games row) *
    (if pr = None then 1 else max (6/10) (min (15/10) (1 + 8/100 *
       (if actual_score t w > expectation_of t e then pool_gap pr (rating row) else - pool_gap pr (rating row)))))"
  have "0 < c" using k_factor_pos by (simp add: c_def)
  moreover have "adjustment_of pr (actual_score t w) (expectation_of t e) row
      = c * (actual_score t w - expectation_of t e)"
    by (simp add: adjustment_of_def Let_def c_def)
  ultimately show ?thesis using that by (simp add: settle_row_def Let_def)
qed

text \<open>Settling a match keeps every rating an integer between 0 and 5000 and keeps the books of
  the row: one more game, and exactly one more win, loss or draw.\<close>

theorem settle_row_books:
  "(\<exists>n. rating (settle_row pr e t w row) = of_int n \<and> 0 \<le> n \<and> n \<le> 5000)
   \<and> games (settle_row pr e t w row) = games row + 1
   \<and> wins_count (settle_row pr e t w row) + losses_count (settle_row pr e t w row)
       + draws_count (settle_row pr e t w row)
     = wins_count row + losses_count row + draws_count row + 1"
proof -
  obtain c where "rating (settle_row pr e t w row) = of_int (py_round (max 0 (min 5000
           (rating row + c * (actual_score t w - expectation_of t e)))))"
    by (rule settle_row_rating)
  then show ?thesis
    by (auto simp: settle_row_fields intro!: py_round_ge_int py_round_le_int)
qed

lemma settle_row_direction:
  assumes "rating row = of_int n" and "0 \<le> n" and "n \<le> 5000" and "0 < e" and "e < 1"
  shows "w = Some t \<Longrightarrow> rating row \<le> rating (settle_row pr e t w row)"
    and "w \<noteq> None \<Longrightarrow> w \<noteq> Some t \<Longrightarrow> rating (settle_row pr e t w row) \<le> rating row"
proof -
  obtain c where c: "0 < c"
    and r: "rating (settle_row pr e t w row) = of_int (py_round (max 0 (min 5000
           (rating row + c * (actual_score t w - expectation_of t e)))))"
    by (rule settle_row_rating)
  have x: "0 < expectation_of t e" "expectation_of t e < 1"
    using assms by (auto simp: expectation_of_def)
  show "rating row \<le> rating (settle_row pr e t w row)" if "w = Some t"
  proof -
    have "0 \<le> c * (actual_score t w - expectation_of t e)"
      using c x that by (simp add: actual_score_def)
    then show ?thesis unfolding r using assms(1-3) by (simp add: py_round_ge_int)
  qed
  show "rating (settle_row pr e t w row) \<le> rating row" if "w \<noteq> None" "w \<noteq> Some t"
  proof -
    have "c * (actual_score t w - expectation_of t e) \<le> 0"
      using c x that by (auto simp: actual_score_def mult_le_0_iff split: if_splits)
    then show ?thesis unfolding r using assms(1-3) by (simp add: py_round_le_int)
  qed
qed

text \<open>C39: winning never costs rating and losing never earns it: with the code's expected score and
  stored integer ratings between 0 and 5000, the winners' rows do not go down and the losers' rows
  do not go up, whatever the strength gap, the pool rank and the number of games.\<close>

theorem settlement_direction:
  assumes "rating row = of_int n" and "0 \<le> n" and "n \<le> 5000"
  shows "let row' = settle_row pr (expected_score a b) t (Some w) row
         in if w = t then rating row \<le> rating row' else rating row' \<le> rating row"
  using settle_row_direction[OF assms, of "expected_score a b" "Some w" t pr] expected_score_bounds[of a b]
  by (simp add: Let_def)

definition sample_row :: rating_row where
  "sample_row = \<lparr>rating = 1500, initial_seed = 1000, wins_count = 3, losses_count = 2, draws_count = 0,
     games = 5, last_delta = 12\<rparr>"

theorem settlement_direction_witness:
  "let row' = settle_row (Some ''GOLD I'') (expected_score 1500 1700) 1 (Some 0) sample_row
   in if (0::nat) = 1 then rating sample_row \<le> rating row' else rating row' \<le> rating sample_row"
  by (rule settlement_direction[where n = 1500]) (simp_all add: sample_row_def)

text \<open>The K-factor is 64 for the first ten games and afterwards lies between 10 and 40 and never
  grows with the rating, so stronger players move in smaller steps.\<close>

theorem k_factor_policy:
  "(g < 10 \<and> k_factor x g = 64) \<or>
   (10 \<le> g \<and> 10 \<le> k_factor (max x y) g \<and> k_factor (max x y) g \<le> k_factor x g \<and> k_factor x g \<le> 40)"
proof (cases "g < 10")
  case True
  then show ?thesis by (simp add: k_factor_def)
next
  case False
  have "k_segments K_ANCHORS r \<le> 40" if "0 \<le> r" "r \<le> 5000" for r
    unfolding k_segments_anchors[OF that] using that by (auto simp: field_simps)
  from this[of "max 0 (min 5000 x)"] False have "k_factor x g \<le> 40" by (simp add: k_factor_def)
  with False k_factor_antimono[of g x "max x y"] k_factor_range[of "max x y" g] show ?thesis by auto
qed

lemma keys_performance_impacts:
  "map_of (fold (\<lambda>(t, uid) imps. put_key uid (impact_of t uid rs w) imps) ps acc) uid =
   (case find (\<lambda>p. snd p = uid) (rev ps) of
      Some (t, _) \<Rightarrow> Some (impact_of t uid rs w) | None \<Rightarrow> map_of acc uid)"
  by (induction ps rule: rev_induct) (auto split: prod.splits option.splits)

lemma find_snd_None: "find (\<lambda>p. snd p = u) xs = None \<longleftrightarrow> u \<notin> snd ` set xs"
  by (induction xs) auto

lemma roster_enumerate:
  "snd ` set (concat (map (\<lambda>(t, ms). map (\<lambda>u. (t, u)) ms) (enumerate n tms))) = set (concat tms)"
  by (induction tms arbitrary: n) (auto simp: image_image image_Un)

text \<open>The impact summary has an entry for exactly the players of the roster and every entry is an
  integer from 1 to 100.\<close>

theorem impacts_of_roster:
  "dom (map_of (performance_impacts tms rounds w)) = set (concat tms)
   \<and> ran (map_of (performance_impacts tms rounds w)) \<subseteq> {1..100}"
proof -
  let ?ps = "concat (map (\<lambda>(t, ms). map (\<lambda>u. (t, u)) ms) (enumerate 0 tms))"
  have m: "map_of (performance_impacts tms rounds w) uid =
     (case find (\<lambda>p. snd p = uid) (rev ?ps) of
        Some (t, _) \<Rightarrow> Some (impact_of t uid rounds w) | None \<Rightarrow> None)" for uid
    unfolding performance_impacts_def by (subst keys_performance_impacts) (simp only: map_of.simps)
  have "uid \<in> dom (map_of (performance_impacts tms rounds w)) \<longleftrightarrow> uid \<in> snd ` set ?ps" for uid
  proof -
    have "find (\<lambda>p. snd p = uid) (rev ?ps) = None \<longleftrightarrow> uid \<notin> snd ` set ?ps"
      by (simp only: find_snd_None set_rev)
    then show ?thesis by (auto simp: m dom_def split: option.splits simp del: set_concat)
  qed
  then have "dom (map_of (performance_impacts tms rounds w)) = set (concat tms)"
    using roster_enumerate[of 0 tms] by blast
  moreover have "ran (map_of (performance_impacts tms rounds w)) \<subseteq> {1..100}"
    using impact_bounds by (auto simp: ran_def m split: option.splits)
  ultimately show ?thesis ..
qed

end
