(* ===== verification/Bots.thy ===== *)
theory Bots
  imports Ranks MatchData
begin

text \<open>
  \<open>somsai_bot_skill.py\<close>: the divisions a bot can play in, the skillset rolled for a bot in each
  new match, and the drafting preference of a bot team.

  The random generator is a parameter: \<open>randint a b\<close> stands for \<open>rng.randint\<close> (documented to
  return an integer between \<open>a\<close> and \<open>b\<close>) and \<open>rnd i\<close> for the i-th call of \<open>rng.random\<close>
  (documented to lie in the half-open unit interval).  \<open>rng.choices\<close> and \<open>rng.uniform\<close> are
  written out over \<open>rnd\<close> as the standard library computes them.
\<close>

section \<open>Tables\<close>

record division =
  d_name :: string
  low_mmr :: int
  high_mmr :: "int option"
  rank_low :: int
  rank_high :: int
  minimum_score :: int
  minimum_accuracy :: real

definition mk_division ::
  "string \<Rightarrow> int \<Rightarrow> int option \<Rightarrow> int \<Rightarrow> int \<Rightarrow> int \<Rightarrow> real \<Rightarrow> division" where
  "mk_division n lo hi rl rh sc acc = \<lparr>d_name = n, low_mmr = lo, high_mmr = hi, rank_low = rl,
     rank_high = rh, minimum_score = sc, minimum_accuracy = acc\<rparr>"

definition DIVISIONS :: "division list" where
  "DIVISIONS =
    [mk_division ''ARCHSOM'' 3000 None 1 250 800000 (95),
     mk_division ''DIAMOND V'' 2900 (Some 2999) 251 350 800000 (945 / 10),
     mk_division ''DIAMOND IV'' 2800 (Some 2899) 351 450 775000 (94),
     mk_division ''DIAMOND III'' 2700 (Some 2799) 451 550 750000 (935 / 10),
     mk_division ''DIAMOND II'' 2600 (Some 2699) 551 750 725000 (93),
     mk_division ''DIAMOND I'' 2500 (Some 2599) 751 999 700000 (925 / 10),
     mk_division ''PLATINUM V'' 2400 (Some 2499) 1000 1500 800000 (945 / 10),
     mk_division ''PLATINUM IV'' 2300 (Some 2399) 1501 2500 775000 (94),
     mk_division ''PLATINUM III'' 2200 (Some 2299) 2501 3250 750000 (935 / 10),
     mk_division ''PLATINUM II'' 2100 (Some 2199) 3251 4250 725000 (93),
     mk_division ''PLATINUM I'' 2000 (Some 2099) 4251 5000 700000 (925 / 10),
     mk_division ''GOLD V'' 1900 (Some 1999) 5001 6000 800000 (93),
     mk_division ''GOLD IV'' 1800 (Some 1899) 6001 6500 775000 (925 / 10),
     mk_division ''GOLD III'' 1700 (Some 1799) 6501 7000 750000 (92),
     mk_division ''GOLD II'' 1600 (Some 1699) 7001 8000 725000 (915 / 10),
     mk_division ''GOLD I'' 1500 (Some 1599) 8001 9999 700000 (91),
     mk_division ''SILVER V'' 1400 (Some 1499) 10000 15000 800000 (915 / 10),
     mk_division ''SILVER IV'' 1300 (Some 1399) 15001 25000 775000 (905 / 10),
     mk_division ''SILVER III'' 1200 (Some 1299) 25001 55000 750000 (895 / 10),
     mk_division ''SILVER II'' 1100 (Some 1199) 55001 75000 725000 (885 / 10),
     mk_division ''SILVER I'' 1000 (Some 1099) 75001 99999 700000 (875 / 10),
     mk_division ''BRONZE V'' 900 (Some 999) 100000 150000 800000 (89),
     mk_division ''BRONZE IV'' 800 (Some 899) 150001 250000 775000 (87),
     mk_division ''BRONZE III'' 700 (Some 799) 250001 350000 750000 (85),
     mk_division ''BRONZE II'' 600 (Some 699) 350001 450000 725000 (83),
     mk_division ''BRONZE I'' 0 (Some 599) 450001 600000 700000 (81)]"

definition STANDARD_ARCHETYPES :: "(string \<times> int) list" where
  "STANDARD_ARCHETYPES =
    [(''precision'', 10), (''nomod'', 5), (''flow_aim'', 10), (''tapping'', 20), (''aimer'', 20),
     (''hidden'', 10), (''dt_aim'', 10), (''dt_tapping'', 15)]"

definition ARCHSOM_ARCHETYPES :: "(string \<times> int) list" where
  "ARCHSOM_ARCHETYPES =
    [(''allrounder'', 10), (''consistency'', 45), (''high_bpm'', 45)]"

definition WEAKNESSES :: "(string \<times> int) list" where
  "WEAKNESSES =
    [(''anti_hidden'', 10), (''technical'', 15), (''anti_nomod'', 5), (''low_ar'', 15),
     (''singletapper'', 20), (''anti_stream'', 15), (''anti_aim'', 15), (''magnifying_glass'', 5)]"

definition ARCHETYPE_MODIFIERS :: "(string \<times> (string \<times> real) list) list" where
  "ARCHETYPE_MODIFIERS =
    [(''precision'',
       [(''NM1'', 7 / 100), (''HD1'', 1 / 10), (''HR1'', 16 / 100), (''HR2'', 2 / 10), (''DT1'', 8
        / 100), (''FM1'', 12 / 100), (''FM2'', 16 / 100), (''NM2'', - 7 / 100), (''NM5'', - 1 /
        10), (''DT2'', - 12 / 100), (''DT3'', - 12 / 100)]),
     (''nomod'',
       [(''NM1'', 14 / 100), (''NM2'', 14 / 100), (''NM3'', 12 / 100), (''NM4'', 4 / 100),
        (''NM5'', 12 / 100), (''NM6'', 1 / 10), (''TB'', 4 / 100), (''HD1'', - 5 / 100), (''HD2'',
        - 5 / 100), (''HD3'', - 5 / 100), (''DT1'', - 8 / 100), (''DT2'', - 8 / 100), (''DT3'', -
        8 / 100), (''DT4'', - 8 / 100)]),
     (''flow_aim'',
       [(''NM2'', 18 / 100), (''NM3'', 14 / 100), (''HD3'', 14 / 100), (''HR3'', 1 / 10),
        (''FM3'', 12 / 100), (''TB'', 1 / 10), (''NM1'', - 8 / 100), (''HD1'', - 8 / 100),
        (''HR1'', - 8 / 100), (''DT1'', - 8 / 100)]),
     (''tapping'',
       [(''NM2'', 12 / 100), (''NM5'', 2 / 10), (''DT2'', 14 / 100), (''DT3'', 16 / 100),
        (''DT4'', 12 / 100), (''NM1'', - 1 / 10), (''HD1'', - 1 / 10), (''HR1'', - 1 / 10),
        (''DT1'', - 1 / 10), (''FM1'', - 1 / 10)]),
     (''aimer'',
       [(''NM1'', 18 / 100), (''HD1'', 14 / 100), (''HR1'', 16 / 100), (''DT1'', 12 / 100),
        (''FM1'', 16 / 100), (''NM2'', - 12 / 100), (''NM5'', - 14 / 100), (''DT2'', - 12 / 100),
        (''DT3'', - 14 / 100), (''DT4'', - 12 / 100)]),
     (''hidden'',
       [(''HD1'', 16 / 100), (''HD2'', 2 / 10), (''HD3'', 16 / 100), (''HR1'', - 8 / 100),
        (''HR2'', - 8 / 100), (''HR3'', - 8 / 100), (''DT1'', - 7 / 100), (''DT2'', - 7 / 100),
        (''DT3'', - 7 / 100), (''DT4'', - 7 / 100)]),
     (''dt_aim'',
       [(''DT1'', 22 / 100), (''DT2'', 5 / 100), (''DT3'', 3 / 100), (''DT4'', 8 / 100), (''NM1'',
        1 / 10), (''HD1'', 8 / 100), (''HR1'', 7 / 100), (''NM2'', - 1 / 10), (''NM5'', - 1 / 10)]),
     (''dt_tapping'',
       [(''DT1'', 8 / 100), (''DT2'', 2 / 10), (''DT3'', 22 / 100), (''DT4'', 18 / 100), (''NM5'',
        12 / 100), (''NM2'', 8 / 100), (''NM1'', - 1 / 10), (''HD1'', - 1 / 10), (''HR1'', - 1 /
        10), (''FM1'', - 1 / 10)]),
     (''allrounder'',
       []),
     (''consistency'',
       [(''NM1'', 12 / 100), (''NM2'', 1 / 10), (''NM3'', 1 / 10), (''NM4'', 8 / 100), (''NM6'',
        12 / 100), (''TB'', 12 / 100), (''HD1'', 6 / 100), (''HD2'', 6 / 100), (''HD3'', 6 / 100),
        (''HR1'', 5 / 100), (''NM5'', - 16 / 100), (''DT2'', - 2 / 10), (''DT3'', - 18 / 100),
        (''DT4'', - 16 / 100)]),
     (''high_bpm'',
       [(''NM5'', 18 / 100), (''DT1'', 16 / 100), (''DT2'', 22 / 100), (''DT3'', 22 / 100),
        (''DT4'', 2 / 10), (''HR1'', 8 / 100), (''HR2'', 8 / 100), (''HR3'', 8 / 100), (''NM6'', -
        8 / 100), (''HD2'', - 8 / 100)])]"

definition WEAKNESS_MODIFIERS :: "(string \<times> (string \<times> real) list) list" where
  "WEAKNESS_MODIFIERS =
    [(''anti_hidden'',
       [(''HD1'', - 34 / 100), (''HD2'', - 34 / 100), (''HD3'', - 34 / 100)]),
     (''technical'',
       [(''NM3'', 12 / 100), (''NM4'', 2 / 10), (''TB'', 16 / 100), (''NM1'', - 8 / 100),
        (''NM2'', - 8 / 100), (''NM5'', - 1 / 10), (''NM6'', - 8 / 100), (''HD1'', - 8 / 100),
        (''HD2'', - 8 / 100), (''HD3'', - 8 / 100), (''HR1'', - 8 / 100), (''HR2'', - 8 / 100),
        (''HR3'', - 8 / 100), (''DT1'', - 1 / 10), (''DT2'', - 1 / 10), (''DT3'', - 1 / 10),
        (''DT4'', - 1 / 10), (''FM1'', - 8 / 100), (''FM2'', - 8 / 100), (''FM3'', - 8 / 100)]),
     (''anti_nomod'',
       [(''NM1'', - 16 / 100), (''NM2'', - 16 / 100), (''NM3'', - 16 / 100), (''NM4'', - 16 /
        100), (''NM5'', - 16 / 100), (''NM6'', - 16 / 100)]),
     (''low_ar'',
       [(''DT1'', - 2 / 10), (''DT2'', - 2 / 10), (''DT3'', - 2 / 10), (''DT4'', - 2 / 10),
        (''NM5'', - 14 / 100), (''NM3'', 12 / 100), (''NM6'', 16 / 100), (''HD2'', 22 / 100)]),
     (''singletapper'',
       [(''NM3'', - 14 / 100), (''NM4'', - 14 / 100), (''HR3'', - 14 / 100), (''FM3'', - 14 /
        100), (''DT4'', - 18 / 100)]),
     (''anti_stream'',
       [(''NM2'', - 18 / 100), (''NM5'', - 18 / 100), (''HD3'', - 18 / 100), (''DT2'', - 18 /
        100), (''DT3'', - 2 / 10), (''DT4'', - 18 / 100)]),
     (''anti_aim'',
       [(''NM1'', - 18 / 100), (''HR1'', - 18 / 100), (''HD1'', - 18 / 100), (''FM1'', - 18 /
        100), (''HR2'', - 14 / 100), (''FM2'', - 14 / 100)]),
     (''magnifying_glass'',
       [(''HR2'', - 38 / 100)])]"

definition PREFERENCES :: "(string \<times> string) list" where
  "PREFERENCES =
    [(''precision'', ''HR''),
     (''nomod'', ''HR''),
     (''flow_aim'', ''HD''),
     (''tapping'', ''HD''),
     (''aimer'', ''HR''),
     (''hidden'', ''HD''),
     (''dt_aim'', ''HR''),
     (''dt_tapping'', ''HD''),
     (''consistency'', ''HD''),
     (''high_bpm'', ''HR'')]"

section \<open>Choosing a division\<close>

fun py_replace_fuel :: "nat \<Rightarrow> string \<Rightarrow> string \<Rightarrow> string \<Rightarrow> string" where
  "py_replace_fuel 0 old new s = s"
| "py_replace_fuel (Suc n) old new [] = []"
| "py_replace_fuel (Suc n) old new (c # cs) =
     (if starts_with (c # cs) old then new @ py_replace_fuel n old new (drop (length old) (c # cs))
      else c # py_replace_fuel n old new cs)"

text \<open>\<open>s.replace(old, new)\<close> for a non-empty \<open>old\<close>: one step per character is enough.\<close>

definition py_replace :: "string \<Rightarrow> string \<Rightarrow> string \<Rightarrow> string" where
  "py_replace old new s = py_replace_fuel (Suc (length s)) old new s"

text \<open>\<open>s.title()\<close>: a letter is upper case after a non-letter and lower case after a letter.\<close>

definition is_letter :: "char \<Rightarrow> bool" where
  "is_letter c \<longleftrightarrow> upper_char c \<noteq> lower_char c"

fun title_from :: "bool \<Rightarrow> string \<Rightarrow> string" where
  "title_from inside [] = []"
| "title_from inside (c # cs) =
     (if inside then lower_char c else upper_char c) # title_from (is_letter c) cs"

definition py_title :: "string \<Rightarrow> string" where
  "py_title s = title_from False s"

definition in_division :: "int \<Rightarrow> division \<Rightarrow> bool" where
  "in_division value d \<longleftrightarrow> value \<ge> low_mmr d \<and> (case high_mmr d of None \<Rightarrow> True | Some h \<Rightarrow> value \<le> h)"

definition division_named :: "string option \<Rightarrow> division option" where
  "division_named rank =
     (case rank of
        None \<Rightarrow> None
      | Some r \<Rightarrow>
          if r = [] then None
          else let wanted = py_replace ''ARCHSOM I'' ''ARCHSOM'' (py_upper (py_strip r))
               in find (\<lambda>d. d_name d = wanted) DIVISIONS)"

definition division_for :: "int option \<Rightarrow> string option \<Rightarrow> error + division" where
  "division_for rtg rank =
     (case division_named rank of
        Some d \<Rightarrow> Inr d
      | None \<Rightarrow>
          let value = (case rtg of None \<Rightarrow> 1500 | Some v \<Rightarrow> max 0 v)
          in (case find (in_division value) DIVISIONS of None \<Rightarrow> Inl KeyErr | Some d \<Rightarrow> Inr d))"

section \<open>Rolling a skillset\<close>

text \<open>
  \<open>rng.choices(names, weights, k=1)[0]\<close>: the first name whose cumulative weight exceeds
  \<open>random() * total\<close>, the last one at the end (\<open>bisect\<close> with \<open>hi = n - 1\<close>).
\<close>

fun pick_cumulative :: "real \<Rightarrow> real \<Rightarrow> ('a \<times> real) list \<Rightarrow> 'a option" where
  "pick_cumulative x acc [] = None"
| "pick_cumulative x acc [(a, w)] = Some a"
| "pick_cumulative x acc ((a, w) # y # ys) =
     (if x < acc + w then Some a else pick_cumulative x (acc + w) (y # ys))"

definition weighted :: "real \<Rightarrow> (string \<times> int) list \<Rightarrow> error + string" where
  "weighted u values =
     (let ws = map (\<lambda>(a, w). (a, of_int w)) values
      in case pick_cumulative (u * (\<Sum>p\<leftarrow>ws. snd p)) 0 ws of None \<Rightarrow> Inl KeyErr | Some a \<Rightarrow> Inr a)"

definition weakness_allowed :: "string \<Rightarrow> string \<Rightarrow> bool" where
  "weakness_allowed arch weak \<longleftrightarrow> \<not> (
       (weak = ''anti_hidden'' \<and> arch = ''hidden'')
     \<or> (weak = ''anti_nomod'' \<and> arch = ''nomod'')
     \<or> (weak = ''low_ar'' \<and> arch \<in> {''dt_aim'', ''dt_tapping'', ''high_bpm''})
     \<or> (weak = ''anti_stream'' \<and> arch \<in> {''tapping'', ''dt_tapping''})
     \<or> (weak = ''anti_aim'' \<and> arch \<in> {''aimer'', ''dt_aim''})
     \<or> (weak = ''magnifying_glass'' \<and> arch = ''precision''))"

definition py_round4 :: "real \<Rightarrow> real" where
  "py_round4 x = of_int (py_round (x * 10000)) / 10000"

definition weaken_slot :: "string \<Rightarrow> real \<Rightarrow> (string \<times> real) list \<Rightarrow> (string \<times> real) list" where
  "weaken_slot slot value ms =
     put_key slot (py_round4 (max (- 45 / 100) (min (25 / 100)
       ((case map_of ms slot of None \<Rightarrow> 0 | Some b \<Rightarrow> b) + value)))) ms"

definition apply_weakness :: "(string \<times> real) list \<Rightarrow> (string \<times> real) list \<Rightarrow> (string \<times> real) list" where
  "apply_weakness modifiers weak = fold (\<lambda>(slot, value). weaken_slot slot value) weak modifiers"

definition roll_weakness :: "(nat \<Rightarrow> real) \<Rightarrow> string \<Rightarrow> error + string option" where
  "roll_weakness rnd arch =
     (if rnd 1 < 1/10 then
        (case weighted (rnd 2) (filter (\<lambda>item. weakness_allowed arch (fst item)) WEAKNESSES) of
           Inl e \<Rightarrow> Inl e | Inr w \<Rightarrow> Inr (Some w))
      else Inr None)"

definition roll_preference :: "real \<Rightarrow> string \<Rightarrow> string option" where
  "roll_preference u arch =
     (if arch = ''allrounder''
      then pick_cumulative (u * 100) 0 [(''HD'', 475 / 10), (''HR'', 475 / 10), (''HDHR'', 5)]
      else map_of PREFERENCES arch)"

definition assemble_profile ::
  "division \<Rightarrow> int \<Rightarrow> string \<Rightarrow> string option \<Rightarrow> (string \<times> real) list \<Rightarrow> (nat \<Rightarrow> real) \<Rightarrow> ai_profile" where
  "assemble_profile division bot_rating arch weak base rnd =
     (let i = (if weak = None then 2 else 3);
          preference = roll_preference (rnd i) arch;
          j = (if arch = ''allrounder'' then i + 1 else i)
      in \<lparr>ai_version = 2, ai_rating = bot_rating, ai_division = d_name division,
          ai_minimum_score = minimum_score division,
          ai_minimum_accuracy = minimum_accuracy division,
          archetype = arch, weakness = weak,
          match_form = py_round4 (72/100 + (88/100 - 72/100) * rnd j),
          consistency = (if arch = ''allrounder'' then 25/1000 else 4/100),
          freemod_preference = preference,
          tiebreaker_preference = (if arch = ''hidden'' \<and> rnd (j + 1) < 6/10 then Some ''HD'' else None),
          ai_slot_modifiers =
            (case weak of
               None \<Rightarrow> base
             | Some w \<Rightarrow> apply_weakness base
                 (case map_of WEAKNESS_MODIFIERS w of None \<Rightarrow> [] | Some m \<Rightarrow> m))\<rparr>)"

definition roll_ai_profile ::
  "(int \<Rightarrow> int \<Rightarrow> int) \<Rightarrow> (nat \<Rightarrow> real) \<Rightarrow> int option \<Rightarrow> string option \<Rightarrow> error + ai_profile" where
  "roll_ai_profile randint rnd rtg rank =
     (case division_for rtg rank of
        Inl e \<Rightarrow> Inl e
      | Inr division \<Rightarrow>
          let bot_rating = randint (low_mmr division)
                (case high_mmr division of None \<Rightarrow> low_mmr division + 199
                 | Some h \<Rightarrow> if h = 0 then low_mmr division + 199 else h)
          in (case weighted (rnd 0) (if d_name division = ''ARCHSOM'' then ARCHSOM_ARCHETYPES
                                     else STANDARD_ARCHETYPES) of
                Inl e \<Rightarrow> Inl e
              | Inr arch \<Rightarrow>
                  (case roll_weakness rnd arch of
                     Inl e \<Rightarrow> Inl e
                   | Inr weak \<Rightarrow>
                       (case map_of ARCHETYPE_MODIFIERS arch of
                          None \<Rightarrow> Inl KeyErr
                        | Some base \<Rightarrow> Inr (assemble_profile division bot_rating arch weak base rnd)))))"

section \<open>Drafting\<close>

definition slot_modifier :: "(string \<times> real) list \<Rightarrow> string \<Rightarrow> real" where
  "slot_modifier modifiers sid = (case map_of modifiers (py_upper sid) of None \<Rightarrow> 0 | Some v \<Rightarrow> v)"

definition draft_strength :: "bot list \<Rightarrow> slot \<Rightarrow> real" where
  "draft_strength team s =
     (let values = map (\<lambda>b. slot_modifier (ai_slot_modifiers (bot_ai b)) (py_upper (slot_id s))) team
      in 7/10 * sum_list values / real (max 1 (length values))
         + 3/10 * (if values = [] then 0 else Min (set values)))"

text \<open>\<open>min\<close>/\<open>max\<close> with a key return the first extremal element.\<close>

fun first_best :: "bool \<Rightarrow> (real \<times> 'a) \<Rightarrow> (real \<times> 'a) list \<Rightarrow> (real \<times> 'a)" where
  "first_best banning b [] = b"
| "first_best banning b (x # xs) =
     first_best banning (if (if banning then fst x < fst b else fst b < fst x) then x else b) xs"

definition scored_slots :: "(nat \<Rightarrow> real) \<Rightarrow> bot list \<Rightarrow> slot list \<Rightarrow> (real \<times> slot) list" where
  "scored_slots noise team slts =
     map (\<lambda>(i, s). (draft_strength team s + (- 25/1000 + 5/100 * noise i), s)) (enumerate 0 slts)"

definition choose_draft_slot ::
  "(nat \<Rightarrow> real) \<Rightarrow> bot list \<Rightarrow> slot list \<Rightarrow> bool \<Rightarrow> error + slot" where
  "choose_draft_slot noise team slts banning =
     (case scored_slots noise team slts of
        [] \<Rightarrow> Inl (ValueErr ''empty sequence'')
      | x # xs \<Rightarrow> Inr (snd (first_best banning x xs)))"

section \<open>Divisions and the rank ladder\<close>

text \<open>Row \<open>i\<close> of the table covers the 100 points from \<open>3000 - 100 i\<close>; the last row starts at 0.\<close>

lemma divisions_table:
  "list_all (\<lambda>i. low_mmr (DIVISIONS ! i) = (if i = 25 then 0 else 3000 - 100 * int i)
     \<and> high_mmr (DIVISIONS ! i) = (if i = 0 then None else Some (3099 - 100 * int i))
     \<and> d_name (DIVISIONS ! i) = RANKS ! (25 - i)) [0..<26]"
  "length DIVISIONS = 26"
  by code_simp+

lemma find_division_row:
  assumes "i < 26" and "in_division v (DIVISIONS ! i)" and "v < 3100 - 100 * int i \<or> i = 0"
  shows "find (in_division v) DIVISIONS = Some (DIVISIONS ! i)" and "d_name (DIVISIONS ! i) = RANKS ! (25 - i)"
proof -
  have row: "low_mmr (DIVISIONS ! j) = (if j = 25 then 0 else 3000 - 100 * int j)
     \<and> d_name (DIVISIONS ! j) = RANKS ! (25 - j)" if "j < 26" for j
    using divisions_table(1) that unfolding list_all_iff set_upt by auto
  have "\<not> in_division v (DIVISIONS ! j)" if "j < i" for j
    using row[of j] assms that by (simp add: in_division_def)
  with assms show "find (in_division v) DIVISIONS = Some (DIVISIONS ! i)"
    by (auto simp: find_Some_iff divisions_table(2))
  show "d_name (DIVISIONS ! i) = RANKS ! (25 - i)" using row[OF assms(1)] by simp
qed

lemma find_division_ladder:
  assumes "0 \<le> v"
  shows "\<exists>d. find (in_division v) DIVISIONS = Some d \<and> d_name d = RANKS ! ladder_index (of_int v)"
proof -
  define i where "i = (if 3000 \<le> v then 0 else if v < 600 then 25 else nat (30 - v div 100))"
  have fl: "\<lfloor>real_of_int v / 100\<rfloor> = v div 100"
    by (metis floor_divide_of_int_eq of_int_numeral)
  have dm: "v = 100 * (v div 100) + v mod 100" "0 \<le> v mod 100" "v mod 100 < 100" by simp_all
  have mid: "6 \<le> v div 100 \<and> v div 100 \<le> 29" if "600 \<le> v" "v < 3000"
    using that by auto
  have i: "i < 26" "v < 3100 - 100 * int i \<or> i = 0" "25 - i = ladder_index (of_int v)"
    using mid dm by (auto simp: i_def ladder_index_def fl nat_diff_distrib)
  have "in_division v (DIVISIONS ! i)"
    using divisions_table(1) i(1) assms mid dm unfolding list_all_iff set_upt
    by (auto simp: in_division_def i_def)
  from find_division_row[OF i(1) this i(2)] i(3) show ?thesis by simp
qed

text \<open>The table of bot divisions and the rank ladder agree: for every integer rating the division
  found is the one named after the rank of that rating (negative ratings count as 0), so a bot
  rolled for a rating plays in the division the players of that rating are shown.\<close>

theorem division_matches_rank:
  "\<exists>d. division_for (Some r) None = Inr d \<and> d_name d = rank_from_rating (of_int (max 0 r))
     \<and> low_mmr d \<le> max 0 r"
proof -
  obtain d where d: "find (in_division (max 0 r)) DIVISIONS = Some d"
    and n: "d_name d = RANKS ! ladder_index (of_int (max 0 r))"
    using find_division_ladder[of "max 0 r"] by auto
  moreover from d have "low_mmr d \<le> max 0 r"
    by (auto dest: find_Some_in simp: in_division_def)
  ultimately show ?thesis by (simp add: division_for_def division_named_def rank_from_rating_ladder)
qed

lemma division_named_in: "division_named rank = Some d \<Longrightarrow> d \<in> set DIVISIONS"
  by (auto simp: division_named_def Let_def dest: find_Some_in split: option.splits if_splits)

lemma division_for_total: "\<exists>d. division_for rtg rank = Inr d \<and> d \<in> set DIVISIONS"
proof (cases "division_named rank")
  case None
  let ?v = "case rtg of None \<Rightarrow> 1500 | Some v \<Rightarrow> max 0 v"
  have "0 \<le> ?v" by (simp split: option.splits)
  from find_division_ladder[OF this] None show ?thesis
    by (auto simp: division_for_def Let_def dest: find_Some_in)
next
  case (Some d)
  then show ?thesis by (simp add: division_for_def division_named_in)
qed

section \<open>Skillsets\<close>

lemma pick_cumulative_in: "xs \<noteq> [] \<Longrightarrow> \<exists>a \<in> fst ` set xs. pick_cumulative x acc xs = Some a"
  by (induction x acc xs rule: pick_cumulative.induct) auto

lemma weighted_in:
  assumes "values \<noteq> []"
  shows "\<exists>a \<in> fst ` set values. weighted u values = Inr a"
proof -
  let ?ws = "map (\<lambda>(a, w). (a, real_of_int w)) values"
  obtain a where "a \<in> fst ` set ?ws" "pick_cumulative (u * (\<Sum>p\<leftarrow>?ws. snd p)) 0 ?ws = Some a"
    using pick_cumulative_in[of ?ws "u * (\<Sum>p\<leftarrow>?ws. snd p)" 0] assms by auto
  moreover have "fst ` set ?ws = fst ` set values" by force
  ultimately show ?thesis by (auto simp: weighted_def Let_def)
qed

definition modifiers_ok :: "(string \<times> real) list \<Rightarrow> bool" where
  "modifiers_ok ms \<longleftrightarrow> (\<forall>v \<in> ran (map_of ms). - 45 / 100 \<le> v \<and> v \<le> 25 / 100)"

lemma py_round4_bounds:
  assumes "of_int a \<le> x * 10000" and "x * 10000 \<le> of_int b"
  shows "of_int a / 10000 \<le> py_round4 x \<and> py_round4 x \<le> of_int b / 10000"
  using py_round_ge_int[OF assms(1)] py_round_le_int[OF assms(2)] by (simp add: py_round4_def divide_right_mono)

lemma py_round4_clamp:
  "- 45 / 100 \<le> py_round4 (max (- 45 / 100) (min (25 / 100) x))
   \<and> py_round4 (max (- 45 / 100) (min (25 / 100) x)) \<le> 25 / 100"
  using py_round4_bounds[of "- 4500" "max (- 45 / 100) (min (25 / 100) x)" 2500]
  by (cases "x \<le> - 45 / 100"; cases "x \<le> 25 / 100") (auto simp: max_def min_def)

lemma modifiers_ok_put:
  "modifiers_ok ms \<Longrightarrow> - 45 / 100 \<le> v \<Longrightarrow> v \<le> 25 / 100 \<Longrightarrow> modifiers_ok (put_key k v ms)"
  by (auto simp: modifiers_ok_def ran_def)

lemma weaken_slot_ok: "modifiers_ok ms \<Longrightarrow> modifiers_ok (weaken_slot slot value ms)"
  using py_round4_clamp unfolding weaken_slot_def by (intro modifiers_ok_put) blast+

lemma apply_weakness_ok: "modifiers_ok ms \<Longrightarrow> modifiers_ok (apply_weakness ms weak)"
  unfolding apply_weakness_def
  by (induction weak arbitrary: ms) (auto simp: weaken_slot_ok)

definition archetype_ok :: "string \<Rightarrow> bool" where
  "archetype_ok a \<longleftrightarrow> a \<in> set (map fst ARCHETYPE_MODIFIERS)
     \<and> (a = ''allrounder'' \<or> a \<in> set (map fst PREFERENCES))
     \<and> filter (\<lambda>item. weakness_allowed a (fst item)) WEAKNESSES \<noteq> []"

lemma archetype_tables:
  "list_all (\<lambda>(a, ms). list_all (\<lambda>(s, v). - 45 / 100 \<le> v \<and> v \<le> 25 / 100) ms) ARCHETYPE_MODIFIERS"
  "list_all (\<lambda>p. archetype_ok (fst p)) STANDARD_ARCHETYPES"
  "list_all (\<lambda>p. archetype_ok (fst p)) ARCHSOM_ARCHETYPES"
  by code_simp+

lemma archetype_modifiers_ok:
  assumes "map_of ARCHETYPE_MODIFIERS a = Some ms"
  shows "modifiers_ok ms"
proof -
  from assms have "(a, ms) \<in> set ARCHETYPE_MODIFIERS" by (rule map_of_SomeD)
  with archetype_tables(1) have "list_all (\<lambda>(s, v). - 45 / 100 \<le> v \<and> v \<le> 25 / 100) ms"
    by (auto simp: list_all_iff)
  then show ?thesis
    by (auto simp: modifiers_ok_def ran_def list_all_iff dest!: map_of_SomeD)
qed

lemma roll_weakness_allowed:
  assumes "filter (\<lambda>item. weakness_allowed a (fst item)) WEAKNESSES \<noteq> []"
  shows "\<exists>w. roll_weakness rnd a = Inr w \<and> (\<forall>x. w = Some x \<longrightarrow> weakness_allowed a x)"
  using weighted_in[OF assms, of "rnd 2"] by (auto simp: roll_weakness_def)

lemma roll_preference_some:
  assumes "a = ''allrounder'' \<or> a \<in> set (map fst PREFERENCES)"
  shows "roll_preference u a \<noteq> None"
proof (cases "a = ''allrounder''")
  case True
  then show ?thesis
    using pick_cumulative_in[of "[(''HD'', 475 / 10), (''HR'', 475 / 10), (''HDHR'', 5)]" "u * 100" 0]
    by (auto simp: roll_preference_def)
next
  case False
  with assms show ?thesis by (simp add: roll_preference_def map_of_eq_None_iff)
qed

text \<open>The parts of a roll: the rating, the archetype and the match form.\<close>

lemma rolled_rating:
  assumes "d \<in> set DIVISIONS" and "\<forall>a b. a \<le> b \<longrightarrow> a \<le> randint a b \<and> randint a b \<le> b"
  shows "in_division (randint (low_mmr d) (case high_mmr d of None \<Rightarrow> low_mmr d + 199
           | Some h \<Rightarrow> if h = 0 then low_mmr d + 199 else h)) d"
proof -
  have "list_all (\<lambda>d. case high_mmr d of None \<Rightarrow> True | Some h \<Rightarrow> low_mmr d \<le> h \<and> h \<noteq> 0) DIVISIONS"
    by code_simp
  then show ?thesis using assms by (auto simp: in_division_def list_all_iff split: option.splits)
qed

lemma rolled_archetype:
  obtains a ms where
    "weighted u (if d_name d = ''ARCHSOM'' then ARCHSOM_ARCHETYPES else STANDARD_ARCHETYPES) = Inr a"
    "map_of ARCHETYPE_MODIFIERS a = Some ms" "a = ''allrounder'' \<or> a \<in> set (map fst PREFERENCES)"
    "filter (\<lambda>item. weakness_allowed a (fst item)) WEAKNESSES \<noteq> []"
proof -
  let ?tab = "if d_name d = ''ARCHSOM'' then ARCHSOM_ARCHETYPES else STANDARD_ARCHETYPES"
  have "?tab \<noteq> []" by (simp add: ARCHSOM_ARCHETYPES_def STANDARD_ARCHETYPES_def)
  then obtain a where a: "a \<in> fst ` set ?tab" "weighted u ?tab = Inr a"
    using weighted_in by blast
  have "list_all (\<lambda>p. archetype_ok (fst p)) ?tab"
    using archetype_tables(2,3) by (simp only: if_split) blast
  then have ok: "archetype_ok a" using a(1) by (auto simp only: list_all_iff)
  then have "a \<in> fst ` set ARCHETYPE_MODIFIERS" by (simp add: archetype_ok_def)
  then obtain ms where "map_of ARCHETYPE_MODIFIERS a = Some ms" by (metis map_of_eq_None_iff option.exhaust)
  then show thesis using that a(2) ok unfolding archetype_ok_def by blast
qed

lemma rolled_form:
  assumes "0 \<le> u" "u < 1"
  shows "72/100 \<le> py_round4 (72/100 + (88/100 - 72/100) * u) \<and> py_round4 (72/100 + (88/100 - 72/100) * u) \<le> 88/100"
proof -
  let ?x = "(72/100 + (88/100 - 72/100) * u) * 10000"
  have "7200 \<le> py_round ?x" "py_round ?x \<le> 8800"
    using assms by (auto intro!: py_round_ge_int py_round_le_int)
  then show ?thesis by (simp add: py_round4_def)
qed

text \<open>C40: rolling a bot never fails and always yields a playable skillset: the rating lies in the
  bot's division, every slot modifier lies between -0.45 and 0.25, the match form between 0.72 and
  0.88, a rolled weakness never contradicts the archetype, and a FreeMod preference is set.\<close>

theorem rolled_profile_valid:
  assumes "\<forall>a b. a \<le> b \<longrightarrow> a \<le> randint a b \<and> randint a b \<le> b" and "\<forall>i. 0 \<le> rnd i \<and> rnd i < 1"
  shows "\<exists>d p. division_for rtg rank = Inr d \<and> roll_ai_profile randint rnd rtg rank = Inr p
    \<and> ai_division p = d_name d \<and> in_division (ai_rating p) d
    \<and> modifiers_ok (ai_slot_modifiers p)
    \<and> 72/100 \<le> match_form p \<and> match_form p \<le> 88/100
    \<and> (\<forall>w. weakness p = Some w \<longrightarrow> weakness_allowed (archetype p) w)
    \<and> freemod_preference p \<noteq> None"
proof -
  obtain d where d: "division_for rtg rank = Inr d" "d \<in> set DIVISIONS"
    using division_for_total by blast
  let ?r = "randint (low_mmr d) (case high_mmr d of None \<Rightarrow> low_mmr d + 199
                 | Some h \<Rightarrow> if h = 0 then low_mmr d + 199 else h)"
  have r: "in_division ?r d" by (rule rolled_rating[OF d(2) assms(1)])
  obtain a ms where
    a: "weighted (rnd 0) (if d_name d = ''ARCHSOM'' then ARCHSOM_ARCHETYPES else STANDARD_ARCHETYPES) = Inr a"
    and ms: "map_of ARCHETYPE_MODIFIERS a = Some ms" and kinds: "a = ''allrounder'' \<or> a \<in> set (map fst PREFERENCES)"
    and weak: "filter (\<lambda>item. weakness_allowed a (fst item)) WEAKNESSES \<noteq> []"
    by (rule rolled_archetype)
  obtain w where w: "roll_weakness rnd a = Inr w" "\<forall>x. w = Some x \<longrightarrow> weakness_allowed a x"
    using roll_weakness_allowed[OF weak] by blast
  have form: "72/100 \<le> py_round4 (72/100 + (88/100 - 72/100) * rnd i)
      \<and> py_round4 (72/100 + (88/100 - 72/100) * rnd i) \<le> 88/100" for i
    using assms(2) by (intro rolled_form) blast+
  define p where "p = assemble_profile d ?r a w ms rnd"
  have p: "roll_ai_profile randint rnd rtg rank = Inr p"
    unfolding p_def roll_ai_profile_def Let_def d(1) sum.case a w(1) ms option.case ..
  have ok: "modifiers_ok (ai_slot_modifiers p)"
    using archetype_modifiers_ok[OF ms]
    by (simp add: p_def assemble_profile_def Let_def apply_weakness_ok split: option.split)
  have f: "72/100 \<le> match_form p" "match_form p \<le> 88/100"
    unfolding p_def assemble_profile_def Let_def ai_profile.select_convs using form by blast+
  have flds: "ai_division p = d_name d" "ai_rating p = ?r" "weakness p = w" "archetype p = a"
    unfolding p_def assemble_profile_def Let_def ai_profile.select_convs by (rule refl)+
  have pref: "freemod_preference p \<noteq> None"
    unfolding p_def assemble_profile_def Let_def ai_profile.select_convs by (rule roll_preference_some[OF kinds])
  have "in_division (ai_rating p) d" unfolding flds by (rule r)
  moreover have "\<forall>x. weakness p = Some x \<longrightarrow> weakness_allowed (archetype p) x"
    unfolding flds by (rule w(2))
  ultimately show ?thesis
    by (intro exI[of _ d] exI[of _ p] conjI d(1) p flds(1) ok f pref)
qed

section \<open>Draft choices\<close>

lemma first_best_member: "first_best b x xs \<in> set (x # xs)"
proof (induction xs arbitrary: x)
  case (Cons y ys)
  define c where "c = (if (if b then fst y < fst x else fst x < fst y) then y else x)"
  have "first_best b c ys \<in> set (c # ys)" by (rule Cons.IH)
  moreover have "c = x \<or> c = y" by (simp add: c_def)
  ultimately show ?case by (auto simp: c_def[symmetric])
qed simp

lemma first_best_min: "y \<in> set (x # xs) \<Longrightarrow> fst (first_best True x xs) \<le> fst y"
proof (induction xs arbitrary: x y)
  case (Cons z zs)
  let ?b = "if fst z < fst x then z else x"
  have "fst (first_best True x (z # zs)) \<le> fst ?b" using Cons.IH[of ?b ?b] by simp
  moreover have "y \<in> set zs \<Longrightarrow> fst (first_best True x (z # zs)) \<le> fst y" using Cons.IH[of y ?b] by simp
  ultimately show ?case using Cons.prems by (cases "fst z < fst x") auto
qed simp

lemma first_best_max: "y \<in> set (x # xs) \<Longrightarrow> fst y \<le> fst (first_best False x xs)"
proof (induction xs arbitrary: x y)
  case (Cons z zs)
  let ?b = "if fst x < fst z then z else x"
  have "fst ?b \<le> fst (first_best False x (z # zs))" using Cons.IH[of ?b ?b] by simp
  moreover have "y \<in> set zs \<Longrightarrow> fst y \<le> fst (first_best False x (z # zs))" using Cons.IH[of y ?b] by simp
  ultimately show ?case using Cons.prems by (cases "fst x < fst z") auto
qed simp

text \<open>An automatic draft takes a slot that was offered and whose score (team strength plus the
  seeded noise) is the lowest on a ban and the highest on a pick.\<close>

theorem draft_choice_extremal:
  assumes "slts \<noteq> []"
  shows "\<exists>v s. choose_draft_slot noise team slts banning = Inr s \<and> s \<in> set slts
    \<and> (v, s) \<in> set (scored_slots noise team slts)
    \<and> (\<forall>(u, t) \<in> set (scored_slots noise team slts). if banning then v \<le> u else u \<le> v)"
proof -
  obtain x xs where x: "scored_slots noise team slts = x # xs"
    using assms by (cases "scored_slots noise team slts") (auto simp: scored_slots_def dest: arg_cong[of _ _ length])
  let ?r = "first_best banning x xs"
  have r: "?r \<in> set (scored_slots noise team slts)" unfolding x by (rule first_best_member)
  then have "snd ?r \<in> set slts" by (auto simp: scored_slots_def in_set_enumerate_eq)
  moreover have "\<forall>(u, t) \<in> set (scored_slots noise team slts). if banning then fst ?r \<le> u else u \<le> fst ?r"
    unfolding x using first_best_min[of _ x xs] first_best_max[of _ x xs] by (cases banning) force+
  ultimately show ?thesis using r
    by (intro exI[of _ "fst ?r"] exI[of _ "snd ?r"]) (simp add: choose_draft_slot_def x)
qed

theorem rolled_profile_valid_witness:
  "\<exists>d p. division_for (Some 1500) None = Inr d
    \<and> roll_ai_profile (\<lambda>a b. a) (\<lambda>i. 0) (Some 1500) None = Inr p
    \<and> ai_division p = d_name d \<and> in_division (ai_rating p) d
    \<and> modifiers_ok (ai_slot_modifiers p)
    \<and> 72/100 \<le> match_form p \<and> match_form p \<le> 88/100
    \<and> (\<forall>w. weakness p = Some w \<longrightarrow> weakness_allowed (archetype p) w)
    \<and> freemod_preference p \<noteq> None"
  by (rule rolled_profile_valid) auto

end
