(* ===== verification/Store.thy ===== *)
theory Store
  imports Ratings Bots
begin

text \<open>
  The database the SOMSAI services share (\<open>app/features/somsai/database/somsai.py\<close> and the parts
  of other tables they read), as one record of tables, and the row operations every service uses.

  A table is the list of its rows in primary-key order of insertion; \<open>get_row\<close> is
  \<open>session.get\<close>, \<open>put_row\<close> a flushed insert or update, \<open>del_row\<close> \<open>session.delete\<close>.  The clock
  \<open>now\<close> is read once per transaction.  \<open>uuids\<close> and \<open>draws\<close> are the streams \<open>uuid4\<close> and the random
  generator deliver; \<open>public_order\<close> is the outcome of the window query of \<open>ensure_rating\<close>: the
  users of the public ranking of a ruleset, best first.
\<close>

section \<open>Tables\<close>

definition get_row :: "('r \<Rightarrow> 'k) \<Rightarrow> 'k \<Rightarrow> 'r list \<Rightarrow> 'r option" where
  "get_row key k t = find (\<lambda>r. key r = k) t"

fun put_row :: "('r \<Rightarrow> 'k) \<Rightarrow> 'r \<Rightarrow> 'r list \<Rightarrow> 'r list" where
  "put_row key r [] = [r]"
| "put_row key r (x # xs) = (if key x = key r then r # xs else x # put_row key r xs)"

definition del_row :: "('r \<Rightarrow> 'k) \<Rightarrow> 'k \<Rightarrow> 'r list \<Rightarrow> 'r list" where
  "del_row key k t = filter (\<lambda>r. key r \<noteq> k) t"

text \<open>What the services rely on when they read and write rows by key.\<close>

locale keyed_table =
  fixes key :: "'r \<Rightarrow> 'k"
    and get :: "'k \<Rightarrow> 't \<Rightarrow> 'r option"
    and put :: "'r \<Rightarrow> 't \<Rightarrow> 't"
    and del :: "'k \<Rightarrow> 't \<Rightarrow> 't"
  assumes get_key: "get k t = Some r \<Longrightarrow> key r = k"
    and get_put: "get k (put r t) = (if k = key r then Some r else get k t)"
    and get_del: "get k (del j t) = (if k = j then None else get k t)"
begin

lemma get_put_same: "get (key r) (put r t) = Some r"
  by (simp add: get_put)

lemma get_put_put: "get k (put r (put q t)) = (if key r = key q then get k (put r t) else get k (put q (put r t)))"
  by (simp add: get_put)

lemma get_del_put: "get k (del (key r) (put r t)) = get k (del (key r) t)"
  by (simp add: get_put get_del)

end

interpretation rows: keyed_table key "get_row key" "put_row key" "del_row key"
  for key :: "'r \<Rightarrow> 'k"
proof
  show "key r = k" if "get_row key k t = Some r" for k t and r :: 'r
    using that by (auto simp: get_row_def dest: find_Some_in)
  show "get_row key k (put_row key r t) = (if k = key r then Some r else get_row key k t)" for k r t
    by (induction key r t rule: put_row.induct) (auto simp: get_row_def)
  show "get_row key k (del_row key j t) = (if k = j then None else get_row key k t)" for k j t
    by (induction t) (auto simp: get_row_def del_row_def)
qed

lemmas row_simps [simp] = rows.get_put rows.get_del

lemma set_put_row: "set (put_row key r t) \<subseteq> insert r (set t)"
  by (induction key r t rule: put_row.induct) auto

lemma map_put_row_found:
  "find (\<lambda>y. key y = key r) t = Some x \<Longrightarrow> f r = f x \<Longrightarrow> map f (put_row key r t) = map f t"
  by (induction key r t rule: put_row.induct) (auto split: if_splits)

lemma count_put_row:
  "find (\<lambda>y. key y = key r) t = Some x \<Longrightarrow>
   length (filter P (put_row key r t)) + of_bool (P x) = length (filter P t) + of_bool (P r)"
  by (induction key r t rule: put_row.induct) (auto split: if_splits)

lemma put_row_twice: "key q = key r \<Longrightarrow> put_row key r (put_row key q t) = put_row key r t"
  by (induction key r t rule: put_row.induct) auto

lemma same_key: "distinct (map f t) \<Longrightarrow> x \<in> set t \<Longrightarrow> y \<in> set t \<Longrightarrow> f x = f y \<Longrightarrow> x = y"
  by (simp add: distinct_map inj_on_def)

lemma put_row_mem [simp]: "r \<in> set (put_row key r t)"
  by (induction key r t rule: put_row.induct) auto

lemma put_row_other: "x \<in> set t \<Longrightarrow> key x \<noteq> key r \<Longrightarrow> x \<in> set (put_row key r t)"
  by (induction key r t rule: put_row.induct) auto

lemma distinct_put_row: "distinct (map key t) \<Longrightarrow> distinct (map key (put_row key r t))"
proof (induction key r t rule: put_row.induct)
  case (2 key r x xs)
  have "set (map key (put_row key r xs)) = insert (key r) (set (map key xs))"
    by (induction key r xs rule: put_row.induct) auto
  with 2 show ?case by auto
qed simp

lemma get_row_mem: "distinct (map key t) \<Longrightarrow> get_row key k t = Some r \<longleftrightarrow> r \<in> set t \<and> key r = k"
  unfolding get_row_def by (induction t) (auto simp: rev_image_eqI)

lemma get_row_unique:
  "distinct (map key t) \<Longrightarrow> p \<in> set t \<Longrightarrow> get_row key (key p) t = Some p"
  unfolding get_row_def by (induction t) auto

lemma list_all_put_row: "list_all P t \<Longrightarrow> P r \<Longrightarrow> list_all P (put_row key r t)"
  by (induction key r t rule: put_row.induct) auto

lemma get_row_all: "list_all P t \<Longrightarrow> get_row key k t = Some r \<Longrightarrow> P r"
  by (auto simp: get_row_def list_all_iff dest: find_Some_in)

lemma put_row_set: "distinct (map key t) \<Longrightarrow> x \<in> set (put_row key r t) \<Longrightarrow> x = r \<or> x \<in> set t \<and> key x \<noteq> key r"
  by (induction key r t rule: put_row.induct) (auto split: if_splits simp: image_iff)

lemma get_row_None: "get_row key k t = None \<longleftrightarrow> (\<forall>r \<in> set t. key r \<noteq> k)"
  by (auto simp: get_row_def find_None_iff)

lemma get_row_Nil [simp]: "get_row key k [] = None"
  by (simp add: get_row_def)

section \<open>Rows\<close>

record user_row =
  u_id :: int
  username :: string
  country_code :: string
  u_active :: bool
  u_bot :: bool
  u_restricted :: bool
  pm_friends_only :: bool

datatype relation_type = Follow | Block

record relation_row =
  rel_user :: int
  rel_target :: int
  rel_type :: relation_type

record activity_row =
  a_user :: int
  last_seen_at :: time
  a_party :: "int option"
  a_reservation :: "string option"
  a_match :: "int option"

record party_row =
  party_id :: int
  captain_id :: int
  members :: "int list"
  party_active :: bool
  party_revision :: int

datatype invite_status = Pending | Accepted | Declined

record party_invite =
  pi_id :: int
  pi_party :: int
  pi_inviter :: int
  pi_target :: int
  pi_status :: invite_status
  pi_expires :: time

record direct_invite =
  di_id :: int
  di_kind :: string
  di_inviter :: int
  di_target :: int
  di_match :: "int option"
  di_ruleset :: int
  di_variant :: int
  di_status :: invite_status
  di_expires :: time

record reservation_row =
  res_id :: string
  res_captain :: int
  res_party :: "int option"
  res_kind :: string
  res_members :: "int list"
  released :: bool
  res_expires :: time

record native_room =
  n_user :: int
  n_room :: int
  n_expires :: time

record queue_row =
  q_id :: int
  q_reservation :: string
  q_captain :: int
  q_members :: "int list"
  q_format :: string
  q_ruleset :: int
  q_variant :: int
  q_rating :: real
  q_joined :: time
  q_expires :: time

record rating_entry =
  re_key :: "int \<times> int \<times> int \<times> string"
  re_rank :: "int option"
  re_population :: int
  re_row :: rating_row

record somsai_map =
  m_id :: int
  m_slot :: string
  m_ruleset :: int
  m_variant :: int
  m_category :: string
  m_beatmap :: int
  m_checksum :: string
  m_artist :: string
  m_title :: string
  m_version :: string
  m_mods :: "api_mod list"
  m_stars :: real
  eligible :: "string list"

record beatmap_row =
  bm_id :: int
  bm_checksum :: string
  bm_deleted :: bool

datatype room_type = TeamVersus | RankedPlay | OtherRoom

record room_row =
  rm_id :: int
  rm_name :: string
  rm_type :: room_type
  rm_host :: int
  rm_ends_at :: "time option"
  rm_channel :: "int option"

record playlist_row =
  pl_key :: "int \<times> int"
  pl_beatmap :: int
  pl_ruleset :: int
  pl_owner :: int
  pl_required :: "api_mod list"
  pl_allowed :: "api_mod list"
  pl_order :: int

record score_row =
  sc_id :: int
  sc_room :: "int option"
  sc_item :: "int option"
  sc_user :: int
  sc_beatmap :: int
  sc_md5 :: string
  sc_mode :: int
  total_score :: int
  sc_accuracy :: real
  sc_max_combo :: int
  sc_counts :: counters
  sc_rank :: string
  sc_passed :: bool

record penalty_row =
  pen_room :: int
  pen_user :: int
  pen_level :: nat
  pen_created :: time
  pen_expires :: "time option"
  pen_banned :: bool

record audit_row =
  au_target :: int
  au_reason :: string
  au_before_level :: nat
  au_room :: int
  au_level :: nat

datatype credential = LoginSession | TrustedDevice | OAuthToken

record db =
  now :: time
  users :: "user_row list"
  relations :: "relation_row list"
  activities :: "activity_row list"
  parties :: "party_row list"
  party_invites :: "party_invite list"
  direct_invites :: "direct_invite list"
  reservation_rows :: "reservation_row list"
  native_rooms :: "native_room list"
  queue_rows :: "queue_row list"
  rating_entries :: "rating_entry list"
  matches :: "match_row list"
  maps :: "somsai_map list"
  beatmaps :: "beatmap_row list"
  rooms :: "room_row list"
  playlists :: "playlist_row list"
  scores :: "score_row list"
  penalties :: "penalty_row list"
  audit :: "audit_row list"
  credentials :: "(credential \<times> int) list"
  public_order :: "int \<Rightarrow> int list"
  next_id :: int
  uuids :: "nat \<Rightarrow> string"
  uuid_pos :: nat
  draws :: "nat \<Rightarrow> nat"
  draw_pos :: nat

definition BANCHOBOT_ID :: int where
  "BANCHOBOT_ID = 2"

section \<open>Activity rows\<close>

definition new_activity :: "time \<Rightarrow> int \<Rightarrow> activity_row" where
  "new_activity t uid = \<lparr>a_user = uid, last_seen_at = t, a_party = None, a_reservation = None, a_match = None\<rparr>"

text \<open>The activity row of a user as any reader sees it: a missing row is created with the defaults.\<close>

definition act :: "db \<Rightarrow> int \<Rightarrow> activity_row" where
  "act s uid = (case get_row a_user uid (activities s) of None \<Rightarrow> new_activity (now s) uid | Some a \<Rightarrow> a)"

definition put_activity :: "activity_row \<Rightarrow> db \<Rightarrow> db" where
  "put_activity a s = s\<lparr>activities := put_row a_user a (activities s)\<rparr>"

definition activity :: "int \<Rightarrow> (db, activity_row) op" where
  "activity uid s =
     (case get_row a_user uid (activities s) of
        Some row \<Rightarrow> (Inr row, s)
      | None \<Rightarrow> (let row = new_activity (now s) uid in (Inr row, put_activity row s)))"

text \<open>\<open>(await activity(session, uid)).field = value\<close>\<close>

definition set_activity :: "int \<Rightarrow> (activity_row \<Rightarrow> activity_row) \<Rightarrow> (db, unit) op" where
  "set_activity uid f = bnd (activity uid) (\<lambda>row. modify (put_activity (f row)))"

lemma a_user_act [simp]: "a_user (act s uid) = uid"
  by (auto simp: act_def new_activity_def dest: rows.get_key split: option.splits)

lemma act_put_activity [simp]: "act (put_activity a s) uid = (if uid = a_user a then a else act s uid)"
  by (simp add: act_def put_activity_def split: option.split)

lemma activity_eq:
  "activity uid s = (Inr (act s uid), if get_row a_user uid (activities s) = None
     then put_activity (act s uid) s else s)"
  by (auto simp: activity_def act_def Let_def split: option.splits)

lemma set_activity_eq:
  "set_activity uid f s = (Inr (), put_activity (f (act s uid))
     (if get_row a_user uid (activities s) = None then put_activity (act s uid) s else s))"
  by (simp add: set_activity_def bnd_def activity_eq modify_def)

text \<open>Reading an activity may insert its default row and changes nothing else.\<close>

definition same_data :: "db \<Rightarrow> db \<Rightarrow> bool" where
  "same_data s t \<longleftrightarrow> act t = act s \<and> (\<exists>as. t = s\<lparr>activities := as\<rparr>)"

lemma same_data_refl [simp]: "same_data s s"
  unfolding same_data_def by (intro conjI exI[of _ "activities s"]) simp_all

lemma same_data_trans: "same_data s t \<Longrightarrow> same_data t u \<Longrightarrow> same_data s u"
  by (auto simp: same_data_def)

lemma same_data_put: "same_data s (put_activity (act s uid) s)"
proof -
  have "act (put_activity (act s uid) s) = act s" by (rule ext) simp
  moreover have "\<exists>as. put_activity (act s uid) s = s\<lparr>activities := as\<rparr>"
    unfolding put_activity_def by (rule exI) (rule refl)
  ultimately show ?thesis unfolding same_data_def by blast
qed

lemma activity_run: "activity uid s = (r, t) \<Longrightarrow> r = Inr (act s uid) \<and> same_data s t"
  by (auto simp: activity_eq same_data_put split: if_splits)

lemma act_frame [simp]:
  "act (s\<lparr>users := a1\<rparr>) = act s" "act (s\<lparr>relations := a2\<rparr>) = act s" "act (s\<lparr>parties := a3\<rparr>) = act s"
  "act (s\<lparr>party_invites := a4\<rparr>) = act s" "act (s\<lparr>direct_invites := a5\<rparr>) = act s"
  "act (s\<lparr>reservation_rows := a6\<rparr>) = act s" "act (s\<lparr>native_rooms := a7\<rparr>) = act s"
  "act (s\<lparr>queue_rows := a8\<rparr>) = act s" "act (s\<lparr>rating_entries := a9\<rparr>) = act s"
  "act (s\<lparr>matches := b1\<rparr>) = act s" "act (s\<lparr>maps := b2\<rparr>) = act s" "act (s\<lparr>beatmaps := b3\<rparr>) = act s"
  "act (s\<lparr>rooms := b4\<rparr>) = act s" "act (s\<lparr>playlists := b5\<rparr>) = act s" "act (s\<lparr>scores := b6\<rparr>) = act s"
  "act (s\<lparr>penalties := b7\<rparr>) = act s" "act (s\<lparr>audit := b8\<rparr>) = act s" "act (s\<lparr>credentials := b9\<rparr>) = act s"
  "act (s\<lparr>next_id := c1\<rparr>) = act s" "act (s\<lparr>uuid_pos := c2\<rparr>) = act s" "act (s\<lparr>draw_pos := c3\<rparr>) = act s"
  by (simp_all add: act_def fun_eq_iff split: option.split)

section \<open>Users, ids and randomness\<close>

definition find_user :: "int \<Rightarrow> db \<Rightarrow> user_row option" where
  "find_user uid s = find (\<lambda>u. u_id u = uid) (users s)"

definition active_user :: "int \<Rightarrow> (db, user_row) op" where
  "active_user uid =
     bnd (gets (\<lambda>s. find (\<lambda>u. u_id u = uid \<and> u_active u \<and> \<not> u_bot u \<and> \<not> u_restricted u) (users s)))
       (\<lambda>user. case user of
          None \<Rightarrow> reject ''This player is unavailable for matches.'' 403
        | Some u \<Rightarrow> ret u)"

lemma active_user_run: "active_user uid s = (r, t) \<Longrightarrow> t = s"
  by (auto simp: active_user_def op_defs split: option.splits sum.splits)

definition fresh_id :: "(db, int) op" where
  "fresh_id s = (Inr (next_id s), s\<lparr>next_id := next_id s + 1\<rparr>)"

definition uuid4 :: "(db, string) op" where
  "uuid4 s = (Inr (uuids s (uuid_pos s)), s\<lparr>uuid_pos := Suc (uuid_pos s)\<rparr>)"

text \<open>\<open>secrets.randbelow(n)\<close> and the index \<open>secrets.choice\<close> uses.\<close>

definition randbelow :: "nat \<Rightarrow> (db, nat) op" where
  "randbelow n s = (Inr (draws s (draw_pos s) mod n), s\<lparr>draw_pos := Suc (draw_pos s)\<rparr>)"

section \<open>Rating rows\<close>

definition ensure_rating :: "int \<Rightarrow> int \<Rightarrow> int \<Rightarrow> string \<Rightarrow> (db, rating_entry) op" where
  "ensure_rating uid ruleset variant fmt s =
     (let k = (uid, ruleset, variant, fmt)
      in case get_row re_key k (rating_entries s) of
           Some row \<Rightarrow> (Inr row, s)
         | None \<Rightarrow>
             if ruleset < 0 \<or> 4 \<le> ruleset then (Inl KeyErr, s)
             else
               let order = public_order s ruleset;
                   (rank, population) =
                     (if uid \<in> set order then (Some (int (index_of uid order) + 1), int (length order)) else (None, 0));
                   seed = initial_rating rank population;
                   row = \<lparr>re_key = k, re_rank = rank, re_population = population,
                          re_row = \<lparr>rating = seed, initial_seed = seed, wins_count = 0, losses_count = 0,
                                    draws_count = 0, games = 0, last_delta = 0\<rparr>\<rparr>
               in (Inr row, s\<lparr>rating_entries := put_row re_key row (rating_entries s)\<rparr>))"

lemma ensure_rating_run:
  "ensure_rating uid rs v fmt s = (r, t) \<Longrightarrow> \<exists>re. t = s\<lparr>rating_entries := re\<rparr>"
  unfolding ensure_rating_def
  by (fastforce simp: Let_def split: option.splits if_splits intro: exI[of _ "rating_entries s"])

section \<open>A small database\<close>

text \<open>Three players and nothing else; the examples of the later theories start from it.\<close>

definition demo_db :: db where
  "demo_db = \<lparr>now = 1000000000,
     users = map (\<lambda>n. \<lparr>u_id = n, username = ''p'', country_code = ''XX'', u_active = True, u_bot = False,
       u_restricted = False, pm_friends_only = False\<rparr>) [1, 2, 3],
     relations = [], activities = [], parties = [], party_invites = [], direct_invites = [],
     reservation_rows = [], native_rooms = [], queue_rows = [], rating_entries = [], matches = [], maps = [],
     beatmaps = [], rooms = [], playlists = [], scores = [], penalties = [], audit = [], credentials = [],
     public_order = (\<lambda>_. []), next_id = 100, uuids = (\<lambda>n. replicate n CHR ''x''), uuid_pos = 0,
     draws = (\<lambda>_. 0), draw_pos = 0\<rparr>"

lemma inj_replicate: "inj (\<lambda>n. replicate n x)"
  by (auto simp: inj_def replicate_eq_replicate)

lemma replicate_x: "replicate n CHR ''x'' \<noteq> ''a''" "replicate n CHR ''x'' \<noteq> ''b''"
  by (cases n; simp)+

end
