(* ===== verification/Party.thy ===== *)
theory Party
  imports Store
begin

text \<open>
  \<open>somsai_party_service.py\<close>: parties of at most two players, invitations, and the exclusive
  reservations (leases) that tie a player to one queue or match.

  Each definition is the coroutine of the same name.  A Python row object is shared between the
  session and its users; here a row is re-read after any call that may have written it.
  \<open>session.get\<close> with a missing key is \<open>None\<close>.  SQL queries are filters over the tables.
\<close>

section \<open>Locking and expiry\<close>

definition set_party :: "party_row \<Rightarrow> (db, unit) op" where
  "set_party p = modify (\<lambda>s. s\<lparr>parties := put_row party_id p (parties s)\<rparr>)"

text \<open>One party of \<open>expire_stale_parties\<close>: who stays, then the row update.\<close>

definition stays :: "db \<Rightarrow> time \<Rightarrow> int \<Rightarrow> bool" where
  "stays s cutoff uid =
     (case get_row a_user uid (activities s) of
        None \<Rightarrow> False
      | Some st \<Rightarrow> a_reservation st \<noteq> None \<or> a_match st \<noteq> None \<or> last_seen_at st \<ge> cutoff)"

definition drop_member :: "time \<Rightarrow> int \<Rightarrow> int \<Rightarrow> (db, unit) op" where
  "drop_member cutoff pid uid s =
     (case get_row a_user uid (activities s) of
        Some st \<Rightarrow>
          if \<not> stays s cutoff uid \<and> a_party st = Some pid
          then (Inr (), put_activity (st\<lparr>a_party := None\<rparr>) s) else (Inr (), s)
      | None \<Rightarrow> (Inr (), s))"

definition expire_party :: "time \<Rightarrow> party_row \<Rightarrow> (db, unit) op" where
  "expire_party cutoff party =
     bnd (gets (\<lambda>s. filter (stays s cutoff) (members party))) (\<lambda>retained.
     seq (for_each (members party) (drop_member cutoff (party_id party)))
       (if retained = members party then ret ()
        else set_party (party\<lparr>members := retained,
               party_active := (retained \<noteq> []),
               captain_id := (if retained \<noteq> [] \<and> captain_id party \<notin> set retained
                              then hd retained else captain_id party),
               party_revision := party_revision party + 1\<rparr>)))"

definition expire_stale_parties :: "(db, unit) op" where
  "expire_stale_parties =
     bnd (gets now) (\<lambda>t.
     bnd (gets (\<lambda>s. filter party_active (parties s))) (\<lambda>active_parties.
       for_each active_parties (expire_party (t - seconds 15))))"

section \<open>Reservations\<close>

definition clear_lease :: "string \<Rightarrow> int \<Rightarrow> (db, unit) op" where
  "clear_lease rid uid =
     bnd (activity uid) (\<lambda>st.
       if a_reservation st = Some rid
       then modify (put_activity (st\<lparr>a_reservation := None, a_match := None\<rparr>)) else ret ())"

definition release_reservation :: "string \<Rightarrow> (db, unit) op" where
  "release_reservation rid =
     bnd (gets (\<lambda>s. get_row res_id rid (reservation_rows s))) (\<lambda>found.
     case found of
       None \<Rightarrow> ret ()
     | Some r \<Rightarrow>
         seq (for_each (res_members r) (clear_lease rid))
           (if starts_with (res_kind r) ''ranked:''
            then modify (\<lambda>s. s\<lparr>reservation_rows :=
                   put_row res_id (r\<lparr>released := True, res_expires := now s\<rparr>) (reservation_rows s)\<rparr>)
            else modify (\<lambda>s. s\<lparr>reservation_rows := del_row res_id rid (reservation_rows s)\<rparr>)))"

definition expire_reservations :: "(db, unit) op" where
  "expire_reservations =
     bnd (gets (\<lambda>s. filter (\<lambda>r. res_expires r \<le> now s \<and> \<not> released r) (reservation_rows s))) (\<lambda>expired.
       for_each expired (\<lambda>r.
         do_if (starts_with (res_kind r) ''ranked:'') (release_reservation (res_id r))))"

definition lock_somsai :: "(db, unit) op" where
  "lock_somsai = seq expire_stale_parties expire_reservations"

definition somsai_transaction :: "(db, 'a) op \<Rightarrow> (db, 'a) op" where
  "somsai_transaction body = transaction (seq lock_somsai body)"

definition check_free :: "int \<Rightarrow> (db, unit) op" where
  "check_free uid =
     seq (active_user uid)
      (bnd (gets (\<lambda>s. case get_row n_user uid (native_rooms s) of
                        None \<Rightarrow> False | Some n \<Rightarrow> n_expires n > now s)) (\<lambda>in_room.
       if in_room then reject ''One of the players is in a regular multiplayer room.'' 409
       else bnd (activity uid) (\<lambda>st.
         if a_reservation st \<noteq> None
         then reject ''One of the players is already in matchmaking or a match.'' 409 else ret ())))"

definition take_lease :: "string \<Rightarrow> int \<Rightarrow> (db, unit) op" where
  "take_lease rid uid = set_activity uid (\<lambda>a. a\<lparr>a_reservation := Some rid\<rparr>)"

definition reserve_members ::
  "int \<Rightarrow> int list \<Rightarrow> string \<Rightarrow> int option \<Rightarrow> string option \<Rightarrow> (db, reservation_row) op" where
  "reserve_members captain mems kind party rid =
     (if mems = [] \<or> captain \<notin> set mems \<or> \<not> distinct mems
      then reject ''Invalid team composition.'' 422
      else
        seq (for_each (sort mems) check_free)
         (bnd (case rid of Some r \<Rightarrow> ret r | None \<Rightarrow> uuid4) (\<lambda>new_id.
          bnd (gets now) (\<lambda>t.
          let reservation = \<lparr>res_id = new_id, res_captain = captain, res_party = party, res_kind = kind,
                res_members = mems, released = False, res_expires = t + minutes 10\<rparr>
          in seq (modify (\<lambda>s. s\<lparr>reservation_rows := put_row res_id reservation (reservation_rows s)\<rparr>))
              (seq (for_each mems (take_lease new_id)) (ret reservation))))))"

definition renew_reservation :: "string \<Rightarrow> (db, unit) op" where
  "renew_reservation rid =
     bnd (gets now) (\<lambda>t.
     bnd (gets (\<lambda>s. get_row res_id rid (reservation_rows s))) (\<lambda>found.
     case found of
       None \<Rightarrow> reject ''The queue reservation expired.'' 404
     | Some r \<Rightarrow>
         if released r \<or> res_expires r \<le> t then reject ''The queue reservation expired.'' 404
         else modify (\<lambda>s. s\<lparr>reservation_rows :=
                put_row res_id (r\<lparr>res_expires := t + minutes 10\<rparr>) (reservation_rows s)\<rparr>)))"

section \<open>Native rooms\<close>

definition match_in_room :: "int \<Rightarrow> match_row option \<Rightarrow> bool" where
  "match_in_room room m =
     (case m of None \<Rightarrow> False | Some mt \<Rightarrow> room_id mt = Some room \<and> stage mt \<notin> FINAL_STAGES)"

definition get_match :: "int option \<Rightarrow> db \<Rightarrow> match_row option" where
  "get_match mid s = (case mid of None \<Rightarrow> None | Some k \<Rightarrow> get_row match_id k (matches s))"

definition claim_native_room :: "int \<Rightarrow> int \<Rightarrow> (db, unit) op" where
  "claim_native_room uid room =
     seq (active_user uid)
      (bnd (activity uid) (\<lambda>st.
       bnd (gets (\<lambda>s. get_match (a_match st) s)) (\<lambda>m.
       if a_reservation st \<noteq> None \<and> \<not> match_in_room room m
       then reject ''The player is already in a SOMSAI/Ranked queue or match.'' 409
       else
         bnd (gets now) (\<lambda>t.
         bnd (gets (\<lambda>s. get_row n_user uid (native_rooms s))) (\<lambda>row.
         if (case row of None \<Rightarrow> False | Some n \<Rightarrow> n_room n \<noteq> room \<and> n_expires n > t)
         then reject ''The player is already in another room.'' 409
         else modify (\<lambda>s. s\<lparr>native_rooms :=
                put_row n_user \<lparr>n_user = uid, n_room = room, n_expires = t + seconds 45\<rparr> (native_rooms s)\<rparr>))))))"

definition release_native_room :: "int \<Rightarrow> int \<Rightarrow> (db, unit) op" where
  "release_native_room uid room =
     bnd (gets (\<lambda>s. get_row n_user uid (native_rooms s))) (\<lambda>row.
     case row of
       Some n \<Rightarrow> do_if (n_room n = room) (modify (\<lambda>s. s\<lparr>native_rooms := del_row n_user uid (native_rooms s)\<rparr>))
     | None \<Rightarrow> ret ())"

section \<open>Parties\<close>

definition get_party :: "int \<Rightarrow> (db, party_row option) op" where
  "get_party uid =
     bnd (activity uid) (\<lambda>st.
       gets (\<lambda>s. case a_party st of
                    None \<Rightarrow> None
                  | Some pid \<Rightarrow> (case get_row party_id pid (parties s) of
                       None \<Rightarrow> None
                     | Some p \<Rightarrow> if party_active p \<and> uid \<in> set (members p) then Some p else None)))"

definition assert_party_idle :: "party_row \<Rightarrow> (db, unit) op" where
  "assert_party_idle p =
     for_each (members p) (\<lambda>uid.
       bnd (activity uid) (\<lambda>st.
         if a_reservation st \<noteq> None
         then reject ''Finish the match or cancel matchmaking first.'' 409 else ret ()))"

definition without_member :: "int \<Rightarrow> party_row \<Rightarrow> party_row" where
  "without_member uid p =
     (let ms = filter (\<lambda>u. u \<noteq> uid) (members p)
      in p\<lparr>members := ms,
           party_active := (if ms = [] then False else party_active p),
           captain_id := (if ms \<noteq> [] \<and> captain_id p = uid then hd ms else captain_id p),
           party_revision := party_revision p + 1\<rparr>)"

definition leave_party :: "int \<Rightarrow> (db, unit) op" where
  "leave_party uid =
     bnd (get_party uid) (\<lambda>party.
     case party of
       None \<Rightarrow> ret ()
     | Some p \<Rightarrow>
         seq (assert_party_idle p)
          (seq (set_activity uid (\<lambda>a. a\<lparr>a_party := None\<rparr>))
               (set_party (without_member uid p))))"

definition blocked :: "int \<Rightarrow> int \<Rightarrow> db \<Rightarrow> bool" where
  "blocked a b s \<longleftrightarrow> list_ex (\<lambda>r. rel_type r = Block \<and>
      ((rel_user r = a \<and> rel_target r = b) \<or> (rel_user r = b \<and> rel_target r = a))) (relations s)"

definition assert_not_blocked :: "int \<Rightarrow> int \<Rightarrow> (db, unit) op" where
  "assert_not_blocked inviter target =
     bnd (gets (blocked inviter target)) (\<lambda>b.
       if b then reject ''You cannot join this player's party.'' 403 else ret ())"

definition set_invite :: "party_invite \<Rightarrow> (db, unit) op" where
  "set_invite i = modify (\<lambda>s. s\<lparr>party_invites := put_row pi_id i (party_invites s)\<rparr>)"

definition party_accept :: "int \<Rightarrow> party_invite \<Rightarrow> (db, unit) op" where
  "party_accept uid invite =
     bnd (gets (\<lambda>s. get_row party_id (pi_party invite) (parties s))) (\<lambda>found.
     case found of
       None \<Rightarrow> reject ''The party has no free slots left.'' 409
     | Some p \<Rightarrow>
         if \<not> party_active p \<or> length (members p) \<ge> 2 then reject ''The party has no free slots left.'' 409
         else if captain_id p \<noteq> pi_inviter invite
         then reject ''The inviting captain has already left the party.'' 409
         else
           seq (assert_not_blocked (pi_inviter invite) uid)
          (seq (assert_party_idle p)
          (seq (active_user (captain_id p))
          (bnd (activity uid) (\<lambda>st.
             if a_reservation st \<noteq> None then reject ''Finish the match or matchmaking first.'' 409
             else
               seq (leave_party uid)
              (bnd (gets (\<lambda>s. get_row party_id (pi_party invite) (parties s))) (\<lambda>again.
               case again of
                 None \<Rightarrow> throw KeyErr
               | Some q \<Rightarrow>
                   seq (set_party (q\<lparr>members := members q @ [uid], party_revision := party_revision q + 1\<rparr>))
                       (set_activity uid (\<lambda>a. a\<lparr>a_party := Some (party_id q)\<rparr>)))))))))"

definition answer_invite :: "int \<Rightarrow> bool \<Rightarrow> int option \<Rightarrow> (db, unit) op" where
  "answer_invite uid accept invitation =
     bnd (gets now) (\<lambda>t.
     bnd (gets (\<lambda>s. case invitation of None \<Rightarrow> None | Some k \<Rightarrow> get_row pi_id k (party_invites s))) (\<lambda>found.
     case found of
       None \<Rightarrow> reject ''This invitation is no longer available.'' 409
     | Some invite \<Rightarrow>
         if pi_target invite \<noteq> uid \<or> pi_status invite \<noteq> Pending \<or> pi_expires invite \<le> t
         then reject ''This invitation is no longer available.'' 409
         else seq (if accept then party_accept uid invite else ret ())
                  (set_invite (invite\<lparr>pi_status := (if accept then Accepted else Declined)\<rparr>))))"

definition own_party :: "int \<Rightarrow> (db, party_row) op" where
  "own_party uid =
     bnd (get_party uid) (\<lambda>party.
     case party of
       Some p \<Rightarrow> ret p
     | None \<Rightarrow>
         bnd (activity uid) (\<lambda>st.
         if a_reservation st \<noteq> None then reject ''Finish the match or matchmaking first.'' 409
         else
           bnd fresh_id (\<lambda>pid.
           let p = \<lparr>party_id = pid, captain_id = uid, members = [uid], party_active = True, party_revision = 1\<rparr>
           in seq (set_party p) (seq (set_activity uid (\<lambda>a. a\<lparr>a_party := Some pid\<rparr>)) (ret p)))))"

definition pending_invite :: "int \<Rightarrow> int \<Rightarrow> db \<Rightarrow> party_invite option" where
  "pending_invite pid target s =
     find (\<lambda>i. pi_party i = pid \<and> pi_target i = target \<and> pi_status i = Pending \<and> pi_expires i > now s)
       (party_invites s)"

definition send_invite :: "int \<Rightarrow> party_row \<Rightarrow> int \<Rightarrow> (db, unit) op" where
  "send_invite uid p target_id =
     (if captain_id p \<noteq> uid then reject ''Only the party captain can invite players.'' 403
      else
        seq (assert_party_idle p)
         (if length (members p) \<ge> 2 then reject ''The party already has two players.'' 409
          else
            bnd (active_user target_id) (\<lambda>target.
            bnd (gets (blocked uid target_id)) (\<lambda>b.
            if b then reject ''This player cannot be invited.'' 403
            else
              bnd (gets (\<lambda>s. list_ex (\<lambda>r. rel_user r = target_id \<and> rel_target r = uid \<and> rel_type r = Follow)
                               (relations s))) (\<lambda>follows.
              if pm_friends_only target \<and> \<not> follows
              then reject ''This player accepts invitations from friends only.'' 403
              else
                bnd (gets (pending_invite (party_id p) target_id)) (\<lambda>previous.
                if previous \<noteq> None then ret ()
                else
                  bnd (activity target_id) (\<lambda>st.
                  if a_reservation st \<noteq> None
                  then reject ''This player is currently in a match or matchmaking.'' 409
                  else
                    bnd fresh_id (\<lambda>iid.
                    bnd (gets now) (\<lambda>t.
                      set_invite \<lparr>pi_id = iid, pi_party = party_id p, pi_inviter = uid, pi_target = target_id,
                        pi_status = Pending, pi_expires = t + minutes 5\<rparr>)))))))))"

definition resolve_target :: "string \<Rightarrow> int option \<Rightarrow> string option \<Rightarrow> (db, int option) op" where
  "resolve_target action target_id target_username =
     (case target_username of
        Some name \<Rightarrow>
          if action = ''party_invite'' then
            if target_id \<noteq> None then reject ''Specify either a username or an ID, not both.'' 422
            else
              let stripped = py_strip name;
                  wanted = py_lower (if starts_with stripped ''@'' then tl stripped else stripped)
              in if wanted = [] then reject ''Enter a player username.'' 422
                 else bnd (gets (\<lambda>s. map_option u_id (find (\<lambda>u. py_lower (username u) = wanted) (users s)))) (\<lambda>found.
                        if found = None then reject ''No player with this username was found.'' 404 else ret found)
          else ret target_id
      | None \<Rightarrow> ret target_id)"

definition party_action ::
  "int \<Rightarrow> string \<Rightarrow> int option \<Rightarrow> int option \<Rightarrow> string option \<Rightarrow> (db, unit) op" where
  "party_action uid action target_id0 invitation_id target_username =
     seq (active_user uid)
      (bnd (resolve_target action target_id0 target_username) (\<lambda>target_id.
       if action = ''party_leave'' then leave_party uid
       else if action \<in> {''party_accept'', ''party_decline''}
       then answer_invite uid (action = ''party_accept'') invitation_id
       else
         bnd (own_party uid) (\<lambda>p.
         if action = ''party_create'' then ret ()
         else (case target_id of
                 None \<Rightarrow> reject ''Specify another player.'' 422
               | Some t \<Rightarrow>
                   if action \<noteq> ''party_invite'' \<or> t = uid then reject ''Specify another player.'' 422
                   else send_invite uid p t))))"

section \<open>Read models\<close>

definition id_char :: "char \<Rightarrow> bool" where
  "id_char c \<longleftrightarrow> (let n = (of_char c :: nat) in
     (48 \<le> n \<and> n \<le> 57) \<or> (65 \<le> n \<and> n \<le> 90) \<or> (97 \<le> n \<and> n \<le> 122) \<or> c = CHR ''_'' \<or> c = CHR ''-'')"

text \<open>The suffix \<open>[bot id]\<close> of a bot account, with the spaces before it, is shown as \<open> [BOT]\<close>.\<close>

definition bot_display_name :: "string \<Rightarrow> string" where
  "bot_display_name name =
     (case rev name of
        [] \<Rightarrow> name
      | c # back \<Rightarrow>
          let token = takeWhile id_char back; before = dropWhile id_char back
          in if c = CHR '']'' \<and> token \<noteq> [] \<and> starts_with (py_lower before) '' tob[''
             then rev (dropWhile is_space (drop 5 before)) @ '' [BOT]'' else name)"

definition display_name :: "user_row \<Rightarrow> string" where
  "display_name u = (if u_bot u then bot_display_name (username u) else username u)"

record user_payload_row =
  up_id :: int
  up_username :: string
  up_country :: string

definition user_payload :: "int \<Rightarrow> (db, user_payload_row) op" where
  "user_payload uid =
     bnd (gets (find_user uid)) (\<lambda>found.
     case found of
       None \<Rightarrow> throw KeyErr
     | Some u \<Rightarrow> ret \<lparr>up_id = u_id u, up_username = display_name u,
                     up_country = (if country_code u = [] then ''XX'' else country_code u)\<rparr>)"

record party_view =
  pv_id :: "int option"
  pv_captain :: int
  pv_members :: "int list"
  pv_busy :: bool
  pv_revision :: int
  pv_member_payloads :: "user_payload_row list"
  pv_invites :: "(int \<times> user_payload_row) list"
  pv_outgoing :: "(int \<times> user_payload_row) list"

definition live_invites :: "(party_invite \<Rightarrow> bool) \<Rightarrow> db \<Rightarrow> party_invite list" where
  "live_invites P s = filter (\<lambda>i. P i \<and> pi_status i = Pending \<and> pi_expires i > now s) (party_invites s)"

text \<open>\<open>party_snapshot(public=True)\<close>; the private variant is its first five fields.\<close>

definition party_snapshot :: "int \<Rightarrow> (db, party_view) op" where
  "party_snapshot uid =
     bnd (get_party uid) (\<lambda>party.
     bnd (activity uid) (\<lambda>st.
     let mems = (case party of None \<Rightarrow> [uid] | Some p \<Rightarrow> members p) in
     bnd (collect mems user_payload) (\<lambda>payloads.
     bnd (gets (live_invites (\<lambda>i. pi_target i = uid))) (\<lambda>incoming.
     bnd (gets (\<lambda>s. filter (\<lambda>(i, p). party_active p) (concat (map (\<lambda>i.
            case get_row party_id (pi_party i) (parties s) of None \<Rightarrow> [] | Some p \<Rightarrow> [(i, p)]) incoming)))) (\<lambda>shown.
     bnd (collect shown (\<lambda>(i, p). bnd (user_payload (captain_id p)) (\<lambda>u. ret (pi_id i, u)))) (\<lambda>invites.
     bnd (case party of None \<Rightarrow> ret [] | Some p \<Rightarrow> gets (live_invites (\<lambda>i. pi_party i = party_id p))) (\<lambda>outgoing.
     bnd (collect outgoing (\<lambda>i. bnd (user_payload (pi_target i)) (\<lambda>u. ret (pi_id i, u)))) (\<lambda>sent.
       ret \<lparr>pv_id = map_option party_id party,
            pv_captain = (case party of None \<Rightarrow> uid | Some p \<Rightarrow> captain_id p),
            pv_members = mems, pv_busy = (a_reservation st \<noteq> None),
            pv_revision = (case party of None \<Rightarrow> 0 | Some p \<Rightarrow> party_revision p),
            pv_member_payloads = payloads, pv_invites = invites, pv_outgoing = sent\<rparr>))))))))"

section \<open>Effects of the row operations\<close>

definition only_act :: "db \<Rightarrow> db \<Rightarrow> bool" where
  "only_act s t \<longleftrightarrow> (\<exists>as. t = s\<lparr>activities := as\<rparr>)"

lemma only_act_refl [simp]: "only_act s s"
  unfolding only_act_def by (rule exI[of _ "activities s"]) simp

lemma only_act_trans: "only_act s t \<Longrightarrow> only_act t u \<Longrightarrow> only_act s u"
proof (unfold only_act_def, elim exE)
  fix as bs assume "t = s\<lparr>activities := as\<rparr>" and "u = t\<lparr>activities := bs\<rparr>"
  then have "u = s\<lparr>activities := bs\<rparr>" by simp
  then show "\<exists>as. u = s\<lparr>activities := as\<rparr>" ..
qed

lemma only_act_put [simp]: "only_act s (put_activity a s)"
  unfolding only_act_def put_activity_def by (rule exI) (rule refl)

lemma only_act_fields [simp]:
  assumes "only_act s t"
  shows "reservation_rows t = reservation_rows s" "parties t = parties s" "uuids t = uuids s"
    "uuid_pos t = uuid_pos s" "next_id t = next_id s" "now t = now s" "party_invites t = party_invites s"
    "queue_rows t = queue_rows s" "matches t = matches s" "users t = users s" "native_rooms t = native_rooms s"
  using assms by (auto simp: only_act_def)

lemma activity_result: "\<exists>t. activity uid s = (Inr (act s uid), t) \<and> only_act s t \<and> act t = act s"
proof (cases "get_row a_user uid (activities s) = None")
  case True
  have "act (put_activity (act s uid) s) = act s" by (rule ext) simp
  with True show ?thesis by (simp add: activity_eq)
next
  case False
  then have "activity uid s = (Inr (act s uid), s)" unfolding activity_eq by (simp only: if_False)
  then show ?thesis by simp
qed

lemma put_activity_fun: "act (put_activity a s) = (act s)(a_user a := a)"
  by (rule ext) simp

lemma set_activity_result:
  assumes "\<And>a. a_user (f a) = a_user a"
  shows "\<exists>t. set_activity uid f s = (Inr (), t) \<and> only_act s t \<and> act t = (act s)(uid := f (act s uid))"
proof -
  obtain t where t: "activity uid s = (Inr (act s uid), t)" "only_act s t" "act t = act s"
    using activity_result by blast
  have "only_act s (put_activity (f (act s uid)) t)" using t(2) only_act_trans only_act_put by blast
  moreover have "act (put_activity (f (act s uid)) t) = (act s)(uid := f (act s uid))"
    by (simp add: put_activity_fun assms t(3))
  ultimately show ?thesis using t(1) by (simp add: set_activity_def bnd_def modify_def)
qed

lemma for_each_act:
  assumes "\<And>u s. \<exists>t. f u s = (Inr (), t) \<and> only_act s t \<and> act t = (act s)(u := g (act s u))"
    and "\<And>a. g (g a) = g a"
  shows "\<exists>t. for_each us f s = (Inr (), t) \<and> only_act s t
    \<and> act t = (\<lambda>u. if u \<in> set us then g (act s u) else act s u)"
proof (induction us arbitrary: s)
  case Nil
  show ?case by (simp add: ret_def)
next
  case (Cons u us)
  obtain t where t: "f u s = (Inr (), t)" "only_act s t" "act t = (act s)(u := g (act s u))"
    using assms(1) by blast
  obtain t' where t': "for_each us f t = (Inr (), t')" "only_act t t'"
      "act t' = (\<lambda>v. if v \<in> set us then g (act t v) else act t v)"
    using Cons.IH by blast
  have "act t' = (\<lambda>v. if v \<in> set (u # us) then g (act s v) else act s v)"
    unfolding t'(3) t(3) by (auto simp: fun_eq_iff assms(2))
  with t t' only_act_trans show ?case by (auto simp: seq_def bnd_def)
qed

definition unleased :: "string \<Rightarrow> activity_row \<Rightarrow> activity_row" where
  "unleased rid a = (if a_reservation a = Some rid then a\<lparr>a_reservation := None, a_match := None\<rparr> else a)"

lemma unleased_simps [simp]: "unleased rid (unleased rid a) = unleased rid a"
    "a_party (unleased rid a) = a_party a" "last_seen_at (unleased rid a) = last_seen_at a"
    "a_reservation (unleased rid a) = (if a_reservation a = Some rid then None else a_reservation a)"
  by (simp_all add: unleased_def)

lemma clear_lease_result:
  "\<exists>t. clear_lease rid u s = (Inr (), t) \<and> only_act s t \<and> act t = (act s)(u := unleased rid (act s u))"
proof -
  obtain t where t: "activity u s = (Inr (act s u), t)" "only_act s t" "act t = act s"
    using activity_result by blast
  show ?thesis
  proof (cases "a_reservation (act s u) = Some rid")
    case True
    have "act (put_activity (unleased rid (act s u)) t) = (act s)(u := unleased rid (act s u))"
      by (simp add: put_activity_fun t(3) unleased_def)
    with True t only_act_trans only_act_put show ?thesis
      by (auto simp: clear_lease_def bnd_def modify_def unleased_def)
  next
    case False
    then have "(act s)(u := unleased rid (act s u)) = act s" by (simp add: unleased_def fun_upd_idem)
    with False t show ?thesis by (simp add: clear_lease_def bnd_def ret_def)
  qed
qed

lemma clear_leases_result:
  "\<exists>t. for_each us (clear_lease rid) s = (Inr (), t) \<and> only_act s t
    \<and> act t = (\<lambda>u. if u \<in> set us then unleased rid (act s u) else act s u)"
  by (rule for_each_act[OF clear_lease_result]) simp

lemma take_leases_result:
  "\<exists>t. for_each us (take_lease rid) s = (Inr (), t) \<and> only_act s t
    \<and> act t = (\<lambda>u. if u \<in> set us then (act s u)\<lparr>a_reservation := Some rid\<rparr> else act s u)"
  unfolding take_lease_def by (rule for_each_act[OF set_activity_result]) simp_all

text \<open>The checks before a reservation read only: when they pass, nobody on the list holds a lease.\<close>

lemma check_free_result:
  assumes "check_free u s = (r, t)"
  shows "only_act s t \<and> act t = act s \<and> (r = Inr () \<longrightarrow> a_reservation (act s u) = None)"
proof -
  obtain s' where s': "activity u s = (Inr (act s u), s')" "only_act s s'" "act s' = act s"
    using activity_result by blast
  obtain x y where xy: "active_user u s = (x, y)" by fastforce
  note y = active_user_run[OF xy]
  show ?thesis
  proof (cases x)
    case (Inl e)
    with assms xy y show ?thesis by (auto simp: check_free_def seq_def bnd_def)
  next
    case (Inr a)
    with assms xy y s' show ?thesis
      by (auto simp: check_free_def seq_def bnd_def gets_def ret_def reject_def throw_def split: if_splits)
  qed
qed

lemma checks_result:
  "for_each us check_free s = (r, t) \<Longrightarrow>
   only_act s t \<and> act t = act s \<and> (r = Inr () \<longrightarrow> (\<forall>u \<in> set us. a_reservation (act s u) = None))"
proof (induction us arbitrary: s)
  case Nil
  then show ?case by (simp add: ret_def)
next
  case (Cons u us)
  obtain r1 s1 where s1: "check_free u s = (r1, s1)" by fastforce
  note c = check_free_result[OF s1]
  show ?case
  proof (cases r1)
    case (Inl e)
    with Cons.prems s1 c show ?thesis by (auto simp: seq_def bnd_def)
  next
    case (Inr x)
    with Cons.prems s1 have "for_each us check_free s1 = (r, t)" by (simp add: seq_def bnd_def)
    from Cons.IH[OF this] c Inr show ?thesis by (auto intro: only_act_trans)
  qed
qed

section \<open>Exclusive leases\<close>

text \<open>
  The lease invariant: a player's activity points at a reservation exactly when that reservation is
  live and lists the player; and the identifiers still to be drawn are unused.
\<close>

definition holds :: "db \<Rightarrow> string \<Rightarrow> int \<Rightarrow> bool" where
  "holds s rid u \<longleftrightarrow> (case get_row res_id rid (reservation_rows s) of
     None \<Rightarrow> False | Some r \<Rightarrow> \<not> released r \<and> u \<in> set (res_members r))"

definition lease_inv :: "db \<Rightarrow> bool" where
  "lease_inv s \<longleftrightarrow>
     (\<forall>u rid. a_reservation (act s u) = Some rid \<longleftrightarrow> holds s rid u)
     \<and> inj (uuids s)
     \<and> (\<forall>n \<ge> uuid_pos s. get_row res_id (uuids s n) (reservation_rows s) = None)"

text \<open>What neither the leases nor the parties depend on may change freely.\<close>

definition social_eq :: "db \<Rightarrow> db \<Rightarrow> bool" where
  "social_eq s t \<longleftrightarrow>
     (\<forall>u. a_party (act t u) = a_party (act s u) \<and> a_reservation (act t u) = a_reservation (act s u))
     \<and> reservation_rows t = reservation_rows s \<and> uuids t = uuids s \<and> uuid_pos t = uuid_pos s
     \<and> parties t = parties s \<and> party_invites t = party_invites s \<and> next_id s \<le> next_id t"

lemma social_eq_refl [simp]: "social_eq s s"
  by (simp add: social_eq_def)

lemma social_eq_trans: "social_eq s t \<Longrightarrow> social_eq t u \<Longrightarrow> social_eq s u"
  by (auto simp: social_eq_def)

lemma social_eq_act: "only_act s t \<Longrightarrow> act t = act s \<Longrightarrow> social_eq s t"
  by (simp add: social_eq_def)

lemma lease_inv_frame: "lease_inv s \<Longrightarrow> social_eq s t \<Longrightarrow> lease_inv t"
  by (simp add: lease_inv_def social_eq_def holds_def)

lemma release_result:
  assumes "release_reservation rid s = (r, t)"
  obtains "t = s" "get_row res_id rid (reservation_rows s) = None" "r = Inr ()"
  | row where "get_row res_id rid (reservation_rows s) = Some row" "r = Inr ()"
      "act t = (\<lambda>u. if u \<in> set (res_members row) then unleased rid (act s u) else act s u)"
      "only_act (s\<lparr>reservation_rows := reservation_rows t\<rparr>) t"
      "(reservation_rows t = put_row res_id (row\<lparr>released := True, res_expires := now s\<rparr>) (reservation_rows s)
        \<or> reservation_rows t = del_row res_id rid (reservation_rows s))"
proof (cases "get_row res_id rid (reservation_rows s)")
  case None
  with assms that(1) show ?thesis by (auto simp: release_reservation_def bnd_def gets_def ret_def)
next
  case (Some row)
  obtain s1 where s1: "for_each (res_members row) (clear_lease rid) s = (Inr (), s1)" "only_act s s1"
      "act s1 = (\<lambda>u. if u \<in> set (res_members row) then unleased rid (act s u) else act s u)"
    using clear_leases_result by blast
  define rows where "rows = (if starts_with (res_kind row) ''ranked:''
      then put_row res_id (row\<lparr>released := True, res_expires := now s\<rparr>) (reservation_rows s)
      else del_row res_id rid (reservation_rows s))"
  have t: "r = Inr ()" "t = s1\<lparr>reservation_rows := rows\<rparr>"
    using assms Some s1
    by (auto simp: release_reservation_def seq_def bnd_def gets_def modify_def rows_def split: if_splits)
  have "only_act (s\<lparr>reservation_rows := rows\<rparr>) t"
    using s1(2) unfolding t(2) only_act_def by (auto intro!: exI[of _ "activities s1"])
  with t s1(3) Some that(2)[of row] show ?thesis by (auto simp: rows_def)
qed

lemma keeps_release [keeps_rules]: "keeps lease_inv (release_reservation rid)"
proof (rule keepsI)
  fix s assume inv: "lease_inv s"
  obtain r t where t: "release_reservation rid s = (r, t)" by fastforce
  from t have "lease_inv t"
  proof (cases rule: release_result)
    case 1
    with inv show ?thesis by simp
  next
    case (2 row)
    have key: "res_id row = rid" using 2(1) by (rule rows.get_key)
    have rows: "get_row res_id k (reservation_rows t) =
        (if k = rid then get_row res_id rid (reservation_rows t) else get_row res_id k (reservation_rows s))" for k
      using 2(5) key by auto
    have dead: "\<not> holds t rid u" for u
      using 2(5) key by (auto simp: holds_def)
    have "a_reservation (act t u) = Some k \<longleftrightarrow> holds t k u" for u k
    proof (cases "k = rid")
      case True
      have "a_reservation (act t u) \<noteq> Some rid"
        using inv 2(1,3) by (auto simp: lease_inv_def holds_def)
      with True dead show ?thesis by simp
    next
      case False
      then have "holds t k u = holds s k u" by (simp add: holds_def rows)
      moreover have "a_reservation (act t u) = Some k \<longleftrightarrow> a_reservation (act s u) = Some k"
        using False 2(3) by auto
      ultimately show ?thesis using inv by (simp add: lease_inv_def)
    qed
    moreover have "uuids t = uuids s" "uuid_pos t = uuid_pos s"
      using only_act_fields(3,4)[OF 2(4)] by simp_all
    moreover have "get_row res_id (uuids s n) (reservation_rows t) = None" if "n \<ge> uuid_pos s" for n
      using inv 2(1) that rows[of "uuids s n"] by (auto simp: lease_inv_def)
    ultimately show ?thesis using inv by (simp add: lease_inv_def)
  qed
  with t show "lease_inv (snd (release_reservation rid s))" by simp
qed

text \<open>The outcome of a reservation under a fresh identifier.\<close>

lemma reserve_result:
  assumes "reserve_members c us kind p None s = (r, t)"
  obtains (rejected) e where "r = Inl e" "only_act s t" "act t = act s"
  | (reserved) s0 row where "r = Inr row" "only_act s s0" "act s0 = act s"
      "us \<noteq> []" "c \<in> set us" "distinct us" "\<forall>u \<in> set us. a_reservation (act s u) = None"
      "row = \<lparr>res_id = uuids s (uuid_pos s), res_captain = c, res_party = p, res_kind = kind,
              res_members = us, released = False, res_expires = now s + minutes 10\<rparr>"
      "only_act (s0\<lparr>uuid_pos := Suc (uuid_pos s), reservation_rows := put_row res_id row (reservation_rows s)\<rparr>) t"
      "act t = (\<lambda>u. if u \<in> set us then (act s u)\<lparr>a_reservation := Some (res_id row)\<rparr> else act s u)"
proof (cases "us = [] \<or> c \<notin> set us \<or> \<not> distinct us")
  case True
  with assms rejected show ?thesis by (auto simp: reserve_members_def reject_def throw_def)
next
  case False
  obtain r0 s0 where s0: "for_each (sort us) check_free s = (r0, s0)" by fastforce
  note c0 = checks_result[OF s0]
  show ?thesis
  proof (cases r0)
    case (Inl e)
    with False s0 assms c0 rejected show ?thesis by (auto simp: reserve_members_def seq_def bnd_def)
  next
    case (Inr x)
    define row where "row = \<lparr>res_id = uuids s (uuid_pos s), res_captain = c, res_party = p, res_kind = kind,
              res_members = us, released = False, res_expires = now s + minutes 10\<rparr>"
    define s1 where "s1 = s0\<lparr>uuid_pos := Suc (uuid_pos s), reservation_rows := put_row res_id row (reservation_rows s)\<rparr>"
    obtain t' where t': "for_each us (take_lease (res_id row)) s1 = (Inr (), t')" "only_act s1 t'"
        "act t' = (\<lambda>u. if u \<in> set us then (act s1 u)\<lparr>a_reservation := Some (res_id row)\<rparr> else act s1 u)"
      using take_leases_result by blast
    have f: "uuids s0 = uuids s" "uuid_pos s0 = uuid_pos s" "reservation_rows s0 = reservation_rows s" "now s0 = now s"
      using c0 by auto
    have "reserve_members c us kind p None s = (Inr row, t')"
      using False s0 Inr t'(1) f
      by (simp add: reserve_members_def seq_def bnd_def gets_def uuid4_def modify_def ret_def Let_def row_def s1_def)
    moreover have "act s1 = act s" using c0 by (simp add: s1_def)
    ultimately show ?thesis
      using assms False c0 Inr t' by (intro reserved[of row s0]) (auto simp: row_def s1_def)
  qed
qed

lemma keeps_reserve [keeps_rules]: "keeps lease_inv (reserve_members c us kind p None)"
proof (rule keepsI)
  fix s assume inv: "lease_inv s"
  obtain r t where t: "reserve_members c us kind p None s = (r, t)" by fastforce
  from t have "lease_inv t"
  proof (cases rule: reserve_result)
    case rejected
    with inv show ?thesis using lease_inv_frame social_eq_act by blast
  next
    case (reserved s0 row)
    have rows: "reservation_rows t = put_row res_id row (reservation_rows s)"
      using only_act_fields(1)[OF reserved(9)] by simp
    have id: "res_id row = uuids s (uuid_pos s)" "res_members row = us" "\<not> released row"
      using reserved(8) by simp_all
    have fresh: "get_row res_id (res_id row) (reservation_rows s) = None" using inv id by (simp add: lease_inv_def)
    have u: "uuids t = uuids s" "uuid_pos t = Suc (uuid_pos s)"
      using only_act_fields(3,4)[OF reserved(9)] only_act_fields(3)[OF reserved(2)] by simp_all
    have "a_reservation (act t u) = Some k \<longleftrightarrow> holds t k u" for u k
    proof (cases "k = res_id row")
      case True
      have "a_reservation (act s u) \<noteq> Some (res_id row)" using inv fresh by (simp add: lease_inv_def holds_def)
      with True id show ?thesis by (auto simp: holds_def rows reserved(10))
    next
      case False
      then have "holds t k u = holds s k u" by (simp add: holds_def rows)
      moreover have "\<not> holds s k u" if "u \<in> set us"
        using inv reserved(7) that unfolding lease_inv_def by (metis option.distinct(1))
      moreover have "a_reservation (act s u) = Some k \<longleftrightarrow> holds s k u" using inv unfolding lease_inv_def by blast
      ultimately show ?thesis using False by (simp add: reserved(10))
    qed
    moreover have "get_row res_id (uuids s n) (reservation_rows t) = None" if "n \<ge> Suc (uuid_pos s)" for n
    proof -
      have "uuids s n \<noteq> res_id row" using inv that unfolding id(1) lease_inv_def by (auto dest: injD)
      with that inv show ?thesis by (simp add: rows lease_inv_def)
    qed
    ultimately show ?thesis using inv by (simp add: lease_inv_def u)
  qed
  with t show "lease_inv (snd (reserve_members c us kind p None s))" by simp
qed

section \<open>Parties stay well formed\<close>

definition party_ok :: "db \<Rightarrow> party_row \<Rightarrow> bool" where
  "party_ok s p \<longleftrightarrow> party_active p \<longrightarrow>
     members p \<noteq> [] \<and> distinct (members p) \<and> length (members p) \<le> 2 \<and> captain_id p \<in> set (members p)
     \<and> (\<forall>u \<in> set (members p). a_party (act s u) = Some (party_id p))"

definition party_inv :: "db \<Rightarrow> bool" where
  "party_inv s \<longleftrightarrow>
     (\<forall>k p. get_row party_id k (parties s) = Some p \<longrightarrow> k < next_id s \<and> party_ok s p)
     \<and> distinct (map party_id (parties s))
     \<and> (\<forall>i \<in> set (party_invites s). pi_inviter i \<noteq> pi_target i)"

lemma party_inv_frame: "party_inv s \<Longrightarrow> social_eq s t \<Longrightarrow> party_inv t"
  unfolding party_inv_def social_eq_def party_ok_def by (metis order_less_le_trans)

text \<open>Replacing one party and the party pointers that belong to it.\<close>

lemma party_inv_update:
  assumes inv: "party_inv s" and k: "party_id p < next_id s"
    and rows: "parties t = put_row party_id p (parties s)"
    and ok: "party_ok t p"
    and same: "\<And>u q. get_row party_id q (parties s) \<noteq> None \<Longrightarrow> q \<noteq> party_id p \<Longrightarrow>
                 a_party (act s u) = Some q \<Longrightarrow> a_party (act t u) = Some q"
    and rest: "next_id s \<le> next_id t" "party_invites t = party_invites s"
  shows "party_inv t"
proof -
  have "k < next_id t \<and> party_ok t q" if q: "get_row party_id k (parties t) = Some q" for k q
  proof (cases "k = party_id p")
    case True
    with q ok k rest show ?thesis by (simp add: rows)
  next
    case False
    then have qs: "get_row party_id k (parties s) = Some q" using q by (simp add: rows)
    then have key: "party_id q = k" by (rule rows.get_key)
    have "k < next_id s" "party_ok s q" using inv qs unfolding party_inv_def by blast+
    then show ?thesis using rest(1) same[of k] qs False key by (auto simp: party_ok_def)
  qed
  moreover have "distinct (map party_id (parties t))"
    using inv unfolding rows party_inv_def by (blast intro: distinct_put_row)
  ultimately show ?thesis using inv rest(2) unfolding party_inv_def by auto
qed

lemma in_one_party:
  assumes "party_inv s" "get_row party_id k (parties s) = Some p" "party_active p" "u \<in> set (members p)"
  shows "a_party (act s u) = Some k"
  using assms rows.get_key[OF assms(2)] unfolding party_inv_def party_ok_def by metis

text \<open>\<open>get_party\<close> reads only, and by the invariant finds the one party a player is in.\<close>

lemma get_party_result:
  assumes "get_party u s = (r, t)"
  shows "only_act s t \<and> act t = act s
    \<and> (\<exists>x. r = Inr x \<and> (\<forall>p. x = Some p \<longrightarrow> get_row party_id (party_id p) (parties s) = Some p
              \<and> party_active p \<and> u \<in> set (members p) \<and> a_party (act s u) = Some (party_id p))
         \<and> (party_inv s \<and> x = None \<longrightarrow>
              (\<forall>k p. get_row party_id k (parties s) = Some p \<and> party_active p \<longrightarrow> u \<notin> set (members p))))"
proof -
  obtain s' where s': "activity u s = (Inr (act s u), s')" "only_act s s'" "act s' = act s"
    using activity_result by blast
  have t: "t = s'" and r: "r = Inr (case a_party (act s u) of None \<Rightarrow> None
      | Some pid \<Rightarrow> (case get_row party_id pid (parties s) of None \<Rightarrow> None
          | Some p \<Rightarrow> if party_active p \<and> u \<in> set (members p) then Some p else None))"
    using assms s'(1) unfolding only_act_fields(2)[OF s'(2), symmetric]
    by (auto simp: get_party_def bnd_def gets_def)
  show ?thesis
    unfolding t r using s'
    by (auto dest: in_one_party rows.get_key split: option.splits if_splits)
qed

text \<open>
  A reading step inside an operation: it leaves the session as it is, up to default activity rows.
\<close>

definition reads :: "(db, 'a) op \<Rightarrow> bool" where
  "reads m \<longleftrightarrow> (\<forall>s r t. m s = (r, t) \<longrightarrow> only_act s t \<and> act t = act s)"

lemma readsD: "reads m \<Longrightarrow> m s = (r, t) \<Longrightarrow> only_act s t \<and> act t = act s"
  unfolding reads_def by blast

lemma reads_basic [intro!]:
  "reads (ret a)" "reads (throw e)" "reads (reject msg c)" "reads (gets f)" "reads (lift x)"
  by (auto simp: reads_def ret_def throw_def reject_def gets_def lift_def)

lemma reads_activity [intro!]: "reads (activity u)"
  unfolding reads_def using activity_result by (metis prod.inject)

lemma reads_active_user [intro!]: "reads (active_user u)"
  unfolding reads_def using active_user_run by fastforce

lemma reads_bnd [intro!]: "reads m \<Longrightarrow> (\<And>a. reads (f a)) \<Longrightarrow> reads (bnd m f)"
  unfolding reads_def bnd_def
  by (auto split: prod.splits sum.splits) (metis only_act_trans)+

lemma reads_seq [intro!]: "reads m \<Longrightarrow> reads k \<Longrightarrow> reads (seq m k)"
  unfolding seq_def by (rule reads_bnd)

lemma reads_if [intro!]: "(b \<Longrightarrow> reads m) \<Longrightarrow> (\<not> b \<Longrightarrow> reads k) \<Longrightarrow> reads (if b then m else k)"
  by simp

lemma reads_option [intro!]:
  "(x = None \<Longrightarrow> reads m) \<Longrightarrow> (\<And>a. x = Some a \<Longrightarrow> reads (k a)) \<Longrightarrow> reads (case x of None \<Rightarrow> m | Some a \<Rightarrow> k a)"
  by (cases x) auto

lemma reads_collect [intro!]: "(\<And>x. reads (f x)) \<Longrightarrow> reads (collect xs f)"
  by (induction xs) auto

lemma reads_for_each [intro!]: "(\<And>x. reads (f x)) \<Longrightarrow> reads (for_each xs f)"
  by (induction xs) auto

lemma reads_services [intro!]: "reads (get_party u)" "reads (assert_party_idle p)" "reads (check_free u)"
    "reads (assert_not_blocked a b)" "reads (user_payload u)"
  unfolding get_party_def assert_party_idle_def check_free_def assert_not_blocked_def user_payload_def
  by blast+

lemma reads_social: "reads m \<Longrightarrow> m s = (r, t) \<Longrightarrow> social_eq s t"
  using readsD social_eq_act by blast

section \<open>Party operations keep the invariant\<close>

lemma only_act_parties: "only_act s s' \<Longrightarrow> only_act (s\<lparr>parties := x\<rparr>) (s'\<lparr>parties := x\<rparr>)"
proof (unfold only_act_def, elim exE)
  fix as assume "s' = s\<lparr>activities := as\<rparr>"
  then have "s'\<lparr>parties := x\<rparr> = s\<lparr>parties := x\<rparr>\<lparr>activities := as\<rparr>" by simp
  then show "\<exists>as. s'\<lparr>parties := x\<rparr> = s\<lparr>parties := x\<rparr>\<lparr>activities := as\<rparr>" ..
qed

lemma without_member_simps [simp]:
  "party_id (without_member u p) = party_id p" "members (without_member u p) = filter (\<lambda>v. v \<noteq> u) (members p)"
  by (simp_all add: without_member_def Let_def)

lemma leave_result:
  assumes "leave_party u s = (r, t)"
  obtains (absent) "r = Inr ()" "only_act s t" "act t = act s"
      "party_inv s \<Longrightarrow> \<forall>k p. get_row party_id k (parties s) = Some p \<and> party_active p \<longrightarrow> u \<notin> set (members p)"
  | (failed) e where "r = Inl e" "only_act s t" "act t = act s"
  | (left) p where "r = Inr ()" "get_row party_id (party_id p) (parties s) = Some p" "party_active p"
      "u \<in> set (members p)" "act t = (act s)(u := (act s u)\<lparr>a_party := None\<rparr>)"
      "only_act (s\<lparr>parties := put_row party_id (without_member u p) (parties s)\<rparr>) t"
proof -
  obtain x s1 where s1: "get_party u s = (x, s1)" by fastforce
  note g = get_party_result[OF s1]
  then obtain y where y: "x = Inr y" by blast
  show ?thesis
  proof (cases y)
    case None
    with assms s1 y g show ?thesis by (intro absent) (auto simp: leave_party_def bnd_def ret_def)
  next
    case (Some p)
    obtain r2 s2 where s2: "assert_party_idle p s1 = (r2, s2)" by fastforce
    then have i: "only_act s1 s2" "act s2 = act s1" using readsD[OF reads_services(2)] by blast+
    then have a2: "only_act s s2" "act s2 = act s" using g only_act_trans by auto
    show ?thesis
    proof (cases r2)
      case (Inl e)
      with assms s1 s2 y Some a2 failed show ?thesis by (auto simp: leave_party_def bnd_def seq_def)
    next
      case (Inr z)
      obtain s3 where s3: "set_activity u (\<lambda>a. a\<lparr>a_party := None\<rparr>) s2 = (Inr (), s3)" "only_act s2 s3"
          "act s3 = (act s2)(u := (act s2 u)\<lparr>a_party := None\<rparr>)"
        using set_activity_result[of "\<lambda>a. a\<lparr>a_party := None\<rparr>" u s2] by auto
      have s3': "only_act s s3" using a2(1) s3(2) by (rule only_act_trans)
      have t: "r = Inr ()" "t = s3\<lparr>parties := put_row party_id (without_member u p) (parties s)\<rparr>"
        using assms s1 s2 s3(1) y Some Inr only_act_fields(2)[OF s3']
        by (auto simp: leave_party_def bnd_def seq_def set_party_def modify_def)
      show ?thesis
        using left[of p] t g y Some s3(3) a2(2) only_act_parties[OF s3'] by auto
    qed
  qed
qed

lemma party_ok_without:
  assumes "party_inv s" "get_row party_id (party_id p) (parties s) = Some p" "party_active p"
    and "\<And>v. v \<in> set (members p) \<Longrightarrow> v \<noteq> u \<Longrightarrow> a_party (act t v) = a_party (act s v)"
  shows "party_ok t (without_member u p)"
proof -
  have p: "members p \<noteq> []" "distinct (members p)" "length (members p) \<le> 2" "captain_id p \<in> set (members p)"
      "\<forall>v \<in> set (members p). a_party (act s v) = Some (party_id p)"
    using assms(1-3) unfolding party_inv_def party_ok_def by blast+
  let ?ms = "filter (\<lambda>v. v \<noteq> u) (members p)"
  have "length ?ms \<le> 2" using p(3) length_filter_le[of "\<lambda>v. v \<noteq> u" "members p"] by linarith
  moreover have "captain_id (without_member u p) \<in> set ?ms" if "?ms \<noteq> []"
    using that p(4) hd_in_set[OF that] by (auto simp: without_member_def Let_def)
  moreover have "party_active (without_member u p) \<Longrightarrow> ?ms \<noteq> []"
    by (auto simp: without_member_def Let_def)
  ultimately show ?thesis using p assms(4) by (auto simp: party_ok_def)
qed

lemma leave_keeps: "party_inv s \<Longrightarrow> leave_party u s = (r, t) \<Longrightarrow> party_inv t"
proof -
  assume inv: "party_inv s" and run: "leave_party u s = (r, t)"
  from run show "party_inv t"
  proof (cases rule: leave_result)
    case absent
    with inv show ?thesis using party_inv_frame social_eq_act by blast
  next
    case failed
    with inv show ?thesis using party_inv_frame social_eq_act by blast
  next
    case (left p)
    have rows: "parties t = put_row party_id (without_member u p) (parties s)" and
        rest: "next_id t = next_id s" "party_invites t = party_invites s"
      using only_act_fields[OF left(6)] by simp_all
    have u: "a_party (act s u) = Some (party_id p)" using in_one_party[OF inv left(2-4)] .
    show ?thesis
    proof (rule party_inv_update[OF inv])
      show "party_id (without_member u p) < next_id s" using inv left(2) by (auto simp: party_inv_def)
      show "parties t = put_row party_id (without_member u p) (parties s)" by (rule rows)
      show "party_ok t (without_member u p)" by (rule party_ok_without[OF inv left(2,3)]) (simp add: left(5))
      show "a_party (act t v) = Some q" if "q \<noteq> party_id (without_member u p)" "a_party (act s v) = Some q" for v q
        using that u by (auto simp: left(5))
    qed (simp_all add: rest)
  qed
qed

text \<open>After leaving, a player is in no active party.\<close>

lemma left_no_party:
  assumes inv: "party_inv s" and run: "leave_party u s = (Inr (), t)"
    and row: "get_row party_id k (parties t) = Some q" "party_active q"
  shows "u \<notin> set (members q)"
  using run
proof (cases rule: leave_result)
  case absent
  with inv row show ?thesis using only_act_fields(2)[OF absent(2)] by auto
next
  case failed
  then show ?thesis by simp
next
  case (left p)
  have rows: "parties t = put_row party_id (without_member u p) (parties s)"
    using only_act_fields(2)[OF left(6)] by simp
  show ?thesis
  proof (cases "k = party_id p")
    case True
    with row(1) have "q = without_member u p" by (simp add: rows)
    then show ?thesis by simp
  next
    case False
    with row(1) have "get_row party_id k (parties s) = Some q" by (simp add: rows)
    with in_one_party[OF inv this row(2), of u] in_one_party[OF inv left(2-4)] False show ?thesis by auto
  qed
qed

lemma keeps_leave [keeps_rules]: "keeps party_inv (leave_party u)"
  by (rule keepsI) (metis leave_keeps prod.collapse)

lemma keeps_reads: "reads m \<Longrightarrow> (\<And>s t. I s \<Longrightarrow> social_eq s t \<Longrightarrow> I t) \<Longrightarrow> keeps I m"
  by (rule keepsI) (metis reads_social prod.collapse)

lemmas keeps_reads_lease = keeps_reads[where I = lease_inv, OF _ lease_inv_frame]
lemmas keeps_reads_party = keeps_reads[where I = party_inv, OF _ party_inv_frame]

lemmas keeps_readers [keeps_rules] =
  keeps_reads_lease[OF reads_activity] keeps_reads_lease[OF reads_active_user]
  keeps_reads_lease[OF reads_services(1)] keeps_reads_lease[OF reads_services(2)]
  keeps_reads_lease[OF reads_services(3)] keeps_reads_lease[OF reads_services(4)]
  keeps_reads_lease[OF reads_services(5)]
  keeps_reads_party[OF reads_activity] keeps_reads_party[OF reads_active_user]
  keeps_reads_party[OF reads_services(1)] keeps_reads_party[OF reads_services(2)]
  keeps_reads_party[OF reads_services(3)] keeps_reads_party[OF reads_services(4)]
  keeps_reads_party[OF reads_services(5)]

text \<open>Putting a player who is in no party into one.\<close>

lemma join_party_keeps:
  assumes inv: "party_inv s" and free: "\<And>k q. get_row party_id k (parties s) = Some q \<Longrightarrow> party_active q \<Longrightarrow> u \<notin> set (members q)"
    and k: "party_id p < next_id t" "next_id s \<le> next_id t"
    and old: "\<And>q. get_row party_id (party_id p) (parties s) = Some q \<Longrightarrow> party_active q \<and> set (members q) = set (members p) - {u}"
    and ok: "members p \<noteq> []" "distinct (members p)" "length (members p) \<le> 2" "captain_id p \<in> set (members p)"
    and new: "get_row party_id (party_id p) (parties s) = None \<Longrightarrow> members p = [u]"
    and rows: "parties t = put_row party_id p (parties s)" "party_invites t = party_invites s"
    and ptr: "\<And>v. a_party (act t v) = (if v = u then Some (party_id p) else a_party (act s v))"
  shows "party_inv t"
proof -
  have "l < next_id t \<and> party_ok t q" if q: "get_row party_id l (parties t) = Some q" for l q
  proof (cases "l = party_id p")
    case True
    with q have "q = p" by (simp add: rows)
    moreover have "a_party (act t v) = Some (party_id p)" if "v \<in> set (members p)" "v \<noteq> u" for v
    proof -
      from new that obtain q0 where q0: "get_row party_id (party_id p) (parties s) = Some q0" by fastforce
      with old that have "party_active q0" "v \<in> set (members q0)" by auto
      from in_one_party[OF inv q0 this] that show ?thesis by (simp add: ptr)
    qed
    ultimately show ?thesis using True k ok by (auto simp: party_ok_def ptr)
  next
    case False
    with q have qs: "get_row party_id l (parties s) = Some q" by (simp add: rows)
    with inv have "l < next_id s" "party_ok s q" unfolding party_inv_def by blast+
    with k free[OF qs] show ?thesis by (auto simp: party_ok_def ptr)
  qed
  moreover have "distinct (map party_id (parties t))"
    using inv unfolding rows party_inv_def by (blast intro: distinct_put_row)
  ultimately show ?thesis using inv rows(2) unfolding party_inv_def by auto
qed

lemma seq_bnd: "seq m (bnd k f) = bnd (seq m k) f"
  by (rule ext) (auto simp: seq_def bnd_def split: prod.splits sum.splits)

lemma bnd_reads_cases:
  assumes "bnd m f s = (r, t)" "reads m"
  obtains (raised) e where "r = Inl e" "only_act s t" "act t = act s"
  | (continued) a s1 where "m s = (Inr a, s1)" "only_act s s1" "act s1 = act s" "f a s1 = (r, t)"
proof -
  obtain x s1 where s1: "m s = (x, s1)" by fastforce
  note rd = readsD[OF assms(2) s1]
  show ?thesis
  proof (cases x)
    case (Inl e)
    with assms(1) s1 rd raised show ?thesis by (auto simp: bnd_def)
  next
    case (Inr a)
    with assms(1) s1 rd continued show ?thesis by (auto simp: bnd_def)
  qed
qed

lemma accept_keeps:
  assumes inv: "party_inv s" and ne: "pi_inviter i \<noteq> u" and run: "party_accept u i s = (r, t)"
  shows "party_inv t \<and> party_invites t = party_invites s"
proof -
  have quiet: "only_act s t \<Longrightarrow> act t = act s \<Longrightarrow> party_inv t \<and> party_invites t = party_invites s"
    using inv party_inv_frame social_eq_act by (metis only_act_fields(7))
  show ?thesis
  proof (cases "get_row party_id (pi_party i) (parties s)")
    case None
    with run have "t = s" by (auto simp: party_accept_def bnd_def gets_def reject_def throw_def)
    with inv show ?thesis by simp
  next
    case (Some p)
    show ?thesis
    proof (cases "party_active p \<and> length (members p) < 2 \<and> captain_id p = pi_inviter i")
      case False
      with run Some have "t = s"
        by (auto simp: party_accept_def bnd_def gets_def reject_def throw_def not_less split: if_splits)
      with inv show ?thesis by simp
    next
      case True
      let ?check = "seq (assert_not_blocked (pi_inviter i) u) (seq (assert_party_idle p)
          (seq (active_user (captain_id p)) (activity u)))"
      from run Some True have "bnd ?check (\<lambda>st.
             if a_reservation st \<noteq> None then reject ''Finish the match or matchmaking first.'' 409
             else
               seq (leave_party u)
              (bnd (gets (\<lambda>s. get_row party_id (pi_party i) (parties s))) (\<lambda>again.
               case again of
                 None \<Rightarrow> throw KeyErr
               | Some q \<Rightarrow>
                   seq (set_party (q\<lparr>members := members q @ [u], party_revision := party_revision q + 1\<rparr>))
                       (set_activity u (\<lambda>a. a\<lparr>a_party := Some (party_id q)\<rparr>))))) s = (r, t)"
        by (auto simp: party_accept_def gets_def seq_bnd bnd_def[of "gets _"])
      moreover have "reads ?check" by blast
      ultimately show ?thesis
      proof (cases rule: bnd_reads_cases)
        case raised
        then show ?thesis using quiet by blast
      next
        case (continued st s1)
        have inv1: "party_inv s1" using inv continued(2,3) party_inv_frame social_eq_act by blast
        show ?thesis
        proof (cases "a_reservation st = None")
          case False
          with continued have "t = s1" by (auto simp: reject_def throw_def)
          with continued quiet show ?thesis by blast
        next
          case free: True
          obtain r2 s2 where s2: "leave_party u s1 = (r2, s2)" by fastforce
          have inv2: "party_inv s2" using leave_keeps[OF inv1 s2] .
          have inv_same: "party_invites s2 = party_invites s"
            using s2 only_act_fields(7)[OF continued(2)]
            by (cases rule: leave_result) (auto dest: only_act_fields(7))
          show ?thesis
          proof (cases r2)
            case (Inl e)
            with continued(4) free s2 have "t = s2" by (auto simp: seq_def bnd_def)
            with inv2 inv_same show ?thesis by simp
          next
            case (Inr x)
            have k: "party_id p = pi_party i" using Some by (rule rows.get_key)
            have m: "members p = [pi_inviter i]"
            proof -
              have "members p \<noteq> []" "captain_id p \<in> set (members p)"
                using inv Some True unfolding party_inv_def party_ok_def by blast+
              with True show ?thesis by (cases "members p") auto
            qed
            have p1: "get_row party_id (pi_party i) (parties s1) = Some p"
              using Some only_act_fields(2)[OF continued(2)] by simp
            have p2: "get_row party_id (pi_party i) (parties s2) = Some p"
              using s2
            proof (cases rule: leave_result)
              case (left q)
              have "party_id q \<noteq> pi_party i"
              proof
                assume "party_id q = pi_party i"
                with left(2) p1 have "q = p" by simp
                with left(4) m ne show False by simp
              qed
              with p1 show ?thesis using only_act_fields(2)[OF left(6)] by simp
            qed (use p1 in \<open>auto dest: only_act_fields(2)\<close>)
            define q where "q = p\<lparr>members := members p @ [u], party_revision := party_revision p + 1\<rparr>"
            define s3 where "s3 = s2\<lparr>parties := put_row party_id q (parties s2)\<rparr>"
            obtain s4 where s4: "set_activity u (\<lambda>a. a\<lparr>a_party := Some (party_id p)\<rparr>) s3 = (Inr (), s4)"
                "only_act s3 s4" "act s4 = (act s3)(u := (act s3 u)\<lparr>a_party := Some (party_id p)\<rparr>)"
              using set_activity_result[of "\<lambda>a. a\<lparr>a_party := Some (party_id p)\<rparr>" u s3] by auto
            have "t = s4"
              using continued(4) free s2 Inr p2 s4(1)
              by (simp add: seq_def bnd_def gets_def set_party_def modify_def q_def s3_def)
            moreover have "party_inv s4"
            proof (rule join_party_keeps[OF inv2, where u = u and p = q])
              show "u \<notin> set (members q)" if "get_row party_id k (parties s2) = Some q" "party_active q" for k q
                using left_no_party[OF inv1 _ that] s2 Inr by simp
              show "party_id q < next_id s4"
                using inv2 p2 k only_act_fields(5)[OF s4(2)] by (auto simp: q_def s3_def party_inv_def)
              show "parties s4 = put_row party_id q (parties s2)" using only_act_fields(2)[OF s4(2)] by (simp add: s3_def)
              show "a_party (act s4 v) = (if v = u then Some (party_id q) else a_party (act s2 v))" for v
                unfolding s4(3) by (simp add: q_def s3_def)
              show "party_active q' \<and> set (members q') = set (members q) - {u}"
                if "get_row party_id (party_id q) (parties s2) = Some q'" for q'
                using that p2 True m ne k by (auto simp: q_def)
            qed (use m ne True p2 k only_act_fields(5,7)[OF s4(2)] in \<open>auto simp: q_def s3_def\<close>)
            moreover have "party_invites s4 = party_invites s"
              using only_act_fields(7)[OF s4(2)] inv_same by (simp add: s3_def)
            ultimately show ?thesis by simp
          qed
        qed
      qed
    qed
  qed
qed

lemma keeps_set_invite:
  assumes "pi_inviter i \<noteq> pi_target i"
  shows "keeps party_inv (set_invite i)"
proof (unfold set_invite_def, rule keeps_modify)
  fix s assume I: "party_inv s"
  have "set (put_row pi_id i (party_invites s)) \<subseteq> insert i (set (party_invites s))" by (rule set_put_row)
  with I assms show "party_inv (s\<lparr>party_invites := put_row pi_id i (party_invites s)\<rparr>)"
    by (auto simp: party_inv_def party_ok_def)
qed

lemma keeps_answer [keeps_rules]: "keeps party_inv (answer_invite u acc ivt)"
proof (rule keepsI)
  fix s assume I: "party_inv s"
  define found where "found = (case ivt of None \<Rightarrow> None | Some k \<Rightarrow> get_row pi_id k (party_invites s))"
  show "party_inv (snd (answer_invite u acc ivt s))"
  proof (cases found)
    case None
    with I show ?thesis
      by (simp add: answer_invite_def bnd_def gets_def reject_def throw_def found_def)
  next
    case (Some i)
    then have "i \<in> set (party_invites s)"
      by (auto simp: found_def get_row_def dest: find_Some_in split: option.splits)
    with I have ne: "pi_inviter i \<noteq> pi_target i" by (simp add: party_inv_def)
    have set_ok: "keeps party_inv (set_invite (i\<lparr>pi_status := (if acc then Accepted else Declined)\<rparr>))"
      by (rule keeps_set_invite) (simp add: ne)
    have run: "answer_invite u acc ivt s =
        (if pi_target i \<noteq> u \<or> pi_status i \<noteq> Pending \<or> pi_expires i \<le> now s
         then reject ''This invitation is no longer available.'' 409 s
         else seq (if acc then party_accept u i else ret ())
                (set_invite (i\<lparr>pi_status := (if acc then Accepted else Declined)\<rparr>)) s)"
      using Some by (simp add: answer_invite_def bnd_def gets_def found_def)
    show ?thesis
    proof (cases "pi_target i \<noteq> u \<or> pi_status i \<noteq> Pending \<or> pi_expires i \<le> now s")
      case True
      with I show ?thesis unfolding run by (simp add: reject_def throw_def)
    next
      case False
      obtain r1 s1 where s1: "(if acc then party_accept u i else ret ()) s = (r1, s1)" by fastforce
      have "party_inv s1"
      proof (cases acc)
        case True
        with s1 False ne I show ?thesis using accept_keeps[of s i u r1 s1] by auto
      next
        case False
        with s1 I show ?thesis by (simp add: ret_def)
      qed
      then show ?thesis
        unfolding run using False s1 keepsD[OF set_ok] by (auto simp: seq_def bnd_def split: sum.splits)
    qed
  qed
qed

lemma own_party_keeps:
  assumes inv: "party_inv s" and run: "own_party u s = (r, t)"
  shows "party_inv t"
proof -
  obtain x s1 where s1: "get_party u s = (x, s1)" by fastforce
  note g = get_party_result[OF s1]
  then obtain y where y: "x = Inr y" by blast
  have inv1: "party_inv s1" using inv g party_inv_frame social_eq_act by blast
  show ?thesis
  proof (cases y)
    case (Some p)
    with run s1 y inv1 show ?thesis by (auto simp: own_party_def bnd_def ret_def)
  next
    case None
    obtain s2 where s2: "activity u s1 = (Inr (act s1 u), s2)" "only_act s1 s2" "act s2 = act s1"
      using activity_result by blast
    have a: "only_act s s2" "act s2 = act s" using g s2 only_act_trans by auto
    have inv2: "party_inv s2" using inv a party_inv_frame social_eq_act by blast
    show ?thesis
    proof (cases "a_reservation (act s1 u) = None")
      case False
      with run s1 y None s2 inv2 show ?thesis by (auto simp: own_party_def bnd_def reject_def throw_def)
    next
      case True
      define q where "q = \<lparr>party_id = next_id s2, captain_id = u, members = [u], party_active = True, party_revision = 1\<rparr>"
      define s3 where "s3 = s2\<lparr>next_id := next_id s2 + 1, parties := put_row party_id q (parties s2)\<rparr>"
      obtain s4 where s4: "set_activity u (\<lambda>a. a\<lparr>a_party := Some (next_id s2)\<rparr>) s3 = (Inr (), s4)"
          "only_act s3 s4" "act s4 = (act s3)(u := (act s3 u)\<lparr>a_party := Some (next_id s2)\<rparr>)"
        using set_activity_result[of "\<lambda>a. a\<lparr>a_party := Some (next_id s2)\<rparr>" u s3] by auto
      have t: "t = s4"
        using run s1 y None s2(1) True s4(1)
        by (simp add: own_party_def bnd_def seq_def fresh_id_def set_party_def modify_def ret_def Let_def q_def s3_def)
      have free: "u \<notin> set (members q')" if "get_row party_id k (parties s2) = Some q'" "party_active q'" for k q'
        using that g y None inv only_act_fields(2)[OF a(1)] by auto
      have fresh: "get_row party_id (next_id s2) (parties s2) = None"
        using inv2 unfolding party_inv_def by (metis less_irrefl not_None_eq)
      show ?thesis
        unfolding t
        by (rule join_party_keeps[OF inv2 free, where p = q])
          (use fresh only_act_fields(2,5,7)[OF s4(2)] in \<open>auto simp: q_def s3_def s4(3)\<close>)
    qed
  qed
qed

lemma keeps_own_party [keeps_rules]: "keeps party_inv (own_party u)"
  by (rule keepsI) (metis own_party_keeps prod.collapse)

lemma keeps_fresh_party: "keeps party_inv fresh_id"
  by (rule keepsI) (auto simp: fresh_id_def social_eq_def elim!: party_inv_frame)

lemma keeps_send_invite [keeps_rules]: "u \<noteq> v \<Longrightarrow> keeps party_inv (send_invite u p v)"
  unfolding send_invite_def
  by (intro keeps_rules keeps_fresh_party keeps_set_invite) auto

lemma keeps_resolve [keeps_rules]: "keeps I (resolve_target a tid name)"
  unfolding resolve_target_def Let_def by (intro keeps_rules)

lemma keeps_party_action [keeps_rules]: "keeps party_inv (party_action u a tid ivt name)"
  unfolding party_action_def
  by (intro keeps_rules) simp_all

text \<open>The leases do not depend on the parties.\<close>

lemma keeps_lease_activity:
  assumes "\<And>a. a_user (f a) = a_user a" "\<And>a. a_reservation (f a) = a_reservation a"
  shows "keeps lease_inv (set_activity u f)"
proof (rule keepsI)
  fix s assume inv: "lease_inv s"
  obtain t where t: "set_activity u f s = (Inr (), t)" "only_act s t" "act t = (act s)(u := f (act s u))"
    using set_activity_result[of f u s] assms(1) by blast
  have "lease_inv t"
    using inv assms(2) unfolding lease_inv_def holds_def t(3) only_act_fields[OF t(2)] by simp
  then show "lease_inv (snd (set_activity u f s))" by (simp add: t(1))
qed

lemma keeps_lease_modify:
  assumes "\<And>s. act (f s) = act s" "\<And>s. reservation_rows (f s) = reservation_rows s" "\<And>s. uuids (f s) = uuids s"
    "\<And>s. uuid_pos (f s) = uuid_pos s"
  shows "keeps lease_inv (modify f)"
  by (rule keeps_modify) (simp add: lease_inv_def holds_def assms)

lemma keeps_lease_party_steps [keeps_rules]:
  "keeps lease_inv (set_party p)" "keeps lease_inv (set_invite i)" "keeps lease_inv fresh_id"
  "keeps lease_inv (leave_party u)" "keeps lease_inv (own_party u)"
proof -
  show sp: "keeps lease_inv (set_party p)" for p
    unfolding set_party_def by (rule keeps_lease_modify) simp_all
  show "keeps lease_inv (set_invite i)"
    unfolding set_invite_def by (rule keeps_lease_modify) simp_all
  show fr: "keeps lease_inv fresh_id"
    by (rule keepsI) (simp add: fresh_id_def lease_inv_def holds_def)
  show "keeps lease_inv (leave_party u)"
    unfolding leave_party_def
    by (intro keeps_rules keeps_lease_activity sp) simp_all
  show "keeps lease_inv (own_party u)"
    unfolding own_party_def
    by (intro keeps_rules keeps_lease_activity sp fr) simp_all
qed

lemma keeps_lease_party_action [keeps_rules]: "keeps lease_inv (party_action u a tid ivt name)"
  unfolding party_action_def answer_invite_def party_accept_def send_invite_def
  by (intro keeps_rules keeps_lease_activity) simp_all

section \<open>Expiry and the coordinator lock\<close>

lemma drop_member_result:
  "\<exists>t. drop_member c pid u s = (Inr (), t) \<and> only_act s t
     \<and> (\<forall>v. a_reservation (act t v) = a_reservation (act s v))
     \<and> (\<forall>v. a_party (act t v) =
          (if v = u \<and> \<not> stays s c u \<and> a_party (act s u) = Some pid then None else a_party (act s v)))
     \<and> (\<forall>v. stays t c v = stays s c v)"
proof (cases "get_row a_user u (activities s)")
  case None
  then have "a_party (act s u) = None" by (simp add: act_def new_activity_def)
  with None show ?thesis by (simp add: drop_member_def)
next
  case (Some st)
  then have st: "act s u = st" "a_user st = u" by (auto simp: act_def dest: rows.get_key)
  show ?thesis
  proof (cases "\<not> stays s c u \<and> a_party st = Some pid")
    case True
    define t where "t = put_activity (st\<lparr>a_party := None\<rparr>) s"
    have "drop_member c pid u s = (Inr (), t)" using Some True by (simp add: drop_member_def t_def)
    moreover have "stays t c v = stays s c v" for v
      using Some st by (simp add: t_def put_activity_def stays_def)
    ultimately show ?thesis using True st by (intro exI[of _ t]) (auto simp: t_def)
  next
    case False
    with Some st show ?thesis by (auto simp: drop_member_def)
  qed
qed

lemma drop_members_result:
  "\<exists>t. for_each us (drop_member c pid) s = (Inr (), t) \<and> only_act s t
     \<and> (\<forall>v. a_reservation (act t v) = a_reservation (act s v))
     \<and> (\<forall>v. a_party (act t v) =
          (if v \<in> set us \<and> \<not> stays s c v \<and> a_party (act s v) = Some pid then None else a_party (act s v)))"
proof (induction us arbitrary: s)
  case Nil
  show ?case by (simp add: ret_def)
next
  case (Cons u us)
  obtain t where t: "drop_member c pid u s = (Inr (), t)" "only_act s t"
      "\<forall>v. a_reservation (act t v) = a_reservation (act s v)"
      "\<forall>v. a_party (act t v) = (if v = u \<and> \<not> stays s c u \<and> a_party (act s u) = Some pid then None else a_party (act s v))"
      "\<forall>v. stays t c v = stays s c v"
    using drop_member_result by blast
  obtain t' where t': "for_each us (drop_member c pid) t = (Inr (), t')" "only_act t t'"
      "\<forall>v. a_reservation (act t' v) = a_reservation (act t v)"
      "\<forall>v. a_party (act t' v) = (if v \<in> set us \<and> \<not> stays t c v \<and> a_party (act t v) = Some pid then None else a_party (act t v))"
    using Cons.IH by blast
  have "for_each (u # us) (drop_member c pid) s = (Inr (), t')" using t(1) t'(1) by (simp add: seq_def bnd_def)
  moreover have "only_act s t'" using t(2) t'(2) by (rule only_act_trans)
  ultimately show ?case using t(3-5) t'(3,4) by (intro exI[of _ t']) auto
qed

lemma expire_party_result:
  "\<exists>t. expire_party c p s = (Inr (), t)
     \<and> only_act (s\<lparr>parties := parties t\<rparr>) t
     \<and> (\<forall>v. a_reservation (act t v) = a_reservation (act s v))
     \<and> (\<forall>v. a_party (act t v) =
          (if v \<in> set (members p) \<and> \<not> stays s c v \<and> a_party (act s v) = Some (party_id p) then None else a_party (act s v)))
     \<and> (let kept = filter (stays s c) (members p) in
        parties t = (if kept = members p then parties s
          else put_row party_id (p\<lparr>members := kept, party_active := (kept \<noteq> []),
               captain_id := (if kept \<noteq> [] \<and> captain_id p \<notin> set kept then hd kept else captain_id p),
               party_revision := party_revision p + 1\<rparr>) (parties s)))"
proof -
  obtain t where t: "for_each (members p) (drop_member c (party_id p)) s = (Inr (), t)" "only_act s t"
     "\<forall>v. a_reservation (act t v) = a_reservation (act s v)"
     "\<forall>v. a_party (act t v) = (if v \<in> set (members p) \<and> \<not> stays s c v \<and> a_party (act s v) = Some (party_id p)
        then None else a_party (act s v))"
    using drop_members_result by blast
  have ps: "parties t = parties s" using only_act_fields(2)[OF t(2)] .
  show ?thesis
  proof (cases "filter (stays s c) (members p) = members p")
    case True
    with t ps show ?thesis by (auto simp: expire_party_def bnd_def seq_def gets_def ret_def)
  next
    case False
    with t ps only_act_parties[OF t(2)] show ?thesis
      by (auto simp: expire_party_def bnd_def seq_def gets_def set_party_def modify_def Let_def)
  qed
qed

lemma expire_party_keeps:
  assumes inv: "party_inv s" and row: "get_row party_id (party_id p) (parties s) = Some p" "party_active p"
    and run: "expire_party c p s = (r, t)"
  shows "party_inv t" and "\<And>k. k \<noteq> party_id p \<Longrightarrow> get_row party_id k (parties t) = get_row party_id k (parties s)"
proof -
  define kept where "kept = filter (stays s c) (members p)"
  define q where "q = p\<lparr>members := kept, party_active := (kept \<noteq> []),
      captain_id := (if kept \<noteq> [] \<and> captain_id p \<notin> set kept then hd kept else captain_id p),
      party_revision := party_revision p + 1\<rparr>"
  have t: "only_act (s\<lparr>parties := parties t\<rparr>) t" "\<And>v. a_reservation (act t v) = a_reservation (act s v)"
      "\<And>v. a_party (act t v) = (if v \<in> set (members p) \<and> \<not> stays s c v \<and> a_party (act s v) = Some (party_id p)
          then None else a_party (act s v))"
      "parties t = (if kept = members p then parties s else put_row party_id q (parties s))"
    using expire_party_result[of c p s] run by (auto simp: kept_def q_def Let_def)
  have rest: "next_id t = next_id s" "party_invites t = party_invites s"
    using only_act_fields(5,7)[OF t(1)] by simp_all
  have p: "distinct (members p)" "length (members p) \<le> 2"
      "\<forall>v \<in> set (members p). a_party (act s v) = Some (party_id p)"
    using inv row unfolding party_inv_def party_ok_def by blast+
  show "party_inv t"
  proof (cases "kept = members p")
    case True
    then have "\<forall>v \<in> set (members p). stays s c v" unfolding kept_def by (metis filter_id_conv)
    then have "a_party (act t v) = a_party (act s v)" for v using t(3)[of v] by auto
    moreover have "parties t = parties s" using True t(4) by simp
    ultimately show ?thesis using inv rest by (simp add: party_inv_def party_ok_def)
  next
    case False
    have len: "length kept \<le> 2" using p(2) length_filter_le[of "stays s c" "members p"] unfolding kept_def by linarith
    have "hd kept \<in> set kept" if "kept \<noteq> []" using that by simp
    moreover have "a_party (act t v) = Some (party_id p)" if "v \<in> set kept" for v
      using that p(3) t(3)[of v] by (auto simp: kept_def)
    ultimately have "party_ok t q" using p(1) len by (auto simp: party_ok_def q_def kept_def)
    moreover have "party_id p < next_id s" using inv row(1) by (auto simp: party_inv_def)
    moreover have "a_party (act t v) = Some k" if "k \<noteq> party_id p" "a_party (act s v) = Some k" for v k
      using that t(3)[of v] by auto
    ultimately show ?thesis
      using party_inv_update[OF inv, of q t] False t(4) rest by (simp add: q_def)
  qed
  show "get_row party_id k (parties t) = get_row party_id k (parties s)" if "k \<noteq> party_id p" for k
    using that t(4) by (simp add: q_def)
qed

lemma expire_parties_keeps:
  assumes "party_inv s" and "distinct (map party_id ps)"
    and "\<forall>p \<in> set ps. party_active p \<and> get_row party_id (party_id p) (parties s) = Some p"
  shows "party_inv (snd (for_each ps (expire_party c) s))"
  using assms
proof (induction ps arbitrary: s)
  case Nil
  then show ?case by (simp add: ret_def)
next
  case (Cons p ps)
  obtain t where t: "expire_party c p s = (Inr (), t)" using expire_party_result by blast
  have row: "get_row party_id (party_id p) (parties s) = Some p" "party_active p" using Cons.prems(3) by auto
  note k = expire_party_keeps[OF Cons.prems(1) row t]
  have "\<forall>q \<in> set ps. party_active q \<and> get_row party_id (party_id q) (parties t) = Some q"
  proof
    fix q assume q: "q \<in> set ps"
    moreover from Cons.prems(2) have "party_id p \<notin> party_id ` set ps" by simp
    ultimately have "party_id q \<noteq> party_id p" by (metis image_eqI)
    with q Cons.prems(3) k(2) show "party_active q \<and> get_row party_id (party_id q) (parties t) = Some q" by simp
  qed
  with Cons.IH[OF k(1)] Cons.prems(2) t show ?case by (simp add: seq_def bnd_def)
qed

lemma keeps_expire_parties [keeps_rules]: "keeps party_inv expire_stale_parties"
proof (rule keepsI)
  fix s assume inv: "party_inv s"
  let ?ps = "filter party_active (parties s)"
  have d: "distinct (map party_id (parties s))" using inv by (simp add: party_inv_def)
  then have e: "distinct (map party_id ?ps)" by (rule distinct_map_filter)
  have "\<forall>p \<in> set ?ps. party_active p \<and> get_row party_id (party_id p) (parties s) = Some p"
    by (simp add: get_row_mem[OF d])
  note k = expire_parties_keeps[OF inv e this, of "now s - seconds 15"]
  have "expire_stale_parties s = for_each ?ps (expire_party (now s - seconds 15)) s"
    unfolding expire_stale_parties_def bnd_def gets_def by (simp only: prod.case sum.case)
  then show "party_inv (snd (expire_stale_parties s))" using k by (simp only:)
qed

lemma keeps_lease_expire [keeps_rules]: "keeps lease_inv (expire_party c p)"
proof (rule keepsI)
  fix s assume inv: "lease_inv s"
  obtain t where t: "expire_party c p s = (Inr (), t)" "only_act (s\<lparr>parties := parties t\<rparr>) t"
      "\<forall>v. a_reservation (act t v) = a_reservation (act s v)"
    using expire_party_result by blast
  have "lease_inv t"
    using inv t(3) only_act_fields[OF t(2)] by (simp add: lease_inv_def holds_def)
  with t(1) show "lease_inv (snd (expire_party c p s))" by simp
qed

lemma keeps_lease_expire_all [keeps_rules]: "keeps lease_inv expire_stale_parties"
  unfolding expire_stale_parties_def by (intro keeps_rules)

text \<open>Reservations do not touch the parties.\<close>

lemma party_inv_same:
  assumes "party_inv s" "\<And>u. a_party (act t u) = a_party (act s u)" "parties t = parties s"
    "party_invites t = party_invites s" "next_id t = next_id s"
  shows "party_inv t"
  using assms by (simp add: party_inv_def party_ok_def)

lemma keeps_party_release [keeps_rules]: "keeps party_inv (release_reservation rid)"
proof (rule keepsI)
  fix s assume inv: "party_inv s"
  obtain r t where t: "release_reservation rid s = (r, t)" by fastforce
  from t have "party_inv t"
  proof (cases rule: release_result)
    case (2 row)
    show ?thesis
      by (rule party_inv_same[OF inv]) (use only_act_fields[OF 2(4)] in \<open>auto simp: 2(3)\<close>)
  qed (use inv in simp)
  with t show "party_inv (snd (release_reservation rid s))" by simp
qed

lemma keeps_party_reserve [keeps_rules]: "keeps party_inv (reserve_members c us kind p None)"
proof (rule keepsI)
  fix s assume inv: "party_inv s"
  obtain r t where t: "reserve_members c us kind p None s = (r, t)" by fastforce
  from t have "party_inv t"
  proof (cases rule: reserve_result)
    case rejected
    with inv show ?thesis using party_inv_frame social_eq_act by blast
  next
    case (reserved s0 row)
    show ?thesis
      by (rule party_inv_same[OF inv])
        (use only_act_fields[OF reserved(9)] only_act_fields[OF reserved(2)] in \<open>auto simp: reserved(10)\<close>)
  qed
  with t show "party_inv (snd (reserve_members c us kind p None s))" by simp
qed

lemma renew_result:
  "renew_reservation rid s = (r, t) \<Longrightarrow> t = s \<or> (\<exists>row. get_row res_id rid (reservation_rows s) = Some row
     \<and> t = s\<lparr>reservation_rows := put_row res_id (row\<lparr>res_expires := now s + minutes 10\<rparr>) (reservation_rows s)\<rparr>)"
  by (auto simp: renew_reservation_def bnd_def gets_def reject_def throw_def modify_def
      split: option.splits if_splits)

lemma keeps_lease_renew [keeps_rules]: "keeps lease_inv (renew_reservation rid)"
proof (rule keepsI)
  fix s assume inv: "lease_inv s"
  obtain r t where t: "renew_reservation rid s = (r, t)" by fastforce
  from renew_result[OF t] have "lease_inv t"
  proof (elim disjE exE conjE)
    fix row assume row: "get_row res_id rid (reservation_rows s) = Some row"
      and t: "t = s\<lparr>reservation_rows := put_row res_id (row\<lparr>res_expires := now s + minutes 10\<rparr>) (reservation_rows s)\<rparr>"
    have key: "res_id row = rid" using row by (rule rows.get_key)
    have "holds t k u = holds s k u" for k u using row key by (simp add: holds_def t)
    moreover have "get_row res_id k (reservation_rows t) = None \<longleftrightarrow> get_row res_id k (reservation_rows s) = None" for k
      using row key by (simp add: t)
    ultimately show "lease_inv t" using inv by (simp add: lease_inv_def t)
  qed (use inv in simp)
  with t show "lease_inv (snd (renew_reservation rid s))" by simp
qed

lemma keeps_party_renew [keeps_rules]: "keeps party_inv (renew_reservation rid)"
proof (rule keepsI)
  fix s assume inv: "party_inv s"
  obtain r t where t: "renew_reservation rid s = (r, t)" by fastforce
  from renew_result[OF t] inv have "party_inv t" by (auto intro: party_inv_same)
  with t show "party_inv (snd (renew_reservation rid s))" by simp
qed

section \<open>Invariants of the session\<close>

text \<open>
  What the rest of the services relies on, in three interfaces.  \<open>quiet_frame\<close> is a property of the
  session that no change outside parties, leases and matches affects; \<open>session_invariant\<close> adds that
  the operations on parties and leases keep it; \<open>social_invariant\<close> is one that ignores the matches
  too.  The operations built on them keep such a property; those lemmas are proved once, in these
  locales, next to the operations.
\<close>

definition same_matches :: "db \<Rightarrow> db \<Rightarrow> bool" where
  "same_matches s t \<longleftrightarrow> matches t = matches s \<and> next_id s \<le> next_id t"

definition quiet :: "db \<Rightarrow> db \<Rightarrow> bool" where
  "quiet s t \<longleftrightarrow> social_eq s t \<and> same_matches s t"

lemmas quiet_defs = quiet_def social_eq_def same_matches_def

lemma reads_quiet: "reads m \<Longrightarrow> m s = (r, t) \<Longrightarrow> quiet s t"
  using reads_social[of m s r t] only_act_fields(5,9)[OF readsD[THEN conjunct1], of m s r t]
  by (simp add: quiet_def same_matches_def)

locale quiet_frame =
  fixes I :: "db \<Rightarrow> bool"
  assumes quiet: "I s \<Longrightarrow> quiet s t \<Longrightarrow> I t"
begin

lemma keeps_quiet: "(\<And>s r t. m s = (r, t) \<Longrightarrow> quiet s t) \<Longrightarrow> keeps I m"
  by (rule keepsI) (metis quiet prod.collapse)

lemma keeps_reading: "reads m \<Longrightarrow> keeps I m"
  by (rule keeps_quiet) (rule reads_quiet)

lemmas keeps_readings [keeps_rules] = keeps_reading[OF reads_activity] keeps_reading[OF reads_active_user]
  keeps_reading[OF reads_services(1)] keeps_reading[OF reads_services(2)] keeps_reading[OF reads_services(3)]
  keeps_reading[OF reads_services(4)] keeps_reading[OF reads_services(5)]

lemma keeps_frame: "(\<And>s. quiet s (f s)) \<Longrightarrow> keeps I (modify f)"
  by (rule keeps_modify) (blast intro: quiet)

lemma keeps_numbers [keeps_rules]: "keeps I fresh_id" "keeps I (randbelow n)"
  by (rule keeps_quiet; auto simp: fresh_id_def randbelow_def quiet_defs)+

lemma keeps_activity_field:
  assumes "\<And>a. a_user (f a) = a_user a" "\<And>a. a_reservation (f a) = a_reservation a" "\<And>a. a_party (f a) = a_party a"
  shows "keeps I (set_activity u f)"
proof (rule keeps_quiet)
  fix s r t assume run: "set_activity u f s = (r, t)"
  obtain t' where t': "set_activity u f s = (Inr (), t')" "only_act s t'" "act t' = (act s)(u := f (act s u))"
    using set_activity_result[of f u s] assms(1) by blast
  have "quiet s t'" using assms only_act_fields[OF t'(2)] by (simp add: quiet_defs t'(3))
  with run t'(1) show "quiet s t" by simp
qed

lemma keeps_ensure_rating [keeps_rules]: "keeps I (ensure_rating u rs v fmt)"
  by (rule keeps_quiet) (auto simp: quiet_defs dest!: ensure_rating_run)

lemma keeps_native [keeps_rules]: "keeps I (claim_native_room u room)" "keeps I (release_native_room u room)"
  unfolding claim_native_room_def release_native_room_def
  by (intro keeps_rules keeps_frame; simp add: quiet_defs)+

lemma keeps_live [keeps_rules]: "keeps I (party_snapshot u)"
  unfolding party_snapshot_def by (intro keeps_rules)

end

locale session_invariant = quiet_frame +
  assumes keeps_release_I: "keeps I (release_reservation rid)"
    and keeps_reserve_I: "keeps I (reserve_members c us kind p None)"
    and keeps_party_I: "keeps I (party_action u a tid ivt name)"
    and keeps_expire_I: "keeps I expire_stale_parties"
    and keeps_renew_I: "keeps I (renew_reservation rid)"
begin

lemmas keeps_session [keeps_rules] = keeps_release_I keeps_reserve_I keeps_party_I keeps_expire_I
  keeps_renew_I

lemma keeps_expire_reservations [keeps_rules]: "keeps I expire_reservations"
  unfolding expire_reservations_def by (intro keeps_rules)

lemma keeps_lock [keeps_rules]: "keeps I lock_somsai"
  unfolding lock_somsai_def by (intro keeps_rules)

lemma keeps_somsai_transaction [keeps_rules]: "keeps I m \<Longrightarrow> keeps I (somsai_transaction m)"
  unfolding somsai_transaction_def by (intro keeps_rules)

end

locale social_invariant = session_invariant +
  assumes frame: "I s \<Longrightarrow> social_eq s t \<Longrightarrow> I t"
begin

lemma keeps_social_frame: "(\<And>s. social_eq s (f s)) \<Longrightarrow> keeps I (modify f)"
  by (rule keeps_modify) (blast intro: frame)

end

interpretation lease: social_invariant lease_inv
  by unfold_locales (auto simp: quiet_def intro: lease_inv_frame keeps_rules)

interpretation party: social_invariant party_inv
  by unfold_locales (auto simp: quiet_def intro: party_inv_frame keeps_rules)

end
