(* ===== verification/Pool.thy ===== *)
theory Pool
  imports Store
begin

text \<open>
  \<open>somsai_mixed_pool_service.py\<close>: a frozen match pool drawn from the map warehouse, one map per
  slot of the rank's rule and no map twice.  The nested function \<open>assign\<close> of \<open>mixed_pool\<close> is
  Kuhn's augmenting path search; its closure variables \<open>candidates\<close>, \<open>owners\<close> and \<open>visited\<close> are
  arguments and results here, and the first argument bounds the depth of the recursion.

  \<open>PoolSearch\<close> proves the search sound and complete against its specification, a system of
  distinct representatives.
\<close>

section \<open>Pools\<close>

record pool =
  po_id :: int
  po_revision :: int
  po_name :: string
  po_rank :: string
  po_best_of :: int
  po_bans :: int
  po_source :: "string option"
  po_slots :: "slot list"
  po_average_stars :: real

text \<open>
  The payload of a slot.  The display-only keys (label, artist, bpm, cs, ar, od, hp, length, cover)
  are not kept; \<open>status\<close> is written by \<open>create_match\<close> before anybody reads it.
\<close>

definition slot_payload :: "somsai_map \<Rightarrow> slot" where
  "slot_payload row = \<lparr>slot_id = m_slot row, category = m_category row, s_beatmap_id = m_beatmap row,
     checksum = m_checksum row,
     s_name = m_artist row @ '' - '' @ m_title row @ '' ['' @ m_version row @ '']'',
     s_mods = m_mods row, difficulty_rating = m_stars row, s_title = m_title row,
     s_stars = m_stars row, status = Available, selected_by_team = None\<rparr>"

section \<open>Random choices\<close>

definition swap_at :: "nat \<Rightarrow> nat \<Rightarrow> 'a list \<Rightarrow> 'a list" where
  "swap_at i j xs = xs[i := xs ! j, j := xs ! i]"

fun shuffle_from :: "nat \<Rightarrow> 'a list \<Rightarrow> (db, 'a list) op" where
  "shuffle_from 0 xs = ret xs"
| "shuffle_from (Suc i) xs = bnd (randbelow (i + 2)) (\<lambda>j. shuffle_from i (swap_at (Suc i) j xs))"

definition shuffle_rows :: "'a list \<Rightarrow> (db, 'a list) op" where
  "shuffle_rows xs = shuffle_from (length xs - 1) xs"

definition rng_choice :: "'a list \<Rightarrow> (db, 'a) op" where
  "rng_choice xs = (if xs = [] then throw KeyErr else bnd (randbelow (length xs)) (\<lambda>i. ret (xs ! i)))"

section \<open>The assignment\<close>

type_synonym owners = "(int \<times> string) list"

fun assign ::
  "nat \<Rightarrow> (string \<Rightarrow> somsai_map list) \<Rightarrow> string \<Rightarrow> somsai_map list \<Rightarrow> int list \<Rightarrow> owners
   \<Rightarrow> bool \<times> int list \<times> owners" where
  "assign n cand slt [] visited own = (False, visited, own)"
| "assign n cand slt (row # rows) visited own =
     (if m_beatmap row \<in> set visited then assign n cand slt rows visited own
      else
        let visited1 = m_beatmap row # visited
        in case map_of own (m_beatmap row) of
             None \<Rightarrow> (True, visited1, put_key (m_beatmap row) slt own)
           | Some holder \<Rightarrow>
               (case n of
                  0 \<Rightarrow> (False, visited1, own)
                | Suc m \<Rightarrow>
                    (case assign m cand holder (cand holder) visited1 own of
                       (True, visited2, own2) \<Rightarrow> (True, visited2, put_key (m_beatmap row) slt own2)
                     | (False, visited2, own2) \<Rightarrow> assign n cand slt rows visited2 own2)))"

fun assign_all :: "nat \<Rightarrow> (string \<Rightarrow> somsai_map list) \<Rightarrow> string list \<Rightarrow> owners \<Rightarrow> owners option" where
  "assign_all n cand [] own = Some own"
| "assign_all n cand (slt # slts) own =
     (case assign n cand slt (cand slt) [] own of
        (True, _, own') \<Rightarrow> assign_all n cand slts own'
      | (False, _, _) \<Rightarrow> None)"

definition lookup_rows :: "(string \<times> 'a list) list \<Rightarrow> string \<Rightarrow> 'a list" where
  "lookup_rows cands s = (case map_of cands s of None \<Rightarrow> [] | Some rows \<Rightarrow> rows)"

text \<open>The search never goes deeper than the number of candidate rows.\<close>

definition search_depth :: "(string \<times> 'a list) list \<Rightarrow> nat" where
  "search_depth cands = (\<Sum>c\<leftarrow>cands. length (snd c))"

section \<open>The mixed pool\<close>

definition target_rank_of :: "real option \<Rightarrow> string option \<Rightarrow> error + string" where
  "target_rank_of rtg rank =
     (if (case rtg of None \<Rightarrow> False | Some r \<Rightarrow> r \<le> 50) then Inr ''ARCHSOM''
      else (case rank of
              None \<Rightarrow> Inr (rank_from_rating (case rtg of None \<Rightarrow> 1000 | Some r \<Rightarrow> r))
            | Some r \<Rightarrow> if r = [] then Inr (rank_from_rating (case rtg of None \<Rightarrow> 1000 | Some r \<Rightarrow> r))
                        else normalise_rank r))"

definition slot_options :: "int \<Rightarrow> int \<Rightarrow> string \<Rightarrow> string \<Rightarrow> db \<Rightarrow> somsai_map list" where
  "slot_options ruleset variant target slt s =
     filter (\<lambda>row. m_slot row = slt \<and> m_ruleset row = ruleset \<and> m_variant row = variant
                 \<and> target \<in> set (eligible row)) (maps s)"

definition mixed_pool :: "int \<Rightarrow> int \<Rightarrow> real option \<Rightarrow> string option \<Rightarrow> (db, pool) op" where
  "mixed_pool ruleset variant rtg rank =
     bnd (lift (target_rank_of rtg rank)) (\<lambda>target.
     bnd (lift (rule_for target)) (\<lambda>rule.
     let names = map fst (rule_slots rule) in
     bnd (collect names (\<lambda>slt. gets (\<lambda>s. (slt, slot_options ruleset variant target slt s)))) (\<lambda>options.
     let missing_slots = map fst (filter (\<lambda>o1. snd o1 = []) options) in
     if missing_slots \<noteq> []
     then reject (''No suitable warehouse beatmaps for '' @ target @ '': '' @ py_join '', '' missing_slots) 409
     else
       bnd (collect options (\<lambda>(slt, rows). bnd (shuffle_rows rows) (\<lambda>r. ret (slt, r)))) (\<lambda>candidates.
       case assign_all (search_depth candidates) (lookup_rows candidates)
              (sort_key (\<lambda>slt. length (lookup_rows candidates slt)) (map fst candidates)) [] of
         None \<Rightarrow> reject (''Not enough unique beatmaps to build '' @ target @ '' without duplicates'') 409
       | Some own \<Rightarrow>
           bnd (collect own (\<lambda>(map_id, slt).
             bnd (rng_choice (filter (\<lambda>row. m_beatmap row = map_id) (lookup_rows options slt)))
               (\<lambda>row. ret (slt, row)))) (\<lambda>selected.
           bnd (collect names (\<lambda>slt. case map_of selected slt of
                                 None \<Rightarrow> throw KeyErr | Some row \<Rightarrow> ret (slot_payload row))) (\<lambda>slts.
             ret \<lparr>po_id = 0, po_revision = 1, po_name = ''SOMSAI '' @ target, po_rank = target,
               po_best_of = rule_best_of rule, po_bans = rule_bans rule, po_source = None, po_slots = slts,
               po_average_stars = of_int (py_round (100 *
                  ((\<Sum>x\<leftarrow>slts. difficulty_rating x) / real (length slts)))) / 100\<rparr>))))))"

end
