(* ===== verification/Dodge.thy ===== *)
theory Dodge
  imports Store
begin

text \<open>
  \<open>ranked_dodge_service.py\<close>: escalating penalties for leaving a ranked match before it starts.
  Levels 1 to 10 are fixed durations, 11 to 13 calendar months, 14 a permanent ban.

  Calendar arithmetic needs the civil date of an instant.  \<open>datetime\<close>'s proleptic Gregorian
  calendar is written out: \<open>days_before_year\<close> and \<open>ymd2ord\<close> are the standard library's functions
  and \<open>ord2ymd\<close> their inverse (proved below).  Instants are microseconds since 1970-01-01 UTC.
\<close>

section \<open>The calendar\<close>

definition is_leap :: "int \<Rightarrow> bool" where
  "is_leap y \<longleftrightarrow> y mod 4 = 0 \<and> (y mod 100 \<noteq> 0 \<or> y mod 400 = 0)"

definition days_in_month :: "int \<Rightarrow> int \<Rightarrow> int" where
  "days_in_month y m =
     (if m = 2 then (if is_leap y then 29 else 28)
      else if m \<in> {4, 6, 9, 11} then 30 else 31)"

definition days_before_year :: "int \<Rightarrow> int" where
  "days_before_year y = (let p = y - 1 in p * 365 + p div 4 - p div 100 + p div 400)"

definition days_before_month :: "int \<Rightarrow> int \<Rightarrow> int" where
  "days_before_month y m = (\<Sum>k\<leftarrow>[1..m - 1]. days_in_month y k)"

definition ymd2ord :: "int \<Rightarrow> int \<Rightarrow> int \<Rightarrow> int" where
  "ymd2ord y m d = days_before_year y + days_before_month y m + d"

text \<open>The year of an ordinal: the estimate \<open>n div 366 + 1\<close> is never too late.\<close>

lemma div_pred:
  assumes "0 < (k::int)"
  shows "y div k = (y - 1) div k + (if y mod k = 0 then 1 else 0)"
proof (cases "y mod k = 0")
  case True
  have "y = k * (y div k) + y mod k" by simp
  with True have "y - 1 = k * (y div k - 1) + (k - 1)" by (simp add: algebra_simps)
  then have "(y - 1) div k = y div k - 1" using int_div_pos_eq[of "y - 1" k "y div k - 1" "k - 1"] assms by simp
  with True show ?thesis by simp
next
  case False
  have "y - 1 = k * (y div k) + (y mod k - 1)" by simp
  moreover have "0 \<le> y mod k - 1" "y mod k - 1 < k"
    using False pos_mod_sign[OF assms, of y] pos_mod_bound[OF assms, of y] by linarith+
  ultimately have "(y - 1) div k = y div k" using int_div_pos_eq[of "y - 1" k "y div k" "y mod k - 1"] by simp
  with False show ?thesis by simp
qed

lemma leap_count:
  fixes a b c a' b' c' :: int
  assumes "a = a' + (if p4 then 1 else 0)" "b = b' + (if p100 then 1 else 0)" "c = c' + (if p400 then 1 else 0)"
    and "p100 \<Longrightarrow> p4" "p400 \<Longrightarrow> p100"
  shows "a - b + c = a' - b' + c' + (if p4 \<and> (\<not> p100 \<or> p400) then 1 else 0)"
  using assms by (cases p4; cases p100; cases p400) simp_all

lemma days_before_year_Suc:
  "days_before_year (y + 1) = days_before_year y + (if is_leap y then 366 else 365)"
proof -
  have a: "y mod 100 mod 4 = y mod 4" by (rule mod_mod_cancel) simp
  have b: "y mod 400 mod 100 = y mod 100" by (rule mod_mod_cancel) simp
  have c: "y mod 100 = 0 \<Longrightarrow> y mod 4 = 0" "y mod 400 = 0 \<Longrightarrow> y mod 100 = 0" using a b by (metis mod_0)+
  have "y div 4 - y div 100 + y div 400 = (y - 1) div 4 - (y - 1) div 100 + (y - 1) div 400 + (if is_leap y then 1 else 0)"
    unfolding is_leap_def by (rule leap_count; (rule div_pred)?; (rule c)?; simp?)
  then show ?thesis
    unfolding days_before_year_def Let_def add_diff_cancel_right'
    by (cases "is_leap y") (simp_all only: if_True if_False algebra_simps)
qed
function year_from :: "int \<Rightarrow> int \<Rightarrow> int" where
  "year_from n y = (if n \<le> days_before_year (y + 1) then y else year_from n (y + 1))"
  by auto
termination
  by (relation "measure (\<lambda>(n, y). nat (n - days_before_year (y + 1)))")
    (use days_before_year_Suc in \<open>auto split: if_splits\<close>)

declare year_from.simps [simp del]

definition year_of :: "int \<Rightarrow> int" where
  "year_of n = year_from n (n div 366 + 1)"

fun month_from :: "nat \<Rightarrow> int \<Rightarrow> int \<Rightarrow> int \<Rightarrow> int \<times> int" where
  "month_from 0 y m d = (m, d)"
| "month_from (Suc k) y m d =
     (if d \<le> days_in_month y m then (m, d) else month_from k y (m + 1) (d - days_in_month y m))"

definition ord2ymd :: "int \<Rightarrow> int \<times> int \<times> int" where
  "ord2ymd n = (let y = year_of n; (m, d) = month_from 11 y 1 (n - days_before_year y) in (y, m, d))"

definition DAY :: time where
  "DAY = seconds 86400"

definition EPOCH_ORDINAL :: int where
  "EPOCH_ORDINAL = 719163"

text \<open>\<open>now.replace(year=..., month=..., day=min(now.day, ...))\<close> of \<open>penalty_end\<close>.\<close>

definition add_months :: "time \<Rightarrow> int \<Rightarrow> time" where
  "add_months t months =
     (let (y0, m0, d0) = ord2ymd (t div DAY + EPOCH_ORDINAL);
          total = y0 * 12 + m0 - 1 + months;
          y = total div 12;
          m = total mod 12 + 1
      in (ymd2ord y m (min d0 (days_in_month y m)) - EPOCH_ORDINAL) * DAY + t mod DAY)"

section \<open>Penalties\<close>

definition PENALTY_MINUTES :: "int list" where
  "PENALTY_MINUTES = [5, 15, 30, 60, 90, 120, 1440, 10080, 20160, 43200]"

definition penalty_end :: "time \<Rightarrow> nat \<Rightarrow> error + time option" where
  "penalty_end t level =
     (if 1 \<le> level \<and> level \<le> length PENALTY_MINUTES
      then Inr (Some (t + minutes (PENALTY_MINUTES ! (level - 1))))
      else if level = 11 then Inr (Some (add_months t 3))
      else if level = 12 then Inr (Some (add_months t 6))
      else if level = 13 then Inr (Some (add_months t 12))
      else if level = 14 then Inr None
      else Inl (ValueErr ''Invalid Ranked dodge penalty level''))"

record dodge_state =
  ds_user :: int
  ds_level :: nat
  ds_expires :: "time option"
  ds_banned :: bool

definition status_for :: "penalty_row \<Rightarrow> dodge_state" where
  "status_for p = \<lparr>ds_user = pen_user p, ds_level = pen_level p, ds_expires = pen_expires p,
     ds_banned = pen_banned p\<rparr>"

text \<open>\<open>ORDER BY created_at DESC, level DESC, room_id DESC LIMIT 1\<close>\<close>

definition later_penalty :: "penalty_row \<Rightarrow> penalty_row \<Rightarrow> bool" where
  "later_penalty p q \<longleftrightarrow>
     pen_created q < pen_created p \<or> (pen_created p = pen_created q \<and>
       (pen_level q < pen_level p \<or> (pen_level p = pen_level q \<and> pen_room q < pen_room p)))"

fun first_penalty :: "penalty_row list \<Rightarrow> penalty_row option" where
  "first_penalty [] = None"
| "first_penalty (p # ps) =
     (case first_penalty ps of None \<Rightarrow> Some p | Some q \<Rightarrow> Some (if later_penalty q p then q else p))"

definition latest_penalty :: "int \<Rightarrow> db \<Rightarrow> penalty_row option" where
  "latest_penalty uid s = first_penalty (filter (\<lambda>p. pen_user p = uid) (penalties s))"

definition dodge_status :: "int \<Rightarrow> (db, dodge_state) op" where
  "dodge_status uid =
     bnd (gets (find_user uid)) (\<lambda>user.
     case user of
       None \<Rightarrow> throw (ValueErr ''Player not found'')
     | Some u \<Rightarrow>
         bnd (gets (latest_penalty uid)) (\<lambda>previous.
         let result = (case previous of
               Some p \<Rightarrow> status_for p
             | None \<Rightarrow> \<lparr>ds_user = uid, ds_level = 0, ds_expires = None, ds_banned = False\<rparr>)
         in ret (result\<lparr>ds_banned := \<not> u_active u\<rparr>)))"

text \<open>The next level: escalate unless 48 hours have passed since the previous ban ended.\<close>

definition next_level :: "time \<Rightarrow> penalty_row option \<Rightarrow> nat" where
  "next_level t previous =
     (case previous of
        None \<Rightarrow> 1
      | Some p \<Rightarrow>
          (case pen_expires p of
             None \<Rightarrow> min 14 (pen_level p + 1)
           | Some e \<Rightarrow> if t < e + minutes (48 * 60) then min 14 (pen_level p + 1) else 1))"

definition whole_seconds :: "time \<Rightarrow> time" where
  "whole_seconds t = t - t mod seconds 1"

definition put_user :: "user_row \<Rightarrow> db \<Rightarrow> db" where
  "put_user u s = s\<lparr>users := put_row u_id u (users s)\<rparr>"

definition register_dodge ::
  "int \<Rightarrow> int \<Rightarrow> bool \<Rightarrow> string option \<Rightarrow> (db, dodge_state) op" where
  "register_dodge room uid allow_missing_room audit_reason =
     bnd (gets (\<lambda>s. get_row rm_id room (rooms s))) (\<lambda>found_room.
     bnd (gets (find_user uid)) (\<lambda>user.
     bnd (gets (\<lambda>s. get_row pen_room room (penalties s))) (\<lambda>existing.
     case existing of
       Some p \<Rightarrow> ret (status_for p)
     | None \<Rightarrow>
        (case user of
           None \<Rightarrow> throw (ValueErr ''Player not found'')
         | Some u \<Rightarrow>
             if (case found_room of None \<Rightarrow> \<not> allow_missing_room | Some r \<Rightarrow> rm_type r \<noteq> RankedPlay)
             then throw (ValueErr ''Ranked room not found'')
             else
               bnd (gets (\<lambda>s. whole_seconds (now s))) (\<lambda>t.
               bnd (gets (latest_penalty uid)) (\<lambda>previous.
               let level = next_level t previous in
               bnd (lift (penalty_end t level)) (\<lambda>expires.
               let p = \<lparr>pen_room = room, pen_user = uid, pen_level = level, pen_created = t,
                        pen_expires = expires, pen_banned = (level = 14)\<rparr> in
               seq (modify (\<lambda>s. s\<lparr>penalties := put_row pen_room p (penalties s)\<rparr>))
              (seq (do_if (level = 14)
                     (modify (\<lambda>s. put_user (u\<lparr>u_active := False\<rparr>) s
                        \<lparr>credentials := filter (\<lambda>c. snd c \<noteq> uid) (credentials s)\<rparr>)))
              (seq (modify (\<lambda>s. s\<lparr>audit := audit s @ [\<lparr>au_target = uid,
                      au_reason = (case audit_reason of
                         Some r \<Rightarrow> if r = [] then ''Left Ranked room '' @ int_str room @ '' before confirming the initial hand'' else r
                       | None \<Rightarrow> ''Left Ranked room '' @ int_str room @ '' before confirming the initial hand''),
                      au_before_level = (case previous of None \<Rightarrow> 0 | Some q \<Rightarrow> pen_level q),
                      au_room = room, au_level = level\<rparr>]\<rparr>))
                   (ret (status_for p)))))))))))"

end
