(* ===== verification/Match.thy ===== *)
theory Match
  imports Party Pool Dodge
begin

text \<open>
  \<open>somsai_match_service.py\<close>: the tournament state machine.

  A Python \<open>match\<close> object is shared with the session, which writes it back whenever it changed.
  Each coroutine below takes the row and returns the row it leaves; \<open>save\<close> writes the row to the
  table at every point where the code assigns \<open>match.state\<close> (\<open>touch\<close>) or another attribute.
  \<open>find_slot\<close> returns a slot; assigning its keys in the copied state is \<open>set_slot\<close>.

  The random generator \<open>random.Random(seed)\<close> that breaks ties of a bot's draft is the parameter
  \<open>rng\<close>, from the seed and the call number to a float.
\<close>

section \<open>Rows and deadlines\<close>

definition PICK_SECONDS :: int where "PICK_SECONDS = 60"
definition READY_SECONDS :: int where "READY_SECONDS = 120"
definition RESULT_SECONDS :: int where "RESULT_SECONDS = 45"
definition MATCH_ACCEPT_SECONDS :: int where "MATCH_ACCEPT_SECONDS = 60"

definition deadline_in :: "int \<Rightarrow> (db, time option) op" where
  "deadline_in n = gets (\<lambda>s. Some (now s + seconds n))"

definition save :: "match_row \<Rightarrow> (db, match_row) op" where
  "save m = seq (modify (\<lambda>s. s\<lparr>matches := put_row match_id m (matches s)\<rparr>)) (ret m)"

definition touched :: "time \<Rightarrow> match_row \<Rightarrow> match_state \<Rightarrow> stage option \<Rightarrow> match_row" where
  "touched t m st stg = m\<lparr>state := st,
     stage := (case stg of None \<Rightarrow> stage m | Some g \<Rightarrow> g),
     revision := revision m + 1, updated_at := t\<rparr>"

definition touch :: "match_row \<Rightarrow> match_state \<Rightarrow> stage option \<Rightarrow> (db, match_row) op" where
  "touch m st stg = bnd (gets now) (\<lambda>t. save (touched t m st stg))"

definition find_slot :: "match_state \<Rightarrow> string \<Rightarrow> error + slot" where
  "find_slot st sid =
     (case find (\<lambda>x. slot_id x = sid) (slots st) of
        None \<Rightarrow> Inl (Http 404 ''Slot not found.'') | Some x \<Rightarrow> Inr x)"

definition set_slot :: "slot \<Rightarrow> match_state \<Rightarrow> match_state" where
  "set_slot x st = st\<lparr>slots := put_row slot_id x (slots st)\<rparr>"

definition find_current :: "match_state \<Rightarrow> error + slot" where
  "find_current st =
     (case current_slot st of None \<Rightarrow> Inl (Http 404 ''Slot not found.'') | Some sid \<Rightarrow> find_slot st sid)"

definition captain_of :: "match_state \<Rightarrow> nat \<Rightarrow> int option" where
  "captain_of st team = (if team < length (captains st) then captains st ! team else None)"

definition bot_ids :: "match_state \<Rightarrow> int list" where
  "bot_ids st = map bot_user (bots st)"

definition penalise_unaccepted :: "match_row \<Rightarrow> int list \<Rightarrow> (db, unit) op" where
  "penalise_unaccepted m uids =
     for_each uids (\<lambda>uid.
       do_if (uid \<in> set (members_of m))
        (let key = - (match_id m * 100 + int (index_of uid (members_of m)) + 1)
         in seq (register_dodge key uid True
                  (Some (''Declined or missed SOMSAI match '' @ int_str (match_id m) @ '' ready check'')))
                (ret ())))"

section \<open>Creating a match\<close>

definition set_match_pointer :: "int option \<Rightarrow> int \<Rightarrow> (db, unit) op" where
  "set_match_pointer mid uid = set_activity uid (\<lambda>a. a\<lparr>a_match := mid\<rparr>)"

definition opening_slot :: "slot \<Rightarrow> slot" where
  "opening_slot x = x\<lparr>status := (if slot_id x = ''TB'' then Tiebreaker else Available),
     s_title := s_name x, s_stars := difficulty_rating x\<rparr>"

definition opening_state ::
  "int list list \<Rightarrow> bot list \<Rightarrow> pool \<Rightarrow> int \<Rightarrow> nat \<Rightarrow> string list \<Rightarrow> time \<Rightarrow> bool \<Rightarrow> match_state" where
  "opening_state tms bts p mrating first_team resv t is_ranked =
     \<lparr>teams = tms, bots = bts, bot_scores = [],
      captains = map (\<lambda>team. case team of [] \<Rightarrow> None | u # _ \<Rightarrow> Some u) tms,
      wins = [0, 0], slots = map opening_slot (po_slots p), best_of = po_best_of p,
      bans_per_team = po_bans p, pool_name = po_name p, pool_revision = po_revision p,
      source_url = po_source p, pool_candidates = [], pool_votes = [], pool_selected = True,
      match_rating = mrating, pool_rank = Some (po_rank p), accepted = [], ready = [],
      bans = [0, 0], turn_team = first_team, next_pick_team = first_team,
      deadline = Some (t + seconds (if is_ranked then MATCH_ACCEPT_SECONDS else 1800)),
      is_private = False, arbitrary = False, history = [], reservations = resv,
      current_slot = None, playlist_item_id = 0, settled = False, match_winner = None,
      offline = [], connected = [], server_seen_at = t, results_notified = False,
      available = None, force_start = False, round_started_at = None, draft_history = [],
      rating_changes = [], impacts = [], reason = []\<rparr>"

definition put_playlist :: "playlist_row \<Rightarrow> db \<Rightarrow> db" where
  "put_playlist p s = s\<lparr>playlists := playlists s @ [p]\<rparr>"

text \<open>The room, its chat channel and the first playlist entry of a new match.\<close>

definition open_room :: "match_row \<Rightarrow> slot \<Rightarrow> (db, int) op" where
  "open_room m first =
     bnd fresh_id (\<lambda>rid.
     bnd fresh_id (\<lambda>channel.
       seq (modify (\<lambda>s. s\<lparr>rooms := put_row rm_id
              \<lparr>rm_id = rid, rm_name = ''SOMSAI '' @ int_str (match_id m) @ '' | '' @ match_name m,
               rm_type = TeamVersus, rm_host = BANCHOBOT_ID,
               rm_ends_at = Some (now s + seconds (3 * 3600)), rm_channel = Some channel\<rparr> (rooms s)\<rparr>))
      (seq (modify (put_playlist \<lparr>pl_key = (rid, 0), pl_beatmap = s_beatmap_id first, pl_ruleset = ruleset_id m,
              pl_owner = BANCHOBOT_ID, pl_required = s_mods first, pl_allowed = [], pl_order = 0\<rparr>))
           (ret rid))))"

definition match_title :: "string \<Rightarrow> string \<Rightarrow> string" where
  "match_title nm fmt = take 100 (if py_strip nm = [] then ''SOMSAI '' @ fmt else py_strip nm)"

definition create_match ::
  "int list list \<Rightarrow> string \<Rightarrow> int \<Rightarrow> int \<Rightarrow> string list \<Rightarrow> bool \<Rightarrow> int option \<Rightarrow> int option \<Rightarrow> string
   \<Rightarrow> int option \<Rightarrow> string option \<Rightarrow> bot list \<Rightarrow> (db, match_row) op" where
  "create_match tms fmt ruleset variant resv is_ranked owner pool_choice nm target_mmr target_rank bts =
     (if bts \<noteq> [] \<and> is_ranked then reject ''Bots are available only in custom matches.'' 422
      else case tms of
        (captain # teammates) # other_teams \<Rightarrow>
          let humans = filter (\<lambda>u. u \<notin> set (map bot_user bts)) (concat tms) in
          bnd (collect humans (\<lambda>uid. ensure_rating uid ruleset variant (if is_ranked then fmt else ''2v2''))) (\<lambda>rows.
          if rows = [] then throw (RuntimeErr ''division by zero'')
          else
            let ratings = map (\<lambda>r. rating (re_row r)) rows;
                average = sum_list ratings / real (length ratings);
                mrating = (case target_mmr of
                             None \<Rightarrow> average | Some t \<Rightarrow> if is_ranked then average else of_int t) in
            if pool_choice \<noteq> None
            then reject ''Selecting an individual tournament pool is no longer available. Use the automatic pool.'' 422
            else
              let prank = (if is_ranked then average_rank ratings
                           else case target_rank of
                                  None \<Rightarrow> rank_from_rating mrating
                                | Some r \<Rightarrow> if r = [] then rank_from_rating mrating else r) in
              bnd (mixed_pool ruleset variant (Some mrating) (Some prank)) (\<lambda>p.
              bnd (randbelow 2) (\<lambda>first_team.
              bnd (gets now) (\<lambda>t.
              bnd fresh_id (\<lambda>mid.
              let m = \<lparr>match_id = mid, match_name = match_title nm fmt, match_format = fmt,
                       ruleset_id = ruleset, variant_id = variant, ranked = is_ranked,
                       owner_id = (case owner of None \<Rightarrow> captain | Some o1 \<Rightarrow> o1),
                       match_pool_id = po_id p, room_id = None, stage = Waiting, revision = 1,
                       state = opening_state tms bts p (py_round mrating) first_team resv t is_ranked,
                       updated_at = t, ended_at = None\<rparr> in
              bnd (save m) (\<lambda>_.
              case slots (state m) of
                [] \<Rightarrow> throw KeyErr
              | first # _ \<Rightarrow>
                  bnd (open_room m first) (\<lambda>rid.
                  bnd (save (m\<lparr>room_id := Some rid\<rparr>)) (\<lambda>m'.
                    seq (for_each (members_of m') (set_match_pointer (Some mid))) (ret m')))))))))
      | _ \<Rightarrow> throw KeyErr)"

section \<open>Settlement and the end of a match\<close>

definition rating_key :: "match_row \<Rightarrow> int \<Rightarrow> int \<times> int \<times> int \<times> string" where
  "rating_key m uid = (uid, ruleset_id m, variant_id m, match_format m)"

definition settle_member ::
  "match_row \<Rightarrow> real \<Rightarrow> (int \<times> int) list \<Rightarrow> nat option \<Rightarrow> nat \<times> int \<Rightarrow> (db, rating_change) op" where
  "settle_member m expected imps w tu =
     (let (team_id, uid) = tu in
      bnd (gets (\<lambda>s. get_row re_key (rating_key m uid) (rating_entries s))) (\<lambda>found.
      case found of
        None \<Rightarrow> throw KeyErr
      | Some re \<Rightarrow>
          let before = re_row re;
              after = settle_row (pool_rank (state m)) expected team_id w before
          in seq (modify (\<lambda>s. s\<lparr>rating_entries := put_row re_key (re\<lparr>re_row := after\<rparr>) (rating_entries s)\<rparr>))
              (ret \<lparr>rc_user = uid, rc_before = py_round (rating before), rc_after = py_round (rating after),
                    rc_delta = last_delta after,
                    rc_impact = (case map_of imps uid of None \<Rightarrow> 0 | Some i \<Rightarrow> i),
                    rc_gap = of_int (py_round (100 * pool_gap (pool_rank (state m)) (rating before))) / 100\<rparr>)))"

definition settle_ratings :: "match_row \<Rightarrow> int list list \<Rightarrow> nat option \<Rightarrow> (db, rating_change list) op" where
  "settle_ratings m tms w =
     (let imps = performance_impacts tms (history (state m)) w in
      bnd (collect tms (\<lambda>team. collect team (\<lambda>uid.
             bnd (ensure_rating uid (ruleset_id m) (variant_id m) (match_format m))
               (\<lambda>re. ret (rating (re_row re)))))) (\<lambda>rows.
      if [] \<in> set rows then throw (RuntimeErr ''division by zero'')
      else case map team_average rows of
             a0 # a1 # _ \<Rightarrow>
               collect (concat (map (\<lambda>(team_id, mems). map (\<lambda>uid. (team_id, uid)) mems) (enumerate 0 tms)))
                 (settle_member m (expected_score a0 a1) imps w)
           | _ \<Rightarrow> throw KeyErr))"

definition close_room :: "int option \<Rightarrow> (db, unit) op" where
  "close_room rid =
     modify (\<lambda>s. case rid of
        None \<Rightarrow> s
      | Some k \<Rightarrow> (case get_row rm_id k (rooms s) of
            None \<Rightarrow> s
          | Some r \<Rightarrow> s\<lparr>rooms := put_row rm_id (r\<lparr>rm_ends_at := Some (now s)\<rparr>) (rooms s)\<rparr>))"

definition finish_match :: "match_row \<Rightarrow> nat option \<Rightarrow> bool \<Rightarrow> string \<Rightarrow> (db, match_row) op" where
  "finish_match m w cancelled why =
     (if stage m \<in> FINAL_STAGES then ret m
      else
        let st = (state m)\<lparr>match_winner := w, reason := why, deadline := None, settled := True\<rparr> in
        bnd (touch m st (Some (if cancelled then Cancelled else Ended))) (\<lambda>m1.
        bnd (gets now) (\<lambda>t.
        bnd (save (m1\<lparr>ended_at := Some t\<rparr>)) (\<lambda>m2.
        seq (close_room (room_id m2))
       (bnd (if ranked m2 \<and> \<not> cancelled then settle_ratings m2 (teams st) w else ret []) (\<lambda>changes.
        bnd (save (m2\<lparr>state := st\<lparr>rating_changes := changes,
                impacts := performance_impacts (teams st) (history st) w\<rparr>\<rparr>)) (\<lambda>m3.
        seq (for_each (reservations st) release_reservation)
       (seq (for_each (members_of m3) (set_match_pointer (Some (match_id m3))))
            (ret m3)))))))))"

section \<open>Draft\<close>

definition drafting_stage :: "match_state \<Rightarrow> stage" where
  "drafting_stage st = (if bans_per_team st \<noteq> 0 then Banning else Picking)"

definition start_draft :: "match_row \<Rightarrow> (db, match_row) op" where
  "start_draft m =
     bnd (gets now) (\<lambda>t.
     bnd (deadline_in PICK_SECONDS) (\<lambda>d.
     let st = (if stage m = Waiting then (state m)\<lparr>server_seen_at := t\<rparr> else state m)\<lparr>deadline := d\<rparr> in
     if \<not> pool_selected st then touch m st (Some PoolSelect)
     else touch m (st\<lparr>turn_team := next_pick_team st\<rparr>) (Some (drafting_stage st))))"

definition start_filled_custom :: "match_row \<Rightarrow> (db, bool \<times> match_row) op" where
  "start_filled_custom m =
     (if ranked m \<or> stage m \<noteq> Waiting \<or> list_ex (\<lambda>team. length team \<noteq> team_size (match_format m)) (teams (state m))
      then ret (False, m)
      else bnd (start_draft m) (\<lambda>m'. ret (True, m')))"

definition finish_pool_vote :: "match_row \<Rightarrow> (db, match_row) op" where
  "finish_pool_vote m =
     (let st = state m; votes = map snd (pool_votes st) in
      bnd (rng_choice (if votes = [] then map pc_id (pool_candidates st) else votes)) (\<lambda>selected_id.
      case find (\<lambda>c. pc_id c = selected_id) (pool_candidates st) of
        None \<Rightarrow> throw KeyErr
      | Some c \<Rightarrow>
          bnd (touch (m\<lparr>match_pool_id := selected_id\<rparr>)
                (st\<lparr>pool_selected := True, pool_name := pc_name c, pool_revision := pc_revision c,
                    source_url := pc_source_url c, slots := pc_slots c, best_of := pc_best_of c,
                    bans_per_team := pc_bans_per_team c\<rparr>) None) (\<lambda>m'.
            start_draft m')))"

definition UNAVAILABLE_BEATMAP :: string where
  "UNAVAILABLE_BEATMAP = ''A pool beatmap is no longer available. The match was cancelled without a rating change.''"

definition picked_state :: "match_state \<Rightarrow> slot \<Rightarrow> beatmap_row \<Rightarrow> time option \<Rightarrow> match_state" where
  "picked_state st x b d =
     (set_slot (x\<lparr>checksum := bm_checksum b, status := Picked,
                  selected_by_team := (if slot_id x \<noteq> ''TB'' then Some (turn_team st) else None)\<rparr>) st)
       \<lparr>current_slot := Some (slot_id x), playlist_item_id := playlist_item_id st + 1,
        ready := bot_ids st, available := Some [], force_start := False, bot_scores := [],
        deadline := d, results_notified := False, round_started_at := None,
        next_pick_team := 1 - turn_team st\<rparr>"

definition FREE_MODS :: "api_mod list" where
  "FREE_MODS = map (\<lambda>a. \<lparr>acronym = a, settings = []\<rparr>) [''EZ'', ''HD'', ''HR'']"

definition select_map :: "match_row \<Rightarrow> string \<Rightarrow> (db, match_row) op" where
  "select_map m sid =
     bnd (lift (find_slot (state m) sid)) (\<lambda>x.
     bnd (gets (\<lambda>s. get_row bm_id (s_beatmap_id x) (beatmaps s))) (\<lambda>found.
     case found of
       None \<Rightarrow> finish_match m None True UNAVAILABLE_BEATMAP
     | Some b \<Rightarrow>
         if bm_deleted b then finish_match m None True UNAVAILABLE_BEATMAP
         else
           bnd (deadline_in READY_SECONDS) (\<lambda>d.
           case room_id m of
             None \<Rightarrow> throw (RuntimeErr ''playlist item without a room'')
           | Some rid \<Rightarrow>
               let st = picked_state (state m) x b d in
               seq (modify (put_playlist \<lparr>pl_key = (rid, playlist_item_id st), pl_beatmap = s_beatmap_id x,
                      pl_ruleset = ruleset_id m, pl_owner = BANCHOBOT_ID, pl_required = s_mods x,
                      pl_allowed = (if category x \<in> {''FM'', ''TB''} then FREE_MODS else []),
                      pl_order = playlist_item_id st\<rparr>))
                   (touch m st (Some Ready)))))"

definition banned_state :: "match_state \<Rightarrow> slot \<Rightarrow> time option \<Rightarrow> match_state" where
  "banned_state st x d =
     (let team = turn_team st;
          bs = (bans st)[team := bans st ! team + 1];
          over = Min (set bs) \<ge> nat (bans_per_team st)
      in (set_slot (x\<lparr>status := Banned, selected_by_team := Some team\<rparr>) st)
           \<lparr>draft_history := draft_history st @ [\<lparr>d_action = ''ban'', d_slot_id = slot_id x, d_team = team\<rparr>],
            bans := bs,
            turn_team := (if over then next_pick_team st else 1 - team),
            deadline := d\<rparr>)"

definition bans_over :: "match_state \<Rightarrow> bool" where
  "bans_over st \<longleftrightarrow> Min (set (bans st)) \<ge> nat (bans_per_team st)"

definition draft_action :: "match_row \<Rightarrow> int option \<Rightarrow> string \<Rightarrow> string \<Rightarrow> (db, match_row) op" where
  "draft_action m uid action sid =
     (let st = state m; team = turn_team st in
      if captain_of st team \<noteq> uid then reject ''It is the other team's captain's turn.'' 403
      else if (action = ''ban'' \<and> stage m \<noteq> Banning) \<or> (action = ''pick'' \<and> stage m \<noteq> Picking)
      then reject ''The draft phase has already changed.'' 409
      else
        bnd (lift (find_slot st sid)) (\<lambda>x.
        if status x \<noteq> Available then reject ''This slot is no longer available.'' 409
        else if action = ''ban'' then
          bnd (deadline_in PICK_SECONDS) (\<lambda>d.
          let st' = banned_state st x d in
          touch m st' (Some (if bans_over st' then Picking else Banning)))
        else select_map m sid))"

section \<open>Rounds\<close>

definition THREE_DRAWS :: string where
  "THREE_DRAWS = ''Three draws: the match ended in a draw.''"

definition round_entry ::
  "match_state \<Rightarrow> slot \<Rightarrow> nat option \<Rightarrow> int list \<Rightarrow> player_result list \<Rightarrow> bool \<Rightarrow> string \<Rightarrow> round_result" where
  "round_entry st x w totals ps forf why =
     \<lparr>round_no = length (history st) + 1, r_slot_id = slot_id x, r_item_id = playlist_item_id st,
      team_scores = totals, winner_team_id = w, players = ps, picked_by_team = selected_by_team x,
      forfeit = forf, r_reason = why\<rparr>"

definition played_state :: "match_state \<Rightarrow> slot \<Rightarrow> round_result \<Rightarrow> match_state" where
  "played_state st x r =
     (set_slot (x\<lparr>status := Played\<rparr>) st)
       \<lparr>history := history st @ [r],
        wins := (case winner_team_id r of None \<Rightarrow> wins st | Some w \<Rightarrow> (wins st)[w := wins st ! w + 1])\<rparr>"

definition win_target :: "match_state \<Rightarrow> nat" where
  "win_target st = nat ((best_of st + 1) div 2)"

definition undecided_rounds :: "match_state \<Rightarrow> nat" where
  "undecided_rounds st = length (filter (\<lambda>r. winner_team_id r = None) (history st))"

definition complete_round ::
  "match_row \<Rightarrow> nat option \<Rightarrow> int list \<Rightarrow> player_result list \<Rightarrow> bool \<Rightarrow> string \<Rightarrow> (db, match_row) op" where
  "complete_round m w totals ps forf why =
     bnd (lift (find_current (state m))) (\<lambda>x.
     let st = played_state (state m) x (round_entry (state m) x w totals ps forf why) in
     bnd (touch m st None) (\<lambda>m1.
     if Max (set (wins st)) \<ge> win_target st then finish_match m1 w False []
     else if w = None \<and> \<not> forf then
       (if undecided_rounds st \<ge> 3 then finish_match m1 None False THREE_DRAWS
        else select_map m1 (slot_id x))
     else if int (Min (set (wins st))) = best_of st div 2 then select_map m1 ''TB''
     else
       bnd (deadline_in PICK_SECONDS) (\<lambda>d.
         touch m1 (st\<lparr>turn_team := next_pick_team st, deadline := d\<rparr>) (Some Picking))))"

definition round_scores :: "match_row \<Rightarrow> slot \<Rightarrow> db \<Rightarrow> score_row list" where
  "round_scores m x s =
     sort_key sc_id (filter (\<lambda>sc. sc_room sc = room_id m \<and> sc_room sc \<noteq> None
        \<and> sc_item sc = Some (playlist_item_id (state m))
        \<and> sc_user sc \<in> set (members_of m) \<and> sc_beatmap sc = s_beatmap_id x
        \<and> sc_md5 sc = checksum x \<and> sc_mode sc = ruleset_id m) (scores s))"

text \<open>The first submission of each member counts.\<close>

definition score_of :: "score_row list \<Rightarrow> int \<Rightarrow> score_row option" where
  "score_of scs uid = find (\<lambda>sc. sc_user sc = uid) scs"

definition player_entry :: "match_state \<Rightarrow> score_row list \<Rightarrow> int \<Rightarrow> player_result" where
  "player_entry st scs uid =
     (let own = score_of scs uid; b = map_of (bot_scores st) uid in
      \<lparr>user_id = uid,
       score = (case b of Some x \<Rightarrow> b_score x
                | None \<Rightarrow> (case own of Some sc \<Rightarrow> max 0 (total_score sc) | None \<Rightarrow> 0)),
       accuracy = (case b of Some x \<Rightarrow> b_accuracy x
                   | None \<Rightarrow> (case own of Some sc \<Rightarrow> sc_accuracy sc | None \<Rightarrow> 0)),
       score_id = map_option sc_id own,
       missing = (own = None \<and> b = None),
       is_bot = (uid \<in> set (bot_ids st)),
       max_combo = (case b of Some x \<Rightarrow> b_max_combo x
                    | None \<Rightarrow> (case own of Some sc \<Rightarrow> sc_max_combo sc | None \<Rightarrow> 0)),
       statistics = (case b of Some x \<Rightarrow> b_statistics x
                     | None \<Rightarrow> (case own of Some sc \<Rightarrow> sc_counts sc | None \<Rightarrow> [])),
       maximum_statistics = (case b of Some x \<Rightarrow> b_maximum_statistics x | None \<Rightarrow> []),
       p_rank = (case b of Some x \<Rightarrow> b_rank x
                 | None \<Rightarrow> (case own of Some sc \<Rightarrow> sc_rank sc | None \<Rightarrow> ''F'')),
       passed = (case b of Some x \<Rightarrow> b_passed x
                 | None \<Rightarrow> (case own of Some sc \<Rightarrow> sc_passed sc | None \<Rightarrow> False))\<rparr>)"

definition team_total :: "player_result list \<Rightarrow> int list \<Rightarrow> int" where
  "team_total ps team = (\<Sum>p\<leftarrow>filter (\<lambda>p. user_id p \<in> set team) ps. score p)"

definition round_winner :: "int list \<Rightarrow> nat option" where
  "round_winner totals =
     (if totals ! 0 > totals ! 1 then Some 0 else if totals ! 1 > totals ! 0 then Some 1 else None)"

definition settle_round :: "match_row \<Rightarrow> bool \<Rightarrow> (db, bool \<times> match_row) op" where
  "settle_round m force =
     (if stage m \<noteq> Results then ret (False, m)
      else
        let st = state m in
        bnd (lift (find_current st)) (\<lambda>x.
        if ruleset_id m \<notin> {0..<4} then throw KeyErr
        else
          bnd (gets (round_scores m x)) (\<lambda>scs.
          if \<not> force \<and> set (map sc_user scs) \<union> set (map fst (bot_scores st)) \<noteq> set (members_of m)
          then ret (False, m)
          else
            let ps = map (player_entry st scs) (members_of m);
                totals = map (team_total ps) (teams st) in
            if length totals < 2 then throw KeyErr
            else bnd (complete_round m (round_winner totals) totals ps False []) (\<lambda>m'. ret (True, m')))))"

section \<open>Player actions\<close>

definition team_index :: "match_row \<Rightarrow> int \<Rightarrow> nat" where
  "team_index m uid = length (takeWhile (\<lambda>team. uid \<notin> set team) (teams (state m)))"

definition pool_vote :: "match_row \<Rightarrow> int \<Rightarrow> int option \<Rightarrow> (db, match_row) op" where
  "pool_vote m uid pool =
     (let st = state m in
      if stage m \<noteq> PoolSelect \<or> Some uid \<notin> set (captains st)
      then reject ''Captains select the pool during voting.'' 403
      else case pool of
        None \<Rightarrow> reject ''Select one of the suggested tournaments.'' 422
      | Some pid \<Rightarrow>
          if pid \<notin> set (map pc_id (pool_candidates st))
          then reject ''Select one of the suggested tournaments.'' 422
          else
            let votes = put_key (index_of (Some uid) (captains st)) pid (pool_votes st) in
            bnd (touch m (st\<lparr>pool_votes := votes\<rparr>) None) (\<lambda>m'.
            if length votes = 2 then finish_pool_vote m' else ret m'))"

definition custom_start :: "match_row \<Rightarrow> int \<Rightarrow> (db, match_row) op" where
  "custom_start m uid =
     (if ranked m \<or> owner_id m \<noteq> uid then reject ''Only its creator can start this custom match.'' 403
      else if stage m \<noteq> Waiting then ret m
      else if arbitrary (state m) then
        (if [] \<in> set (teams (state m)) then reject ''Each team needs at least one player.'' 409 else start_draft m)
      else if list_ex (\<lambda>team. length team \<noteq> team_size (match_format m)) (teams (state m))
      then reject ''Fill both teams first.'' 409
      else start_draft m)"

definition ready_action :: "match_row \<Rightarrow> int \<Rightarrow> string \<Rightarrow> (db, match_row) op" where
  "ready_action m uid action =
     (let st = state m;
          upd = (\<lambda>xs. sorted_set (if action = ''ready'' then uid # xs else filter (\<lambda>u. u \<noteq> uid) xs)) in
      if stage m \<notin> {Waiting, Ready} then reject ''You cannot confirm readiness right now.'' 409
      else if action = ''unready'' \<and> stage m \<noteq> Ready
      then reject ''Readiness can only be cancelled before a beatmap.'' 409
      else
        let st' = (if stage m = Waiting then st\<lparr>accepted := upd (accepted st)\<rparr> else st\<lparr>ready := upd (ready st)\<rparr>) in
        bnd (touch m st' None) (\<lambda>m'.
        if ranked m' \<and> stage m' = Waiting \<and> set (accepted st') = set (members_of m')
        then start_draft m' else ret m'))"

definition match_action ::
  "match_row \<Rightarrow> int \<Rightarrow> string \<Rightarrow> string option \<Rightarrow> nat option \<Rightarrow> int option \<Rightarrow> (db, match_row) op" where
  "match_action m uid action slot_choice expected_revision pool =
     (if uid \<notin> set (members_of m) then reject ''You are not participating in this match.'' 403
      else if stage m \<in> FINAL_STAGES then
        (if action = ''leave_match'' then seq (set_match_pointer None uid) (ret m)
         else reject ''The match has already ended.'' 409)
      else if expected_revision \<noteq> None \<and> expected_revision \<noteq> Some (revision m)
      then reject ''The match state has changed. Try again.'' 409
      else if action = ''pool_vote'' then pool_vote m uid pool
      else if action \<in> {''ban'', ''pick''}
      then draft_action m (Some uid) action (case slot_choice of None \<Rightarrow> [] | Some x \<Rightarrow> x)
      else if action = ''leave_match'' then
        finish_match m (Some (1 - team_index m uid)) (stage m = Waiting) ''A player left the match.''
      else if action = ''custom_start'' then custom_start m uid
      else if action = ''decline'' then
        (if \<not> ranked m \<or> stage m \<noteq> Waiting then reject ''This match can no longer be declined.'' 409
         else seq (penalise_unaccepted m [uid])
                  (finish_match m None True ''A player declined the ready check.''))
      else if action \<in> {''ready'', ''unready''} then ready_action m uid action
      else reject ''Unknown action.'' 422)"

section \<open>The payload\<close>

record player_view =
  vw_user :: user_payload_row
  vw_rating :: real
  vw_ready :: bool
  vw_accepted :: bool
  vw_bot :: "(string \<times> string \<times> int option \<times> string \<times> int option) option"

record match_view =
  mv_row :: match_row
  mv_with_bots :: bool
  mv_teams :: "(nat \<times> string \<times> int option \<times> player_view list) list"
  mv_turn_user :: "int option"
  mv_candidates :: "(int \<times> nat) list"
  mv_start_allowed :: bool

definition skillset_name :: "ai_profile \<Rightarrow> string" where
  "skillset_name a =
     py_title (py_replace ''_'' '' '' (if archetype a = [] then ''unknown'' else archetype a))
     @ (case weakness a of None \<Rightarrow> [] | Some w \<Rightarrow> '' / '' @ py_title (py_replace ''_'' '' '' w))"

definition bot_view :: "bot \<Rightarrow> string \<times> string \<times> int option \<times> string \<times> int option" where
  "bot_view b = (bot_level b, skillset_name (bot_ai b), official_id b, bot_username b, official_rank b)"

definition player_payload :: "match_row \<Rightarrow> int \<Rightarrow> (db, player_view) op" where
  "player_payload m uid =
     bnd (user_payload uid) (\<lambda>u.
     bnd (ensure_rating uid (ruleset_id m) (variant_id m) (if ranked m then match_format m else ''2v2'')) (\<lambda>re.
       ret \<lparr>vw_user = u, vw_rating = rating (re_row re), vw_ready = (uid \<in> set (ready (state m))),
            vw_accepted = (uid \<in> set (accepted (state m))),
            vw_bot = map_option bot_view (find (\<lambda>b. bot_user b = uid) (bots (state m)))\<rparr>))"

text \<open>Whether the game server may start the current beatmap.\<close>

definition start_allowed :: "match_row \<Rightarrow> bool" where
  "start_allowed m \<longleftrightarrow>
     stage m = Ready
     \<and> (force_start (state m) \<or> set (ready (state m)) = set (members_of m))
     \<and> set (case available (state m) of None \<Rightarrow> ready (state m) | Some a \<Rightarrow> a) = set (members_of m)"

text \<open>
  The payload of the row: the computed keys, next to the row whose columns and state it copies.
\<close>

definition match_payload :: "match_row \<Rightarrow> (db, match_view) op" where
  "match_payload m =
     bnd (collect (enumerate 0 (teams (state m))) (\<lambda>(team_id, mems).
            bnd (collect mems (player_payload m)) (\<lambda>ps.
              ret (team_id, if team_id = 0 then ''Red Team'' else ''Blue Team'',
                   captain_of (state m) team_id, ps)))) (\<lambda>team_views.
       ret \<lparr>mv_row = m, mv_with_bots = (bots (state m) \<noteq> []), mv_teams = team_views,
            mv_turn_user = (if stage m \<in> {Banning, Picking} then captain_of (state m) (turn_team (state m)) else None),
            mv_candidates = map (\<lambda>c. (pc_id c, length (pc_slots c))) (pool_candidates (state m)),
            mv_start_allowed = start_allowed m\<rparr>)"

section \<open>Events of the game server\<close>

definition NOT_STARTED :: string where
  "NOT_STARTED = ''The game server could not start the beatmap. The round was skipped without points.''"

text \<open>Offline deadlines: cleared for connected members, set once for the others.\<close>

definition note_offline :: "time \<Rightarrow> bool \<Rightarrow> int list \<Rightarrow> int \<Rightarrow> (int \<times> time) list \<Rightarrow> (int \<times> time) list" where
  "note_offline t waiting conn uid off =
     (if uid \<in> set conn then del_key uid off
      else if \<not> waiting \<and> \<not> has_key uid off then put_key uid (t + seconds 120) off else off)"

definition pulse_state ::
  "match_row \<Rightarrow> time \<Rightarrow> int \<Rightarrow> int list \<Rightarrow> int list option \<Rightarrow> int list option \<Rightarrow> match_state" where
  "pulse_state m t item conn rdy avail =
     (let st = state m;
          present = (case avail of Some a \<Rightarrow> a | None \<Rightarrow> (case rdy of Some r \<Rightarrow> r | None \<Rightarrow> []))
      in st\<lparr>connected := filter (\<lambda>u. u \<in> set (members_of m)) conn,
            server_seen_at := t,
            available := (if item = playlist_item_id st
                          then Some (filter (\<lambda>u. u \<in> set conn \<and> u \<in> set (members_of m)) present)
                          else available st),
            offline := fold (note_offline t (stage m = Waiting) conn) (members_of m) (offline st)\<rparr>)"

definition start_agreed :: "match_row \<Rightarrow> match_state \<Rightarrow> int list \<Rightarrow> int list option \<Rightarrow> bool" where
  "start_agreed m st conn rdy \<longleftrightarrow>
     set conn = set (members_of m)
     \<and> set (case rdy of Some r \<Rightarrow> r | None \<Rightarrow> []) = set (members_of m)
     \<and> (force_start st \<or> set (ready st) = set (members_of m))
     \<and> (case available st of None \<Rightarrow> False | Some a \<Rightarrow> set a = set (members_of m))"

definition room_step ::
  "match_row \<Rightarrow> string \<Rightarrow> int \<Rightarrow> int list \<Rightarrow> int list option \<Rightarrow> int list option \<Rightarrow> (db, match_row) op" where
  "room_step m event item conn rdy avail =
     (if stage m \<in> FINAL_STAGES then ret m
      else if event = ''aborted'' \<and> stage m \<in> {Ready, Playing, Results} \<and> item = playlist_item_id (state m)
      then complete_round m None [0, 0] [] True NOT_STARTED
      else
        bnd (gets now) (\<lambda>t.
        let st = pulse_state m t item conn rdy avail in
        if event = ''started'' \<and> stage m = Ready \<and> item = playlist_item_id st then
          (if \<not> start_agreed m st conn rdy then reject ''Not all participants are ready.'' 409
           else touch m (st\<lparr>round_started_at := Some t, deadline := Some (t + seconds 1800)\<rparr>) (Some Playing))
        else if event = ''completed'' \<and> stage m = Playing \<and> item = playlist_item_id st
        then touch m (st\<lparr>results_notified := True, deadline := Some (t + seconds RESULT_SECONDS)\<rparr>) (Some Results)
        else save (m\<lparr>state := st\<rparr>)))"

definition room_event ::
  "int \<Rightarrow> string \<Rightarrow> int \<Rightarrow> int list \<Rightarrow> int list option \<Rightarrow> int list option \<Rightarrow> (db, match_view option) op" where
  "room_event room event item conn rdy avail =
     bnd (gets (\<lambda>s. find (\<lambda>m. room_id m = Some room) (matches s))) (\<lambda>found.
     case found of
       None \<Rightarrow> ret None
     | Some m \<Rightarrow>
         bnd (room_step m event item conn rdy avail) (\<lambda>m'.
         bnd (match_payload m') (\<lambda>v. ret (Some v))))"

section \<open>The periodic tick\<close>

definition offline_teams :: "match_row \<Rightarrow> time \<Rightarrow> nat list" where
  "offline_teams m t =
     map fst (filter (\<lambda>(i, team). list_ex (\<lambda>u. case map_of (offline (state m)) u of
                                               None \<Rightarrow> False | Some d \<Rightarrow> d \<le> t) team)
              (enumerate 0 (teams (state m))))"

definition missing_teams :: "match_row \<Rightarrow> nat list" where
  "missing_teams m =
     (let st = state m;
          present = set (case available st of None \<Rightarrow> ready st | Some a \<Rightarrow> a) \<inter> set (connected st)
      in map fst (filter (\<lambda>(i, team). \<not> set team \<subseteq> present) (enumerate 0 (teams st))))"

definition open_slots :: "match_state \<Rightarrow> slot list" where
  "open_slots st = filter (\<lambda>x. status x = Available) (slots st)"

definition expired :: "match_row \<Rightarrow> time \<Rightarrow> bool" where
  "expired m t \<longleftrightarrow> (case deadline (state m) of None \<Rightarrow> False | Some d \<Rightarrow> d \<le> t)"

definition draft_verb :: "match_row \<Rightarrow> string" where
  "draft_verb m = (if stage m = Banning then ''ban'' else ''pick'')"

text \<open>A bot captain whose turn it is, two seconds after the last change.\<close>

definition bot_turn :: "match_row \<Rightarrow> time \<Rightarrow> bool" where
  "bot_turn m t \<longleftrightarrow> stage m \<in> {Banning, Picking}
     \<and> captain_of (state m) (turn_team (state m)) \<in> Some ` set (bot_ids (state m))
     \<and> updated_at m \<le> t - seconds 2"

definition bot_draft :: "(int \<Rightarrow> nat \<Rightarrow> real) \<Rightarrow> match_row \<Rightarrow> (db, match_row) op" where
  "bot_draft rng m =
     (let st = state m; team = turn_team st in
      bnd (lift (choose_draft_slot (rng (match_id m * 10000 + int (revision m)))
             (filter (\<lambda>b. bot_user b \<in> set (teams st ! team)) (bots st)) (open_slots st) (stage m = Banning)))
        (\<lambda>x. draft_action m (captain_of st team) (draft_verb m) (slot_id x)))"

definition ready_timeout :: "match_row \<Rightarrow> (db, match_row) op" where
  "ready_timeout m =
     (let st = state m; absent = missing_teams m in
      if absent \<noteq> [] \<or> force_start st then
        bnd (if absent = [] then ret ''The game server did not confirm the start. The round was skipped without points.''
             else bnd (lift (find_current st)) (\<lambda>x.
               ret (if category x = ''FM''
                    then ''The team did not satisfy the FreeMod requirements before the timer expired: technical round loss.''
                    else ''The beatmap was not downloaded in time: technical round loss.''))) (\<lambda>why.
          complete_round m (case absent of [i] \<Rightarrow> Some (1 - i) | _ \<Rightarrow> None) [0, 0] [] True why)
      else
        bnd (deadline_in 30) (\<lambda>d. touch m (st\<lparr>force_start := True, deadline := d\<rparr>) None))"

definition expired_step :: "match_row \<Rightarrow> (db, match_row) op" where
  "expired_step m =
     (let st = state m in
      case stage m of
        Waiting \<Rightarrow>
          seq (do_if (ranked m) (penalise_unaccepted m (filter (\<lambda>u. u \<notin> set (accepted st)) (members_of m))))
              (finish_match m None True ''Not all players accepted the match.'')
      | PoolSelect \<Rightarrow> finish_pool_vote m
      | Ready \<Rightarrow> ready_timeout m
      | Playing \<Rightarrow> finish_match m None True ''The match did not finish in time. Rating was not changed.''
      | Banning \<Rightarrow>
          (case open_slots st of
             [] \<Rightarrow> finish_match m None True ''The pool has no available beatmaps left.''
           | x # _ \<Rightarrow> draft_action m (captain_of st (turn_team st)) ''ban'' (slot_id x))
      | Picking \<Rightarrow>
          (case open_slots st of
             [] \<Rightarrow> finish_match m None True ''The pool has no available beatmaps left.''
           | x # _ \<Rightarrow> draft_action m (captain_of st (turn_team st)) ''pick'' (slot_id x))
      | _ \<Rightarrow> ret m)"

definition tick_match :: "(int \<Rightarrow> nat \<Rightarrow> real) \<Rightarrow> match_row \<Rightarrow> (db, match_row) op" where
  "tick_match rng m =
     (if stage m \<in> FINAL_STAGES then ret m
      else
        bnd (gets now) (\<lambda>t.
        let st = state m; gone = offline_teams m t in
        if stage m \<noteq> Waiting \<and> server_seen_at st < t - seconds 90
        then finish_match m None True ''Connection to the game server was lost. Rating was not changed.''
        else if gone \<noteq> []
        then finish_match m (case gone of [i] \<Rightarrow> Some (1 - i) | _ \<Rightarrow> None) (length gone = 2)
               ''The reconnection period expired.''
        else if bot_turn m t \<and> open_slots st \<noteq> [] then bot_draft rng m
        else if stage m = Results then bnd (settle_round m (expired m t)) (\<lambda>r. ret (snd r))
        else if expired m t then expired_step m
        else ret m))"

section \<open>Matches and the invariants of the session\<close>

lemma keeps_stage:
  assumes "keeps I a" "keeps I b" "keeps I c" "keeps I d" "keeps I e" "keeps I f" "keeps I h" "keeps I i" "keeps I j"
  shows "keeps I (case g of Waiting \<Rightarrow> a | PoolSelect \<Rightarrow> b | Banning \<Rightarrow> c | Picking \<Rightarrow> d | Ready \<Rightarrow> e
    | Playing \<Rightarrow> f | Results \<Rightarrow> h | Ended \<Rightarrow> i | Cancelled \<Rightarrow> j)"
  using assms by (cases g) simp_all

context quiet_frame
begin

lemma keeps_pointer [keeps_rules]: "keeps I (set_match_pointer k u)"
  unfolding set_match_pointer_def by (rule keeps_activity_field) simp_all

lemma keeps_register [keeps_rules]: "keeps I (register_dodge room u b why)"
  unfolding register_dodge_def Let_def
  by (intro keeps_rules keeps_frame) (simp_all add: quiet_defs put_user_def)

lemma keeps_penalise [keeps_rules]: "keeps I (penalise_unaccepted m us)"
  unfolding penalise_unaccepted_def by (intro keeps_rules)

lemma keeps_dodge_status [keeps_rules]: "keeps I (dodge_status u)"
  unfolding dodge_status_def Let_def by (intro keeps_rules)

lemma keeps_shuffle [keeps_rules]: "keeps I (shuffle_from n xs)"
  by (induction n xs rule: shuffle_from.induct) (auto intro!: keeps_rules)

lemma keeps_choice [keeps_rules]: "keeps I (rng_choice xs)" "keeps I (shuffle_rows xs)"
  unfolding rng_choice_def shuffle_rows_def by (intro keeps_rules)+

lemma keeps_mixed_pool [keeps_rules]: "keeps I (mixed_pool rs v rtg rank)"
  unfolding mixed_pool_def Let_def by (intro keeps_rules)

lemma keeps_open_room [keeps_rules]: "keeps I (open_room m x)"
  unfolding open_room_def by (intro keeps_rules keeps_frame) (simp_all add: quiet_defs put_playlist_def)

lemma keeps_playlist [keeps_rules]: "keeps I (modify (put_playlist p))"
  by (rule keeps_frame) (simp add: quiet_defs put_playlist_def)

lemma keeps_settle [keeps_rules]: "keeps I (settle_ratings m tms w)"
  unfolding settle_ratings_def settle_member_def Let_def
  by (intro keeps_rules keeps_frame) (simp add: quiet_defs)

lemma keeps_close_room [keeps_rules]: "keeps I (close_room rid)"
  unfolding close_room_def by (rule keeps_frame) (simp add: quiet_defs split: option.split)

lemma keeps_deadline [keeps_rules]: "keeps I (deadline_in n)"
  unfolding deadline_in_def by (intro keeps_rules)

lemma keeps_payload [keeps_rules]: "keeps I (match_payload m)"
  unfolding match_payload_def player_payload_def by (intro keeps_rules)

end

context social_invariant
begin

lemma keeps_save [keeps_rules]: "keeps I (save m)"
  unfolding save_def by (intro keeps_rules keeps_social_frame) (simp add: social_eq_def)

lemma keeps_touch [keeps_rules]: "keeps I (touch m st g)"
  unfolding touch_def by (intro keeps_rules)

lemma keeps_create_match [keeps_rules]: "keeps I (create_match tms fmt rs v resv rk ow pc nm tm tr bts)"
  unfolding create_match_def Let_def by (intro keeps_rules)

lemma keeps_finish [keeps_rules]: "keeps I (finish_match m w c why)"
  unfolding finish_match_def Let_def by (intro keeps_rules)

lemma keeps_start_draft [keeps_rules]: "keeps I (start_draft m)"
  unfolding start_draft_def Let_def by (intro keeps_rules)

lemma keeps_vote [keeps_rules]: "keeps I (finish_pool_vote m)" "keeps I (start_filled_custom m)"
  unfolding finish_pool_vote_def start_filled_custom_def Let_def by (intro keeps_rules)+

lemma keeps_select_map [keeps_rules]: "keeps I (select_map m sid)"
  unfolding select_map_def Let_def by (intro keeps_rules)

lemma keeps_draft [keeps_rules]: "keeps I (draft_action m u a sid)"
  unfolding draft_action_def Let_def by (intro keeps_rules)

lemma keeps_complete [keeps_rules]: "keeps I (complete_round m w tot ps f why)"
  unfolding complete_round_def Let_def by (intro keeps_rules)

lemma keeps_settle_round [keeps_rules]: "keeps I (settle_round m f)"
  unfolding settle_round_def Let_def by (intro keeps_rules)

lemma keeps_match_action [keeps_rules]: "keeps I (match_action m u a sl rv pl)"
  unfolding match_action_def pool_vote_def custom_start_def ready_action_def Let_def by (intro keeps_rules)

lemma keeps_room_step [keeps_rules]: "keeps I (room_step m ev item conn rdy av)"
  unfolding room_step_def Let_def by (intro keeps_rules)

lemma keeps_expired [keeps_rules]: "keeps I (expired_step m)"
  unfolding expired_step_def ready_timeout_def Let_def by (intro keeps_rules keeps_stage)

lemma keeps_tick_match [keeps_rules]: "keeps I (tick_match rng m)"
  unfolding tick_match_def bot_draft_def Let_def by (intro keeps_rules)

end

end
