(* ===== verification/MatchFrame.thy ===== *)
theory MatchFrame
  imports Match
begin

text \<open>
  Operations that leave the table of matches alone.

  \<open>match_frame\<close> is the interface of a property that depends on the matches and on the identifiers
  already given out only; the operations of parties and leases keep such a property, so that it is
  an invariant of the session.
\<close>

locale match_frame =
  fixes I :: "db \<Rightarrow> bool"
  assumes frame: "I s \<Longrightarrow> same_matches s t \<Longrightarrow> I t"

sublocale match_frame \<subseteq> quiet_frame I
  by unfold_locales (auto simp: quiet_def intro: frame)

context match_frame
begin

lemma keeps_same: "(\<And>s. same_matches s (snd (m s))) \<Longrightarrow> keeps I m"
  by (rule keepsI) (blast intro: frame)

lemma keeps_same_frame: "(\<And>s. same_matches s (f s)) \<Longrightarrow> keeps I (modify f)"
  by (rule keeps_modify) (blast intro: frame)

lemma keeps_rows [keeps_rules]: "keeps I uuid4" "keeps I (drop_member c k u)"
  by (rule keeps_same, simp add: same_matches_def uuid4_def drop_member_def put_activity_def Let_def split: option.split)+

lemma keeps_put [keeps_rules]:
  "keeps I (modify (put_activity a))" "keeps I (set_party p)" "keeps I (set_invite i)"
  unfolding set_party_def set_invite_def
  by (rule keeps_same_frame, simp add: same_matches_def put_activity_def)+

lemma keeps_set_activity [keeps_rules]: "keeps I (set_activity u f)"
  unfolding set_activity_def by (intro keeps_rules)

lemma keeps_leases [keeps_rules]:
  "keeps I (release_reservation rid)" "keeps I (reserve_members c us kind p rid')" "keeps I (renew_reservation rid)"
  unfolding release_reservation_def clear_lease_def reserve_members_def take_lease_def renew_reservation_def Let_def
  by (intro keeps_rules keeps_same_frame; simp add: same_matches_def)+

lemma keeps_expire [keeps_rules]: "keeps I expire_stale_parties"
  unfolding expire_stale_parties_def expire_party_def by (intro keeps_rules)

lemma keeps_leaving [keeps_rules]: "keeps I (leave_party u)"
  unfolding leave_party_def by (intro keeps_rules)

lemma keeps_party_steps [keeps_rules]:
  "keeps I (answer_invite u acc ivt)" "keeps I (own_party u)" "keeps I (send_invite u p v)" "keeps I (resolve_target a tid nm)"
  unfolding answer_invite_def party_accept_def assert_not_blocked_def own_party_def send_invite_def resolve_target_def Let_def
  by (intro keeps_rules)+

lemma keeps_party_calls [keeps_rules]: "keeps I (party_action u a tid ivt name)"
  unfolding party_action_def by (intro keeps_rules)

end

sublocale match_frame \<subseteq> session_invariant I
  by unfold_locales (auto intro: keeps_rules)

end
