(* ===== verification/PoolSearch.thy ===== *)
theory PoolSearch
  imports Pool
begin

text \<open>
  The augmenting path search of \<open>mixed_pool\<close> against its specification.

  A pool is a system of distinct representatives: a choice of one candidate map per slot, no map
  twice.  Every successful \<open>assign\<close> gives one more map to its slot and leaves the number held by
  the others; a failing one returns a set of visited maps that witnesses Hall's condition: the
  slots explored have no candidates outside it and are one more than its elements.
\<close>

section \<open>Representatives\<close>

definition maps_of :: "(string \<Rightarrow> somsai_map list) \<Rightarrow> string \<Rightarrow> int set" where
  "maps_of cand s = m_beatmap ` set (cand s)"

definition representatives :: "(string \<Rightarrow> somsai_map list) \<Rightarrow> string set \<Rightarrow> (string \<Rightarrow> int) \<Rightarrow> bool" where
  "representatives cand S f \<longleftrightarrow> inj_on f S \<and> (\<forall>s \<in> S. f s \<in> maps_of cand s)"

definition held :: "owners \<Rightarrow> string \<Rightarrow> int set" where
  "held own s = {b. map_of own b = Some s}"

lemma finite_held [simp]: "finite (held own s)"
  unfolding held_def by (rule finite_subset[OF _ finite_dom_map_of[of own]]) auto

lemma held_put: "held (put_key b slt own) s = (if s = slt then insert b (held own s) else held own s - {b})"
  by (auto simp: held_def)

lemma distinct_put_key: "distinct (map fst xs) \<Longrightarrow> distinct (map fst (put_key k v xs))"
proof (induction k v xs rule: put_key.induct)
  case (2 k v k' v' rest)
  then show ?case using keys_put_key[of k v rest] by auto
qed simp

section \<open>One search\<close>

definition gains :: "(string \<Rightarrow> somsai_map list) \<Rightarrow> string \<Rightarrow> int set \<Rightarrow> owners \<Rightarrow> owners \<Rightarrow> bool" where
  "gains cand slt V own own' \<longleftrightarrow>
     (\<forall>b \<in> V. map_of own' b = map_of own b)
     \<and> (\<forall>s. card (held own' s) = card (held own s) + (if s = slt then 1 else 0))
     \<and> (\<forall>b h. map_of own' b = Some h \<longrightarrow> map_of own b = Some h \<or> b \<in> maps_of cand h)
     \<and> (distinct (map fst own) \<longrightarrow> distinct (map fst own'))"

lemma gains_new:
  assumes "map_of own b = None" "b \<in> maps_of cand slt" "b \<notin> V"
  shows "gains cand slt V own (put_key b slt own)"
proof -
  have b: "b \<notin> held own s" for s using assms(1) by (simp add: held_def)
  then show ?thesis
    using assms unfolding gains_def by (auto simp: held_put distinct_put_key)
qed

lemma gains_moved:
  assumes g: "gains cand h (insert b V) own own2" and b: "map_of own b = Some h" "b \<in> maps_of cand slt" "b \<notin> V"
  shows "gains cand slt V own (put_key b slt own2)"
proof -
  have b2: "map_of own2 b = Some h" using g b(1) by (simp add: gains_def)
  have c2: "card (held own2 s) = card (held own s) + (if s = h then 1 else 0)" for s using g by (simp add: gains_def)
  have "card (held (put_key b slt own2) s) = card (held own s) + (if s = slt then 1 else 0)" for s
  proof (cases "h = slt")
    case True
    then have "held (put_key b slt own2) s = held own2 s" using b2 by (auto simp: held_def)
    then show ?thesis using c2[of s] True by simp
  next
    case False
    have in2: "b \<in> held own2 s \<longleftrightarrow> s = h" for s using b2 by (auto simp: held_def)
    show ?thesis
      using False c2[of s] in2[of s] by (auto simp: held_put)
  qed
  moreover have "map_of (put_key b slt own2) c = Some k \<Longrightarrow> map_of own c = Some k \<or> c \<in> maps_of cand k" for c k
    using g b(2) by (auto simp: gains_def split: if_splits)
  moreover have "\<forall>c \<in> V. map_of (put_key b slt own2) c = map_of own c" using g b(3) by (auto simp: gains_def)
  ultimately show ?thesis using g unfolding gains_def by (simp add: distinct_put_key)
qed

definition stuck :: "(string \<Rightarrow> somsai_map list) \<Rightarrow> owners \<Rightarrow> int set \<Rightarrow> int set \<Rightarrow> bool" where
  "stuck cand own V W \<longleftrightarrow> V \<subseteq> W \<and> (\<forall>b \<in> W - V. \<exists>h. map_of own b = Some h \<and> maps_of cand h \<subseteq> W)"

lemma stuck_trans:
  assumes vw: "stuck cand own V W" and wx: "stuck cand own W X"
  shows "stuck cand own V X"
proof -
  have "\<exists>h. map_of own b = Some h \<and> maps_of cand h \<subseteq> X" if b: "b \<in> X" "b \<notin> V" for b
  proof (cases "b \<in> W")
    case True
    then obtain h where "map_of own b = Some h" "maps_of cand h \<subseteq> W" using vw b unfolding stuck_def by blast
    then show ?thesis using wx by (auto simp: stuck_def)
  next
    case False
    then show ?thesis using wx b by (auto simp: stuck_def)
  qed
  then show ?thesis using vw wx by (auto simp: stuck_def)
qed

lemma assign_result:
  assumes "set rows \<subseteq> set (cand slt)"
    and "\<And>s. maps_of cand s \<subseteq> U" "finite U" "card U \<le> n + card (set visited \<inter> U)"
    and "assign n cand slt rows visited own = (ok, W, own')"
  shows "(ok \<longrightarrow> gains cand slt (set visited) own own')
    \<and> (\<not> ok \<longrightarrow> own' = own \<and> m_beatmap ` set rows \<subseteq> set W \<and> stuck cand own (set visited) (set W))"
  using assms(1,2,4,5)
proof (induction n cand slt rows visited own arbitrary: ok W own' rule: assign.induct)
  case (1 n cand slt visited own)
  then show ?case by (simp add: stuck_def)
next
  case (2 n cand slt row rows visited own)
  let ?b = "m_beatmap row"
  have b: "?b \<in> maps_of cand slt" using 2(4) by (auto simp: maps_of_def)
  have rows: "set rows \<subseteq> set (cand slt)" using 2(4) by simp
  show ?case
  proof (cases "?b \<in> set visited")
    case True
    then have "assign n cand slt rows visited own = (ok, W, own')" using 2(7) by simp
    note IH = 2(1)[OF True rows 2(5) 2(6) this]
    then have "set visited \<subseteq> set W" if "\<not> ok" using that by (auto simp: stuck_def)
    then show ?thesis using IH True by auto
  next
    case False
    note new = this
    show ?thesis
    proof (cases "map_of own ?b")
      case None
      then have "ok" "own' = put_key ?b slt own" using 2(7) new by auto
      then show ?thesis using gains_new[OF None b] new by simp
    next
      case (Some h)
      have bU: "?b \<in> U" using b 2(5)[of slt] by blast
      have "card (set (?b # visited) \<inter> U) = Suc (card (set visited \<inter> U))"
        using bU new by simp
      then have room: "card U \<le> k + card (set (?b # visited) \<inter> U)" if "n = Suc k" for k
        using 2(6) that by simp
      have "card (set visited \<inter> U) < card U"
        by (rule psubset_card_mono[OF assms(3)]) (use bU new in auto)
      then obtain k where n: "n = Suc k" using 2(6) by (cases n) auto
      obtain ok2 V2 own2 where r: "assign k cand h (cand h) (?b # visited) own = (ok2, V2, own2)"
        by (cases "assign k cand h (cand h) (?b # visited) own") auto
      note IH = 2(2)[OF new refl Some n subset_refl 2(5) room[OF n] r]
      show ?thesis
      proof (cases ok2)
        case True
        then have "ok" "own' = put_key ?b slt own2" using 2(7) new Some n r by (auto simp: Let_def)
        then show ?thesis using gains_moved[of cand h ?b "set visited" own own2 slt] IH True Some b new by simp
      next
        case False
        then have s: "own2 = own" "m_beatmap ` set (cand h) \<subseteq> set V2" "stuck cand own (set (?b # visited)) (set V2)"
          using IH by auto
        then have sub: "set visited \<subseteq> set V2" "?b \<in> set V2" by (auto simp: stuck_def)
        have rest: "assign n cand slt rows V2 own = (ok, W, own')" using 2(7) new Some n r False s(1) by (simp add: Let_def)
        have "card (set visited \<inter> U) \<le> card (set V2 \<inter> U)" using sub(1) assms(3) by (intro card_mono) auto
        then have room2: "card U \<le> n + card (set V2 \<inter> U)" using 2(6) by linarith
        have r2: "assign k cand h (cand h) (?b # visited) own = (False, V2, own)" using r s(1) False by simp
        have step: "stuck cand own (set visited) (set V2)"
          using s(2,3) Some by (auto simp: stuck_def maps_of_def)
        have IH2: "(ok \<longrightarrow> gains cand slt (set V2) own own')
          \<and> (\<not> ok \<longrightarrow> own' = own \<and> m_beatmap ` set rows \<subseteq> set W \<and> stuck cand own (set V2) (set W))"
          by (rule 2(3)[OF new refl Some n r2[symmetric] refl refl rows 2(5) room2 rest])
        moreover have "?b \<in> set W" if "\<not> ok" using IH2 that sub(2) by (auto simp: stuck_def)
        moreover have "gains cand slt (set V2) own own' \<Longrightarrow> gains cand slt (set visited) own own'"
          using sub(1) by (auto simp: gains_def)
        ultimately show ?thesis using stuck_trans[OF step] by auto
      qed
    qed
  qed
qed

section \<open>All slots\<close>

text \<open>The owners are right for the slots done: each holds one of its candidates, the others none.\<close>

definition assigned :: "(string \<Rightarrow> somsai_map list) \<Rightarrow> string set \<Rightarrow> owners \<Rightarrow> bool" where
  "assigned cand S own \<longleftrightarrow> distinct (map fst own)
     \<and> (\<forall>s. card (held own s) = (if s \<in> S then 1 else 0))
     \<and> (\<forall>b h. map_of own b = Some h \<longrightarrow> b \<in> maps_of cand h)"

lemma assigned_holder: "assigned cand S own \<Longrightarrow> map_of own b = Some h \<Longrightarrow> h \<in> S"
  unfolding assigned_def held_def by (metis (mono_tags, lifting) card_0_eq empty_iff finite_held held_def mem_Collect_eq)

text \<open>Hall's argument: a closed set of visited maps leaves no representatives.\<close>

lemma stuck_no_representatives:
  assumes a: "assigned cand S own" and s: "slt \<notin> S" "S \<union> {slt} \<subseteq> N"
    and w: "maps_of cand slt \<subseteq> W" "stuck cand own {} W" "finite W"
  shows "\<not> representatives cand N f"
proof
  assume f: "representatives cand N f"
  let ?H = "{h. \<exists>b \<in> W. map_of own b = Some h}"
  have owner: "\<exists>h. map_of own b = Some h \<and> maps_of cand h \<subseteq> W" if "b \<in> W" for b
    using w(2) that by (auto simp: stuck_def)
  have H: "?H \<subseteq> S" using assigned_holder[OF a] by blast
  have "card W \<le> card ?H"
  proof (rule card_inj_on_le[of "\<lambda>b. the (map_of own b)"])
    show "inj_on (\<lambda>b. the (map_of own b)) W"
    proof (rule inj_onI)
      fix b c assume bc: "b \<in> W" "c \<in> W" "the (map_of own b) = the (map_of own c)"
      then obtain h where h: "map_of own b = Some h" "map_of own c = Some h" using owner by fastforce
      then have "h \<in> S" using assigned_holder[OF a] by blast
      then have "card (held own h) = 1" using a by (simp add: assigned_def)
      moreover have "b \<in> held own h" "c \<in> held own h" using h by (simp_all add: held_def)
      ultimately show "b = c" by (metis card_1_singletonE singletonD)
    qed
    show "(\<lambda>b. the (map_of own b)) ` W \<subseteq> ?H" using owner by fastforce
    show "finite ?H" by (rule finite_subset[of _ "(\<lambda>b. the (map_of own b)) ` W"]) (use w(3) in force)+
  qed
  moreover have "card (insert slt ?H) \<le> card W"
  proof (rule card_inj_on_le[OF _ _ w(3)])
    have "insert slt ?H \<subseteq> N" using H s(2) by blast
    moreover have "inj_on f N" using f by (simp add: representatives_def)
    ultimately show "inj_on f (insert slt ?H)" by (rule inj_on_subset[rotated])
    show "f ` insert slt ?H \<subseteq> W"
    proof -
      have "maps_of cand h \<subseteq> W" if "h \<in> insert slt ?H" for h using that owner w(1) by fastforce
      moreover have "f h \<in> maps_of cand h" if "h \<in> insert slt ?H" for h
        using f H s that by (auto simp: representatives_def)
      ultimately show ?thesis by blast
    qed
  qed
  moreover have "finite ?H" by (rule finite_subset[of _ "(\<lambda>b. the (map_of own b)) ` W"]) (use w(3) in force)+
  moreover have "slt \<notin> ?H" using H s(1) by blast
  ultimately show False by simp
qed

lemma assign_all_result:
  assumes "\<And>s. maps_of cand s \<subseteq> U" "finite U" "card U \<le> n"
    and "assigned cand S own" "distinct slts" "S \<inter> set slts = {}"
  shows "case assign_all n cand slts own of
      Some own' \<Rightarrow> assigned cand (S \<union> set slts) own'
    | None \<Rightarrow> \<forall>N f. S \<union> set slts \<subseteq> N \<longrightarrow> \<not> representatives cand N f"
  using assms(4-)
proof (induction slts arbitrary: S own)
  case Nil
  then show ?case by simp
next
  case (Cons slt slts)
  obtain ok W own2 where r: "assign n cand slt (cand slt) [] own = (ok, W, own2)"
    by (cases "assign n cand slt (cand slt) [] own") auto
  note res = assign_result[OF subset_refl assms(1,2) _ r]
  show ?case
  proof (cases ok)
    case True
    then have g: "gains cand slt {} own own2" using res assms(3) by simp
    have "map_of own2 b = Some h \<Longrightarrow> b \<in> maps_of cand h" for b h
      using g Cons.prems(1) unfolding assigned_def gains_def by blast
    moreover have "card (held own2 s) = (if s \<in> insert slt S then 1 else 0)" for s
      using g Cons.prems(1,3) unfolding assigned_def gains_def by auto
    ultimately have asg: "assigned cand (insert slt S) own2"
      using g Cons.prems(1) unfolding assigned_def gains_def by blast
    have eq: "S \<union> set (slt # slts) = insert slt S \<union> set slts" by auto
    have all: "assign_all n cand (slt # slts) own = assign_all n cand slts own2" using r True by simp
    show ?thesis
      unfolding eq all by (rule Cons.IH[OF asg]) (use Cons.prems(2,3) in auto)
  next
    case False
    then have "maps_of cand slt \<subseteq> set W" "stuck cand own {} (set W)" using res assms(3) by (auto simp: maps_of_def)
    then have "\<not> representatives cand N f" if "S \<union> {slt} \<subseteq> N" for N f
      using stuck_no_representatives[OF Cons.prems(1) _ that] Cons.prems(3) by auto
    then show ?thesis using r False by simp
  qed
qed

lemma assigned_representatives:
  assumes "assigned cand S own"
  shows "\<exists>f. representatives cand S f"
proof -
  define f where "f s = (SOME b. b \<in> held own s)" for s
  have in_held: "map_of own (f s) = Some s" if "s \<in> S" for s
  proof -
    have "held own s \<noteq> {}" using assms that unfolding assigned_def by (metis card.empty zero_neq_one)
    then have "f s \<in> held own s" unfolding f_def by (simp add: some_in_eq)
    then show ?thesis by (simp add: held_def)
  qed
  have "inj_on f S" by (rule inj_onI) (metis in_held option.inject)
  moreover have "f s \<in> maps_of cand s" if "s \<in> S" for s
    using in_held[OF that] assms by (simp add: assigned_def)
  ultimately show ?thesis unfolding representatives_def by blast
qed

section \<open>The mixed pool\<close>

lemma rule_for_playable:
  assumes "rule_for v = Inr rule"
  shows "names_playable (rule_best_of rule) (rule_bans rule) (map fst (rule_slots rule))"
proof -
  have "rule \<in> snd ` set RULES_BY_BAND"
    using assms by (force simp: rule_for_def split: sum.splits option.splits dest: map_of_SomeD)
  then show ?thesis using rules_playable by (auto simp: list_all_iff)
qed

lemma collect_total:
  assumes "\<And>x s. x \<in> set xs \<Longrightarrow> \<exists>y t. f x s = (Inr y, t) \<and> P x y"
  shows "\<exists>ys t. collect xs f s = (Inr ys, t) \<and> list_all2 P xs ys"
  using assms
proof (induction xs arbitrary: s)
  case Nil
  then show ?case by (simp add: ret_def)
next
  case (Cons x xs)
  obtain y t where y: "f x s = (Inr y, t)" "P x y" using Cons.prems[of x s] by auto
  obtain ys u where "collect xs f t = (Inr ys, u)" "list_all2 P xs ys"
    using Cons.IH[of t] Cons.prems by auto
  then show ?case using y by (simp add: bnd_def ret_def)
qed

lemma collect_gets: "collect xs (\<lambda>x. gets (g x)) s = (Inr (map (\<lambda>x. g x s) xs), s)"
  by (induction xs) (simp_all add: op_defs)

lemma randbelow_run: "randbelow n s = (Inr (draws s (draw_pos s) mod n), s\<lparr>draw_pos := Suc (draw_pos s)\<rparr>)"
  by (simp add: randbelow_def)

lemma mset_swap_at: "i < length xs \<Longrightarrow> j < length xs \<Longrightarrow> set (swap_at i j xs) = set xs"
  unfolding swap_at_def by (rule set_swap)

lemma shuffle_run: "n < length xs \<or> n = 0 \<Longrightarrow> \<exists>ys t. shuffle_from n xs s = (Inr ys, t) \<and> set ys = set xs \<and> length ys = length xs"
proof (induction n xs arbitrary: s rule: shuffle_from.induct)
  case (1 xs)
  then show ?case by (simp add: ret_def)
next
  case (2 i xs)
  let ?j = "draws s (draw_pos s) mod (i + 2)"
  have l: "Suc i < length xs" using 2(2) by simp
  have "?j < i + 2" by simp
  then have j: "?j < length xs" using l by linarith
  have "length (swap_at (Suc i) ?j xs) = length xs" by (simp add: swap_at_def)
  then show ?case
    using 2(1)[of ?j "s\<lparr>draw_pos := Suc (draw_pos s)\<rparr>"] l mset_swap_at[OF l j]
    by (simp add: bnd_def randbelow_run)
qed

lemma shuffle_rows_run: "\<exists>ys t. shuffle_rows xs s = (Inr ys, t) \<and> set ys = set xs \<and> length ys = length xs"
  unfolding shuffle_rows_def by (rule shuffle_run) auto

lemma rng_choice_run: "xs \<noteq> [] \<Longrightarrow> \<exists>x t. rng_choice xs s = (Inr x, t) \<and> x \<in> set xs"
  by (simp add: rng_choice_def bnd_def randbelow_run ret_def)

text \<open>What the rule of the rank and the warehouse promise of a pool.\<close>

definition pool_ok :: "db \<Rightarrow> int \<Rightarrow> int \<Rightarrow> string \<Rightarrow> rank_pool_rule \<Rightarrow> pool \<Rightarrow> bool" where
  "pool_ok s ruleset variant target rule p \<longleftrightarrow>
     map slot_id (po_slots p) = map fst (rule_slots rule) \<and> distinct (map s_beatmap_id (po_slots p))
     \<and> (\<forall>x \<in> set (po_slots p). \<exists>row \<in> set (maps s). x = slot_payload row \<and> m_slot row = slot_id x
          \<and> m_ruleset row = ruleset \<and> m_variant row = variant \<and> target \<in> set (eligible row))
     \<and> po_best_of p = rule_best_of rule \<and> po_bans p = rule_bans rule \<and> po_rank p = target"

lemma picks_distinct:
  assumes own: "distinct (map fst own)"
    and sel: "list_all2 (\<lambda>(k, slt) y. fst y = slt \<and> m_slot (snd y) = slt \<and> m_beatmap (snd y) = k) own selected"
    and xs: "list_all2 (\<lambda>n x. \<exists>row. map_of selected n = Some row \<and> x = slot_payload row) names xs"
    and names: "distinct names"
  shows "map slot_id xs = names \<and> distinct (map s_beatmap_id xs)"
proof -
  have source: "(m_beatmap row, n) \<in> set own \<and> m_slot row = n" if "map_of selected n = Some row" for n row
  proof -
    have "(n, row) \<in> set selected" using that by (rule map_of_SomeD)
    then obtain i where i: "i < length selected" "selected ! i = (n, row)" by (meson in_set_conv_nth)
    have len: "length own = length selected" using sel by (rule list_all2_lengthD)
    obtain k slt where o: "own ! i = (k, slt)" by (cases "own ! i")
    then have "slt = n" "m_slot row = slt" "m_beatmap row = k"
      using list_all2_nthD2[OF sel i(1)] i(2) by simp_all
    moreover have "own ! i \<in> set own" using i(1) len by simp
    ultimately show ?thesis using o by simp
  qed
  have len: "length names = length xs" using xs by (rule list_all2_lengthD)
  have each: "slot_id (xs ! i) = names ! i \<and> (s_beatmap_id (xs ! i), names ! i) \<in> set own" if "i < length xs" for i
    using list_all2_nthD2[OF xs that] source by (auto simp: slot_payload_def)
  have "map slot_id xs = names" using each len by (intro nth_equalityI) simp_all
  moreover have "inj_on (\<lambda>i. s_beatmap_id (xs ! i)) {..<length xs}"
  proof (rule inj_onI)
    fix i j assume ij: "i \<in> {..<length xs}" "j \<in> {..<length xs}" "s_beatmap_id (xs ! i) = s_beatmap_id (xs ! j)"
    then have "names ! i = names ! j" using each[of i] each[of j] own by (auto dest: eq_key_imp_eq_value)
    then show "i = j" using ij len names by (simp add: nth_eq_iff_index_eq)
  qed
  then have "distinct (map s_beatmap_id xs)" by (auto simp: distinct_conv_nth inj_on_def)
  ultimately show ?thesis ..
qed

lemma search_depth_enough:
  "card (m_beatmap ` set (concat (map snd cands))) \<le> search_depth cands"
proof -
  have "card (m_beatmap ` set (concat (map snd cands))) \<le> card (set (concat (map snd cands)))"
    by (rule card_image_le) simp
  also have "\<dots> \<le> length (concat (map snd cands))" by (rule card_length)
  finally show ?thesis by (simp add: search_depth_def length_concat comp_def)
qed

lemma lookup_rows_subset: "maps_of (lookup_rows cands) s \<subseteq> m_beatmap ` set (concat (map snd cands))"
proof (cases "map_of cands s")
  case (Some rows)
  then have "(s, rows) \<in> set cands" by (rule map_of_SomeD)
  then show ?thesis using Some by (fastforce simp: maps_of_def lookup_rows_def)
qed (simp add: maps_of_def lookup_rows_def)

lemma lookup_rows_map: "n \<in> set ns \<Longrightarrow> lookup_rows (map (\<lambda>n. (n, g n)) ns) n = g n"
  unfolding lookup_rows_def by (induction ns) auto

lemma search_result:
  assumes "distinct (map fst cands)"
  shows "case assign_all (search_depth cands) (lookup_rows cands) (sort_key k (map fst cands)) [] of
      Some own \<Rightarrow> assigned (lookup_rows cands) (set (map fst cands)) own
    | None \<Rightarrow> \<forall>f. \<not> representatives (lookup_rows cands) (set (map fst cands)) f"
proof -
  have "assigned (lookup_rows cands) {} []" by (simp add: assigned_def held_def)
  note assign_all_result[OF lookup_rows_subset _ search_depth_enough this, of "sort_key k (map fst cands)"]
  then show ?thesis using assms by (auto split: option.splits)
qed

text \<open>Candidate lists that only reorder the options have the same representatives.\<close>

lemma reordered:
  assumes "list_all2 (\<lambda>x y. fst y = fst x \<and> set (snd y) = set (snd x)) (map (\<lambda>n. (n, g n)) names) cands"
    and "distinct names"
  shows "map fst cands = names" "n \<in> set names \<Longrightarrow> set (lookup_rows cands n) = set (g n)"
proof -
  have len: "length names = length cands" using list_all2_lengthD[OF assms(1)] by simp
  have each: "fst (cands ! i) = names ! i \<and> set (snd (cands ! i)) = set (g (names ! i))" if "i < length cands" for i
    using list_all2_nthD2[OF assms(1) that] that len by simp
  show f: "map fst cands = names" using each len by (intro nth_equalityI) simp_all
  show "set (lookup_rows cands n) = set (g n)" if "n \<in> set names"
  proof -
    obtain i where i: "i < length cands" "names ! i = n" using \<open>n \<in> set names\<close> len by (metis in_set_conv_nth)
    then have "(n, snd (cands ! i)) \<in> set cands" using each by (metis nth_mem prod.collapse)
    then have "map_of cands n = Some (snd (cands ! i))" using f assms(2) by simp
    then show ?thesis using each[OF i(1)] i(2) by (simp add: lookup_rows_def)
  qed
qed

lemma representatives_cong:
  assumes "\<And>n. n \<in> N \<Longrightarrow> set (c n) = set (g n)"
  shows "representatives c N f = representatives g N f"
  using assms by (auto simp: representatives_def maps_of_def)

lemma mixed_pool_result:
  assumes "target_rank_of rtg rank = Inr target" and "rule_for target = Inr rule"
  shows "case fst (mixed_pool ruleset variant rtg rank s) of
      Inr p \<Rightarrow> pool_ok s ruleset variant target rule p
        \<and> (\<exists>f. representatives (\<lambda>n. slot_options ruleset variant target n s) (set (map fst (rule_slots rule))) f)
    | Inl e \<Rightarrow> (\<exists>why. e = Http 409 why)
        \<and> (\<forall>f. \<not> representatives (\<lambda>n. slot_options ruleset variant target n s) (set (map fst (rule_slots rule))) f)"
proof -
  let ?names = "map fst (rule_slots rule)"
  let ?g = "\<lambda>n. slot_options ruleset variant target n s"
  let ?opts = "map (\<lambda>n. (n, ?g n)) ?names"
  have names: "distinct ?names" using rule_for_playable[OF assms(2)] by (simp add: names_playable_def)
  show ?thesis
  proof (cases "\<exists>n \<in> set ?names. ?g n = []")
    case True
    then obtain n where "n \<in> set ?names" "?g n = []" by blast
    then have "\<not> representatives ?g (set ?names) f" for f
      unfolding representatives_def maps_of_def by (metis empty_iff image_empty list.set(1))
    moreover have "filter (\<lambda>o1. snd o1 = []) ?opts \<noteq> []" using True by (auto simp: filter_empty_conv)
    ultimately show ?thesis
      unfolding mixed_pool_def Let_def by (simp add: lift_def bnd_def assms collect_gets reject_def throw_def)
  next
    case False
    have "\<exists>y t. (\<lambda>(slt, rows). bnd (shuffle_rows rows) (\<lambda>r. ret (slt, r))) o1 u = (Inr y, t)
        \<and> fst y = fst o1 \<and> set (snd y) = set (snd o1)" for o1 :: "string \<times> somsai_map list" and u
      using shuffle_rows_run[of "snd o1" u] by (cases o1) (auto simp: bnd_def ret_def)
    then obtain cands t where c: "collect ?opts (\<lambda>(slt, rows). bnd (shuffle_rows rows) (\<lambda>r. ret (slt, r))) s = (Inr cands, t)"
        "list_all2 (\<lambda>x y. fst y = fst x \<and> set (snd y) = set (snd x)) ?opts cands"
      using collect_total[of ?opts _ "\<lambda>x y. fst y = fst x \<and> set (snd y) = set (snd x)" s] by blast
    let ?C = "lookup_rows cands"
    have fc: "map fst cands = ?names" and rows: "n \<in> set ?names \<Longrightarrow> set (?C n) = set (?g n)" for n
      using reordered[OF c(2) names] by blast+
    have reps: "representatives ?C (set ?names) f = representatives ?g (set ?names) f" for f
      by (rule representatives_cong) (rule rows)
    have run: "mixed_pool ruleset variant rtg rank s =
       (case assign_all (search_depth cands) ?C (sort_key (\<lambda>slt. length (?C slt)) ?names) [] of
         None \<Rightarrow> reject (''Not enough unique beatmaps to build '' @ target @ '' without duplicates'') 409
       | Some own \<Rightarrow>
           bnd (collect own (\<lambda>(map_id, slt).
             bnd (rng_choice (filter (\<lambda>row. m_beatmap row = map_id) (lookup_rows ?opts slt)))
               (\<lambda>row. ret (slt, row)))) (\<lambda>selected.
           bnd (collect ?names (\<lambda>slt. case map_of selected slt of
                                 None \<Rightarrow> throw KeyErr | Some row \<Rightarrow> ret (slot_payload row))) (\<lambda>slts.
             ret \<lparr>po_id = 0, po_revision = 1, po_name = ''SOMSAI '' @ target, po_rank = target,
               po_best_of = rule_best_of rule, po_bans = rule_bans rule, po_source = None, po_slots = slts,
               po_average_stars = of_int (py_round (100 *
                  ((\<Sum>x\<leftarrow>slts. difficulty_rating x) / real (length slts)))) / 100\<rparr>))) t"
    proof -
      have "filter (\<lambda>o1. snd o1 = []) ?opts = []" using False by (auto simp: filter_empty_conv)
      then show ?thesis
        unfolding mixed_pool_def Let_def
        by (simp add: lift_def bnd_def[of "lift _"] bnd_def[of "collect ?names _"] bnd_def[of "collect ?opts _"]
            assms collect_gets c(1) fc del: map_map)
    qed
    show ?thesis
    proof (cases "assign_all (search_depth cands) ?C (sort_key (\<lambda>slt. length (?C slt)) ?names) []")
      case None
      then have "\<not> representatives ?C (set ?names) f" for f
        using search_result[of cands "\<lambda>slt. length (?C slt)"] names fc by simp
      then show ?thesis unfolding run None reps by (simp add: reject_def throw_def)
    next
      case (Some own)
      then have asg: "assigned ?C (set ?names) own"
        using search_result[of cands "\<lambda>slt. length (?C slt)"] names fc by simp
      have own: "slt \<in> set ?names \<and> (\<exists>row \<in> set (?g slt). m_beatmap row = k)" if "(k, slt) \<in> set own" for k slt
      proof -
        have "map_of own k = Some slt" using that asg by (simp add: assigned_def)
        then have "slt \<in> set ?names" "k \<in> maps_of ?C slt" using asg assigned_holder[OF asg] by (auto simp: assigned_def)
        then show ?thesis using rows by (auto simp: maps_of_def)
      qed
      have opts: "lookup_rows ?opts n = ?g n" if "n \<in> set ?names" for n
        by (rule lookup_rows_map[OF that])
      define pick where "pick = (\<lambda>(k, slt). bnd (rng_choice (filter (\<lambda>row. m_beatmap row = k) (lookup_rows ?opts slt)))
               (\<lambda>row. ret (slt, row)))"
      let ?P = "\<lambda>(k, slt) y. fst y = slt \<and> snd y \<in> set (?g slt) \<and> m_beatmap (snd y) = k"
      have "\<exists>y t. pick x u = (Inr y, t) \<and> ?P x y" if "x \<in> set own" for x u
      proof -
        obtain k slt where x: "x = (k, slt)" by (cases x)
        have "filter (\<lambda>row. m_beatmap row = k) (?g slt) \<noteq> []" using own that unfolding x by (auto simp: filter_empty_conv)
        then obtain row v where "rng_choice (filter (\<lambda>row. m_beatmap row = k) (?g slt)) u = (Inr row, v)"
            "row \<in> set (filter (\<lambda>row. m_beatmap row = k) (?g slt))" using rng_choice_run by blast
        then show ?thesis using own that opts unfolding x pick_def by (auto simp: bnd_def ret_def)
      qed
      then obtain selected u where sel: "collect own pick t = (Inr selected, u)" "list_all2 ?P own selected"
        using collect_total[of own pick ?P t] by blast
      have row: "\<exists>row. map_of selected n = Some row" if "n \<in> set ?names" for n
      proof -
        have "held own n \<noteq> {}" using asg that unfolding assigned_def by (metis card.empty zero_neq_one)
        then obtain k where "(k, n) \<in> set own" by (auto simp: held_def dest: map_of_SomeD)
        then obtain i where i: "i < length own" "own ! i = (k, n)" by (meson in_set_conv_nth)
        then have "fst (selected ! i) = n" "i < length selected"
          using list_all2_nthD[OF sel(2) i(1)] list_all2_lengthD[OF sel(2)] by simp_all
        then have "n \<in> fst ` set selected" by (metis image_eqI nth_mem)
        then show ?thesis by (metis map_of_eq_None_iff not_Some_eq)
      qed
      let ?Q = "\<lambda>n x. \<exists>row. map_of selected n = Some row \<and> x = slot_payload row"
      define fill where "fill = (\<lambda>slt. case map_of selected slt of
          None \<Rightarrow> throw KeyErr | Some row \<Rightarrow> (ret (slot_payload row) :: (db, slot) op))"
      have "\<exists>y w. fill n v = (Inr y, w) \<and> ?Q n y" if "n \<in> set ?names" for n v
        using row[OF that] by (auto simp: fill_def ret_def)
      then obtain slts w where fin: "collect ?names fill u = (Inr slts, w)" "list_all2 ?Q ?names slts"
        using collect_total[of ?names fill ?Q u] by blast
      have "list_all2 (\<lambda>(k, slt) y. fst y = slt \<and> m_slot (snd y) = slt \<and> m_beatmap (snd y) = k) own selected"
        by (rule list_all2_mono[OF sel(2)]) (auto simp: slot_options_def)
      then have d: "map slot_id slts = ?names \<and> distinct (map s_beatmap_id slts)"
        using asg fin(2) names by (intro picks_distinct) (simp_all add: assigned_def)
      have el: "\<exists>row \<in> set (maps s). x = slot_payload row \<and> m_slot row = slot_id x
          \<and> m_ruleset row = ruleset \<and> m_variant row = variant \<and> target \<in> set (eligible row)" if x: "x \<in> set slts" for x
      proof -
        obtain i where i: "i < length slts" "slts ! i = x" using x by (meson in_set_conv_nth)
        then obtain r where r: "map_of selected (?names ! i) = Some r" "x = slot_payload r"
          using list_all2_nthD2[OF fin(2) i(1)] by auto
        then have "(?names ! i, r) \<in> set selected" by (blast dest: map_of_SomeD)
        then obtain j where j: "j < length selected" "selected ! j = (?names ! i, r)" by (meson in_set_conv_nth)
        then have "r \<in> set (?g (?names ! i))"
          using list_all2_nthD2[OF sel(2) j(1)] by (cases "own ! j") auto
        moreover have "slot_id x = m_slot r" using r(2) by (simp add: slot_payload_def)
        ultimately show ?thesis using r(2) by (intro bexI[of _ r]) (simp_all add: slot_options_def)
      qed
      have "\<exists>f. representatives ?g (set ?names) f" using assigned_representatives[OF asg] reps by blast
      moreover have "\<exists>p. fst (mixed_pool ruleset variant rtg rank s) = Inr p \<and> pool_ok s ruleset variant target rule p"
        unfolding run Some option.case
        using d el by (simp add: bnd_def sel(1)[unfolded pick_def] fin(1)[unfolded fill_def] ret_def pool_ok_def del: map_map list.map_comp)
      ultimately show ?thesis by auto
    qed
  qed
qed

lemma mixed_pool_errors:
  "target_rank_of rtg rank = Inl e \<Longrightarrow> fst (mixed_pool ruleset variant rtg rank s) = Inl e"
  "target_rank_of rtg rank = Inr target \<Longrightarrow> rule_for target = Inl e \<Longrightarrow> fst (mixed_pool ruleset variant rtg rank s) = Inl e"
  by (simp_all add: mixed_pool_def bnd_def lift_def)

text \<open>C5: \<open>mixed_pool\<close> builds a pool exactly when one exists: when the rank is known and every slot of its
  rule can be given an eligible warehouse map without using a map twice.  The randomised augmenting
  path search never gives up on a warehouse that has a solution.\<close>

theorem mixed_pool_complete:
  "(\<exists>p. fst (mixed_pool ruleset variant rtg rank s) = Inr p) \<longleftrightarrow>
   (\<exists>target rule f. target_rank_of rtg rank = Inr target \<and> rule_for target = Inr rule
      \<and> representatives (\<lambda>slt. slot_options ruleset variant target slt s) (set (map fst (rule_slots rule))) f)"
proof (cases "target_rank_of rtg rank")
  case (Inl e)
  then show ?thesis using mixed_pool_errors(1)[OF Inl] by simp
next
  case (Inr target)
  show ?thesis
  proof (cases "rule_for target")
    case (Inl e)
    then show ?thesis using mixed_pool_errors(2)[OF Inr Inl] Inr by simp
  next
    case (Inr rule)
    show ?thesis
      using mixed_pool_result[OF \<open>target_rank_of rtg rank = Inr target\<close> Inr, of ruleset variant s]
        \<open>target_rank_of rtg rank = Inr target\<close> Inr by (auto split: sum.splits)
  qed
qed

text \<open>C6: a pool that \<open>mixed_pool\<close> delivers follows the rule of its rank: one map per slot in the rule's
  order, each from the warehouse rows eligible for the rank, game mode and slot, no beatmap twice,
  the rule's number of rounds and bans.  Every refusal of a known rank is a 409.\<close>

theorem mixed_pool_sound:
  "case fst (mixed_pool ruleset variant rtg rank s) of
     Inr p \<Rightarrow> \<exists>target rule. target_rank_of rtg rank = Inr target \<and> rule_for target = Inr rule
        \<and> pool_ok s ruleset variant target rule p
   | Inl e \<Rightarrow> target_rank_of rtg rank = Inl e \<or> (\<exists>target. target_rank_of rtg rank = Inr target \<and> rule_for target = Inl e)
        \<or> (\<exists>why. e = Http 409 why)"
proof (cases "target_rank_of rtg rank")
  case (Inl e)
  then show ?thesis using mixed_pool_errors(1)[OF Inl] by simp
next
  case (Inr target)
  show ?thesis
  proof (cases "rule_for target")
    case (Inl e)
    then show ?thesis using mixed_pool_errors(2)[OF Inr Inl] Inr by simp
  next
    case (Inr rule)
    show ?thesis
      using mixed_pool_result[OF \<open>target_rank_of rtg rank = Inr target\<close> Inr, of ruleset variant s]
        \<open>target_rank_of rtg rank = Inr target\<close> Inr by (auto split: sum.splits)
  qed
qed

end
