(* ===== verification/MatchSafety.thy ===== *)
theory MatchSafety
  imports MatchFrame PoolSearch
begin

text \<open>
  The state machine of a match stays well formed, and a match only moves forward.

  \<open>wf_match\<close> is the invariant of a row: two teams, bans alternating within the allowance, the score
  line equal to the number of won rounds, no live match that a team has already won, the current
  slot of a round in the pool.  \<open>evolves\<close> relates a row to a later one: same identity, format and
  charts, a revision that does not go back, a history that is only extended, and no change at all
  once the match has ended.  The operations of \<open>Match\<close> are shown to preserve both, over the whole
  table of matches.
\<close>

section \<open>Lists and slots\<close>

lemma two_teams:
  assumes "length xs = 2"
  shows "Min (set xs) = min (xs ! 0) (xs ! 1)" "Max (set xs) = max (xs ! 0) (xs ! 1)"
proof -
  obtain a b where "xs = [a, b]" using assms by (metis (no_types) One_nat_def Suc_1 length_0_conv length_Suc_conv)
  then show "Min (set xs) = min (xs ! 0) (xs ! 1)" "Max (set xs) = max (xs ! 0) (xs ! 1)" by simp_all
qed

lemma less_two: "(\<forall>i < 2. P i) \<longleftrightarrow> P (0::nat) \<and> P 1"
  by (auto simp: less_2_cases_iff)

lemma find_slot_found: "find_slot st sid = Inr x \<longleftrightarrow> find (\<lambda>y. slot_id y = sid) (slots st) = Some x"
  by (auto simp: find_slot_def split: option.splits)

lemma found_slot: "find (\<lambda>y. slot_id y = sid) t = Some x \<Longrightarrow> slot_id x = sid \<and> x \<in> set t"
  by (auto dest: find_Some_in)

lemma slot_mem_found: "distinct (map slot_id t) \<Longrightarrow> x \<in> set t \<Longrightarrow> find (\<lambda>y. slot_id y = slot_id x) t = Some x"
  using get_row_mem[of slot_id t "slot_id x" x] by (simp add: get_row_def)

section \<open>Well-formed matches\<close>

definition decided :: "nat \<Rightarrow> match_state \<Rightarrow> nat" where
  "decided i st = length (filter (\<lambda>r. winner_team_id r = Some i) (history st))"

definition shape_ok :: "match_state \<Rightarrow> bool" where
  "shape_ok st \<longleftrightarrow>
     length (teams st) = 2 \<and> length (captains st) = 2 \<and> length (wins st) = 2 \<and> length (bans st) = 2
     \<and> turn_team st < 2 \<and> next_pick_team st < 2 \<and> pool_selected st
     \<and> odd (best_of st) \<and> 0 < best_of st \<and> 0 \<le> bans_per_team st"

definition slots_ok :: "match_state \<Rightarrow> bool" where
  "slots_ok st \<longleftrightarrow>
     distinct (map slot_id (slots st)) \<and> ''TB'' \<in> set (map slot_id (slots st))
     \<and> (\<forall>x \<in> set (slots st). slot_id x = ''TB'' \<longrightarrow> status x \<notin> {Available, Banned})
     \<and> length (filter (\<lambda>x. status x = Banned) (slots st)) = bans st ! 0 + bans st ! 1"

definition score_ok :: "match_state \<Rightarrow> bool" where
  "score_ok st \<longleftrightarrow> wins st ! 0 = decided 0 st \<and> wins st ! 1 = decided 1 st
     \<and> map round_no (history st) = [1..<Suc (length (history st))]"

definition undecided :: "match_state \<Rightarrow> bool" where
  "undecided st \<longleftrightarrow> wins st ! 0 < win_target st \<and> wins st ! 1 < win_target st"

definition bans_ok :: "stage \<Rightarrow> match_state \<Rightarrow> bool" where
  "bans_ok g st \<longleftrightarrow>
     int (bans st ! 0) \<le> bans_per_team st \<and> int (bans st ! 1) \<le> bans_per_team st
     \<and> (g = Waiting \<longrightarrow> bans st = [0, 0])
     \<and> (g = Banning \<longrightarrow>
          int (bans st ! turn_team st) < bans_per_team st
          \<and> bans st ! turn_team st \<le> bans st ! (1 - turn_team st)
          \<and> bans st ! (1 - turn_team st) \<le> bans st ! turn_team st + 1)"

definition round_ok :: "match_state \<Rightarrow> bool" where
  "round_ok st \<longleftrightarrow> (\<exists>x \<in> set (slots st). current_slot st = Some (slot_id x) \<and> status x \<in> {Picked, Played})"

definition result_ok :: "match_state \<Rightarrow> bool" where
  "result_ok st \<longleftrightarrow> (reason st = [] \<longrightarrow>
     (\<exists>w < 2. match_winner st = Some w \<and> wins st ! w = win_target st \<and> wins st ! (1 - w) < win_target st))"

definition wf_state :: "stage \<Rightarrow> match_state \<Rightarrow> bool" where
  "wf_state g st \<longleftrightarrow> g \<noteq> PoolSelect \<and> shape_ok st \<and> slots_ok st \<and> score_ok st \<and> bans_ok g st
     \<and> (g \<notin> FINAL_STAGES \<longrightarrow> undecided st)
     \<and> (g \<in> {Ready, Playing, Results} \<longrightarrow> round_ok st)
     \<and> (g = Ended \<longrightarrow> result_ok st)"

definition wf_match :: "match_row \<Rightarrow> bool" where
  "wf_match m \<longleftrightarrow> wf_state (stage m) (state m)"

lemmas wf_defs = wf_state_def shape_ok_def slots_ok_def score_ok_def bans_ok_def undecided_def round_ok_def
  result_ok_def decided_def win_target_def FINAL_STAGES_def

definition chart_of :: "slot \<Rightarrow> string \<times> string \<times> int \<times> api_mod list" where
  "chart_of x = (slot_id x, category x, s_beatmap_id x, s_mods x)"

text \<open>What a match is created with and never changes.\<close>

definition fixed :: "match_row \<Rightarrow> _" where
  "fixed m = (match_id m, ruleset_id m, variant_id m, ranked m, match_format m, owner_id m,
     best_of (state m), map chart_of (slots (state m)))"

definition evolves :: "match_row \<Rightarrow> match_row \<Rightarrow> bool" where
  "evolves m m' \<longleftrightarrow> fixed m' = fixed m
     \<and> (room_id m \<noteq> None \<longrightarrow> room_id m' = room_id m)
     \<and> revision m \<le> revision m'
     \<and> (\<exists>rs. history (state m') = history (state m) @ rs)
     \<and> (stage m' = Waiting \<longrightarrow> stage m = Waiting)
     \<and> (stage m \<in> FINAL_STAGES \<longrightarrow> m' = m)"

lemma evolves_refl [simp]: "evolves m m"
  by (simp add: evolves_def)

lemma evolves_trans:
  assumes ab: "evolves a b" and bc: "evolves b c"
  shows "evolves a c"
proof (cases "stage a \<in> FINAL_STAGES")
  case True
  then have "b = a" using ab by (simp add: evolves_def)
  then show ?thesis using bc by simp
next
  case False
  obtain rs where "history (state b) = history (state a) @ rs"
    using ab unfolding evolves_def by (elim conjE exE)
  moreover obtain rs' where "history (state c) = history (state b) @ rs'"
    using bc unfolding evolves_def by (elim conjE exE)
  ultimately have "\<exists>rs. history (state c) = history (state a) @ rs" by simp
  moreover have "fixed c = fixed a" "revision a \<le> revision c"
      "stage c = Waiting \<longrightarrow> stage a = Waiting" "room_id a \<noteq> None \<longrightarrow> room_id c = room_id a"
    using assms unfolding evolves_def by (metis, metis order_trans, metis, metis)
  ultimately show ?thesis using False unfolding evolves_def by blast
qed

lemma evolvesI:
  assumes "stage m \<notin> FINAL_STAGES" "fixed m' = fixed m" "room_id m \<noteq> None \<longrightarrow> room_id m' = room_id m"
    "revision m \<le> revision m'" "history (state m') = history (state m) @ rs" "stage m' = Waiting \<Longrightarrow> stage m = Waiting"
  shows "evolves m m'"
  using assms unfolding evolves_def by blast

section \<open>The transitions\<close>

text \<open>Well-formedness reads the following parts of the document.\<close>

definition core :: "match_state \<Rightarrow> _" where
  "core st = ((length (teams st), length (captains st), wins st, bans st, turn_team st, next_pick_team st),
     (pool_selected st, best_of st, bans_per_team st, slots st, history st))"

lemma core_eq:
  assumes "core st' = core st"
  shows "shape_ok st' = shape_ok st" "slots_ok st' = slots_ok st" "score_ok st' = score_ok st"
    "bans_ok g st' = bans_ok g st" "undecided st' = undecided st" "win_target st' = win_target st"
  using assms unfolding core_def shape_ok_def slots_ok_def score_ok_def bans_ok_def undecided_def decided_def win_target_def
  by simp_all

lemma wf_core:
  assumes "core st' = core st" "current_slot st' = current_slot st" "g \<noteq> Ended" "wf_state g st"
  shows "wf_state g st'"
proof -
  have "slots st' = slots st" using assms(1) by (simp add: core_def)
  then have "round_ok st' = round_ok st" using assms(2) by (simp add: round_ok_def)
  then show ?thesis using assms(3,4) unfolding wf_state_def core_eq[OF assms(1)] by simp
qed

lemma wf_finish:
  assumes "core st' = core st" "wf_state g st" "g' \<in> FINAL_STAGES" "g' = Ended \<Longrightarrow> result_ok st'"
  shows "wf_state g' st'"
proof -
  have "bans_ok g st \<Longrightarrow> bans_ok g' st" using assms(3) by (auto simp: bans_ok_def FINAL_STAGES_def)
  then show ?thesis
    using assms(2-4) unfolding wf_state_def core_eq[OF assms(1)] by (auto simp: FINAL_STAGES_def)
qed

lemma wf_start_draft:
  assumes "wf_state Waiting st" "core st' = core (st\<lparr>turn_team := next_pick_team st\<rparr>)"
  shows "wf_state (drafting_stage st') st'"
proof -
  let ?st = "st\<lparr>turn_team := next_pick_team st\<rparr>"
  have eq: "shape_ok ?st = shape_ok st" "slots_ok ?st = slots_ok st" "score_ok ?st = score_ok st"
      "undecided ?st = undecided st" "bans_per_team st' = bans_per_team st" if "next_pick_team st < 2" "turn_team st < 2"
    using that assms(2)
    by (simp_all add: shape_ok_def slots_ok_def score_ok_def undecided_def decided_def win_target_def core_def)
  have sh: "next_pick_team st < 2" "turn_team st < 2" "bans st = [0, 0]" "0 \<le> bans_per_team st"
    using assms(1) by (simp_all add: wf_state_def shape_ok_def bans_ok_def)
  then have "bans_ok (drafting_stage st') ?st"
    by (auto simp: bans_ok_def drafting_stage_def eq less_2_cases_iff)
  then show ?thesis
    using assms(1) eq[OF sh(1,2)] unfolding wf_state_def core_eq[OF assms(2)]
    by (simp add: drafting_stage_def FINAL_STAGES_def)
qed

lemma wf_picked:
  assumes wf: "wf_state g st" "g \<notin> FINAL_STAGES" and x: "find_slot st sid = Inr x" and b: "status x \<noteq> Banned"
  shows "wf_state Ready (picked_state st x bm d)"
    and "map chart_of (slots (picked_state st x bm d)) = map chart_of (slots st)"
proof -
  let ?x = "x\<lparr>checksum := bm_checksum bm, status := Picked,
      selected_by_team := (if slot_id x \<noteq> ''TB'' then Some (turn_team st) else None)\<rparr>"
  let ?st = "picked_state st x bm d"
  have f: "find (\<lambda>y. slot_id y = slot_id ?x) (slots st) = Some x"
    using x found_slot by (fastforce simp: find_slot_found)
  have sl: "slots ?st = put_row slot_id ?x (slots st)" by (simp add: picked_state_def set_slot_def)
  have ids: "map slot_id (slots ?st) = map slot_id (slots st)"
    unfolding sl by (rule map_put_row_found[OF f]) simp
  have mem: "?x \<in> set (slots ?st)" "set (slots ?st) \<subseteq> insert ?x (set (slots st))"
    unfolding sl by (rule put_row_mem, rule set_put_row)
  have cnt: "length (filter (\<lambda>y. status y = Banned) (slots ?st)) = length (filter (\<lambda>y. status y = Banned) (slots st))"
    using count_put_row[OF f, of "\<lambda>y. status y = Banned"] b by (simp add: sl)
  have same: "teams ?st = teams st" "captains ?st = captains st" "wins ?st = wins st" "bans ?st = bans st"
      "turn_team ?st = turn_team st" "best_of ?st = best_of st" "bans_per_team ?st = bans_per_team st"
      "history ?st = history st" "pool_selected ?st = pool_selected st" "next_pick_team ?st = 1 - turn_team st"
      "current_slot ?st = Some (slot_id x)"
    by (simp_all add: picked_state_def set_slot_def)
  have "slots_ok ?st"
  proof -
    have "y \<in> set (slots ?st) \<Longrightarrow> slot_id y = ''TB'' \<Longrightarrow> status y \<notin> {Available, Banned}" for y
      using wf(1) mem(2) unfolding wf_state_def slots_ok_def by (cases "y = ?x") auto
    then show ?thesis using wf(1) cnt unfolding slots_ok_def wf_state_def ids same by simp
  qed
  moreover have "round_ok ?st" unfolding round_ok_def same by (rule bexI[OF _ mem(1)]) simp
  moreover have "shape_ok ?st"
    using wf unfolding wf_state_def shape_ok_def same by simp
  moreover have "bans_ok Ready ?st"
    using wf unfolding wf_state_def bans_ok_def same by simp
  moreover have "score_ok ?st = score_ok st" "undecided ?st = undecided st"
    unfolding score_ok_def undecided_def decided_def win_target_def same by (rule refl)+
  moreover have "score_ok st" "undecided st"
    using wf by (simp_all add: wf_state_def)
  ultimately show "wf_state Ready ?st" unfolding wf_state_def by simp
  show "map chart_of (slots ?st) = map chart_of (slots st)"
    unfolding sl by (rule map_put_row_found[OF f]) (simp add: chart_of_def)
qed

lemma wf_banned:
  assumes wf: "wf_state Banning st" and x: "find_slot st sid = Inr x" and a: "status x = Available"
  shows "wf_state (if bans_over (banned_state st x d) then Picking else Banning) (banned_state st x d)"
    and "map chart_of (slots (banned_state st x d)) = map chart_of (slots st)"
proof -
  let ?team = "turn_team st"
  let ?x = "x\<lparr>status := Banned, selected_by_team := Some ?team\<rparr>"
  let ?st = "banned_state st x d"
  have f: "find (\<lambda>y. slot_id y = slot_id ?x) (slots st) = Some x"
    using x found_slot by (fastforce simp: find_slot_found)
  have sl: "slots ?st = put_row slot_id ?x (slots st)" by (simp add: banned_state_def set_slot_def Let_def)
  have ids: "map slot_id (slots ?st) = map slot_id (slots st)"
    unfolding sl by (rule map_put_row_found[OF f]) simp
  have ntb: "slot_id x \<noteq> ''TB''"
  proof -
    have "x \<in> set (slots st)" using f by (rule found_slot[THEN conjunct2])
    then show ?thesis using wf a unfolding wf_state_def slots_ok_def by auto
  qed
  have mem: "set (slots ?st) \<subseteq> insert ?x (set (slots st))"
    unfolding sl by (rule set_put_row)
  have cnt: "length (filter (\<lambda>y. status y = Banned) (slots ?st)) = Suc (length (filter (\<lambda>y. status y = Banned) (slots st)))"
    using count_put_row[OF f, of "\<lambda>y. status y = Banned"] a by (simp add: sl)
  have same: "teams ?st = teams st" "captains ?st = captains st" "wins ?st = wins st"
      "best_of ?st = best_of st" "bans_per_team ?st = bans_per_team st" "next_pick_team ?st = next_pick_team st"
      "history ?st = history st" "pool_selected ?st = pool_selected st"
      "bans ?st = (bans st)[?team := bans st ! ?team + 1]"
      "turn_team ?st = (if bans_over ?st then next_pick_team st else 1 - ?team)"
    by (simp_all add: banned_state_def set_slot_def bans_over_def Let_def)
  have l: "length (bans st) = 2" "?team < 2" using wf by (auto simp: wf_state_def shape_ok_def)
  have "slots_ok ?st"
  proof -
    have "x' \<in> set (slots ?st) \<Longrightarrow> slot_id x' = ''TB'' \<Longrightarrow> status x' \<notin> {Available, Banned}" for x'
      using wf mem ntb unfolding wf_state_def slots_ok_def by (cases "x' = ?x") auto
    moreover have "bans ?st ! 0 + bans ?st ! 1 = Suc (bans st ! 0 + bans st ! 1)"
      using l by (auto simp: same less_2_cases_iff)
    ultimately show ?thesis using wf cnt unfolding slots_ok_def wf_state_def ids by simp
  qed
  moreover have "bans_ok (if bans_over ?st then Picking else Banning) ?st"
  proof -
    have b: "int (bans st ! 0) \<le> bans_per_team st" "int (bans st ! 1) \<le> bans_per_team st"
        "int (bans st ! ?team) < bans_per_team st" "bans st ! ?team \<le> bans st ! (1 - ?team)"
        "bans st ! (1 - ?team) \<le> bans st ! ?team + 1"
      using wf by (simp_all add: wf_state_def bans_ok_def)
    have over: "bans_over ?st \<longleftrightarrow> min (bans ?st ! 0) (bans ?st ! 1) \<ge> nat (bans_per_team st)"
      using l by (simp add: bans_over_def two_teams same)
    consider "?team = 0" | "?team = 1" using l by linarith
    then show ?thesis
      by cases (use b l in \<open>auto simp: bans_ok_def over same\<close>)
  qed
  moreover have "shape_ok ?st"
    using wf l unfolding wf_state_def shape_ok_def same by simp linarith
  moreover have "score_ok ?st = score_ok st" "undecided ?st = undecided st"
    unfolding score_ok_def undecided_def decided_def win_target_def same by (rule refl)+
  moreover have "score_ok st" "undecided st"
    using wf by (simp_all add: wf_state_def FINAL_STAGES_def)
  ultimately show "wf_state (if bans_over ?st then Picking else Banning) ?st"
    unfolding wf_state_def by simp
  show "map chart_of (slots ?st) = map chart_of (slots st)"
    unfolding sl by (rule map_put_row_found[OF f]) (simp add: chart_of_def)
qed

lemma wf_played:
  assumes wf: "wf_state g st" "g \<in> {Ready, Playing, Results}" and x: "find_current st = Inr x"
    and st': "st' = played_state st x (round_entry st x w tot ps forf why)" and w: "\<forall>i. w = Some i \<longrightarrow> i < 2"
  shows "map chart_of (slots st') = map chart_of (slots st)" "shape_ok st'" "slots_ok st'" "score_ok st'"
    "g' \<in> {Ready, Playing, Results, Picking} \<Longrightarrow> bans_ok g' st'" "round_ok st'" "best_of st' = best_of st"
    "history st' = history st @ [round_entry st x w tot ps forf why]"
    "\<And>i. w = Some i \<Longrightarrow> wins st' ! i = wins st ! i + 1 \<and> wins st' ! (1 - i) = wins st ! (1 - i)"
    "w = None \<Longrightarrow> wins st' = wins st"
proof -
  let ?r = "round_entry st x w tot ps forf why"
  let ?x = "x\<lparr>status := Played\<rparr>"
  have f: "find (\<lambda>y. slot_id y = slot_id ?x) (slots st) = Some x" and cur: "current_slot st = Some (slot_id x)"
    using x found_slot by (fastforce simp: find_current_def find_slot_found split: option.splits)+
  have x1: "x \<in> set (slots st)" using f by (rule found_slot[THEN conjunct2])
  have sl: "slots st' = put_row slot_id ?x (slots st)" by (simp add: st' played_state_def set_slot_def)
  have ids: "map slot_id (slots st') = map slot_id (slots st)"
    unfolding sl by (rule map_put_row_found[OF f]) simp
  show ch: "map chart_of (slots st') = map chart_of (slots st)"
    unfolding sl by (rule map_put_row_found[OF f]) (simp add: chart_of_def)
  have same: "teams st' = teams st" "captains st' = captains st" "bans st' = bans st" "turn_team st' = turn_team st"
      "bans_per_team st' = bans_per_team st" "next_pick_team st' = next_pick_team st"
      "pool_selected st' = pool_selected st" "current_slot st' = current_slot st"
      "wins st' = (case w of None \<Rightarrow> wins st | Some i \<Rightarrow> (wins st)[i := wins st ! i + 1])"
    by (simp_all add: st' played_state_def set_slot_def round_entry_def)
  show best: "best_of st' = best_of st" by (simp add: st' played_state_def set_slot_def)
  show hist: "history st' = history st @ [?r]" by (simp add: st' played_state_def set_slot_def)
  have l: "length (wins st) = 2" using wf by (simp add: wf_state_def shape_ok_def)
  show won: "wins st' ! i = wins st ! i + 1 \<and> wins st' ! (1 - i) = wins st ! (1 - i)" if "w = Some i" for i
    using w that l by (auto simp: same less_2_cases_iff)
  show drawn: "w = None \<Longrightarrow> wins st' = wins st" by (simp add: same)
  show "shape_ok st'" using wf l unfolding wf_state_def shape_ok_def same best by (simp split: option.split)
  show "round_ok st'"
    unfolding round_ok_def same cur sl by (rule bexI[OF _ put_row_mem]) simp
  show "bans_ok g' st'" if "g' \<in> {Ready, Playing, Results, Picking}"
    using wf that unfolding wf_state_def bans_ok_def same by auto
  show "score_ok st'"
  proof -
    have d: "decided i st' = decided i st + of_bool (w = Some i)" for i
      by (simp add: decided_def hist round_entry_def)
    have "wins st' ! i = decided i st'" if "wins st ! i = decided i st" "i < 2" for i
      using that l w by (cases w) (auto simp: d same nth_list_update)
    moreover have "map round_no (history st') = [1..<Suc (length (history st'))]"
      using wf by (simp add: hist round_entry_def wf_state_def score_ok_def)
    ultimately show ?thesis using wf unfolding wf_state_def score_ok_def by simp
  qed
  show "slots_ok st'"
  proof -
    have b: "status x \<noteq> Banned"
    proof -
      have "round_ok st" and d: "distinct (map slot_id (slots st))"
        using wf unfolding wf_state_def slots_ok_def by (blast, blast)
      then obtain y where y: "y \<in> set (slots st)" "slot_id y = slot_id x" "status y \<in> {Picked, Played}"
        unfolding round_ok_def cur by (elim bexE) simp
      have "y = x" using same_key[OF d y(1) x1 y(2)] .
      then show ?thesis using y(3) by auto
    qed
    have "length (filter (\<lambda>y. status y = Banned) (slots st')) = length (filter (\<lambda>y. status y = Banned) (slots st))"
      using count_put_row[OF f, of "\<lambda>y. status y = Banned"] b by (simp add: sl)
    moreover have "y \<in> set (slots st') \<Longrightarrow> slot_id y = ''TB'' \<Longrightarrow> status y \<notin> {Available, Banned}" for y
    proof -
      assume y: "y \<in> set (slots st')" "slot_id y = ''TB''"
      have "y = ?x \<or> y \<in> set (slots st)" using y(1) set_put_row[of slot_id ?x "slots st"] unfolding sl by blast
      then show ?thesis using wf(1) y(2) unfolding wf_state_def slots_ok_def by fastforce
    qed
    ultimately show ?thesis using wf unfolding slots_ok_def wf_state_def ids same by simp
  qed
qed

section \<open>The table of matches\<close>

text \<open>
  \<open>tracked b M s\<close>: every row of the table is well formed, the rows \<open>b\<close> of an earlier table are
  still there, moved forward at most, and the rows \<open>M\<close> that an operation holds are well formed and
  later than what \<open>b\<close> records of them.  An operation that saves a row evolving from one of \<open>M\<close>
  keeps the first two whatever happened to the table in between.
\<close>

definition known :: "match_row list \<Rightarrow> match_row \<Rightarrow> db \<Rightarrow> bool" where
  "known b m s \<longleftrightarrow> wf_match m \<and> match_id m < next_id s
     \<and> (\<forall>m0 \<in> set b. match_id m0 = match_id m \<longrightarrow> evolves m0 m)"

definition matches_ok :: "db \<Rightarrow> bool" where
  "matches_ok s \<longleftrightarrow> distinct (map match_id (matches s))
     \<and> (\<forall>m \<in> set (matches s). wf_match m \<and> match_id m < next_id s)"

definition tracked :: "match_row list \<Rightarrow> match_row list \<Rightarrow> db \<Rightarrow> bool" where
  "tracked b M s \<longleftrightarrow> matches_ok s \<and> (\<forall>m0 \<in> set b. \<exists>m \<in> set (matches s). evolves m0 m)
     \<and> (\<forall>m \<in> set M. known b m s)"

lemma tracked_start: "matches_ok s \<Longrightarrow> tracked (matches s) [] s"
  unfolding tracked_def by (intro conjI ballI) (auto intro: bexI[where P = "evolves m" and x = m for m])

lemma tracked_row: "tracked b M s \<Longrightarrow> m0 \<in> set b \<Longrightarrow> \<exists>m \<in> set (matches s). evolves m0 m"
  by (simp add: tracked_def)

lemma tracked_ok: "tracked b M s \<Longrightarrow> matches_ok s"
  by (simp add: tracked_def)

lemma tracked_frame: "tracked b M s \<Longrightarrow> matches t = matches s \<Longrightarrow> next_id s \<le> next_id t \<Longrightarrow> tracked b M t"
  unfolding tracked_def matches_ok_def known_def by force

lemma evolves_id: "evolves m m' \<Longrightarrow> match_id m' = match_id m"
  by (simp add: evolves_def fixed_def)

lemma tracked_found:
  assumes t: "tracked b M s" and m: "m \<in> set (matches s)"
  shows "tracked b (m # M) s"
proof -
  have "evolves m0 m" if m0: "m0 \<in> set b" and same: "match_id m0 = match_id m" for m0
  proof -
    obtain m1 where m1: "m1 \<in> set (matches s)" "evolves m0 m1" using tracked_row[OF t m0] by (elim bexE)
    have i: "match_id m1 = match_id m" using evolves_id[OF m1(2)] same by simp
    have d: "distinct (map match_id (matches s))" using tracked_ok[OF t] by (simp add: matches_ok_def)
    have "m1 = m" by (rule same_key[OF d m1(1) m i])
    then show ?thesis using m1(2) by simp
  qed
  then show ?thesis using t m unfolding tracked_def matches_ok_def known_def by simp
qed

lemma tracked_put:
  assumes t: "tracked b M s" and k: "known b m s"
  shows "tracked b (m # M) (s\<lparr>matches := put_row match_id m (matches s)\<rparr>)"
proof -
  let ?t = "put_row match_id m (matches s)"
  have sub: "set ?t \<subseteq> insert m (set (matches s))" by (rule set_put_row)
  have "matches_ok (s\<lparr>matches := ?t\<rparr>)"
    using t k sub distinct_put_row[of match_id "matches s" m]
    unfolding tracked_def matches_ok_def known_def by auto
  moreover have "\<exists>m' \<in> set ?t. evolves m0 m'" if m0: "m0 \<in> set b" for m0
  proof (cases "match_id m0 = match_id m")
    case True
    then show ?thesis using k m0 put_row_mem[of m match_id "matches s"] unfolding known_def by blast
  next
    case False
    obtain m1 where m1: "m1 \<in> set (matches s)" "evolves m0 m1" using tracked_row[OF t m0] by (elim bexE)
    then have "m1 \<in> set ?t" using False put_row_other[of m1 "matches s" match_id m] evolves_id[of m0 m1] by metis
    then show ?thesis using m1(2) by blast
  qed
  ultimately show ?thesis using t k unfolding tracked_def known_def by simp
qed

text \<open>Operations that return a row: it joins the rows known.\<close>

definition yields :: "match_row list \<Rightarrow> match_row list \<Rightarrow> (db, match_row) op \<Rightarrow> (match_row \<Rightarrow> bool) \<Rightarrow> bool" where
  "yields b M op Q \<longleftrightarrow> hoare (tracked b M) op (\<lambda>x s. tracked b (x # M) s \<and> Q x) (\<lambda>_. tracked b M)"

lemma tracked_forget: "tracked b (x # M) s \<Longrightarrow> tracked b M s"
  by (simp add: tracked_def)

lemma tracked_swap: "tracked b (y # x # M) s \<Longrightarrow> tracked b (y # M) s"
  by (simp add: tracked_def)

lemma yields_keeps: "yields b M op Q \<Longrightarrow> keeps (tracked b M) op"
  unfolding yields_def keeps_def hoare_cases by (blast intro: tracked_forget)

lemma yields_weaken: "yields b M op Q \<Longrightarrow> (\<And>x. Q x \<Longrightarrow> R x) \<Longrightarrow> yields b M op R"
  unfolding yields_def hoare_cases by blast

lemma yields_ret: "m \<in> set M \<Longrightarrow> Q m \<Longrightarrow> yields b M (ret m) Q"
  unfolding yields_def hoare_cases ret_def tracked_def by simp

lemma bnd_assoc: "bnd (bnd op f) g = bnd op (\<lambda>x. bnd (f x) g)"
  by (rule ext) (simp add: bnd_def split: prod.splits sum.splits)

lemma yields_throw: "yields b M (throw e) Q" "yields b M (reject w c) Q"
  unfolding yields_def hoare_cases throw_def reject_def by simp_all

lemma yields_bnd:
  assumes "yields b M op Q" and "\<And>x. Q x \<Longrightarrow> yields b (x # M) (f x) R"
  shows "yields b M (bnd op f) R"
  using assms unfolding yields_def hoare_cases bnd_ok_iff bnd_err_iff
  by (blast intro: tracked_forget tracked_swap)

lemma yields_keep_bnd:
  assumes "keeps (tracked b M) op" and "\<And>x. yields b M (f x) R"
  shows "yields b M (bnd op f) R"
  using assms unfolding yields_def keeps_def hoare_cases bnd_ok_iff bnd_err_iff by blast

lemma yields_seq: "keeps (tracked b M) op \<Longrightarrow> yields b M k R \<Longrightarrow> yields b M (seq op k) R"
  unfolding seq_def by (rule yields_keep_bnd)

lemma yields_gets: "(\<And>s. yields b M (f (g s)) R) \<Longrightarrow> yields b M (bnd (gets g) f) R"
  unfolding yields_def hoare_cases gets_def bnd_def by auto

lemma yields_lift: "(\<And>x. r = Inr x \<Longrightarrow> yields b M (f x) R) \<Longrightarrow> yields b M (bnd (lift r) f) R"
  by (cases r) (auto simp: yields_def hoare_cases lift_def bnd_def)

lemma yields_if:
  "(c \<Longrightarrow> yields b M op R) \<Longrightarrow> (\<not> c \<Longrightarrow> yields b M k R) \<Longrightarrow> yields b M (if c then op else k) R"
  by simp

lemma yields_option:
  "(o1 = None \<Longrightarrow> yields b M op R) \<Longrightarrow> (\<And>x. o1 = Some x \<Longrightarrow> yields b M (k x) R) \<Longrightarrow>
   yields b M (case o1 of None \<Rightarrow> op | Some x \<Rightarrow> k x) R"
  by (cases o1) auto

lemma yields_save:
  assumes "m \<in> set M" "evolves m m'" "wf_match m'"
  shows "yields b M (save m') (\<lambda>x. x = m')"
proof -
  have "known b m' s" if "tracked b M s" for s
    using that assms unfolding tracked_def known_def by (metis evolves_id evolves_trans)
  then show ?thesis
    unfolding yields_def hoare_cases save_def by (auto simp: op_defs tracked_put)
qed

lemma yields_touch:
  assumes "m \<in> set M" "stage m \<notin> FINAL_STAGES" "wf_state (case g of None \<Rightarrow> stage m | Some h \<Rightarrow> h) st"
    "best_of st = best_of (state m)" "map chart_of (slots st) = map chart_of (slots (state m))"
    "history st = history (state m) @ rs" "g \<noteq> Some Waiting"
  shows "yields b M (touch m st g) (\<lambda>x. \<exists>t. x = touched t m st g)"
proof -
  have "wf_match (touched t m st g)" for t using assms(3) by (simp add: wf_match_def touched_def)
  moreover have "evolves m (touched t m st g)" for t
    by (rule evolvesI[OF assms(2)])
      (use assms(4-7) in \<open>auto simp: touched_def fixed_def split: option.splits\<close>)
  ultimately show ?thesis
    unfolding touch_def by (intro yields_gets yields_weaken[OF yields_save[OF assms(1)]]) blast+
qed

interpretation table: match_frame "tracked b M" for b M
  by unfold_locales (auto simp: same_matches_def intro: tracked_frame)

section \<open>The operations of a match\<close>

lemma tracked_wf: "m \<in> set M \<Longrightarrow> tracked b M s \<Longrightarrow> wf_match m"
  by (simp add: tracked_def known_def)

lemma yieldsI_wf:
  assumes "m \<in> set M" and "wf_match m \<Longrightarrow> yields b M op Q"
  shows "yields b M op Q"
  using assms tracked_wf unfolding yields_def hoare_cases by blast

lemma final_winner:
  assumes "wf_state g st" "g \<notin> FINAL_STAGES" "core st' = core st" "reason st' \<noteq> []" "g' \<in> FINAL_STAGES"
  shows "wf_state g' st'"
  by (rule wf_finish[OF assms(3,1,5)]) (simp add: result_ok_def assms(4))

text \<open>The end of a match, where the row already carries its last round.\<close>

definition final_state :: "match_state \<Rightarrow> nat option \<Rightarrow> string \<Rightarrow> match_state" where
  "final_state st w why = st\<lparr>match_winner := w, reason := why, deadline := None, settled := True\<rparr>"

lemma core_final [simp]: "core (final_state st w why) = core st" "reason (final_state st w why) = why"
  by (simp_all add: core_def final_state_def)

lemma finish_yields:
  assumes m: "m \<in> set M" "stage m \<notin> FINAL_STAGES"
    and x: "stage x \<notin> FINAL_STAGES" "fixed x = fixed m" "room_id x = room_id m" "revision m \<le> revision x"
      "history (state x) = history (state m) @ rs"
    and wf: "wf_state (if cancelled then Cancelled else Ended) (final_state (state x) w why)"
  shows "yields b M (finish_match x w cancelled why) (\<lambda>_. True)"
proof -
  let ?st = "final_state (state x) w why"
  let ?g = "if cancelled then Cancelled else Ended"
  let ?row = "\<lambda>t e st. (touched t x st (Some ?g))\<lparr>ended_at := e\<rparr>"
  have fields: "state (?row t e st) = st" "stage (?row t e st) = ?g" "room_id (?row t e st) = room_id x"
      "revision (?row t e st) = revision x + 1" for t e st
    by (simp_all add: touched_def)
  have ev: "evolves m (?row t e st)" if "core st = core (state x)" for st t e
  proof (rule evolvesI[OF m(2)])
    have "fixed (?row t e st) = fixed x" using that by (simp add: fixed_def core_def touched_def)
    then show "fixed (?row t e st) = fixed m" using x(2) by simp
    show "history (state (?row t e st)) = history (state m) @ rs" using that x(5) by (simp add: core_def fields)
  qed (simp_all add: fields x(3,4) le_SucI split: if_splits)
  have ok: "wf_match (?row t e st)" if "core st = core (state x)" "result_ok st = result_ok ?st" for st t e
  proof -
    have "?g = Ended \<Longrightarrow> result_ok st" using wf that(2) by (simp add: wf_state_def)
    then show ?thesis
      unfolding wf_match_def fields using wf_finish[of st ?st ?g ?g] wf that(1) by (simp add: FINAL_STAGES_def)
  qed
  have save: "yields b M' (save (?row t e st)) (\<lambda>y. y = ?row t e st)"
    if "set M \<subseteq> set M'" "core st = core (state x)" "result_ok st = result_ok ?st" for M' t e st
    using that m(1) by (intro yields_save[of m] ev ok) auto
  have "yields b M (save (touched t x ?st (Some ?g))) (\<lambda>y. y = ?row t (ended_at x) ?st)" for t
    using save[of M ?st "ended_at x" t] by (simp add: touched_def)
  then have first: "yields b M (touch x ?st (Some ?g)) (\<lambda>y. \<exists>t e. y = ?row t e ?st)"
    unfolding touch_def by (intro yields_gets) (blast intro: yields_weaken)
  have again: "(?row t e st)\<lparr>ended_at := e'\<rparr> = ?row t e' st" "(?row t e st)\<lparr>state := st'\<rparr> = ?row t e st'" for t e e' st st'
    by (simp_all add: touched_def)
  have rest: "core (?st\<lparr>rating_changes := rc, impacts := im\<rparr>) = core (state x)"
    "result_ok (?st\<lparr>rating_changes := rc, impacts := im\<rparr>) = result_ok ?st" for rc im
    by (simp_all add: core_def final_state_def result_ok_def win_target_def)
  show ?thesis
    unfolding finish_match_def Let_def final_state_def[symmetric]
    using x(1)
    apply (simp only: if_False)
    apply (rule yields_bnd[OF first])
    apply (elim exE, simp only:)
    apply (rule yields_gets)
    apply (simp only: again)
    apply (rule yields_bnd[OF save]; (simp add: subset_insertI2; fail)?)
    apply (rule yields_seq)
    apply (intro keeps_rules)
    apply (rule yields_keep_bnd)
    apply (intro keeps_rules)
    apply (simp only: again fields)
    apply (rule yields_bnd[OF save])
    prefer 4
    apply (rule yields_seq, intro keeps_rules)+
    apply (rule yields_ret)
    apply (auto simp: rest)
    done
qed

lemma finish_alive:
  assumes "m \<in> set M" "cancelled \<or> why \<noteq> []"
  shows "yields b M (finish_match m w cancelled why) (\<lambda>_. True)"
proof (rule yieldsI_wf[OF assms(1)])
  assume wf: "wf_match m"
  show "yields b M (finish_match m w cancelled why) (\<lambda>_. True)"
  proof (cases "stage m \<in> FINAL_STAGES")
    case True
    then show ?thesis using assms(1) by (simp add: finish_match_def yields_ret)
  next
    case False
    have "wf_state (if cancelled then Cancelled else Ended) (final_state (state m) w why)"
      by (rule wf_finish[of _ "state m" "stage m"])
        (use wf assms(2) False in \<open>auto simp: wf_match_def FINAL_STAGES_def result_ok_def\<close>)
    then show ?thesis
      by (intro finish_yields[OF assms(1) False False, of "[]"]) simp_all
  qed
qed

lemma start_draft_yields:
  assumes "m \<in> set M" "stage m = Waiting"
  shows "yields b M (start_draft m) (\<lambda>_. True)"
proof (rule yieldsI_wf[OF assms(1)])
  assume wf: "wf_match m"
  have "yields b M (touch m (((state m)\<lparr>server_seen_at := t\<rparr>)\<lparr>deadline := d, turn_team := next_pick_team (state m)\<rparr>)
     (Some (drafting_stage (state m)))) (\<lambda>_. True)" for t d
  proof (rule yields_weaken[OF yields_touch[OF assms(1), of _ _ "[]"]])
    let ?st = "((state m)\<lparr>server_seen_at := t\<rparr>)\<lparr>deadline := d, turn_team := next_pick_team (state m)\<rparr>"
    have "wf_state (drafting_stage ?st) ?st"
      by (rule wf_start_draft[of "state m"]) (use wf assms(2) in \<open>simp_all add: wf_match_def core_def\<close>)
    then show "wf_state (case Some (drafting_stage (state m)) of None \<Rightarrow> stage m | Some h \<Rightarrow> h) ?st"
      by (simp add: drafting_stage_def)
  qed (use assms(2) in \<open>auto simp: FINAL_STAGES_def drafting_stage_def\<close>)
  moreover have "pool_selected (state m)" using wf by (simp add: wf_match_def wf_state_def shape_ok_def)
  ultimately show "yields b M (start_draft m) (\<lambda>_. True)"
    unfolding start_draft_def deadline_in_def Let_def using assms(2)
    by (intro yields_gets yields_if) (simp_all add: drafting_stage_def)
qed

lemma select_map_yields:
  assumes m: "m \<in> set M" "stage m \<notin> FINAL_STAGES" and sid: "\<And>x. find_slot (state m) sid = Inr x \<Longrightarrow> status x \<noteq> Banned"
  shows "yields b M (select_map m sid) (\<lambda>_. True)"
proof (rule yieldsI_wf[OF m(1)])
  assume wf: "wf_match m"
  have "yields b M (touch m (picked_state (state m) x bm d) (Some Ready)) (\<lambda>_. True)"
    if x: "find_slot (state m) sid = Inr x" for x bm d
  proof (rule yields_weaken[OF yields_touch[OF m, of _ _ "[]"]])
    note picked = wf_picked[OF wf[unfolded wf_match_def] m(2) x sid[OF x]]
    show "wf_state (case Some Ready of None \<Rightarrow> stage m | Some h \<Rightarrow> h) (picked_state (state m) x bm d)"
      by (simp add: picked)
    show "map chart_of (slots (picked_state (state m) x bm d)) = map chart_of (slots (state m))"
      by (rule picked)
  qed (simp_all add: picked_state_def set_slot_def)
  then show "yields b M (select_map m sid) (\<lambda>_. True)"
    unfolding select_map_def deadline_in_def Let_def
    by (intro yields_gets yields_lift yields_option yields_if yields_seq yields_throw finish_alive[OF m(1)] keeps_rules)
      (simp_all add: UNAVAILABLE_BEATMAP_def)
qed

lemma draft_action_yields:
  assumes m: "m \<in> set M" "action \<in> {''ban'', ''pick''}"
  shows "yields b M (draft_action m u action sid) (\<lambda>_. True)"
proof (rule yieldsI_wf[OF m(1)])
  assume wf: "wf_match m"
  have ban: "yields b M (touch m (banned_state (state m) x d)
      (Some (if bans_over (banned_state (state m) x d) then Picking else Banning))) (\<lambda>_. True)"
    if st: "stage m = Banning" and x: "find_slot (state m) sid = Inr x" "status x = Available" for x d
  proof (rule yields_weaken[OF yields_touch[OF m(1), of _ _ "[]"]])
    note banned = wf_banned[OF wf[unfolded wf_match_def st] x]
    show "wf_state (case Some (if bans_over (banned_state (state m) x d) then Picking else Banning) of
        None \<Rightarrow> stage m | Some h \<Rightarrow> h) (banned_state (state m) x d)"
      using banned(1) by simp
    show "map chart_of (slots (banned_state (state m) x d)) = map chart_of (slots (state m))"
      by (rule banned)
  qed (simp_all add: st FINAL_STAGES_def banned_state_def set_slot_def Let_def)
  show "yields b M (draft_action m u action sid) (\<lambda>_. True)"
    unfolding draft_action_def deadline_in_def Let_def
    by (intro yields_gets yields_lift yields_if yields_throw ban select_map_yields[OF m(1)])
      (use m(2) in \<open>auto simp: FINAL_STAGES_def\<close>)
qed

text \<open>A save that \<open>finish_match\<close> overwrites.\<close>

lemma save_then_finish:
  assumes "stage x \<notin> FINAL_STAGES"
  shows "bnd (save x) (\<lambda>y. finish_match y w c why) = finish_match x w c why"
proof
  fix s
  have "touch x st g (s\<lparr>matches := put_row match_id x (matches s)\<rparr>) = touch x st g s" for st g
    by (simp add: touch_def save_def op_defs touched_def put_row_twice)
  then have "finish_match x w c why (s\<lparr>matches := put_row match_id x (matches s)\<rparr>) = finish_match x w c why s"
    using assms by (simp add: finish_match_def Let_def bnd_def)
  then show "bnd (save x) (\<lambda>y. finish_match y w c why) s = finish_match x w c why s"
    by (simp add: bnd_def save_def op_defs)
qed

lemma target_reached:
  assumes "wf_state g st" "g \<in> {Ready, Playing, Results}"
    and "length (wins st') = 2" "win_target st' = win_target st"
    and "\<forall>i. w = Some i \<longrightarrow> i < 2 \<and> wins st' ! i = wins st ! i + 1 \<and> wins st' ! (1 - i) = wins st ! (1 - i)"
    and "w = None \<longrightarrow> wins st' = wins st"
  shows "Max (set (wins st')) \<ge> win_target st' \<Longrightarrow>
      \<exists>i < 2. w = Some i \<and> wins st' ! i = win_target st' \<and> wins st' ! (1 - i) < win_target st'"
    and "\<not> Max (set (wins st')) \<ge> win_target st' \<Longrightarrow> undecided st'"
proof -
  have u: "wins st ! 0 < win_target st" "wins st ! 1 < win_target st"
    using assms(1,2) by (auto simp: wf_state_def undecided_def FINAL_STAGES_def)
  have mx: "Max (set (wins st')) = max (wins st' ! 0) (wins st' ! 1)" by (rule two_teams[OF assms(3)])
  show "undecided st'" if "\<not> Max (set (wins st')) \<ge> win_target st'"
    using that by (auto simp: undecided_def mx)
  show "\<exists>i < 2. w = Some i \<and> wins st' ! i = win_target st' \<and> wins st' ! (1 - i) < win_target st'"
    if "Max (set (wins st')) \<ge> win_target st'"
  proof (cases w)
    case None
    then show ?thesis using that[unfolded mx] u assms(4,6) by auto
  next
    case (Some i)
    then have i: "i < 2" "wins st' ! i = wins st ! i + 1" "wins st' ! (1 - i) = wins st ! (1 - i)"
      using assms(5) by blast+
    consider "i = 0" | "i = 1" using i(1) by linarith
    then have "wins st' ! i = win_target st' \<and> wins st' ! (1 - i) < win_target st'"
      by cases (use i that u assms(4) in \<open>simp_all add: mx max_def split: if_splits\<close>)
    then show ?thesis using Some i(1) by blast
  qed
qed

lemma complete_round_yields:
  assumes m: "m \<in> set M" "stage m \<in> {Ready, Playing, Results}" and w: "\<forall>i. w = Some i \<longrightarrow> i < 2"
  shows "yields b M (complete_round m w tot ps forf why) (\<lambda>_. True)"
proof (rule yieldsI_wf[OF m(1)])
  assume "wf_match m"
  then have wf: "wf_state (stage m) (state m)" by (simp add: wf_match_def)
  have live: "stage m \<notin> FINAL_STAGES" using m(2) by (auto simp: FINAL_STAGES_def)
  show "yields b M (complete_round m w tot ps forf why) (\<lambda>_. True)"
    unfolding complete_round_def Let_def
  proof (rule yields_lift)
    fix x assume x: "find_current (state m) = Inr x"
    let ?r = "round_entry (state m) x w tot ps forf why"
    let ?st = "played_state (state m) x ?r"
    note p = wf_played[OF wf m(2) x refl w, where tot = tot and ps = ps and forf = forf and why = why]
    have l: "length (wins ?st) = 2" using p(2) by (simp add: shape_ok_def)
    have tgt: "win_target ?st = win_target (state m)" using p(7) by (simp add: win_target_def)
    have "\<forall>i. w = Some i \<longrightarrow> i < 2 \<and> wins ?st ! i = wins (state m) ! i + 1 \<and> wins ?st ! (1 - i) = wins (state m) ! (1 - i)"
        "w = None \<longrightarrow> wins ?st = wins (state m)"
      using w p(9,10) by blast+
    note target = target_reached[OF wf m(2) l tgt this]
    let ?rest = "\<lambda>m1. if w = None \<and> \<not> forf then
         (if undecided_rounds ?st \<ge> 3 then finish_match m1 None False THREE_DRAWS
          else select_map m1 (slot_id x))
       else if int (Min (set (wins ?st))) = best_of ?st div 2 then select_map m1 ''TB''
       else bnd (deadline_in PICK_SECONDS) (\<lambda>d.
         touch m1 (?st\<lparr>turn_team := next_pick_team ?st, deadline := d\<rparr>) (Some Picking))"
    have over: "yields b M (bnd (touch m ?st None) (\<lambda>m1. finish_match m1 w False [])) (\<lambda>_. True)"
      if o: "Max (set (wins ?st)) \<ge> win_target ?st"
    proof -
      have "stage (touched t m ?st None) \<notin> FINAL_STAGES" for t using live by (simp add: touched_def)
      note twice = save_then_finish[OF this]
      have "result_ok (final_state ?st w [])"
        using target(1)[OF o] by (auto simp: result_ok_def final_state_def win_target_def)
      moreover have "bans_ok Ended ?st" using p(5)[of Picking] by (simp add: bans_ok_def)
      ultimately have "wf_state Ended (final_state ?st w [])"
        using p(2-4) by (simp add: wf_state_def core_eq[OF core_final(1)] FINAL_STAGES_def)
      then show ?thesis
        unfolding touch_def bnd_assoc twice
        by (intro yields_gets finish_yields[OF m(1) live, where rs = "[?r]"])
          (use live p(1,7,8) in \<open>simp_all add: touched_def fixed_def\<close>)
    qed
    have go: "yields b M (bnd (touch m ?st None) ?rest) (\<lambda>_. True)" if o: "\<not> Max (set (wins ?st)) \<ge> win_target ?st"
    proof (rule yields_bnd[OF yields_touch[OF m(1) live, where rs = "[?r]"]])
      show "wf_state (case None of None \<Rightarrow> stage m | Some h \<Rightarrow> h) ?st"
      proof -
        have "bans_ok (stage m) ?st" using m(2) by (intro p(5)) auto
        then have "wf_state (stage m) ?st"
          unfolding wf_state_def using p(2-4,6) target(2)[OF o] m(2) by (intro conjI impI) auto
        then show ?thesis by simp
      qed
    next
      fix m1 assume "\<exists>t. m1 = touched t m ?st None"
      then have m1: "stage m1 = stage m" "state m1 = ?st" by (auto simp: touched_def)
      have found: "status y \<noteq> Banned" if "find_slot ?st (slot_id x) = Inr y" for y
        using that rows.get_put_same[of slot_id "x\<lparr>status := Played\<rparr>" "slots (state m)"]
        by (auto simp: find_slot_found played_state_def set_slot_def get_row_def)
      have tb: "status y \<noteq> Banned" if "find_slot ?st ''TB'' = Inr y" for y
        using found_slot[OF that[unfolded find_slot_found]] p(3) by (auto simp: slots_ok_def)
      have pick: "yields b (m1 # M) (touch m1 (?st\<lparr>turn_team := next_pick_team ?st, deadline := d\<rparr>) (Some Picking)) (\<lambda>_. True)" for d
      proof (rule yields_weaken[OF yields_touch[where rs = "[]"]])
        show "wf_state (case Some Picking of None \<Rightarrow> stage m1 | Some h \<Rightarrow> h)
            (?st\<lparr>turn_team := next_pick_team ?st, deadline := d\<rparr>)"
          using p(2-4) p(5)[of Picking] target(2)[OF o]
          by (simp add: wf_state_def shape_ok_def slots_ok_def score_ok_def undecided_def decided_def win_target_def bans_ok_def)
      qed (use live in \<open>simp_all add: m1\<close>)
      show "yields b (m1 # M) (?rest m1) (\<lambda>_. True)"
        unfolding deadline_in_def
        by (intro yields_if yields_gets finish_alive select_map_yields pick)
          (use live found tb in \<open>simp_all add: m1 THREE_DRAWS_def\<close>)
    qed (use p(1,7,8) in simp_all)
    show "yields b M (bnd (touch m ?st None) (\<lambda>m1.
       if Max (set (wins ?st)) \<ge> win_target ?st then finish_match m1 w False [] else ?rest m1)) (\<lambda>_. True)"
    proof (cases "Max (set (wins ?st)) \<ge> win_target ?st")
      case True
      show ?thesis using over[OF True] by (simp only: True if_True)
    next
      case False
      show ?thesis using go[OF False] by (simp only: False if_False)
    qed
  qed
qed

section \<open>Every caller keeps the table\<close>

lemma keeps_yields_bnd:
  assumes "yields b M op Q" and "\<And>x. Q x \<Longrightarrow> keeps (tracked b (x # M)) (f x)"
  shows "keeps (tracked b M) (bnd op f)"
  using assms unfolding yields_def keeps_def hoare_cases bnd_ok_iff bnd_err_iff
  by (blast intro: tracked_forget)

lemma keepsI_wf:
  assumes "m \<in> set M" and "wf_match m \<Longrightarrow> keeps (tracked b M) op"
  shows "keeps (tracked b M) op"
  using assms tracked_wf unfolding keeps_def hoare_cases by blast

lemma touch_core:
  assumes "m \<in> set M" "stage m \<notin> FINAL_STAGES" "core st = core (state m)" "current_slot st = current_slot (state m)"
  shows "yields b M (touch m st None) (\<lambda>x. \<exists>t. x = touched t m st None)"
proof (rule yieldsI_wf[OF assms(1)])
  assume wf: "wf_match m"
  have "wf_state (stage m) st"
    by (rule wf_core[OF assms(3,4)]) (use wf assms(2) in \<open>auto simp: wf_match_def FINAL_STAGES_def\<close>)
  then show "yields b M (touch m st None) (\<lambda>x. \<exists>t. x = touched t m st None)"
    by (intro yields_touch[OF assms(1,2), where rs = "[]"]) (use assms(3) in \<open>simp_all add: core_def\<close>)
qed

lemma touch_stage:
  assumes "m \<in> set M" "stage m \<notin> FINAL_STAGES" "core st = core (state m)" "current_slot st = current_slot (state m)"
    and "(stage m, g) \<in> {(Ready, Playing), (Playing, Results)}"
  shows "yields b M (touch m st (Some g)) (\<lambda>x. \<exists>t. x = touched t m st (Some g))"
proof (rule yieldsI_wf[OF assms(1)])
  assume wf: "wf_match m"
  have "wf_state g (state m)"
    using wf assms(5) by (auto simp: wf_match_def wf_state_def bans_ok_def FINAL_STAGES_def)
  then have "wf_state g st"
    by (rule wf_core[OF assms(3,4), rotated]) (use assms(5) in auto)
  then show "yields b M (touch m st (Some g)) (\<lambda>x. \<exists>t. x = touched t m st (Some g))"
    by (intro yields_touch[OF assms(1,2), where rs = "[]"]) (use assms(3,5) in \<open>auto simp: core_def\<close>)
qed

lemma save_core:
  assumes "m \<in> set M" "stage m \<notin> FINAL_STAGES" "core st = core (state m)" "current_slot st = current_slot (state m)"
  shows "yields b M (save (m\<lparr>state := st\<rparr>)) (\<lambda>x. x = m\<lparr>state := st\<rparr>)"
proof (rule yieldsI_wf[OF assms(1)])
  assume wf: "wf_match m"
  have "wf_state (stage m) st"
    by (rule wf_core[OF assms(3,4)]) (use wf assms(2) in \<open>auto simp: wf_match_def FINAL_STAGES_def\<close>)
  then have "wf_match (m\<lparr>state := st\<rparr>)" by (simp add: wf_match_def)
  moreover have "evolves m (m\<lparr>state := st\<rparr>)"
    by (rule evolvesI[OF assms(2), where rs = "[]"]) (use assms(3) in \<open>simp_all add: core_def fixed_def\<close>)
  ultimately show "yields b M (save (m\<lparr>state := st\<rparr>)) (\<lambda>x. x = m\<lparr>state := st\<rparr>)"
    by (intro yields_save[OF assms(1)])
qed

lemma settle_round_keeps:
  assumes "m \<in> set M"
  shows "keeps (tracked b M) (settle_round m f)"
proof -
  have "round_winner tot = Some i \<Longrightarrow> i < 2" for tot i by (auto simp: round_winner_def split: if_splits)
  then have "stage m = Results \<Longrightarrow> yields b M (complete_round m (round_winner tot) tot ps False []) (\<lambda>_. True)" for tot ps
    by (intro complete_round_yields[OF assms]) auto
  then show ?thesis
    unfolding settle_round_def Let_def
    by (intro keeps_rules) (blast intro: yields_keeps)
qed

lemma ready_action_keeps:
  assumes "m \<in> set M"
  shows "keeps (tracked b M) (ready_action m u a)"
proof -
  let ?st = "\<lambda>upd. if stage m = Waiting then (state m)\<lparr>accepted := upd (accepted (state m))\<rparr>
      else (state m)\<lparr>ready := upd (ready (state m))\<rparr>"
  have step: "keeps (tracked b M) (bnd (touch m (?st upd) None) (\<lambda>m'.
        if ranked m' \<and> stage m' = Waiting \<and> set (accepted (?st upd)) = set (members_of m')
        then start_draft m' else ret m'))" if "stage m \<in> {Waiting, Ready}" for upd
  proof (rule keeps_yields_bnd[OF touch_core[OF assms]])
    show "keeps (tracked b (x # M)) (if ranked x \<and> stage x = Waiting \<and> set (accepted (?st upd)) = set (members_of x)
        then start_draft x else ret x)" for x
      by (intro keeps_if keeps_ret yields_keeps[OF start_draft_yields]) simp_all
  qed (use that in \<open>auto simp: core_def FINAL_STAGES_def\<close>)
  show ?thesis
    unfolding ready_action_def Let_def by (intro keeps_if keeps_reject step) simp_all
qed

lemma match_action_keeps:
  assumes "m \<in> set M"
  shows "keeps (tracked b M) (match_action m u a sl rv pl)"
proof (rule keepsI_wf[OF assms])
  assume "wf_match m"
  then have "stage m \<noteq> PoolSelect" by (simp add: wf_match_def wf_state_def)
  then have "keeps (tracked b M) (pool_vote m u pl)"
    by (simp add: pool_vote_def Let_def keeps_reject)
  moreover have "keeps (tracked b M) (custom_start m u)"
    unfolding custom_start_def by (intro keeps_if keeps_reject keeps_ret yields_keeps[OF start_draft_yields[OF assms]]) simp_all
  moreover have "keeps (tracked b M) (draft_action m (Some u) a sl')" if "a \<in> {''ban'', ''pick''}" for sl'
    using assms that by (intro yields_keeps[OF draft_action_yields])
  moreover have "keeps (tracked b M) (finish_match m w c why)" if "why \<noteq> []" for w c why
    using assms that by (intro yields_keeps[OF finish_alive]) simp_all
  ultimately show "keeps (tracked b M) (match_action m u a sl rv pl)"
    unfolding match_action_def
    by (intro keeps_rules ready_action_keeps assms) simp_all
qed

lemma room_step_keeps:
  assumes "m \<in> set M"
  shows "keeps (tracked b M) (room_step m ev item conn rdy av)"
proof -
  let ?st = "\<lambda>t. pulse_state m t item conn rdy av"
  have p: "core (?st t) = core (state m)" "current_slot (?st t) = current_slot (state m)" for t
    by (simp_all add: core_def pulse_state_def Let_def)
  have c: "core (st\<lparr>round_started_at := x, deadline := d\<rparr>) = core st"
      "current_slot (st\<lparr>round_started_at := x, deadline := d\<rparr>) = current_slot st"
      "core (st\<lparr>results_notified := r, deadline := d\<rparr>) = core st"
      "current_slot (st\<lparr>results_notified := r, deadline := d\<rparr>) = current_slot st" for st x d r
    by (simp_all add: core_def)
  have abort: "keeps (tracked b M) (complete_round m None [0, 0] [] True NOT_STARTED)" if "stage m \<in> {Ready, Playing, Results}"
    using that by (intro yields_keeps[OF complete_round_yields[OF assms]]) simp_all
  show ?thesis
    unfolding room_step_def Let_def
    by (intro keeps_if keeps_ret keeps_bnd keeps_gets keeps_reject abort
        yields_keeps[OF touch_stage[OF assms]] yields_keeps[OF save_core[OF assms]])
      (simp_all add: p c)
qed

lemma ready_timeout_keeps:
  assumes "m \<in> set M" "stage m = Ready"
  shows "keeps (tracked b M) (ready_timeout m)"
proof -
  have lost: "keeps (tracked b M) (complete_round m (case absent of [i] \<Rightarrow> Some (1 - i) | _ \<Rightarrow> None) [0, 0] [] True why)" for absent why
    using assms by (intro yields_keeps[OF complete_round_yields]) (auto split: list.split)
  have forced: "keeps (tracked b M) (touch m ((state m)\<lparr>force_start := True, deadline := d\<rparr>) None)" for d
    using assms by (intro yields_keeps[OF touch_core]) (simp_all add: core_def FINAL_STAGES_def)
  show ?thesis
    unfolding ready_timeout_def Let_def by (intro keeps_rules lost forced)
qed

lemma expired_step_keeps:
  assumes "m \<in> set M"
  shows "keeps (tracked b M) (expired_step m)"
proof (rule keepsI_wf[OF assms])
  assume "wf_match m"
  then have "stage m \<noteq> PoolSelect" by (simp add: wf_match_def wf_state_def)
  moreover have "keeps (tracked b M) (finish_match m w c why)" if "why \<noteq> []" for w c why
    using assms that by (intro yields_keeps[OF finish_alive]) simp_all
  moreover have "keeps (tracked b M) (draft_action m u a sid)" if "a \<in> {''ban'', ''pick''}" for u a sid
    using assms that by (intro yields_keeps[OF draft_action_yields])
  ultimately show "keeps (tracked b M) (expired_step m)"
    unfolding expired_step_def Let_def
    by (cases "stage m") (simp_all add: keeps_seq keeps_do_if table.keeps_penalise ready_timeout_keeps[OF assms]
        keeps_ret split: list.split)
qed

lemma tick_match_keeps:
  assumes "m \<in> set M"
  shows "keeps (tracked b M) (tick_match rng m)"
proof -
  have fin: "keeps (tracked b M) (finish_match m w c why)" if "why \<noteq> []" for w c why
    using assms that by (intro yields_keeps[OF finish_alive]) simp_all
  have "keeps (tracked b M) (draft_action m u (draft_verb m) sid)" for u sid
    using assms by (intro yields_keeps[OF draft_action_yields]) (simp_all add: draft_verb_def)
  then have bot: "keeps (tracked b M) (bot_draft rng m)"
    unfolding bot_draft_def Let_def by (intro keeps_rules)
  show ?thesis
    unfolding tick_match_def Let_def
    by (intro keeps_if keeps_bnd keeps_gets keeps_ret fin bot settle_round_keeps[OF assms] expired_step_keeps[OF assms])
      simp_all
qed

lemma lobby_touch_keeps:
  assumes "m \<in> set M" "stage m \<notin> FINAL_STAGES" "core st = core (state m)" "current_slot st = current_slot (state m)"
  shows "keeps (tracked b M) (touch m st None)"
  by (rule yields_keeps[OF touch_core[OF assms]])

section \<open>New matches\<close>

definition playable_pool :: "pool \<Rightarrow> bool" where
  "playable_pool p \<longleftrightarrow> distinct (map slot_id (po_slots p)) \<and> ''TB'' \<in> set (map slot_id (po_slots p))
     \<and> odd (po_best_of p) \<and> 0 < po_best_of p \<and> 0 \<le> po_bans p"

lemma mixed_pool_playable:
  assumes "mixed_pool ruleset variant rtg rank s = (Inr p, t)"
  shows "playable_pool p"
proof -
  obtain target rule where r: "rule_for target = Inr rule" "pool_ok s ruleset variant target rule p"
  proof (cases "target_rank_of rtg rank")
    case (Inl e)
    then show ?thesis using mixed_pool_errors(1)[OF Inl, of ruleset variant s] assms by simp
  next
    case (Inr target)
    show ?thesis
    proof (cases "rule_for target")
      case (Inl e)
      then show ?thesis using mixed_pool_errors(2)[OF Inr Inl, of ruleset variant s] assms by simp
    next
      case (Inr rule)
      show ?thesis
        using mixed_pool_result[OF \<open>target_rank_of rtg rank = Inr target\<close> Inr, of ruleset variant s] assms
          that[OF Inr] by simp
    qed
  qed
  have "''TB'' \<in> set names" if one: "length (filter (\<lambda>s. s = ''TB'') names) = 1" for names
  proof -
    have "filter (\<lambda>s. s = ''TB'') names \<noteq> []" using one by (intro notI) simp
    then show ?thesis unfolding filter_empty_conv by blast
  qed
  note tb = this[of "map fst (rule_slots rule)"]
  show ?thesis
    using tb rule_for_playable[OF r(1)] r(2) unfolding playable_pool_def pool_ok_def names_playable_def by auto
qed

lemma wf_opening:
  assumes "playable_pool p" "length tms = 2" "team < 2"
  shows "wf_state Waiting (opening_state tms bts p r team resv t is_ranked)"
proof -
  let ?st = "opening_state tms bts p r team resv t is_ranked"
  have ids: "map slot_id (slots ?st) = map slot_id (po_slots p)"
    by (simp add: opening_state_def opening_slot_def)
  have "status x \<notin> {Available, Banned}" if "x \<in> set (slots ?st)" "slot_id x = ''TB''" for x
    using that by (auto simp: opening_state_def opening_slot_def)
  moreover have "filter (\<lambda>x. status x = Banned) (slots ?st) = []"
    by (auto simp: opening_state_def opening_slot_def filter_empty_conv)
  ultimately have "slots_ok ?st"
    using assms(1) unfolding slots_ok_def ids playable_pool_def by (simp add: opening_state_def)
  moreover have "shape_ok ?st" "score_ok ?st" "bans_ok Waiting ?st" "undecided ?st"
    using assms unfolding shape_ok_def score_ok_def bans_ok_def undecided_def decided_def win_target_def playable_pool_def
    by (simp_all add: opening_state_def)
  ultimately show ?thesis by (simp add: wf_state_def)
qed

lemma yields_run_bnd:
  assumes "keeps (tracked b M) op" and "\<And>x s t. op s = (Inr x, t) \<Longrightarrow> yields b M (f x) R"
  shows "yields b M (bnd op f) R"
  using assms unfolding yields_def keeps_def hoare_cases bnd_ok_iff bnd_err_iff by blast

lemma tracked_new:
  assumes t: "tracked b M s" and m: "wf_match m" "match_id m = next_id s"
  shows "tracked b (m # M) (s\<lparr>next_id := next_id s + 1, matches := put_row match_id m (matches s)\<rparr>)"
proof -
  let ?s = "s\<lparr>next_id := next_id s + 1\<rparr>"
  have s': "tracked b M ?s" by (rule tracked_frame[OF t]) simp_all
  have "match_id m0 \<noteq> match_id m" if m0: "m0 \<in> set b" for m0
  proof -
    obtain m1 where "m1 \<in> set (matches s)" "evolves m0 m1" using tracked_row[OF t m0] by (elim bexE)
    then have "match_id m0 < next_id s" using tracked_ok[OF t] evolves_id by (fastforce simp: matches_ok_def)
    then show ?thesis using m(2) by simp
  qed
  then have "known b m ?s" using m by (simp add: known_def)
  from tracked_put[OF s' this] show ?thesis by simp
qed

lemma yields_new:
  assumes "\<And>mid. wf_match (f mid) \<and> match_id (f mid) = mid" and "\<And>mid. yields b (f mid # M) (k mid) R"
  shows "yields b M (bnd fresh_id (\<lambda>mid. bnd (save (f mid)) (\<lambda>_. k mid))) R"
proof -
  have run: "bnd fresh_id (\<lambda>mid. bnd (save (f mid)) (\<lambda>_. k mid)) s
      = k (next_id s) (s\<lparr>next_id := next_id s + 1, matches := put_row match_id (f (next_id s)) (matches s)\<rparr>)" for s
    by (simp add: bnd_def fresh_id_def save_def op_defs)
  have "tracked b (f (next_id s) # M) (s\<lparr>next_id := next_id s + 1, matches := put_row match_id (f (next_id s)) (matches s)\<rparr>)"
    if "tracked b M s" for s
    by (rule tracked_new[OF that]) (use assms(1)[of "next_id s"] in simp_all)
  then show ?thesis
    using assms(2) unfolding yields_def hoare_cases run by (blast intro: tracked_forget tracked_swap)
qed

lemma create_match_yields:
  assumes "length tms = 2"
  shows "yields b M (create_match tms fmt ruleset variant resv is_ranked owner pool nm tm tr bts) (\<lambda>m. stage m = Waiting)"
proof -
  define row where "row p team t mrating captain mid = \<lparr>match_id = mid, match_name = match_title nm fmt, match_format = fmt,
      ruleset_id = ruleset, variant_id = variant, ranked = is_ranked,
      owner_id = (case owner of None \<Rightarrow> captain | Some o1 \<Rightarrow> o1), match_pool_id = po_id p, room_id = None,
      stage = Waiting, revision = 1,
      state = opening_state tms bts p (py_round mrating) team resv t is_ranked,
      updated_at = t, ended_at = None\<rparr>" for p team t mrating captain mid
  have open_room: "yields b (m # M) (case slots (state m) of [] \<Rightarrow> throw KeyErr
      | first # _ \<Rightarrow> bnd (open_room m first) (\<lambda>rid. bnd (save (m\<lparr>room_id := Some rid\<rparr>)) (\<lambda>m'.
          seq (for_each (members_of m') (set_match_pointer (Some (match_id m)))) (ret m')))) (\<lambda>m. stage m = Waiting)"
    if m: "wf_match m" "room_id m = None" "stage m = Waiting" for m
  proof -
    have "yields b (m # M) (save (m\<lparr>room_id := Some rid\<rparr>)) (\<lambda>x. x = m\<lparr>room_id := Some rid\<rparr>)" for rid
    proof (rule yields_save[of m])
      show "evolves m (m\<lparr>room_id := Some rid\<rparr>)"
        by (rule evolvesI[where rs = "[]"]) (use m in \<open>simp_all add: fixed_def FINAL_STAGES_def\<close>)
      show "wf_match (m\<lparr>room_id := Some rid\<rparr>)" using m(1) by (simp add: wf_match_def)
    qed simp
    then show ?thesis
      by (cases "slots (state m)")
        (auto simp: yields_throw m intro!: yields_keep_bnd yields_bnd yields_seq yields_ret keeps_rules)
  qed
  have new: "yields b M (bnd fresh_id (\<lambda>mid. bnd (save (row p team t mrating captain mid)) (\<lambda>_.
      case slots (state (row p team t mrating captain mid)) of [] \<Rightarrow> throw KeyErr
      | first # _ \<Rightarrow> bnd (open_room (row p team t mrating captain mid) first) (\<lambda>rid.
          bnd (save ((row p team t mrating captain mid)\<lparr>room_id := Some rid\<rparr>)) (\<lambda>m'.
          seq (for_each (members_of m') (set_match_pointer (Some mid))) (ret m')))))) (\<lambda>m. stage m = Waiting)"
    if "playable_pool p" "team < 2" for p team t mrating captain
  proof (rule yields_new)
    fix mid
    let ?m = "row p team t mrating captain mid"
    have m: "wf_match ?m" "match_id ?m = mid" "room_id ?m = None" "stage ?m = Waiting"
      using wf_opening[OF that(1) assms that(2)] by (simp_all add: row_def wf_match_def)
    then show "wf_match ?m \<and> match_id ?m = mid" by blast
    show "yields b (?m # M) (case slots (state ?m) of [] \<Rightarrow> throw KeyErr
      | first # _ \<Rightarrow> bnd (open_room ?m first) (\<lambda>rid. bnd (save (?m\<lparr>room_id := Some rid\<rparr>)) (\<lambda>m'.
          seq (for_each (members_of m') (set_match_pointer (Some mid))) (ret m')))) (\<lambda>m. stage m = Waiting)"
      using open_room[OF m(1,3,4)] unfolding m(2) .
  qed
  obtain team rest where t: "tms = team # rest" using assms by (cases tms) auto
  have two: "x < 2" if "randbelow 2 s = (Inr x, u)" for x s u using that by (auto simp: randbelow_def)
  show ?thesis
  proof (cases team)
    case Nil
    then show ?thesis unfolding create_match_def t by (simp add: yields_throw)
  next
    case (Cons captain mates)
    show ?thesis
      unfolding create_match_def t Cons list.case Let_def
      apply (rule yields_if, rule yields_throw)
      apply (rule yields_keep_bnd, intro keeps_rules)
      apply (rule yields_if, rule yields_throw)+
      apply (rule yields_run_bnd, intro keeps_rules)
      apply (rule yields_run_bnd, intro keeps_rules)
      apply (rule yields_gets)
      apply (rule new[unfolded row_def t Cons])
       apply (erule mixed_pool_playable)
      apply (erule two)
      done
  qed
qed

end
