(* ===== verification/Services.thy ===== *)
theory Services
  imports MatchSafety
begin

text \<open>
  The interface between the matches and the services that use them.

  \<open>service_invariant\<close> is what queue, lobby, read models and the endpoints of the spectator server
  rely on: a property \<open>I M\<close> of the session, indexed by the match rows the running operation holds,
  that reading a row extends, that every operation of the match service keeps when it is applied to
  a row held, and that the operations on parties and leases keep.  Both the invariants of parties
  and leases (which ignore the rows held) and the history of the matches (\<open>tracked\<close>) satisfy it, so
  each service is shown once to keep all three.
\<close>

text \<open>What holds of the value of an operation that returns, from any state.\<close>

definition returns :: "('s, 'a) op \<Rightarrow> ('a \<Rightarrow> bool) \<Rightarrow> bool" where
  "returns op Q \<longleftrightarrow> hoare (\<lambda>_. True) op (\<lambda>x _. Q x) (\<lambda>_ _. True)"

lemma returnsD: "returns op Q \<Longrightarrow> op s = (Inr x, t) \<Longrightarrow> Q x"
  unfolding returns_def hoare_cases by blast

lemma returns_bnd: "returns op R \<Longrightarrow> (\<And>x. R x \<Longrightarrow> returns (f x) Q) \<Longrightarrow> returns (bnd op f) Q"
  unfolding returns_def hoare_cases bnd_ok_iff by blast

lemma returns_any: "(\<And>x. returns (f x) Q) \<Longrightarrow> returns (bnd op f) Q" "returns k Q \<Longrightarrow> returns (seq op k) Q"
  unfolding returns_def hoare_cases seq_def bnd_ok_iff by blast+

lemma returns_basic:
  "Q x \<Longrightarrow> returns (ret x) Q" "returns (throw e) Q" "returns (reject w c) Q" "returns (save m) (\<lambda>x. x = m)"
  unfolding returns_def hoare_cases by (simp_all add: save_def op_defs)

lemma returns_if: "(c \<Longrightarrow> returns op Q) \<Longrightarrow> (\<not> c \<Longrightarrow> returns k Q) \<Longrightarrow> returns (if c then op else k) Q"
  by simp

lemma returns_list:
  "returns op Q \<Longrightarrow> (\<And>y ys. returns (k y ys) Q) \<Longrightarrow> returns (case xs of [] \<Rightarrow> op | y # ys \<Rightarrow> k y ys) Q"
  by (cases xs) auto

lemma create_match_waiting:
  "returns (create_match tms fmt rs v resv rk ow pc nm tm tr bts) (\<lambda>m. stage m = Waiting)"
proof -
  have step: "returns (bnd (save (row\<lparr>room_id := Some rid\<rparr>)) (\<lambda>m'.
      seq (for_each (members_of m') (set_match_pointer mid)) (ret m'))) (\<lambda>m. stage m = Waiting)"
    if "stage row = Waiting" for row rid mid
    by (rule returns_bnd[OF returns_basic(4)]) (use that in \<open>auto intro!: returns_any(2) returns_basic\<close>)
  show ?thesis
    unfolding create_match_def Let_def
    by (intro returns_if returns_basic(2,3) returns_list step returns_any) simp_all
qed

locale service_invariant =
  fixes I :: "match_row list \<Rightarrow> db \<Rightarrow> bool"
  assumes session: "session_invariant (I M)"
    and found: "I M s \<Longrightarrow> m \<in> set (matches s) \<Longrightarrow> I (m # M) s"
    and forget: "I (m # M) s \<Longrightarrow> I M s"
    and create: "length tms = 2 \<Longrightarrow>
      hoare (I M) (create_match tms fmt rs v resv rk ow pc nm tm tr bts) (\<lambda>m. I (m # M)) (\<lambda>_. I M)"
    and begins: "m \<in> set M \<Longrightarrow> stage m = Waiting \<Longrightarrow> keeps (I M) (start_draft m)"
    and finishes: "m \<in> set M \<Longrightarrow> why \<noteq> [] \<Longrightarrow> keeps (I M) (finish_match m w c why)"
    and acts: "m \<in> set M \<Longrightarrow> keeps (I M) (match_action m u a sl rv pl)"
    and steps: "m \<in> set M \<Longrightarrow> keeps (I M) (room_step m ev item conn rdy av)"
    and ticks: "m \<in> set M \<Longrightarrow> keeps (I M) (tick_match rng m)"
    and adjusts: "m \<in> set M \<Longrightarrow> stage m \<notin> FINAL_STAGES \<Longrightarrow>
      (length (teams (state m)) = length (captains (state m)) \<Longrightarrow> core st = core (state m)) \<Longrightarrow>
      current_slot st = current_slot (state m) \<Longrightarrow> keeps (I M) (touch m st None) \<and> keeps (I M) (save (m\<lparr>state := st\<rparr>))"

sublocale service_invariant \<subseteq> session_invariant "I M" for M
  by (rule session)

context service_invariant
begin

text \<open>Reading a row of the table: the continuation holds it.\<close>

lemma keeps_known:
  assumes "\<And>s m. g s = Some m \<Longrightarrow> m \<in> set (matches s)"
    and "keeps (I M) (k None)" and "\<And>m. keeps (I (m # M)) (k (Some m))"
  shows "keeps (I M) (bnd (gets g) k)"
proof (rule keepsI)
  fix s assume I: "I M s"
  show "I M (snd (bnd (gets g) k s))"
  proof (cases "g s")
    case None
    then show ?thesis using keepsD[OF assms(2) I] by (simp add: bnd_def gets_def)
  next
    case (Some m)
    then have "I (m # M) s" using found[OF I] assms(1) by blast
    then have "I M (snd (k (Some m) s))" using forget keepsD[OF assms(3)] by blast
    then show ?thesis using Some by (simp add: bnd_def gets_def)
  qed
qed

lemma get_match_in: "get_match mid s = Some m \<Longrightarrow> m \<in> set (matches s)"
  by (auto simp: get_match_def get_row_def dest: find_Some_in split: option.splits)

lemmas keeps_get_match = keeps_known[OF get_match_in]

lemma keeps_create:
  assumes "length tms = 2" and "\<And>m. stage m = Waiting \<Longrightarrow> keeps (I (m # M)) (k m)"
  shows "keeps (I M) (bnd (create_match tms fmt rs v resv rk ow pc nm tm tr bts) k)"
proof (rule keepsI)
  let ?c = "create_match tms fmt rs v resv rk ow pc nm tm tr bts"
  fix s assume I: "I M s"
  obtain r t where run: "?c s = (r, t)" by (cases "?c s")
  show "I M (snd (bnd ?c k s))"
  proof (cases r)
    case (Inl e)
    then show ?thesis using hoareD_err[OF create[OF assms(1)] I] run by (simp add: bnd_def)
  next
    case (Inr m)
    then have "I (m # M) t" using hoareD_ok[OF create[OF assms(1)] I] run by simp
    then have "I M (snd (k m t))"
      using forget keepsD[OF assms(2)[OF returnsD[OF create_match_waiting]]] run Inr by blast
    then show ?thesis using run Inr by (simp add: bnd_def)
  qed
qed

end

sublocale social_invariant \<subseteq> service: service_invariant "\<lambda>_. I"
proof
  fix tms fmt rs v resv rk ow pc nm tm tr bts
  show "hoare I (create_match tms fmt rs v resv rk ow pc nm tm tr bts) (\<lambda>_. I) (\<lambda>_. I)"
    using keeps_create_match[unfolded keeps_def] .
qed (auto intro: keeps_rules session_invariant_axioms)

interpretation table: service_invariant "tracked b" for b
proof
  show "tracked b M s \<Longrightarrow> m \<in> set (matches s) \<Longrightarrow> tracked b (m # M) s" for M s m by (rule tracked_found)
  show "tracked b (m # M) s \<Longrightarrow> tracked b M s" for M s m by (rule tracked_forget)
  show "length tms = 2 \<Longrightarrow> hoare (tracked b M) (create_match tms fmt rs v resv rk ow pc nm tm tr bts)
      (\<lambda>m. tracked b (m # M)) (\<lambda>_. tracked b M)" for tms M fmt rs v resv rk ow pc nm tm tr bts
    using create_match_yields unfolding yields_def hoare_cases by blast
  show "m \<in> set M \<Longrightarrow> stage m = Waiting \<Longrightarrow> keeps (tracked b M) (start_draft m)" for m M
    by (rule yields_keeps[OF start_draft_yields])
  show "m \<in> set M \<Longrightarrow> why \<noteq> [] \<Longrightarrow> keeps (tracked b M) (finish_match m w c why)" for m M w c why
    by (rule yields_keeps[OF finish_alive]) simp_all
  show "m \<in> set M \<Longrightarrow> keeps (tracked b M) (match_action m u a sl rv pl)" for m M u a sl rv pl by (rule match_action_keeps)
  show "m \<in> set M \<Longrightarrow> keeps (tracked b M) (room_step m ev item conn rdy av)" for m M ev item conn rdy av
    by (rule room_step_keeps)
  show "m \<in> set M \<Longrightarrow> keeps (tracked b M) (tick_match rng m)" for m M rng by (rule tick_match_keeps)
  show "keeps (tracked b M) (touch m st None) \<and> keeps (tracked b M) (save (m\<lparr>state := st\<rparr>))"
    if m: "m \<in> set M" "stage m \<notin> FINAL_STAGES"
      and st: "length (teams (state m)) = length (captains (state m)) \<Longrightarrow> core st = core (state m)"
        "current_slot st = current_slot (state m)" for m M st
  proof -
    have c: "core st = core (state m)" if "wf_match m"
      using st(1) that by (simp add: wf_match_def wf_state_def shape_ok_def)
    have "keeps (tracked b M) (touch m st None)"
      by (rule keepsI_wf[OF m(1)]) (rule yields_keeps[OF touch_core[OF m c st(2)]])
    moreover have "keeps (tracked b M) (save (m\<lparr>state := st\<rparr>))"
      by (rule keepsI_wf[OF m(1)]) (rule yields_keeps[OF save_core[OF m c st(2)]])
    ultimately show ?thesis ..
  qed
qed

end
