(* ===== verification/Queue.thy ===== *)
theory Queue
  imports Services "HOL-Library.Product_Lexorder" "HOL-Library.List_Lexorder" "HOL-Library.Char_ord"
begin

text \<open>
  \<open>somsai_service.py\<close>: the matchmaking queue (search radius, compatibility, balanced teams, the
  pairing loop).  Custom lobbies and the action gateway are in \<open>Lobby\<close>.

  The \<open>while entries\<close> loop of \<open>match_queues\<close> is \<open>match_group\<close> with the number of entries as fuel.  \<open>pairing_loop\<close> is the
  loop itself, a partial function that counts its rounds; \<open>pairing_loop_ends\<close> in \<open>Matchmaking\<close> shows that it returns
  within that number of rounds, since every round removes an entry, and that \<open>match_group\<close> is what it computes.
\<close>

section \<open>Compatibility\<close>

definition SEARCH_RADIUS_BASE :: real where "SEARCH_RADIUS_BASE = 150"
definition SEARCH_RADIUS_CAP :: real where "SEARCH_RADIUS_CAP = 500"
definition SEARCH_RADIUS_HOLD_SECONDS :: real where "SEARCH_RADIUS_HOLD_SECONDS = 5 * 60"
definition SEARCH_RADIUS_RAMP_SECONDS :: real where "SEARCH_RADIUS_RAMP_SECONDS = 5 * 60"
definition EXTREME_ARCHSOM_RATING :: real where "EXTREME_ARCHSOM_RATING = 3500"
definition DIAMOND_V_MIN :: real where "DIAMOND_V_MIN = 2900"
definition ELITE_FALLBACK_SECONDS :: real where
  "ELITE_FALLBACK_SECONDS = SEARCH_RADIUS_HOLD_SECONDS + SEARCH_RADIUS_RAMP_SECONDS"

definition search_radius :: "real \<Rightarrow> real" where
  "search_radius waited_seconds =
     (let waited = max 0 waited_seconds in
      if waited \<le> SEARCH_RADIUS_HOLD_SECONDS then SEARCH_RADIUS_BASE
      else let progress = min 1 ((waited - SEARCH_RADIUS_HOLD_SECONDS) / SEARCH_RADIUS_RAMP_SECONDS)
           in SEARCH_RADIUS_BASE + progress * (SEARCH_RADIUS_CAP - SEARCH_RADIUS_BASE))"

definition total_seconds :: "time \<Rightarrow> real" where
  "total_seconds t = of_int t / 1000000"

definition queue_entries_compatible :: "queue_row \<Rightarrow> queue_row \<Rightarrow> time \<Rightarrow> bool" where
  "queue_entries_compatible left right t =
     (let difference = \<bar>q_rating left - q_rating right\<bar>;
          left_wait = total_seconds (t - q_joined left);
          right_wait = total_seconds (t - q_joined right) in
      if difference \<le> min (search_radius left_wait) (search_radius right_wait) then True
      else
        let (high, high_wait, low) =
              (if q_rating left \<ge> q_rating right then (q_rating left, left_wait, q_rating right)
               else (q_rating right, right_wait, q_rating left))
        in if high < EXTREME_ARCHSOM_RATING \<or> high_wait < ELITE_FALLBACK_SECONDS then False
           else low \<ge> DIAMOND_V_MIN)"

definition validate_mode :: "int \<Rightarrow> int \<Rightarrow> (db, unit) op" where
  "validate_mode ruleset variant =
     (if ruleset \<notin> {0..<4} \<or> variant \<notin> (if ruleset = 3 then {4, 7} else {0})
      then reject ''Unknown game mode or variant.'' 422 else ret ())"

section \<open>Balanced teams\<close>

definition unit_size :: "queue_row list \<Rightarrow> nat" where
  "unit_size es = (\<Sum>e\<leftarrow>es. length (q_members e))"

definition weighted_rating :: "queue_row list \<Rightarrow> real" where
  "weighted_rating es = (\<Sum>e\<leftarrow>es. q_rating e * real (length (q_members e)))"

definition units_in :: "bool \<Rightarrow> nat \<Rightarrow> queue_row list \<Rightarrow> queue_row list" where
  "units_in side msk es =
     map snd (filter (\<lambda>(i, e). odd (msk div 2 ^ i) = side) (enumerate 0 es))"

definition unit_members :: "queue_row list \<Rightarrow> int list" where
  "unit_members es = concat (map q_members es)"

definition split_delta :: "nat \<Rightarrow> nat \<Rightarrow> queue_row list \<Rightarrow> real" where
  "split_delta sz msk es =
     \<bar>weighted_rating (units_in True msk es) - weighted_rating (units_in False msk es)\<bar> / real sz"

text \<open>One mask of the loop: the best split so far is kept with its difference.\<close>

definition try_mask ::
  "nat \<Rightarrow> queue_row list \<Rightarrow> nat \<Rightarrow> (real \<times> int list \<times> int list) option \<Rightarrow> (real \<times> int list \<times> int list) option" where
  "try_mask sz es msk best =
     (if even msk \<or> unit_size (units_in True msk es) \<noteq> sz then best
      else if (case best of None \<Rightarrow> True | Some (d, _) \<Rightarrow> split_delta sz msk es < d)
      then Some (split_delta sz msk es, unit_members (units_in True msk es), unit_members (units_in False msk es))
      else best)"

definition balance_units :: "queue_row list \<Rightarrow> nat \<Rightarrow> (int list \<times> int list) option" where
  "balance_units es sz =
     (if unit_size es \<noteq> sz * 2 then None
      else map_option snd (fold (try_mask sz es) [1..<2 ^ length es] None))"

section \<open>Joining and leaving\<close>

definition put_queue :: "queue_row \<Rightarrow> (db, unit) op" where
  "put_queue q = modify (\<lambda>s. s\<lparr>queue_rows := put_row q_id q (queue_rows s)\<rparr>)"

definition delete_queue :: "int \<Rightarrow> (db, unit) op" where
  "delete_queue k = modify (\<lambda>s. s\<lparr>queue_rows := del_row q_id k (queue_rows s)\<rparr>)"

definition find_queue :: "string option \<Rightarrow> db \<Rightarrow> queue_row option" where
  "find_queue rid s =
     (case rid of None \<Rightarrow> None | Some r \<Rightarrow> find (\<lambda>q. q_reservation q = r) (queue_rows s))"

text \<open>\<open>itertools.combinations(xs, count)\<close>, in its order.\<close>

fun combos :: "nat \<Rightarrow> 'a list \<Rightarrow> 'a list list" where
  "combos 0 xs = [[]]"
| "combos (Suc n) [] = []"
| "combos (Suc n) (x # xs) = map ((#) x) (combos n xs) @ combos (Suc n) xs"

fun pairwise_ok :: "('a \<Rightarrow> 'a \<Rightarrow> bool) \<Rightarrow> 'a list \<Rightarrow> bool" where
  "pairwise_ok P [] = True"
| "pairwise_ok P (x # xs) = (list_all (P x) xs \<and> pairwise_ok P xs)"

definition lineup_ok :: "nat \<Rightarrow> time \<Rightarrow> queue_row list \<Rightarrow> bool" where
  "lineup_ok sz t es \<longleftrightarrow>
     pairwise_ok (\<lambda>l r. queue_entries_compatible l r t) es \<and> balance_units es sz \<noteq> None"

text \<open>The first lineup with the oldest entry, smaller lineups first.\<close>

definition find_lineup :: "nat \<Rightarrow> time \<Rightarrow> queue_row \<Rightarrow> queue_row list \<Rightarrow> queue_row list option" where
  "find_lineup sz t anchor rest =
     (let nearby = filter (\<lambda>e. queue_entries_compatible anchor e t) (take 32 rest)
      in find (lineup_ok sz t)
           (concat (map (\<lambda>count. map ((#) anchor) (combos count nearby)) [1..<sz * 2])))"

definition is_active :: "int \<Rightarrow> (db, bool) op" where
  "is_active uid =
     attempt (seq (active_user uid) (ret True))
       (\<lambda>e. case e of Http _ _ \<Rightarrow> ret False | _ \<Rightarrow> throw e)"

fun first_invalid :: "queue_row list \<Rightarrow> (db, queue_row option) op" where
  "first_invalid [] = ret None"
| "first_invalid (e # es) =
     bnd (collect (q_members e) is_active) (\<lambda>oks.
       if False \<in> set oks then ret (Some e) else first_invalid es)"

definition drop_entry :: "queue_row \<Rightarrow> (db, unit) op" where
  "drop_entry e = seq (release_reservation (q_reservation e)) (delete_queue (q_id e))"

definition match_lineup ::
  "int \<times> int \<times> string \<Rightarrow> queue_row list \<Rightarrow> (db, unit) op" where
  "match_lineup grp selected =
     (let (ruleset, variant, fmt) = grp in
      case balance_units selected (team_size fmt) of
        None \<Rightarrow> ret ()
      | Some (left, right) \<Rightarrow>
          seq (attempt
                (seq (create_match [left, right] fmt ruleset variant (map q_reservation selected)
                        True None None [] None None []) (ret ()))
                (\<lambda>e. case e of
                   Http _ _ \<Rightarrow> for_each selected (\<lambda>q. release_reservation (q_reservation q))
                 | _ \<Rightarrow> throw e))
              (for_each selected (\<lambda>q. delete_queue (q_id q))))"

text \<open>One round of the loop: what is left of the group's entries.\<close>

definition queue_round ::
  "int \<times> int \<times> string \<Rightarrow> queue_row \<Rightarrow> queue_row list \<Rightarrow> (db, queue_row list) op" where
  "queue_round grp anchor rest =
     bnd (gets now) (\<lambda>t.
     case find_lineup (team_size (snd (snd grp))) t anchor rest of
       None \<Rightarrow> ret rest
     | Some selected \<Rightarrow>
         bnd (first_invalid selected) (\<lambda>bad.
         case bad of
           Some e \<Rightarrow> seq (drop_entry e) (ret (remove1 e (anchor # rest)))
         | None \<Rightarrow>
             seq (match_lineup grp selected)
                 (ret (filter (\<lambda>q. q \<notin> set selected) (anchor # rest)))))"

fun match_group :: "nat \<Rightarrow> int \<times> int \<times> string \<Rightarrow> queue_row list \<Rightarrow> (db, unit) op" where
  "match_group n grp [] = ret ()"
| "match_group 0 grp (e # es) = throw (RuntimeErr ''out of fuel'')"
| "match_group (Suc n) grp (e # es) = bnd (queue_round grp e es) (match_group n grp)"

text \<open>The same loop without fuel, with its rounds counted: \<open>None\<close> is a loop that never ends.\<close>

partial_function (option) pairing_loop ::
  "nat \<Rightarrow> int \<times> int \<times> string \<Rightarrow> queue_row list \<Rightarrow> db \<Rightarrow> (nat \<times> (error + unit) \<times> db) option" where
  "pairing_loop n grp es s =
     (case es of
        [] \<Rightarrow> Some (n, Inr (), s)
      | e # rest \<Rightarrow>
          (case queue_round grp e rest s of
             (Inl x, t) \<Rightarrow> Some (Suc n, Inl x, t)
           | (Inr left, t) \<Rightarrow> pairing_loop (Suc n) grp left t))"

definition queue_group :: "queue_row \<Rightarrow> int \<times> int \<times> string" where
  "queue_group q = (q_ruleset q, q_variant q, q_format q)"

definition match_queues :: "(db, unit) op" where
  "match_queues =
     bnd (gets (\<lambda>s. sort_key (\<lambda>q. (q_joined q, q_id q)) (queue_rows s))) (\<lambda>all_entries.
     bnd (gets now) (\<lambda>t.
     seq (for_each (filter (\<lambda>q. q_expires q \<le> t) all_entries) drop_entry)
       (let live = filter (\<lambda>q. \<not> q_expires q \<le> t) all_entries in
        for_each (sort (remdups (map queue_group live))) (\<lambda>grp.
          let es = filter (\<lambda>q. queue_group q = grp) live in match_group (length es) grp es))))"

definition queue_blocked :: "dodge_state \<Rightarrow> time \<Rightarrow> bool" where
  "queue_blocked d t \<longleftrightarrow> ds_banned d \<or> (case ds_expires d of None \<Rightarrow> False | Some e \<Rightarrow> e > t)"

text \<open>The text of the penalty message carries the end of the ban; it is left out here.\<close>

definition join_queue :: "int \<Rightarrow> string \<Rightarrow> int \<Rightarrow> int \<Rightarrow> (db, unit) op" where
  "join_queue uid fmt ruleset variant =
     bnd (dodge_status uid) (\<lambda>penalty.
     bnd (gets now) (\<lambda>t.
     if queue_blocked penalty t then reject ''SOMSAI matchmaking is blocked.'' 429
     else if fmt \<notin> {''1v1'', ''2v2''} then reject ''Ranked matchmaking is available for 1v1 and 2v2.'' 422
     else
       seq (bnd (ensure_rating uid ruleset variant fmt) (\<lambda>_. ret ()))
      (bnd (get_party uid) (\<lambda>party.
       if (case party of None \<Rightarrow> False | Some p \<Rightarrow> fmt = ''2v2'' \<and> captain_id p \<noteq> uid)
       then reject ''Only the party captain can start matchmaking.'' 403
       else
         let mems = (case party of None \<Rightarrow> [uid] | Some p \<Rightarrow> if fmt = ''2v2'' then members p else [uid]) in
         bnd (collect mems (\<lambda>u. ensure_rating u ruleset variant fmt)) (\<lambda>rows.
         let rtg = sum_list (map (\<lambda>r. rating (re_row r)) rows) / real (length rows) in
         seq (bnd (mixed_pool ruleset variant (Some rtg) None) (\<lambda>_. ret ()))
        (bnd (reserve_members uid mems ''somsai:queue'' (map_option party_id party) None) (\<lambda>res.
         bnd fresh_id (\<lambda>qid.
         seq (put_queue \<lparr>q_id = qid, q_reservation = res_id res, q_captain = uid, q_members = mems,
                q_format = fmt, q_ruleset = ruleset, q_variant = variant, q_rating = rtg,
                q_joined = t, q_expires = t + seconds 90\<rparr>)
        (seq (for_each mems (set_match_pointer None))
             match_queues)))))))))"

definition leave_queue :: "int \<Rightarrow> (db, unit) op" where
  "leave_queue uid =
     bnd (activity uid) (\<lambda>st.
     if a_reservation st = None then ret ()
     else
       bnd (gets (find_queue (a_reservation st))) (\<lambda>entry.
       case entry of
         Some e \<Rightarrow> drop_entry e
       | None \<Rightarrow>
           bnd (gets (get_match (a_match st))) (\<lambda>found.
           case found of
             None \<Rightarrow> reject ''Leave the active match or Ranked queue first.'' 409
           | Some m \<Rightarrow>
               if ranked m \<and> stage m = Waiting \<and> uid \<in> set (members_of m)
               then seq (penalise_unaccepted m [uid])
                      (bnd (finish_match m None True ''A player declined the ready check.'') (\<lambda>_. ret ()))
               else reject ''Leave the active match or Ranked queue first.'' 409)))"

section \<open>The queue and the invariants of the session\<close>

context service_invariant
begin

lemma keeps_queue_rows [keeps_rules]: "keeps (I M) (put_queue q)" "keeps (I M) (delete_queue k)"
  unfolding put_queue_def delete_queue_def by (rule keeps_frame; simp add: quiet_defs)+

lemma keeps_drop_entry [keeps_rules]: "keeps (I M) (drop_entry e)"
  unfolding drop_entry_def by (intro keeps_rules)

lemma keeps_first_invalid [keeps_rules]: "keeps (I M) (first_invalid es)"
  by (induction es) (auto simp: is_active_def intro!: keeps_rules)

lemma keeps_created [keeps_rules]:
  "keeps (I M) (seq (create_match [l, r] fmt rs v resv rk ow pc nm tm tr bts) (ret ()))"
  unfolding seq_def by (rule keeps_create) (simp_all add: keeps_ret)

lemma keeps_queue_round [keeps_rules]: "keeps (I M) (queue_round grp a es)"
  unfolding queue_round_def match_lineup_def Let_def by (intro keeps_created keeps_rules)

lemma keeps_match_group [keeps_rules]: "keeps (I M) (match_group n grp es)"
  by (induction n grp es rule: match_group.induct) (auto intro!: keeps_rules)

lemma keeps_match_queues [keeps_rules]: "keeps (I M) match_queues"
  unfolding match_queues_def Let_def by (intro keeps_rules)

lemma keeps_join_queue [keeps_rules]: "keeps (I M) (join_queue u fmt rs v)"
  unfolding join_queue_def Let_def by (intro keeps_rules)

lemma keeps_leave_queue [keeps_rules]: "keeps (I M) (leave_queue u)"
  unfolding leave_queue_def by (intro keeps_get_match finishes keeps_rules) auto

end

end
