(* ===== verification/BotTeam.thy ===== *)
theory BotTeam
  imports Pool
begin

text \<open>
  \<open>somsai_bot_service.py\<close>: opponents for a custom match.  \<open>bot_personas\<close> chooses visual identities
  (the candidates come from the public leaderboard and a cache, a parameter here), rolls a skillset
  per bot and repairs the FreeMod preferences of the team; \<open>create_bot_team\<close> creates one bot
  account per seat.  \<open>_upstream_budget\<close>, the request limiter, is modelled on the two counters of
  the current minute.
\<close>

section \<open>The request budget\<close>

record budget =
  profile_requests :: nat
  all_requests :: nat

definition upstream_budget :: "string \<Rightarrow> (budget, unit) op" where
  "upstream_budget purpose s =
     (let s1 = (if purpose = ''profile'' then s\<lparr>profile_requests := profile_requests s + 1\<rparr> else s) in
      if purpose = ''profile'' \<and> profile_requests s1 > 32
      then (Inl (RuntimeErr ''Profile budget exhausted; reserve requests for the selected pool''), s1)
      else
        let s2 = s1\<lparr>all_requests := all_requests s1 + 1\<rparr> in
        if purpose \<noteq> ''identity'' \<and> all_requests s2 > 44
        then (Inl (RuntimeErr ''Reserve the last requests for opponent identities''), s2)
        else if all_requests s2 > 48
        then (Inl (RuntimeErr ''Bot profile enrichment budget exhausted''), s2)
        else (Inr (), s2))"

section \<open>Personas\<close>

record visual =
  v_official :: "int option"
  v_username :: string
  v_country :: string
  v_rank :: "int option"

text \<open>
  \<open>random.sample(xs, k)\<close> for the at most four seats of a team: the algorithm of the standard
  library on a small population.
\<close>

fun sample_from :: "nat \<Rightarrow> 'a list \<Rightarrow> (db, 'a list) op" where
  "sample_from 0 xs = ret []"
| "sample_from (Suc k) xs =
     (if xs = [] then throw (ValueErr ''Sample larger than population'')
      else bnd (randbelow (length xs)) (\<lambda>j.
           bnd (sample_from k (butlast (xs[j := last xs]))) (\<lambda>rest. ret (xs ! j # rest))))"

definition pick_visuals :: "visual list \<Rightarrow> nat \<Rightarrow> (db, visual list) op" where
  "pick_visuals values count =
     bnd (sample_from (min count (length values)) values) (\<lambda>selected.
     bnd (collect [length selected..<max 1 count] (\<lambda>_. rng_choice values)) (\<lambda>extra.
       ret (take (max 1 count) (selected @ extra))))"

fun has_sub :: "string \<Rightarrow> string \<Rightarrow> bool" where
  "has_sub p [] = (p = [])"
| "has_sub p (c # cs) = (starts_with (c # cs) p \<or> has_sub p cs)"

definition pref :: "ai_profile \<Rightarrow> string" where
  "pref a = (case freemod_preference a of None \<Rightarrow> [] | Some v \<Rightarrow> v)"

definition first_index :: "(nat \<Rightarrow> bool) \<Rightarrow> nat \<Rightarrow> nat option" where
  "first_index P n = find P [0..<n]"

text \<open>Every team of two or more has a pure HD bot and another one that carries HR.\<close>

definition repair_preferences :: "ai_profile list \<Rightarrow> ai_profile list" where
  "repair_preferences ps =
     (if length ps \<le> 1 then ps
      else
        let values = map pref ps;
            found = first_index (\<lambda>i. has_sub ''HD'' (values ! i) \<and> \<not> has_sub ''HR'' (values ! i)) (length ps);
            pure_hd = (case found of None \<Rightarrow> 0 | Some i \<Rightarrow> i);
            ps1 = (case found of None \<Rightarrow> ps[0 := (ps ! 0)\<lparr>freemod_preference := Some ''HD''\<rparr>] | Some _ \<Rightarrow> ps);
            hr = first_index (\<lambda>i. i \<noteq> pure_hd \<and> has_sub ''HR'' (values ! i)) (length ps)
        in case hr of
             Some _ \<Rightarrow> ps1
           | None \<Rightarrow>
               (case first_index (\<lambda>i. i \<noteq> pure_hd) (length ps) of
                  None \<Rightarrow> ps1
                | Some i \<Rightarrow> ps1[i := (ps1 ! i)\<lparr>freemod_preference := Some ''HR''\<rparr>]))"

fun roll_all :: "(nat \<Rightarrow> error + ai_profile) \<Rightarrow> nat list \<Rightarrow> error + ai_profile list" where
  "roll_all roll [] = Inr []"
| "roll_all roll (i # is) =
     (case roll i of Inl e \<Rightarrow> Inl e
      | Inr p \<Rightarrow> (case roll_all roll is of Inl e \<Rightarrow> Inl e | Inr ps \<Rightarrow> Inr (p # ps)))"

definition bot_personas ::
  "(nat \<Rightarrow> int \<Rightarrow> int \<Rightarrow> int) \<Rightarrow> (nat \<Rightarrow> nat \<Rightarrow> real) \<Rightarrow> visual list \<Rightarrow> nat \<Rightarrow> int option \<Rightarrow> string option
   \<Rightarrow> (db, (visual \<times> ai_profile) list) op" where
  "bot_personas randint rnd values count target_mmr target_rank =
     bnd (lift (division_for target_mmr target_rank)) (\<lambda>_.
     bnd (pick_visuals values count) (\<lambda>selected.
     bnd (lift (roll_all (\<lambda>i. roll_ai_profile (randint i) (rnd i) target_mmr target_rank) [0..<length selected])) (\<lambda>ps.
       ret (zip selected (repair_preferences ps)))))"

section \<open>Accounts\<close>

definition hex_digit :: "nat \<Rightarrow> char" where
  "hex_digit n = (if n < 10 then char_of (48 + n) else char_of (87 + n))"

definition token_hex4 :: "(db, string) op" where
  "token_hex4 = bnd (randbelow (2 ^ 32)) (\<lambda>n. ret (map (\<lambda>i. hex_digit (n div 16 ^ i mod 16)) [0..<8]))"

definition create_bot :: "string \<Rightarrow> visual \<times> ai_profile \<Rightarrow> (db, bot) op" where
  "create_bot level persona =
     (let (v, ai) = persona in
      bnd token_hex4 (\<lambda>suffix.
      bnd fresh_id (\<lambda>uid.
      seq (modify (\<lambda>s. s\<lparr>users := put_row u_id
             \<lparr>u_id = uid, username = take 15 (v_username v) @ '' [bot '' @ suffix @ '']'',
              country_code = (if v_country v = [] then ''XX'' else v_country v),
              u_active = True, u_bot = True, u_restricted = False, pm_friends_only = False\<rparr> (users s)\<rparr>))
     (bnd (randbelow (2 ^ 30)) (\<lambda>seed.
        ret \<lparr>bot_user = uid, bot_level = level, bot_ai = ai, official_id = v_official v,
             bot_username = v_username v, official_rank = v_rank v, bot_seed = seed\<rparr>)))))"

definition create_bot_team :: "nat \<Rightarrow> string \<Rightarrow> (visual \<times> ai_profile) list \<Rightarrow> (db, bot list) op" where
  "create_bot_team count level personas =
     bnd (sample_from (min count (length personas)) personas) (\<lambda>choices.
     collect [0..<count] (\<lambda>index.
       if choices = [] then throw (RuntimeErr ''integer modulo by zero'')
       else create_bot level (choices ! (index mod length choices))))"

end
