(* ===== verification/Lobby.thy ===== *)
theory Lobby
  imports Queue BotTeam
begin

text \<open>
  The rest of \<open>somsai_service.py\<close>: custom lobbies, direct invitations, the action gateway
  \<open>handle_action\<close> and the tick of all matches; and the read models of \<open>somsai_service.py\<close>,
  \<open>somsai_rating_service.py\<close> and \<open>somsai_lobby_service.py\<close>.
\<close>

section \<open>Custom lobbies\<close>

definition create_custom ::
  "int \<Rightarrow> string \<Rightarrow> int \<Rightarrow> int \<Rightarrow> int option \<Rightarrow> string \<Rightarrow> int option \<Rightarrow> string option \<Rightarrow> string option
   \<Rightarrow> (visual \<times> ai_profile) list option \<Rightarrow> bool \<Rightarrow> bool \<Rightarrow> (db, unit) op" where
  "create_custom uid fmt ruleset variant pool nm target_mmr target_rank level profiles priv arb =
     (if fmt \<notin> {''1v1'', ''2v2'', ''3v3'', ''4v4''} then reject ''Invalid custom match format.'' 422
      else
        bnd (get_party uid) (\<lambda>party.
        let mems = (case party of None \<Rightarrow> [uid] | Some p \<Rightarrow> members p) in
        if (case party of None \<Rightarrow> False | Some p \<Rightarrow> captain_id p \<noteq> uid)
        then reject ''Only the party captain can create a custom match.'' 403
        else if length mems > team_size fmt
        then reject ''The party is larger than the selected team size.'' 409
        else
          bnd (reserve_members uid mems ''somsai:custom'' (map_option party_id party) None) (\<lambda>res.
          bnd (case (level, profiles) of
                 (Some lv, Some ps) \<Rightarrow> if lv \<noteq> [] \<and> ps \<noteq> [] then create_bot_team (team_size fmt) lv ps else ret []
               | _ \<Rightarrow> ret []) (\<lambda>bts.
          bnd (create_match [mems, map bot_user bts] fmt ruleset variant [res_id res] False (Some uid) pool nm
                 target_mmr target_rank bts) (\<lambda>m.
            seq (touch m ((state m)\<lparr>is_private := priv, arbitrary := arb\<rparr>) None) (ret ()))))))"

text \<open>Whether a private lobby admits a player who is not yet in it.\<close>

definition invited :: "int \<Rightarrow> int \<Rightarrow> db \<Rightarrow> bool" where
  "invited mid uid s \<longleftrightarrow> list_ex (\<lambda>i. di_kind i = ''custom'' \<and> di_match i = Some mid \<and> di_target i = uid
     \<and> di_status i = Accepted) (direct_invites s)"

definition get_reservation :: "string option \<Rightarrow> db \<Rightarrow> reservation_row option" where
  "get_reservation rid s = (case rid of None \<Rightarrow> None | Some r \<Rightarrow> get_row res_id r (reservation_rows s))"

definition seated :: "int list \<Rightarrow> nat \<Rightarrow> int list list \<Rightarrow> int list list" where
  "seated mems team tms =
     (let cleared = map (filter (\<lambda>u. u \<notin> set mems)) tms in cleared[team := cleared ! team @ mems])"

definition joined_state :: "match_state \<Rightarrow> int list \<Rightarrow> nat \<Rightarrow> string list \<Rightarrow> match_state" where
  "joined_state st mems team resv =
     st\<lparr>teams := seated mems team (teams st),
        captains := map (\<lambda>g. case g of [] \<Rightarrow> None | u # _ \<Rightarrow> Some u) (seated mems team (teams st)),
        accepted := [], ready := [], reservations := reservations st @ resv\<rparr>"

definition own_lease :: "match_row \<Rightarrow> int \<Rightarrow> int list \<Rightarrow> activity_row \<Rightarrow> reservation_row option \<Rightarrow> bool" where
  "own_lease m uid mems st r \<longleftrightarrow>
     a_match st = Some (match_id m) \<and>
     (case r of None \<Rightarrow> False
      | Some x \<Rightarrow> res_captain x = uid \<and> res_kind x = ''somsai:custom'' \<and> res_members x = mems)"

definition enter_custom :: "match_row \<Rightarrow> int \<Rightarrow> nat \<Rightarrow> party_row option \<Rightarrow> int list \<Rightarrow> (db, unit) op" where
  "enter_custom m uid team party mems =
     bnd (activity uid) (\<lambda>st.
     let already_joined = uid \<in> set (members_of m) in
     bnd (gets (invited (match_id m) uid)) (\<lambda>allowed.
     if is_private (state m) \<and> \<not> already_joined \<and> \<not> allowed
     then reject ''This is a private custom lobby.'' 403
     else
       bnd (gets (get_reservation (a_reservation st))) (\<lambda>r.
       if already_joined \<and> \<not> own_lease m uid mems st r
       then reject ''Only the party captain can change its team.'' 403
       else if length (filter (\<lambda>u. u \<notin> set mems) (teams (state m) ! team)) + length mems > team_size (match_format m)
       then reject ''The selected team does not have enough free slots.'' 409
       else
         bnd (if already_joined then ret []
              else bnd (reserve_members uid mems ''somsai:custom'' (map_option party_id party) None)
                     (\<lambda>x. ret [res_id x])) (\<lambda>resv.
         bnd (touch m (joined_state (state m) mems team resv) None) (\<lambda>m'.
           for_each mems (set_match_pointer (Some (match_id m'))))))))"

definition join_custom :: "int \<Rightarrow> int option \<Rightarrow> nat \<Rightarrow> (db, unit) op" where
  "join_custom uid mid team =
     bnd (gets (get_match mid)) (\<lambda>found.
     case found of
       None \<Rightarrow> reject ''This custom match is not open for joining.'' 409
     | Some m \<Rightarrow>
         if ranked m \<or> stage m \<noteq> Waiting \<or> team \<notin> {0, 1}
         then reject ''This custom match is not open for joining.'' 409
         else if bots (state m) \<noteq> [] \<and> team = 1
         then reject ''This team is occupied by bots. Join the red team.'' 409
         else
           bnd (get_party uid) (\<lambda>party.
           if (case party of None \<Rightarrow> False | Some p \<Rightarrow> captain_id p \<noteq> uid)
           then reject ''Only the party captain can join a match.'' 403
           else enter_custom m uid team party (case party of None \<Rightarrow> [uid] | Some p \<Rightarrow> members p)))"

section \<open>Direct invitations\<close>

definition put_direct :: "direct_invite \<Rightarrow> (db, unit) op" where
  "put_direct i = modify (\<lambda>s. s\<lparr>direct_invites := put_row di_id i (direct_invites s)\<rparr>)"

definition leased :: "int \<Rightarrow> (db, bool) op" where
  "leased uid = bnd (activity uid) (\<lambda>st. ret (a_reservation st \<noteq> None))"

definition pending_direct :: "string \<Rightarrow> int \<Rightarrow> int \<Rightarrow> db \<Rightarrow> direct_invite option" where
  "pending_direct kind uid target s =
     find (\<lambda>i. di_kind i = kind \<and> di_inviter i = uid \<and> di_target i = target \<and> di_status i = Pending
        \<and> di_expires i > now s) (direct_invites s)"

definition add_direct ::
  "int \<Rightarrow> int \<Rightarrow> string \<Rightarrow> int option \<Rightarrow> int \<Rightarrow> int \<Rightarrow> (db, unit) op" where
  "add_direct uid target kind mid ruleset variant =
     bnd (gets (pending_direct kind uid target)) (\<lambda>previous.
     if previous \<noteq> None then ret ()
     else
       bnd fresh_id (\<lambda>iid.
       bnd (gets now) (\<lambda>t.
         put_direct \<lparr>di_id = iid, di_kind = kind, di_inviter = uid, di_target = target, di_match = mid,
           di_ruleset = ruleset, di_variant = variant, di_status = Pending, di_expires = t + minutes 5\<rparr>)))"

definition direct_invite ::
  "int \<Rightarrow> int option \<Rightarrow> string option \<Rightarrow> int \<Rightarrow> int \<Rightarrow> int option \<Rightarrow> (db, unit) op" where
  "direct_invite uid target_id kind ruleset variant mid =
     (case (target_id, kind) of
        (Some target, Some kd) \<Rightarrow>
          if target = uid \<or> kd \<notin> {''duel'', ''custom''}
          then reject ''Select another player and an invitation type.'' 422
          else
            seq (active_user target)
           (seq (assert_not_blocked uid target)
           (bnd (leased target) (\<lambda>busy.
            if busy then reject ''This player is already in matchmaking or a match.'' 409
            else if kd = ''duel'' then
              bnd (leased uid) (\<lambda>own.
              if own then reject ''Leave matchmaking or the current match first.'' 409
              else add_direct uid target kd None ruleset variant)
            else
              bnd (gets (get_match mid)) (\<lambda>found.
              case found of
                None \<Rightarrow> reject ''Open a custom lobby before inviting players.'' 409
              | Some m \<Rightarrow>
                  if ranked m \<or> stage m \<noteq> Waiting \<or> uid \<notin> set (members_of m)
                  then reject ''Open a custom lobby before inviting players.'' 409
                  else add_direct uid target kd mid (ruleset_id m) (variant_id m)))))
      | _ \<Rightarrow> reject ''Select another player and an invitation type.'' 422)"

definition start_duel :: "int \<Rightarrow> direct_invite \<Rightarrow> (db, unit) op" where
  "start_duel uid i =
     bnd (leased (di_inviter i)) (\<lambda>b1.
     bnd (if b1 then ret True else leased uid) (\<lambda>b.
     if b then reject ''One of the players is already in matchmaking or a match.'' 409
     else
       bnd (reserve_members (di_inviter i) [di_inviter i] ''somsai:duel'' None None) (\<lambda>left.
       bnd (reserve_members uid [uid] ''somsai:duel'' None None) (\<lambda>right.
       bnd (create_match [[di_inviter i], [uid]] ''1v1'' (di_ruleset i) (di_variant i) [res_id left, res_id right]
              False (Some (di_inviter i)) None ''SOMSAI Duel'' None None []) (\<lambda>m.
       seq (start_draft m) (put_direct (i\<lparr>di_status := Accepted\<rparr>)))))))"

definition direct_invite_action :: "int \<Rightarrow> int option \<Rightarrow> bool \<Rightarrow> (db, unit) op" where
  "direct_invite_action uid invitation accept =
     bnd (gets now) (\<lambda>t.
     bnd (gets (\<lambda>s. case invitation of None \<Rightarrow> None | Some k \<Rightarrow> get_row di_id k (direct_invites s))) (\<lambda>found.
     case found of
       None \<Rightarrow> reject ''This invitation is no longer available.'' 409
     | Some i \<Rightarrow>
         if di_target i \<noteq> uid \<or> di_status i \<noteq> Pending \<or> di_expires i \<le> t
         then reject ''This invitation is no longer available.'' 409
         else if \<not> accept then put_direct (i\<lparr>di_status := Declined\<rparr>)
         else
           seq (assert_not_blocked (di_inviter i) uid)
             (if di_kind i = ''custom'' then
                bnd (gets (get_match (di_match i))) (\<lambda>fm.
                case fm of
                  None \<Rightarrow> reject ''This custom lobby is no longer available.'' 409
                | Some m \<Rightarrow>
                    if ranked m \<or> stage m \<noteq> Waiting \<or> di_inviter i \<notin> set (members_of m)
                    then reject ''This custom lobby is no longer available.'' 409
                    else put_direct (i\<lparr>di_status := Accepted\<rparr>))
              else if di_kind i \<noteq> ''duel'' then reject ''Unknown invitation type.'' 422
              else start_duel uid i)))"

section \<open>The action gateway\<close>

record action_payload =
  p_action :: string
  p_format :: string
  p_ruleset :: int
  p_variant :: int
  p_target :: "int option"
  p_target_name :: "string option"
  p_invitation :: "int option"
  p_invite_kind :: "string option"
  p_match :: "int option"
  p_slot :: "string option"
  p_revision :: "nat option"
  p_team :: nat
  p_pool :: "int option"
  p_target_mmr :: "int option"
  p_target_rank :: "string option"
  p_name :: string
  p_with_bots :: bool
  p_private :: bool
  p_arbitrary :: bool
  p_bot_level :: string

definition handle_action ::
  "int \<Rightarrow> action_payload \<Rightarrow> (visual \<times> ai_profile) list option \<Rightarrow> (db, unit) op" where
  "handle_action uid p profiles =
     seq (validate_mode (p_ruleset p) (p_variant p))
    (seq (active_user uid)
      (let action = p_action p in
       if starts_with action ''party_''
       then party_action uid action (p_target p) (p_invitation p) (p_target_name p)
       else if action = ''direct_invite''
       then direct_invite uid (p_target p) (p_invite_kind p) (p_ruleset p) (p_variant p) (p_match p)
       else if action \<in> {''direct_accept'', ''direct_decline''}
       then direct_invite_action uid (p_invitation p) (action = ''direct_accept'')
       else if action = ''queue_join'' then join_queue uid (p_format p) (p_ruleset p) (p_variant p)
       else if action = ''queue_leave'' then leave_queue uid
       else if action = ''custom_create''
       then create_custom uid (p_format p) (p_ruleset p) (p_variant p) (p_pool p) (p_name p) (p_target_mmr p)
              (p_target_rank p) (if p_with_bots p then Some (p_bot_level p) else None) profiles
              (p_private p) (p_arbitrary p)
       else if action = ''custom_join'' then join_custom uid (p_match p) (p_team p)
       else
         bnd (gets (get_match (p_match p))) (\<lambda>found.
         case found of
           None \<Rightarrow> reject ''Match not found.'' 404
         | Some m \<Rightarrow>
             seq (match_action m uid action (p_slot p) (p_revision p) (p_pool p)) (ret ()))))"

section \<open>The tick\<close>

definition tick_one :: "(int \<Rightarrow> nat \<Rightarrow> real) \<Rightarrow> int \<Rightarrow> (db, unit) op" where
  "tick_one rng mid =
     bnd (gets (get_match (Some mid))) (\<lambda>found.
     case found of None \<Rightarrow> ret () | Some m \<Rightarrow> seq (tick_match rng m) (ret ()))"

definition tick :: "(int \<Rightarrow> nat \<Rightarrow> real) \<Rightarrow> (db, unit) op" where
  "tick rng =
     seq match_queues
      (bnd (gets (\<lambda>s. filter (\<lambda>m. stage m \<notin> FINAL_STAGES) (matches s))) (\<lambda>ms.
         for_each (map match_id ms) (tick_one rng)))"

text \<open>The scheduled job: a failed tick is logged and rolled back.\<close>

definition somsai_tick_job :: "(int \<Rightarrow> nat \<Rightarrow> real) \<Rightarrow> (db, unit) op" where
  "somsai_tick_job rng = attempt (somsai_transaction (tick rng)) (\<lambda>_. ret ())"

section \<open>Lobbies and the invariants of the session\<close>

context service_invariant
begin

lemma keeps_sample [keeps_rules]: "keeps (I M) (sample_from n xs)"
  by (induction n xs rule: sample_from.induct) (auto intro!: keeps_rules)

lemma keeps_create_bot [keeps_rules]: "keeps (I M) (create_bot level persona)"
  unfolding create_bot_def token_hex4_def Let_def
  by (intro keeps_rules keeps_frame) (simp add: quiet_defs)

lemma keeps_bot_team [keeps_rules]: "keeps (I M) (create_bot_team n level ps)"
  unfolding create_bot_team_def by (intro keeps_rules)

lemma core_lobby [simp]:
  "core (st\<lparr>is_private := p, arbitrary := q\<rparr>) = core st"
  "length (teams st) = length (captains st) \<Longrightarrow> core (joined_state st mems team resv) = core st"
  "current_slot (joined_state st mems team resv) = current_slot st"
  by (simp_all add: core_def joined_state_def seated_def Let_def)

lemma keeps_create_custom [keeps_rules]: "keeps (I M) (create_custom u fmt rs v pool nm tm tr lv ps pr ar)"
proof -
  have "keeps (I (m # M)) (touch m ((state m)\<lparr>is_private := pr, arbitrary := ar\<rparr>) None)" if "stage m = Waiting" for m
    using that by (intro adjusts[THEN conjunct1]) (simp_all add: FINAL_STAGES_def)
  then show ?thesis
    unfolding create_custom_def Let_def by (intro keeps_create keeps_rules) simp_all
qed

lemma keeps_enter_custom:
  assumes "m \<in> set M" "stage m = Waiting"
  shows "keeps (I M) (enter_custom m u team party mems)"
proof -
  have "keeps (I M) (touch m (joined_state (state m) mems team resv) None)" for resv
    using assms by (intro adjusts[THEN conjunct1]) (simp_all add: FINAL_STAGES_def)
  then show ?thesis unfolding enter_custom_def Let_def by (intro keeps_rules)
qed

lemma keeps_join_custom [keeps_rules]: "keeps (I M) (join_custom u mid team)"
  unfolding join_custom_def by (intro keeps_get_match keeps_enter_custom keeps_rules) auto

lemma keeps_put_direct [keeps_rules]: "keeps (I M) (put_direct i)"
  unfolding put_direct_def by (rule keeps_frame) (simp add: quiet_defs)

lemma keeps_direct_invite [keeps_rules]: "keeps (I M) (direct_invite u tid kind rs v mid)"
  unfolding direct_invite_def add_direct_def leased_def Let_def by (intro keeps_rules)

lemma keeps_start_duel [keeps_rules]: "keeps (I M) (start_duel u i)"
  unfolding start_duel_def leased_def by (intro keeps_create begins keeps_rules) simp_all

lemma keeps_direct_action [keeps_rules]: "keeps (I M) (direct_invite_action u ivt acc)"
  unfolding direct_invite_action_def Let_def by (intro keeps_rules)

lemma keeps_handle_action [keeps_rules]: "keeps (I M) (handle_action u p profiles)"
  unfolding handle_action_def validate_mode_def Let_def by (intro keeps_get_match acts keeps_rules) auto

lemma keeps_tick_one [keeps_rules]: "keeps (I M) (tick_one rng mid)"
  unfolding tick_one_def by (intro keeps_get_match ticks keeps_rules) auto

lemma keeps_tick [keeps_rules]: "keeps (I M) (tick rng)"
  unfolding tick_def by (intro keeps_rules)

lemma keeps_tick_job [keeps_rules]: "keeps (I M) (somsai_tick_job rng)"
  unfolding somsai_tick_job_def by (intro keeps_rules)

end

end
