(* ===== verification/Presence.thy ===== *)
theory Presence
  imports Lobby
begin

text \<open>
  The read models: \<open>rating_payload\<close>, the leaderboard and party chat of \<open>somsai_lobby_service.py\<close>,
  the presence and state snapshots of \<open>somsai_service.py\<close> (which also renew and expire queue
  entries), and the administrative rating change of \<open>somsai_mmr_service.py\<close>.

  The chat lives in Redis; its keys are the fields of \<open>chat\<close>, and whether the throttle key is still
  set is an argument.  \<open>mmr_version\<close> is a digest of the row, a parameter.
\<close>

section \<open>Ratings of visible players\<close>

definition visible :: "int \<Rightarrow> db \<Rightarrow> bool" where
  "visible uid s \<longleftrightarrow> (case find_user uid s of
     None \<Rightarrow> False | Some u \<Rightarrow> u_active u \<and> \<not> u_bot u \<and> \<not> u_restricted u)"

definition re_user :: "rating_entry \<Rightarrow> int" where
  "re_user re = fst (re_key re)"

definition re_mode :: "rating_entry \<Rightarrow> int \<times> int \<times> string" where
  "re_mode re = snd (re_key re)"

definition ahead :: "rating_entry \<Rightarrow> rating_entry \<Rightarrow> bool" where
  "ahead q re \<longleftrightarrow> rating (re_row q) > rating (re_row re)
     \<or> (rating (re_row q) = rating (re_row re) \<and> re_user q < re_user re)"

record rating_view =
  rv_rating :: int
  rv_rank :: nat
  rv_row :: rating_row
  rv_provisional :: bool
  rv_initial_rank :: "int option"

definition rating_payload :: "rating_entry \<Rightarrow> db \<Rightarrow> rating_view" where
  "rating_payload re s =
     \<lparr>rv_rating = py_round (rating (re_row re)),
      rv_rank = length (filter (\<lambda>q. re_mode q = re_mode re \<and> visible (re_user q) s \<and> ahead q re)
                  (rating_entries s)) + 1,
      rv_row = re_row re, rv_provisional = (games (re_row re) < 10), rv_initial_rank = re_rank re\<rparr>"

text \<open>\<open>ORDER BY rating DESC, user_id\<close>\<close>

definition ranking :: "int \<times> int \<times> string \<Rightarrow> db \<Rightarrow> rating_entry list" where
  "ranking mode s = sort_key (\<lambda>re. (- rating (re_row re), re_user re))
     (filter (\<lambda>re. re_mode re = mode \<and> visible (re_user re) s) (rating_entries s))"

record board_entry =
  be_user :: user_payload_row
  be_rating :: real
  be_rank :: nat
  be_wins :: int
  be_losses :: int

record board =
  bd_items :: "board_entry list"
  bd_self :: board_entry
  bd_has_more :: bool
  bd_page :: nat

definition board_line :: "rating_entry \<Rightarrow> nat \<Rightarrow> (db, board_entry) op" where
  "board_line re position =
     bnd (user_payload (re_user re)) (\<lambda>u.
       ret \<lparr>be_user = u, be_rating = rating (re_row re), be_rank = position,
            be_wins = wins_count (re_row re), be_losses = losses_count (re_row re)\<rparr>)"

definition leaderboard :: "int \<Rightarrow> int \<Rightarrow> int \<Rightarrow> string \<Rightarrow> int \<Rightarrow> (db, board) op" where
  "leaderboard uid ruleset variant fmt page =
     seq (validate_mode ruleset variant)
      (if fmt \<notin> {''1v1'', ''2v2''} \<or> page < 1 \<or> page > 10000 then reject ''Unknown format or page.'' 422
       else
         bnd (ensure_rating uid ruleset variant fmt) (\<lambda>own.
         let offset = (nat page - 1) * 50 in
         bnd (gets (\<lambda>s. take 51 (drop offset (ranking (ruleset, variant, fmt) s)))) (\<lambda>rows.
         bnd (gets (rating_payload own)) (\<lambda>own_view.
         bnd (collect (enumerate 0 (take 50 rows)) (\<lambda>(i, re). board_line re (offset + i + 1))) (\<lambda>items.
         bnd (board_line own (rv_rank own_view)) (\<lambda>self.
           ret \<lparr>bd_items = items, bd_self = self, bd_has_more = (length rows > 50), bd_page = nat page\<rparr>))))))"

section \<open>Party chat\<close>

record chat_message =
  cm_id :: nat
  cm_party :: int
  cm_sender :: user_payload_row
  cm_content :: string
  cm_time :: time

record chat =
  chat_log :: "(int \<times> chat_message list) list"
  chat_sequence :: "(int \<times> nat) list"

definition log_of :: "int \<Rightarrow> chat \<Rightarrow> chat_message list" where
  "log_of pid c = (case map_of (chat_log c) pid of None \<Rightarrow> [] | Some l \<Rightarrow> l)"

definition sequence_of :: "int \<Rightarrow> chat \<Rightarrow> nat" where
  "sequence_of pid c = (case map_of (chat_sequence c) pid of None \<Rightarrow> 0 | Some n \<Rightarrow> n)"

text \<open>\<open>RPUSH\<close> then \<open>LTRIM key -100 -1\<close>.\<close>

definition last_100 :: "'a list \<Rightarrow> 'a list" where
  "last_100 xs = drop (length xs - 100) xs"

definition push_message :: "int \<Rightarrow> user_payload_row \<Rightarrow> string \<Rightarrow> time \<Rightarrow> chat \<Rightarrow> chat" where
  "push_message pid sender text t c =
     (let n = sequence_of pid c + 1;
          value = \<lparr>cm_id = n, cm_party = pid, cm_sender = sender, cm_content = text, cm_time = t\<rparr>
      in c\<lparr>chat_sequence := put_key pid n (chat_sequence c),
           chat_log := put_key pid (last_100 (log_of pid c @ [value])) (chat_log c)\<rparr>)"

definition party_chat :: "int \<Rightarrow> string option \<Rightarrow> bool \<Rightarrow> chat \<Rightarrow> (db, (int option \<times> chat_message list) \<times> chat) op" where
  "party_chat uid message throttled c =
     bnd (get_party uid) (\<lambda>party.
     case party of
       None \<Rightarrow> (case message of Some _ \<Rightarrow> reject ''Invite a friend to the party first.'' 409
                | None \<Rightarrow> ret ((None, []), c))
     | Some p \<Rightarrow>
         (case message of
            None \<Rightarrow> ret ((Some (party_id p), log_of (party_id p) c), c)
          | Some raw \<Rightarrow>
              let text = py_strip raw in
              if text = [] \<or> length text > 500 then reject ''Messages must contain between 1 and 500 characters.'' 422
              else if throttled then reject ''Too many messages. Wait a second.'' 429
              else
                bnd (user_payload uid) (\<lambda>sender.
                bnd (gets now) (\<lambda>t.
                let c' = push_message (party_id p) sender text t c in
                ret ((Some (party_id p), log_of (party_id p) c'), c')))))"

section \<open>Presence and public state\<close>

text \<open>Looking at an own queue entry: an expired one is dropped, a live one renewed.\<close>

definition refresh_entry :: "string option \<Rightarrow> (db, queue_row option) op" where
  "refresh_entry rid =
     bnd (gets now) (\<lambda>t.
     bnd (gets (find_queue rid)) (\<lambda>entry.
     case entry of
       None \<Rightarrow> ret None
     | Some e \<Rightarrow>
         if q_expires e \<le> t then seq (drop_entry e) (ret None)
         else let e' = e\<lparr>q_expires := t + seconds 90\<rparr> in seq (put_queue e') (ret (Some e'))))"

definition own_match :: "int \<Rightarrow> int option \<Rightarrow> (db, match_view option) op" where
  "own_match uid mid =
     bnd (gets (get_match mid)) (\<lambda>found.
     case found of
       None \<Rightarrow> ret None
     | Some m \<Rightarrow> if uid \<in> set (members_of m) then bnd (match_payload m) (\<lambda>v. ret (Some v)) else ret None)"

record presence =
  pr_party :: party_view
  pr_direct :: "(int \<times> string \<times> int option \<times> user_payload_row) list"
  pr_queue :: "queue_row option"
  pr_ban :: dodge_state
  pr_match :: "match_view option"

text \<open>
  \<open>match = session.get(SomsaiMatch, user_state.match_id)\<close> reads the activity row after the queue
  entry may have been released, hence the second \<open>activity\<close>.
\<close>

definition global_presence :: "int \<Rightarrow> (db, presence) op" where
  "global_presence uid =
     seq (active_user uid)
      (bnd (gets now) (\<lambda>t.
       seq (set_activity uid (\<lambda>a. a\<lparr>last_seen_at := t\<rparr>))
      (bnd (activity uid) (\<lambda>st.
       bnd (refresh_entry (a_reservation st)) (\<lambda>queue.
       bnd (activity uid) (\<lambda>st2.
       bnd (party_snapshot uid) (\<lambda>party.
       bnd (dodge_status uid) (\<lambda>penalty.
       bnd (gets (\<lambda>s. filter (\<lambda>i. di_target i = uid \<and> di_status i = Pending \<and> di_expires i > t) (direct_invites s))) (\<lambda>rows.
       bnd (collect rows (\<lambda>i. bnd (user_payload (di_inviter i)) (\<lambda>u. ret (di_id i, di_kind i, di_match i, u)))) (\<lambda>direct.
       bnd (own_match uid (a_match st2)) (\<lambda>m.
         ret \<lparr>pr_party = party, pr_direct = direct, pr_queue = queue, pr_ban = penalty, pr_match = m\<rparr>)))))))))))"

datatype outcome = CancelledMatch | Draw | Win | Loss

record recent_match =
  rm_match :: int
  rm_outcome :: outcome
  rm_wins :: "nat list"
  rm_local_team :: "nat option"
  rm_opponents :: "int list"
  rm_delta :: int

definition local_team :: "match_row \<Rightarrow> int \<Rightarrow> nat option" where
  "local_team m uid = (let i = team_index m uid in if i < length (teams (state m)) then Some i else None)"

definition recent_payload :: "int \<Rightarrow> match_row \<Rightarrow> recent_match" where
  "recent_payload uid m =
     (let st = state m; mine = local_team m uid in
      \<lparr>rm_match = match_id m,
       rm_outcome = (if stage m = Cancelled then CancelledMatch
                     else case match_winner st of
                            None \<Rightarrow> Draw | Some w \<Rightarrow> if Some w = mine then Win else Loss),
       rm_wins = wins st, rm_local_team = mine,
       rm_opponents = concat (map snd (filter (\<lambda>(i, g). Some i \<noteq> mine) (enumerate 0 (teams st)))),
       rm_delta = (case find (\<lambda>c. rc_user c = uid) (rating_changes st) of None \<Rightarrow> 0 | Some c \<Rightarrow> rc_delta c)\<rparr>)"

definition newest :: "match_row list \<Rightarrow> match_row list" where
  "newest ms = sort_key (\<lambda>m. - match_id m) ms"

definition recent_of :: "int \<Rightarrow> db \<Rightarrow> recent_match list" where
  "recent_of uid s =
     map (recent_payload uid)
       (take 20 (filter (\<lambda>m. uid \<in> set (members_of m))
         (take 100 (newest (filter (\<lambda>m. stage m = Ended) (matches s))))))"

record lobby_line =
  lb_match :: int
  lb_format :: string
  lb_participants :: nat
  lb_capacity :: nat
  lb_owner :: int
  lb_private :: bool

definition lobby_line_of :: "match_row \<Rightarrow> lobby_line" where
  "lobby_line_of m =
     \<lparr>lb_match = match_id m, lb_format = (if arbitrary (state m) then ''Custom'' else match_format m),
      lb_participants = length (members_of m), lb_capacity = team_size (match_format m) * 2,
      lb_owner = owner_id m, lb_private = is_private (state m)\<rparr>"

text \<open>Open custom lobbies: private ones only for players with an accepted, unexpired invitation.\<close>

definition customs_for :: "int \<Rightarrow> int \<Rightarrow> int \<Rightarrow> db \<Rightarrow> lobby_line list" where
  "customs_for uid ruleset variant s =
     (let open_lobbies = take 30 (newest (filter (\<lambda>m. ruleset_id m = ruleset \<and> variant_id m = variant
            \<and> \<not> ranked m \<and> stage m = Waiting) (matches s)));
          invited_ids = map di_match (filter (\<lambda>i. di_kind i = ''custom'' \<and> di_target i = uid
            \<and> di_status i = Accepted \<and> di_expires i > now s) (direct_invites s))
      in map lobby_line_of (filter (\<lambda>m. \<not> is_private (state m) \<or> Some (match_id m) \<in> set invited_ids) open_lobbies))"

record state_view =
  sv_ratings :: "(string \<times> rating_view) list"
  sv_party :: party_view
  sv_member_ratings :: "(int \<times> (string \<times> rating_view) list) list"
  sv_queue :: "queue_row option"
  sv_ban :: dodge_state
  sv_match :: "match_view option"
  sv_customs :: "lobby_line list"
  sv_recent :: "recent_match list"

definition ratings_of :: "int \<Rightarrow> int \<Rightarrow> int \<Rightarrow> (db, (string \<times> rating_view) list) op" where
  "ratings_of uid ruleset variant =
     collect [''1v1'', ''2v2''] (\<lambda>fmt.
       bnd (ensure_rating uid ruleset variant fmt) (\<lambda>re.
       bnd (gets (rating_payload re)) (\<lambda>v. ret (fmt, v))))"

definition public_state :: "int \<Rightarrow> int \<Rightarrow> int \<Rightarrow> (db, state_view) op" where
  "public_state uid ruleset variant =
     seq (validate_mode ruleset variant)
    (seq (active_user uid)
    (bnd (ratings_of uid ruleset variant) (\<lambda>own.
     bnd (activity uid) (\<lambda>st.
     bnd (refresh_entry (a_reservation st)) (\<lambda>queue.
     bnd (activity uid) (\<lambda>st2.
     bnd (gets (customs_for uid ruleset variant)) (\<lambda>customs.
     bnd (gets (recent_of uid)) (\<lambda>recent.
     bnd (party_snapshot uid) (\<lambda>party.
     bnd (collect (pv_members party) (\<lambda>u. bnd (ratings_of u ruleset variant) (\<lambda>rs. ret (u, rs)))) (\<lambda>member_ratings.
     bnd (dodge_status uid) (\<lambda>penalty.
     bnd (own_match uid (a_match st2)) (\<lambda>m.
       ret \<lparr>sv_ratings = own, sv_party = party, sv_member_ratings = member_ratings, sv_queue = queue,
            sv_ban = penalty, sv_match = m, sv_customs = customs, sv_recent = recent\<rparr>))))))))))))"

text \<open>\<open>POST /somsai/actions\<close> and \<open>GET /somsai/state\<close>: one coordinated transaction each.\<close>

definition somsai_action ::
  "int \<Rightarrow> action_payload \<Rightarrow> (visual \<times> ai_profile) list option \<Rightarrow> (db, state_view) op" where
  "somsai_action uid p profiles =
     somsai_transaction (seq (handle_action uid p profiles) (public_state uid (p_ruleset p) (p_variant p)))"

definition somsai_match :: "int \<Rightarrow> int \<Rightarrow> (db, match_view) op" where
  "somsai_match uid mid =
     somsai_transaction (bnd (gets (get_match (Some mid))) (\<lambda>found.
       case found of
         None \<Rightarrow> reject ''Match unavailable.'' 404
       | Some m \<Rightarrow> if uid \<in> set (members_of m) then match_payload m else reject ''Match unavailable.'' 404))"

section \<open>Administrative rating change\<close>

definition MODES :: "(int \<times> int) list" where
  "MODES = [(0, 0), (1, 0), (2, 0), (3, 4), (3, 7)]"

definition MAX_ADMIN_MMR :: int where
  "MAX_ADMIN_MMR = 5000"

definition validate_mmr_mode :: "int \<Rightarrow> int \<Rightarrow> string \<Rightarrow> (db, unit) op" where
  "validate_mmr_mode ruleset variant fmt =
     (if (ruleset, variant) \<notin> set MODES \<or> fmt \<notin> {''1v1'', ''2v2''} then reject ''Unknown SOMSAI mode'' 422 else ret ())"

record mmr_view =
  mm_key :: string
  mm_mmr :: "real option"
  mm_games :: int
  mm_version :: string

definition admin_payload ::
  "(rating_entry option \<Rightarrow> string) \<Rightarrow> rating_entry option \<Rightarrow> int \<Rightarrow> int \<Rightarrow> string \<Rightarrow> mmr_view" where
  "admin_payload mmr_version row ruleset variant fmt =
     \<lparr>mm_key = int_str ruleset @ '':'' @ int_str variant @ '':'' @ fmt,
      mm_mmr = map_option (\<lambda>r. rating (re_row r)) row,
      mm_games = (case row of None \<Rightarrow> 0 | Some r \<Rightarrow> games (re_row r)), mm_version = mmr_version row\<rparr>"

definition list_somsai_mmr :: "(rating_entry option \<Rightarrow> string) \<Rightarrow> int \<Rightarrow> db \<Rightarrow> mmr_view list" where
  "list_somsai_mmr mmr_version uid s =
     concat (map (\<lambda>(mode, variant). map (\<lambda>fmt.
       admin_payload mmr_version (get_row re_key (uid, mode, variant, fmt) (rating_entries s)) mode variant fmt)
       [''1v1'', ''2v2'']) MODES)"

definition match_is_live :: "int option \<Rightarrow> db \<Rightarrow> bool" where
  "match_is_live mid s \<longleftrightarrow> (case get_match mid s of None \<Rightarrow> False | Some m \<Rightarrow> stage m \<notin> FINAL_STAGES)"

definition change_somsai_mmr ::
  "(rating_entry option \<Rightarrow> string) \<Rightarrow> int \<Rightarrow> int \<Rightarrow> int \<Rightarrow> string \<Rightarrow> int \<Rightarrow> string \<Rightarrow> (db, mmr_view \<times> mmr_view) op" where
  "change_somsai_mmr mmr_version uid ruleset variant fmt mmr expected =
     seq (validate_mmr_mode ruleset variant fmt)
      (if \<not> (0 \<le> mmr \<and> mmr \<le> MAX_ADMIN_MMR) then reject ''SOMSAI MMR must be an integer between 0 and 5000'' 422
       else
         seq lock_somsai
          (bnd (gets (\<lambda>s. case get_row a_user uid (activities s) of
                  None \<Rightarrow> False
                | Some st \<Rightarrow> a_reservation st \<noteq> None \<or> match_is_live (a_match st) s)) (\<lambda>busy.
           if busy then reject ''The player must leave matchmaking or the match before changing SOMSAI MMR'' 409
           else
             bnd (gets (\<lambda>s. get_row re_key (uid, ruleset, variant, fmt) (rating_entries s))) (\<lambda>row.
             if mmr_version row \<noteq> expected then reject ''SOMSAI MMR changed. Refresh the player data'' 409
             else
               bnd (ensure_rating uid ruleset variant fmt) (\<lambda>re.
               let re' = re\<lparr>re_row := (re_row re)\<lparr>rating := of_int mmr, last_delta := 0\<rparr>\<rparr> in
               seq (modify (\<lambda>s. s\<lparr>rating_entries := put_row re_key re' (rating_entries s)\<rparr>))
                   (ret (admin_payload mmr_version row ruleset variant fmt,
                         admin_payload mmr_version (Some re') ruleset variant fmt)))))))"

definition profile_position :: "int \<Rightarrow> int \<times> int \<times> string \<Rightarrow> db \<Rightarrow> (real \<times> nat) option" where
  "profile_position uid mode s =
     (let r = ranking mode s in
      case find (\<lambda>re. re_user re = uid) r of
        None \<Rightarrow> None
      | Some re \<Rightarrow> Some (rating (re_row re), index_of uid (map re_user r) + 1))"

definition somsai_profile_payload :: "int \<Rightarrow> int \<Rightarrow> int \<Rightarrow> string \<Rightarrow> (db, (real \<times> nat) option) op" where
  "somsai_profile_payload uid mode mania_variant fmt =
     (let variant = (if mode = 3 then mania_variant else 0) in
      seq (validate_mmr_mode mode variant fmt) (gets (profile_position uid (mode, variant, fmt))))"

section \<open>Snapshots and the invariants of the session\<close>

context service_invariant
begin

lemma keeps_refresh_entry [keeps_rules]: "keeps (I M) (refresh_entry rid)"
  unfolding refresh_entry_def Let_def by (intro keeps_rules)

lemma keeps_own_match [keeps_rules]: "keeps (I M) (own_match u mid)"
  unfolding own_match_def by (intro keeps_rules)

lemma keeps_global_presence [keeps_rules]: "keeps (I M) (global_presence u)"
  unfolding global_presence_def by (intro keeps_rules keeps_activity_field) simp_all

lemma keeps_public_state [keeps_rules]: "keeps (I M) (public_state u rs v)"
  unfolding public_state_def ratings_of_def validate_mode_def by (intro keeps_rules)

lemma keeps_action [keeps_rules]: "keeps (I M) (somsai_action u p profiles)"
  unfolding somsai_action_def by (intro keeps_rules)

lemma keeps_match_view [keeps_rules]: "keeps (I M) (somsai_match u mid)"
  unfolding somsai_match_def by (intro keeps_rules)

lemma keeps_leaderboard [keeps_rules]: "keeps (I M) (leaderboard u rs v fmt page)"
  unfolding leaderboard_def board_line_def validate_mode_def Let_def by (intro keeps_rules)

lemma keeps_chat [keeps_rules]: "keeps (I M) (party_chat u msg thr c)"
  unfolding party_chat_def Let_def by (intro keeps_rules)

lemma keeps_change_mmr [keeps_rules]: "keeps (I M) (change_somsai_mmr ver u rs v fmt mmr ex)"
  unfolding change_somsai_mmr_def validate_mmr_mode_def Let_def
  by (intro keeps_rules keeps_frame) (simp add: quiet_defs)

end

end
