(* ===== verification/Interop.thy ===== *)
theory Interop
  imports Presence
begin

text \<open>
  \<open>routers/somsai_lio.py\<close>: the endpoints of the spectator server, each one coordinated
  transaction.  \<open>internal_bot_beatmap\<close> downloads the chart from the fetcher; its guard is modelled.
\<close>

definition match_of_room :: "int \<Rightarrow> db \<Rightarrow> match_row option" where
  "match_of_room room s = find (\<lambda>m. room_id m = Some room) (matches s)"

definition internal_bot_beatmap :: "int \<Rightarrow> int \<Rightarrow> (db, slot) op" where
  "internal_bot_beatmap room item =
     bnd (gets (match_of_room room)) (\<lambda>found.
     case found of
       None \<Rightarrow> reject ''Bot round unavailable.'' 409
     | Some m \<Rightarrow>
         if bots (state m) = [] \<or> stage m \<notin> {Ready, Playing} \<or> playlist_item_id (state m) \<noteq> item
         then reject ''Bot round unavailable.'' 409
         else (case find (\<lambda>x. Some (slot_id x) = current_slot (state m)) (slots (state m)) of
                 None \<Rightarrow> throw KeyErr | Some x \<Rightarrow> ret x))"

definition bot_results ::
  "int \<Rightarrow> int \<Rightarrow> (int \<times> bot_score) list \<Rightarrow> (db, match_view) op" where
  "bot_results room item results =
     bnd (gets (match_of_room room)) (\<lambda>found.
     case found of
       None \<Rightarrow> reject ''The bot round has already changed.'' 409
     | Some m \<Rightarrow>
         if ranked m \<or> stage m \<notin> {Playing, Results} \<or> playlist_item_id (state m) \<noteq> item
         then reject ''The bot round has already changed.'' 409
         else if set (map fst results) \<noteq> set (bot_ids (state m))
                 \<or> length results \<noteq> card (set (bot_ids (state m)))
         then reject ''The bot lineup does not match.'' 422
         else if bot_scores (state m) \<noteq> [] \<and> \<not> same_dict (bot_scores (state m)) results
         then reject ''The round results have already been saved.'' 409
         else bnd (save (m\<lparr>state := (state m)\<lparr>bot_scores := results\<rparr>\<rparr>)) match_payload)"

definition internal_bot_results ::
  "int \<Rightarrow> int \<Rightarrow> (int \<times> bot_score) list \<Rightarrow> (db, match_view) op" where
  "internal_bot_results room item results = somsai_transaction (bot_results room item results)"

definition native_claim :: "int \<Rightarrow> int \<Rightarrow> (db, unit) op" where
  "native_claim room uid =
     bnd (activity uid) (\<lambda>st.
     seq (case a_reservation st of
            None \<Rightarrow> ret ()
          | Some rid \<Rightarrow>
              bnd (gets (get_match (a_match st))) (\<lambda>found.
              case found of
                None \<Rightarrow> release_reservation rid
              | Some m \<Rightarrow>
                  if stage m \<notin> FINAL_STAGES then
                    do_if (room_id m \<noteq> Some room)
                      (seq (match_action m uid ''leave_match'' None None None) (ret ()))
                  else release_reservation rid))
         (claim_native_room uid room))"

definition internal_native_claim :: "int \<Rightarrow> int \<Rightarrow> (db, unit) op" where
  "internal_native_claim room uid = somsai_transaction (native_claim room uid)"

definition internal_native_release :: "int \<Rightarrow> int \<Rightarrow> (db, unit) op" where
  "internal_native_release room uid = somsai_transaction (release_native_room uid room)"

definition internal_party :: "int \<Rightarrow> (db, party_view) op" where
  "internal_party uid = somsai_transaction (party_snapshot uid)"

text \<open>\<open>native_reserve\<close> only refuses; the code that once served it is no longer reachable.\<close>

definition native_reserve :: "(db, unit) op" where
  "native_reserve = reject ''Use official osu!lazer.'' 403"

definition internal_reserve :: "(db, unit) op" where
  "internal_reserve = somsai_transaction native_reserve"

definition internal_renew :: "string \<Rightarrow> (db, unit) op" where
  "internal_renew rid = somsai_transaction (renew_reservation rid)"

definition internal_release :: "string \<Rightarrow> (db, unit) op" where
  "internal_release rid = somsai_transaction (release_reservation rid)"

definition internal_somsai_room :: "int \<Rightarrow> (db, match_view option) op" where
  "internal_somsai_room room =
     somsai_transaction (bnd (gets (match_of_room room)) (\<lambda>found.
       case found of None \<Rightarrow> ret None | Some m \<Rightarrow> bnd (match_payload m) (\<lambda>v. ret (Some v))))"

definition internal_somsai_event ::
  "int \<Rightarrow> string \<Rightarrow> int \<Rightarrow> int list \<Rightarrow> int list option \<Rightarrow> int list option \<Rightarrow> (db, match_view option) op" where
  "internal_somsai_event room event item conn rdy avail =
     somsai_transaction (room_event room event item conn rdy avail)"

section \<open>The spectator endpoints and the invariants of the session\<close>

context service_invariant
begin

lemma match_of_room_in: "match_of_room room s = Some m \<Longrightarrow> m \<in> set (matches s)"
  by (auto simp: match_of_room_def dest: find_Some_in)

lemmas keeps_match_of_room = keeps_known[OF match_of_room_in]

lemma keeps_bot_results [keeps_rules]: "keeps (I M) (internal_bot_results room item res)"
proof -
  have "keeps (I (m # M)) (bnd (save (m\<lparr>state := (state m)\<lparr>bot_scores := res\<rparr>\<rparr>)) match_payload)"
    if "stage m = Playing \<or> stage m = Results" for m
  proof -
    have "keeps (I (m # M)) (save (m\<lparr>state := (state m)\<lparr>bot_scores := res\<rparr>\<rparr>))"
      by (rule adjusts[THEN conjunct2]) (use that in \<open>auto simp: FINAL_STAGES_def core_def\<close>)
    then show ?thesis by (intro keeps_rules)
  qed
  then show ?thesis
    unfolding internal_bot_results_def bot_results_def
    by (intro keeps_somsai_transaction keeps_match_of_room keeps_option keeps_if keeps_reject) auto
qed

lemma keeps_native_claim [keeps_rules]: "keeps (I M) (internal_native_claim room u)"
  unfolding internal_native_claim_def native_claim_def
  by (intro keeps_get_match acts keeps_rules) auto

lemma keeps_room_event [keeps_rules]: "keeps (I M) (room_event room ev item conn rdy av)"
  unfolding room_event_def match_of_room_def[symmetric]
  by (intro keeps_match_of_room steps keeps_rules) auto

lemma keeps_endpoints [keeps_rules]:
  "keeps (I M) (internal_native_release room u)" "keeps (I M) (internal_party u)" "keeps (I M) internal_reserve"
  "keeps (I M) (internal_renew rid)" "keeps (I M) (internal_release rid)" "keeps (I M) (internal_somsai_room room)"
  "keeps (I M) (internal_somsai_event room ev item conn rdy av)"
  unfolding internal_native_release_def internal_party_def internal_reserve_def native_reserve_def
    internal_renew_def internal_release_def internal_somsai_room_def internal_somsai_event_def
  by (intro keeps_rules)+

end

end
