(* ===== verification/Sessions.thy ===== *)
theory Sessions
  imports Interop
begin

text \<open>
  The server as a state machine: one step per transaction.

  \<open>request\<close> lists the calls that reach the SOMSAI services: the endpoints of the client
  (\<open>routers/somsai.py\<close>), of the spectator server (\<open>routers/somsai_lio.py\<close>), the administrator's
  rating change and the scheduled tick.  \<open>serve\<close> is what each does to the database.  Between two
  calls the rest of the server may change every table that parties, leases and matches do not live
  in, and time passes: \<open>quiet\<close>.  \<open>reachable\<close> are the databases that arise from one without any
  party, lease or match.
\<close>

section \<open>Requests\<close>

datatype request =
    Tick "int \<Rightarrow> nat \<Rightarrow> real"
  | Act int action_payload "(visual \<times> ai_profile) list option"
  | ShowState int int int
  | ShowMatch int int
  | ShowPresence int
  | ShowBoard int int int string int
  | Chat int "string option" bool chat
  | ChangeMmr "rating_entry option \<Rightarrow> string" int int int string int string
  | BotChart int int
  | BotResults int int "(int \<times> bot_score) list"
  | NativeClaim int int
  | NativeRelease int int
  | PartyOf int
  | Reserve
  | Renew string
  | Release string
  | RoomInfo int
  | RoomEvent int string int "int list" "int list option" "int list option"

primrec serve :: "request \<Rightarrow> db \<Rightarrow> db" where
  "serve (Tick rng) s = snd (somsai_tick_job rng s)"
| "serve (Act uid p profiles) s = snd (somsai_action uid p profiles s)"
| "serve (ShowState uid ruleset variant) s = snd (somsai_transaction (public_state uid ruleset variant) s)"
| "serve (ShowMatch uid mid) s = snd (somsai_match uid mid s)"
| "serve (ShowPresence uid) s = snd (somsai_transaction (global_presence uid) s)"
| "serve (ShowBoard uid ruleset variant fmt page) s = snd (somsai_transaction (leaderboard uid ruleset variant fmt page) s)"
| "serve (Chat uid message throttled c) s = snd (somsai_transaction (party_chat uid message throttled c) s)"
| "serve (ChangeMmr version uid ruleset variant fmt mmr expected) s =
     snd (transaction (change_somsai_mmr version uid ruleset variant fmt mmr expected) s)"
| "serve (BotChart room item) s = snd (somsai_transaction (internal_bot_beatmap room item) s)"
| "serve (BotResults room item results) s = snd (internal_bot_results room item results s)"
| "serve (NativeClaim room uid) s = snd (internal_native_claim room uid s)"
| "serve (NativeRelease room uid) s = snd (internal_native_release room uid s)"
| "serve (PartyOf uid) s = snd (internal_party uid s)"
| "serve Reserve s = snd (internal_reserve s)"
| "serve (Renew rid) s = snd (internal_renew rid s)"
| "serve (Release rid) s = snd (internal_release rid s)"
| "serve (RoomInfo room) s = snd (internal_somsai_room room s)"
| "serve (RoomEvent room event item conn rdy avail) s = snd (internal_somsai_event room event item conn rdy avail s)"

inductive server_step :: "db \<Rightarrow> db \<Rightarrow> bool" where
  call: "server_step s (serve r s)"
| elsewhere: "quiet s t \<Longrightarrow> server_step s t"

definition empty_server :: "db \<Rightarrow> bool" where
  "empty_server s \<longleftrightarrow> activities s = [] \<and> parties s = [] \<and> party_invites s = []
     \<and> reservation_rows s = [] \<and> matches s = [] \<and> inj (uuids s)"

inductive later :: "db \<Rightarrow> db \<Rightarrow> bool" where
  now_itself: "later s s"
| after: "later s t \<Longrightarrow> server_step t u \<Longrightarrow> later s u"

inductive_cases stepE: "server_step s t"
inductive_cases laterE: "later s t"

definition reachable :: "db \<Rightarrow> bool" where
  "reachable s \<longleftrightarrow> (\<exists>s0. empty_server s0 \<and> later s0 s)"

section \<open>Invariants of every step\<close>

context service_invariant
begin

lemma keeps_bot_chart [keeps_rules]: "keeps (I M) (internal_bot_beatmap room item)"
  unfolding internal_bot_beatmap_def by (intro keeps_rules)

lemma keeps_serve: "I M s \<Longrightarrow> I M (serve r s)"
  by (cases r) (simp_all add: keepsD[where I = "I M"] keeps_rules)

lemma step_keeps: "server_step s t \<Longrightarrow> I M s \<Longrightarrow> I M t"
  by (erule stepE) (auto intro: keeps_serve quiet)

lemma later_keeps: "later s t \<Longrightarrow> I M s \<Longrightarrow> I M t"
  by (induction rule: later.induct) (auto intro: step_keeps)

end

lemma empty_server_ok:
  assumes "empty_server s"
  shows "lease_inv s" "party_inv s" "matches_ok s"
  using assms by (auto simp: empty_server_def lease_inv_def holds_def act_def new_activity_def party_inv_def matches_ok_def)

lemma reachable_ok: "reachable s \<Longrightarrow> lease_inv s \<and> party_inv s \<and> matches_ok s"
  unfolding reachable_def
  using empty_server_ok lease.service.later_keeps party.service.later_keeps table.later_keeps tracked_start tracked_ok
  by metis

section \<open>Leases\<close>

text \<open>C1: leases are exclusive, whatever the clients, the spectator server and the tick do and in whatever
  order: at any later time a player is on at most one live reservation, and the player's activity
  row points at exactly that one.\<close>

theorem leases_exclusive:
  assumes "lease_inv s" and "later s t"
  shows "(a_reservation (act t u) = Some rid \<longleftrightarrow> holds t rid u) \<and> (holds t r1 u \<and> holds t r2 u \<longrightarrow> r1 = r2)"
proof -
  have "lease_inv t" by (rule lease.service.later_keeps[OF assms(2,1)])
  then have "\<And>r. a_reservation (act t u) = Some r \<longleftrightarrow> holds t r u" by (simp add: lease_inv_def)
  then show ?thesis by (metis option.inject)
qed

section \<open>Examples of sessions\<close>

text \<open>Players 1 and 2 share a lease, player 3 has another one.\<close>

definition demo_leases :: db where
  "demo_leases = demo_db\<lparr>
     activities := [\<lparr>a_user = 1, last_seen_at = 0, a_party = None, a_reservation = Some ''a'', a_match = None\<rparr>,
       \<lparr>a_user = 2, last_seen_at = 0, a_party = None, a_reservation = Some ''a'', a_match = None\<rparr>,
       \<lparr>a_user = 3, last_seen_at = 0, a_party = None, a_reservation = Some ''b'', a_match = None\<rparr>],
     reservation_rows := [
       \<lparr>res_id = ''a'', res_captain = 1, res_party = None, res_kind = ''somsai:queue'', res_members = [1, 2],
        released = False, res_expires = 2000000000\<rparr>,
       \<lparr>res_id = ''b'', res_captain = 3, res_party = None, res_kind = ''somsai:queue'', res_members = [3],
        released = False, res_expires = 2000000000\<rparr>]\<rparr>"

lemma demo_lease_inv: "lease_inv demo_leases"
  unfolding lease_inv_def
  by (auto simp: demo_leases_def demo_db_def act_def get_row_def holds_def new_activity_def inj_replicate
      replicate_x replicate_x[symmetric] split: option.splits if_splits)

theorem leases_exclusive_witness:
  "(a_reservation (act (serve (Release ''a'') demo_leases) 3) = Some ''b'' \<longleftrightarrow> holds (serve (Release ''a'') demo_leases) ''b'' 3)
   \<and> holds (serve (Release ''a'') demo_leases) ''b'' 3 \<and> \<not> holds (serve (Release ''a'') demo_leases) ''a'' 1"
proof -
  let ?t = "serve (Release ''a'') demo_leases"
  have "later demo_leases ?t" by (rule after[OF now_itself call])
  note leases_exclusive[OF demo_lease_inv this, of 3 "''b''" "''b''" "''b''"]
  moreover have "holds ?t ''b'' 3 \<and> \<not> holds ?t ''a'' 1" by code_simp
  ultimately show ?thesis by blast
qed

section \<open>Parties\<close>

text \<open>C4: parties stay well formed in every reachable state: an active party has one or two distinct members,
  its captain among them, every member's activity row points back at it, and so no player is in two
  active parties.\<close>

theorem parties_well_formed:
  assumes "reachable s" and "p \<in> set (parties s)" and "party_active p"
  shows "members p \<noteq> [] \<and> distinct (members p) \<and> length (members p) \<le> 2 \<and> captain_id p \<in> set (members p)
    \<and> (\<forall>u \<in> set (members p). a_party (act s u) = Some (party_id p))
    \<and> (\<forall>q \<in> set (parties s). party_active q \<and> set (members p) \<inter> set (members q) \<noteq> {} \<longrightarrow> q = p)"
proof -
  have inv: "party_inv s" using reachable_ok[OF assms(1)] by blast
  then have d: "distinct (map party_id (parties s))" by (simp add: party_inv_def)
  have ok: "party_ok s q" if "q \<in> set (parties s)" for q
    using inv get_row_mem[OF d, of "party_id q" q] that unfolding party_inv_def by blast
  have "q = p" if q: "q \<in> set (parties s)" "party_active q" and u: "u \<in> set (members p)" "u \<in> set (members q)" for q u
  proof -
    have "a_party (act s u) = Some (party_id q)" using ok[OF q(1)] q(2) u by (simp add: party_ok_def)
    moreover have "a_party (act s u) = Some (party_id p)" using ok[OF assms(2)] assms(3) u by (simp add: party_ok_def)
    ultimately have "party_id q = party_id p" by simp
    then show ?thesis using same_key[OF d q(1) assms(2)] by blast
  qed
  then show ?thesis using ok[OF assms(2)] assms(3) unfolding party_ok_def by blast
qed

definition demo_payload :: "string \<Rightarrow> int option \<Rightarrow> int option \<Rightarrow> action_payload" where
  "demo_payload a target invitation = \<lparr>p_action = a, p_format = ''1v1'', p_ruleset = 0, p_variant = 0, p_target = target,
     p_target_name = None, p_invitation = invitation, p_invite_kind = None, p_match = None, p_slot = None,
     p_revision = None, p_team = 0, p_pool = None, p_target_mmr = None, p_target_rank = None, p_name = [],
     p_with_bots = False, p_private = False, p_arbitrary = False, p_bot_level = []\<rparr>"

text \<open>Player 1 invites player 2, who accepts.\<close>

definition demo_party :: db where
  "demo_party = serve (Act 2 (demo_payload ''party_accept'' None (Some 101)) None)
     (serve (Act 1 (demo_payload ''party_invite'' (Some 2) None) None) demo_db)"

lemma demo_party_rows:
  "parties demo_party = [\<lparr>party_id = 100, captain_id = 1, members = [1, 2], party_active = True, party_revision = 2\<rparr>]"
  by code_simp

lemma demo_party_reachable: "reachable demo_party"
proof -
  have "empty_server demo_db" by (simp add: empty_server_def demo_db_def inj_replicate)
  then show ?thesis
    unfolding reachable_def demo_party_def by (blast intro: after now_itself call)
qed

theorem parties_well_formed_witness:
  "a_party (act demo_party 2) = Some 100 \<and> a_party (act demo_party 1) = Some 100"
  using parties_well_formed[OF demo_party_reachable, of "parties demo_party ! 0"] by (simp add: demo_party_rows)

section \<open>Matches\<close>

text \<open>C2: the matches of a reachable server are well formed: two teams, alternating bans within the
  allowance, the score line equal to the rounds won, a live match undecided, the current round's chart
  in the pool; and a match that ended without a reason was decided on the score: its winner has
  exactly the target number of rounds and the other team fewer.\<close>

theorem matches_well_formed:
  assumes "matches_ok s" and "later s t" and "m \<in> set (matches t)"
  shows "wf_match m \<and> (stage m = Ended \<and> reason (state m) = [] \<longrightarrow>
    (\<exists>w < 2. match_winner (state m) = Some w \<and> wins (state m) ! w = win_target (state m)
       \<and> wins (state m) ! w = length (filter (\<lambda>r. winner_team_id r = Some w) (history (state m)))
       \<and> wins (state m) ! (1 - w) < win_target (state m)))"
proof -
  have "tracked (matches s) [] t" by (rule table.later_keeps[OF assms(2) tracked_start[OF assms(1)]])
  then have wf: "wf_match m" using tracked_ok assms(3) by (simp add: matches_ok_def)
  then have "wins (state m) ! w = length (filter (\<lambda>r. winner_team_id r = Some w) (history (state m)))" if "w < 2" for w
    using that by (auto simp: wf_match_def wf_state_def score_ok_def decided_def less_2_cases_iff)
  then show ?thesis using wf by (auto simp: wf_match_def wf_state_def result_ok_def)
qed

text \<open>C3: a match only moves forward: whatever happens later, its row stays, with the same identity, format
  and charts, a revision and a round history that only grow, no way back to the waiting stage, and
  no change at all once it has ended.\<close>

theorem match_only_moves_forward:
  assumes "matches_ok s" and "later s t" and "m \<in> set (matches s)"
  shows "\<exists>m' \<in> set (matches t). match_id m' = match_id m \<and> match_format m' = match_format m \<and> ranked m' = ranked m
    \<and> best_of (state m') = best_of (state m) \<and> map chart_of (slots (state m')) = map chart_of (slots (state m))
    \<and> revision m \<le> revision m' \<and> (\<exists>rs. history (state m') = history (state m) @ rs)
    \<and> (stage m' = Waiting \<longrightarrow> stage m = Waiting) \<and> (stage m \<in> FINAL_STAGES \<longrightarrow> m' = m)"
proof -
  have "tracked (matches s) [] t" by (rule table.later_keeps[OF assms(2) tracked_start[OF assms(1)]])
  then obtain m' where m': "m' \<in> set (matches t)" "evolves m m'" using tracked_row[OF _ assms(3)] by blast
  have "fixed m' = fixed m" using m'(2) by (simp add: evolves_def)
  then have same: "match_id m' = match_id m" "match_format m' = match_format m" "ranked m' = ranked m"
      "best_of (state m') = best_of (state m)" "map chart_of (slots (state m')) = map chart_of (slots (state m))"
    by (simp_all only: fixed_def prod.inject)
  show ?thesis
    by (rule bexI[OF _ m'(1)]) (use same m'(2) in \<open>unfold evolves_def, blast\<close>)
qed

text \<open>A custom match in its draft; player 1 leaves it for another multiplayer room.\<close>

definition demo_slot :: "string \<Rightarrow> slot_status \<Rightarrow> slot" where
  "demo_slot sid st = \<lparr>slot_id = sid, category = take 2 sid, s_beatmap_id = 1, checksum = [], s_name = [], s_mods = [],
     difficulty_rating = 0, s_title = [], s_stars = 0, status = st, selected_by_team = None\<rparr>"

definition demo_match :: match_row where
  "demo_match = \<lparr>match_id = 50, match_name = ''m'', match_format = ''1v1'', ruleset_id = 0, variant_id = 0, ranked = False,
     owner_id = 1, match_pool_id = 0, room_id = Some 7, stage = Picking, revision = 3,
     state = (opening_state [[1], [2]] [] \<lparr>po_id = 0, po_revision = 1, po_name = [], po_rank = [], po_best_of = 3, po_bans = 0,
        po_source = None, po_slots = [demo_slot ''NM1'' Available, demo_slot ''NM2'' Available, demo_slot ''TB'' Available],
        po_average_stars = 0\<rparr> 1000 0 [''a''] 0 False),
     updated_at = 0, ended_at = None\<rparr>"

definition demo_game :: db where
  "demo_game = demo_db\<lparr>matches := [demo_match],
     reservation_rows := [\<lparr>res_id = ''a'', res_captain = 1, res_party = None, res_kind = ''somsai:custom'',
        res_members = [1], released = False, res_expires = 2000000000\<rparr>],
     activities := [\<lparr>a_user = 1, last_seen_at = 0, a_party = None, a_reservation = Some ''a'', a_match = Some 50\<rparr>]\<rparr>"

lemma demo_match_wf: "wf_match demo_match"
proof -
  have "shape_ok (state demo_match)" "slots_ok (state demo_match)" "score_ok (state demo_match)"
      "bans_ok Picking (state demo_match)" "undecided (state demo_match)"
    by code_simp+
  moreover have "stage demo_match = Picking" by (simp add: demo_match_def)
  ultimately show ?thesis by (simp add: wf_match_def wf_state_def)
qed

lemma demo_game_ok: "matches_ok demo_game"
proof -
  have "matches demo_game = [demo_match]" "next_id demo_game = 100" by (simp_all add: demo_game_def demo_db_def)
  moreover have "match_id demo_match = 50" by (simp add: demo_match_def)
  ultimately show ?thesis using demo_match_wf by (simp add: matches_ok_def)
qed

definition demo_ended :: db where
  "demo_ended = serve (NativeClaim 9 1) demo_game"

lemma demo_ended_later: "later demo_game demo_ended"
  unfolding demo_ended_def by (rule after[OF now_itself call])

lemma demo_ended_rows: "map (\<lambda>m. (match_id m, stage m, match_winner (state m))) (matches demo_ended) = [(50, Ended, Some 1)]"
  by code_simp

theorem matches_well_formed_witness: "wf_match (matches demo_ended ! 0) \<and> stage (matches demo_ended ! 0) = Ended"
proof -
  have l: "length (matches demo_ended) = 1" "stage (matches demo_ended ! 0) = Ended" by code_simp+
  then have "matches demo_ended ! 0 \<in> set (matches demo_ended)" by simp
  from matches_well_formed[OF demo_game_ok demo_ended_later this] l(2) show ?thesis by blast
qed

theorem match_only_moves_forward_witness:
  "\<exists>m' \<in> set (matches demo_ended). match_id m' = 50 \<and> 3 \<le> revision m'"
proof -
  have "demo_match \<in> set (matches demo_game)" by (simp add: demo_game_def)
  from match_only_moves_forward[OF demo_game_ok demo_ended_later this]
  obtain m' where "m' \<in> set (matches demo_ended)" "match_id m' = match_id demo_match" "revision demo_match \<le> revision m'"
    by blast
  then show ?thesis by (intro bexI[of _ m']) (simp_all add: demo_match_def)
qed

end
