(* ===== verification/Scores.thy ===== *)
theory Scores
  imports Match
begin

text \<open>
  \<open>somsai_score_service.py\<close>: which score tokens and submissions a managed room admits.
\<close>

section \<open>Tokens\<close>

definition snapshot :: "int \<Rightarrow> db \<Rightarrow> (stage \<times> match_state) option" where
  "snapshot room s =
     map_option (\<lambda>m. (stage m, state m)) (find (\<lambda>m. room_id m = Some room) (matches s))"

definition check_member :: "match_state \<Rightarrow> int \<Rightarrow> (db, unit) op" where
  "check_member st uid =
     (if list_ex (\<lambda>team. uid \<in> set team) (teams st) then ret ()
      else reject ''You are not participating in this SOMSAI match.'' 403)"

definition validate_somsai_score_token :: "int \<Rightarrow> int \<Rightarrow> int \<Rightarrow> (db, unit) op" where
  "validate_somsai_score_token room item uid =
     bnd (gets (snapshot room)) (\<lambda>snap.
     case snap of
       None \<Rightarrow> ret ()
     | Some (stg, st) \<Rightarrow>
         seq (check_member st uid)
           (if stg \<noteq> Playing \<or> playlist_item_id st \<noteq> item \<or> current_slot st \<in> {None, Some []}
            then reject ''This SOMSAI beatmap cannot be started right now.'' 409 else ret ()))"

section \<open>Mods\<close>

definition is_close :: "real \<Rightarrow> real \<Rightarrow> bool" where
  "is_close a b \<longleftrightarrow> \<bar>a - b\<bar> \<le> max ((1 / 10 ^ 7) * max \<bar>a\<bar> \<bar>b\<bar>) (1 / 10 ^ 7)"

fun same_setting :: "setting_value option \<Rightarrow> setting_value option \<Rightarrow> bool" where
  "same_setting (Some (SBool a)) r = (r = Some (SBool a))"
| "same_setting (Some (SNum a)) (Some (SNum b)) = is_close a b"
| "same_setting l r = (l = r)"

definition first_some :: "'a option \<Rightarrow> 'a option \<Rightarrow> 'a option" where
  "first_some a b = (case a of Some x \<Rightarrow> Some x | None \<Rightarrow> b)"

text \<open>
  The keys are visited in the order submitted, then configured (Python iterates a set, in no
  particular order; every failure has the same status).
\<close>

definition setting_ok :: "string \<Rightarrow> mod_settings \<Rightarrow> mod_settings \<Rightarrow> mod_settings \<Rightarrow> string \<Rightarrow> (db, unit) op" where
  "setting_ok acr defs submitted configured key =
     (if acr = ''DT'' \<and> key = ''adjust_pitch'' \<and> \<not> has_key key configured
         \<and> (case map_of submitted key of Some (SBool _) \<Rightarrow> True | _ \<Rightarrow> False)
      then ret ()
      else if \<not> has_key key configured \<and> \<not> has_key key defs
      then reject (''Unknown '' @ acr @ '' mod setting in the SOMSAI match.'') 422
      else if \<not> same_setting (first_some (map_of submitted key) (map_of defs key))
                 (first_some (map_of configured key) (map_of defs key))
      then reject (''The '' @ acr @ '' mod settings do not match the SOMSAI beatmap.'') 422
      else ret ())"

definition default_settings_of :: "int \<Rightarrow> string \<Rightarrow> mod_settings" where
  "default_settings_of ruleset acr =
     (case API_MODS ruleset of
        None \<Rightarrow> []
      | Some tbl \<Rightarrow> (case map_of tbl acr of None \<Rightarrow> [] | Some info \<Rightarrow> default_settings info))"

definition validate_settings ::
  "api_mod \<Rightarrow> api_mod \<Rightarrow> int \<Rightarrow> (db, unit) op" where
  "validate_settings actual expected ruleset =
     for_each (remdups (map fst (settings actual) @ map fst (settings expected)))
       (setting_ok (acronym actual) (default_settings_of ruleset (acronym actual)) (settings actual) (settings expected))"

text \<open>\<open>{mod["acronym"]: mod for mod in mods}\<close>\<close>

definition by_acronym :: "api_mod list \<Rightarrow> (string \<times> api_mod) list" where
  "by_acronym ms = fold (\<lambda>m acc. put_key (acronym m) m acc) ms []"

definition plain_mod :: "string \<Rightarrow> api_mod" where
  "plain_mod a = \<lparr>acronym = a, settings = []\<rparr>"

definition required_mods :: "slot \<Rightarrow> playlist_row \<Rightarrow> (string \<times> api_mod) list" where
  "required_mods x item =
     (let base = by_acronym (s_mods x) in
      if list_ex (\<lambda>m. acronym m = ''NF'') (pl_required item) then put_key ''NF'' (plain_mod ''NF'') base else base)"

definition approved_mods :: "slot \<Rightarrow> playlist_row \<Rightarrow> (string \<times> api_mod) list" where
  "approved_mods x item =
     (let base = required_mods x item in
      if category x \<in> {''FM'', ''TB''}
      then put_key ''HR'' (plain_mod ''HR'') (put_key ''HD'' (plain_mod ''HD'') base) else base)"

definition validate_somsai_score_submission ::
  "int \<Rightarrow> playlist_row \<Rightarrow> int \<Rightarrow> api_mod list \<Rightarrow> int \<Rightarrow> (db, unit) op" where
  "validate_somsai_score_submission room item uid ms ruleset =
     bnd (gets (snapshot room)) (\<lambda>snap.
     case snap of
       None \<Rightarrow> ret ()
     | Some (_, st) \<Rightarrow>
         seq (check_member st uid)
           (if ruleset \<noteq> pl_ruleset item then reject ''The score mode does not match the SOMSAI beatmap.'' 422
            else case find (\<lambda>x. s_beatmap_id x = pl_beatmap item) (slots st) of
              None \<Rightarrow> reject ''The beatmap does not belong to this SOMSAI match pool.'' 422
            | Some x \<Rightarrow>
                let actual = by_acronym ms; required = required_mods x item; approved = approved_mods x item in
                if length actual \<noteq> length ms
                   \<or> \<not> set (map fst required) \<subseteq> set (map fst actual)
                   \<or> \<not> set (map fst actual) \<subseteq> set (map fst approved)
                then reject ''The score mods do not match the selected SOMSAI slot.'' 422
                else for_each actual (\<lambda>(acr, m).
                  case map_of approved acr of
                    None \<Rightarrow> throw KeyErr | Some e \<Rightarrow> validate_settings m e (pl_ruleset item))))"

end
