(* ===== verification/Mods.thy ===== *)
theory Mods
  imports ModTable "HOL-Library.List_Lexorder" "HOL-Library.Char_ord"
begin

unbundle bit_operations_syntax

text \<open>
  \<open>models/mods/\<close>: the payload of a mod, the helpers of \<open>definition.py\<close>, the conversion from and to the
  bit flags of the old client (\<open>legacy.py\<close>), the rules that decide which mods may earn performance
  points (\<open>performance.py\<close>), and the validator of a submitted mod list
  (\<open>SoloScoreSubmissionInfo.validate_mods\<close> of \<open>models/score.py\<close>).

  A \<open>dict\<close> of settings is an association list; a payload without settings has the empty one (the code
  reads both alike).  What pydantic accepts for one field is the parameter \<open>accepts\<close>.  Python's
  \<open>TypeError\<close> is \<open>RuntimeErr ''TypeError''\<close>.
\<close>

section \<open>Payloads\<close>

definition plain :: "string \<Rightarrow> api_mod" where
  "plain a = \<lparr>acronym = a, settings = []\<rparr>"

lemma plain_simps [simp]: "acronym (plain a) = a" "settings (plain a) = []"
  by (simp_all add: plain_def)

lemma plain_inject [simp]: "plain a = plain b \<longleftrightarrow> a = b"
  by (simp add: plain_def)

text \<open>The switches of \<open>app.config.settings\<close> the modelled code reads.\<close>

record game_config =
  soms_osu_assist_modes :: bool
  enable_rx :: bool
  enable_ap :: bool
  use_old_score_multiplier :: bool

definition andthen :: "error + 'a \<Rightarrow> ('a \<Rightarrow> error + 'b) \<Rightarrow> error + 'b" where
  "andthen r f = (case r of Inl e \<Rightarrow> Inl e | Inr a \<Rightarrow> f a)"

lemma andthen_simps [simp]: "andthen (Inl e) f = Inl e" "andthen (Inr a) f = f a"
  by (simp_all add: andthen_def)

definition type_error :: error where
  "type_error = RuntimeErr ''TypeError''"

text \<open>A number where Python does arithmetic: \<open>bool\<close> counts as 0 or 1.\<close>

definition num_of :: "setting_value \<Rightarrow> real option" where
  "num_of v = (case v of SNum x \<Rightarrow> Some x | SBool b \<Rightarrow> Some (if b then 1 else 0) | SText _ \<Rightarrow> None | SNull \<Rightarrow> None)"

definition number :: "setting_value \<Rightarrow> error + real" where
  "number v = (case num_of v of Some x \<Rightarrow> Inr x | None \<Rightarrow> Inl type_error)"

definition py_eq :: "setting_value \<Rightarrow> setting_value \<Rightarrow> bool" where
  "py_eq a b =
     (case (num_of a, num_of b) of
        (Some x, Some y) \<Rightarrow> x = y
      | (None, None) \<Rightarrow> a = b
      | _ \<Rightarrow> False)"

section \<open>definition.py\<close>

definition get_default_setting :: "int \<Rightarrow> api_mod \<Rightarrow> string \<Rightarrow> setting_value" where
  "get_default_setting ruleset m name =
     (case API_MODS ruleset of
        None \<Rightarrow> SNull
      | Some tbl \<Rightarrow>
          (case map_of tbl (acronym m) of
             None \<Rightarrow> SNull
           | Some info \<Rightarrow> (case map_of (default_settings info) name of None \<Rightarrow> SNull | Some v \<Rightarrow> v)))"

definition get_available_mods :: "int \<Rightarrow> api_mod list \<Rightarrow> api_mod list" where
  "get_available_mods ruleset required =
     (case API_MODS ruleset of
        None \<Rightarrow> []
      | Some tbl \<Rightarrow>
          (let req = map acronym required;
               incompatible = concat (map (\<lambda>a. case map_of tbl a of None \<Rightarrow> [] | Some i \<Rightarrow> incompatible_mods i) req)
           in map (\<lambda>(a, i). plain a)
                (filter (\<lambda>(a, i). a \<notin> set req \<and> a \<notin> set incompatible
                    \<and> \<not> list_ex (\<lambda>r. r \<in> set (incompatible_mods i)) req \<and> user_playable i) tbl)))"

definition mod_to_save :: "api_mod list \<Rightarrow> string list" where
  "mod_to_save mods = sort (remdups (map acronym mods))"

text \<open>A speed that is not a number raises when it is multiplied in.\<close>

fun rate_from :: "real \<Rightarrow> api_mod list \<Rightarrow> error + real" where
  "rate_from rate [] = Inr rate"
| "rate_from rate (m # ms) =
     (if acronym m \<in> {''DT'', ''NC'', ''HT'', ''DC''}
      then let v = (case map_of (settings m) ''speed_change'' of None \<Rightarrow> SNum 1 | Some v \<Rightarrow> v) in
           if num_of v = Some 0 then rate_from rate ms
           else andthen (number v) (\<lambda>x. rate_from (rate * x) ms)
      else rate_from rate ms)"

definition get_speed_rate :: "api_mod list \<Rightarrow> error + real" where
  "get_speed_rate mods = rate_from 1 mods"

section \<open>Legacy bit flags\<close>

text \<open>The acronyms of \<open>API_MOD_TO_LEGACY\<close> in the order of their bits, 0 to 30.\<close>

definition LEGACY_ORDER :: "string list" where
  "LEGACY_ORDER =
     [''NF'', ''EZ'', ''TD'', ''HD'', ''HR'', ''SD'', ''DT'', ''RX'', ''HT'', ''NC'', ''FL'', ''AT'', ''SO'', ''AP'',
      ''PF'', ''4K'', ''5K'', ''6K'', ''7K'', ''8K'', ''FI'', ''RD'', ''CN'', ''TP'', ''9K'', ''CO'', ''1K'', ''3K'',
      ''2K'', ''SV2'', ''MR'']"

definition api_mod_to_legacy :: "string \<Rightarrow> int" where
  "api_mod_to_legacy a =
     (if a \<in> set LEGACY_ORDER
      then push_bit (index_of a LEGACY_ORDER) 1
           OR (if a = ''NC'' then push_bit 6 1 else if a = ''PF'' then push_bit 5 1 else 0)
      else 0)"

definition FREEMOD :: int where
  "FREEMOD = fold (\<lambda>i acc. acc OR push_bit i 1) [0..<31] 0"

definition legacy_mod_to_api_mod :: "nat \<Rightarrow> api_mod" where
  "legacy_mod_to_api_mod i = plain (LEGACY_ORDER ! i)"

definition py_remove :: "'a \<Rightarrow> 'a list \<Rightarrow> error + 'a list" where
  "py_remove x xs = (if x \<in> set xs then Inr (remove1 x xs) else Inl (ValueErr ''list.remove(x): x not in list''))"

definition int_to_mods :: "int \<Rightarrow> error + api_mod list" where
  "int_to_mods mods =
     (let mod_list = map legacy_mod_to_api_mod (filter (bit mods) [0..<31]) in
      andthen (if bit mods 14 then py_remove (legacy_mod_to_api_mod 5) mod_list else Inr mod_list) (\<lambda>mod_list.
      if bit mods 9 then py_remove (legacy_mod_to_api_mod 6) mod_list else Inr mod_list))"

definition mods_to_int :: "api_mod list \<Rightarrow> int" where
  "mods_to_int mods =
     fold (\<lambda>m total.
       let sum = total OR api_mod_to_legacy (acronym m) in
       if acronym m = ''PF'' then sum OR api_mod_to_legacy ''SD''
       else if acronym m = ''NC'' then sum OR api_mod_to_legacy ''DT''
       else sum) mods 0"

lemma legacy_order: "distinct LEGACY_ORDER" "length LEGACY_ORDER = 31"
  unfolding LEGACY_ORDER_def by simp_all

lemma bit_shifted_one: "bit (push_bit i (1 :: int)) j \<longleftrightarrow> j = i"
  by (auto simp: bit_exp_iff)

lemma legacy_value_bits:
  assumes "i < 31"
  shows "bit (api_mod_to_legacy (LEGACY_ORDER ! i)) j \<longleftrightarrow> j = i \<or> (i = 9 \<and> j = 6) \<or> (i = 14 \<and> j = 5)"
proof -
  have ix: "index_of (LEGACY_ORDER ! i) LEGACY_ORDER = i" "LEGACY_ORDER ! i \<in> set LEGACY_ORDER"
    using index_of_nth[OF legacy_order(1)] nth_mem assms legacy_order(2) by simp_all
  have at: "LEGACY_ORDER ! i = LEGACY_ORDER ! k \<longleftrightarrow> i = k" if "k < 31" for k
    using nth_eq_iff_index_eq[OF legacy_order(1)] assms that legacy_order(2) by simp
  have "LEGACY_ORDER ! 9 = ''NC''" "LEGACY_ORDER ! 14 = ''PF''" by (simp_all add: LEGACY_ORDER_def)
  then have special: "LEGACY_ORDER ! i = ''NC'' \<longleftrightarrow> i = 9" "LEGACY_ORDER ! i = ''PF'' \<longleftrightarrow> i = 14"
    using at[of 9] at[of 14] by simp_all
  show ?thesis
    unfolding api_mod_to_legacy_def ix special bit_or_iff if_P[OF ix(2)] if_distrib[of "\<lambda>x. bit x j"]
      bit_shifted_one by auto
qed

lemma or_fold_bits: "bit (fold (\<lambda>m total. total OR f m) ms (c :: int)) j \<longleftrightarrow> bit c j \<or> (\<exists>m \<in> set ms. bit (f m) j)"
  by (induction ms arbitrary: c) (auto simp: bit_or_iff)

text \<open>The two extra cases of \<open>mods_to_int\<close> add bits the table already has.\<close>

lemma mods_to_int_or: "mods_to_int ms = fold (\<lambda>m total. total OR api_mod_to_legacy (acronym m)) ms 0"
proof -
  have named: "LEGACY_ORDER ! 14 = ''PF''" "LEGACY_ORDER ! 5 = ''SD''" "LEGACY_ORDER ! 9 = ''NC''" "LEGACY_ORDER ! 6 = ''DT''"
    by (simp_all add: LEGACY_ORDER_def)
  have absorb: "x = x OR y" if "\<And>j. bit y j \<Longrightarrow> bit x j" for x y :: int
    using that by (auto intro!: bit_eqI simp: bit_or_iff)
  have "api_mod_to_legacy ''PF'' = api_mod_to_legacy ''PF'' OR api_mod_to_legacy ''SD''"
       "api_mod_to_legacy ''NC'' = api_mod_to_legacy ''NC'' OR api_mod_to_legacy ''DT''"
    unfolding named[symmetric] by (rule absorb, simp add: legacy_value_bits)+
  then have "(let sum = total OR api_mod_to_legacy (acronym m) in
       if acronym m = ''PF'' then sum OR api_mod_to_legacy ''SD''
       else if acronym m = ''NC'' then sum OR api_mod_to_legacy ''DT'' else sum)
     = total OR api_mod_to_legacy (acronym m)" for m :: api_mod and total
    unfolding Let_def
    by (cases "acronym m = ''PF''"; cases "acronym m = ''NC''") (simp_all only: or.assoc if_True if_False simp_thms)
  then show ?thesis unfolding mods_to_int_def by (simp only:)
qed

lemma mods_to_int_bits: "bit (mods_to_int ms) j \<longleftrightarrow> (\<exists>m \<in> set ms. bit (api_mod_to_legacy (acronym m)) j)"
  unfolding mods_to_int_or or_fold_bits by simp

lemma legacy_mods_distinct: "inj_on legacy_mod_to_api_mod {..<31}"
  using nth_eq_iff_index_eq[OF legacy_order(1)] legacy_order(2)
  by (auto simp: inj_on_def legacy_mod_to_api_mod_def)

text \<open>Flags the old client never sends: Perfect without Sudden Death, Nightcore without Double Time.\<close>

definition broken_flags :: "int \<Rightarrow> bool" where
  "broken_flags m \<longleftrightarrow> (bit m 14 \<and> \<not> bit m 5) \<or> (bit m 9 \<and> \<not> bit m 6)"

definition legacy_bits :: "int \<Rightarrow> nat list" where
  "legacy_bits m = filter (\<lambda>i. bit m i \<and> \<not> (i = 5 \<and> bit m 14) \<and> \<not> (i = 6 \<and> bit m 9)) [0..<31]"

lemma int_to_mods_bits:
  "int_to_mods m = (if broken_flags m then Inl (ValueErr ''list.remove(x): x not in list'')
     else Inr (map legacy_mod_to_api_mod (legacy_bits m)))"
proof -
  have mem: "legacy_mod_to_api_mod i \<in> set (map legacy_mod_to_api_mod xs) \<longleftrightarrow> i \<in> set xs"
    if "set xs \<subseteq> {..<31}" "i < 31" for i xs
    using inj_on_image_mem_iff[OF legacy_mods_distinct _ that(1)] that(2) by simp
  have rem: "py_remove (legacy_mod_to_api_mod i) (map legacy_mod_to_api_mod xs)
      = (if i \<in> set xs then Inr (map legacy_mod_to_api_mod (filter (\<lambda>k. k \<noteq> i) xs))
         else Inl (ValueErr ''list.remove(x): x not in list''))"
    if "set xs \<subseteq> {..<31} \<and> distinct xs" "i < 31" for i xs
  proof -
    have "distinct (map legacy_mod_to_api_mod xs)"
      using that inj_on_subset[OF legacy_mods_distinct] by (simp add: distinct_map)
    then have "remove1 (legacy_mod_to_api_mod i) (map legacy_mod_to_api_mod xs)
        = filter (\<lambda>x. x \<noteq> legacy_mod_to_api_mod i) (map legacy_mod_to_api_mod xs)"
      by (simp add: distinct_remove1_removeAll removeAll_filter_not_eq eq_commute)
    also have "\<dots> = map legacy_mod_to_api_mod (filter (\<lambda>k. k \<noteq> i) xs)"
      unfolding filter_map comp_def
      using that inj_on_eq_iff[OF legacy_mods_distinct] by (intro arg_cong[where f = "map _"] filter_cong) auto
    finally show ?thesis unfolding py_remove_def using mem that by simp
  qed
  have sub: "set (filter P [0..<31]) \<subseteq> {..<31} \<and> distinct (filter P [0..<31])" for P by auto
  have bits: "bit m 14 \<Longrightarrow> 14 \<in> set (filter (bit m) [0..<31])" for m :: int by simp
  consider "broken_flags m" | "\<not> broken_flags m" "bit m 14" "bit m 9" | "\<not> broken_flags m" "bit m 14" "\<not> bit m 9"
    | "\<not> broken_flags m" "\<not> bit m 14" "bit m 9" | "\<not> broken_flags m" "\<not> bit m 14" "\<not> bit m 9" by blast
  then show ?thesis
    by cases (auto simp: int_to_mods_def broken_flags_def legacy_bits_def Let_def rem[OF sub] conj_ac)
qed

text \<open>C7: the old client's bit flags survive the conversion to mods and back, except the unknown bits above 30;
  the conversion fails exactly for Perfect without Sudden Death and Nightcore without Double Time.\<close>

theorem legacy_flags_roundtrip:
  "case int_to_mods m of
     Inr ms \<Rightarrow> \<not> broken_flags m \<and> mods_to_int ms = take_bit 31 m
   | Inl e \<Rightarrow> broken_flags m \<and> e = ValueErr ''list.remove(x): x not in list''"
proof (cases "broken_flags m")
  case False
  have "bit (mods_to_int (map legacy_mod_to_api_mod (legacy_bits m))) j \<longleftrightarrow> bit (take_bit 31 m) j" for j
  proof -
    have "bit (mods_to_int (map legacy_mod_to_api_mod (legacy_bits m))) j
        \<longleftrightarrow> (\<exists>i < 31. bit m i \<and> \<not> (i = 5 \<and> bit m 14) \<and> \<not> (i = 6 \<and> bit m 9)
              \<and> (j = i \<or> (i = 9 \<and> j = 6) \<or> (i = 14 \<and> j = 5)))"
      unfolding mods_to_int_bits legacy_bits_def
      using legacy_value_bits by (auto simp: legacy_mod_to_api_mod_def)
    also have "\<dots> \<longleftrightarrow> j < 31 \<and> bit m j"
    proof
      assume j: "j < 31 \<and> bit m j"
      let ?i = "if j = 5 \<and> bit m 14 then 14 else if j = 6 \<and> bit m 9 then 9 else j"
      show "\<exists>i < 31. bit m i \<and> \<not> (i = 5 \<and> bit m 14) \<and> \<not> (i = 6 \<and> bit m 9) \<and> (j = i \<or> (i = 9 \<and> j = 6) \<or> (i = 14 \<and> j = 5))"
        using j by (intro exI[of _ ?i]) auto
    qed (use False in \<open>auto simp: broken_flags_def\<close>)
    finally show ?thesis by (simp add: bit_take_bit_iff)
  qed
  then show ?thesis using False by (simp add: int_to_mods_bits bit_eq_iff)
qed (simp add: int_to_mods_bits)

section \<open>Mods that may earn performance points\<close>

text \<open>A rule of one setting: \<open>Unchecked\<close> is \<open>check = False\<close>, \<open>Equal\<close> is \<open>eq\<close>, \<open>Between\<close> is \<open>ge\<close> and \<open>le\<close>.\<close>

datatype setting_rule = Unchecked | Equal setting_value | Between real real

type_synonym ranked_mods = "(string \<times> (string \<times> setting_rule) list) list"

definition RANKED_OSU :: ranked_mods where
  "RANKED_OSU =
    [(''EZ'', [(''retries'', Equal (SNum 2))]), (''NF'', []),
     (''HT'', [(''speed_change'', Equal (SNum (3 / 4))), (''adjust_pitch'', Unchecked)]),
     (''DC'', [(''speed_change'', Equal (SNum (3 / 4)))]), (''HR'', []),
     (''SD'', [(''fail_on_slider_tail'', Unchecked), (''restart'', Unchecked)]),
     (''PF'', [(''restart'', Unchecked)]), (''HD'', [(''only_fade_approach_circles'', Equal (SBool False))]),
     (''DT'', [(''speed_change'', Between (101 / 100) 2), (''adjust_pitch'', Unchecked)]),
     (''NC'', [(''speed_change'', Between (101 / 100) 2)]),
     (''FL'', [(''follow_delay'', Equal (SNum 1)), (''size_multiplier'', Equal (SNum 1)), (''combo_based_size'', Equal (SBool True))]),
     (''AC'', [(''minimum_accuracy'', Unchecked), (''accuracy_judge_mode'', Unchecked), (''restart'', Unchecked)]),
     (''MU'', [(''inverse_muting'', Unchecked), (''enable_metronome'', Unchecked), (''mute_combo_count'', Unchecked), (''affects_hit_sounds'', Unchecked)]),
     (''TD'', []), (''BL'', []), (''NS'', [(''hidden_combo_count'', Unchecked)]), (''SO'', []), (''TC'', []),
     (''AL'', []), (''SG'', []), (''CL'', [])]"

definition RANKED_TAIKO :: ranked_mods where
  "RANKED_TAIKO =
    [(''EZ'', []), (''NF'', []),
     (''HT'', [(''speed_change'', Equal (SNum (3 / 4))), (''adjust_pitch'', Unchecked)]),
     (''DC'', [(''speed_change'', Equal (SNum (3 / 4)))]), (''HR'', []), (''SD'', [(''restart'', Unchecked)]),
     (''PF'', [(''restart'', Unchecked)]), (''HD'', []),
     (''DT'', [(''speed_change'', Between (101 / 100) 2), (''adjust_pitch'', Unchecked)]),
     (''NC'', [(''speed_change'', Between (101 / 100) 2)]),
     (''FL'', [(''size_multiplier'', Equal (SNum 1)), (''combo_based_size'', Equal (SBool True))]),
     (''AC'', [(''minimum_accuracy'', Unchecked), (''accuracy_judge_mode'', Unchecked), (''restart'', Unchecked)]),
     (''MU'', [(''inverse_muting'', Unchecked), (''enable_metronome'', Unchecked), (''mute_combo_count'', Unchecked), (''affects_hit_sounds'', Unchecked)]),
     (''SG'', []), (''SW'', [])]"

definition RANKED_CATCH :: ranked_mods where
  "RANKED_CATCH =
    [(''EZ'', [(''retries'', Equal (SNum 2))]), (''NF'', []),
     (''HT'', [(''speed_change'', Equal (SNum (3 / 4))), (''adjust_pitch'', Unchecked)]),
     (''DC'', [(''speed_change'', Equal (SNum (3 / 4)))]), (''HR'', []), (''SD'', [(''restart'', Unchecked)]),
     (''PF'', [(''restart'', Unchecked)]), (''HD'', []),
     (''DT'', [(''speed_change'', Between (101 / 100) 2), (''adjust_pitch'', Unchecked)]),
     (''NC'', [(''speed_change'', Between (101 / 100) 2)]),
     (''FL'', [(''size_multiplier'', Equal (SNum 1)), (''combo_based_size'', Equal (SBool True))]),
     (''AC'', [(''minimum_accuracy'', Unchecked), (''accuracy_judge_mode'', Unchecked), (''restart'', Unchecked)]),
     (''MU'', [(''inverse_muting'', Unchecked), (''enable_metronome'', Unchecked), (''mute_combo_count'', Unchecked), (''affects_hit_sounds'', Unchecked)]),
     (''NS'', [(''hidden_combo_count'', Unchecked)])]"

definition RANKED_MANIA :: ranked_mods where
  "RANKED_MANIA =
    [(''EZ'', [(''retries'', Equal (SNum 2))]), (''NF'', []),
     (''HT'', [(''speed_change'', Equal (SNum (3 / 4))), (''adjust_pitch'', Unchecked)]),
     (''DC'', [(''speed_change'', Equal (SNum (3 / 4)))]), (''SD'', [(''restart'', Unchecked)]),
     (''PF'', [(''require_perfect_hits'', Unchecked), (''restart'', Unchecked)]), (''HD'', []),
     (''DT'', [(''speed_change'', Between (101 / 100) 2), (''adjust_pitch'', Unchecked)]),
     (''NC'', [(''speed_change'', Between (101 / 100) 2)]),
     (''FL'', [(''size_multiplier'', Equal (SNum 1)), (''combo_based_size'', Equal (SBool False))]),
     (''AC'', [(''minimum_accuracy'', Unchecked), (''accuracy_judge_mode'', Unchecked), (''restart'', Unchecked)]),
     (''MU'', [(''inverse_muting'', Unchecked), (''enable_metronome'', Unchecked), (''mute_combo_count'', Unchecked), (''affects_hit_sounds'', Unchecked)]),
     (''MR'', []), (''4K'', []), (''5K'', []), (''6K'', []), (''7K'', []), (''8K'', []), (''9K'', [])]"


definition DEFAULT_RANKED_MODS :: "int \<Rightarrow> ranked_mods option" where
  "DEFAULT_RANKED_MODS r =
     (if r = 0 then Some RANKED_OSU else if r = 1 then Some RANKED_TAIKO
      else if r = 2 then Some RANKED_CATCH else if r = 3 then Some RANKED_MANIA else None)"

text \<open>
  The generated pydantic model forbids unknown settings, gives missing ones their default and checks
  the others one by one; \<open>accepts\<close> is what pydantic answers for a given value under a rule other than
  \<open>Unchecked\<close>.
\<close>

definition check_settings :: "(setting_rule \<Rightarrow> setting_value \<Rightarrow> bool) \<Rightarrow> api_mod \<Rightarrow> ranked_mods \<Rightarrow> bool" where
  "check_settings accepts m ranked =
     (case map_of ranked (acronym m) of
        None \<Rightarrow> False
      | Some rules \<Rightarrow>
          rules = [] \<or>
          list_all (\<lambda>(name, v).
            case map_of rules name of
              None \<Rightarrow> False
            | Some rule \<Rightarrow> rule = Unchecked \<or> accepts rule v) (settings m))"

definition mods_can_get_pp_under ::
  "game_config \<Rightarrow> (setting_rule \<Rightarrow> setting_value \<Rightarrow> bool) \<Rightarrow> int \<Rightarrow> api_mod list \<Rightarrow> (int \<Rightarrow> ranked_mods option) \<Rightarrow> bool" where
  "mods_can_get_pp_under cfg accepts ruleset mods ranked =
     (if {''RX'', ''AP''} \<subseteq> set (map acronym mods) then False
      else list_all (\<lambda>m.
        if soms_osu_assist_modes cfg \<and> acronym m \<in> {''RX'', ''AP''} then ruleset = 0
        else if enable_rx cfg \<and> acronym m = ''RX'' \<and> ruleset \<in> {0, 1, 2} then True
        else if enable_ap cfg \<and> acronym m = ''AP'' \<and> ruleset = 0 then True
        else check_settings accepts m (case ranked ruleset of None \<Rightarrow> [] | Some r \<Rightarrow> r)) mods)"

definition mods_can_get_pp_vanilla ::
  "game_config \<Rightarrow> (setting_rule \<Rightarrow> setting_value \<Rightarrow> bool) \<Rightarrow> int \<Rightarrow> api_mod list \<Rightarrow> bool" where
  "mods_can_get_pp_vanilla cfg accepts ruleset mods =
     mods_can_get_pp_under cfg accepts ruleset mods DEFAULT_RANKED_MODS"

section \<open>The mods of a submission\<close>

fun validate_from :: "mod_table option \<Rightarrow> string list \<Rightarrow> api_mod list \<Rightarrow> error + unit" where
  "validate_from tbl bad [] = Inr ()"
| "validate_from tbl bad (m # ms) =
     (if acronym m \<in> set bad then Inl (ValueErr ''Mod is incompatible with other mods'')
      else case tbl of
        None \<Rightarrow> Inl KeyErr
      | Some t \<Rightarrow>
          (case map_of t (acronym m) of
             None \<Rightarrow> Inl (ValueErr ''Invalid mod'')
           | Some i \<Rightarrow> validate_from tbl (bad @ incompatible_mods i) ms))"

definition validate_mods :: "int \<Rightarrow> api_mod list \<Rightarrow> error + unit" where
  "validate_mods ruleset mods = validate_from (API_MODS ruleset) [] mods"

definition symmetric_table :: "mod_table \<Rightarrow> bool" where
  "symmetric_table t \<longleftrightarrow>
     list_all (\<lambda>(a, i). list_all (\<lambda>b. case map_of t b of None \<Rightarrow> True | Some j \<Rightarrow> a \<in> set (incompatible_mods j))
       (incompatible_mods i)) t"

lemma symmetric_osu: "symmetric_table OSU_MODS"
  by code_simp

lemma symmetric_taiko: "symmetric_table TAIKO_MODS"
  by code_simp

lemma symmetric_catch: "symmetric_table CATCH_MODS"
  by code_simp

lemma symmetric_mania: "symmetric_table MANIA_MODS"
  by code_simp

end
