(* ===== verification/MapStats.thy ===== *)
theory MapStats
  imports Ranks MatchData Mods
begin

text \<open>
  \<open>somsai_map_stats.py\<close>, the difficulty figures shown for a pool slot, and \<open>somsai_bot_tech.py\<close>,
  the pattern descriptors of a chart.  Both read the text of a beatmap file; \<open>py_number\<close> is
  \<open>float()\<close> on the plain decimals such a file holds.
\<close>

section \<open>Reading a beatmap file\<close>

fun lines_of :: "string \<Rightarrow> string \<Rightarrow> string list" where
  "lines_of [] w = (if w = [] then [] else [rev w])"
| "lines_of (c # cs) w = (if c = CHR 0x0A then rev w # lines_of cs [] else lines_of cs (c # w))"

definition splitlines :: "string \<Rightarrow> string list" where
  "splitlines s = lines_of s []"

definition py_number :: "string \<Rightarrow> real option" where
  "py_number w =
     (let s = py_strip w in
      if starts_with s ''-'' then map_option uminus (py_float (tl s)) else py_float s)"

definition py_int :: "string \<Rightarrow> int option" where
  "py_int w =
     (let s = py_strip w in
      if starts_with s ''-'' then map_option (\<lambda>n. - int n) (py_nat (tl s)) else map_option int (py_nat s))"

text \<open>\<open>line.split(":", 1)\<close>\<close>

definition split_once :: "char \<Rightarrow> string \<Rightarrow> string \<times> string" where
  "split_once c s = (takeWhile (\<lambda>x. x \<noteq> c) s, tl (dropWhile (\<lambda>x. x \<noteq> c) s))"

section \<open>Displayed difficulty\<close>

text \<open>One line of the loop: the current section and the numbers of \<open>[Difficulty]\<close>.\<close>

definition difficulty_line :: "string \<Rightarrow> string \<times> (string \<times> real) list \<Rightarrow> string \<times> (string \<times> real) list" where
  "difficulty_line raw acc =
     (let (sec, diff) = acc; line = py_strip raw in
      if starts_with line ''['' then (line, diff)
      else if sec = ''[Difficulty]'' \<and> CHR '':'' \<in> set line then
        (let (key, value) = split_once (CHR '':'') line in
         case py_number value of None \<Rightarrow> (sec, diff) | Some x \<Rightarrow> (sec, put_key key x diff))
      else (sec, diff))"

definition difficulty_of :: "string \<Rightarrow> (string \<times> real) list" where
  "difficulty_of raw = snd (fold difficulty_line (splitlines raw) ([], []))"

record source_slot =
  so_modded :: bool
  so_category :: string
  so_mods :: "api_mod list"
  so_difficulty :: "real option"
  so_bpm :: "real option"
  so_cs :: "real option"
  so_ar :: "real option"
  so_od :: "real option"
  so_hp :: "real option"
  so_length :: "real option"
  so_hit_length :: "real option"

record stat_view =
  st_stars :: real
  st_bpm :: real
  st_cs :: real
  st_ar :: real
  st_od :: real
  st_hp :: real
  st_length :: real

definition or_else :: "'a option \<Rightarrow> 'a \<Rightarrow> 'a" where
  "or_else x d = (case x of None \<Rightarrow> d | Some v \<Rightarrow> v)"

definition slot_length :: "source_slot \<Rightarrow> real" where
  "slot_length x = or_else (so_length x) (or_else (so_hit_length x) 0)"

definition SPEED_MODS :: "string list" where
  "SPEED_MODS = [''DT'', ''NC'', ''HT'', ''DC'']"

text \<open>A text or null as the setting is the \<open>TypeError\<close> of the product.\<close>

definition mod_rate :: "api_mod \<Rightarrow> error + real" where
  "mod_rate m =
     (if acronym m \<in> set SPEED_MODS then
        (case map_of (settings m) ''speed_change'' of
           Some v \<Rightarrow> number v
         | None \<Rightarrow> Inr (if acronym m \<in> {''DT'', ''NC''} then 15 / 10 else 75 / 100))
      else Inr 1)"

fun rate_product :: "real \<Rightarrow> api_mod list \<Rightarrow> error + real" where
  "rate_product r [] = Inr r"
| "rate_product r (m # ms) = andthen (mod_rate m) (\<lambda>x. rate_product (r * x) ms)"

definition clock_rate :: "api_mod list \<Rightarrow> error + real" where
  "clock_rate ms = rate_product 1 ms"

definition adjusted_ar :: "real \<Rightarrow> real \<Rightarrow> real" where
  "adjusted_ar rate ar =
     (let preempt = (if ar < 5 then 1800 - 120 * ar else 1200 - 150 * (ar - 5)) / rate
      in if preempt > 1200 then (1800 - preempt) / 120 else 5 + (1200 - preempt) / 150)"

definition adjusted_od :: "int \<Rightarrow> real \<Rightarrow> real \<Rightarrow> real" where
  "adjusted_od ruleset rate od =
     (if ruleset = 0 then (80 - (80 - 6 * od) / rate) / 6
      else if ruleset = 1 then (50 - (50 - 3 * od) / rate) / 3 else od)"

text \<open>A rate of zero, which a setting may give, is the \<open>ZeroDivisionError\<close> of the first division.\<close>

definition divisible :: "real \<Rightarrow> error + 'a \<Rightarrow> error + 'a" where
  "divisible rate r = (if rate = 0 then Inl (RuntimeErr ''ZeroDivisionError'') else r)"

text \<open>\<open>HardRock\<close> raises, \<open>Easy\<close> halves.\<close>

definition scaled :: "string set \<Rightarrow> real \<Rightarrow> real \<Rightarrow> real" where
  "scaled names factor v =
     (let v1 = (if ''HR'' \<in> names then min 10 (v * factor) else v) in if ''EZ'' \<in> names then v1 / 2 else v1)"

definition display_stats :: "string \<Rightarrow> source_slot \<Rightarrow> real option \<Rightarrow> int \<Rightarrow> error + stat_view" where
  "display_stats raw x star_rating ruleset =
     (if so_modded x then
        Inr \<lparr>st_stars = or_else star_rating (or_else (so_difficulty x) 0), st_bpm = or_else (so_bpm x) 0,
             st_cs = or_else (so_cs x) 0, st_ar = or_else (so_ar x) 0, st_od = or_else (so_od x) 0,
             st_hp = or_else (so_hp x) 0, st_length = slot_length x\<rparr>
      else
        let diff = map_of (difficulty_of raw);
            ms = (if so_category x = ''TB'' then [] else so_mods x);
            names = set (map acronym ms);
            cs = scaled names (13 / 10) (or_else (diff ''CircleSize'') (or_else (so_cs x) 5));
            od = scaled names (14 / 10) (or_else (diff ''OverallDifficulty'') (or_else (so_od x) 5));
            ar = scaled names (14 / 10) (or_else (diff ''ApproachRate'')
                   (or_else (diff ''OverallDifficulty'') (or_else (so_ar x) 5)));
            hp = scaled names (14 / 10) (or_else (diff ''HPDrainRate'') (or_else (so_hp x) 5))
        in andthen (clock_rate ms) (\<lambda>rate.
           (if ruleset \<in> {0, 1, 2} then divisible rate else (\<lambda>r. r))
             (case star_rating of
                None \<Rightarrow> Inl KeyErr
              | Some stars \<Rightarrow>
                  divisible rate
                    (Inr \<lparr>st_stars = stars, st_bpm = or_else (so_bpm x) 0 * rate, st_cs = cs,
                          st_ar = (if ruleset \<in> {0, 2} then adjusted_ar rate ar else ar),
                          st_od = adjusted_od ruleset rate od, st_hp = hp,
                          st_length = slot_length x / rate\<rparr>))))"

section \<open>Pattern descriptors\<close>

definition mean_of :: "real list \<Rightarrow> real" where
  "mean_of xs = (if xs = [] then 0 else sum_list xs / real (length xs))"

fun pairs_of :: "'a list \<Rightarrow> ('a \<times> 'a) list" where
  "pairs_of (x # y # ys) = (x, y) # pairs_of (y # ys)"
| "pairs_of _ = []"

definition variation :: "real list \<Rightarrow> real" where
  "variation xs = mean_of (map (\<lambda>(a, b). min 1 \<bar>log 2 (b / a)\<bar>) (filter (\<lambda>(a, b). min a b > 0) (pairs_of xs)))"

type_synonym point = "real \<times> real"

definition hypot :: "real \<Rightarrow> real \<Rightarrow> real" where
  "hypot x y = sqrt (x ^ 2 + y ^ 2)"

definition dist_of :: "point \<Rightarrow> point \<Rightarrow> real" where
  "dist_of a b = hypot (fst b - fst a) (snd b - snd a)"

fun turns_of :: "point list \<Rightarrow> real list" where
  "turns_of (a # b # c # rest) =
     (let ux = fst b - fst a; uy = snd b - snd a; vx = fst c - fst b; vy = snd c - snd b;
          len = hypot ux uy * hypot vx vy
      in (if len > 1 then [arccos (max (-1) (min 1 ((ux * vx + uy * vy) / len)))] else [])
         @ turns_of (b # c # rest))"
| "turns_of _ = []"

record chart =
  ch_section :: string
  ch_timing :: "(real \<times> real) list"
  ch_hits :: "string list list"
  ch_multiplier :: real

text \<open>One line of the parsing loop; a malformed number or a short record raises.\<close>

definition chart_line :: "string \<Rightarrow> chart \<Rightarrow> error + chart" where
  "chart_line raw c =
     (let line = py_strip raw; parts = split_on (CHR '','') line in
      if line = [] \<or> starts_with line ''//'' then Inr c
      else if starts_with line ''['' then Inr (c\<lparr>ch_section := line\<rparr>)
      else if ch_section c = ''[Difficulty]'' \<and> starts_with line ''SliderMultiplier:'' then
        (case py_number (snd (split_once (CHR '':'') line)) of
           None \<Rightarrow> Inl (ValueErr ''float'') | Some x \<Rightarrow> Inr (c\<lparr>ch_multiplier := x\<rparr>))
      else if ch_section c = ''[TimingPoints]'' \<and> CHR '','' \<in> set line then
        (case (py_number (parts ! 0), py_number (parts ! 1)) of
           (Some a, Some b) \<Rightarrow> Inr (c\<lparr>ch_timing := ch_timing c @ [(a, b)]\<rparr>)
         | _ \<Rightarrow> Inl (ValueErr ''float''))
      else if ch_section c = ''[HitObjects]'' \<and> CHR '','' \<in> set line then
        (if length parts < 4 then Inl KeyErr
         else case py_int (parts ! 3) of
                None \<Rightarrow> Inl (ValueErr ''int'')
              | Some kind \<Rightarrow> Inr (if bit kind 3 then c else c\<lparr>ch_hits := ch_hits c @ [parts]\<rparr>))
      else Inr c)"

fun chart_lines :: "string list \<Rightarrow> chart \<Rightarrow> error + chart" where
  "chart_lines [] c = Inr c"
| "chart_lines (l # ls) c = (case chart_line l c of Inl e \<Rightarrow> Inl e | Inr c' \<Rightarrow> chart_lines ls c')"

record hit =
  h_point :: point
  h_time :: real
  h_slider :: "(point list \<times> int) option"

definition path_point :: "string \<Rightarrow> (error + point) option" where
  "path_point w =
     (let cs = split_on (CHR '':'') w in
      if length cs < 2 then None
      else Some (case (py_number (cs ! 0), py_number (cs ! 1)) of
                   (Some a, Some b) \<Rightarrow> Inr (a, b) | _ \<Rightarrow> Inl (ValueErr ''float'')))"

fun path_points :: "string list \<Rightarrow> error + point list" where
  "path_points [] = Inr []"
| "path_points (w # ws) =
     (case path_points ws of Inl e \<Rightarrow> Inl e
      | Inr ps \<Rightarrow> (case path_point w of None \<Rightarrow> Inr ps | Some (Inl e) \<Rightarrow> Inl e | Some (Inr p) \<Rightarrow> Inr (p # ps)))"

definition parse_hit :: "string list \<Rightarrow> error + hit" where
  "parse_hit parts =
     (case (py_number (parts ! 0), py_number (parts ! 1), py_number (parts ! 2), py_int (parts ! 3)) of
        (Some x, Some y, Some t, Some kind) \<Rightarrow>
          if bit kind 1 \<and> length parts \<ge> 8 then
            (case (path_points (tl (split_on (CHR ''|'') (parts ! 5))), py_int (parts ! 6)) of
               (Inr ps, Some reps) \<Rightarrow> Inr \<lparr>h_point = (x, y), h_time = t, h_slider = Some ((x, y) # ps, reps)\<rparr>
             | _ \<Rightarrow> Inl (ValueErr ''float''))
          else Inr \<lparr>h_point = (x, y), h_time = t, h_slider = None\<rparr>
      | _ \<Rightarrow> Inl (ValueErr ''float''))"

fun parse_hits :: "string list list \<Rightarrow> error + hit list" where
  "parse_hits [] = Inr []"
| "parse_hits (p # ps) =
     (case parse_hit p of Inl e \<Rightarrow> Inl e
      | Inr h \<Rightarrow> (case parse_hits ps of Inl e \<Rightarrow> Inl e | Inr hs \<Rightarrow> Inr (h # hs)))"

text \<open>The timing state (beat length, slider velocity) after the points up to a time.\<close>

definition timing_step :: "real \<times> real \<Rightarrow> real \<times> real \<Rightarrow> real \<times> real" where
  "timing_step tp acc =
     (let value = snd tp in
      if value > 0 then (value, 1)
      else if value < 0 then (fst acc, max (1 / 10) (min 10 (- 100 / value)))
      else acc)"

fun slider_speeds :: "real \<Rightarrow> (real \<times> real) list \<Rightarrow> real \<times> real \<Rightarrow> hit list \<Rightarrow> real list" where
  "slider_speeds mult timing acc [] = []"
| "slider_speeds mult timing acc (h # hs) =
     (let acc' = fold timing_step (takeWhile (\<lambda>tp. fst tp \<le> h_time h) timing) acc;
          rest = dropWhile (\<lambda>tp. fst tp \<le> h_time h) timing
      in (case h_slider h of None \<Rightarrow> [] | Some _ \<Rightarrow> [mult * 100 * snd acc' / fst acc'])
         @ slider_speeds mult rest acc' hs)"

record features =
  ft_rhythm :: real
  ft_angles :: real
  ft_slider_tech :: real

definition features_of :: "real \<Rightarrow> (real \<times> real) list \<Rightarrow> hit list \<Rightarrow> features" where
  "features_of mult timing hits =
     (let points = map h_point hits;
          deltas = filter (\<lambda>d. 25 \<le> d \<and> d \<le> 1000) (map (\<lambda>(a, b). b - a) (pairs_of (map h_time hits)));
          distances = filter (\<lambda>d. d > 1) (map (\<lambda>(a, b). dist_of a b) (pairs_of points));
          angle_variation = mean_of (map (\<lambda>(a, b). \<bar>b - a\<bar> / pi) (pairs_of (turns_of points)));
          sliders = concat (map (\<lambda>h. case h_slider h of None \<Rightarrow> [] | Some sl \<Rightarrow> [sl]) hits);
          shapes = map (\<lambda>(path, _). mean_of (turns_of path) / pi) sliders;
          repeats = map (\<lambda>(_, reps). min 1 (of_int (max 0 (reps - 1)) / 3)) sliders;
          speeds = slider_speeds mult timing (500, 1) hits
      in \<lparr>ft_rhythm = variation deltas,
          ft_angles = min 1 (angle_variation * 15 / 10 + variation distances * 3 / 10),
          ft_slider_tech = min 1 (mean_of shapes * 45 / 100 + variation speeds * 4 / 10 + mean_of repeats * 15 / 100)\<rparr>)"

definition sort_timing :: "(real \<times> real) list \<Rightarrow> (real \<times> real) list" where
  "sort_timing ts = sort_key fst (sort_key snd ts)"

definition technical_features :: "string \<Rightarrow> error + features" where
  "technical_features raw =
     (case chart_lines (splitlines raw) \<lparr>ch_section = [], ch_timing = [], ch_hits = [], ch_multiplier = 14 / 10\<rparr> of
        Inl e \<Rightarrow> Inl e
      | Inr c \<Rightarrow>
          if length (ch_hits c) < 3 then Inr \<lparr>ft_rhythm = 0, ft_angles = 0, ft_slider_tech = 0\<rparr>
          else (case parse_hits (ch_hits c) of
                  Inl e \<Rightarrow> Inl e
                | Inr hs \<Rightarrow>
                    Inr (features_of (ch_multiplier c) (sort_timing (ch_timing c)) (sort_key h_time hs))))"

end
