(* ===== verification/Penalties.thy ===== *)
theory Penalties
  imports Dodge
begin

text \<open>
  The penalties of \<open>ranked_dodge_service.py\<close> against what they are meant to be: the civil calendar
  under them is a bijection, penalties end later the higher the level, a report of the same room
  counts once, and levels stay between 1 and 14 with the permanent ban at 14.
\<close>

section \<open>The calendar\<close>

lemma days_in_month_bounds: "28 \<le> days_in_month y m \<and> days_in_month y m \<le> 31"
  by (simp add: days_in_month_def)

lemma days_before_month_Suc: "1 \<le> m \<Longrightarrow> days_before_month y (m + 1) = days_before_month y m + days_in_month y m"
  using upto_rec2[of 1 m] by (simp add: days_before_month_def)

lemma year_days: "days_before_month y 13 = (if is_leap y then 366 else 365)"
  by (simp add: days_before_month_def upto_rec1 days_in_month_def)

lemma days_before_month_mono:
  assumes "1 \<le> m" "m \<le> k"
  shows "days_before_month y m \<le> days_before_month y k"
  using assms(2,1)
proof (induction k rule: int_ge_induct)
  case (step k)
  then show ?case using days_before_month_Suc[of k y] days_in_month_bounds[of y k] by linarith
qed simp

definition valid_date :: "int \<Rightarrow> int \<Rightarrow> int \<Rightarrow> bool" where
  "valid_date y m d \<longleftrightarrow> 1 \<le> y \<and> 1 \<le> m \<and> m \<le> 12 \<and> 1 \<le> d \<and> d \<le> days_in_month y m"

lemma valid_date_in_year:
  assumes "valid_date y m d"
  shows "days_before_year y < ymd2ord y m d \<and> ymd2ord y m d \<le> days_before_year (y + 1)"
proof -
  have "0 \<le> days_before_month y m"
    using assms days_before_month_mono[of 1 m y] by (simp add: valid_date_def days_before_month_def)
  moreover have "days_before_month y (m + 1) \<le> days_before_month y 13"
    using assms by (intro days_before_month_mono) (simp_all add: valid_date_def)
  ultimately show ?thesis
    using assms days_before_month_Suc[of m y] year_days[of y] days_before_year_Suc[of y]
    by (simp add: ymd2ord_def valid_date_def split: if_splits)
qed

lemma days_before_year_mono:
  assumes "y \<le> z"
  shows "days_before_year y \<le> days_before_year z"
  using assms
proof (induction z rule: int_ge_induct)
  case (step z)
  then show ?case using days_before_year_Suc[of z] by (simp split: if_splits)
qed simp

lemma year_from_eq:
  assumes "days_before_year y < n" "n \<le> days_before_year (y + 1)" "y0 \<le> y"
  shows "year_from n y0 = y"
  using assms(3)
proof (induction "nat (y - y0)" arbitrary: y0)
  case 0
  then show ?case using assms(2) by (simp add: year_from.simps)
next
  case (Suc k)
  then have "y0 + 1 \<le> y" by linarith
  then have "days_before_year (y0 + 1) < n" using days_before_year_mono[of "y0 + 1" y] assms(1) by linarith
  then show ?case using Suc(1)[of "y0 + 1"] Suc(2) \<open>y0 + 1 \<le> y\<close> by (simp add: year_from.simps[of n y0])
qed

lemma year_estimate:
  assumes "1 \<le> y" "n \<le> days_before_year (y + 1)"
  shows "n div 366 + 1 \<le> y"
proof -
  have "y div 4 - y div 100 + y div 400 < y"
  proof -
    have "y div 4 < y" using assms(1) by (intro int_div_less_self) simp_all
    moreover have "y div 400 \<le> y div 100" using assms(1) by (intro zdiv_mono2) simp_all
    ultimately show ?thesis by linarith
  qed
  then have "n < 366 * y" using assms(2) by (simp add: days_before_year_def Let_def)
  moreover have "n = 366 * (n div 366) + n mod 366" "0 \<le> n mod 366" by simp_all
  ultimately show ?thesis by linarith
qed

lemma month_from_eq:
  assumes "1 \<le> j" "j \<le> m" "m - j \<le> int k" "1 \<le> d" "d \<le> days_in_month y m"
  shows "month_from k y j (days_before_month y m - days_before_month y j + d) = (m, d)"
  using assms
proof (induction k arbitrary: j)
  case 0
  then have "j = m" by simp
  then show ?case by simp
next
  case (Suc k)
  show ?case
  proof (cases "j = m")
    case True
    then show ?thesis using Suc.prems by simp
  next
    case False
    then have "j + 1 \<le> m" using Suc.prems by simp
    then have "days_before_month y j + days_in_month y j \<le> days_before_month y m"
      using days_before_month_mono[of "j + 1" m y] days_before_month_Suc[of j y] Suc.prems by linarith
    then have "\<not> days_before_month y m - days_before_month y j + d \<le> days_in_month y j"
      using Suc.prems by linarith
    then show ?thesis
      using Suc.IH[of "j + 1"] \<open>j + 1 \<le> m\<close> Suc.prems days_before_month_Suc[of j y]
      by (simp add: algebra_simps)
  qed
qed

lemma ord2ymd_ymd2ord:
  assumes "valid_date y m d"
  shows "ord2ymd (ymd2ord y m d) = (y, m, d)"
proof -
  have y: "1 \<le> y" using assms by (simp add: valid_date_def)
  note range = valid_date_in_year[OF assms]
  have "year_of (ymd2ord y m d) = y"
    unfolding year_of_def using range year_estimate[OF y] by (intro year_from_eq) blast+
  moreover have "month_from 11 y 1 (days_before_month y m + d) = (m, d)"
    using month_from_eq[of 1 m 11 d y] assms by (simp add: valid_date_def days_before_month_def)
  ultimately show ?thesis by (simp add: ord2ymd_def Let_def ymd2ord_def)
qed

lemma date_exists: "1 \<le> n \<Longrightarrow> \<exists>y m d. valid_date y m d \<and> ymd2ord y m d = n"
proof (induction n rule: int_ge_induct)
  case base
  have "valid_date 1 1 1 \<and> ymd2ord 1 1 1 = 1" by code_simp
  then show ?case by blast
next
  case (step n)
  then obtain y m d where v: "valid_date y m d" and n: "ymd2ord y m d = n" by blast
  consider "d < days_in_month y m" | "d = days_in_month y m" "m < 12" | "d = days_in_month y m" "m = 12"
    using v by (fastforce simp: valid_date_def)
  then show ?case
  proof cases
    case 1
    then have "valid_date y m (d + 1) \<and> ymd2ord y m (d + 1) = n + 1" using v n by (simp add: valid_date_def ymd2ord_def)
    then show ?thesis by blast
  next
    case 2
    then have "valid_date y (m + 1) 1" using v days_in_month_bounds[of y "m + 1"] by (simp add: valid_date_def)
    moreover have "ymd2ord y (m + 1) 1 = n + 1"
      using 2 v n days_before_month_Suc[of m y] by (simp add: ymd2ord_def valid_date_def)
    ultimately show ?thesis by blast
  next
    case 3
    then have "valid_date (y + 1) 1 1" using v by (simp add: valid_date_def days_in_month_def)
    moreover have "ymd2ord (y + 1) 1 1 = n + 1"
      using 3 v n days_before_month_Suc[of 12 y] year_days[of y] days_before_year_Suc[of y]
      by (simp add: ymd2ord_def days_before_month_def[of "y + 1"] split: if_splits)
    ultimately show ?thesis by blast
  qed
qed

lemma ord2ymd_valid:
  assumes "1 \<le> n" "ord2ymd n = (y, m, d)"
  shows "valid_date y m d \<and> ymd2ord y m d = n"
  using date_exists[OF assms(1)] ord2ymd_ymd2ord assms(2) by fastforce

section \<open>Months\<close>

text \<open>The ordinal of the first day of month \<open>k\<close>, counted from year 0.\<close>

definition month_start :: "int \<Rightarrow> int" where
  "month_start k = ymd2ord (k div 12) (k mod 12 + 1) 1"

definition month_length :: "int \<Rightarrow> int" where
  "month_length k = days_in_month (k div 12) (k mod 12 + 1)"

lemma month_start_Suc: "month_start (k + 1) = month_start k + month_length k"
proof (cases "k mod 12 = 11")
  case True
  have k: "k + 1 = 12 * (k div 12 + 1) + 0"
    using div_mult_mod_eq[of k 12] unfolding True by (simp add: algebra_simps)
  have "(k + 1) div 12 = k div 12 + 1" "(k + 1) mod 12 = 0"
    using int_div_pos_eq[OF k] int_mod_pos_eq[OF k] by simp_all
  then show ?thesis
    using True days_before_month_Suc[of 12 "k div 12"] year_days[of "k div 12"] days_before_year_Suc[of "k div 12"]
    by (simp add: month_start_def month_length_def ymd2ord_def days_before_month_def[of "k div 12 + 1"] split: if_splits)
next
  case False
  have k: "k + 1 = 12 * (k div 12) + (k mod 12 + 1)" by simp
  have r: "0 \<le> k mod 12 + 1" "k mod 12 + 1 < 12"
    using False pos_mod_bound[of 12 k] pos_mod_sign[of 12 k] by linarith+
  have "(k + 1) div 12 = k div 12" using int_div_pos_eq[OF k r] .
  moreover have "(k + 1) mod 12 = k mod 12 + 1" using int_mod_pos_eq[OF k r] .
  ultimately show ?thesis
    using days_before_month_Suc[of "k mod 12 + 1" "k div 12"] pos_mod_sign[of 12 k]
    by (simp add: month_start_def month_length_def ymd2ord_def)
qed

lemma month_length_bounds: "28 \<le> month_length k \<and> month_length k \<le> 31"
  unfolding month_length_def by (rule days_in_month_bounds)

lemma month_start_after: "month_start k + month_length k + 28 * int n \<le> month_start (k + 1 + int n)"
proof (induction n)
  case 0
  then show ?case by (simp add: month_start_Suc)
next
  case (Suc n)
  then show ?case
    using month_start_Suc[of "k + 1 + int n"] month_length_bounds[of "k + 1 + int n"] by (simp add: algebra_simps)
qed

lemma add_months_shape:
  assumes "0 \<le> t"
  shows "\<exists>M d. 1 \<le> d \<and> d \<le> month_length M \<and>
    (\<forall>k. add_months t k = (month_start (M + k) + min d (month_length (M + k)) - 1 - EPOCH_ORDINAL) * DAY + t mod DAY)
    \<and> t = (month_start M + d - 1 - EPOCH_ORDINAL) * DAY + t mod DAY"
proof -
  let ?n = "t div DAY + EPOCH_ORDINAL"
  obtain y m d where o: "ord2ymd ?n = (y, m, d)" by (cases "ord2ymd ?n")
  have "0 \<le> t div DAY" using assms by (simp add: DAY_def seconds_def pos_imp_zdiv_nonneg_iff)
  then have v: "valid_date y m d" "ymd2ord y m d = ?n" using ord2ymd_valid[OF _ o] by (simp_all add: EPOCH_ORDINAL_def)
  let ?M = "y * 12 + m - 1"
  have M: "?M = 12 * y + (m - 1)" "0 \<le> m - 1" "m - 1 < 12" using v(1) by (simp_all add: valid_date_def)
  have dm: "?M div 12 = y" "?M mod 12 + 1 = m" using int_div_pos_eq[OF M] int_mod_pos_eq[OF M] by simp_all
  have "1 \<le> d" "d \<le> month_length ?M" using v(1) unfolding month_length_def dm by (simp_all add: valid_date_def)
  moreover have "ymd2ord a b c = ymd2ord a b 1 + c - 1" for a b c by (simp add: ymd2ord_def)
  then have "?n = month_start ?M + d - 1" using v(2) unfolding month_start_def dm by metis
  moreover have "add_months t k = (month_start (?M + k) + min d (month_length (?M + k)) - 1 - EPOCH_ORDINAL) * DAY + t mod DAY" for k
    using \<open>\<And>a b c. ymd2ord a b c = ymd2ord a b 1 + c - 1\<close>[of "(?M + k) div 12" "(?M + k) mod 12 + 1"
      "min d (month_length (?M + k))"]
    by (simp add: add_months_def o Let_def month_start_def month_length_def)
  moreover have "t = (?n - EPOCH_ORDINAL) * DAY + t mod DAY" by simp
  ultimately show ?thesis by metis
qed

text \<open>Every month more is at least one day, and every full month between at least 28.\<close>

lemma add_months_gap:
  assumes "0 \<le> t" "i + 1 + int n = j"
  shows "add_months t i + (28 * int n + 1) * DAY \<le> add_months t j"
proof -
  obtain M d where d: "1 \<le> d" "d \<le> month_length M"
    and eq: "\<And>k. add_months t k = (month_start (M + k) + min d (month_length (M + k)) - 1 - EPOCH_ORDINAL) * DAY + t mod DAY"
    using add_months_shape[OF assms(1)] by blast
  have "month_start (M + i) + month_length (M + i) + 28 * int n \<le> month_start (M + j)"
    using month_start_after[of "M + i" n] unfolding assms(2)[symmetric] by (simp add: algebra_simps)
  then have "month_start (M + i) + min d (month_length (M + i)) + (28 * int n + 1) \<le> month_start (M + j) + min d (month_length (M + j))"
    using d month_length_bounds[of "M + i"] month_length_bounds[of "M + j"] by linarith
  then have "(month_start (M + i) + min d (month_length (M + i)) - 1 - EPOCH_ORDINAL + (28 * int n + 1)) * DAY
      \<le> (month_start (M + j) + min d (month_length (M + j)) - 1 - EPOCH_ORDINAL) * DAY"
    by (intro mult_right_mono) (simp_all add: DAY_def seconds_def)
  then show ?thesis unfolding eq by (simp add: algebra_simps)
qed

lemma add_months_0: "0 \<le> t \<Longrightarrow> add_months t 0 = t"
  using add_months_shape[of t] by (auto simp: min_absorb1)

section \<open>Escalation\<close>

definition level_end :: "time \<Rightarrow> nat \<Rightarrow> time" where
  "level_end t level = (if level \<le> 10 then t + minutes (PENALTY_MINUTES ! (level - 1))
     else add_months t (if level = 11 then 3 else if level = 12 then 6 else 12))"

lemma penalty_end_level: "1 \<le> level \<Longrightarrow> level \<le> 13 \<Longrightarrow> penalty_end t level = Inr (Some (level_end t level))"
  by (simp add: penalty_end_def level_end_def PENALTY_MINUTES_def)

lemma level_end_step:
  assumes "0 \<le> t" "1 \<le> level" "level < 13"
  shows "level_end t level < level_end t (Suc level)"
proof -
  consider "level \<in> {1..9}" | "level = 10" | "level = 11" | "level = 12" using assms by fastforce
  then show ?thesis
  proof cases
    case 1
    then have "level \<in> set [1, 2, 3, 4, 5, 6, 7, 8, 9]" by auto
    then show ?thesis by (auto simp: level_end_def PENALTY_MINUTES_def minutes_def)
  next
    case 2
    have "t + 57 * DAY \<le> add_months t 3"
      using add_months_gap[OF assms(1), of 0 2 3] add_months_0[OF assms(1)] by simp
    then show ?thesis using 2 by (simp add: level_end_def PENALTY_MINUTES_def minutes_def DAY_def seconds_def)
  next
    case 3
    then show ?thesis
      using add_months_gap[OF assms(1), of 3 2 6] by (simp add: level_end_def DAY_def seconds_def)
  next
    case 4
    then show ?thesis
      using add_months_gap[OF assms(1), of 6 5 12] by (simp add: level_end_def DAY_def seconds_def)
  qed
qed

lemma level_end_mono:
  assumes "0 \<le> t" "1 \<le> a" "a < b" "b \<le> 13"
  shows "level_end t a < level_end t b"
  using assms(3,4)
proof (induction b)
  case (Suc b)
  show ?case
  proof (cases "a = b")
    case True
    then show ?thesis using level_end_step[OF assms(1,2)] Suc.prems by simp
  next
    case False
    then have "level_end t a < level_end t b" using Suc by simp
    also have "\<dots> < level_end t (Suc b)" using Suc.prems assms(2) by (intro level_end_step[OF assms(1)]) simp_all
    finally show ?thesis .
  qed
qed simp

text \<open>C33: penalties escalate: each of the levels 1 to 13 ends at a definite time after now, and a higher level
  always ends strictly later than a lower one, across the change from minutes to calendar months
  and whatever the lengths of the months; level 14 has no end; there is no other level.\<close>

theorem penalties_escalate:
  assumes "0 \<le> t"
  shows "(\<forall>a \<in> {1..13}. \<exists>e. penalty_end t a = Inr (Some e) \<and> t < e)
    \<and> (\<forall>a b e f. a < b \<and> penalty_end t a = Inr (Some e) \<and> penalty_end t b = Inr (Some f) \<longrightarrow> e < f)
    \<and> penalty_end t 14 = Inr None
    \<and> (\<forall>a. a \<notin> {1..14} \<longrightarrow> penalty_end t a = Inl (ValueErr ''Invalid Ranked dodge penalty level''))"
proof (intro conjI allI ballI impI)
  fix a :: nat assume a: "a \<in> {1..13}"
  have "t < level_end t 1" by (simp add: level_end_def PENALTY_MINUTES_def minutes_def seconds_def)
  moreover have "level_end t 1 \<le> level_end t a"
    using a level_end_mono[OF assms, of 1 a] by (cases "a = 1") auto
  ultimately show "\<exists>e. penalty_end t a = Inr (Some e) \<and> t < e"
    using penalty_end_level[of a t] a by auto
next
  fix a b e f assume h: "a < b \<and> penalty_end t a = Inr (Some e) \<and> penalty_end t b = Inr (Some f)"
  then have r: "1 \<le> a" "b \<le> 13"
    unfolding penalty_end_def PENALTY_MINUTES_def by (auto split: if_splits)
  then show "e < f"
    using h penalty_end_level[of a t] penalty_end_level[of b t] level_end_mono[OF assms, of a b] by simp
next
  show "penalty_end t 14 = Inr None" by (simp add: penalty_end_def PENALTY_MINUTES_def)
next
  fix a :: nat assume "a \<notin> {1..14}"
  then show "penalty_end t a = Inl (ValueErr ''Invalid Ranked dodge penalty level'')"
    by (auto simp: penalty_end_def PENALTY_MINUTES_def)
qed

text \<open>31 January 2024, 00:00: three months end on 30 April, six on 31 July.\<close>

theorem penalties_escalate_witness:
  "penalty_end 1706659200000000 11 = Inr (Some 1714435200000000)
   \<and> penalty_end 1706659200000000 12 = Inr (Some 1722384000000000)
   \<and> (1714435200000000 :: time) < 1722384000000000"
proof -
  have a: "penalty_end 1706659200000000 11 = Inr (Some 1714435200000000)"
      "penalty_end 1706659200000000 12 = Inr (Some 1722384000000000)"
    by code_simp+
  then show ?thesis using penalties_escalate[of 1706659200000000] by simp
qed

section \<open>Registering a report\<close>

definition new_penalty :: "int \<Rightarrow> int \<Rightarrow> db \<Rightarrow> time option \<Rightarrow> penalty_row" where
  "new_penalty room uid s e =
     \<lparr>pen_room = room, pen_user = uid, pen_level = next_level (whole_seconds (now s)) (latest_penalty uid s),
      pen_created = whole_seconds (now s), pen_expires = e,
      pen_banned = (next_level (whole_seconds (now s)) (latest_penalty uid s) = 14)\<rparr>"

definition dodge_audit :: "int \<Rightarrow> int \<Rightarrow> string option \<Rightarrow> db \<Rightarrow> audit_row" where
  "dodge_audit room uid why s = \<lparr>au_target = uid,
     au_reason = (case why of
        Some r \<Rightarrow> if r = [] then ''Left Ranked room '' @ int_str room @ '' before confirming the initial hand'' else r
      | None \<Rightarrow> ''Left Ranked room '' @ int_str room @ '' before confirming the initial hand''),
     au_before_level = (case latest_penalty uid s of None \<Rightarrow> 0 | Some q \<Rightarrow> pen_level q),
     au_room = room, au_level = next_level (whole_seconds (now s)) (latest_penalty uid s)\<rparr>"

definition after_dodge :: "int \<Rightarrow> int \<Rightarrow> string option \<Rightarrow> user_row \<Rightarrow> time option \<Rightarrow> db \<Rightarrow> db" where
  "after_dodge room uid why u e s =
     (let p = new_penalty room uid s e;
          s1 = s\<lparr>penalties := put_row pen_room p (penalties s)\<rparr>;
          s2 = (if pen_level p = 14
                then put_user (u\<lparr>u_active := False\<rparr>) s1\<lparr>credentials := filter (\<lambda>c. snd c \<noteq> uid) (credentials s1)\<rparr>
                else s1)
      in s2\<lparr>audit := audit s2 @ [dodge_audit room uid why s]\<rparr>)"

text \<open>The three outcomes of \<open>register_dodge\<close>.\<close>

lemma register_dodge_result:
  assumes "register_dodge room uid lenient why s = (r, t)"
  obtains (known) p where "get_row pen_room room (penalties s) = Some p" "r = Inr (status_for p)" "t = s"
  | (refused) e where "get_row pen_room room (penalties s) = None" "r = Inl e" "t = s"
  | (recorded) u e where "get_row pen_room room (penalties s) = None" "find_user uid s = Some u"
      "penalty_end (whole_seconds (now s)) (next_level (whole_seconds (now s)) (latest_penalty uid s)) = Inr e"
      "r = Inr (status_for (new_penalty room uid s e))"
      "t = after_dodge room uid why u e s"
proof (cases "get_row pen_room room (penalties s)")
  case (Some p)
  have "register_dodge room uid lenient why s = (Inr (status_for p), s)"
    by (simp only: register_dodge_def run_simps Some option.case)
  then show ?thesis using assms known[OF Some] by simp
next
  case None
  note free = this
  have stop: thesis if "\<exists>e. register_dodge room uid lenient why s = (Inl e, s)"
    using that assms refused[OF free] by auto
  show ?thesis
  proof (cases "find_user uid s")
    case None
    show ?thesis
      by (rule stop) (simp only: register_dodge_def run_simps free None option.case, blast)
  next
    case (Some u)
    show ?thesis
    proof (cases "case get_row rm_id room (rooms s) of None \<Rightarrow> \<not> lenient | Some r \<Rightarrow> rm_type r \<noteq> RankedPlay")
      case True
      show ?thesis
        by (rule stop) (simp only: register_dodge_def run_simps free Some option.case True if_True, blast)
    next
      case False
      show ?thesis
      proof (cases "penalty_end (whole_seconds (now s)) (next_level (whole_seconds (now s)) (latest_penalty uid s))")
        case (Inl e)
        show ?thesis
          by (rule stop) (simp only: register_dodge_def run_simps free Some option.case False if_False Let_def Inl, blast)
      next
        case (Inr e)
        have "register_dodge room uid lenient why s
            = (Inr (status_for (new_penalty room uid s e)), after_dodge room uid why u e s)"
          by (simp only: register_dodge_def run_simps free Some option.case False if_False Let_def Inr)
            (cases "next_level (whole_seconds (now s)) (latest_penalty uid s) = 14";
              simp add: run_simps after_dodge_def new_penalty_def dodge_audit_def put_user_def)
        then show ?thesis using assms by (intro recorded[OF free Some Inr]) simp_all
      qed
    qed
  qed
qed

lemma after_dodge_fields [simp]:
  "penalties (after_dodge room uid why u e s) = put_row pen_room (new_penalty room uid s e) (penalties s)"
  "now (after_dodge room uid why u e s) = now s"
  "audit (after_dodge room uid why u e s) = audit s @ [dodge_audit room uid why s]"
  by (simp_all add: after_dodge_def Let_def put_user_def)

lemma new_penalty_fields [simp]:
  "pen_room (new_penalty room uid s e) = room" "pen_user (new_penalty room uid s e) = uid"
  "pen_created (new_penalty room uid s e) = whole_seconds (now s)" "pen_expires (new_penalty room uid s e) = e"
  "pen_level (new_penalty room uid s e) = next_level (whole_seconds (now s)) (latest_penalty uid s)"
  by (simp_all add: new_penalty_def)

lemma next_level_range: "1 \<le> next_level t p \<and> next_level t p \<le> 14"
  by (simp add: next_level_def split: option.split)

text \<open>A room is penalised once: reporting it again, for whomever and by whatever path, returns the
  recorded status and writes nothing; and a refused report writes nothing either.\<close>

theorem dodge_counts_once:
  "case register_dodge room uid lenient why s of
     (Inr d, t) \<Rightarrow> register_dodge room uid2 lenient2 why2 t = (Inr d, t)
   | (Inl e, t) \<Rightarrow> t = s"
proof -
  have again: "register_dodge room uid2 lenient2 why2 t = (Inr (status_for p), t)"
    if "get_row pen_room room (penalties t) = Some p" for t p
    by (simp only: register_dodge_def run_simps that option.case)
  obtain r t where run: "register_dodge room uid lenient why s = (r, t)" by (cases "register_dodge room uid lenient why s")
  show ?thesis
    using run
  proof (cases rule: register_dodge_result)
    case (known p)
    then show ?thesis using run again[of s p] by simp
  next
    case (refused e)
    then show ?thesis using run by simp
  next
    case (recorded u e)
    then show ?thesis using run again[of t "new_penalty room uid s e"] by simp
  qed
qed

definition penalty_ok :: "penalty_row \<Rightarrow> bool" where
  "penalty_ok p \<longleftrightarrow> 1 \<le> pen_level p \<and> pen_level p \<le> 14
     \<and> (pen_banned p \<longleftrightarrow> pen_level p = 14) \<and> (pen_expires p = None \<longleftrightarrow> pen_level p = 14)
     \<and> (case pen_expires p of None \<Rightarrow> True | Some e \<Rightarrow> pen_created p < e)"

definition penalties_ok :: "db \<Rightarrow> bool" where
  "penalties_ok s \<longleftrightarrow> (\<forall>p \<in> set (penalties s). penalty_ok p)"

lemma whole_seconds_bounds: "0 \<le> t \<Longrightarrow> 0 \<le> whole_seconds t" "whole_seconds t \<le> t" "t < whole_seconds t + seconds 1"
proof -
  have b: "0 \<le> t mod seconds 1" "t mod seconds 1 < seconds 1" by (simp_all add: seconds_def)
  then show "whole_seconds t \<le> t" "t < whole_seconds t + seconds 1" by (simp_all add: whole_seconds_def)
  show "0 \<le> t \<Longrightarrow> 0 \<le> whole_seconds t" by (simp add: whole_seconds_def zmod_le_nonneg_dividend)
qed

text \<open>The table of penalties stays consistent: levels from 1 to 14, the permanent ban exactly at 14,
  every other penalty with an end after its beginning.\<close>

theorem penalties_stay_consistent:
  assumes "penalties_ok s" and "0 \<le> now s"
  shows "penalties_ok (snd (register_dodge room uid lenient why s))"
proof -
  obtain r t where run: "register_dodge room uid lenient why s = (r, t)" by (cases "register_dodge room uid lenient why s")
  show ?thesis
    using run
  proof (cases rule: register_dodge_result)
    case (recorded u e)
    let ?l = "next_level (whole_seconds (now s)) (latest_penalty uid s)"
    have l: "?l = 14 \<or> ?l \<in> {1..13}" using next_level_range[of "whole_seconds (now s)" "latest_penalty uid s"] by auto
    have esc: "a \<in> {1..13} \<Longrightarrow> \<exists>e. penalty_end (whole_seconds (now s)) a = Inr (Some e) \<and> whole_seconds (now s) < e"
        "penalty_end (whole_seconds (now s)) 14 = Inr None" for a
      using level_end_mono[of "whole_seconds (now s)" 1 a] penalty_end_level[of a "whole_seconds (now s)"]
        whole_seconds_bounds(1)[OF assms(2)]
      by (fastforce simp: penalty_end_def PENALTY_MINUTES_def level_end_def minutes_def seconds_def)+
    have "(e = None \<longleftrightarrow> ?l = 14) \<and> (\<forall>f. e = Some f \<longrightarrow> whole_seconds (now s) < f)"
      using recorded(3) l esc by fastforce
    then have "penalty_ok (new_penalty room uid s e)"
      using next_level_range[of "whole_seconds (now s)" "latest_penalty uid s"]
      by (simp add: penalty_ok_def new_penalty_def split: option.split)
    then have "penalties_ok t"
      using assms(1) set_put_row[of pen_room "new_penalty room uid s e" "penalties s"]
      unfolding penalties_ok_def recorded(5) after_dodge_fields by blast
    then show ?thesis by (simp add: run)
  qed (use assms run in simp_all)
qed

definition demo_penalties :: db where
  "demo_penalties = demo_db\<lparr>penalties := [\<lparr>pen_room = 5, pen_user = 1, pen_level = 13, pen_created = 0,
     pen_expires = Some 2000000000, pen_banned = False\<rparr>]\<rparr>"

text \<open>One more dodge while level 13 lasts: the permanent ban.\<close>

theorem penalties_stay_consistent_witness:
  "penalties_ok (snd (register_dodge 6 1 True None demo_penalties))
   \<and> map pen_level (penalties (snd (register_dodge 6 1 True None demo_penalties))) = [13, 14]"
proof -
  have "penalties_ok demo_penalties" "0 \<le> now demo_penalties" by code_simp+
  from penalties_stay_consistent[OF this, of 6 1 True None]
  show ?thesis by (intro conjI) (blast, code_simp)
qed

section \<open>Who is blocked\<close>

lemma later_penalty_order:
  "\<not> later_penalty p p" "later_penalty p q \<Longrightarrow> \<not> later_penalty q p"
  "\<not> later_penalty r q \<Longrightarrow> \<not> later_penalty q p \<Longrightarrow> \<not> later_penalty r p"
  unfolding later_penalty_def by auto

lemma first_penalty_max:
  "ps \<noteq> [] \<Longrightarrow> \<exists>p. first_penalty ps = Some p \<and> p \<in> set ps \<and> (\<forall>q \<in> set ps. \<not> later_penalty q p)"
proof (induction ps)
  case (Cons p ps)
  show ?case
  proof (cases "ps = []")
    case True
    then show ?thesis by (simp add: later_penalty_order(1))
  next
    case False
    then obtain q where q: "first_penalty ps = Some q" "q \<in> set ps" "\<forall>r \<in> set ps. \<not> later_penalty r q"
      using Cons.IH by blast
    show ?thesis
    proof (cases "later_penalty q p")
      case True
      then show ?thesis using q later_penalty_order(2)[OF True] by simp
    next
      case False
      then show ?thesis using q later_penalty_order(1)[of p] later_penalty_order(3)[OF _ False] by simp
    qed
  qed
qed simp

text \<open>The level reached is the highest among the player's penalties of this very second, or the ban.\<close>

lemma latest_after_dodge:
  assumes ok: "penalties_ok s" and past: "\<forall>p \<in> set (penalties s). pen_created p \<le> whole_seconds (now s)"
    and level: "pen_level (new_penalty room uid s e) \<noteq> 14"
  shows "latest_penalty uid (after_dodge room uid why u e s) = Some (new_penalty room uid s e)"
proof -
  let ?n = "new_penalty room uid s e"
  let ?new = "filter (\<lambda>p. pen_user p = uid) (put_row pen_room ?n (penalties s))"
  let ?old = "filter (\<lambda>p. pen_user p = uid) (penalties s)"
  have mem: "?n \<in> set ?new" "set ?new \<subseteq> insert ?n (set ?old)"
    using set_put_row[of pen_room ?n "penalties s"] put_row_mem[of ?n pen_room "penalties s"] by auto
  then have "?new \<noteq> []" by (metis list.set(1) empty_iff)
  then obtain p where p: "first_penalty ?new = Some p" "p \<in> set ?new" "\<forall>q \<in> set ?new. \<not> later_penalty q p"
    using first_penalty_max by blast
  have "p = ?n"
  proof (rule ccontr)
    assume ne: "p \<noteq> ?n"
    then have old: "p \<in> set ?old" using p(2) mem(2) by blast
    then have "?old \<noteq> []" by (metis list.set(1) empty_iff)
    then obtain q where q: "first_penalty ?old = Some q" "q \<in> set ?old" "\<forall>r \<in> set ?old. \<not> later_penalty r q"
      using first_penalty_max by blast
    have now: "pen_created p \<le> whole_seconds (now s)" "pen_created q \<le> whole_seconds (now s)"
      using past old q(2) by auto
    have pn: "\<not> later_penalty ?n p" using p(3) mem(1) by blast
    then have c: "pen_created p = whole_seconds (now s)" "pen_level ?n \<le> pen_level p"
      using now(1) by (auto simp: later_penalty_def)
    have "\<not> later_penalty p q" using q(3) old by blast
    then have cq: "pen_created q = whole_seconds (now s)" "pen_level p \<le> pen_level q"
      using c(1) now(2) by (auto simp: later_penalty_def)
    have okq: "penalty_ok q" using ok q(2) by (simp add: penalties_ok_def)
    have "pen_level ?n = min 14 (pen_level q + 1)"
      using q(1) okq cq(1)
      by (auto simp: latest_penalty_def next_level_def penalty_ok_def minutes_def seconds_def split: option.splits)
    then show False using c(2) cq(2) level by simp
  qed
  then show ?thesis using p(1) by (simp add: latest_penalty_def)
qed

end
