(* ===== verification/Matchmaking.thy ===== *)
theory Matchmaking
  imports Queue Penalties "HOL-Library.Sublist"
begin

text \<open>
  Matchmaking against its contract: the penalty gate, the search radius, compatibility, balanced
  teams and the pairing loop of \<open>somsai_service.py\<close>.
\<close>

section \<open>Penalised players do not queue\<close>

lemma find_user_row: "find_user uid s = get_row u_id uid (users s)"
  by (simp add: find_user_def get_row_def)

lemma status_after_dodge:
  assumes u: "find_user uid s = Some u" and ok: "penalties_ok s"
    and past: "\<forall>p \<in> set (penalties s). pen_created p \<le> whole_seconds (now s)" and time: "0 \<le> now s"
    and e: "penalty_end (whole_seconds (now s)) (next_level (whole_seconds (now s)) (latest_penalty uid s)) = Inr e"
  shows "\<exists>d. dodge_status uid (after_dodge room uid why u e s) = (Inr d, after_dodge room uid why u e s)
    \<and> queue_blocked d (now s)"
proof (cases "pen_level (new_penalty room uid s e) = 14")
  case True
  let ?t = "after_dodge room uid why u e s"
  have "u_id u = uid" using u by (auto simp: find_user_def dest: find_Some_in)
  then have "find_user uid ?t = Some (u\<lparr>u_active := False\<rparr>)"
    using True unfolding find_user_row by (simp add: after_dodge_def Let_def put_user_def)
  then show ?thesis by (simp add: dodge_status_def run_simps Let_def queue_blocked_def)
next
  case False
  let ?t = "after_dodge room uid why u e s" and ?n = "new_penalty room uid s e"
  let ?l = "next_level (whole_seconds (now s)) (latest_penalty uid s)"
  have "find_user uid ?t = Some u" using u False by (simp add: find_user_def after_dodge_def Let_def)
  moreover have "latest_penalty uid ?t = Some ?n" by (rule latest_after_dodge[OF ok past False])
  ultimately have st: "dodge_status uid ?t = (Inr ((status_for ?n)\<lparr>ds_banned := \<not> u_active u\<rparr>), ?t)"
    by (simp add: dodge_status_def run_simps Let_def)
  have l: "1 \<le> ?l" "?l \<le> 13" using next_level_range[of "whole_seconds (now s)" "latest_penalty uid s"] False by auto
  have "now s < level_end (whole_seconds (now s)) ?l"
  proof -
    have "now s < level_end (whole_seconds (now s)) 1"
      using whole_seconds_bounds(3)[of "now s"] by (simp add: level_end_def PENALTY_MINUTES_def minutes_def seconds_def)
    also have "\<dots> \<le> level_end (whole_seconds (now s)) ?l"
      using l level_end_mono[OF whole_seconds_bounds(1)[OF time], of 1 ?l] by (cases "?l = 1") auto
    finally show ?thesis .
  qed
  then show ?thesis
    using st e penalty_end_level[OF l] by (auto simp: queue_blocked_def status_for_def)
qed

text \<open>C34: a penalty takes effect at once: a player whose dodge has just been recorded cannot join the queue,
  in any format and mode, however the earlier penalties lie, level 14 included.\<close>

theorem dodger_cannot_queue:
  assumes "penalties_ok s" and "\<forall>p \<in> set (penalties s). pen_created p \<le> whole_seconds (now s)" and "0 \<le> now s"
    and "get_row pen_room room (penalties s) = None" and "register_dodge room uid lenient why s = (Inr d, t)"
  shows "fst (join_queue uid fmt ruleset variant t) = Inl (Http 429 ''SOMSAI matchmaking is blocked.'')"
  using assms(5)
proof (cases rule: register_dodge_result)
  case (recorded u e)
  obtain st where st: "dodge_status uid t = (Inr st, t)" "queue_blocked st (now t)"
    using status_after_dodge[OF recorded(2) assms(1,2,3) recorded(3), of room why] unfolding recorded(5) by auto
  then show ?thesis by (simp add: join_queue_def bnd_def run_simps)
qed (use assms(4) in simp_all)

theorem dodger_cannot_queue_witness:
  "fst (join_queue 1 ''1v1'' 0 0 (snd (register_dodge 6 1 True None demo_penalties)))
     = Inl (Http 429 ''SOMSAI matchmaking is blocked.'')"
proof -
  have "penalties_ok demo_penalties" "0 \<le> now demo_penalties"
    "list_all (\<lambda>p. pen_created p \<le> whole_seconds (now demo_penalties)) (penalties demo_penalties)"
    "get_row pen_room 6 (penalties demo_penalties) = None"
    by code_simp+
  moreover have "\<exists>d. fst (register_dodge 6 1 True None demo_penalties) = Inr d"
    by (rule exI[of _ "\<lparr>ds_user = 1, ds_level = 14, ds_expires = None, ds_banned = True\<rparr>"]) code_simp
  then obtain d t where "register_dodge 6 1 True None demo_penalties = (Inr d, t)" by (metis prod.collapse)
  ultimately show ?thesis
    using dodger_cannot_queue[of demo_penalties 6 1 True None d t "''1v1''" 0 0] by (simp add: list_all_iff)
qed

section \<open>Compatibility\<close>

lemma search_radius_eq:
  "search_radius w = (if w \<le> 300 then 150 else if 600 \<le> w then 500 else 150 + (w - 300) / 300 * 350)"
  by (auto simp: search_radius_def SEARCH_RADIUS_HOLD_SECONDS_def SEARCH_RADIUS_BASE_def SEARCH_RADIUS_RAMP_SECONDS_def
      SEARCH_RADIUS_CAP_def Let_def min_def max_def field_simps)

lemma search_radius_mono: "w \<le> v \<Longrightarrow> search_radius w \<le> search_radius v"
  by (auto simp: search_radius_eq field_simps)

lemma search_radius_bounds: "150 \<le> search_radius w \<and> search_radius w \<le> 500"
  by (auto simp: search_radius_eq field_simps)

lemma compatible_iff:
  "queue_entries_compatible l r t \<longleftrightarrow>
     \<bar>q_rating l - q_rating r\<bar> \<le> min (search_radius (total_seconds (t - q_joined l))) (search_radius (total_seconds (t - q_joined r)))
     \<or> (2900 \<le> min (q_rating l) (q_rating r) \<and>
        (if q_rating l \<ge> q_rating r then 3500 \<le> q_rating l \<and> 600 \<le> total_seconds (t - q_joined l)
         else 3500 \<le> q_rating r \<and> 600 \<le> total_seconds (t - q_joined r)))"
  by (auto simp: queue_entries_compatible_def Let_def EXTREME_ARCHSOM_RATING_def ELITE_FALLBACK_SECONDS_def
      SEARCH_RADIUS_HOLD_SECONDS_def SEARCH_RADIUS_RAMP_SECONDS_def DIAMOND_V_MIN_def)

lemma compatible_sym: "queue_entries_compatible l r t = queue_entries_compatible r l t"
proof (cases "q_rating l = q_rating r")
  case True
  have "0 \<le> min (search_radius a) (search_radius b)" for a b using search_radius_bounds[of a] search_radius_bounds[of b] by simp
  then show ?thesis unfolding compatible_iff True by simp
next
  case False
  then show ?thesis
    unfolding compatible_iff by (auto simp: abs_minus_commute min.commute)
qed

lemma total_seconds_mono: "a \<le> b \<Longrightarrow> total_seconds a \<le> total_seconds b"
  by (simp add: total_seconds_def)

lemma compatible_later:
  assumes "queue_entries_compatible l r t" "t \<le> t'"
  shows "queue_entries_compatible l r t'"
proof -
  have w: "total_seconds (t - q_joined q) \<le> total_seconds (t' - q_joined q)" for q
    using assms(2) by (intro total_seconds_mono) simp
  have "min (search_radius (total_seconds (t - q_joined l))) (search_radius (total_seconds (t - q_joined r)))
      \<le> min (search_radius (total_seconds (t' - q_joined l))) (search_radius (total_seconds (t' - q_joined r)))"
    by (rule min.mono) (intro search_radius_mono w)+
  then show ?thesis using assms(1) w[of l] w[of r] unfolding compatible_iff by (auto split: if_splits)
qed

text \<open>C35: who may be matched with whom: the relation does not depend on the order of the two entries, is never
  lost by waiting, accepts every pair within 150 points and, below 2900 points or before ten minutes
  of waiting, no pair more than 500 apart.\<close>

theorem compatibility_policy:
  "queue_entries_compatible l r t = queue_entries_compatible r l t
   \<and> (t \<le> t' \<and> queue_entries_compatible l r t \<longrightarrow> queue_entries_compatible l r t')
   \<and> (\<bar>q_rating l - q_rating r\<bar> \<le> 150 \<longrightarrow> queue_entries_compatible l r t)
   \<and> (queue_entries_compatible l r t \<and> 500 < \<bar>q_rating l - q_rating r\<bar> \<longrightarrow>
        2900 \<le> q_rating l \<and> 2900 \<le> q_rating r \<and> 3500 \<le> max (q_rating l) (q_rating r)
        \<and> 600 \<le> max (total_seconds (t - q_joined l)) (total_seconds (t - q_joined r)))"
proof (intro conjI impI)
  show "queue_entries_compatible l r t = queue_entries_compatible r l t" by (rule compatible_sym)
  show "queue_entries_compatible l r t'" if "t \<le> t' \<and> queue_entries_compatible l r t" using that compatible_later by blast
  show "queue_entries_compatible l r t" if "\<bar>q_rating l - q_rating r\<bar> \<le> 150"
    using that search_radius_bounds[of "total_seconds (t - q_joined l)"] search_radius_bounds[of "total_seconds (t - q_joined r)"]
    unfolding compatible_iff by simp
  assume far: "queue_entries_compatible l r t \<and> 500 < \<bar>q_rating l - q_rating r\<bar>"
  have "\<not> \<bar>q_rating l - q_rating r\<bar> \<le> min (search_radius a) (search_radius b)" for a b
    using far search_radius_bounds[of a] by simp
  then have elite: "2900 \<le> min (q_rating l) (q_rating r)"
      "if q_rating l \<ge> q_rating r then 3500 \<le> q_rating l \<and> 600 \<le> total_seconds (t - q_joined l)
       else 3500 \<le> q_rating r \<and> 600 \<le> total_seconds (t - q_joined r)"
    using far unfolding compatible_iff by blast+
  then show "2900 \<le> q_rating l" "2900 \<le> q_rating r" "3500 \<le> max (q_rating l) (q_rating r)"
      "600 \<le> max (total_seconds (t - q_joined l)) (total_seconds (t - q_joined r))"
    by (auto split: if_splits)
qed

definition demo_entry :: "int \<Rightarrow> int list \<Rightarrow> real \<Rightarrow> queue_row" where
  "demo_entry k us r = \<lparr>q_id = k, q_reservation = [], q_captain = k, q_members = us, q_format = ''2v2'', q_ruleset = 0,
     q_variant = 0, q_rating = r, q_joined = 0, q_expires = 0\<rparr>"

text \<open>Two elite players 700 points apart: not after one second, but after ten minutes.\<close>

theorem compatibility_policy_witness:
  "\<not> queue_entries_compatible (demo_entry 1 [1] 3600) (demo_entry 2 [2] 2900) (seconds 1)
   \<and> queue_entries_compatible (demo_entry 2 [2] 2900) (demo_entry 1 [1] 3600) (seconds 700)"
proof -
  have "queue_entries_compatible (demo_entry 1 [1] 3600) (demo_entry 2 [2] 2900) (seconds 600)"
      "\<not> queue_entries_compatible (demo_entry 1 [1] 3600) (demo_entry 2 [2] 2900) (seconds 1)"
    by code_simp+
  then show ?thesis
    using compatibility_policy[of "demo_entry 1 [1] 3600" "demo_entry 2 [2] 2900" "seconds 600" "seconds 700"]
      compatibility_policy[of "demo_entry 1 [1] 3600" "demo_entry 2 [2] 2900" "seconds 700" "seconds 700"]
    by simp
qed

section \<open>Lineups\<close>

lemma combos_subseq: "set (combos n xs) = {ys. subseq ys xs \<and> length ys = n}"
proof (induction n xs rule: combos.induct)
  case (3 n x xs)
  show ?case
  proof (intro set_eqI iffI)
    fix ys assume "ys \<in> set (combos (Suc n) (x # xs))"
    then show "ys \<in> {ys. subseq ys (x # xs) \<and> length ys = Suc n}" using 3 by auto
  next
    fix ys assume "ys \<in> {ys. subseq ys (x # xs) \<and> length ys = Suc n}"
    then obtain y zs where ys: "ys = y # zs" "subseq (y # zs) (x # xs)" "length zs = n" by (cases ys) auto
    then show "ys \<in> set (combos (Suc n) (x # xs))" using 3 by (cases "y = x") auto
  qed
qed auto

lemma pairwise_ok_sorted_wrt: "pairwise_ok P xs = sorted_wrt P xs"
  by (induction xs) (auto simp: list_all_iff)

abbreviation lineup :: "nat \<Rightarrow> time \<Rightarrow> queue_row list \<Rightarrow> bool" where
  "lineup sz t es \<equiv> sorted_wrt (\<lambda>l r. queue_entries_compatible l r t) es \<and> balance_units es sz \<noteq> None"

text \<open>C36: the search for a lineup finds one whenever there is one: the result contains the oldest entry and
  others in queue order among the next 32, all pairwise compatible and splittable into two teams of
  the format's size; if there is none, no such choice of at most twice the team size exists.\<close>

theorem find_lineup_complete:
  "case find_lineup sz t anchor rest of
     Some sel \<Rightarrow> \<exists>ys. sel = anchor # ys \<and> subseq ys (take 32 rest) \<and> ys \<noteq> [] \<and> length sel \<le> 2 * sz \<and> lineup sz t sel
   | None \<Rightarrow> \<not> (\<exists>ys. subseq ys (take 32 rest) \<and> ys \<noteq> [] \<and> length ys < 2 * sz \<and> lineup sz t (anchor # ys))"
proof -
  let ?near = "filter (\<lambda>e. queue_entries_compatible anchor e t) (take 32 rest)"
  let ?cands = "concat (map (\<lambda>count. map ((#) anchor) (combos count ?near)) [1..<sz * 2])"
  have ok: "lineup_ok sz t es \<longleftrightarrow> lineup sz t es" for es
    by (simp add: lineup_ok_def pairwise_ok_sorted_wrt)
  have cands: "es \<in> set ?cands \<longleftrightarrow> (\<exists>ys. es = anchor # ys \<and> subseq ys ?near \<and> ys \<noteq> [] \<and> length ys < 2 * sz)" for es
    by (auto simp: combos_subseq Suc_le_eq)
  have run: "find_lineup sz t anchor rest = find (lineup_ok sz t) ?cands"
    by (simp add: find_lineup_def)
  show ?thesis
  proof (cases "find (lineup_ok sz t) ?cands")
    case None
    have "\<not> lineup sz t (anchor # ys)" if ys: "subseq ys (take 32 rest)" "ys \<noteq> []" "length ys < 2 * sz" for ys
    proof
      assume l: "lineup sz t (anchor # ys)"
      then have "filter (\<lambda>e. queue_entries_compatible anchor e t) ys = ys" by (simp add: filter_id_conv)
      then have "subseq ys ?near" using subseq_filter[OF ys(1)] by metis
      then have "anchor # ys \<in> set ?cands" using cands ys by blast
      moreover have "\<forall>es \<in> set ?cands. \<not> lineup_ok sz t es" using None unfolding find_None_iff by blast
      ultimately show False using l ok by blast
    qed
    then show ?thesis unfolding run None by auto
  next
    case (Some sel)
    then have "sel \<in> set ?cands" "lineup sz t sel" using find_Some_in ok by metis+
    then obtain ys where "sel = anchor # ys" "subseq ys ?near" "ys \<noteq> []" "length ys < 2 * sz" using cands by blast
    moreover have "subseq ?near (take 32 rest)" by (rule subseq_filter_left)
    ultimately show ?thesis unfolding run Some using \<open>lineup sz t sel\<close> by (auto intro: subseq_order.trans)
  qed
qed

section \<open>Balanced teams\<close>

definition bits :: "nat \<Rightarrow> nat set" where
  "bits msk = {i. odd (msk div 2 ^ i)}"

lemma units_in_nths: "units_in side msk es = nths es (if side then bits msk else - bits msk)"
proof -
  have "map snd (filter (\<lambda>(i, e). P i) (enumerate k es)) = nths es {i. P (i + k)}" for P k
  proof (induction es arbitrary: k P)
    case (Cons e es)
    show ?case using Cons[of P "Suc k"] by (simp add: nths_Cons)
  qed simp
  from this[of "\<lambda>i. odd (msk div 2 ^ i) = side" 0] show ?thesis
    unfolding units_in_def bits_def by (auto simp: Collect_neg_eq intro: arg_cong[of _ _ "nths es"])
qed

lemma nths_restrict: "nths es (I \<inter> {..<length es}) = nths es I"
  unfolding nths_def by (rule arg_cong[of _ _ "map fst"], rule filter_cong[OF refl]) (auto dest: set_zip_rightD)

lemma bits_surj: "\<exists>msk < 2 ^ n. bits msk \<inter> {..<n} = I \<inter> {..<n}"
proof (induction n arbitrary: I)
  case 0
  then show ?case by auto
next
  case (Suc n)
  obtain m where m: "m < 2 ^ n" "bits m \<inter> {..<n} = {i. Suc i \<in> I} \<inter> {..<n}" using Suc by blast
  let ?k = "2 * m + (if 0 \<in> I then 1 else 0)"
  have d: "?k div 2 ^ Suc i = m div 2 ^ i" for i
    by (simp add: div_mult2_eq)
  have "i \<in> bits ?k \<longleftrightarrow> i \<in> I" if "i < Suc n" for i
  proof (cases i)
    case 0
    then show ?thesis by (simp add: bits_def)
  next
    case (Suc j)
    then have "i \<in> bits ?k \<longleftrightarrow> j \<in> bits m" using d by (simp add: bits_def)
    also have "\<dots> \<longleftrightarrow> Suc j \<in> I" using m(2) that Suc by auto
    finally show ?thesis using Suc by simp
  qed
  then have "bits ?k \<inter> {..<Suc n} = I \<inter> {..<Suc n}" by auto
  moreover have "?k < 2 ^ Suc n" using m(1) by auto
  ultimately show ?case by blast
qed

definition split_gap :: "queue_row list \<Rightarrow> nat set \<Rightarrow> real" where
  "split_gap es I = \<bar>weighted_rating (nths es I) - weighted_rating (nths es (- I))\<bar>"

definition splits :: "nat \<Rightarrow> queue_row list \<Rightarrow> nat set \<Rightarrow> bool" where
  "splits sz es I \<longleftrightarrow> unit_size (nths es I) = sz \<and> unit_size (nths es (- I)) = sz"

lemma unit_size_split: "unit_size es = unit_size (nths es I) + unit_size (nths es (- I))"
proof (induction es arbitrary: I)
  case (Cons e es)
  have "- {i. Suc i \<in> I} = {i. Suc i \<in> - I}" by auto
  then show ?case using Cons[of "{i. Suc i \<in> I}"] by (simp add: nths_Cons unit_size_def)
qed (simp add: unit_size_def)

lemma split_delta_gap: "split_delta sz msk es = split_gap es (bits msk) / real sz"
  by (simp add: split_delta_def split_gap_def units_in_nths)

definition fair_mask :: "nat \<Rightarrow> queue_row list \<Rightarrow> nat \<Rightarrow> bool" where
  "fair_mask sz es m \<longleftrightarrow> odd m \<and> unit_size (nths es (bits m)) = sz"

definition best_of :: "nat \<Rightarrow> queue_row list \<Rightarrow> nat set \<Rightarrow> (real \<times> int list \<times> int list) option \<Rightarrow> bool" where
  "best_of sz es ms best =
     (case best of
        None \<Rightarrow> \<forall>m \<in> ms. \<not> fair_mask sz es m
      | Some (d, L, R) \<Rightarrow> \<exists>m \<in> ms. fair_mask sz es m \<and> d = split_delta sz m es
          \<and> L = unit_members (nths es (bits m)) \<and> R = unit_members (nths es (- bits m))
          \<and> (\<forall>m' \<in> ms. fair_mask sz es m' \<longrightarrow> d \<le> split_delta sz m' es))"

lemma best_of_try:
  assumes "best_of sz es ms best"
  shows "best_of sz es (insert m ms) (try_mask sz es m best)"
proof -
  have fair: "even m \<or> unit_size (units_in True m es) \<noteq> sz \<longleftrightarrow> \<not> fair_mask sz es m"
    by (auto simp: fair_mask_def units_in_nths)
  show ?thesis
    using assms unfolding best_of_def try_mask_def fair
    by (cases best) (auto simp: units_in_nths intro: order.trans less_imp_le)
qed

lemma best_of_fold: "best_of sz es (set ms) (fold (try_mask sz es) ms None)"
proof (induction ms rule: rev_induct)
  case (snoc m ms)
  then show ?case using best_of_try by simp
qed (simp add: best_of_def)

text \<open>Every split is, up to exchanging the teams, the split of one of the masks tried.\<close>

lemma mask_of_split:
  assumes "splits sz es J" "es \<noteq> []"
  shows "\<exists>m \<in> {1..<2 ^ length es}. fair_mask sz es m \<and> split_gap es (bits m) = split_gap es J"
proof -
  let ?K = "if 0 \<in> J then J else - J"
  obtain m where m: "m < 2 ^ length es" "bits m \<inter> {..<length es} = ?K \<inter> {..<length es}"
    using bits_surj by blast
  have same: "nths es (bits m) = nths es ?K" using m(2) nths_restrict by metis
  have "- bits m \<inter> {..<length es} = - ?K \<inter> {..<length es}" using m(2) by blast
  then have diff: "nths es (- bits m) = nths es (- ?K)" using nths_restrict by metis
  have "0 \<in> bits m \<inter> {..<length es}" unfolding m(2) using assms(2) by simp
  then have "0 \<in> bits m" by blast
  then have "odd m" by (simp add: bits_def)
  moreover have "unit_size (nths es (bits m)) = sz" using assms(1) unfolding same splits_def by simp
  moreover have "split_gap es (bits m) = split_gap es J"
    unfolding split_gap_def same diff by (simp add: abs_minus_commute)
  ultimately show ?thesis using m(1) unfolding fair_mask_def
    by (intro bexI[of _ m]) (simp_all add: odd_pos Suc_leI)
qed

text \<open>C37: the teams are fair: the returned teams are the members of two complementary groups of the
  entries, each of the format's size, and no other such division of the entries has a smaller
  difference of rating; nothing is returned only when there is no such division.\<close>

theorem balance_units_optimal:
  assumes "0 < sz"
  shows "case balance_units es sz of
           Some (L, R) \<Rightarrow> \<exists>I. L = unit_members (nths es I) \<and> R = unit_members (nths es (- I)) \<and> splits sz es I
             \<and> (\<forall>J. splits sz es J \<longrightarrow> split_gap es I \<le> split_gap es J)
         | None \<Rightarrow> \<not> (\<exists>J. splits sz es J)"
proof (cases "unit_size es = sz * 2")
  case False
  have "\<not> splits sz es J" for J using False unit_size_split[of es J] by (simp add: splits_def)
  then show ?thesis using False by (simp add: balance_units_def)
next
  case True
  then have "es \<noteq> []" using assms by (auto simp: unit_size_def)
  note mask = mask_of_split[OF _ this]
  have best: "best_of sz es {1..<2 ^ length es} (fold (try_mask sz es) [1..<2 ^ length es] None)"
    using best_of_fold[of sz es "[1..<2 ^ length es]"] by simp
  show ?thesis
  proof (cases "fold (try_mask sz es) [1..<2 ^ length es] None")
    case None
    have "\<not> splits sz es J" for J using best mask unfolding None best_of_def by fastforce
    then show ?thesis using True None by (simp add: balance_units_def)
  next
    case (Some b)
    obtain d L R where b: "b = (d, L, R)" by (cases b)
    obtain m where m: "fair_mask sz es m" "d = split_delta sz m es" "L = unit_members (nths es (bits m))"
        "R = unit_members (nths es (- bits m))"
        "\<And>m'. m' \<in> {1..<2 ^ length es} \<Longrightarrow> fair_mask sz es m' \<Longrightarrow> d \<le> split_delta sz m' es"
      using best unfolding Some b best_of_def by auto
    have "splits sz es (bits m)"
      using m(1) True unit_size_split[of es "bits m"] by (simp add: fair_mask_def splits_def)
    moreover have "split_gap es (bits m) \<le> split_gap es J" if "splits sz es J" for J
    proof -
      obtain m' where "m' \<in> {1..<2 ^ length es}" "fair_mask sz es m'" "split_gap es (bits m') = split_gap es J"
        using mask[OF \<open>splits sz es J\<close>] by blast
      then show ?thesis using m(2,5) assms by (fastforce simp: split_delta_gap divide_le_cancel)
    qed
    ultimately show ?thesis using True Some b m(3,4) by (auto simp: balance_units_def)
  qed
qed

text \<open>A pair and two single players: the single players face the pair.\<close>

theorem balance_units_optimal_witness:
  "balance_units [demo_entry 1 [1, 2] 2000, demo_entry 2 [3] 1800, demo_entry 3 [4] 2100] 2 = Some ([1, 2], [3, 4])
   \<and> (\<exists>I. unit_members (nths [demo_entry 1 [1, 2] 2000, demo_entry 2 [3] 1800, demo_entry 3 [4] 2100] I) = [1, 2]
         \<and> splits 2 [demo_entry 1 [1, 2] 2000, demo_entry 2 [3] 1800, demo_entry 3 [4] 2100] I)"
proof -
  have run: "balance_units [demo_entry 1 [1, 2] 2000, demo_entry 2 [3] 1800, demo_entry 3 [4] 2100] 2 = Some ([1, 2], [3, 4])"
    by code_simp
  have "(0 :: nat) < 2" by simp
  from balance_units_optimal[OF this, of "[demo_entry 1 [1, 2] 2000, demo_entry 2 [3] 1800, demo_entry 3 [4] 2100]"]
  show ?thesis unfolding run by force
qed

section \<open>The pairing loop\<close>

lemma find_lineup_head: "find_lineup sz t a rest = Some sel \<Longrightarrow> a \<in> set sel"
  unfolding find_lineup_def Let_def by (drule find_Some_in) auto

lemma first_invalid_in: "first_invalid es s = (Inr (Some e), s') \<Longrightarrow> e \<in> set es"
  by (induction es arbitrary: s) (auto simp: bnd_def ret_def split: prod.splits sum.splits if_splits)

lemma find_lineup_sub: "find_lineup sz t a rest = Some sel \<Longrightarrow> set sel \<subseteq> set (a # rest)"
  unfolding find_lineup_def Let_def
  by (drule find_Some_in) (auto simp: combos_subseq dest!: in_set_takeD dest: list_emb_set[where P = "(=)"])

lemma queue_round_shrinks:
  assumes "queue_round grp a rest s = (Inr es, s')"
  shows "length es \<le> length rest"
proof (cases "find_lineup (team_size (snd (snd grp))) (now s) a rest")
  case None
  then show ?thesis using assms by (simp add: queue_round_def run_simps)
next
  case (Some sel)
  have a: "a \<in> set sel" and sub: "set sel \<subseteq> set (a # rest)"
    using Some by (rule find_lineup_head, rule find_lineup_sub)
  show ?thesis
  proof (cases "\<exists>e t. first_invalid sel s = (Inr (Some e), t)")
    case True
    then obtain e t where bad: "first_invalid sel s = (Inr (Some e), t)" by blast
    then have "e \<in> set (a # rest)" using first_invalid_in sub by blast
    moreover have "es = remove1 e (a # rest)"
      using assms Some bad by (auto simp: queue_round_def run_simps bnd_def[of "first_invalid sel"] seq_def bnd_def[of "drop_entry e"]
            simp del: remove1.simps split: prod.splits sum.splits)
    ultimately show ?thesis using length_remove1[of e "a # rest"] by (simp del: remove1.simps)
  next
    case False
    then have "es = filter (\<lambda>q. q \<notin> set sel) (a # rest)"
      using assms Some by (auto simp: queue_round_def run_simps bnd_def[of "first_invalid sel"] seq_def bnd_def[of "match_lineup grp sel"]
            simp del: filter.simps split: prod.splits sum.splits option.splits)
    then show ?thesis using a by simp
  qed
qed

lemma pairing_loop_step:
  "pairing_loop n grp [] s = Some (n, Inr (), s)"
  "queue_round grp e rest s = (Inl x, t) \<Longrightarrow> pairing_loop n grp (e # rest) s = Some (Suc n, Inl x, t)"
  "queue_round grp e rest s = (Inr es, t) \<Longrightarrow> pairing_loop n grp (e # rest) s = pairing_loop (Suc n) grp es t"
  by (subst pairing_loop.simps, simp)+

lemma pairing_loop_runs:
  "length es \<le> fuel \<Longrightarrow>
     \<exists>r \<le> length es. pairing_loop n grp es s = Some (n + r, match_group fuel grp es s)"
proof (induction fuel arbitrary: n es s)
  case 0
  then show ?case by (simp add: pairing_loop_step ret_def)
next
  case (Suc fuel)
  show ?case
  proof (cases es)
    case Nil
    then show ?thesis by (simp add: pairing_loop_step ret_def)
  next
    case (Cons e rest)
    show ?thesis
    proof (cases "queue_round grp e rest s")
      case (Pair out t)
      show ?thesis
      proof (cases out)
        case (Inl x)
        then show ?thesis unfolding Cons using Pair
          by (auto simp: pairing_loop_step bnd_def intro: exI[of _ 1])
      next
        case (Inr left)
        have shorter: "length left \<le> length rest"
          using Pair unfolding Inr by (rule queue_round_shrinks)
        then have "length left \<le> fuel" using Suc.prems Cons by simp
        from Suc.IH[OF this, of "Suc n" t] obtain r
          where "r \<le> length left" "pairing_loop (Suc n) grp left t = Some (Suc n + r, match_group fuel grp left t)"
          by blast
        then show ?thesis unfolding Cons using Pair Inr shorter
          by (auto simp: pairing_loop_step bnd_def intro: exI[of _ "Suc r"])
      qed
    qed
  qed
qed

text \<open>C38: the pairing loop ends, from every state of the database and every list of entries: the
  \<open>while entries\<close> loop itself, written without fuel, returns after at most as many rounds as the group has
  entries, since every round takes an entry out, and what it returns and leaves in the database is what the
  model on fuel gives for any fuel from the number of entries on, so that the model never runs dry.\<close>

theorem pairing_loop_ends:
  "\<exists>rounds. rounds \<le> length es
     \<and> pairing_loop 0 grp es s = Some (rounds, match_group (length es + k) grp es s)"
  using pairing_loop_runs[of es "length es + k" 0 grp s] by auto

end
