(* ===== verification/GameModes.thy ===== *)
theory GameModes
  imports ModTable Mods
begin

text \<open>
  The enumerations of \<open>models/score.py\<close>: game modes with their conversions, ranks, and hit results.
  \<open>GameMode.parse\<close> looks a name up with \<open>cls[v]\<close>, which raises \<open>KeyError\<close>; the handler catches
  \<open>ValueError\<close> only.  \<open>DOWNLOAD_URL\<close> is never set, so a check result carries no URL.
\<close>

section \<open>Game modes\<close>

datatype game_mode =
  OSU | TAIKO | FRUITS | MANIA | OSURX | OSUAP | TAIKORX | FRUITSRX
  | SENTAKKI | TAU | RUSH | HISHIGATA | SOYOKAZE

fun mode_int :: "game_mode \<Rightarrow> int" where
  "mode_int OSU = 0" | "mode_int TAIKO = 1" | "mode_int FRUITS = 2" | "mode_int MANIA = 3"
| "mode_int OSURX = 0" | "mode_int OSUAP = 0" | "mode_int TAIKORX = 1" | "mode_int FRUITSRX = 2"
| "mode_int SENTAKKI = 10" | "mode_int TAU = 11" | "mode_int RUSH = 12" | "mode_int HISHIGATA = 13"
| "mode_int SOYOKAZE = 14"

definition from_int :: "int \<Rightarrow> error + game_mode" where
  "from_int v =
     (case map_of [(0, OSU), (1, TAIKO), (2, FRUITS), (3, MANIA), (10, SENTAKKI), (11, TAU), (12, RUSH),
                   (13, HISHIGATA), (14, SOYOKAZE)] v of
        Some g \<Rightarrow> Inr g | None \<Rightarrow> Inl KeyErr)"

definition from_int_extra :: "int \<Rightarrow> error + game_mode" where
  "from_int_extra v =
     (case map_of [(4, OSURX), (5, OSUAP), (6, TAIKORX), (7, FRUITSRX)] v of
        Some g \<Rightarrow> Inr g | None \<Rightarrow> from_int v)"

text \<open>The names of the members, as \<open>cls[v]\<close> finds them.\<close>

definition mode_names :: "(string \<times> game_mode) list" where
  "mode_names =
     [(''OSU'', OSU), (''TAIKO'', TAIKO), (''FRUITS'', FRUITS), (''MANIA'', MANIA), (''OSURX'', OSURX),
      (''OSUAP'', OSUAP), (''TAIKORX'', TAIKORX), (''FRUITSRX'', FRUITSRX), (''SENTAKKI'', SENTAKKI),
      (''TAU'', TAU), (''RUSH'', RUSH), (''HISHIGATA'', HISHIGATA), (''SOYOKAZE'', SOYOKAZE)]"

fun mode_value :: "game_mode \<Rightarrow> string" where
  "mode_value OSU = ''osu''" | "mode_value TAIKO = ''taiko''" | "mode_value FRUITS = ''fruits''"
| "mode_value MANIA = ''mania''" | "mode_value OSURX = ''osurx''" | "mode_value OSUAP = ''osuap''"
| "mode_value TAIKORX = ''taikorx''" | "mode_value FRUITSRX = ''fruitsrx''" | "mode_value SENTAKKI = ''Sentakki''"
| "mode_value TAU = ''tau''" | "mode_value RUSH = ''rush''" | "mode_value HISHIGATA = ''hishigata''"
| "mode_value SOYOKAZE = ''soyokaze''"

fun readable :: "game_mode \<Rightarrow> string" where
  "readable OSU = ''osu!''" | "readable TAIKO = ''osu!taiko''" | "readable FRUITS = ''osu!catch''"
| "readable MANIA = ''osu!mania''" | "readable OSURX = ''osu!relax''" | "readable OSUAP = ''osu!autopilot''"
| "readable TAIKORX = ''taiko relax''" | "readable FRUITSRX = ''catch relax''" | "readable SENTAKKI = ''sentakki''"
| "readable TAU = ''tau''" | "readable RUSH = ''Rush!''" | "readable HISHIGATA = ''hishigata''"
| "readable SOYOKAZE = ''soyokaze!''"

definition is_official :: "game_mode \<Rightarrow> bool" where
  "is_official g \<longleftrightarrow> g \<in> {OSU, TAIKO, FRUITS, MANIA, OSURX, OSUAP, TAIKORX, FRUITSRX}"

definition is_custom_ruleset :: "game_mode \<Rightarrow> bool" where
  "is_custom_ruleset g \<longleftrightarrow> \<not> is_official g"

definition to_base_ruleset :: "game_mode \<Rightarrow> game_mode" where
  "to_base_ruleset g =
     (case map_of [(OSURX, OSU), (OSUAP, OSU), (TAIKORX, TAIKO), (FRUITSRX, FRUITS)] g of
        Some b \<Rightarrow> b | None \<Rightarrow> g)"

text \<open>The argument is the list of acronyms, which the code extracts from either form of the mods.\<close>

definition to_special_mode :: "game_config \<Rightarrow> game_mode \<Rightarrow> string list \<Rightarrow> game_mode" where
  "to_special_mode cfg g acronyms =
     (if soms_osu_assist_modes cfg then
        (if g \<noteq> OSU then g
         else if ''AP'' \<in> set acronyms then OSUAP
         else if ''RX'' \<in> set acronyms then OSURX
         else g)
      else if g \<notin> {OSU, TAIKO, FRUITS} then g
      else if \<not> enable_rx cfg \<and> \<not> enable_ap cfg then g
      else if g = OSU \<and> ''AP'' \<in> set acronyms \<and> enable_ap cfg then OSUAP
      else if ''RX'' \<in> set acronyms \<and> enable_rx cfg then
        (case g of OSU \<Rightarrow> OSURX | TAIKO \<Rightarrow> TAIKORX | _ \<Rightarrow> FRUITSRX)
      else g)"

definition parse_mode :: "string \<Rightarrow> error + game_mode" where
  "parse_mode v =
     (case py_nat v of
        Some n \<Rightarrow> from_int_extra (int n)
      | None \<Rightarrow> (case map_of mode_names (py_upper v) of Some g \<Rightarrow> Inr g | None \<Rightarrow> Inl KeyErr))"

record version_entry =
  latest_version :: string
  known_versions :: "(string \<times> string) list"

record ruleset_check =
  is_current :: bool
  check_latest :: string
  check_current :: "string option"

definition check_ruleset_version ::
  "bool \<Rightarrow> (game_mode \<Rightarrow> version_entry option) \<Rightarrow> game_mode \<Rightarrow> string \<Rightarrow> ruleset_check" where
  "check_ruleset_version enabled hashes g hsh =
     (let fine = \<lparr>is_current = True, check_latest = [], check_current = None\<rparr> in
      if \<not> enabled \<or> is_official g then fine
      else case hashes g of
        None \<Rightarrow> fine
      | Some e \<Rightarrow>
          let cur = map_option fst (find (\<lambda>(v, h). h = hsh) (known_versions e)) in
          \<lparr>is_current = (cur = Some (latest_version e)), check_latest = latest_version e, check_current = cur\<rparr>)"

definition error_msg :: "ruleset_check \<Rightarrow> string option" where
  "error_msg r =
     (if is_current r then None
      else Some (''Ruleset is outdated. Latest version: '' @ check_latest r @ ''.''
        @ (case check_current r of None \<Rightarrow> [] | Some [] \<Rightarrow> [] | Some v \<Rightarrow> '' Current version: '' @ v @ ''.'')))"

section \<open>Ranks and hit results\<close>

datatype rank = Rank_X | Rank_XH | Rank_S | Rank_SH | Rank_A | Rank_B | Rank_C | Rank_D | Rank_F

definition in_statistics :: "rank \<Rightarrow> bool" where
  "in_statistics r \<longleftrightarrow> r \<in> {Rank_X, Rank_XH, Rank_S, Rank_SH, Rank_A, Rank_B, Rank_C, Rank_D}"

datatype hit_result =
  NONE | MISS | MEH | OK | GOOD | GREAT | PERFECT
  | SMALL_TICK_MISS | SMALL_TICK_HIT | LARGE_TICK_MISS | LARGE_TICK_HIT
  | SMALL_BONUS | LARGE_BONUS | IGNORE_MISS | IGNORE_HIT | COMBO_BREAK | SLIDER_TAIL_HIT | LEGACY_COMBO_INCREASE

definition hit_result_values :: "(string \<times> hit_result) list" where
  "hit_result_values =
     [(''none'', NONE), (''miss'', MISS), (''meh'', MEH), (''ok'', OK), (''good'', GOOD), (''great'', GREAT),
      (''perfect'', PERFECT), (''small_tick_miss'', SMALL_TICK_MISS), (''small_tick_hit'', SMALL_TICK_HIT),
      (''large_tick_miss'', LARGE_TICK_MISS), (''large_tick_hit'', LARGE_TICK_HIT), (''small_bonus'', SMALL_BONUS),
      (''large_bonus'', LARGE_BONUS), (''ignore_miss'', IGNORE_MISS), (''ignore_hit'', IGNORE_HIT),
      (''combo_break'', COMBO_BREAK), (''slider_tail_hit'', SLIDER_TAIL_HIT),
      (''legacy_combo_increase'', LEGACY_COMBO_INCREASE)]"

definition is_hit :: "hit_result \<Rightarrow> bool" where
  "is_hit h \<longleftrightarrow> h \<notin> {NONE, IGNORE_MISS, COMBO_BREAK, LARGE_TICK_MISS, SMALL_TICK_MISS, MISS}"

definition is_scorable :: "hit_result \<Rightarrow> bool" where
  "is_scorable h \<longleftrightarrow> h \<notin> {NONE, IGNORE_HIT, IGNORE_MISS}"

definition is_basic :: "hit_result \<Rightarrow> bool" where
  "is_basic h \<longleftrightarrow>
     (if h \<in> {LEGACY_COMBO_INCREASE, COMBO_BREAK} then False
      else
        let is_tick = h \<in> {LARGE_TICK_HIT, LARGE_TICK_MISS, SMALL_TICK_HIT, SMALL_TICK_MISS, SLIDER_TAIL_HIT};
            is_bonus = h \<in> {SMALL_BONUS, LARGE_BONUS}
        in is_scorable h \<and> \<not> is_tick \<and> \<not> is_bonus)"

section \<open>Conversions\<close>

lemma mode_int_roundtrip: "is_custom_ruleset g \<or> to_base_ruleset g = g \<Longrightarrow> from_int (mode_int g) = Inr g"
  by (cases g) (simp_all add: from_int_def to_base_ruleset_def is_custom_ruleset_def is_official_def)

lemma base_of_special: "to_base_ruleset (to_special_mode cfg g as) = to_base_ruleset g"
  by (cases g) (simp_all add: to_special_mode_def to_base_ruleset_def)

lemma mode_int_base: "mode_int (to_base_ruleset g) = mode_int g"
  by (cases g) (simp_all add: to_base_ruleset_def)

text \<open>A name that is no member raises instead of yielding \<open>None\<close>.\<close>

lemma parse_unknown_raises: "parse_mode ''standard'' = Inl KeyErr" "parse_mode ''99'' = Inl KeyErr"
  by code_simp+

lemma parse_known: "parse_mode ''osu'' = Inr OSU" "parse_mode ''Mania'' = Inr MANIA" "parse_mode ''5'' = Inr OSUAP"
  by code_simp+

end
