(* ===== verification/Multipliers.thy ===== *)
theory Multipliers
  imports GameModes
begin

text \<open>
  \<open>models/mods/multiplier/\<close>: the factor by which a mod list scales a score.  \<open>calculate\<close> of \<open>_base.py\<close>
  first takes the pairs declared with \<open>@combination\<close>, in the order of the class, then one method per
  remaining acronym.  The methods of a calculator class are a function from the method's name to its
  result (\<open>None\<close> where the class has no such method); \<open>self.me\<close> is the first mod whose acronym is the
  upper-cased name of the calling method.  The acronyms that reach \<open>calculate\<close> are those of \<open>API_MODS\<close>
  (\<open>validate_mods\<close>), none of which names another attribute of the class.  The set of remaining mods is
  visited in the order of the list; Python's set order only decides which of several exceptions is
  raised.  \<open>int(x * 10)\<close> of a text setting repeats the text, as Python does.
\<close>

record mod_context =
  ctx_mods :: "api_mod list"
  ctx_cs :: real
  ctx_ar :: real
  ctx_od :: real
  ctx_hp :: real
  client_version :: string
  ctx_date :: time
  ctx_ruleset :: int

section \<open>Reading settings\<close>

definition ctx_mod :: "mod_context \<Rightarrow> string \<Rightarrow> api_mod option" where
  "ctx_mod c a = find (\<lambda>m. acronym m = py_upper a) (ctx_mods c)"

definition wrapped :: "mod_context \<Rightarrow> api_mod \<Rightarrow> string \<Rightarrow> setting_value" where
  "wrapped c m item =
     (case map_of (settings m) item of
        Some v \<Rightarrow> v
      | None \<Rightarrow> get_default_setting (ctx_ruleset c) m item)"

definition is_uses_default :: "mod_context \<Rightarrow> api_mod \<Rightarrow> bool" where
  "is_uses_default c m =
     list_all (\<lambda>(name, v). py_eq v (get_default_setting (ctx_ruleset c) m name)) (settings m)"

definition me :: "mod_context \<Rightarrow> string \<Rightarrow> (api_mod \<Rightarrow> error + 'a) \<Rightarrow> error + 'a" where
  "me c caller f =
     (case ctx_mod c caller of
        None \<Rightarrow> Inl (ValueErr (''Mod '' @ caller @ '' not found in context''))
      | Some m \<Rightarrow> f m)"

definition truthy :: "setting_value \<Rightarrow> bool" where
  "truthy v = (case v of SBool b \<Rightarrow> b | SNum x \<Rightarrow> x \<noteq> 0 | SText s \<Rightarrow> s \<noteq> [] | SNull \<Rightarrow> False)"

text \<open>\<open>int(s)\<close> of a text of digits, with single underscores between digits and at most 4300 of them.\<close>

definition py_int_text :: "string \<Rightarrow> nat option" where
  "py_int_text s = (let ps = split_on (CHR ''_'') s in
     if [] \<in> set ps \<or> 4300 < length (concat ps) then None else py_nat (concat ps))"

definition int_times :: "setting_value \<Rightarrow> nat \<Rightarrow> error + int" where
  "int_times v k =
     (case v of
        SText s \<Rightarrow>
          (case py_int_text (concat (replicate k s)) of
             Some n \<Rightarrow> Inr (int n) | None \<Rightarrow> Inl (ValueErr ''invalid literal for int()''))
      | _ \<Rightarrow> andthen (number v) (\<lambda>x. Inr (py_trunc (x * of_nat k))))"

text \<open>\<open>float(v)\<close>; of texts only plain decimals are numbers here.\<close>

definition to_float :: "setting_value \<Rightarrow> error + real" where
  "to_float v =
     (case v of
        SText s \<Rightarrow>
          (case (let w = py_strip s in if starts_with w ''-'' then map_option uminus (py_float (tl w)) else py_float w) of
             Some x \<Rightarrow> Inr x | None \<Rightarrow> Inl (ValueErr ''could not convert string to float''))
      | _ \<Rightarrow> number v)"

definition or_default :: "setting_value \<Rightarrow> real \<Rightarrow> setting_value" where
  "or_default v d = (if v = SNull then SNum d else v)"

section \<open>The shared rate formula\<close>

definition rate_adjust_multiplier :: "setting_value \<Rightarrow> error + real" where
  "rate_adjust_multiplier speed =
     andthen (int_times speed 10) (\<lambda>i.
       let value = of_int i / 10 - 1 in
       andthen (number speed) (\<lambda>x. Inr (if x \<ge> 1 then 1 + value / 5 else 0.6 + value)))"

definition rate_method :: "mod_context \<Rightarrow> string \<Rightarrow> error + real" where
  "rate_method c name = me c name (\<lambda>m. rate_adjust_multiplier (wrapped c m ''speed_change''))"

definition default_bonus :: "mod_context \<Rightarrow> string \<Rightarrow> real \<Rightarrow> error + real" where
  "default_bonus c name x = me c name (\<lambda>m. Inr (if is_uses_default c m then x else 1))"

section \<open>osu!, first version\<close>

definition osu_v1_method :: "mod_context \<Rightarrow> string \<Rightarrow> (error + real) option" where
  "osu_v1_method c name =
     (if name \<in> {''ht'', ''dc'', ''dt'', ''nc''} then Some (rate_method c name)
      else if name \<in> {''hr'', ''hd''} then Some (default_bonus c name 1.06)
      else if name \<in> {''fl'', ''bl''} then Some (default_bonus c name 1.12)
      else map_option Inr (map_of
        [(''ez'', 0.5), (''nf'', 0.5), (''tp'', 0.1), (''da'', 0.5), (''cl'', 0.96), (''rx'', 0.1), (''ap'', 0.1),
         (''so'', 0.9), (''gr'', 0.5), (''df'', 0.5), (''ns'', 0.5), (''rp'', 0.5), (''bu'', 0.8)] name))"

section \<open>osu!, second version\<close>

definition blinds_multiplier :: real where "blinds_multiplier = 1.24"

definition easy_multiplier :: "mod_context \<Rightarrow> api_mod \<Rightarrow> error + real" where
  "easy_multiplier c easy =
     (let retries = wrapped c easy ''retries''; default_retries = get_default_setting 0 easy ''retries'' in
      if retries = SNull \<or> default_retries = SNull then Inr 0.8
      else andthen (to_float retries) (\<lambda>r. andthen (to_float default_retries) (\<lambda>d.
        Inr (max 0.4 (0.8 - max 0 (0.1 * (r - d)))))))"

text \<open>The two rate formulas on \<open>n = int(speed * 20)\<close> and \<open>n = int(speed * 10)\<close>.\<close>

definition half_time_at :: "int \<Rightarrow> real" where
  "half_time_at n = of_int n / 20 * 1.4 - 0.5"

definition double_time_at :: "int \<Rightarrow> real" where
  "double_time_at n =
     (let value = of_int n / 10;
          penalty = (if value \<noteq> 1.5 \<and> value \<noteq> 1 then 0.01 else 0)
      in (value - 1) * 0.46 + 1 - penalty)"

definition half_time_multiplier :: "setting_value \<Rightarrow> error + real" where
  "half_time_multiplier speed = andthen (int_times speed 20) (\<lambda>n. Inr (half_time_at n))"

definition double_time_multiplier :: "setting_value \<Rightarrow> error + real" where
  "double_time_multiplier speed = andthen (int_times speed 10) (\<lambda>n. Inr (double_time_at n))"

definition hidden_multiplier :: "mod_context \<Rightarrow> api_mod \<Rightarrow> bool \<Rightarrow> real" where
  "hidden_multiplier c hidden other_mods_provide_timing_info =
     1.04 - (if truthy (wrapped c hidden ''only_fade_approach_circles'') then 0.02 else 0)
          - (if other_mods_provide_timing_info then 0.02 else 0)"

definition flashlight_multiplier :: "mod_context \<Rightarrow> api_mod \<Rightarrow> error + real" where
  "flashlight_multiplier c fl =
     andthen (to_float (or_default (wrapped c fl ''size_multiplier'') 1)) (\<lambda>size_mult.
       let value = max 1.02 (min 1.2 (1.2 - 0.2 * (size_mult - 1))) in
       Inr (if truthy (wrapped c fl ''combo_based_size'') then value else 1 + (value - 1) / 5))"

definition difference_factor :: "real \<Rightarrow> real \<Rightarrow> real" where
  "difference_factor selected original = max 0.1 (1 - \<bar>selected - original\<bar> * 0.5)"

definition difficulty_adjust_multiplier :: "mod_context \<Rightarrow> api_mod \<Rightarrow> error + real" where
  "difficulty_adjust_multiplier c da =
     andthen (to_float (or_default (wrapped c da ''circle_size'') (ctx_cs c))) (\<lambda>cs.
     andthen (to_float (or_default (wrapped c da ''drain_rate'') (ctx_hp c))) (\<lambda>hp.
     andthen (to_float (or_default (wrapped c da ''overall_difficulty'') (ctx_od c))) (\<lambda>od.
     andthen (to_float (or_default (wrapped c da ''approach_rate'') (ctx_ar c))) (\<lambda>ar.
       Inr (max 0.1 (difference_factor cs (ctx_cs c) * difference_factor hp (ctx_hp c)
                     * difference_factor od (ctx_od c) * difference_factor ar (ctx_ar c)))))))"

definition ramp_at :: "real \<Rightarrow> real" where
  "ramp_at speed =
     (if speed < 1 then half_time_at (py_trunc (speed * 20)) else double_time_at (py_trunc (speed * 10)))"

definition time_ramp_multiplier :: "mod_context \<Rightarrow> api_mod \<Rightarrow> error + real" where
  "time_ramp_multiplier c m =
     andthen (to_float (or_default (wrapped c m ''initial_rate'') 1)) (\<lambda>initial_rate.
     andthen (to_float (or_default (wrapped c m ''final_rate'') 1)) (\<lambda>final_rate.
       Inr (0.8 * ramp_at (min initial_rate final_rate) + 0.2 * ramp_at (max initial_rate final_rate))))"

definition deflate_multiplier :: "mod_context \<Rightarrow> api_mod \<Rightarrow> error + real" where
  "deflate_multiplier c deflate =
     (let start_scale = wrapped c deflate ''start_scale'';
          default_start = get_default_setting 0 deflate ''start_scale'' in
      if start_scale = SNull \<or> default_start = SNull then Inr 1
      else andthen (to_float start_scale) (\<lambda>s. andthen (to_float default_start) (\<lambda>d.
        Inr (1 - max 0 (0.02 * (s - d))))))"

definition osu_v2_method :: "mod_context \<Rightarrow> string \<Rightarrow> (error + real) option" where
  "osu_v2_method c name =
     (if name = ''ez'' then Some (me c name (easy_multiplier c))
      else if name \<in> {''ht'', ''dc''} then Some (me c name (\<lambda>m. half_time_multiplier (wrapped c m ''speed_change'')))
      else if name \<in> {''dt'', ''nc''} then Some (me c name (\<lambda>m. double_time_multiplier (wrapped c m ''speed_change'')))
      else if name = ''hd'' then Some (me c name (\<lambda>m. Inr (hidden_multiplier c m False)))
      else if name = ''fl'' then Some (me c name (flashlight_multiplier c))
      else if name = ''da'' then Some (me c name (difficulty_adjust_multiplier c))
      else if name = ''cl'' then
        Some (me c name (\<lambda>m. Inr (if truthy (wrapped c m ''classic_note_lock'') then 0.985 else 0.96)))
      else if name \<in> {''wu'', ''wd''} then Some (me c name (time_ramp_multiplier c))
      else if name = ''mg'' then
        Some (me c name (\<lambda>m. andthen (number (wrapped c m ''attraction_strength'')) (\<lambda>x. Inr (0.7 - x * 0.6))))
      else map_option Inr (map_of
        [(''nf'', 0.5), (''hr'', 1.09), (''tc'', 1.02), (''bl'', blinds_multiplier), (''tp'', 0.01), (''rd'', 0.7),
         (''rx'', 0.1), (''ap'', 0.1), (''so'', 0.95), (''ad'', 0.7), (''as_'', 0.1), (''sy'', 0.99)] name))"

text \<open>The declared pairs, in the order of the class.\<close>

definition timed_hidden :: "mod_context \<Rightarrow> error + real" where
  "timed_hidden c = me c ''HD'' (\<lambda>m. Inr (hidden_multiplier c m True))"

definition osu_v2_combinations :: "((string \<times> string) \<times> (mod_context \<Rightarrow> error + real)) list" where
  "osu_v2_combinations =
     [((''HD'', ''BL''), \<lambda>c. Inr blinds_multiplier),
      ((''HD'', ''WG''), timed_hidden),
      ((''HD'', ''GR''), timed_hidden),
      ((''HD'', ''DF''), \<lambda>c. me c ''HD'' (\<lambda>hd. me c ''DF'' (\<lambda>df.
          andthen (deflate_multiplier c df) (\<lambda>x. Inr (hidden_multiplier c hd True * x))))),
      ((''HD'', ''RP''), timed_hidden),
      ((''HD'', ''DP''), timed_hidden),
      ((''TC'', ''BL''), \<lambda>c. Inr blinds_multiplier),
      ((''FL'', ''FR''), \<lambda>c. me c ''FL'' (\<lambda>fl.
          andthen (flashlight_multiplier c fl) (\<lambda>x. Inr (1 + (x - 1) / 2))))]"

section \<open>The other rulesets\<close>

definition taiko_method :: "game_config \<Rightarrow> mod_context \<Rightarrow> string \<Rightarrow> (error + real) option" where
  "taiko_method cfg c name =
     (if name \<in> {''ht'', ''dc'', ''dt'', ''nc''} then Some (rate_method c name)
      else if name \<in> {''hr'', ''hd''} then Some (default_bonus c name 1.06)
      else if name = ''fl'' then Some (default_bonus c name 1.12)
      else if name = ''cl'' then Some (Inr (if use_old_score_multiplier cfg then 0.96 else 1))
      else map_option Inr (map_of
        [(''ez'', 0.5), (''nf'', 0.5), (''sr'', 0.6), (''da'', 0.5), (''cs'', 0.9), (''rx'', 0.1), (''wu'', 0.5),
         (''wd'', 0.5), (''as_'', 0.5)] name))"

definition catch_method :: "game_config \<Rightarrow> mod_context \<Rightarrow> string \<Rightarrow> (error + real) option" where
  "catch_method cfg c name =
     (if name \<in> {''ht'', ''dc'', ''dt'', ''nc''} then Some (rate_method c name)
      else if name \<in> {''hr'', ''fl''} then Some (default_bonus c name 1.12)
      else if name = ''hd'' then Some (default_bonus c name 1.06)
      else if name = ''cl'' then Some (Inr (if use_old_score_multiplier cfg then 0.96 else 1))
      else map_option Inr (map_of
        [(''ez'', 0.5), (''nf'', 0.5), (''da'', 0.5), (''rx'', 0.1), (''wu'', 0.5), (''wd'', 0.5), (''sy'', 0.8)] name))"

text \<open>\<open>datetime(2025, 7, 18)\<close> in microseconds since 1970, and \<open>int()\<close> of a version piece of digits.\<close>

definition key_mod_cutoff :: time where "key_mod_cutoff = seconds 1752796800"

definition key_mod_multiplier :: "string \<Rightarrow> time \<Rightarrow> real" where
  "key_mod_multiplier version date =
     (let by_date = (if date < key_mod_cutoff then 1 else 0.9) in
      if version = [] then by_date
      else case split_on (CHR ''.'') version of
        y # d # _ \<Rightarrow>
          (case (py_nat y, py_nat d) of
             (Some year, Some month_day) \<Rightarrow>
               if year < 2025 \<or> (year = 2025 \<and> month_day < 718) then 1 else 0.9
           | _ \<Rightarrow> by_date)
      | _ \<Rightarrow> by_date)"

definition mania_method :: "game_config \<Rightarrow> mod_context \<Rightarrow> string \<Rightarrow> (error + real) option" where
  "mania_method cfg c name =
     (if name \<in> {''ht'', ''dc''} then Some (rate_method c name)
      else if name = ''cl'' then Some (Inr (if use_old_score_multiplier cfg then 0.96 else 1))
      else if name \<in> {''k1'', ''k2'', ''k3'', ''k4'', ''k5'', ''k6'', ''k7'', ''k8'', ''k9'', ''k10''}
      then Some (Inr (key_mod_multiplier (client_version c) (ctx_date c)))
      else map_option Inr (map_of
        [(''ez'', 0.5), (''nf'', 0.5), (''nr'', 0.9), (''da'', 0.5), (''cs'', 0.9), (''ho'', 0.9), (''wu'', 0.5),
         (''wd'', 0.5), (''mu'', 0.5), (''as_'', 0.5)] name))"

section \<open>The calculation\<close>

record calculator =
  calc_method :: "mod_context \<Rightarrow> string \<Rightarrow> (error + real) option"
  combinations :: "((string \<times> string) \<times> (mod_context \<Rightarrow> error + real)) list"

definition mod_method_name :: "string \<Rightarrow> string" where
  "mod_method_name a =
     (if ends_with a ''K'' \<and> py_nat (butlast a) \<noteq> None then CHR ''k'' # butlast a else py_lower a)"

definition find_method :: "calculator \<Rightarrow> mod_context \<Rightarrow> string \<Rightarrow> (error + real) option" where
  "find_method k c a =
     (case calc_method k c (mod_method_name a) of
        Some r \<Rightarrow> Some r
      | None \<Rightarrow>
          (case calc_method k c (mod_method_name a @ ''_'') of
             Some r \<Rightarrow> Some r | None \<Rightarrow> calc_method k c a))"

fun combine ::
  "mod_context \<Rightarrow> ((string \<times> string) \<times> (mod_context \<Rightarrow> error + real)) list \<Rightarrow> string list \<Rightarrow> real
   \<Rightarrow> error + (string list \<times> real)" where
  "combine c [] remaining acc = Inr (remaining, acc)"
| "combine c (((a, b), f) # ps) remaining acc =
     (if a \<in> set remaining \<and> b \<in> set remaining
      then andthen (f c) (\<lambda>x. combine c ps (filter (\<lambda>m. m \<noteq> a \<and> m \<noteq> b) remaining) (acc * x))
      else combine c ps remaining acc)"

fun multiply_all :: "calculator \<Rightarrow> mod_context \<Rightarrow> string list \<Rightarrow> real \<Rightarrow> error + real" where
  "multiply_all k c [] acc = Inr acc"
| "multiply_all k c (a # as) acc =
     (case find_method k c a of
        None \<Rightarrow> multiply_all k c as acc
      | Some r \<Rightarrow> andthen r (\<lambda>x. multiply_all k c as (acc * x)))"

definition calculate :: "calculator \<Rightarrow> mod_context \<Rightarrow> error + real" where
  "calculate k c =
     andthen (if length (ctx_mods c) > 1
              then combine c (combinations k) (remdups (map acronym (ctx_mods c))) 1
              else Inr (remdups (map acronym (ctx_mods c)), 1))
       (\<lambda>(remaining, acc). multiply_all k c remaining acc)"

definition mod_multiplier_calculator :: "game_config \<Rightarrow> game_mode \<Rightarrow> error + calculator" where
  "mod_multiplier_calculator cfg g =
     (case to_base_ruleset g of
        OSU \<Rightarrow> Inr (if use_old_score_multiplier cfg
                    then \<lparr>calc_method = osu_v1_method, combinations = []\<rparr>
                    else \<lparr>calc_method = osu_v2_method, combinations = osu_v2_combinations\<rparr>)
      | TAIKO \<Rightarrow> Inr \<lparr>calc_method = taiko_method cfg, combinations = []\<rparr>
      | FRUITS \<Rightarrow> Inr \<lparr>calc_method = catch_method cfg, combinations = []\<rparr>
      | MANIA \<Rightarrow> Inr \<lparr>calc_method = mania_method cfg, combinations = []\<rparr>
      | _ \<Rightarrow> Inl (RuntimeErr ''NotImplementedError''))"

end
