(* ===== verification/ModRules.thy ===== *)
theory ModRules
  imports Mods
begin

text \<open>
  What the rules on mods guarantee: the mods of an accepted submission are pairwise compatible, the
  free mods offered for a playlist item are exactly those that can be added, and no combination of
  settings or switches lets a forbidden mod earn performance points.
\<close>

section \<open>Accepted submissions\<close>

definition mod_info_of :: "int \<Rightarrow> api_mod \<Rightarrow> mod_info option" where
  "mod_info_of r m = (case API_MODS r of None \<Rightarrow> None | Some t \<Rightarrow> map_of t (acronym m))"

definition rejects :: "int \<Rightarrow> api_mod \<Rightarrow> api_mod \<Rightarrow> bool" where
  "rejects r m n \<longleftrightarrow> (\<exists>i. mod_info_of r m = Some i \<and> acronym n \<in> set (incompatible_mods i))"

lemma validate_from_iff:
  "validate_from (API_MODS r) bad ms = Inr () \<longleftrightarrow>
     (\<forall>m \<in> set ms. acronym m \<notin> set bad \<and> mod_info_of r m \<noteq> None) \<and> sorted_wrt (\<lambda>m n. \<not> rejects r m n) ms"
proof (induction ms arbitrary: bad)
  case (Cons m ms)
  show ?case
  proof (cases "mod_info_of r m")
    case None
    then show ?thesis by (auto simp: mod_info_of_def split: option.splits)
  next
    case (Some i)
    then have step: "validate_from (API_MODS r) bad (m # ms) = (if acronym m \<in> set bad
        then Inl (ValueErr ''Mod is incompatible with other mods'')
        else validate_from (API_MODS r) (bad @ incompatible_mods i) ms)"
      by (auto simp: mod_info_of_def split: option.splits)
    show ?thesis unfolding step using Cons[of "bad @ incompatible_mods i"] Some by (auto simp: rejects_def)
  qed
qed simp

lemma validate_iff:
  "validate_mods r ms = Inr () \<longleftrightarrow> (\<forall>m \<in> set ms. mod_info_of r m \<noteq> None) \<and> sorted_wrt (\<lambda>m n. \<not> rejects r m n) ms"
  unfolding validate_mods_def validate_from_iff by simp

lemma rejects_sym:
  assumes "API_MODS r = Some t" "symmetric_table t" "mod_info_of r n \<noteq> None" "rejects r m n"
  shows "rejects r n m"
proof -
  obtain i j where ij: "map_of t (acronym m) = Some i" "acronym n \<in> set (incompatible_mods i)" "map_of t (acronym n) = Some j"
    using assms by (auto simp: rejects_def mod_info_of_def)
  then have "(acronym m, i) \<in> set t" by (simp add: map_of_SomeD)
  then have "acronym m \<in> set (incompatible_mods j)"
    using assms(2) ij unfolding symmetric_table_def list_all_iff by fastforce
  then show ?thesis using assms(1) ij(3) by (simp add: rejects_def mod_info_of_def)
qed

lemma official_tables:
  assumes "r \<in> {0, 1, 2, 3}"
  shows "\<exists>t. API_MODS r = Some t \<and> symmetric_table t"
  using assms symmetric_osu symmetric_taiko symmetric_catch symmetric_mania by (auto simp: API_MODS_def)

text \<open>C8: in the four official rulesets a submission's mods are accepted exactly when all are known and no
  mod of the list is declared incompatible with another one in either direction; the order in which
  the client lists them does not matter.\<close>

theorem accepted_mods_compatible:
  assumes "r \<in> {0, 1, 2, 3}"
  shows "validate_mods r ms = Inr () \<longleftrightarrow>
    (\<forall>m \<in> set ms. mod_info_of r m \<noteq> None)
    \<and> (\<forall>i < length ms. \<forall>j < length ms. i \<noteq> j \<longrightarrow> \<not> rejects r (ms ! i) (ms ! j))"
proof -
  obtain t where t: "API_MODS r = Some t" "symmetric_table t" using official_tables[OF assms] by blast
  have "sorted_wrt (\<lambda>m n. \<not> rejects r m n) ms \<longleftrightarrow>
      (\<forall>i < length ms. \<forall>j < length ms. i \<noteq> j \<longrightarrow> \<not> rejects r (ms ! i) (ms ! j))"
    if known: "\<forall>m \<in> set ms. mod_info_of r m \<noteq> None"
  proof -
    have "rejects r (ms ! i) (ms ! j) \<longleftrightarrow> rejects r (ms ! j) (ms ! i)" if "i < length ms" "j < length ms" for i j
      using rejects_sym[OF t] known that nth_mem by metis
    note flip = this
    show ?thesis unfolding sorted_wrt_iff_nth_less
    proof (intro iffI allI impI)
      fix i j assume *: "\<forall>i j. i < j \<longrightarrow> j < length ms \<longrightarrow> \<not> rejects r (ms ! i) (ms ! j)"
        "i < length ms" "j < length ms" "i \<noteq> j"
      then consider "i < j" | "j < i" by linarith
      then show "\<not> rejects r (ms ! i) (ms ! j)" using * flip[of i j] by cases blast+
    qed simp
  qed
  then show ?thesis unfolding validate_iff by blast
qed

theorem accepted_mods_compatible_witness:
  "validate_mods 0 [plain ''HD'', plain ''DT'', plain ''HR''] = Inr ()
   \<and> \<not> rejects 0 (plain ''HD'') (plain ''HR'') \<and> \<not> rejects 0 (plain ''HR'') (plain ''DT'')"
proof -
  have "validate_mods 0 [plain ''HD'', plain ''DT'', plain ''HR''] = Inr ()" by code_simp
  then have "\<forall>i < 3. \<forall>j < 3. i \<noteq> j \<longrightarrow> \<not> rejects 0 ([plain ''HD'', plain ''DT'', plain ''HR''] ! i) ([plain ''HD'', plain ''DT'', plain ''HR''] ! j)"
      and ok: "validate_mods 0 [plain ''HD'', plain ''DT'', plain ''HR''] = Inr ()"
    using accepted_mods_compatible[of 0 "[plain ''HD'', plain ''DT'', plain ''HR'']"] by simp_all
  from this(1)[rule_format, of 0 2] this(1)[rule_format, of 2 1] show ?thesis using ok by simp
qed

text \<open>In a custom ruleset the table is not symmetric and the verdict depends on the order.\<close>

lemma sentakki_order_matters:
  "validate_mods 10 [plain ''SD'', plain ''AC''] = Inr () \<and> validate_mods 10 [plain ''AC'', plain ''SD''] \<noteq> Inr ()"
  by code_simp

section \<open>Free mods\<close>

lemma validate_snoc:
  "validate_mods r (ms @ [m]) = Inr () \<longleftrightarrow>
     validate_mods r ms = Inr () \<and> mod_info_of r m \<noteq> None \<and> (\<forall>n \<in> set ms. \<not> rejects r n m)"
  unfolding validate_iff by (auto simp: sorted_wrt_append)

lemma validate_cons:
  "validate_mods r (m # ms) = Inr () \<longleftrightarrow>
     validate_mods r ms = Inr () \<and> mod_info_of r m \<noteq> None \<and> (\<forall>n \<in> set ms. \<not> rejects r m n)"
  unfolding validate_iff by auto

lemma distinct_tables: "API_MODS r = Some t \<Longrightarrow> distinct (map fst t)"
  unfolding API_MODS_def OSU_MODS_def TAIKO_MODS_def CATCH_MODS_def MANIA_MODS_def SENTAKKI_MODS_def
    TAU_MODS_def RUSH_MODS_def HISHIGATA_MODS_def SOYOKAZE_MODS_def
  by (auto split: if_splits)

text \<open>The mods offered as free mods beside required ones are exactly the playable ones, not required
  already, that the validator accepts in front of and behind the required mods.\<close>

theorem available_mods_addable:
  assumes "validate_mods r required = Inr ()"
  shows "m \<in> set (get_available_mods r required) \<longleftrightarrow>
    settings m = [] \<and> acronym m \<notin> set (map acronym required) \<and> (\<exists>i. mod_info_of r m = Some i \<and> user_playable i)
    \<and> validate_mods r (m # required) = Inr () \<and> validate_mods r (required @ [m]) = Inr ()"
proof (cases "API_MODS r")
  case None
  then show ?thesis by (simp add: get_available_mods_def mod_info_of_def)
next
  case (Some t)
  have info: "mod_info_of r n = map_of t (acronym n)" for n using Some by (simp add: mod_info_of_def)
  have entry: "map_of t a = Some i \<longleftrightarrow> (a, i) \<in> set t" for a i
    using distinct_tables[OF Some] by simp
  have forbidden: "a \<in> set (concat (map (\<lambda>a. case map_of t a of None \<Rightarrow> [] | Some i \<Rightarrow> incompatible_mods i) (map acronym required)))
      \<longleftrightarrow> (\<exists>n \<in> set required. rejects r n (plain a))" for a
    unfolding rejects_def info by (force split: option.splits)
  have blocks: "list_ex (\<lambda>q. q \<in> set (incompatible_mods i)) (map acronym required) \<longleftrightarrow> (\<exists>n \<in> set required. rejects r (plain a) n)"
    if "(a, i) \<in> set t" for a i
    using that entry[of a i] unfolding rejects_def info by (auto simp: list_ex_iff)
  have picked: "m \<in> set (map (\<lambda>(a, i). plain a) (filter (\<lambda>(a, i). P a i) t)) \<longleftrightarrow> (\<exists>a i. (a, i) \<in> set t \<and> P a i \<and> m = plain a)" for P
    by force
  have m: "settings m = [] \<longleftrightarrow> m = plain (acronym m)" by (cases m) (simp add: plain_def)
  have "m \<in> set (get_available_mods r required) \<longleftrightarrow>
      (\<exists>a i. (a, i) \<in> set t \<and> m = plain a \<and> a \<notin> set (map acronym required)
        \<and> \<not> (\<exists>n \<in> set required. rejects r n (plain a)) \<and> \<not> (\<exists>n \<in> set required. rejects r (plain a) n) \<and> user_playable i)"
    unfolding get_available_mods_def Some option.case Let_def picked forbidden using blocks by blast
  also have "\<dots> \<longleftrightarrow> m = plain (acronym m) \<and> acronym m \<notin> set (map acronym required)
      \<and> (\<exists>i. map_of t (acronym m) = Some i \<and> user_playable i)
      \<and> \<not> (\<exists>n \<in> set required. rejects r n m) \<and> \<not> (\<exists>n \<in> set required. rejects r m n)"
    unfolding entry by (metis plain_simps(1))
  finally show ?thesis unfolding validate_snoc validate_cons info m using assms by auto
qed

theorem available_mods_addable_witness:
  "plain ''HR'' \<in> set (get_available_mods 0 [plain ''HD'']) \<and> validate_mods 0 [plain ''HD'', plain ''HR''] = Inr ()
   \<and> plain ''TC'' \<notin> set (get_available_mods 0 [plain ''HD''])"
proof -
  have req: "validate_mods 0 [plain ''HD''] = Inr ()" by code_simp
  have "validate_mods 0 [plain ''HD'', plain ''HR''] = Inr ()" "validate_mods 0 [plain ''HR'', plain ''HD''] = Inr ()"
      "\<not> validate_mods 0 [plain ''TC'', plain ''HD''] = Inr ()" "case mod_info_of 0 (plain ''HR'') of None \<Rightarrow> False | Some i \<Rightarrow> user_playable i"
    by code_simp+
  then show ?thesis
    using available_mods_addable[OF req, of "plain ''HR''"] available_mods_addable[OF req, of "plain ''TC''"]
    by (auto split: option.splits)
qed

section \<open>Performance points\<close>

definition speed_of :: "api_mod \<Rightarrow> setting_value option" where
  "speed_of m = map_of (settings m) ''speed_change''"

lemma default_rules:
  "map_of (case DEFAULT_RANKED_MODS r of None \<Rightarrow> [] | Some t \<Rightarrow> t) ''DA'' = None"
  "map_of (case DEFAULT_RANKED_MODS r of None \<Rightarrow> [] | Some t \<Rightarrow> t) ''AP'' = None"
  "a \<in> {''DT'', ''NC''} \<Longrightarrow> map_of (case DEFAULT_RANKED_MODS r of None \<Rightarrow> [] | Some t \<Rightarrow> t) a = Some rules \<Longrightarrow>
     map_of rules ''speed_change'' = Some (Between (101 / 100) 2) \<and> rules \<noteq> []"
  unfolding DEFAULT_RANKED_MODS_def RANKED_OSU_def RANKED_TAIKO_def RANKED_CATCH_def RANKED_MANIA_def
  by (auto split: if_splits)

lemma ranked_mod:
  assumes "mods_can_get_pp_vanilla cfg accepts r ms" "m \<in> set ms" "acronym m \<notin> {''RX'', ''AP''}"
  shows "check_settings accepts m (case DEFAULT_RANKED_MODS r of None \<Rightarrow> [] | Some t \<Rightarrow> t)"
  using assms unfolding mods_can_get_pp_vanilla_def mods_can_get_pp_under_def list_all_iff
  by (auto split: if_splits)

text \<open>C9: under the built-in rules Difficulty Adjust never earns performance points, whatever its settings and
  the server's switches; Relax and Autopilot never together, and Autopilot only in osu!; a numeric
  speed of Double Time or Nightcore must lie between 1.01 and 2.\<close>

theorem points_need_ranked_mods:
  assumes "\<forall>a b x. accepts (Between a b) (SNum x) \<longrightarrow> a \<le> x \<and> x \<le> b"
    and pp: "mods_can_get_pp_vanilla cfg accepts r ms" and m: "m \<in> set ms"
  shows "acronym m \<noteq> ''DA'' \<and> (acronym m = ''RX'' \<longrightarrow> ''AP'' \<notin> set (map acronym ms))
    \<and> (acronym m = ''AP'' \<longrightarrow> r = 0)
    \<and> (acronym m \<in> {''DT'', ''NC''} \<and> speed_of m = Some (SNum x) \<longrightarrow> 1.01 \<le> x \<and> x \<le> 2)"
proof (intro conjI impI)
  show "acronym m \<noteq> ''DA''"
    using ranked_mod[OF pp m] default_rules(1)[of r] by (auto simp: check_settings_def)
  show "''AP'' \<notin> set (map acronym ms)" if "acronym m = ''RX''"
    using pp m that unfolding mods_can_get_pp_vanilla_def mods_can_get_pp_under_def
    by (force split: if_splits)
  show "r = 0" if "acronym m = ''AP''"
    using pp m that default_rules(2)[of r]
    unfolding mods_can_get_pp_vanilla_def mods_can_get_pp_under_def list_all_iff
    by (fastforce simp: check_settings_def split: if_splits)
  assume dt: "acronym m \<in> {''DT'', ''NC''} \<and> speed_of m = Some (SNum x)"
  then have "acronym m \<notin> {''RX'', ''AP''}" by auto
  from ranked_mod[OF pp m this] obtain rules where
    rules: "map_of (case DEFAULT_RANKED_MODS r of None \<Rightarrow> [] | Some t \<Rightarrow> t) (acronym m) = Some rules"
      "rules = [] \<or> list_all (\<lambda>(name, v). case map_of rules name of None \<Rightarrow> False
         | Some rule \<Rightarrow> rule = Unchecked \<or> accepts rule v) (settings m)"
    by (auto simp: check_settings_def split: option.splits)
  have sp: "map_of rules ''speed_change'' = Some (Between (101 / 100) 2)" "rules \<noteq> []"
    using default_rules(3)[OF _ rules(1)] dt by blast+
  have "(''speed_change'', SNum x) \<in> set (settings m)" using dt by (simp add: speed_of_def map_of_SomeD)
  then have "accepts (Between (101 / 100) 2) (SNum x)" using rules(2) sp by (fastforce simp: list_all_iff)
  then show "1.01 \<le> x" "x \<le> 2" using assms(1) by force+
qed

definition demo_accepts :: "setting_rule \<Rightarrow> setting_value \<Rightarrow> bool" where
  "demo_accepts rule v =
     (case rule of Unchecked \<Rightarrow> True | Equal c \<Rightarrow> py_eq c v
      | Between a b \<Rightarrow> (case num_of v of None \<Rightarrow> False | Some x \<Rightarrow> a \<le> x \<and> x \<le> b))"

definition demo_config :: game_config where
  "demo_config = \<lparr>soms_osu_assist_modes = True, enable_rx = False, enable_ap = False, use_old_score_multiplier = False\<rparr>"

definition fast_dt :: api_mod where
  "fast_dt = \<lparr>acronym = ''DT'', settings = [(''speed_change'', SNum (7 / 4))]\<rparr>"

theorem points_need_ranked_mods_witness:
  "mods_can_get_pp_vanilla demo_config demo_accepts 0 [plain ''HD'', fast_dt, plain ''RX''] \<and> (7 / 4 :: real) \<le> 2
   \<and> \<not> mods_can_get_pp_vanilla demo_config demo_accepts 0 [plain ''HD'', plain ''DA'']"
proof -
  have law: "\<forall>a b x. demo_accepts (Between a b) (SNum x) \<longrightarrow> a \<le> x \<and> x \<le> b"
    by (simp add: demo_accepts_def num_of_def)
  have ok: "mods_can_get_pp_vanilla demo_config demo_accepts 0 [plain ''HD'', fast_dt, plain ''RX'']" by code_simp
  have "fast_dt \<in> set [plain ''HD'', fast_dt, plain ''RX'']" "acronym fast_dt = ''DT''" "speed_of fast_dt = Some (SNum (7 / 4))"
    by (simp_all add: fast_dt_def speed_of_def)
  then show ?thesis
    using ok points_need_ranked_mods[OF law ok, of fast_dt "7 / 4"]
      points_need_ranked_mods[OF law, of demo_config 0 "[plain ''HD'', plain ''DA'']" "plain ''DA''"] by auto
qed

end
