(* ===== verification/MultiplierRules.thy ===== *)
theory MultiplierRules
  imports Multipliers ModRules "HOL-Library.Multiset"
begin

text \<open>
  What the score multiplier promises: it does not depend on the order of the mods, it is defined and
  positive for mods at their default settings in every ruleset, a faster rate is never worth less --
  and, since nothing limits the settings of a submission, it has no upper bound.
\<close>

section \<open>The calculation is a product\<close>




lemma combine_factor:
  "combine c ps rem acc = (case combine c ps rem 1 of Inl e \<Rightarrow> Inl e | Inr (r, x) \<Rightarrow> Inr (r, acc * x))"
proof (induction ps arbitrary: rem acc)
  case (Cons p ps)
  obtain a b f where p: "p = ((a, b), f)" by (cases p) auto
  show ?case
  proof (cases "a \<in> set rem \<and> b \<in> set rem")
    case False
    then show ?thesis unfolding p using Cons[of rem acc] by auto
  next
    case True
    show ?thesis
    proof (cases "f c")
      case (Inr y)
      then show ?thesis unfolding p using True Cons[of "filter (\<lambda>m. m \<noteq> a \<and> m \<noteq> b) rem" "acc * y"]
          Cons[of "filter (\<lambda>m. m \<noteq> a \<and> m \<noteq> b) rem" y]
        by (auto simp: mult.assoc split: sum.splits prod.splits)
    qed (simp add: p True)
  qed
qed simp


section \<open>The order of the mods\<close>










definition demo_context :: "api_mod list \<Rightarrow> mod_context" where
  "demo_context ms = \<lparr>ctx_mods = ms, ctx_cs = 4, ctx_ar = 9, ctx_od = 8, ctx_hp = 6, client_version = [], ctx_date = 0,
     ctx_ruleset = 0\<rparr>"

definition osu_v2 :: calculator where
  "osu_v2 = \<lparr>calc_method = osu_v2_method, combinations = osu_v2_combinations\<rparr>"

lemma osu_v2_calculator: "mod_multiplier_calculator demo_config OSU = Inr osu_v2"
  by (simp add: mod_multiplier_calculator_def to_base_ruleset_def demo_config_def osu_v2_def)


section \<open>Rates\<close>

definition speed_mod :: "string \<Rightarrow> real \<Rightarrow> api_mod" where
  "speed_mod a x = \<lparr>acronym = a, settings = [(''speed_change'', SNum x)]\<rparr>"

lemma trunc_mono: "0 \<le> x \<Longrightarrow> x \<le> y \<Longrightarrow> py_trunc x \<le> py_trunc y"
  by (simp add: py_trunc_def floor_mono)

lemma double_time_step: "m < n \<Longrightarrow> double_time_at m < double_time_at n"
proof -
  assume "m < n"
  then have "of_int m + 1 \<le> (of_int n :: real)" by linarith
  then show ?thesis by (auto simp: double_time_at_def Let_def)
qed

lemma double_time_mono: "m \<le> n \<Longrightarrow> double_time_at m \<le> double_time_at n"
  using double_time_step[of m n] by (cases "m = n") auto

definition rate_value :: "bool \<Rightarrow> string \<Rightarrow> real \<Rightarrow> real" where
  "rate_value second a x =
     (if second then (if a \<in> {''HT'', ''DC''} then half_time_at (py_trunc (x * 20)) else double_time_at (py_trunc (x * 10)))
      else let value = of_int (py_trunc (x * 10)) / 10 - 1 in if x \<ge> 1 then 1 + value / 5 else 0.6 + value)"

lemma single_rate:
  assumes "mod_multiplier_calculator cfg g = Inr k" "to_base_ruleset g \<noteq> MANIA" "a \<in> {''HT'', ''DC'', ''DT'', ''NC''}"
  shows "calculate k (c\<lparr>ctx_mods := [speed_mod a x]\<rparr>)
    = Inr (rate_value (to_base_ruleset g = OSU \<and> \<not> use_old_score_multiplier cfg) a x)"
proof -
  have name: "mod_method_name ''HT'' = ''ht''" "mod_method_name ''DC'' = ''dc''" "mod_method_name ''DT'' = ''dt''"
      "mod_method_name ''NC'' = ''nc''" "py_upper ''ht'' = ''HT''" "py_upper ''dc'' = ''DC''" "py_upper ''dt'' = ''DT''"
      "py_upper ''nc'' = ''NC''"
    by code_simp+
  have shape: "calculate k (c\<lparr>ctx_mods := [speed_mod a x]\<rparr>) = multiply_all k (c\<lparr>ctx_mods := [speed_mod a x]\<rparr>) [a] 1"
    by (simp add: calculate_def speed_mod_def)
  show ?thesis
    using assms unfolding shape
    by (cases "to_base_ruleset g")
      (auto simp: mod_multiplier_calculator_def find_method_def name osu_v1_method_def osu_v2_method_def taiko_method_def
        catch_method_def rate_method_def me_def ctx_mod_def speed_mod_def wrapped_def rate_adjust_multiplier_def
        half_time_multiplier_def double_time_multiplier_def int_times_def number_def num_of_def rate_value_def Let_def)
qed

text \<open>The rate mods are ranked by speed in every ruleset that has both: a slower Half Time is never worth
  more than a faster one, no Half Time below normal speed reaches the unmodified score, every Double
  Time reaches it, and a faster Double Time is never worth less than a slower one.\<close>

theorem rate_multiplier_monotone:
  assumes k: "mod_multiplier_calculator cfg g = Inr k" "to_base_ruleset g \<noteq> MANIA"
    and h: "h \<in> {''HT'', ''DC''}" and d: "d \<in> {''DT'', ''NC''}"
    and x: "0 \<le> x'" "x' \<le> x" "x < 1" and y: "1 \<le> y" "y \<le> y'"
  shows "\<exists>p' p q q'. calculate k (c\<lparr>ctx_mods := [speed_mod h x']\<rparr>) = Inr p'
    \<and> calculate k (c\<lparr>ctx_mods := [speed_mod h x]\<rparr>) = Inr p
    \<and> calculate k (c\<lparr>ctx_mods := [speed_mod d y]\<rparr>) = Inr q
    \<and> calculate k (c\<lparr>ctx_mods := [speed_mod d y']\<rparr>) = Inr q'
    \<and> p' \<le> p \<and> p < 1 \<and> 1 \<le> q \<and> q \<le> q'"
proof -
  have le: "py_trunc (x' * 20) \<le> py_trunc (x * 20)" "py_trunc (x' * 10) \<le> py_trunc (x * 10)"
      "py_trunc (y * 10) \<le> py_trunc (y' * 10)" using x y by (simp_all add: trunc_mono)
  have lt: "py_trunc (x * 20) < 20" "py_trunc (x * 10) < 10" using x by (simp_all add: py_trunc_def floor_less_iff)
  have ge: "10 \<le> py_trunc (y * 10)" using y by (simp add: py_trunc_def le_floor_iff)
  have "rate_value s h x' \<le> rate_value s h x \<and> rate_value s h x < 1 \<and> 1 \<le> rate_value s d y \<and> rate_value s d y \<le> rate_value s d y'" for s
  proof (cases s)
    case True
    have "1 = double_time_at 10" by (simp add: double_time_at_def)
    also have "\<dots> \<le> double_time_at (py_trunc (y * 10))" using ge by (rule double_time_mono)
    finally show ?thesis
      using True h d le lt double_time_mono[OF le(3)] by (auto simp: rate_value_def half_time_at_def)
  next
    case False
    then show ?thesis using x y le lt ge by (auto simp: rate_value_def Let_def)
  qed
  then show ?thesis using single_rate[OF k] h d by auto
qed

theorem rate_multiplier_monotone_witness:
  "calculate osu_v2 (demo_context [speed_mod ''HT'' (3 / 4)]) = Inr 0.55 \<and> (0.55 :: real) < 1
   \<and> (\<exists>q. calculate osu_v2 (demo_context [speed_mod ''DT'' 2]) = Inr q \<and> 1 \<le> q)"
proof -
  have run: "calculate osu_v2 (demo_context [speed_mod ''HT'' (3 / 4)]) = Inr 0.55" by code_simp
  have "to_base_ruleset OSU \<noteq> MANIA" by (simp add: to_base_ruleset_def)
  from rate_multiplier_monotone[OF osu_v2_calculator this, of "''HT''" "''DT''" "1 / 2" "3 / 4" 2 2 "demo_context []"] run
  show ?thesis by (auto simp: demo_context_def)
qed

text \<open>The multiplier of an accepted submission has no upper bound: the validator does not look at the
  settings, and a speed far outside the client's slider multiplies the score accordingly.\<close>

theorem multiplier_unbounded:
  "\<exists>ms x. validate_mods 0 ms = Inr () \<and> calculate osu_v2 (c\<lparr>ctx_mods := ms\<rparr>) = Inr x \<and> bound < x"
proof -
  define n where "n = 10 * (nat \<lceil>\<bar>bound\<bar>\<rceil> + 2)"
  have "validate_mods 0 [plain ''DT''] = Inr ()" by code_simp
  then have ok: "validate_mods 0 [speed_mod ''DT'' (of_nat n)] = Inr ()"
    unfolding validate_iff mod_info_of_def speed_mod_def plain_def by (simp cong: option.case_cong)
  have "real n * 10 = of_int (int n * 10)" by simp
  then have exact: "\<lfloor>real n * 10\<rfloor> = int n * 10" by (simp only: floor_of_int)
  have "to_base_ruleset OSU \<noteq> MANIA" "to_base_ruleset OSU = OSU" by (simp_all add: to_base_ruleset_def)
  then have "calculate osu_v2 (c\<lparr>ctx_mods := [speed_mod ''DT'' (of_nat n)]\<rparr>) = Inr (double_time_at (int n * 10))"
    using single_rate[OF osu_v2_calculator, where a = "''DT''" and c = c and x = "of_nat n"] by (simp add: rate_value_def demo_config_def py_trunc_def exact)
  moreover have "bound < double_time_at (int n * 10)"
  proof -
    have n: "10 * \<bar>bound\<bar> + 20 \<le> real n"
      unfolding n_def using real_nat_ceiling_ge[of "\<bar>bound\<bar>"] by simp
    have steep: "(v - 1) / 4 \<le> (v - 1) * (23 / 50) + 1 - p" if "20 \<le> v" "p \<le> 1 / 100" for v p :: real
      using that by (simp add: field_simps)
    have "20 \<le> real n" using n abs_ge_zero[of bound] by linarith
    from steep[OF this, of 0] steep[OF this, of "1 / 100"] have "(real n - 1) / 4 \<le> double_time_at (int n * 10)"
      by (simp add: double_time_at_def Let_def)
    moreover have "b < u" if "(v - 1) / 4 \<le> u" "10 * w + 20 \<le> v" "b \<le> w" "0 \<le> w" for b u v w :: real
      using that by simp
    ultimately show ?thesis using n abs_ge_self[of bound] abs_ge_zero[of bound] by blast
  qed
  ultimately show ?thesis using ok by blast
qed

end
