(* ===== verification/Scoring.thy ===== *)
theory Scoring
  imports GameModes MatchData
begin

text \<open>
  \<open>app/calculating/osu.py\<close>: accuracy and rank of a score, the classic display score, levels, the weights
  of a user's best plays, and the points of a score.  The external calculator is the parameter
  \<open>performance_backend\<close>.  Score columns that may be absent are options.
\<close>

section \<open>Scores\<close>

record score_data =
  sd_mode :: game_mode
  sd_mods :: "api_mod list"
  n300 :: "int option"
  n100 :: "int option"
  n50 :: "int option"
  nmiss :: "int option"
  ngeki :: "int option"
  nkatu :: "int option"
  nlarge_tick_miss :: "int option"
  nlarge_tick_hit :: "int option"
  nslider_tail_hit :: "int option"
  nsmall_tick_hit :: "int option"
  nsmall_tick_miss :: "int option"
  maximum_statistics :: "(string \<times> int) list"
  sd_total_score :: int
  sd_passed :: bool
  sd_accuracy :: real

type_synonym score_statistics = "(hit_result \<times> int) list"

definition MAX_SCORE :: real where "MAX_SCORE = 1000000"

section \<open>Accuracy\<close>

definition non_accuracy_hit_results :: "hit_result set" where
  "non_accuracy_hit_results =
     {NONE, IGNORE_HIT, IGNORE_MISS, SMALL_BONUS, LARGE_BONUS, COMBO_BREAK, LEGACY_COMBO_INCREASE}"

fun default_accuracy_base_score :: "hit_result \<Rightarrow> int" where
  "default_accuracy_base_score MEH = 50"
| "default_accuracy_base_score OK = 100"
| "default_accuracy_base_score GOOD = 200"
| "default_accuracy_base_score GREAT = 300"
| "default_accuracy_base_score PERFECT = 300"
| "default_accuracy_base_score SMALL_TICK_HIT = 10"
| "default_accuracy_base_score LARGE_TICK_HIT = 30"
| "default_accuracy_base_score SLIDER_TAIL_HIT = 150"
| "default_accuracy_base_score SMALL_BONUS = 10"
| "default_accuracy_base_score LARGE_BONUS = 100"
| "default_accuracy_base_score _ = 0"

definition accuracy_base_score_overrides :: "game_mode \<Rightarrow> score_statistics" where
  "accuracy_base_score_overrides g =
     (case g of
        TAIKO \<Rightarrow> [(OK, 150)]
      | FRUITS \<Rightarrow> [(GREAT, 300), (LARGE_TICK_HIT, 300), (SMALL_TICK_HIT, 300), (LARGE_BONUS, 200)]
      | MANIA \<Rightarrow> [(PERFECT, 305)]
      | _ \<Rightarrow> [])"

definition score_stat :: "int option \<Rightarrow> int" where
  "score_stat v = (case v of None \<Rightarrow> 0 | Some n \<Rightarrow> n)"

definition normalise_score_statistics :: "(string \<times> int) list \<Rightarrow> score_statistics" where
  "normalise_score_statistics sts =
     fold (\<lambda>(name, count) acc.
       case map_of hit_result_values name of
         None \<Rightarrow> acc
       | Some h \<Rightarrow> put_key h ((case map_of acc h of None \<Rightarrow> 0 | Some n \<Rightarrow> n) + count) acc) sts []"

definition score_statistics_of :: "score_data \<Rightarrow> score_statistics" where
  "score_statistics_of s =
     [(MISS, score_stat (nmiss s)), (MEH, score_stat (n50 s)), (OK, score_stat (n100 s)), (GOOD, score_stat (nkatu s)),
      (GREAT, score_stat (n300 s)), (PERFECT, score_stat (ngeki s)), (LARGE_TICK_MISS, score_stat (nlarge_tick_miss s)),
      (LARGE_TICK_HIT, score_stat (nlarge_tick_hit s)), (SLIDER_TAIL_HIT, score_stat (nslider_tail_hit s)),
      (SMALL_TICK_MISS, score_stat (nsmall_tick_miss s)), (SMALL_TICK_HIT, score_stat (nsmall_tick_hit s))]"

definition hit_result_affects_accuracy :: "hit_result \<Rightarrow> bool" where
  "hit_result_affects_accuracy h \<longleftrightarrow> h \<notin> non_accuracy_hit_results"

definition accuracy_base_score :: "game_mode \<Rightarrow> hit_result \<Rightarrow> int" where
  "accuracy_base_score g h =
     (case map_of (accuracy_base_score_overrides g) h of
        Some n \<Rightarrow> n | None \<Rightarrow> default_accuracy_base_score h)"

definition calculate_accuracy_base_score :: "game_mode \<Rightarrow> score_statistics \<Rightarrow> int" where
  "calculate_accuracy_base_score g sts =
     (\<Sum>(h, count)\<leftarrow>filter (\<lambda>(h, count). hit_result_affects_accuracy h) sts. count * accuracy_base_score g h)"

definition not_implemented :: error where
  "not_implemented = RuntimeErr ''NotImplementedError''"

definition calculate_accuracy :: "score_data \<Rightarrow> error + real" where
  "calculate_accuracy s =
     (let g = to_base_ruleset (sd_mode s) in
      if g \<notin> {OSU, TAIKO, FRUITS, MANIA} then Inl not_implemented
      else
        let base_score = calculate_accuracy_base_score g (score_statistics_of s);
            maximum_base_score = calculate_accuracy_base_score g (normalise_score_statistics (maximum_statistics s))
        in Inr (if maximum_base_score = 0 then 1 else of_int base_score / of_int maximum_base_score))"

section \<open>Rank\<close>

definition has_any_mod :: "score_data \<Rightarrow> string set \<Rightarrow> bool" where
  "has_any_mod s acronyms \<longleftrightarrow> list_ex (\<lambda>m. acronym m \<in> acronyms) (sd_mods s)"

definition calculate_rank :: "score_data \<Rightarrow> error + rank" where
  "calculate_rank s =
     (if \<not> sd_passed s then Inr Rank_F
      else
        let vision = has_any_mod s {''FL'', ''HD''}; acc = sd_accuracy s;
            x = (if vision then Rank_XH else Rank_X); sr = (if vision then Rank_SH else Rank_S) in
        case to_base_ruleset (sd_mode s) of
          FRUITS \<Rightarrow>
            Inr (if acc = 1 then x
                 else if acc \<ge> 0.98 then sr
                 else if acc \<ge> 0.94 then Rank_A
                 else if acc \<ge> 0.90 then Rank_B
                 else if acc \<ge> 0.85 then Rank_C
                 else Rank_D)
        | MANIA \<Rightarrow>
            Inr (if score_stat (nkatu s) = 0 \<and> score_stat (n100 s) = 0 \<and> score_stat (n50 s) = 0 \<and> score_stat (nmiss s) = 0
                 then x
                 else if acc \<ge> 0.95 then sr
                 else if acc \<ge> 0.90 then Rank_A
                 else if acc \<ge> 0.80 then Rank_B
                 else if acc \<ge> 0.70 then Rank_C
                 else Rank_D)
        | g \<Rightarrow>
            if g \<in> {OSU, TAIKO} then
              Inr (if acc = 1 then x
                   else if acc \<ge> 0.95 \<and> score_stat (nmiss s) = 0 then sr
                   else if acc \<ge> 0.90 then Rank_A
                   else if acc \<ge> 0.80 then Rank_B
                   else if acc \<ge> 0.70 then Rank_C
                   else Rank_D)
            else Inl not_implemented)"

section \<open>The displayed score\<close>

datatype scoring_mode = STANDARDISED | CLASSIC

definition standardised_to_classic :: "int \<Rightarrow> int \<Rightarrow> int \<Rightarrow> int" where
  "standardised_to_classic ruleset tot objects =
     (if ruleset = 0 then py_round ((of_int (objects ^ 2) * 32.57 + 100000) * of_int tot / MAX_SCORE)
      else if ruleset = 1 then py_round (of_int (objects * 1109 + 100000) * of_int tot / MAX_SCORE)
      else if ruleset = 2
      then py_round ((of_int tot / MAX_SCORE * of_int objects) ^ 2 * 21.62 + of_int tot / 10)
      else tot)"

text \<open>\<open>HitResult(name)\<close> raises for an unknown name.\<close>

fun max_basic_judgements :: "(string \<times> int) list \<Rightarrow> error + int" where
  "max_basic_judgements [] = Inr 0"
| "max_basic_judgements ((name, count) # rest) =
     (case map_of hit_result_values name of
        None \<Rightarrow> Inl (ValueErr ''not a valid HitResult'')
      | Some h \<Rightarrow> andthen (max_basic_judgements rest) (\<lambda>n. Inr ((if is_basic h then count else 0) + n)))"

definition get_display_score :: "int \<Rightarrow> int \<Rightarrow> scoring_mode \<Rightarrow> (string \<times> int) list \<Rightarrow> error + int" where
  "get_display_score ruleset tot mode maximum =
     (if mode = STANDARDISED then Inr tot
      else andthen (max_basic_judgements maximum) (\<lambda>n. Inr (standardised_to_classic ruleset tot n)))"

section \<open>Levels\<close>

definition TO_NEXT_LEVEL :: "int list" where
  "TO_NEXT_LEVEL =
    [30000, 100000, 210000, 360000, 550000, 780000, 1050000, 1360000, 1710000, 2100000, 2530000,
     3000000, 3510000, 4060000, 4650000, 5280000, 5950000, 6660000, 7410000, 8200000, 9030000, 9900000,
     10810000, 11760000, 12750000, 13780000, 14850000, 15960000, 17110000, 18300000, 19530000,
     20800000, 22110000, 23460000, 24850000, 26280000, 27750000, 29260000, 30810000, 32400000,
     34030000, 35700000, 37410000, 39160000, 40950000, 42780000, 44650000, 46560000, 48510000,
     50500000, 52530000, 54600000, 56710000, 58860000, 61050000, 63280000, 65550000, 67860000,
     70210001, 72600001, 75030002, 77500003, 80010006, 82560010, 85150019, 87780034, 90450061,
     93160110, 95910198, 98700357, 101530643, 104401157, 107312082, 110263748, 113256747, 116292144,
     119371859, 122499346, 125680824, 128927482, 132259468, 135713043, 139353477, 143298259, 147758866,
     153115959, 160054726, 169808506, 184597311, 208417160, 248460887, 317675597, 439366075, 655480935,
     1041527682, 1733419828, 2975801691, 5209033044, 9225761479, 99999999999, 99999999999, 99999999999,
     99999999999, 99999999999, 99999999999, 99999999999, 99999999999, 99999999999, 99999999999,
     99999999999, 99999999999, 99999999999, 99999999999, 99999999999, 99999999999]"

definition calculate_level_to_score :: "nat \<Rightarrow> real" where
  "calculate_level_to_score n =
     (if n \<le> 100
      then 5000 / 3 * of_int (4 * int n ^ 3 - 3 * int n ^ 2 - int n)
           + 1.25 * (if n \<ge> 60 then 1.8 ^ (n - 60) else 1 / 1.8 ^ (60 - n))
      else 26931190827 + 99999999999 * of_int (int n - 100))"

definition next_level_requirement :: "real \<Rightarrow> int" where
  "next_level_requirement level = TO_NEXT_LEVEL ! min (length TO_NEXT_LEVEL - 1) (nat (py_round level))"

lemma next_level_requirement_pos: "30000 \<le> next_level_requirement level"
proof -
  have "list_all (\<lambda>r. 30000 \<le> r) TO_NEXT_LEVEL" "0 < length TO_NEXT_LEVEL" by (simp_all add: TO_NEXT_LEVEL_def)
  moreover from this(2) have "min (length TO_NEXT_LEVEL - 1) k < length TO_NEXT_LEVEL" for k by linarith
  ultimately show ?thesis unfolding next_level_requirement_def list_all_length by blast
qed

function level_loop :: "int \<Rightarrow> real \<Rightarrow> real" where
  "level_loop remaining_score level =
     (if remaining_score > 0
      then let requirement = next_level_requirement level in
           level_loop (remaining_score - requirement) (level + min 1 (of_int remaining_score / of_int requirement))
      else level)"
  by auto

termination
proof (relation "measure (\<lambda>(r, l). nat r)")
  show "wf (measure (\<lambda>(r, l :: real). nat r))" by simp
  fix r :: int and l x assume "0 < r" "x = next_level_requirement l"
  then show "((r - x, l + min 1 (real_of_int r / real_of_int x)), r, l) \<in> measure (\<lambda>(r, l). nat r)"
    using next_level_requirement_pos[of l] by simp
qed

declare level_loop.simps [simp del]

definition calculate_score_to_level :: "int \<Rightarrow> real" where
  "calculate_score_to_level total_score = level_loop total_score 0 + 1"

section \<open>Weights and points\<close>

definition calculate_pp_weight :: "nat \<Rightarrow> real" where
  "calculate_pp_weight index = 0.95 ^ index"

definition calculate_weighted_pp :: "real \<Rightarrow> nat \<Rightarrow> real" where
  "calculate_weighted_pp pp index = (if pp > 0 then calculate_pp_weight index * pp else 0)"

definition calculate_weighted_acc :: "real \<Rightarrow> nat \<Rightarrow> real" where
  "calculate_weighted_acc acc index = (if acc > 0 then calculate_pp_weight index * acc else 0)"

definition clamp :: "real \<Rightarrow> real \<Rightarrow> real \<Rightarrow> real" where
  "clamp n min_value max_value = (if n < min_value then min_value else if n > max_value then max_value else n)"

definition calculate_pp_for_no_calculator :: "int \<Rightarrow> real \<Rightarrow> real" where
  "calculate_pp_for_no_calculator tot star_rating =
     (let k = 4;
          pmax = 1.4 * star_rating powr 2.8;
          b = 0.95 - 0.33 * ((clamp star_rating 1 8 - 1) / 7);
          x = of_int tot / 1000000
      in if x < b then pmax * x
         else let x = (x - b) / (1 - b);
                  exp_part = (exp (k * x) - 1) / (exp k - 1)
              in pmax * (b + (1 - b) * exp_part))"

record performance_backend =
  can_calculate_performance :: bool
  can_calculate_difficulty :: bool
  difficulty_stars :: real
  performance_points :: real

text \<open>\<open>stars\<close> is the stored difficulty of the map, if the map is known; \<open>fallback\<close> the setting
  \<open>fallback_no_calculator_pp\<close>.\<close>

definition calculate_pp :: "performance_backend \<Rightarrow> bool \<Rightarrow> real option \<Rightarrow> int \<Rightarrow> real" where
  "calculate_pp be fallback stars tot =
     (case stars of
        None \<Rightarrow> 0
      | Some stored \<Rightarrow>
          if \<not> can_calculate_performance be then
            (if \<not> fallback then 0
             else
               let star_rating = (if can_calculate_difficulty be then difficulty_stars be else -1);
                   star_rating = (if star_rating < 0 then stored else star_rating)
               in calculate_pp_for_no_calculator tot star_rating)
          else performance_points be)"

end
