(* ===== verification/ScoringRules.thy ===== *)
theory ScoringRules
  imports Scoring
begin

text \<open>
  The functions of \<open>app/calculating/osu.py\<close> against what they are for: the level of a total score is the
  place of the score between the thresholds of the table, the table and the closed formula agree, an
  accuracy is a fraction, and a better play never gets a worse rank.
\<close>

section \<open>Levels\<close>

definition requirement :: "nat \<Rightarrow> int" where
  "requirement i = TO_NEXT_LEVEL ! min 114 i"

definition threshold :: "nat \<Rightarrow> int" where
  "threshold n = (\<Sum>i<n. requirement i)"

lemma next_requirement: "next_level_requirement (of_nat n) = requirement n"
proof -
  have "length TO_NEXT_LEVEL = 115" by (simp add: TO_NEXT_LEVEL_def)
  moreover have "py_round (of_nat n) = int n" using py_round_of_int[of "int n"] by simp
  ultimately show ?thesis by (simp add: next_level_requirement_def requirement_def)
qed

lemma requirement_pos: "30000 \<le> requirement n"
  using next_level_requirement_pos[of "of_nat n"] by (simp add: next_requirement)

lemma threshold_Suc: "threshold (Suc n) = threshold n + requirement n"
  by (simp add: threshold_def)

lemma threshold_grows: "int n \<le> threshold n"
proof (induction n)
  case (Suc n)
  then show ?case using requirement_pos[of n] by (simp add: threshold_Suc)
qed (simp add: threshold_def)

lemma level_loop_nonpos: "r \<le> 0 \<Longrightarrow> level_loop r l = l"
  by (subst level_loop.simps) simp

lemma level_loop_full: "requirement n \<le> r \<Longrightarrow> level_loop r (of_nat n) = level_loop (r - requirement n) (of_nat (Suc n))"
  using requirement_pos[of n] by (subst level_loop.simps) (simp add: next_requirement add.commute)

lemma level_loop_last:
  "0 \<le> r \<Longrightarrow> r < requirement n \<Longrightarrow> level_loop r (of_nat n) = of_nat n + of_int r / of_int (requirement n)"
  using requirement_pos[of n]
  by (subst level_loop.simps) (simp add: next_requirement level_loop_nonpos min_def)

lemma level_loop_from_threshold:
  "threshold n \<le> s \<Longrightarrow> level_loop s 0 = level_loop (s - threshold n) (of_nat n)"
proof (induction n)
  case (Suc n)
  then have "threshold n \<le> s" "requirement n \<le> s - threshold n"
    using requirement_pos[of n] by (simp_all add: threshold_Suc)
  then show ?case using Suc.IH level_loop_full[of n "s - threshold n"] by (simp add: threshold_Suc algebra_simps)
qed (simp add: threshold_def)

text \<open>The level of a total score is where the score lies among the thresholds of the table: with
  \<open>n\<close> levels completed it is \<open>n + 1\<close> plus the fraction of the next level's requirement that is reached; the
  loop ends for every score, and below zero the level is 1.\<close>

theorem level_of_total_score:
  "calculate_score_to_level (min s 0) = 1 \<and>
   (\<exists>n. threshold n \<le> max s 0 \<and> max s 0 < threshold (Suc n)
      \<and> calculate_score_to_level (max s 0) = of_nat n + 1 + of_int (max s 0 - threshold n) / of_int (requirement n))"
proof
  show "calculate_score_to_level (min s 0) = 1" by (simp add: calculate_score_to_level_def level_loop_nonpos)
  define t where "t = max s 0"
  then have t0: "0 \<le> t" by simp
  have "t < threshold (nat t + 1)" using threshold_grows[of "nat t + 1"] t0 by linarith
  then obtain m where "t < threshold m" "\<And>k. k < m \<Longrightarrow> \<not> t < threshold k"
    using exists_least_iff[of "\<lambda>m. t < threshold m"] by blast
  moreover from this(1) obtain n where "m = Suc n" using t0 by (cases m) (auto simp: threshold_def)
  ultimately have n: "threshold n \<le> t" "t < threshold (Suc n)" by force+
  have "level_loop t 0 = of_nat n + of_int (t - threshold n) / of_int (requirement n)"
    using level_loop_from_threshold[OF n(1)] level_loop_last[of "t - threshold n" n] n by (simp add: threshold_Suc)
  then have "\<exists>n. threshold n \<le> t \<and> t < threshold (Suc n)
      \<and> calculate_score_to_level t = of_nat n + 1 + of_int (t - threshold n) / of_int (requirement n)"
    using n unfolding calculate_score_to_level_def by (intro exI[of _ n]) simp
  then show "\<exists>n. threshold n \<le> max s 0 \<and> max s 0 < threshold (Suc n)
      \<and> calculate_score_to_level (max s 0) = of_nat n + 1 + of_int (max s 0 - threshold n) / of_int (requirement n)"
    unfolding t_def .
qed

text \<open>The table is the formula, rounded.  Over the integers, with \<open>k = n - 60\<close> and both sides scaled by \<open>12 * 5 ^ k\<close>.\<close>

fun running :: "int \<Rightarrow> int list \<Rightarrow> int list" where
  "running acc [] = [acc]"
| "running acc (r # rs) = acc # running (acc + r) rs"

definition cubic :: "nat \<Rightarrow> int" where
  "cubic n = 5000 * (4 * int n ^ 3 - 3 * int n ^ 2 - int n)"

definition near_formula :: "(nat \<times> int) list \<Rightarrow> bool" where
  "near_formula ts \<longleftrightarrow> list_all (\<lambda>(n, t).
     if n < 60 then cubic n = 3 * t
     else \<bar>4 * 5 ^ (n - 60) * (cubic n - 3 * t) + 15 * 9 ^ (n - 60)\<bar> < 24 * 5 ^ (n - 60)) ts"

lemma table_near_formula: "near_formula (enumerate 1 (running 0 (take 99 TO_NEXT_LEVEL)))"
  by code_simp

lemma nth_running: "i \<le> length rs \<Longrightarrow> running acc rs ! i = acc + sum_list (take i rs)"
proof (induction rs arbitrary: acc i)
  case (Cons r rs)
  then show ?case by (cases i) auto
qed simp

lemma threshold_sum: "n \<le> 114 \<Longrightarrow> threshold n = sum_list (take n TO_NEXT_LEVEL)"
proof (induction n)
  case (Suc n)
  have "length TO_NEXT_LEVEL = 115" by (simp add: TO_NEXT_LEVEL_def)
  with Suc show ?case by (simp add: threshold_Suc requirement_def take_Suc_conv_app_nth)
qed (simp add: threshold_def)

lemma far_requirement: "99 \<le> i \<Longrightarrow> requirement i = 99999999999"
proof -
  assume "99 \<le> i"
  have "list_all (\<lambda>r. r = 99999999999) (drop 99 TO_NEXT_LEVEL)" "length TO_NEXT_LEVEL = 115"
    by (simp_all add: TO_NEXT_LEVEL_def)
  then have "\<forall>k < 16. TO_NEXT_LEVEL ! (99 + k) = 99999999999" by (simp add: list_all_length)
  from this[rule_format, of "min 114 i - 99"] show ?thesis using \<open>99 \<le> i\<close> by (simp add: requirement_def)
qed

lemma near_threshold:
  assumes "n < 100"
  shows "\<bar>calculate_level_to_score (Suc n) - of_int (threshold n)\<bar> < 2"
proof -
  let ?ts = "running 0 (take 99 TO_NEXT_LEVEL)"
  have len: "length (take 99 TO_NEXT_LEVEL) = 99" by (simp add: TO_NEXT_LEVEL_def)
  have "length (running a rs) = Suc (length rs)" for a rs by (induction rs arbitrary: a) auto
  then have "(Suc n, ?ts ! n) \<in> set (enumerate 1 ?ts)"
    using assms len by (auto simp: in_set_enumerate_eq)
  moreover have "?ts ! n = threshold n"
    using nth_running[of n "take 99 TO_NEXT_LEVEL" 0] assms len threshold_sum[of n] by simp
  ultimately have near: "if Suc n < 60 then cubic (Suc n) = 3 * threshold n
     else \<bar>4 * 5 ^ (Suc n - 60) * (cubic (Suc n) - 3 * threshold n) + 15 * 9 ^ (Suc n - 60)\<bar> < 24 * 5 ^ (Suc n - 60)"
    using table_near_formula unfolding near_formula_def list_all_iff by fastforce
  have formula: "calculate_level_to_score (Suc n) = of_int (cubic (Suc n)) / 3
      + 1.25 * (if Suc n \<ge> 60 then 1.8 ^ (Suc n - 60) else 1 / 1.8 ^ (60 - Suc n))"
    using assms unfolding calculate_level_to_score_def cubic_def by simp
  show ?thesis
  proof (cases "Suc n < 60")
    case True
    define q where "q = 1 / (1.8 :: real) ^ (60 - Suc n)"
    have "1 \<le> (1.8 :: real) ^ (60 - Suc n)" by (rule one_le_power) simp
    then have "0 \<le> q" "q \<le> 1" unfolding q_def by simp_all
    moreover have "of_int (cubic (Suc n)) / 3 = (of_int (threshold n) :: real)" using near True by simp
    ultimately show ?thesis unfolding formula q_def[symmetric] using True by simp
  next
    case False
    define k where "k = Suc n - 60"
    have "\<bar>4 * 5 ^ k * (cubic (Suc n) - 3 * threshold n) + 15 * 9 ^ k\<bar> < 24 * 5 ^ k" using near False unfolding k_def by simp
    then have "real_of_int \<bar>4 * 5 ^ k * (cubic (Suc n) - 3 * threshold n) + 15 * 9 ^ k\<bar> < real_of_int (24 * 5 ^ k)"
      by (simp only: of_int_less_iff)
    then have "\<bar>4 * 5 ^ k * (of_int (cubic (Suc n)) - 3 * of_int (threshold n)) + 15 * 9 ^ k\<bar> < 24 * (5 :: real) ^ k" by simp
    moreover have "4 * 5 ^ k * (of_int (cubic (Suc n)) - 3 * of_int (threshold n)) + 15 * 9 ^ k
        = 12 * 5 ^ k * (of_int (cubic (Suc n)) / 3 + 1.25 * 1.8 ^ k - of_int (threshold n) :: real)"
      by (simp add: power_divide field_simps)
    ultimately have "12 * 5 ^ k * \<bar>of_int (cubic (Suc n)) / 3 + 1.25 * 1.8 ^ k - of_int (threshold n)\<bar> < 12 * 5 ^ k * (2 :: real)"
      by (simp add: abs_mult)
    then have "\<bar>of_int (cubic (Suc n)) / 3 + 1.25 * 1.8 ^ k - of_int (threshold n)\<bar> < (2 :: real)"
      by (subst (asm) mult_less_cancel_left_pos) simp_all
    then show ?thesis unfolding formula k_def using False by simp
  qed
qed

lemma far_threshold: "100 \<le> n \<Longrightarrow> calculate_level_to_score (Suc n) = of_int (threshold n)"
proof (induction n rule: dec_induct)
  case base
  have "threshold 100 = sum_list (take 100 TO_NEXT_LEVEL)" using threshold_sum[of 100] by simp
  also have "\<dots> = 126931190826" by code_simp
  finally show ?case by (simp add: calculate_level_to_score_def)
next
  case (step n)
  then show ?case by (simp add: threshold_Suc far_requirement calculate_level_to_score_def algebra_simps)
qed

text \<open>C23: the two directions agree: the score the formula gives for a level is within two points of the table's
  threshold up to level 100 and equal to it from level 101 on.\<close>

theorem level_table_matches_formula:
  "if n < 100 then \<bar>calculate_level_to_score (Suc n) - of_int (threshold n)\<bar> < 2
   else calculate_level_to_score (Suc n) = of_int (threshold n)"
  using near_threshold[of n] far_threshold[of n] by simp

section \<open>Accuracy and rank\<close>

text \<open>A play of osu! judged on \<open>G\<close> objects, \<open>L\<close> large ticks and \<open>T\<close> slider tails, as the client reports it.\<close>

definition osu_play :: "int \<Rightarrow> int \<Rightarrow> int \<Rightarrow> score_data \<Rightarrow> bool" where
  "osu_play G L T s \<longleftrightarrow>
     to_base_ruleset (sd_mode s) = OSU
     \<and> maximum_statistics s = [(''great'', G), (''large_tick_hit'', L), (''slider_tail_hit'', T)]
     \<and> score_stat (ngeki s) = 0 \<and> score_stat (nkatu s) = 0 \<and> score_stat (nsmall_tick_hit s) = 0
     \<and> 0 \<le> score_stat (n300 s) \<and> 0 \<le> score_stat (n100 s) \<and> 0 \<le> score_stat (n50 s) \<and> 0 \<le> score_stat (nmiss s)
     \<and> score_stat (n300 s) + score_stat (n100 s) + score_stat (n50 s) + score_stat (nmiss s) = G
     \<and> 0 \<le> score_stat (nlarge_tick_hit s) \<and> score_stat (nlarge_tick_hit s) \<le> L
     \<and> 0 \<le> score_stat (nslider_tail_hit s) \<and> score_stat (nslider_tail_hit s) \<le> T"

lemma osu_accuracy:
  assumes "osu_play G L T s"
  shows "calculate_accuracy s = Inr (if 300 * G + 30 * L + 150 * T = 0 then 1
    else of_int (300 * score_stat (n300 s) + 100 * score_stat (n100 s) + 50 * score_stat (n50 s)
           + 30 * score_stat (nlarge_tick_hit s) + 150 * score_stat (nslider_tail_hit s)) / of_int (300 * G + 30 * L + 150 * T))"
  using assms
  by (simp add: osu_play_def calculate_accuracy_def calculate_accuracy_base_score_def score_statistics_of_def
      hit_result_affects_accuracy_def non_accuracy_hit_results_def accuracy_base_score_def accuracy_base_score_overrides_def
      normalise_score_statistics_def hit_result_values_def algebra_simps)

text \<open>The accuracy of a consistent osu! play is a fraction: between 0 and 1, and 1 exactly when every object
  is a 300 and every tick and slider tail is hit.\<close>

theorem accuracy_is_fraction:
  assumes "osu_play G L T s"
  shows "\<exists>acc. calculate_accuracy s = Inr acc \<and> 0 \<le> acc \<and> acc \<le> 1
    \<and> (acc = 1 \<longleftrightarrow> score_stat (n300 s) = G \<and> score_stat (nlarge_tick_hit s) = L \<and> score_stat (nslider_tail_hit s) = T)"
proof -
  define hit where "hit = 300 * score_stat (n300 s) + 100 * score_stat (n100 s) + 50 * score_stat (n50 s)
      + 30 * score_stat (nlarge_tick_hit s) + 150 * score_stat (nslider_tail_hit s)"
  define full where "full = 300 * G + 30 * L + 150 * T"
  have run: "calculate_accuracy s = Inr (if full = 0 then 1 else of_int hit / of_int full)"
    using osu_accuracy[OF assms] unfolding hit_def full_def .
  have bounds: "0 \<le> hit" "hit \<le> full" using assms unfolding osu_play_def hit_def full_def by linarith+
  have all: "hit = full \<longleftrightarrow> score_stat (n300 s) = G \<and> score_stat (nlarge_tick_hit s) = L \<and> score_stat (nslider_tail_hit s) = T"
    using assms unfolding osu_play_def hit_def full_def by (intro iffI) linarith+
  show ?thesis
  proof (cases "full = 0")
    case True
    then have "hit = full" using bounds by linarith
    then show ?thesis using True all unfolding run by simp
  next
    case False
    then have "0 < full" using bounds by linarith
    then show ?thesis using bounds all unfolding run
      by (intro exI[of _ "of_int hit / of_int full"]) (simp add: divide_le_eq divide_eq_eq)
  qed
qed

definition demo_play :: "int \<Rightarrow> int \<Rightarrow> real \<Rightarrow> score_data" where
  "demo_play great miss acc =
     \<lparr>sd_mode = OSU, sd_mods = [plain ''HD''], n300 = Some great, n100 = Some 1, n50 = None, nmiss = Some miss, ngeki = None,
      nkatu = None, nlarge_tick_miss = None, nlarge_tick_hit = Some 2, nslider_tail_hit = Some 2, nsmall_tick_hit = None,
      nsmall_tick_miss = None,
      maximum_statistics = [(''great'', great + miss + 1), (''large_tick_hit'', 2), (''slider_tail_hit'', 2)],
      sd_total_score = 900000, sd_passed = True, sd_accuracy = acc\<rparr>"

theorem accuracy_is_fraction_witness:
  "\<exists>acc. calculate_accuracy (demo_play 9 0 0.9) = Inr acc \<and> acc \<le> 1 \<and> acc \<noteq> 1"
proof -
  have "osu_play 10 2 2 (demo_play 9 0 0.9)" by (simp add: osu_play_def demo_play_def score_stat_def to_base_ruleset_def)
  from accuracy_is_fraction[OF this] show ?thesis by (auto simp: demo_play_def score_stat_def)
qed

fun grade :: "rank \<Rightarrow> nat" where
  "grade Rank_F = 0" | "grade Rank_D = 1" | "grade Rank_C = 2" | "grade Rank_B = 3" | "grade Rank_A = 4"
| "grade Rank_S = 5" | "grade Rank_SH = 5" | "grade Rank_X = 6" | "grade Rank_XH = 6"

text \<open>The second play is at least as good: it passes if the first did, its accuracy is not lower, and it has
  no miss (in mania: no imperfect judgement) if the first had none.\<close>

definition at_least_as_good :: "score_data \<Rightarrow> score_data \<Rightarrow> bool" where
  "at_least_as_good s t \<longleftrightarrow>
     sd_mode t = sd_mode s \<and> (sd_passed s \<longrightarrow> sd_passed t) \<and> sd_accuracy s \<le> sd_accuracy t \<and> sd_accuracy t \<le> 1
     \<and> (score_stat (nmiss s) = 0 \<longrightarrow> score_stat (nmiss t) = 0)
     \<and> (score_stat (nkatu s) = 0 \<and> score_stat (n100 s) = 0 \<and> score_stat (n50 s) = 0 \<longrightarrow>
          score_stat (nkatu t) = 0 \<and> score_stat (n100 t) = 0 \<and> score_stat (n50 t) = 0)"

text \<open>A better play never gets a worse rank: in the four official rulesets a score that is at least as good
  as another one is ranked at least as high, and a rank is always assigned.\<close>

theorem better_play_no_worse_rank:
  assumes "at_least_as_good s t" and "is_official (sd_mode s)"
  shows "\<exists>r q. calculate_rank s = Inr r \<and> calculate_rank t = Inr q \<and> grade r \<le> grade q"
proof -
  have base: "to_base_ruleset (sd_mode s) \<in> {OSU, TAIKO, FRUITS, MANIA}" and mode: "sd_mode t = sd_mode s"
    using assms by (cases "sd_mode s"; simp add: is_official_def to_base_ruleset_def at_least_as_good_def)+
  have acc: "sd_accuracy s \<le> sd_accuracy t" "sd_accuracy t \<le> 1" and miss: "score_stat (nmiss s) = 0 \<Longrightarrow> score_stat (nmiss t) = 0"
    and perfect: "score_stat (nkatu s) = 0 \<and> score_stat (n100 s) = 0 \<and> score_stat (n50 s) = 0 \<Longrightarrow>
          score_stat (nkatu t) = 0 \<and> score_stat (n100 t) = 0 \<and> score_stat (n50 t) = 0"
    and pass: "sd_passed s \<Longrightarrow> sd_passed t"
    using assms(1) unfolding at_least_as_good_def by blast+
  have one: "sd_accuracy s = 1 \<Longrightarrow> sd_accuracy t = 1" using acc by linarith
  show ?thesis
  proof (cases "sd_passed s")
    case False
    then have "calculate_rank s = Inr Rank_F" by (simp add: calculate_rank_def)
    moreover have "\<exists>q. calculate_rank t = Inr q"
      using base unfolding calculate_rank_def mode Let_def by (cases "to_base_ruleset (sd_mode s)") auto
    ultimately show ?thesis by auto
  next
    case True
    consider "to_base_ruleset (sd_mode s) = OSU \<or> to_base_ruleset (sd_mode s) = TAIKO"
      | "to_base_ruleset (sd_mode s) = FRUITS" | "to_base_ruleset (sd_mode s) = MANIA" using base by blast
    then show ?thesis
    proof cases
      case 1
      then show ?thesis using True pass acc miss one
        unfolding calculate_rank_def mode Let_def by (elim disjE) (auto split: if_splits)
    next
      case 2
      then show ?thesis using True pass acc one unfolding calculate_rank_def mode Let_def by (auto split: if_splits)
    next
      case 3
      then show ?thesis using True pass acc miss perfect unfolding calculate_rank_def mode Let_def by (auto split: if_splits)
    qed
  qed
qed

theorem better_play_no_worse_rank_witness:
  "\<exists>q. calculate_rank (demo_play 90 0 0.99) = Inr q \<and> grade Rank_A \<le> grade q"
proof -
  have "at_least_as_good (demo_play 80 5 0.92) (demo_play 90 0 0.99)" "is_official (sd_mode (demo_play 80 5 0.92))"
    by (simp_all add: at_least_as_good_def demo_play_def score_stat_def is_official_def)
  moreover have "calculate_rank (demo_play 80 5 0.92) = Inr Rank_A" by code_simp
  ultimately show ?thesis using better_play_no_worse_rank[of "demo_play 80 5 0.92" "demo_play 90 0 0.99"] by auto
qed

end
