(* ===== verification/Profiles.thy ===== *)
theory Profiles
  imports Scoring Multipliers Dodge "HOL-Library.Product_Lexorder"
begin

text \<open>
  The life of a submitted play: \<open>app/database/score.py\<close> (\<open>process_score\<close>, \<open>_process_score_pp\<close>,
  \<open>_process_statistics\<close>, \<open>process_user\<close>, \<open>calculate_user_pp\<close>), the rows it maintains
  (\<open>best_scores.py\<close>, \<open>total_score_best_scores.py\<close>, \<open>statistics.py\<close>), the signed weighting of
  \<open>negative_pp_service.py\<close> and the rebuilding of a profile in \<open>admin_score_service.py\<close>.

  SQL queries are filters over the tables; \<open>.first()\<close> of rows that tie under \<open>ORDER BY\<close> is the row
  inserted first.  The not-null hit counts of a play are read through \<open>score_stat\<close>.  The row locks,
  the activity events and the playlist tables are left out.  What the calculator returns for a play is
  the parameter \<open>points\<close>, with \<open>None\<close> when the map file could not be fetched.
\<close>

section \<open>Rows\<close>

record play =
  pl_id :: int
  pl_user :: int
  pl_beatmap :: int
  pl_data :: score_data
  pl_without_mods :: int
  pl_max_combo :: int
  pl_rank :: rank
  pl_started :: time
  pl_ended :: time
  pl_pp :: real
  pl_ranked :: bool
  pl_leaderboard_eligible :: bool
  pl_ranked_score_eligible :: bool
  pl_snapshotted :: bool
  pl_processed :: bool

record best_score =
  b_user :: int
  b_score :: int
  b_beatmap :: int
  b_mode :: game_mode
  b_pp :: real
  b_acc :: real

record total_best =
  tb_user :: int
  tb_score :: int
  tb_beatmap :: int
  tb_mode :: game_mode
  tb_total :: int
  tb_mods :: "string list"
  tb_rank :: rank

record user_statistics =
  us_user :: int
  us_mode :: game_mode
  count_100 :: int
  count_300 :: int
  count_50 :: int
  count_miss :: int
  us_pp :: real
  ranked_score :: int
  hit_accuracy :: real
  us_total_score :: int
  total_hits :: int
  maximum_combo :: int
  play_count :: int
  play_time :: int
  level_current :: real
  grades :: "rank \<Rightarrow> int"

record profiles =
  plays :: "play list"
  best_scores :: "best_score list"
  total_bests :: "total_best list"
  statistics_rows :: "user_statistics list"
  monthly_playcounts :: "((int \<times> int \<times> int) \<times> int) list"
  beatmap_playcounts :: "((int \<times> int) \<times> int) list"
  need_recalculate :: "int list"
  playtime_events :: "(int \<times> int) list"
  negative_rules :: "(string \<times> int) list"
  map_sets :: "(int \<times> int) list"
  mapper_credits :: "(int \<times> int) list"

text \<open>The policy in force for a difficulty and the global switches of the configuration.\<close>

record beatmap_policy =
  status_ranked :: bool
  leaderboard_enabled :: bool
  pp_enabled :: bool

record score_config =
  game :: game_config
  enable_all_beatmap_pp :: bool
  enable_all_beatmap_leaderboard :: bool
  configured_scoring_mode :: scoring_mode

abbreviation pl_mode :: "play \<Rightarrow> game_mode" where
  "pl_mode p \<equiv> sd_mode (pl_data p)"

abbreviation pl_total :: "play \<Rightarrow> int" where
  "pl_total p \<equiv> sd_total_score (pl_data p)"

section \<open>Best plays and weighted points\<close>

definition target_kind :: "string \<Rightarrow> (string \<times> int) list \<Rightarrow> int list" where
  "target_kind kind rules = map snd (filter (\<lambda>(k, t). k = kind) rules)"

definition negative_map_ids :: "profiles \<Rightarrow> int list \<Rightarrow> int list" where
  "negative_map_ids s beatmap_ids =
     (let rules = negative_rules s in
      if beatmap_ids = [] \<or> rules = [] then []
      else
        filter (\<lambda>bid. list_ex (\<lambda>(m, st). m = bid \<and> (bid \<in> set (target_kind ''beatmap'' rules) \<or> st \<in> set (target_kind ''beatmapset'' rules)))
                        (map_sets s)
                    \<or> list_ex (\<lambda>(m, mapper). m = bid \<and> mapper \<in> set (target_kind ''mapper'' rules)) (mapper_credits s))
          beatmap_ids)"

definition get_user_best_pp :: "profiles \<Rightarrow> int \<Rightarrow> game_mode \<Rightarrow> best_score list" where
  "get_user_best_pp s uid g =
     take 1000 (sort_key (\<lambda>b. (- b_pp b, - b_score b)) (filter (\<lambda>b. b_user b = uid \<and> b_mode b = g) (best_scores s)))"

definition signed_weights :: "(int \<Rightarrow> bool) \<Rightarrow> best_score list \<Rightarrow> real" where
  "signed_weights neg bps =
     (\<Sum>(i, b)\<leftarrow>enumerate 0 bps. calculate_weighted_pp (b_pp b) i * (if neg (b_beatmap b) then -1 else 1))"

definition weighted_accuracy :: "best_score list \<Rightarrow> real" where
  "weighted_accuracy bps =
     (let acc_sum = (\<Sum>(i, b)\<leftarrow>enumerate 0 bps. calculate_weighted_acc (b_acc b) i) in
      clamp (if bps = [] then acc_sum else acc_sum * (100 / (20 * (1 - 0.95 ^ length bps)))) 0 100)"

definition calculate_user_pp :: "profiles \<Rightarrow> int \<Rightarrow> game_mode \<Rightarrow> real \<times> real" where
  "calculate_user_pp s uid g =
     (let bps = get_user_best_pp s uid g; negative = negative_map_ids s (map b_beatmap bps) in
      (signed_weights (\<lambda>m. m \<in> set negative) bps, weighted_accuracy bps))"

definition get_user_best_pp_in_beatmap :: "profiles \<Rightarrow> int \<Rightarrow> int \<Rightarrow> game_mode \<Rightarrow> best_score option" where
  "get_user_best_pp_in_beatmap s bm uid g =
     find (\<lambda>b. b_beatmap b = bm \<and> b_user b = uid \<and> b_mode b = g) (best_scores s)"

text \<open>\<open>ORDER BY total_score DESC\<close>, first row.\<close>

definition first_by_total :: "total_best list \<Rightarrow> total_best option" where
  "first_by_total rows = (case sort_key (\<lambda>r. - tb_total r) rows of [] \<Rightarrow> None | r # _ \<Rightarrow> Some r)"

definition get_user_best_score_in_beatmap :: "profiles \<Rightarrow> int \<Rightarrow> int \<Rightarrow> game_mode \<Rightarrow> total_best option" where
  "get_user_best_score_in_beatmap s bm uid g =
     first_by_total (filter (\<lambda>r. tb_mode r = g \<and> tb_beatmap r = bm \<and> tb_user r = uid) (total_bests s))"

definition get_user_best_score_with_mod_in_beatmap ::
  "profiles \<Rightarrow> int \<Rightarrow> int \<Rightarrow> string list \<Rightarrow> game_mode \<Rightarrow> total_best option" where
  "get_user_best_score_with_mod_in_beatmap s bm uid ms g =
     first_by_total (filter (\<lambda>r. tb_mode r = g \<and> tb_beatmap r = bm \<and> tb_user r = uid \<and> set (tb_mods r) = set ms)
       (total_bests s))"

section \<open>Play time\<close>

definition get_play_length :: "play \<Rightarrow> real \<Rightarrow> error + int" where
  "get_play_length p beatmap_length =
     andthen (get_speed_rate (sd_mods (pl_data p))) (\<lambda>speed_rate.
       Inr (py_trunc (min (beatmap_length / speed_rate) (of_int (pl_ended p - pl_started p) / 1000000))))"

fun scorable_objects :: "(string \<times> int) list \<Rightarrow> error + int" where
  "scorable_objects [] = Inr 0"
| "scorable_objects ((name, count) # rest) =
     (case map_of hit_result_values name of
        None \<Rightarrow> Inl (ValueErr ''not a valid HitResult'')
      | Some h \<Rightarrow> andthen (scorable_objects rest) (\<lambda>n. Inr ((if is_scorable h then count else 0) + n)))"

definition calculate_playtime :: "play \<Rightarrow> real \<Rightarrow> error + (int \<times> bool)" where
  "calculate_playtime p beatmap_length =
     (let d = pl_data p in
      andthen (get_play_length p beatmap_length) (\<lambda>total_length.
      let hits = score_stat (n300 d) + score_stat (n100 d) + score_stat (n50 d) + score_stat (ngeki d) + score_stat (nkatu d)
                 + score_stat (nlarge_tick_hit d) + score_stat (nlarge_tick_miss d) + score_stat (nslider_tail_hit d)
                 + score_stat (nsmall_tick_hit d)
      in andthen (scorable_objects (maximum_statistics d)) (\<lambda>total_obj.
      Inr (total_length,
           sd_passed d \<or> (total_length > 8 \<and> sd_total_score d \<ge> 5000 \<and> of_int hits \<ge> min (0.1 * of_int total_obj) (20 :: real))))))"

section \<open>A new play\<close>

record submission =
  si_rank :: rank
  si_total_score :: int
  si_without_mods :: int
  si_accuracy :: real
  si_max_combo :: int
  si_ruleset :: int
  si_passed :: bool
  si_mods :: "api_mod list"
  si_statistics :: score_statistics
  si_maximum :: "(string \<times> int) list"

record score_token =
  tk_beatmap :: int
  tk_checksum :: string
  tk_created :: time
  tk_client_version :: string

record beatmap_row =
  bm_checksum :: string
  bm_cs :: real
  bm_ar :: real
  bm_accuracy :: real
  bm_drain :: real

definition count_of :: "score_statistics \<Rightarrow> hit_result \<Rightarrow> int option" where
  "count_of sts h = Some (case map_of sts h of None \<Rightarrow> 0 | Some n \<Rightarrow> n)"

text \<open>The row before the server's own calculation of score, accuracy and rank.\<close>

definition submitted_data :: "submission \<Rightarrow> game_mode \<Rightarrow> score_data" where
  "submitted_data info g =
     (let st = si_statistics info in
      \<lparr>sd_mode = g, sd_mods = si_mods info, n300 = count_of st GREAT, n100 = count_of st OK, n50 = count_of st MEH,
       nmiss = count_of st MISS, ngeki = count_of st PERFECT, nkatu = count_of st GOOD,
       nlarge_tick_miss = count_of st LARGE_TICK_MISS, nlarge_tick_hit = count_of st LARGE_TICK_HIT,
       nslider_tail_hit = count_of st SLIDER_TAIL_HIT, nsmall_tick_hit = count_of st SMALL_TICK_HIT,
       nsmall_tick_miss = count_of st SMALL_TICK_MISS, maximum_statistics = si_maximum info,
       sd_total_score = si_total_score info, sd_passed = si_passed info, sd_accuracy = si_accuracy info\<rparr>)"

definition score_context :: "submission \<Rightarrow> beatmap_row \<Rightarrow> score_token \<Rightarrow> game_mode \<Rightarrow> mod_context" where
  "score_context info bm tk g =
     \<lparr>ctx_mods = si_mods info, ctx_cs = bm_cs bm, ctx_ar = bm_ar bm, ctx_od = bm_accuracy bm, ctx_hp = bm_drain bm,
      client_version = tk_client_version tk, ctx_date = tk_created tk, ctx_ruleset = mode_int (to_base_ruleset g)\<rparr>"

definition score_multiplier ::
  "game_config \<Rightarrow> submission \<Rightarrow> beatmap_row \<Rightarrow> score_token \<Rightarrow> game_mode \<Rightarrow> error + real" where
  "score_multiplier cfg info bm tk g =
     (case mod_multiplier_calculator cfg g of
        Inl _ \<Rightarrow> Inr 1
      | Inr k \<Rightarrow> calculate k (score_context info bm tk g))"

text \<open>Accuracy and rank stay as submitted in a ruleset without a formula.\<close>

definition judged :: "score_data \<Rightarrow> rank \<Rightarrow> score_data \<times> rank" where
  "judged d r =
     (case calculate_accuracy d of
        Inl _ \<Rightarrow> (d, r)
      | Inr acc \<Rightarrow>
          let d = d\<lparr>sd_accuracy := acc\<rparr> in
          (case calculate_rank d of Inl _ \<Rightarrow> (d, r) | Inr q \<Rightarrow> (d, q)))"

definition process_score ::
  "score_config \<Rightarrow> int \<Rightarrow> beatmap_row option \<Rightarrow> beatmap_policy \<Rightarrow> score_token \<Rightarrow> submission \<Rightarrow> int \<Rightarrow> time
   \<Rightarrow> (profiles, play) op" where
  "process_score cfg uid found policy tk info new_id t =
     bnd (lift (from_int (si_ruleset info))) (\<lambda>base.
     let g = to_special_mode (game cfg) base (map acronym (si_mods info)) in
     case found of
       None \<Rightarrow> throw (ValueErr ''Beatmap does not exist'')
     | Some bm \<Rightarrow>
         let checksum_matches = (tk_checksum tk = bm_checksum bm);
             leaderboard = checksum_matches \<and> (leaderboard_enabled policy \<or> enable_all_beatmap_leaderboard cfg);
             rnk = checksum_matches \<and> (pp_enabled policy \<or> enable_all_beatmap_pp cfg);
             ranked_score = checksum_matches \<and> ((status_ranked policy \<and> leaderboard) \<or> enable_all_beatmap_pp cfg)
         in bnd (lift (score_multiplier (game cfg) info bm tk g)) (\<lambda>mult.
            let d = (submitted_data info g)\<lparr>sd_total_score := py_round (of_int (si_without_mods info) * mult)\<rparr>;
                (d, r) = judged d (si_rank info);
                p = \<lparr>pl_id = new_id, pl_user = uid, pl_beatmap = tk_beatmap tk, pl_data = d,
                     pl_without_mods = si_without_mods info, pl_max_combo = si_max_combo info, pl_rank = r,
                     pl_started = tk_created tk, pl_ended = t, pl_pp = 0, pl_ranked = rnk,
                     pl_leaderboard_eligible = leaderboard, pl_ranked_score_eligible = ranked_score,
                     pl_snapshotted = True, pl_processed = False\<rparr>
            in seq (modify (\<lambda>s. s\<lparr>plays := plays s @ [p]\<rparr>)) (ret p)))"

section \<open>Points of a play\<close>

definition can_get_pp ::
  "score_config \<Rightarrow> (setting_rule \<Rightarrow> setting_value \<Rightarrow> bool) \<Rightarrow> (int \<Rightarrow> ranked_mods option) \<Rightarrow> play \<Rightarrow> bool" where
  "can_get_pp cfg accepts mod_rules p \<longleftrightarrow>
     sd_passed (pl_data p) \<and> pl_ranked p
     \<and> mods_can_get_pp_under (game cfg) accepts (mode_int (pl_mode p)) (sd_mods (pl_data p)) mod_rules"

definition save_play :: "play \<Rightarrow> (profiles, unit) op" where
  "save_play p = modify (\<lambda>s. s\<lparr>plays := put_row pl_id p (plays s)\<rparr>)"

definition best_row_of :: "play \<Rightarrow> best_score" where
  "best_row_of p =
     \<lparr>b_user = pl_user p, b_score = pl_id p, b_beatmap = pl_beatmap p, b_mode = pl_mode p, b_pp = pl_pp p,
      b_acc = sd_accuracy (pl_data p)\<rparr>"

definition offer_best_pp :: "play \<Rightarrow> (profiles, unit) op" where
  "offer_best_pp p =
     bnd (gets (\<lambda>s. get_user_best_pp_in_beatmap s (pl_beatmap p) (pl_user p) (pl_mode p))) (\<lambda>previous.
     case previous of
       None \<Rightarrow> modify (\<lambda>s. s\<lparr>best_scores := best_scores s @ [best_row_of p]\<rparr>)
     | Some b \<Rightarrow>
         do_if (pl_pp p > b_pp b)
           (modify (\<lambda>s. s\<lparr>best_scores := del_row b_score (b_score b) (best_scores s) @ [best_row_of p]\<rparr>)))"

definition process_score_pp ::
  "score_config \<Rightarrow> (setting_rule \<Rightarrow> setting_value \<Rightarrow> bool) \<Rightarrow> (int \<Rightarrow> ranked_mods option) \<Rightarrow> (play \<Rightarrow> real option)
   \<Rightarrow> bool \<Rightarrow> play \<Rightarrow> (profiles, bool \<times> play) op" where
  "process_score_pp cfg accepts mod_rules points queue_on_failure p =
     (if \<not> can_get_pp cfg accepts mod_rules p
      then let p = p\<lparr>pl_pp := 0\<rparr> in seq (save_play p) (ret (True, p))
      else if pl_pp p \<noteq> 0 then seq (offer_best_pp p) (ret (True, p))
      else case points p of
        None \<Rightarrow>
          seq (do_if queue_on_failure (modify (\<lambda>s. s\<lparr>need_recalculate := need_recalculate s @ [pl_id p]\<rparr>)))
              (ret (False, p))
      | Some x \<Rightarrow>
          let p = p\<lparr>pl_pp := x\<rparr> in seq (save_play p) (seq (offer_best_pp p) (ret (True, p))))"

section \<open>Statistics of a play\<close>

definition change_grade_count :: "rank \<Rightarrow> int \<Rightarrow> user_statistics \<Rightarrow> user_statistics" where
  "change_grade_count r delta st =
     (if r \<in> {Rank_XH, Rank_X, Rank_SH, Rank_S, Rank_A, Rank_B, Rank_C, Rank_D}
      then st\<lparr>grades := (grades st)(r := max 0 (grades st r + delta))\<rparr> else st)"

definition statistics_key :: "user_statistics \<Rightarrow> int \<times> game_mode" where
  "statistics_key st = (us_user st, us_mode st)"

definition save_statistics :: "user_statistics \<Rightarrow> (profiles, unit) op" where
  "save_statistics st = modify (\<lambda>s. s\<lparr>statistics_rows := put_row statistics_key st (statistics_rows s)\<rparr>)"

definition display_score :: "score_config \<Rightarrow> play \<Rightarrow> error + int" where
  "display_score cfg p =
     get_display_score (mode_int (pl_mode p)) (pl_total p) (configured_scoring_mode cfg) (maximum_statistics (pl_data p))"

definition display_score_of_best :: "score_config \<Rightarrow> profiles \<Rightarrow> total_best option \<Rightarrow> error + int" where
  "display_score_of_best cfg s best =
     (case best of
        None \<Rightarrow> Inr 0
      | Some r \<Rightarrow> (case get_row pl_id (tb_score r) (plays s) of None \<Rightarrow> Inl KeyErr | Some p \<Rightarrow> display_score cfg p))"

text \<open>\<open>total_score\<close>, and for an improvement of the ranked score the grades, \<open>ranked_score\<close> and the level.\<close>

definition credit_score ::
  "bool \<Rightarrow> play \<Rightarrow> int \<Rightarrow> int \<Rightarrow> total_best option \<Rightarrow> user_statistics \<Rightarrow> user_statistics" where
  "credit_score counts p current difference best st =
     (let st = st\<lparr>us_total_score := us_total_score st + current\<rparr>;
          st = (if difference > 0 \<and> sd_passed (pl_data p) \<and> counts
                then let st = change_grade_count (pl_rank p) 1 st;
                         st = (case best of None \<Rightarrow> st | Some r \<Rightarrow> change_grade_count (tb_rank r) (-1) st)
                     in st\<lparr>ranked_score := ranked_score st + difference,
                           level_current := calculate_score_to_level (us_total_score st)\<rparr>
                else st)
      in if sd_passed (pl_data p) \<and> counts then st\<lparr>maximum_combo := max (maximum_combo st) (pl_max_combo p)\<rparr> else st)"

definition total_best_of :: "play \<Rightarrow> total_best" where
  "total_best_of p =
     \<lparr>tb_user = pl_user p, tb_score = pl_id p, tb_beatmap = pl_beatmap p, tb_mode = pl_mode p, tb_total = pl_total p,
      tb_mods = mod_to_save (sd_mods (pl_data p)), tb_rank = pl_rank p\<rparr>"

definition replace_best :: "total_best \<Rightarrow> play \<Rightarrow> total_best list \<Rightarrow> total_best list" where
  "replace_best r p rows =
     map (\<lambda>x. if tb_score x = tb_score r
              then x\<lparr>tb_total := pl_total p, tb_rank := pl_rank p, tb_score := pl_id p\<rparr> else x) rows"

text \<open>The four cases of the leaderboard rows: no row of the player on this map or none with these mods, the
  same row for both, two different rows.\<close>

definition record_total_best ::
  "play \<Rightarrow> int \<Rightarrow> total_best option \<Rightarrow> total_best option \<Rightarrow> total_best list \<Rightarrow> total_best list" where
  "record_total_best p difference best best_mod rows =
     (case (best, best_mod) of
        (Some g, Some m) \<Rightarrow>
          if tb_score g = tb_score m then (if difference > 0 then replace_best g p rows else rows)
          else let rows = (if difference > 0 then del_row tb_score (tb_score g) rows else rows)
               in if pl_total p - tb_total m > 0 then replace_best m p rows else rows
      | _ \<Rightarrow> rows @ [total_best_of p])"

definition count_up :: "int \<Rightarrow> 'k \<Rightarrow> ('k \<times> int) list \<Rightarrow> ('k \<times> int) list" where
  "count_up n k l = put_key k ((case map_of l k of None \<Rightarrow> 0 | Some c \<Rightarrow> c) + n) l"

definition process_beatmap_playcount :: "int \<Rightarrow> int \<Rightarrow> (profiles, unit) op" where
  "process_beatmap_playcount bm uid =
     modify (\<lambda>s. s\<lparr>beatmap_playcounts := count_up 1 (bm, uid) (beatmap_playcounts s)\<rparr>)"

definition month_key :: "int \<Rightarrow> play \<Rightarrow> int \<times> int \<times> int" where
  "month_key uid p = (let (y, m, d) = ord2ymd (pl_ended p div DAY + EPOCH_ORDINAL) in (uid, y, m))"

definition add_hits :: "play \<Rightarrow> user_statistics \<Rightarrow> user_statistics" where
  "add_hits p st =
     (let d = pl_data p;
          tick_miss = score_stat (nlarge_tick_miss d); small_hit = score_stat (nsmall_tick_hit d);
          large_hit = score_stat (nlarge_tick_hit d);
          st = st\<lparr>count_100 := count_100 st + (score_stat (n100 d) + score_stat (nkatu d)),
                  count_300 := count_300 st + (score_stat (n300 d) + score_stat (ngeki d)),
                  count_50 := count_50 st + score_stat (n50 d),
                  count_miss := count_miss st + score_stat (nmiss d),
                  total_hits := total_hits st
                    + (score_stat (n300 d) + score_stat (n100 d) + score_stat (n50 d) + score_stat (ngeki d) + score_stat (nkatu d)
                       + large_hit + tick_miss + small_hit)\<rparr>
      in if pl_mode p \<in> {FRUITS, FRUITSRX}
         then st\<lparr>count_miss := count_miss st + tick_miss, count_50 := count_50 st + small_hit,
                 count_100 := count_100 st + large_hit\<rparr>
         else st)"

definition has_pp_now :: "score_config \<Rightarrow> beatmap_policy \<Rightarrow> play \<Rightarrow> bool" where
  "has_pp_now cfg policy p \<longleftrightarrow> pl_ranked p \<and> (pp_enabled policy \<or> enable_all_beatmap_pp cfg)"

definition has_leaderboard_now :: "score_config \<Rightarrow> beatmap_policy \<Rightarrow> play \<Rightarrow> bool" where
  "has_leaderboard_now cfg policy p \<longleftrightarrow>
     pl_leaderboard_eligible p \<and> (leaderboard_enabled policy \<or> enable_all_beatmap_leaderboard cfg)"

definition is_ranked_now :: "score_config \<Rightarrow> beatmap_policy \<Rightarrow> play \<Rightarrow> bool" where
  "is_ranked_now cfg policy p \<longleftrightarrow>
     pl_ranked_score_eligible p \<and> ((status_ranked policy \<and> has_leaderboard_now cfg policy p) \<or> enable_all_beatmap_pp cfg)"

definition record_playtime :: "bool \<Rightarrow> int \<Rightarrow> play \<Rightarrow> int \<Rightarrow> real \<Rightarrow> user_statistics \<Rightarrow> (profiles, user_statistics) op" where
  "record_playtime emit tk p uid beatmap_length st =
     bnd (lift (calculate_playtime p beatmap_length)) (\<lambda>(playtime, is_valid).
       if is_valid then
         let st = st\<lparr>play_count := play_count st + 1, play_time := play_time st + playtime\<rparr> in
         seq (do_if emit (modify (\<lambda>s. s\<lparr>playtime_events := playtime_events s @ [(tk, playtime)]\<rparr>)))
         (seq (modify (\<lambda>s. s\<lparr>monthly_playcounts := count_up 1 (month_key uid p) (monthly_playcounts s)\<rparr>))
         (seq (process_beatmap_playcount (pl_beatmap p) uid) (seq (save_statistics st) (ret st))))
       else seq (modify (\<lambda>s. s\<lparr>monthly_playcounts := count_up 0 (month_key uid p) (monthly_playcounts s)\<rparr>)) (ret st))"

definition process_statistics ::
  "score_config \<Rightarrow> bool \<Rightarrow> int \<Rightarrow> int \<Rightarrow> real \<Rightarrow> beatmap_policy \<Rightarrow> play \<Rightarrow> (profiles, unit) op" where
  "process_statistics cfg emit tk uid beatmap_length policy p =
     (let g = pl_mode p; bm = pl_beatmap p; mod_for_save = mod_to_save (sd_mods (pl_data p)) in
      bnd (gets (\<lambda>s. get_user_best_score_in_beatmap s bm uid g)) (\<lambda>best.
      bnd (gets (\<lambda>s. get_user_best_score_with_mod_in_beatmap s bm uid mod_for_save g)) (\<lambda>best_mod.
      bnd (gets (\<lambda>s. get_row statistics_key (uid, g) (statistics_rows s))) (\<lambda>found.
      case found of
        None \<Rightarrow> throw (ValueErr ''User does not have statistics for mode'')
      | Some st \<Rightarrow>
          bnd (lift (display_score cfg p)) (\<lambda>current.
          bnd (gets (\<lambda>s. display_score_of_best cfg s best)) (\<lambda>shown.
          bnd (lift shown) (\<lambda>previous.
          let difference = current - previous;
              st = credit_score (is_ranked_now cfg policy p) p current difference best st
          in
          seq (save_statistics st)
          (seq (do_if (sd_passed (pl_data p) \<and> has_leaderboard_now cfg policy p)
                 (modify (\<lambda>s. s\<lparr>total_bests := record_total_best p difference best best_mod (total_bests s)\<rparr>)))
          (bnd (record_playtime emit tk p uid beatmap_length st) (\<lambda>st.
           let st = add_hits p st in
           seq (save_statistics st)
           (do_if (sd_passed (pl_data p) \<and> has_pp_now cfg policy p)
             (bnd (gets (\<lambda>s. calculate_user_pp s uid g)) (\<lambda>(pp, acc).
              save_statistics (st\<lparr>us_pp := pp, hit_accuracy := acc\<rparr>))))))))))))))"

definition process_user ::
  "score_config \<Rightarrow> (setting_rule \<Rightarrow> setting_value \<Rightarrow> bool) \<Rightarrow> (int \<Rightarrow> ranked_mods option) \<Rightarrow> (play \<Rightarrow> real option)
   \<Rightarrow> bool \<Rightarrow> bool \<Rightarrow> int \<Rightarrow> int \<Rightarrow> real \<Rightarrow> beatmap_policy \<Rightarrow> play \<Rightarrow> (profiles, bool) op" where
  "process_user cfg accepts mod_rules points queue_on_failure emit uid tk beatmap_length policy p =
     bnd (if has_pp_now cfg policy p then process_score_pp cfg accepts mod_rules points queue_on_failure p else ret (True, p))
       (\<lambda>(pp_ready, p).
        seq (process_statistics cfg emit tk uid beatmap_length policy p)
        (seq (save_play (p\<lparr>pl_processed := True\<rparr>)) (ret pp_ready)))"

section \<open>Rebuilding a profile\<close>

definition reset_statistics :: "user_statistics \<Rightarrow> user_statistics" where
  "reset_statistics st =
     st\<lparr>count_100 := 0, count_300 := 0, count_50 := 0, count_miss := 0, ranked_score := 0, us_total_score := 0,
        total_hits := 0, maximum_combo := 0, play_count := 0, play_time := 0, grades := (\<lambda>_. 0), us_pp := 0,
        hit_accuracy := 0, level_current := 1\<rparr>"

definition can_award_pp ::
  "score_config \<Rightarrow> (setting_rule \<Rightarrow> setting_value \<Rightarrow> bool) \<Rightarrow> (int \<Rightarrow> ranked_mods option) \<Rightarrow> (int \<Rightarrow> beatmap_policy) \<Rightarrow> play \<Rightarrow> bool" where
  "can_award_pp cfg accepts mod_rules policies p \<longleftrightarrow>
     sd_passed (pl_data p) \<and> pl_ranked p \<and> pl_ranked_score_eligible p
     \<and> (pp_enabled (policies (pl_beatmap p)) \<or> enable_all_beatmap_pp cfg)
     \<and> mods_can_get_pp_under (game cfg) accepts (mode_int (pl_mode p)) (sd_mods (pl_data p)) mod_rules
     \<and> pl_pp p > 0"

definition pp_best_step :: "(play \<Rightarrow> bool) \<Rightarrow> play \<Rightarrow> ((game_mode \<times> int) \<times> play) list \<Rightarrow> ((game_mode \<times> int) \<times> play) list" where
  "pp_best_step award p best =
     (if \<not> award p then best
      else let k = (pl_mode p, pl_beatmap p) in
        case map_of best k of
          None \<Rightarrow> put_key k p best
        | Some q \<Rightarrow> if pl_pp p > pl_pp q then put_key k p best else best)"

definition pp_best :: "(play \<Rightarrow> bool) \<Rightarrow> play list \<Rightarrow> ((game_mode \<times> int) \<times> play) list" where
  "pp_best award ps = fold (pp_best_step award) ps []"

definition processed_plays :: "int \<Rightarrow> profiles \<Rightarrow> play list" where
  "processed_plays uid s =
     sort_key (\<lambda>p. (pl_ended p, pl_id p)) (filter (\<lambda>p. pl_user p = uid \<and> pl_processed p) (plays s))"

definition forget_aggregates :: "int \<Rightarrow> profiles \<Rightarrow> profiles" where
  "forget_aggregates uid s =
     s\<lparr>best_scores := filter (\<lambda>b. b_user b \<noteq> uid) (best_scores s),
       total_bests := filter (\<lambda>r. tb_user r \<noteq> uid) (total_bests s),
       monthly_playcounts := filter (\<lambda>((u, y, m), n). u \<noteq> uid) (monthly_playcounts s),
       beatmap_playcounts := filter (\<lambda>((b, u), n). u \<noteq> uid) (beatmap_playcounts s),
       statistics_rows := map (\<lambda>st. if us_user st = uid then reset_statistics st else st) (statistics_rows s)\<rparr>"

definition rebuild_user_gameplay_aggregates ::
  "score_config \<Rightarrow> (setting_rule \<Rightarrow> setting_value \<Rightarrow> bool) \<Rightarrow> (int \<Rightarrow> ranked_mods option) \<Rightarrow> (int \<Rightarrow> beatmap_policy)
   \<Rightarrow> (int \<Rightarrow> real) \<Rightarrow> int \<Rightarrow> (profiles, unit) op" where
  "rebuild_user_gameplay_aggregates cfg accepts mod_rules policies hit_length uid =
     seq (modify (forget_aggregates uid))
     (bnd (gets (processed_plays uid)) (\<lambda>scores.
      seq (modify (\<lambda>s. s\<lparr>best_scores := best_scores s
            @ map (\<lambda>(k, p). (best_row_of p)\<lparr>b_user := uid\<rparr>) (pp_best (can_award_pp cfg accepts mod_rules policies) scores)\<rparr>))
      (for_each scores (\<lambda>p.
         process_statistics cfg False 0 uid (hit_length (pl_beatmap p)) (policies (pl_beatmap p)) p))))"

definition delete_user_score ::
  "score_config \<Rightarrow> (setting_rule \<Rightarrow> setting_value \<Rightarrow> bool) \<Rightarrow> (int \<Rightarrow> ranked_mods option) \<Rightarrow> (int \<Rightarrow> beatmap_policy)
   \<Rightarrow> (int \<Rightarrow> real) \<Rightarrow> int \<Rightarrow> int \<Rightarrow> (profiles, bool) op" where
  "delete_user_score cfg accepts mod_rules policies hit_length uid sid =
     bnd (gets (\<lambda>s. find (\<lambda>p. pl_id p = sid \<and> pl_user p = uid) (plays s))) (\<lambda>found.
     if found = None then ret False
     else seq (modify (\<lambda>s. s\<lparr>best_scores := del_row b_score sid (best_scores s),
                             total_bests := del_row tb_score sid (total_bests s),
                             plays := del_row pl_id sid (plays s)\<rparr>))
          (seq (rebuild_user_gameplay_aggregates cfg accepts mod_rules policies hit_length uid) (ret True)))"

end
