(* ===== verification/Reconcile.thy ===== *)
theory Reconcile
  imports Profiles
begin

text \<open>
  \<open>app/service/beatmap_ranking_reconciliation_service.py\<close> and \<open>BeatmapRankStatus\<close> (\<open>models/beatmap.py\<close>): which score
  features a change of the ranking policy retires, and the removal of the rows and contributions that
  depended on them.  Row locks only order concurrent writers and are left out, as is the invalidation of
  caches.
\<close>

section \<open>Statuses and policies\<close>

datatype rank_status = GRAVEYARD | WIP | PENDING | RANKED | APPROVED | QUALIFIED | LOVED

fun status_int :: "rank_status \<Rightarrow> int" where
  "status_int GRAVEYARD = -2" | "status_int WIP = -1" | "status_int PENDING = 0" | "status_int RANKED = 1"
| "status_int APPROVED = 2" | "status_int QUALIFIED = 3" | "status_int LOVED = 4"

definition has_leaderboard :: "rank_status \<Rightarrow> bool" where
  "has_leaderboard st \<longleftrightarrow> st \<in> {RANKED, APPROVED, QUALIFIED, LOVED}"

definition has_pp :: "rank_status \<Rightarrow> bool" where
  "has_pp st \<longleftrightarrow> st \<in> {RANKED, APPROVED}"

definition ranked_status :: "rank_status \<Rightarrow> bool" where
  "ranked_status st \<longleftrightarrow> st \<in> {RANKED, APPROVED, LOVED}"

datatype policy_source = UPSTREAM | FROM_BEATMAPSET | FROM_BEATMAP

record effective_policy =
  ep_status :: rank_status
  ep_leaderboard :: bool
  ep_pp :: bool
  ep_source :: policy_source

text \<open>What the score processing reads of a policy.\<close>

definition flags_of :: "effective_policy \<Rightarrow> beatmap_policy" where
  "flags_of e = \<lparr>status_ranked = ranked_status (ep_status e), leaderboard_enabled = ep_leaderboard e, pp_enabled = ep_pp e\<rparr>"

section \<open>Planning\<close>

record transition =
  tr_map :: int
  disable_leaderboard :: bool
  disable_pp :: bool
  disable_ranked_score :: bool
  reset_ranked_score_epoch :: bool

definition transition_of :: "bool \<Rightarrow> bool \<Rightarrow> int \<Rightarrow> effective_policy \<Rightarrow> effective_policy \<Rightarrow> transition" where
  "transition_of all_leaderboard all_pp bm previous current =
     (let previous_leaderboard = ep_leaderboard previous \<or> all_leaderboard;
          current_leaderboard = ep_leaderboard current \<or> all_leaderboard;
          previous_pp = ep_pp previous \<or> all_pp;
          current_pp = ep_pp current \<or> all_pp;
          previous_ranked = (ranked_status (ep_status previous) \<and> previous_leaderboard) \<or> all_pp;
          current_ranked = (ranked_status (ep_status current) \<and> current_leaderboard) \<or> all_pp
      in \<lparr>tr_map = bm, disable_leaderboard = previous_leaderboard \<and> \<not> current_leaderboard,
          disable_pp = previous_pp \<and> \<not> current_pp, disable_ranked_score = previous_ranked \<and> \<not> current_ranked,
          reset_ranked_score_epoch = \<not> previous_ranked \<and> current_ranked\<rparr>)"

definition retires :: "transition \<Rightarrow> bool" where
  "retires t \<longleftrightarrow> disable_leaderboard t \<or> disable_pp t \<or> disable_ranked_score t \<or> reset_ranked_score_epoch t"

definition plan_score_policy_transitions ::
  "bool \<Rightarrow> bool \<Rightarrow> (int \<times> effective_policy) list \<Rightarrow> (int \<times> effective_policy) list \<Rightarrow> error + transition list" where
  "plan_score_policy_transitions all_leaderboard all_pp before after =
     (if set (map fst before) \<noteq> set (map fst after)
      then Inl (ValueErr ''Before and after policy snapshots must cover the same beatmaps'')
      else Inr (filter retires
        (concat (map (\<lambda>bm.
           case (map_of before bm, map_of after bm) of
             (Some previous, Some current) \<Rightarrow> [transition_of all_leaderboard all_pp bm previous current]
           | _ \<Rightarrow> []) (sort (remdups (map fst before)))))))"

section \<open>Retiring contributions\<close>

definition better_row :: "total_best \<Rightarrow> total_best \<Rightarrow> bool" where
  "better_row row current \<longleftrightarrow>
     tb_total row > tb_total current \<or> tb_total row = tb_total current \<and> tb_score row < tb_score current"

definition global_best_step ::
  "total_best \<Rightarrow> ((int \<times> int \<times> game_mode) \<times> total_best) list \<Rightarrow> ((int \<times> int \<times> game_mode) \<times> total_best) list" where
  "global_best_step row best =
     (let k = (tb_user row, tb_beatmap row, tb_mode row) in
      case map_of best k of
        None \<Rightarrow> put_key k row best
      | Some current \<Rightarrow> if better_row row current then put_key k row best else best)"

definition global_best_rows :: "total_best list \<Rightarrow> ((int \<times> int \<times> game_mode) \<times> total_best) list" where
  "global_best_rows rows = fold global_best_step rows []"

definition retire_contribution ::
  "score_config \<Rightarrow> int list \<Rightarrow> (int \<times> int \<times> game_mode) \<times> total_best \<Rightarrow> (profiles, (int \<times> game_mode) list) op" where
  "retire_contribution cfg beatmap_ids = (\<lambda>((uid, bm, g), row).
     if bm \<notin> set beatmap_ids then ret []
     else bnd (gets (\<lambda>s. get_row statistics_key (uid, g) (statistics_rows s))) (\<lambda>found.
       case found of
         None \<Rightarrow> ret []
       | Some st \<Rightarrow>
           bnd (gets (\<lambda>s. display_score_of_best cfg s (Some row))) (\<lambda>shown.
           bnd (lift shown) (\<lambda>display.
           seq (save_statistics (change_grade_count (tb_rank row) (-1)
                 (st\<lparr>ranked_score := max 0 (ranked_score st - display)\<rparr>)))
               (ret [(uid, g)])))))"

definition retire_ranked_score_contributions ::
  "score_config \<Rightarrow> total_best list \<Rightarrow> int list \<Rightarrow> (profiles, (int \<times> game_mode) list) op" where
  "retire_ranked_score_contributions cfg rows beatmap_ids =
     bnd (collect (global_best_rows rows) (retire_contribution cfg beatmap_ids)) (\<lambda>found. ret (concat found))"

text \<open>The order of the rows of the statistics, \<open>_user_mode_sort_key\<close>.\<close>

definition user_mode_order :: "(int \<times> game_mode) list \<Rightarrow> (int \<times> game_mode) list" where
  "user_mode_order keys = sort_key (\<lambda>(uid, g). (uid, mode_int g, mode_value g)) (remdups keys)"

definition rebuilt_combo :: "profiles \<Rightarrow> int \<Rightarrow> game_mode \<Rightarrow> int" where
  "rebuilt_combo s uid g =
     (let combos = map pl_max_combo (filter (\<lambda>p. pl_user p = uid \<and> pl_mode p = g \<and> sd_passed (pl_data p)
                      \<and> pl_ranked_score_eligible p \<and> pl_snapshotted p) (plays s))
      in if combos = [] then 0 else Max (set combos))"

definition repair_maximum_combo :: "(int \<times> game_mode) list \<Rightarrow> (profiles, unit) op" where
  "repair_maximum_combo affected =
     for_each (user_mode_order affected) (\<lambda>(uid, g).
       bnd (gets (\<lambda>s. get_row statistics_key (uid, g) (statistics_rows s))) (\<lambda>found.
       case found of
         None \<Rightarrow> ret ()
       | Some st \<Rightarrow>
           bnd (gets (\<lambda>s. (rebuilt_combo s uid g,
                           list_ex (\<lambda>p. pl_user p = uid \<and> pl_mode p = g \<and> \<not> pl_snapshotted p) (plays s)))) (\<lambda>(rebuilt, legacy).
           save_statistics (st\<lparr>maximum_combo := (if legacy then max (maximum_combo st) rebuilt else rebuilt)\<rparr>))))"

definition repair_pp :: "(int \<times> game_mode) list \<Rightarrow> (profiles, unit) op" where
  "repair_pp affected =
     for_each (user_mode_order affected) (\<lambda>(uid, g).
       bnd (gets (\<lambda>s. get_row statistics_key (uid, g) (statistics_rows s))) (\<lambda>found.
       case found of
         None \<Rightarrow> ret ()
       | Some st \<Rightarrow>
           bnd (gets (\<lambda>s. calculate_user_pp s uid g)) (\<lambda>(pp, acc).
           save_statistics (st\<lparr>us_pp := pp, hit_accuracy := acc\<rparr>))))"

section \<open>Reconciliation\<close>

record reconciliation =
  leaderboard_rows_removed :: nat
  pp_rows_removed :: nat
  contributions_removed :: nat
  affected_user_modes :: "(int \<times> game_mode) set"

definition retract_play :: "int list \<Rightarrow> int list \<Rightarrow> int list \<Rightarrow> play \<Rightarrow> play" where
  "retract_play clear_leaderboard pp_beatmaps clear_ranked p =
     (let p = (if pl_beatmap p \<in> set clear_leaderboard
               then p\<lparr>pl_leaderboard_eligible := False, pl_ranked_score_eligible := False\<rparr> else p);
          p = (if pl_beatmap p \<in> set pp_beatmaps then p\<lparr>pl_ranked := False, pl_pp := 0\<rparr> else p)
      in if pl_beatmap p \<in> set clear_ranked then p\<lparr>pl_ranked_score_eligible := False\<rparr> else p)"

definition reconcile_disabled_score_features ::
  "score_config \<Rightarrow> transition list \<Rightarrow> (profiles, reconciliation) op" where
  "reconcile_disabled_score_features cfg transitions =
     (let leaderboard_beatmaps = map tr_map (filter (\<lambda>t. disable_leaderboard t \<or> reset_ranked_score_epoch t) transitions);
          pp_beatmaps = map tr_map (filter disable_pp transitions);
          ranked_beatmaps = map tr_map (filter disable_ranked_score transitions);
          reset_beatmaps = map tr_map (filter reset_ranked_score_epoch transitions);
          pending_beatmaps = map tr_map (filter retires transitions)
      in if leaderboard_beatmaps = [] \<and> pp_beatmaps = [] \<and> ranked_beatmaps = [] \<and> pending_beatmaps = []
      then ret \<lparr>leaderboard_rows_removed = 0, pp_rows_removed = 0, contributions_removed = 0, affected_user_modes = {}\<rparr>
      else
        bnd (gets (\<lambda>s. map (\<lambda>p. (pl_user p, pl_mode p))
               (filter (\<lambda>p. pl_beatmap p \<in> set pending_beatmaps \<and> \<not> pl_processed p) (plays s)))) (\<lambda>pending.
        seq (modify (\<lambda>s. s\<lparr>plays := map (retract_play (leaderboard_beatmaps @ reset_beatmaps) pp_beatmaps
               (ranked_beatmaps @ reset_beatmaps)) (plays s)\<rparr>))
        (bnd (gets (\<lambda>s. filter (\<lambda>r. tb_beatmap r \<in> set (leaderboard_beatmaps @ ranked_beatmaps)) (total_bests s))) (\<lambda>association.
        bnd (gets (\<lambda>s. filter (\<lambda>b. b_beatmap b \<in> set pp_beatmaps) (best_scores s))) (\<lambda>pp_rows.
        let leaderboard_rows = filter (\<lambda>r. tb_beatmap r \<in> set leaderboard_beatmaps) association;
            leaderboard_modes = map (\<lambda>r. (tb_user r, tb_mode r)) leaderboard_rows;
            pp_modes = map (\<lambda>b. (b_user b, b_mode b)) pp_rows
        in
        bnd (retire_ranked_score_contributions cfg association ranked_beatmaps) (\<lambda>removed.
        seq (modify (\<lambda>s. s\<lparr>total_bests := filter (\<lambda>r. tb_score r \<notin> tb_score ` set leaderboard_rows) (total_bests s),
                           best_scores := filter (\<lambda>b. b_score b \<notin> b_score ` set pp_rows) (best_scores s)\<rparr>))
        (seq (repair_maximum_combo (leaderboard_modes @ removed))
        (seq (repair_pp pp_modes)
        (ret \<lparr>leaderboard_rows_removed = length leaderboard_rows, pp_rows_removed = length pp_rows,
              contributions_removed = length removed,
              affected_user_modes = set leaderboard_modes \<union> set pp_modes \<union> set removed \<union> set pending\<rparr>)))))))))"

end
