(* ===== verification/RankPolicies.thy ===== *)
theory RankPolicies
  imports Reconcile Pytext
begin

text \<open>
  \<open>app/service/beatmap_ranking_service.py\<close> over the tables of \<open>app/database/beatmap_ranking.py\<close>: local ranking
  decisions on beatmapsets and difficulties, their resolution against the upstream status, and their
  invalidation when the upstream revision changes.

  The state holds the cached difficulties, the policies, the operator events, the audit trail and the score
  tables that a change reconciles.  The audit stores the policy row before and after, as \<open>_policy_snapshot\<close>
  does.  \<open>LookupError\<close> is \<open>KeyErr\<close>.  The activity message of \<open>stage_local_map_release\<close> and the
  invalidation of caches are left out.
\<close>

section \<open>Tables\<close>

record beatmapset_row =
  bs_id :: int
  bs_status :: rank_status
  bs_updated :: time

record difficulty =
  df_id :: int
  df_set :: int
  df_checksum :: string
  df_status :: rank_status
  df_updated :: time
  df_deleted :: bool

text \<open>The manifest of the last synchronisation with upstream, \<open>app/database/beatmap_sync.py\<close>.\<close>

record saved_meta =
  sm_map :: int
  sm_md5 :: string
  sm_deleted :: bool
  sm_status :: rank_status

record sync_record =
  sy_set :: int
  sy_maps :: "saved_meta list"
  sy_status :: rank_status
  sy_no_change :: nat
  sy_next :: time

record set_policy =
  sp_set :: int
  sp_status :: rank_status
  sp_leaderboard :: bool
  sp_pp :: bool
  sp_force :: bool
  sp_manifest :: "(int \<times> string) list"
  sp_active :: bool
  sp_reason :: string
  sp_updated_by :: "int option"
  sp_updated :: time

record map_policy =
  mp_map :: int
  mp_set :: int
  mp_status :: rank_status
  mp_leaderboard :: bool
  mp_pp :: bool
  mp_force :: bool
  mp_blocks :: bool
  mp_checksum :: string
  mp_active :: bool
  mp_reason :: string
  mp_invalidated :: "time option"
  mp_updated_by :: "int option"
  mp_updated :: time

datatype any_policy = OfSet set_policy | OfMap map_policy

datatype policy_scope = Scope_set | Scope_map

datatype policy_action = APPLY | CLEAR | INVALIDATE | RESOLVE_EVENT

record audit =
  au_action :: policy_action
  au_scope :: policy_scope
  au_set :: int
  au_map :: "int option"
  au_actor :: "int option"
  au_reason :: string
  au_before :: "any_policy option"
  au_after :: "any_policy option"
  au_created :: time

record ranking_event =
  ev_id :: int
  ev_scope :: policy_scope
  ev_set :: int
  ev_map :: int
  ev_old_checksum :: "string option"
  ev_new_checksum :: "string option"
  ev_change_count :: int
  ev_created :: time
  ev_resolved :: "time option"
  ev_resolved_by :: "int option"

record ranking_db =
  beatmapsets :: "beatmapset_row list"
  difficulties :: "difficulty list"
  set_policies :: "set_policy list"
  map_policies :: "map_policy list"
  ranking_events :: "ranking_event list"
  audits :: "audit list"
  sync_records :: "sync_record list"
  score_tables :: profiles

text \<open>An operation on the score tables, inside the session.\<close>

definition on_scores :: "(profiles, 'a) op \<Rightarrow> (ranking_db, 'a) op" where
  "on_scores m s = (case m (score_tables s) of (r, t) \<Rightarrow> (r, s\<lparr>score_tables := t\<rparr>))"

section \<open>Resolution\<close>

definition normalise_reason :: "string \<Rightarrow> string" where
  "normalise_reason why = (if py_strip why = [] then ''no reason'' else py_strip why)"

definition resolve_flags :: "rank_status \<Rightarrow> bool option \<Rightarrow> bool option \<Rightarrow> error + bool \<times> bool" where
  "resolve_flags st leaderboard_flag pp_flag =
     (let leaderboard = (case leaderboard_flag of None \<Rightarrow> has_leaderboard st | Some b \<Rightarrow> b);
          pp = (case pp_flag of None \<Rightarrow> has_pp st | Some b \<Rightarrow> b)
      in if pp \<and> \<not> leaderboard then Inl (ValueErr ''PP cannot be enabled when the beatmap leaderboard is disabled'')
         else if leaderboard \<noteq> has_leaderboard st \<or> pp \<noteq> has_pp st
         then Inl (ValueErr (''Local score flags must match lazer semantics: Ranked enables leaderboard and PP; ''
           @ ''Loved enables leaderboard without PP''))
         else Inr (leaderboard, pp))"

definition status_policy :: "rank_status \<Rightarrow> policy_source \<Rightarrow> effective_policy" where
  "status_policy st src = \<lparr>ep_status = st, ep_leaderboard = has_leaderboard st, ep_pp = has_pp st, ep_source = src\<rparr>"

definition is_effective_local_rank :: "effective_policy \<Rightarrow> bool" where
  "is_effective_local_rank e \<longleftrightarrow> ep_source e \<noteq> UPSTREAM \<and> ep_leaderboard e"

definition difficulty_policy_applies :: "map_policy \<Rightarrow> string \<Rightarrow> bool" where
  "difficulty_policy_applies p ck \<longleftrightarrow> mp_active p \<and> (mp_force p \<or> mp_blocks p \<or> mp_checksum p = ck)"

definition set_policy_applies_to_difficulty :: "set_policy \<Rightarrow> int \<Rightarrow> string \<Rightarrow> bool \<Rightarrow> bool" where
  "set_policy_applies_to_difficulty p bm ck pending \<longleftrightarrow>
     (if \<not> sp_active p then False
      else if sp_force p then True
      else map_of (sp_manifest p) bm = Some ck \<and> \<not> pending)"

definition pending_set_event :: "ranking_db \<Rightarrow> difficulty \<Rightarrow> bool" where
  "pending_set_event s d \<longleftrightarrow>
     list_ex (\<lambda>e. ev_scope e = Scope_set \<and> ev_resolved e = None \<and> ev_map e = df_id d \<and> ev_set e = df_set d) (ranking_events s)"

definition effective_beatmap_policy :: "ranking_db \<Rightarrow> difficulty \<Rightarrow> effective_policy" where
  "effective_beatmap_policy s d =
     (if df_deleted d then status_policy GRAVEYARD UPSTREAM
      else
        let inherit =
          (case get_row sp_set (df_set d) (set_policies s) of
             None \<Rightarrow> status_policy (df_status d) UPSTREAM
           | Some p \<Rightarrow>
               if set_policy_applies_to_difficulty p (df_id d) (df_checksum d) (pending_set_event s d)
               then \<lparr>ep_status = sp_status p, ep_leaderboard = sp_leaderboard p, ep_pp = sp_pp p, ep_source = FROM_BEATMAPSET\<rparr>
               else status_policy (df_status d) UPSTREAM)
        in case get_row mp_map (df_id d) (map_policies s) of
             None \<Rightarrow> inherit
           | Some p \<Rightarrow>
               if \<not> difficulty_policy_applies p (df_checksum d) then inherit
               else if \<not> mp_force p \<and> mp_blocks p then status_policy (df_status d) UPSTREAM
               else \<lparr>ep_status = mp_status p, ep_leaderboard = mp_leaderboard p, ep_pp = mp_pp p, ep_source = FROM_BEATMAP\<rparr>)"

definition get_effective_beatmap_policies :: "ranking_db \<Rightarrow> difficulty list \<Rightarrow> (int \<times> effective_policy) list" where
  "get_effective_beatmap_policies s ds = map (\<lambda>d. (df_id d, effective_beatmap_policy s d)) ds"

fun status_priority :: "rank_status \<Rightarrow> nat" where
  "status_priority RANKED = 7" | "status_priority APPROVED = 6" | "status_priority LOVED = 5"
| "status_priority QUALIFIED = 4" | "status_priority PENDING = 3" | "status_priority WIP = 2" | "status_priority GRAVEYARD = 1"

text \<open>\<open>max\<close> returns the first policy of the highest priority.\<close>

fun strongest_policy :: "effective_policy list \<Rightarrow> effective_policy option" where
  "strongest_policy [] = None"
| "strongest_policy (e # es) =
     (case strongest_policy es of
        None \<Rightarrow> Some e
      | Some f \<Rightarrow> if status_priority (ep_status f) > status_priority (ep_status e) then Some f else Some e)"

definition aggregate_effective_difficulties :: "effective_policy list \<Rightarrow> error + rank_status \<times> bool \<times> bool" where
  "aggregate_effective_difficulties es =
     (case strongest_policy es of
        None \<Rightarrow> Inl (ValueErr ''At least one effective difficulty policy is required'')
      | Some e \<Rightarrow> Inr (ep_status e, list_ex ep_leaderboard es, list_ex ep_pp es))"

definition get_effective_beatmapset_policy :: "ranking_db \<Rightarrow> int \<Rightarrow> rank_status \<Rightarrow> error + effective_policy \<times> nat" where
  "get_effective_beatmapset_policy s bs upstream =
     (let effective = map (effective_beatmap_policy s) (filter (\<lambda>d. df_set d = bs) (difficulties s));
          inherited = filter (\<lambda>e. ep_source e = FROM_BEATMAPSET) effective;
          overrides = filter (\<lambda>e. ep_source e = FROM_BEATMAP) effective;
          default = (if overrides \<noteq> []
            then (case aggregate_effective_difficulties effective of
                    Inl e \<Rightarrow> Inl e
                  | Inr (st, leaderboard, pp) \<Rightarrow>
                      Inr (\<lparr>ep_status = st, ep_leaderboard = leaderboard, ep_pp = pp, ep_source = FROM_BEATMAP\<rparr>, length overrides))
            else Inr (status_policy upstream UPSTREAM, 0))
      in case get_row sp_set bs (set_policies s) of
           None \<Rightarrow> default
         | Some p \<Rightarrow>
             if sp_active p \<and> inherited \<noteq> []
             then Inr (\<lparr>ep_status = sp_status p, ep_leaderboard = sp_leaderboard p, ep_pp = sp_pp p, ep_source = FROM_BEATMAPSET\<rparr>,
                       length inherited + length overrides)
             else default)"

definition beatmapset_has_active_local_rank :: "ranking_db \<Rightarrow> int \<Rightarrow> bool" where
  "beatmapset_has_active_local_rank s bs \<longleftrightarrow>
     (case get_row sp_set bs (set_policies s) of Some p \<Rightarrow> sp_active p | None \<Rightarrow> False)
     \<or> list_ex (\<lambda>p. mp_set p = bs \<and> mp_active p \<and> \<not> mp_blocks p) (map_policies s)"

definition beatmapset_has_pending_local_rank_review :: "ranking_db \<Rightarrow> int \<Rightarrow> bool" where
  "beatmapset_has_pending_local_rank_review s bs \<longleftrightarrow> list_ex (\<lambda>e. ev_set e = bs \<and> ev_resolved e = None) (ranking_events s)"

section \<open>Shared steps\<close>

definition LOCAL_RANK_MAX_SYNC_INTERVAL :: time where
  "LOCAL_RANK_MAX_SYNC_INTERVAL = seconds (6 * 3600)"

definition saved_of :: "difficulty \<Rightarrow> saved_meta" where
  "saved_of d = \<lparr>sm_map = df_id d, sm_md5 = df_checksum d, sm_deleted = df_deleted d, sm_status = df_status d\<rparr>"

definition schedule_local_rank_sync :: "int \<Rightarrow> time \<Rightarrow> (ranking_db, unit) op" where
  "schedule_local_rank_sync bs t =
     modify (\<lambda>s. let deadline = t + LOCAL_RANK_MAX_SYNC_INTERVAL in
       case get_row sy_set bs (sync_records s) of
         None \<Rightarrow>
           (case get_row bs_id bs (beatmapsets s) of
              None \<Rightarrow> s
            | Some b \<Rightarrow> s\<lparr>sync_records := put_row sy_set
                \<lparr>sy_set = bs, sy_maps = map saved_of (filter (\<lambda>d. df_set d = bs) (difficulties s)), sy_status = bs_status b,
                 sy_no_change = 0, sy_next = deadline\<rparr> (sync_records s)\<rparr>)
       | Some r \<Rightarrow>
           if sy_next r > deadline then s\<lparr>sync_records := put_row sy_set (r\<lparr>sy_next := deadline\<rparr>) (sync_records s)\<rparr> else s)"

definition resolve_events :: "int \<Rightarrow> int \<Rightarrow> int option \<Rightarrow> time \<Rightarrow> (ranking_db, unit) op" where
  "resolve_events actor bs bm t =
     modify (\<lambda>s. s\<lparr>ranking_events := map (\<lambda>e.
       if ev_set e = bs \<and> ev_resolved e = None \<and> (case bm of None \<Rightarrow> True | Some b \<Rightarrow> ev_map e = b)
       then e\<lparr>ev_resolved := Some t, ev_resolved_by := Some actor\<rparr> else e) (ranking_events s)\<rparr>)"

definition add_audit ::
  "policy_action \<Rightarrow> policy_scope \<Rightarrow> int \<Rightarrow> int option \<Rightarrow> int option \<Rightarrow> string \<Rightarrow> any_policy option \<Rightarrow> any_policy option \<Rightarrow> time
   \<Rightarrow> (ranking_db, unit) op" where
  "add_audit action scope bs bm actor why old new t =
     modify (\<lambda>s. s\<lparr>audits := audits s @ [\<lparr>au_action = action, au_scope = scope, au_set = bs, au_map = bm, au_actor = actor,
       au_reason = why, au_before = old, au_after = new, au_created = t\<rparr>]\<rparr>)"

definition save_set_policy :: "set_policy \<Rightarrow> (ranking_db, unit) op" where
  "save_set_policy p = modify (\<lambda>s. s\<lparr>set_policies := put_row sp_set p (set_policies s)\<rparr>)"

definition save_map_policy :: "map_policy \<Rightarrow> (ranking_db, unit) op" where
  "save_map_policy p = modify (\<lambda>s. s\<lparr>map_policies := put_row mp_map p (map_policies s)\<rparr>)"

definition finish_manual_policy_change ::
  "score_config \<Rightarrow> int list \<Rightarrow> (int \<times> effective_policy) list \<Rightarrow> (ranking_db, reconciliation) op" where
  "finish_manual_policy_change cfg affected before =
     bnd (gets (\<lambda>s. get_effective_beatmap_policies s (filter (\<lambda>d. df_id d \<in> set affected) (difficulties s)))) (\<lambda>after.
     bnd (lift (plan_score_policy_transitions (enable_all_beatmap_leaderboard cfg) (enable_all_beatmap_pp cfg) before after)) (\<lambda>ts.
     on_scores (reconcile_disabled_score_features cfg ts)))"

definition live_difficulties :: "ranking_db \<Rightarrow> int \<Rightarrow> difficulty list" where
  "live_difficulties s bs = filter (\<lambda>d. df_set d = bs \<and> \<not> df_deleted d) (difficulties s)"

definition target_difficulty :: "int \<Rightarrow> int \<Rightarrow> string \<Rightarrow> (ranking_db, difficulty) op" where
  "target_difficulty bs bm verb =
     bnd (gets (\<lambda>s. get_row df_id bm (difficulties s))) (\<lambda>found.
     case found of
       None \<Rightarrow> throw KeyErr
     | Some d \<Rightarrow>
         if df_set d \<noteq> bs then throw (ValueErr (''Beatmap '' @ int_str bm @ '' does not belong to beatmapset '' @ int_str bs))
         else if df_deleted d then throw (ValueErr (''Beatmap '' @ int_str bm @ '' is deleted and cannot be '' @ verb))
         else ret d)"

definition lock_beatmapset :: "int \<Rightarrow> (ranking_db, unit) op" where
  "lock_beatmapset bs =
     bnd (gets (\<lambda>s. get_row bs_id bs (beatmapsets s))) (\<lambda>found. case found of None \<Rightarrow> throw KeyErr | Some _ \<Rightarrow> ret ())"

section \<open>Applying a local rank\<close>

text \<open>\<open>replace_difficulty_overrides\<close>: every active exception of a difficulty is switched off.\<close>

definition clear_overrides :: "int \<Rightarrow> int \<Rightarrow> string \<Rightarrow> time \<Rightarrow> (ranking_db, unit) op" where
  "clear_overrides actor bs why t =
     bnd (gets (\<lambda>s. filter (\<lambda>p. mp_set p = bs \<and> mp_active p) (map_policies s))) (\<lambda>active.
     for_each active (\<lambda>p.
       let q = p\<lparr>mp_active := False, mp_reason := why, mp_updated_by := Some actor, mp_updated := t\<rparr> in
       seq (save_map_policy q) (add_audit CLEAR Scope_map bs (Some (mp_map p)) (Some actor) why (Some (OfMap p)) (Some (OfMap q)) t)))"

definition new_set_policy :: "int \<Rightarrow> int \<Rightarrow> rank_status \<Rightarrow> bool \<Rightarrow> bool \<Rightarrow> bool \<Rightarrow> difficulty list \<Rightarrow> string \<Rightarrow> time \<Rightarrow> set_policy" where
  "new_set_policy actor bs st leaderboard pp force ds why t =
     \<lparr>sp_set = bs, sp_status = st, sp_leaderboard = leaderboard, sp_pp = pp, sp_force = force,
      sp_manifest = map (\<lambda>d. (df_id d, df_checksum d)) ds, sp_active = True, sp_reason = why,
      sp_updated_by = Some actor, sp_updated = t\<rparr>"

definition apply_to_set ::
  "int \<Rightarrow> int \<Rightarrow> rank_status \<Rightarrow> bool \<Rightarrow> bool \<Rightarrow> bool \<Rightarrow> bool \<Rightarrow> string \<Rightarrow> time
   \<Rightarrow> (ranking_db, any_policy option \<times> any_policy \<times> int list \<times> (int \<times> effective_policy) list) op" where
  "apply_to_set actor bs st leaderboard pp force replace why t =
     bnd (gets (\<lambda>s. live_difficulties s bs)) (\<lambda>ds.
     if ds = [] then throw (ValueErr (''Beatmapset '' @ int_str bs @ '' has no cached difficulties to rank''))
     else
       bnd (gets (\<lambda>s. get_effective_beatmap_policies s ds)) (\<lambda>effective_before.
       seq (do_if replace (clear_overrides actor bs why t))
       (bnd (gets (\<lambda>s. get_row sp_set bs (set_policies s))) (\<lambda>old.
        let p = new_set_policy actor bs st leaderboard pp force ds why t in
        seq (save_set_policy p)
        (seq (resolve_events actor bs None t)
        (ret (map_option OfSet old, OfSet p, map df_id ds, effective_before)))))))"

definition new_map_policy ::
  "int \<Rightarrow> difficulty \<Rightarrow> rank_status \<Rightarrow> bool \<Rightarrow> bool \<Rightarrow> bool \<Rightarrow> bool \<Rightarrow> string \<Rightarrow> time \<Rightarrow> map_policy option \<Rightarrow> map_policy" where
  "new_map_policy actor d st leaderboard pp force blocks why t old =
     \<lparr>mp_map = df_id d, mp_set = (case old of None \<Rightarrow> df_set d | Some p \<Rightarrow> mp_set p), mp_status = st,
      mp_leaderboard = leaderboard, mp_pp = pp, mp_force = force, mp_blocks = blocks, mp_checksum = df_checksum d,
      mp_active = True, mp_reason = why, mp_invalidated = None, mp_updated_by = Some actor, mp_updated = t\<rparr>"

definition apply_to_map ::
  "int \<Rightarrow> int \<Rightarrow> int \<Rightarrow> rank_status \<Rightarrow> bool \<Rightarrow> bool \<Rightarrow> bool \<Rightarrow> string \<Rightarrow> time
   \<Rightarrow> (ranking_db, any_policy option \<times> any_policy \<times> int list \<times> (int \<times> effective_policy) list) op" where
  "apply_to_map actor bs bm st leaderboard pp force why t =
     bnd (target_difficulty bs bm ''ranked'') (\<lambda>d.
     bnd (gets (\<lambda>s. get_effective_beatmap_policies s [d])) (\<lambda>effective_before.
     bnd (gets (\<lambda>s. get_row mp_map bm (map_policies s))) (\<lambda>old.
     let p = new_map_policy actor d st leaderboard pp force False why t old in
     seq (save_map_policy p)
     (seq (resolve_events actor bs (Some bm) t)
     (ret (map_option OfMap old, OfMap p, [df_id d], effective_before))))))"

definition apply_local_rank ::
  "score_config \<Rightarrow> int \<Rightarrow> time \<Rightarrow> int \<Rightarrow> rank_status \<Rightarrow> string \<Rightarrow> int option \<Rightarrow> bool option \<Rightarrow> bool option \<Rightarrow> bool \<Rightarrow> bool
   \<Rightarrow> (ranking_db, any_policy) op" where
  "apply_local_rank cfg actor t bs st why bm leaderboard_flag pp_flag force replace =
     transaction (
     let why = normalise_reason why in
     bnd (lift (resolve_flags st leaderboard_flag pp_flag)) (\<lambda>(leaderboard, pp).
     if force \<and> (leaderboard \<or> pp) then throw (ValueErr ''A forced local unrank must disable leaderboard and PP'')
     else
       seq (lock_beatmapset bs)
       (bnd (case bm of None \<Rightarrow> apply_to_set actor bs st leaderboard pp force replace why t
                      | Some b \<Rightarrow> apply_to_map actor bs b st leaderboard pp force why t)
          (\<lambda>(old, p, affected, effective_before).
        seq (add_audit APPLY (case bm of None \<Rightarrow> Scope_set | Some _ \<Rightarrow> Scope_map) bs bm (Some actor) why old (Some p) t)
        (seq (schedule_local_rank_sync bs t)
        (bnd (finish_manual_policy_change cfg affected effective_before) (\<lambda>_. ret p)))))))"

section \<open>Removing a local rank\<close>

definition unrank_map :: "score_config \<Rightarrow> int \<Rightarrow> time \<Rightarrow> int \<Rightarrow> string \<Rightarrow> int \<Rightarrow> (ranking_db, any_policy) op" where
  "unrank_map cfg actor t bs why bm =
     bnd (target_difficulty bs bm ''unranked'') (\<lambda>d.
     bnd (gets (\<lambda>s. get_effective_beatmap_policies s [d])) (\<lambda>effective_before.
     bnd (gets (\<lambda>s. effective_beatmap_policy s d)) (\<lambda>current.
     if \<not> is_effective_local_rank current
     then apply_local_rank cfg actor t bs GRAVEYARD why (Some bm) (Some False) (Some False) True False
     else
       bnd (gets (\<lambda>s. get_row mp_map bm (map_policies s))) (\<lambda>old.
       let st = df_status d;
           p = new_map_policy actor d st (has_leaderboard st) (has_pp st) False True why t old
       in
       seq (save_map_policy p)
       (seq (resolve_events actor bs (Some bm) t)
       (seq (add_audit CLEAR Scope_map bs (Some bm) (Some actor) why (map_option OfMap old) (Some (OfMap p)) t)
       (bnd (finish_manual_policy_change cfg [df_id d] effective_before) (\<lambda>_. ret (OfMap p)))))))))"

definition deactivate :: "int \<Rightarrow> string \<Rightarrow> time \<Rightarrow> any_policy \<Rightarrow> any_policy" where
  "deactivate actor why t p =
     (case p of
        OfSet q \<Rightarrow> OfSet (q\<lparr>sp_active := False, sp_reason := why, sp_updated_by := Some actor, sp_updated := t\<rparr>)
      | OfMap q \<Rightarrow> OfMap (q\<lparr>mp_active := False, mp_reason := why, mp_updated_by := Some actor, mp_updated := t\<rparr>))"

definition save_policy :: "any_policy \<Rightarrow> (ranking_db, unit) op" where
  "save_policy p = (case p of OfSet q \<Rightarrow> save_set_policy q | OfMap q \<Rightarrow> save_map_policy q)"

definition clear_policy :: "int \<Rightarrow> int \<Rightarrow> string \<Rightarrow> time \<Rightarrow> any_policy \<Rightarrow> (ranking_db, unit) op" where
  "clear_policy actor bs why t p =
     seq (save_policy (deactivate actor why t p))
       (case p of
          OfSet q \<Rightarrow> add_audit CLEAR Scope_set bs None (Some actor) why (Some p) (Some (deactivate actor why t p)) t
        | OfMap q \<Rightarrow> add_audit CLEAR Scope_map bs (Some (mp_map q)) (Some actor) why (Some p) (Some (deactivate actor why t p)) t)"

definition policies_to_clear :: "ranking_db \<Rightarrow> int \<Rightarrow> bool \<Rightarrow> int list \<Rightarrow> any_policy list" where
  "policies_to_clear s bs replace locally_ranked =
     (case get_row sp_set bs (set_policies s) of
        Some p \<Rightarrow> if sp_active p \<and> \<not> sp_force p then [OfSet p] else []
      | None \<Rightarrow> [])
     @ map OfMap (filter (\<lambda>p. mp_set p = bs \<and> mp_active p \<and> (replace \<or> mp_map p \<in> set locally_ranked)) (map_policies s))"

definition unrank_set :: "score_config \<Rightarrow> int \<Rightarrow> time \<Rightarrow> int \<Rightarrow> string \<Rightarrow> bool \<Rightarrow> (ranking_db, any_policy) op" where
  "unrank_set cfg actor t bs why replace =
     bnd (gets (\<lambda>s. live_difficulties s bs)) (\<lambda>ds.
     if ds = [] then throw (ValueErr (''Beatmapset '' @ int_str bs @ '' has no cached difficulties to unrank''))
     else
       bnd (gets (\<lambda>s. get_effective_beatmap_policies s ds)) (\<lambda>effective_before.
       let locally_ranked = map fst (filter (\<lambda>(b, e). is_effective_local_rank e) effective_before) in
       if locally_ranked = []
       then apply_local_rank cfg actor t bs GRAVEYARD why None (Some False) (Some False) True replace
       else
         bnd (gets (\<lambda>s. policies_to_clear s bs replace locally_ranked)) (\<lambda>old.
         case old of
           [] \<Rightarrow> throw (ValueErr (''Beatmapset '' @ int_str bs @ '' has no active local rank to remove''))
         | first # _ \<Rightarrow>
             seq (for_each old (clear_policy actor bs why t))
             (seq (resolve_events actor bs None t)
             (bnd (finish_manual_policy_change cfg (map df_id ds) effective_before) (\<lambda>_.
              ret (deactivate actor why t first)))))))"

definition apply_local_unrank ::
  "score_config \<Rightarrow> int \<Rightarrow> time \<Rightarrow> int \<Rightarrow> string \<Rightarrow> int option \<Rightarrow> bool \<Rightarrow> (ranking_db, any_policy) op" where
  "apply_local_unrank cfg actor t bs why bm replace =
     transaction (
     let why = normalise_reason why in
     seq (lock_beatmapset bs)
       (case bm of None \<Rightarrow> unrank_set cfg actor t bs why replace | Some b \<Rightarrow> unrank_map cfg actor t bs why b))"

definition clear_local_rank :: "score_config \<Rightarrow> int \<Rightarrow> time \<Rightarrow> int \<Rightarrow> string \<Rightarrow> int option \<Rightarrow> (ranking_db, any_policy) op" where
  "clear_local_rank cfg actor t bs why bm =
     transaction (
     let why = normalise_reason why in
     seq (lock_beatmapset bs)
     (bnd (case bm of
             None \<Rightarrow>
               bnd (gets (\<lambda>s. get_row sp_set bs (set_policies s))) (\<lambda>found.
               case found of
                 None \<Rightarrow> throw KeyErr
               | Some p \<Rightarrow> bnd (gets (\<lambda>s. live_difficulties s bs)) (\<lambda>ds. ret (OfSet p, ds)))
           | Some b \<Rightarrow>
               bnd (target_difficulty bs b ''unranked'') (\<lambda>d.
               bnd (gets (\<lambda>s. get_row mp_map b (map_policies s))) (\<lambda>found.
               case found of None \<Rightarrow> throw KeyErr | Some p \<Rightarrow> ret (OfMap p, [d]))))
        (\<lambda>(old, ds).
         bnd (gets (\<lambda>s. get_effective_beatmap_policies s ds)) (\<lambda>effective_before.
         let p = deactivate actor why t old in
         seq (save_policy p)
         (seq (resolve_events actor bs bm t)
         (seq (add_audit CLEAR (case bm of None \<Rightarrow> Scope_set | Some _ \<Rightarrow> Scope_map) bs bm (Some actor) why (Some old) (Some p) t)
         (bnd (finish_manual_policy_change cfg (map df_id ds) effective_before) (\<lambda>_. ret p))))))))"

section \<open>Upstream changes\<close>

text \<open>An unresolved event of the same difficulty is counted up; \<open>new_id\<close> is the key the database assigns.\<close>

definition upsert_revision_event ::
  "int \<Rightarrow> policy_scope \<Rightarrow> int \<Rightarrow> int \<Rightarrow> string option \<Rightarrow> string option \<Rightarrow> time \<Rightarrow> (ranking_db, ranking_event) op" where
  "upsert_revision_event new_id scope bs bm old_checksum new_checksum t =
     bnd (gets (\<lambda>s. find (\<lambda>e. ev_scope e = scope \<and> ev_set e = bs \<and> ev_map e = bm \<and> ev_resolved e = None) (ranking_events s))) (\<lambda>found.
     let e = (case found of
                Some e \<Rightarrow> e\<lparr>ev_change_count := ev_change_count e + 1, ev_new_checksum := new_checksum\<rparr>
              | None \<Rightarrow> \<lparr>ev_id = new_id, ev_scope = scope, ev_set = bs, ev_map = bm, ev_old_checksum = old_checksum,
                         ev_new_checksum = new_checksum, ev_change_count = 1, ev_created = t, ev_resolved = None,
                         ev_resolved_by = None\<rparr>)
     in seq (modify (\<lambda>s. s\<lparr>ranking_events := put_row ev_id e (ranking_events s)\<rparr>)) (ret e))"

definition INVALIDATION_REASON :: string where
  "INVALIDATION_REASON = ''Upstream beatmap revision changed; local ranking requires review''"

definition fresh_event_id :: "ranking_db \<Rightarrow> int" where
  "fresh_event_id s = 1 + Max (insert 0 (ev_id ` set (ranking_events s)))"

definition invalidate_map_policy ::
  "int \<Rightarrow> int \<Rightarrow> string option \<Rightarrow> string option \<Rightarrow> time \<Rightarrow> (ranking_db, ranking_event list) op" where
  "invalidate_map_policy bs bm old_checksum new_checksum t =
     bnd (gets (\<lambda>s. get_row mp_map bm (map_policies s))) (\<lambda>found.
     case found of
       None \<Rightarrow> ret []
     | Some p \<Rightarrow>
         if mp_active p \<and> \<not> mp_force p \<and> \<not> mp_blocks p \<and> Some (mp_checksum p) \<noteq> new_checksum
         then let q = p\<lparr>mp_active := False, mp_invalidated := Some t, mp_updated := t, mp_updated_by := None\<rparr> in
              seq (save_map_policy q)
              (bnd (gets fresh_event_id) (\<lambda>n.
               bnd (upsert_revision_event n Scope_map bs bm old_checksum new_checksum t) (\<lambda>e.
               seq (add_audit INVALIDATE Scope_map bs (Some bm) None INVALIDATION_REASON (Some (OfMap p)) (Some (OfMap q)) t)
               (ret [e]))))
         else ret [])"

definition invalidate_set_policy ::
  "int \<Rightarrow> int \<Rightarrow> string option \<Rightarrow> string option \<Rightarrow> time \<Rightarrow> (ranking_db, ranking_event list) op" where
  "invalidate_set_policy bs bm old_checksum new_checksum t =
     bnd (gets (\<lambda>s. get_row sp_set bs (set_policies s))) (\<lambda>found.
     case found of
       None \<Rightarrow> ret []
     | Some p \<Rightarrow>
         if sp_active p \<and> \<not> sp_force p \<and> map_of (sp_manifest p) bm \<noteq> new_checksum
         then let q = p\<lparr>sp_manifest := filter (\<lambda>(b, c). b \<noteq> bm) (sp_manifest p), sp_updated := t, sp_updated_by := None\<rparr> in
              seq (save_set_policy q)
              (bnd (gets fresh_event_id) (\<lambda>n.
               bnd (upsert_revision_event n Scope_set bs bm old_checksum new_checksum t) (\<lambda>e.
               seq (add_audit INVALIDATE Scope_set bs (Some bm) None INVALIDATION_REASON (Some (OfSet p)) (Some (OfSet q)) t)
               (ret [e]))))
         else ret [])"

definition invalidate_for_upstream_change ::
  "int \<Rightarrow> int \<Rightarrow> string option \<Rightarrow> string option \<Rightarrow> time option \<Rightarrow> time option \<Rightarrow> time \<Rightarrow> (ranking_db, ranking_event list) op" where
  "invalidate_for_upstream_change bs bm old_checksum new_checksum old_updated new_updated t =
     (if old_checksum = new_checksum \<and> old_updated = new_updated then ret []
      else bnd (gets (\<lambda>s. get_row bs_id bs (beatmapsets s) \<noteq> None
                  \<and> (case get_row df_id bm (difficulties s) of Some d \<Rightarrow> df_set d = bs | None \<Rightarrow> False))) (\<lambda>known.
        if \<not> known then ret []
        else bnd (invalidate_map_policy bs bm old_checksum new_checksum t) (\<lambda>es.
             bnd (invalidate_set_policy bs bm old_checksum new_checksum t) (\<lambda>fs.
             ret (es @ fs)))))"

section \<open>Events\<close>

definition list_pending_ranking_events :: "int \<Rightarrow> int \<Rightarrow> ranking_db \<Rightarrow> error + ranking_event list" where
  "list_pending_ranking_events maximum off s =
     (if \<not> (1 \<le> maximum \<and> maximum \<le> 200) then Inl (ValueErr ''limit must be between 1 and 200'')
      else if off < 0 then Inl (ValueErr ''offset must not be negative'')
      else Inr (take (nat maximum) (drop (nat off)
        (sort_key (\<lambda>e. (- ev_created e, - ev_id e)) (filter (\<lambda>e. ev_resolved e = None) (ranking_events s))))))"

definition resolve_ranking_event :: "int \<Rightarrow> int \<Rightarrow> string option \<Rightarrow> time \<Rightarrow> (ranking_db, ranking_event) op" where
  "resolve_ranking_event eid actor why t =
     bnd (gets (\<lambda>s. get_row ev_id eid (ranking_events s))) (\<lambda>found.
     case found of
       None \<Rightarrow> throw KeyErr
     | Some e \<Rightarrow>
         if ev_resolved e \<noteq> None then ret e
         else let e' = e\<lparr>ev_resolved := Some t, ev_resolved_by := Some actor\<rparr> in
              seq (modify (\<lambda>s. s\<lparr>ranking_events := put_row ev_id e' (ranking_events s)\<rparr>))
              (seq (add_audit RESOLVE_EVENT (ev_scope e) (ev_set e) (Some (ev_map e)) (Some actor)
                     (case why of None \<Rightarrow> ''Resolved ranking event '' @ int_str eid | Some w \<Rightarrow> normalise_reason w) None None t)
              (ret e')))"

end
