(* ===== verification/Updates.thy ===== *)
theory Updates
  imports RankPolicies Dodge
begin

text \<open>
  \<open>app/service/beatmapset_update_service.py\<close>: the synchronisation of cached beatmapsets with upstream.  A fetched
  snapshot is compared with the manifest of the last synchronisation and with the cached difficulties; every
  changed difficulty is processed in a transaction of its own, and only then the manifest advances.

  The upstream service delivers a value of \<open>fetched\<close>.  \<open>random.randint\<close> is the parameter \<open>randint\<close>, the time of a
  synchronisation is one instant.  Locks, caches and logging are left out; \<open>float\<close> is \<open>real\<close>.
\<close>

section \<open>Snapshots\<close>

datatype change_type = MAP_UPDATED | MAP_DELETED | MAP_ADDED | STATUS_CHANGED

record changed_beatmap =
  ch_map :: int
  ch_type :: change_type

record upstream_map =
  um_id :: int
  um_set :: int
  um_checksum :: string
  um_ranked :: rank_status
  um_updated :: time
  um_deleted :: bool
  um_owners :: "int list option"

record upstream_set =
  up_id :: int
  up_ranked :: rank_status
  up_ranked_date :: time
  up_last_updated :: time
  up_play_count :: int
  up_maps :: "upstream_map list"

datatype fetched = Snapshot upstream_set | Not_found | Unreachable

text \<open>\<open>{bm["id"]: bm for bm in ...}\<close>: insertion order, the last value of a key.\<close>

definition maps_by_id :: "upstream_map list \<Rightarrow> (int \<times> upstream_map) list" where
  "maps_by_id ms = fold (\<lambda>m. put_key (um_id m) m) ms []"

section \<open>The next synchronisation\<close>

definition BASE :: real where "BASE = 1200"
definition TAU :: real where "TAU = 3600"
definition JITTER_MIN :: int where "JITTER_MIN = -30"
definition JITTER_MAX :: int where "JITTER_MAX = 30"
definition MIN_DELTA :: real where "MIN_DELTA = 1200"
definition GROWTH :: real where "GROWTH = 2"
definition GRAVEYARD_DOUBLING_PERIOD_DAYS :: real where "GRAVEYARD_DOUBLING_PERIOD_DAYS = 30"
definition GRAVEYARD_MAX_DAYS :: real where "GRAVEYARD_MAX_DAYS = 365"

fun STATUS_FACTOR :: "rank_status \<Rightarrow> real" where
  "STATUS_FACTOR WIP = 0.5" | "STATUS_FACTOR PENDING = 0.5" | "STATUS_FACTOR _ = 1"

definition total_seconds :: "time \<Rightarrow> real" where
  "total_seconds d = of_int d / 1000000"

definition seconds_of :: "real \<Rightarrow> time" where
  "seconds_of x = py_round (x * 1000000)"

definition next_delta :: "time \<Rightarrow> nat \<Rightarrow> upstream_set \<Rightarrow> real option" where
  "next_delta t no_change u =
     (if ranked_status (up_ranked u) then None
      else Some (case up_ranked u of
          QUALIFIED \<Rightarrow>
            let time_to_ranked = total_seconds (up_ranked_date u + seconds (7 * 86400) - t);
                baseline = max MIN_DELTA (time_to_ranked / 2)
            in max MIN_DELTA baseline
        | GRAVEYARD \<Rightarrow>
            let days = (t - up_last_updated u) div seconds 86400;
                delta = MIN_DELTA * 2 powr (of_int days / GRAVEYARD_DOUBLING_PERIOD_DAYS)
            in min (GRAVEYARD_MAX_DAYS * 86400) delta
        | st \<Rightarrow>
            let factor_update = max 1 (total_seconds (t - up_last_updated u) / TAU);
                factor_play = 1 + ln (1 + of_int (up_play_count u));
                baseline = BASE * factor_play / factor_update * STATUS_FACTOR st
            in max MIN_DELTA (baseline * GROWTH ^ (no_change + 1))))"

definition jitter :: "(int \<Rightarrow> int \<Rightarrow> int) \<Rightarrow> real \<Rightarrow> time" where
  "jitter randint x =
     (if x > 86400 then let minor = py_round (x / 10) in seconds (randint (- minor) minor)
      else minutes (randint JITTER_MIN JITTER_MAX))"

definition calculate_next_sync_time :: "(int \<Rightarrow> int \<Rightarrow> int) \<Rightarrow> time \<Rightarrow> nat \<Rightarrow> upstream_set \<Rightarrow> time option" where
  "calculate_next_sync_time randint t no_change u =
     map_option (\<lambda>x. seconds_of x + jitter randint x) (next_delta t no_change u)"

section \<open>Changes\<close>

definition beatmapset_changed :: "sync_record \<Rightarrow> upstream_set \<Rightarrow> bool" where
  "beatmapset_changed r u \<longleftrightarrow> sy_status r \<noteq> up_ranked u"

definition manifest_change :: "sync_record \<Rightarrow> upstream_map \<Rightarrow> changed_beatmap list" where
  "manifest_change r m =
     (case find (\<lambda>x. sm_map x = um_id m) (sy_maps r) of
        None \<Rightarrow> [\<lparr>ch_map = um_id m, ch_type = MAP_ADDED\<rparr>]
      | Some x \<Rightarrow>
          if sm_deleted x then [\<lparr>ch_map = um_id m, ch_type = MAP_ADDED\<rparr>]
          else if sm_md5 x \<noteq> um_checksum m then [\<lparr>ch_map = um_id m, ch_type = MAP_UPDATED\<rparr>]
          else if sm_status x \<noteq> um_ranked m then [\<lparr>ch_map = um_id m, ch_type = STATUS_CHANGED\<rparr>]
          else [])"

definition changed_beatmaps :: "sync_record \<Rightarrow> upstream_set \<Rightarrow> changed_beatmap list" where
  "changed_beatmaps r u =
     concat (map (manifest_change r) (up_maps u))
     @ map (\<lambda>x. \<lparr>ch_map = sm_map x, ch_type = MAP_DELETED\<rparr>)
         (filter (\<lambda>x. \<not> list_ex (\<lambda>m. um_id m = sm_map x) (up_maps u) \<and> \<not> sm_deleted x) (sy_maps r))"

definition metadata_only_beatmaps :: "upstream_map list \<Rightarrow> changed_beatmap list \<Rightarrow> upstream_map list" where
  "metadata_only_beatmaps ms changed = filter (\<lambda>m. um_id m \<notin> ch_map ` set changed) ms"

definition database_change :: "difficulty list \<Rightarrow> upstream_map \<Rightarrow> changed_beatmap list" where
  "database_change ds m =
     (case get_row df_id (um_id m) ds of
        None \<Rightarrow> [\<lparr>ch_map = um_id m, ch_type = MAP_ADDED\<rparr>]
      | Some d \<Rightarrow>
          if df_deleted d then [\<lparr>ch_map = um_id m, ch_type = MAP_ADDED\<rparr>]
          else if df_checksum d \<noteq> um_checksum m then [\<lparr>ch_map = um_id m, ch_type = MAP_UPDATED\<rparr>]
          else if df_status d \<noteq> um_ranked m then [\<lparr>ch_map = um_id m, ch_type = STATUS_CHANGED\<rparr>]
          else [])"

definition database_consistency_changes :: "ranking_db \<Rightarrow> upstream_set \<Rightarrow> changed_beatmap list" where
  "database_consistency_changes s u =
     (let cached = filter (\<lambda>d. df_set d = up_id u) (difficulties s); upstream = maps_by_id (up_maps u) in
      concat (map (\<lambda>(b, m). database_change cached m) upstream)
      @ map (\<lambda>d. \<lparr>ch_map = df_id d, ch_type = MAP_DELETED\<rparr>)
          (filter (\<lambda>d. map_of upstream (df_id d) = None \<and> \<not> df_deleted d) cached))"

text \<open>The database overrules the manifest; changes are processed in the order of their ids.\<close>

definition combined_changes :: "ranking_db \<Rightarrow> sync_record \<Rightarrow> upstream_set \<Rightarrow> changed_beatmap list" where
  "combined_changes s r u =
     (let by_id = fold (\<lambda>c. put_key (ch_map c) c) (changed_beatmaps r u @ database_consistency_changes s u) []
      in map snd (sort_key fst by_id))"

section \<open>Writing snapshots\<close>

definition difficulty_of :: "upstream_map \<Rightarrow> difficulty" where
  "difficulty_of m = \<lparr>df_id = um_id m, df_set = um_set m, df_checksum = um_checksum m, df_status = um_ranked m,
     df_updated = um_updated m, df_deleted = um_deleted m\<rparr>"

text \<open>\<open>session.merge(Beatmap.from_resp_no_save(...))\<close>: the row, and the mapper credits when the payload has owners.
  The score tables read the set and the credits of a map.\<close>

definition merge_beatmap :: "upstream_map \<Rightarrow> (ranking_db, unit) op" where
  "merge_beatmap m = modify (\<lambda>s. s\<lparr>
     difficulties := put_row df_id (difficulty_of m) (difficulties s),
     score_tables := (score_tables s)\<lparr>
       map_sets := put_key (um_id m) (um_set m) (map_sets (score_tables s)),
       mapper_credits := (case um_owners m of
           None \<Rightarrow> mapper_credits (score_tables s)
         | Some owners \<Rightarrow> filter (\<lambda>(b, u). b \<noteq> um_id m) (mapper_credits (score_tables s))
             @ map (\<lambda>u. (um_id m, u)) (remdups owners))\<rparr>\<rparr>)"

definition merge_beatmapset :: "upstream_set \<Rightarrow> (ranking_db, unit) op" where
  "merge_beatmapset u = modify (\<lambda>s. s\<lparr>beatmapsets := put_row bs_id
     \<lparr>bs_id = up_id u, bs_status = up_ranked u, bs_updated = up_last_updated u\<rparr> (beatmapsets s)\<rparr>)"

text \<open>\<open>recalculate\<close> and \<open>reconcile_attribution\<close> of \<open>negative_pp_service.py\<close>.\<close>

definition recalculate :: "int list \<Rightarrow> (profiles, unit) op" where
  "recalculate beatmap_ids =
     bnd (gets (\<lambda>s. remdups (map (\<lambda>b. (b_user b, b_mode b)) (filter (\<lambda>b. b_beatmap b \<in> set beatmap_ids) (best_scores s))))) (\<lambda>modes.
     for_each (sort_key (\<lambda>(uid, g). (uid, mode_value g)) modes) (\<lambda>(uid, g).
       bnd (gets (\<lambda>s. get_row statistics_key (uid, g) (statistics_rows s))) (\<lambda>found.
       case found of
         None \<Rightarrow> ret ()
       | Some st \<Rightarrow>
           bnd (gets (\<lambda>s. calculate_user_pp s uid g)) (\<lambda>(pp, acc).
           save_statistics (st\<lparr>us_pp := pp, hit_accuracy := acc\<rparr>)))))"

definition reconcile_attribution :: "int list \<Rightarrow> (ranking_db, unit) op" where
  "reconcile_attribution beatmap_ids =
     on_scores (bnd (gets (\<lambda>s. target_kind ''mapper'' (negative_rules s))) (\<lambda>mappers.
       if mappers \<noteq> [] then recalculate beatmap_ids else ret ()))"

text \<open>The set and its unchanged difficulties; \<open>False\<close> refuses a stale snapshot or a concurrent change.\<close>

definition unchanged_in_cache :: "int \<Rightarrow> upstream_map \<Rightarrow> difficulty list \<Rightarrow> bool" where
  "unchanged_in_cache bs m ds \<longleftrightarrow>
     (case get_row df_id (um_id m) ds of
        None \<Rightarrow> False
      | Some d \<Rightarrow> df_set d = bs \<and> \<not> df_deleted d \<and> df_checksum d = um_checksum m \<and> df_status d = um_ranked m)"

definition process_changed_beatmapset :: "upstream_set \<Rightarrow> upstream_map list \<Rightarrow> (ranking_db, bool) op" where
  "process_changed_beatmapset u metadata =
     transaction (
     bnd (gets (\<lambda>s. get_row bs_id (up_id u) (beatmapsets s))) (\<lambda>found.
     if (case found of None \<Rightarrow> False | Some b \<Rightarrow> bs_updated b > up_last_updated u) then ret False
     else
       let by_id = maps_by_id metadata in
       if length by_id \<noteq> length metadata
       then throw (ValueErr (''Beatmapset '' @ int_str (up_id u) @ '' snapshot contains duplicate difficulty IDs''))
       else if list_ex (\<lambda>m. um_set m \<noteq> up_id u) metadata
       then throw (ValueErr (''Beatmapset '' @ int_str (up_id u) @ '' snapshot contains a difficulty from another set''))
       else bnd (gets (\<lambda>s. list_all (\<lambda>(b, m). unchanged_in_cache (up_id u) m (difficulties s)) by_id)) (\<lambda>intact.
         if \<not> intact then ret False
         else
           seq (merge_beatmapset u)
           (seq (for_each metadata merge_beatmap)
           (seq (reconcile_attribution (map fst by_id))
           (ret True))))))"

section \<open>Processing a change\<close>

definition retire_revision_derivatives :: "score_config \<Rightarrow> int \<Rightarrow> effective_policy \<Rightarrow> (ranking_db, reconciliation) op" where
  "retire_revision_derivatives cfg bm previous =
     on_scores (reconcile_disabled_score_features cfg
       [\<lparr>tr_map = bm, disable_leaderboard = True, disable_pp = True,
         disable_ranked_score = (ranked_status (ep_status previous) \<and> (ep_leaderboard previous \<or> enable_all_beatmap_leaderboard cfg))
           \<or> enable_all_beatmap_pp cfg,
         reset_ranked_score_epoch = False\<rparr>])"

definition reconcile_effective_transition ::
  "score_config \<Rightarrow> int \<Rightarrow> effective_policy \<Rightarrow> effective_policy \<Rightarrow> (ranking_db, reconciliation) op" where
  "reconcile_effective_transition cfg bm previous current =
     bnd (lift (plan_score_policy_transitions (enable_all_beatmap_leaderboard cfg) (enable_all_beatmap_pp cfg)
                  [(bm, previous)] [(bm, current)])) (\<lambda>ts.
     on_scores (reconcile_disabled_score_features cfg ts))"

definition foreign_map :: "int \<Rightarrow> int \<Rightarrow> int \<Rightarrow> error" where
  "foreign_map bm other bs = ValueErr (''Beatmap '' @ int_str bm @ '' belongs to unexpected set '' @ int_str other
     @ '' (expected '' @ int_str bs @ '')'')"

definition snapshot_map :: "(int \<times> upstream_map) list \<Rightarrow> int \<Rightarrow> int \<Rightarrow> string \<Rightarrow> (ranking_db, upstream_map) op" where
  "snapshot_map by_id bs bm absent =
     (case map_of by_id bm of
        None \<Rightarrow> throw (ValueErr (''Beatmap '' @ int_str bm @ absent))
      | Some m \<Rightarrow> if um_set m \<noteq> bs then throw (foreign_map bm (um_set m) bs) else ret m)"

definition cached_map :: "int \<Rightarrow> int \<Rightarrow> (ranking_db, difficulty option) op" where
  "cached_map bs bm =
     bnd (gets (\<lambda>s. get_row df_id bm (difficulties s))) (\<lambda>found.
     case found of
       None \<Rightarrow> ret None
     | Some d \<Rightarrow> if df_set d \<noteq> bs then throw (foreign_map bm (df_set d) bs) else ret (Some d))"

definition apply_added :: "score_config \<Rightarrow> time \<Rightarrow> (int \<times> upstream_map) list \<Rightarrow> int \<Rightarrow> int \<Rightarrow> (ranking_db, unit) op" where
  "apply_added cfg t by_id bs bm =
     bnd (snapshot_map by_id bs bm '' was classified as added but is absent from the snapshot'') (\<lambda>m.
     bnd (cached_map bs bm) (\<lambda>existing.
     let was_deleted = (case existing of None \<Rightarrow> False | Some d \<Rightarrow> df_deleted d);
         revision_changed = (case existing of None \<Rightarrow> True | Some d \<Rightarrow> df_deleted d \<or> df_checksum d \<noteq> um_checksum m)
     in
     bnd (gets (\<lambda>s. case existing of
            None \<Rightarrow> None
          | Some d \<Rightarrow> if \<not> was_deleted \<and> revision_changed then Some (effective_beatmap_policy s d) else None)) (\<lambda>effective_before.
     seq (merge_beatmap m)
     (do_if revision_changed
       (bnd (invalidate_for_upstream_change bs bm (map_option df_checksum existing) (Some (um_checksum m))
               (map_option df_updated existing) (Some (um_updated m)) t) (\<lambda>_.
        case effective_before of
          None \<Rightarrow> ret ()
        | Some previous \<Rightarrow> bnd (retire_revision_derivatives cfg bm previous) (\<lambda>_. ret ())))))))"

definition apply_deleted :: "score_config \<Rightarrow> time \<Rightarrow> int \<Rightarrow> int \<Rightarrow> (ranking_db, unit) op" where
  "apply_deleted cfg t bs bm =
     bnd (cached_map bs bm) (\<lambda>existing.
     case existing of
       None \<Rightarrow> ret ()
     | Some d \<Rightarrow>
         if df_deleted d then ret ()
         else
           bnd (gets (\<lambda>s. effective_beatmap_policy s d)) (\<lambda>previous.
           bnd (invalidate_for_upstream_change bs bm (Some (df_checksum d)) None (Some (df_updated d)) None t) (\<lambda>_.
           seq (modify (\<lambda>s. s\<lparr>difficulties := put_row df_id (d\<lparr>df_deleted := True\<rparr>) (difficulties s)\<rparr>))
           (bnd (retire_revision_derivatives cfg bm previous) (\<lambda>_. ret ())))))"

definition apply_updated ::
  "score_config \<Rightarrow> time \<Rightarrow> (int \<times> upstream_map) list \<Rightarrow> int \<Rightarrow> change_type \<Rightarrow> int \<Rightarrow> (ranking_db, unit) op" where
  "apply_updated cfg t by_id bs kind bm =
     bnd (snapshot_map by_id bs bm '' changed but is absent from the upstream snapshot'') (\<lambda>m.
     bnd (cached_map bs bm) (\<lambda>existing.
     case existing of
       None \<Rightarrow>
         seq (merge_beatmap m)
         (bnd (invalidate_for_upstream_change bs bm None (Some (um_checksum m)) None (Some (um_updated m)) t) (\<lambda>_. ret ()))
     | Some d \<Rightarrow>
         bnd (gets (\<lambda>s. effective_beatmap_policy s d)) (\<lambda>previous.
         let revision_changed = (kind = MAP_UPDATED \<and> (df_deleted d \<or> df_checksum d \<noteq> um_checksum m)) in
         seq (do_if revision_changed
               (bnd (invalidate_for_upstream_change bs bm (Some (df_checksum d)) (Some (um_checksum m))
                       (Some (df_updated d)) (Some (um_updated m)) t) (\<lambda>_. ret ())))
         (seq (merge_beatmap m)
         (if revision_changed then bnd (retire_revision_derivatives cfg bm previous) (\<lambda>_. ret ())
          else if kind = STATUS_CHANGED
          then bnd (gets (\<lambda>s. effective_beatmap_policy s (difficulty_of m))) (\<lambda>current.
               bnd (reconcile_effective_transition cfg bm previous current) (\<lambda>_. ret ()))
          else ret ())))))"

definition process_change ::
  "score_config \<Rightarrow> time \<Rightarrow> (int \<times> upstream_map) list \<Rightarrow> int \<Rightarrow> changed_beatmap \<Rightarrow> (ranking_db, unit) op" where
  "process_change cfg t by_id bs c =
     transaction (
     seq (lock_beatmapset bs)
     (bnd (gets (\<lambda>s. ch_type c = MAP_DELETED \<and> get_row df_id (ch_map c) (difficulties s) = None)) (\<lambda>absent.
      if absent then ret ()
      else
        seq (case ch_type c of
               MAP_ADDED \<Rightarrow> apply_added cfg t by_id bs (ch_map c)
             | MAP_DELETED \<Rightarrow> apply_deleted cfg t bs (ch_map c)
             | kind \<Rightarrow> apply_updated cfg t by_id bs kind (ch_map c))
          (reconcile_attribution [ch_map c]))))"

definition process_changed_beatmaps ::
  "score_config \<Rightarrow> time \<Rightarrow> changed_beatmap list \<Rightarrow> upstream_map list \<Rightarrow> int \<Rightarrow> (ranking_db, unit) op" where
  "process_changed_beatmaps cfg t changed ms bs = for_each changed (process_change cfg t (maps_by_id ms) bs)"

section \<open>Synchronisation\<close>

definition saved_of_upstream :: "upstream_map \<Rightarrow> saved_meta" where
  "saved_of_upstream m = \<lparr>sm_map = um_id m, sm_md5 = um_checksum m, sm_deleted = False, sm_status = um_ranked m\<rparr>"

definition save_sync :: "sync_record \<Rightarrow> (ranking_db, unit) op" where
  "save_sync r = modify (\<lambda>s. s\<lparr>sync_records := put_row sy_set r (sync_records s)\<rparr>)"

definition drop_sync :: "int \<Rightarrow> (ranking_db, unit) op" where
  "drop_sync bs = modify (\<lambda>s. s\<lparr>sync_records := del_row sy_set bs (sync_records s)\<rparr>)"

definition set_not_found :: "score_config \<Rightarrow> time \<Rightarrow> sync_record \<Rightarrow> (ranking_db, unit) op" where
  "set_not_found cfg t r =
     (let bs = sy_set r in
      bnd (gets (\<lambda>s. map df_id (live_difficulties s bs))) (\<lambda>active.
      seq (do_if (active \<noteq> [])
            (process_changed_beatmaps cfg t (map (\<lambda>b. \<lparr>ch_map = b, ch_type = MAP_DELETED\<rparr>) active) [] bs))
      (bnd (gets (\<lambda>s. beatmapset_has_active_local_rank s bs \<or> beatmapset_has_pending_local_rank_review s bs)) (\<lambda>keep_tracker.
      seq (modify (\<lambda>s. case get_row bs_id bs (beatmapsets s) of
             None \<Rightarrow> s
           | Some b \<Rightarrow> s\<lparr>beatmapsets := put_row bs_id (b\<lparr>bs_status := GRAVEYARD\<rparr>) (beatmapsets s)\<rparr>))
      (if keep_tracker
       then save_sync (r\<lparr>sy_maps := map (\<lambda>x. x\<lparr>sm_deleted := True\<rparr>) (sy_maps r), sy_status := GRAVEYARD,
              sy_next := t + LOCAL_RANK_MAX_SYNC_INTERVAL\<rparr>)
       else drop_sync bs)))))"

text \<open>\<open>not next_time_delta\<close> holds for \<open>None\<close> and for a zero \<open>timedelta\<close>.\<close>

definition truthy_delta :: "time option \<Rightarrow> time option" where
  "truthy_delta d = (case d of None \<Rightarrow> None | Some x \<Rightarrow> if x = 0 then None else Some x)"

definition reschedule :: "(int \<Rightarrow> int \<Rightarrow> int) \<Rightarrow> time \<Rightarrow> upstream_set \<Rightarrow> sync_record \<Rightarrow> (ranking_db, unit) op" where
  "reschedule randint t u r =
     (let delta = calculate_next_sync_time randint t (sy_no_change r) u in
      bnd (gets (\<lambda>s. beatmapset_has_active_local_rank s (sy_set r))) (\<lambda>ranked_here.
      let delta = (if ranked_here
            then Some (min (case truthy_delta delta of None \<Rightarrow> LOCAL_RANK_MAX_SYNC_INTERVAL | Some x \<Rightarrow> x) LOCAL_RANK_MAX_SYNC_INTERVAL)
            else delta)
      in case truthy_delta delta of
           None \<Rightarrow> drop_sync (sy_set r)
         | Some x \<Rightarrow> save_sync (r\<lparr>sy_next := t + x\<rparr>)))"

definition sync_locked ::
  "score_config \<Rightarrow> (int \<Rightarrow> int \<Rightarrow> int) \<Rightarrow> time \<Rightarrow> fetched \<Rightarrow> sync_record \<Rightarrow> (ranking_db, unit) op" where
  "sync_locked cfg randint t answer r =
     (case answer of
        Not_found \<Rightarrow> set_not_found cfg t r
      | Unreachable \<Rightarrow> save_sync (r\<lparr>sy_next := t + seconds_of MIN_DELTA\<rparr>)
      | Snapshot u \<Rightarrow>
          bnd (gets (\<lambda>s. combined_changes s r u)) (\<lambda>changes.
          let changed = beatmapset_changed r u \<or> changes \<noteq> [] in
          bnd (process_changed_beatmapset u (metadata_only_beatmaps (up_maps u) changes)) (\<lambda>accepted.
          if \<not> accepted then ret ()
          else
            seq (do_if (changes \<noteq> []) (process_changed_beatmaps cfg t changes (up_maps u) (sy_set r)))
            (bnd (gets (\<lambda>s. get_row bs_id (sy_set r) (beatmapsets s))) (\<lambda>locked.
            case locked of
              None \<Rightarrow> drop_sync (sy_set r)
            | Some _ \<Rightarrow>
                reschedule randint t u
                  (if changed
                   then r\<lparr>sy_maps := map saved_of_upstream (up_maps u), sy_status := up_ranked u, sy_no_change := 0\<rparr>
                   else r\<lparr>sy_no_change := sy_no_change r + 1\<rparr>))))))"

definition sync_immediately :: "score_config \<Rightarrow> (int \<Rightarrow> int \<Rightarrow> int) \<Rightarrow> time \<Rightarrow> upstream_set \<Rightarrow> (ranking_db, unit) op" where
  "sync_immediately cfg randint t u =
     bnd (gets (\<lambda>s. (get_row sy_set (up_id u) (sync_records s), get_row bs_id (up_id u) (beatmapsets s)))) (\<lambda>(found, cached).
     case (found, cached) of
       (Some r, _) \<Rightarrow> sync_locked cfg randint t (Snapshot u) r
     | (None, None) \<Rightarrow>
         bnd (process_changed_beatmapset u []) (\<lambda>accepted.
         if \<not> accepted then ret ()
         else
           seq (process_changed_beatmaps cfg t (map (\<lambda>m. \<lparr>ch_map = um_id m, ch_type = MAP_ADDED\<rparr>) (up_maps u)) (up_maps u) (up_id u))
           (bnd (gets (\<lambda>s. get_row sy_set (up_id u) (sync_records s))) (\<lambda>again.
            case again of
              Some _ \<Rightarrow> ret ()
            | None \<Rightarrow> save_sync \<lparr>sy_set = up_id u, sy_maps = map saved_of_upstream (up_maps u), sy_status = up_ranked u,
                                sy_no_change = 0, sy_next = t\<rparr>)))
     | (None, Some b) \<Rightarrow>
         bnd (gets (\<lambda>s. \<lparr>sy_set = up_id u, sy_maps = map saved_of (filter (\<lambda>d. df_set d = up_id u) (difficulties s)),
                sy_status = bs_status b, sy_no_change = 0, sy_next = t\<rparr>)) (\<lambda>r.
         seq (save_sync r) (sync_locked cfg randint t (Snapshot u) r)))"

text \<open>
  \<open>add\<close>: a set that is not tracked starts from its cached difficulties; one that is tracked is synchronised, or, without
  \<open>calculate_next_sync\<close>, has its manifest replaced.  A manifest without its beatmapset violates the foreign key of
  \<open>BeatmapSync\<close>.
\<close>

definition add_snapshot ::
  "score_config \<Rightarrow> (int \<Rightarrow> int \<Rightarrow> int) \<Rightarrow> time \<Rightarrow> bool \<Rightarrow> upstream_set \<Rightarrow> (ranking_db, unit) op" where
  "add_snapshot cfg randint t calculate_next_sync u =
     bnd (gets (\<lambda>s. (get_row sy_set (up_id u) (sync_records s), get_row bs_id (up_id u) (beatmapsets s)))) (\<lambda>(found, cached).
     case (found, cached) of
       (Some r, _) \<Rightarrow>
         if calculate_next_sync then sync_locked cfg randint t (Snapshot u) r
         else save_sync (r\<lparr>sy_maps := map saved_of_upstream (up_maps u), sy_status := up_ranked u\<rparr>)
     | (None, None) \<Rightarrow> throw (RuntimeErr ''IntegrityError'')
     | (None, Some b) \<Rightarrow>
         bnd (gets (\<lambda>s. \<lparr>sy_set = up_id u,
                sy_maps = map (\<lambda>d. (saved_of d)\<lparr>sm_deleted := False\<rparr>) (filter (\<lambda>d. df_set d = up_id u) (difficulties s)),
                sy_status = bs_status b, sy_no_change = 0, sy_next = t\<rparr>)) (\<lambda>r.
         seq (save_sync r)
         (if \<not> calculate_next_sync then ret ()
          else case truthy_delta (calculate_next_sync_time randint t 0 u) of
            None \<Rightarrow> sync_immediately cfg randint t u
          | Some x \<Rightarrow> save_sync (r\<lparr>sy_next := t + x\<rparr>))))"

definition get_beatmapset :: "fetched \<Rightarrow> (ranking_db, upstream_set) op" where
  "get_beatmapset answer =
     (case answer of Snapshot u \<Rightarrow> ret u | Not_found \<Rightarrow> throw (RuntimeErr ''404'') | Unreachable \<Rightarrow> throw (RuntimeErr ''HTTPError''))"

definition refresh_beatmapset ::
  "score_config \<Rightarrow> (int \<Rightarrow> int \<Rightarrow> int) \<Rightarrow> time \<Rightarrow> fetched \<Rightarrow> (ranking_db, upstream_set) op" where
  "refresh_beatmapset cfg randint t answer =
     bnd (get_beatmapset answer) (\<lambda>u. seq (sync_immediately cfg randint t u) (ret u))"

definition add_missing_beatmapset ::
  "score_config \<Rightarrow> (int \<Rightarrow> int \<Rightarrow> int) \<Rightarrow> time \<Rightarrow> bool \<Rightarrow> fetched \<Rightarrow> (ranking_db, unit) op" where
  "add_missing_beatmapset cfg randint t immediate answer =
     bnd (get_beatmapset answer) (\<lambda>u.
     if immediate then sync_immediately cfg randint t u else add_snapshot cfg randint t True u)"

definition update_beatmaps :: "score_config \<Rightarrow> (int \<Rightarrow> int \<Rightarrow> int) \<Rightarrow> time \<Rightarrow> (int \<Rightarrow> fetched) \<Rightarrow> (ranking_db, unit) op" where
  "update_beatmaps cfg randint t upstream =
     bnd (gets (\<lambda>s. map sy_set (sort_key (\<lambda>r. - sy_next r) (filter (\<lambda>r. sy_next r \<le> t) (sync_records s))))) (\<lambda>due.
     for_each due (\<lambda>bs.
       bnd (gets (\<lambda>s. get_row sy_set bs (sync_records s))) (\<lambda>found.
       case found of None \<Rightarrow> ret () | Some r \<Rightarrow> sync_locked cfg randint t (upstream bs) r)))"

text \<open>Sets that are not tracked yet; a set unknown to upstream gets a tracker that is never due.  Errors of one
  set are logged and do not stop the others.\<close>

definition FAR_FUTURE :: time where
  "FAR_FUTURE = (ymd2ord 6000 1 1 - EPOCH_ORDINAL) * DAY"

definition missing_sets :: "ranking_db \<Rightarrow> int list" where
  "missing_sets s = map bs_id (sort_key (\<lambda>b. - bs_updated b)
     (filter (\<lambda>b. bs_status b \<in> {WIP, PENDING, GRAVEYARD, QUALIFIED} \<and> get_row sy_set (bs_id b) (sync_records s) = None)
        (beatmapsets s)))"

definition add_missing_beatmapsets :: "score_config \<Rightarrow> (int \<Rightarrow> int \<Rightarrow> int) \<Rightarrow> time \<Rightarrow> (int \<Rightarrow> fetched) \<Rightarrow> (ranking_db, unit) op" where
  "add_missing_beatmapsets cfg randint t upstream =
     bnd (gets missing_sets) (\<lambda>missing.
     for_each missing (\<lambda>bs.
       case upstream bs of
         Snapshot u \<Rightarrow> attempt (add_missing_beatmapset cfg randint t False (Snapshot u)) (\<lambda>_. ret ())
       | Not_found \<Rightarrow> save_sync \<lparr>sy_set = bs, sy_maps = [], sy_status = GRAVEYARD, sy_no_change = 0, sy_next = FAR_FUTURE\<rparr>
       | Unreachable \<Rightarrow> ret ()))"

definition beatmapset_update_job :: "score_config \<Rightarrow> (int \<Rightarrow> int \<Rightarrow> int) \<Rightarrow> time \<Rightarrow> (int \<Rightarrow> fetched) \<Rightarrow> (ranking_db, unit) op" where
  "beatmapset_update_job cfg randint t upstream =
     seq (add_missing_beatmapsets cfg randint t upstream) (update_beatmaps cfg randint t upstream)"

end
