(* ===== verification/Ledger.thy ===== *)
theory Ledger
  imports Profiles
begin

text \<open>
  The leaderboard rows of a player as a ledger: for every map the total and the grade of the player's best
  play.  The four cases of \<open>record_total_best\<close> refine one update of the ledger, and the aggregates of
  \<open>UserStatistics\<close> (ranked score, grade counts) are the sums over it.
\<close>

section \<open>The best row\<close>

lemma first_by_total_Some:
  "first_by_total rows = Some r \<Longrightarrow> r \<in> set rows \<and> (\<forall>x \<in> set rows. tb_total x \<le> tb_total r)"
proof -
  assume "first_by_total rows = Some r"
  then obtain rest where s: "sort_key (\<lambda>r. - tb_total r) rows = r # rest"
    by (auto simp: first_by_total_def split: list.splits)
  have "sorted (map (\<lambda>r. - tb_total r) (r # rest))" using sorted_sort_key[of "\<lambda>r. - tb_total r" rows] by (simp add: s)
  moreover have "set rows = set (r # rest)" using set_sort[of "\<lambda>r. - tb_total r" rows] by (simp add: s)
  ultimately show ?thesis by auto
qed

lemma first_by_total_None [simp]: "first_by_total rows = None \<longleftrightarrow> rows = []"
proof -
  have "sort_key (\<lambda>r. - tb_total r) rows = [] \<longleftrightarrow> rows = []"
    using length_sort[of "\<lambda>r. - tb_total r" rows] by (metis length_0_conv)
  then show ?thesis by (auto simp: first_by_total_def split: list.splits)
qed

lemma first_by_total_top:
  assumes "r \<in> set rows" and "\<And>x. x \<in> set rows \<Longrightarrow> x \<noteq> r \<Longrightarrow> tb_total x < tb_total r"
  shows "first_by_total rows = Some r"
proof (cases "first_by_total rows")
  case None
  with assms(1) show ?thesis by simp
next
  case (Some q)
  then show ?thesis using first_by_total_Some[OF Some] assms by (metis leD)
qed

text \<open>The rows of one player on one map.\<close>

definition rows_at :: "int \<Rightarrow> game_mode \<Rightarrow> int \<Rightarrow> total_best \<Rightarrow> bool" where
  "rows_at uid g bm r \<longleftrightarrow> tb_mode r = g \<and> tb_beatmap r = bm \<and> tb_user r = uid"

definition rows_ok :: "total_best list \<Rightarrow> bool" where
  "rows_ok rows \<longleftrightarrow> distinct (map tb_score rows)
     \<and> (\<forall>x \<in> set rows. \<forall>y \<in> set rows.
          rows_at (tb_user x) (tb_mode x) (tb_beatmap x) y \<and> tb_total x = tb_total y \<longrightarrow> x = y)"

definition best_at :: "total_best list \<Rightarrow> int \<Rightarrow> game_mode \<Rightarrow> int \<Rightarrow> total_best option" where
  "best_at rows uid g bm = first_by_total (filter (rows_at uid g bm) rows)"

lemma best_at_query: "get_user_best_score_in_beatmap s bm uid g = best_at (total_bests s) uid g bm"
  by (simp add: get_user_best_score_in_beatmap_def best_at_def rows_at_def[abs_def])

lemma best_at_None: "best_at rows uid g bm = None \<longleftrightarrow> (\<forall>x \<in> set rows. \<not> rows_at uid g bm x)"
  by (auto simp: best_at_def filter_empty_conv)

lemma best_at_Some:
  assumes "rows_ok rows"
  shows "best_at rows uid g bm = Some r \<longleftrightarrow>
    r \<in> set rows \<and> rows_at uid g bm r \<and> (\<forall>x \<in> set rows. rows_at uid g bm x \<longrightarrow> x \<noteq> r \<longrightarrow> tb_total x < tb_total r)"
    (is "?L \<longleftrightarrow> ?R")
proof
  assume ?L
  then have r: "r \<in> set rows" "rows_at uid g bm r" and le: "\<And>x. x \<in> set rows \<Longrightarrow> rows_at uid g bm x \<Longrightarrow> tb_total x \<le> tb_total r"
    using first_by_total_Some[of "filter (rows_at uid g bm) rows" r] by (auto simp: best_at_def)
  have "tb_total x < tb_total r" if "x \<in> set rows" "rows_at uid g bm x" "x \<noteq> r" for x
    using assms r that le[OF that(1,2)] unfolding rows_ok_def rows_at_def by (metis order_le_imp_less_or_eq)
  with r show ?R by blast
next
  assume ?R
  then show ?L unfolding best_at_def by (intro first_by_total_top) auto
qed

lemma rows_ok_same: "rows_ok rows \<Longrightarrow> x \<in> set rows \<Longrightarrow> y \<in> set rows \<Longrightarrow> tb_score x = tb_score y \<Longrightarrow> x = y"
  unfolding rows_ok_def by (meson distinct_map inj_onD)

section \<open>The four cases\<close>

text \<open>Nobody holds the play yet, and no other play of the player on the map has the same total.\<close>

definition new_total :: "play \<Rightarrow> total_best list \<Rightarrow> bool" where
  "new_total p rows \<longleftrightarrow> (\<forall>x \<in> set rows. tb_score x \<noteq> pl_id p
     \<and> (rows_at (pl_user p) (pl_mode p) (pl_beatmap p) x \<longrightarrow> tb_total x \<noteq> pl_total p))"

definition moved :: "play \<Rightarrow> total_best \<Rightarrow> total_best" where
  "moved p r = r\<lparr>tb_total := pl_total p, tb_rank := pl_rank p, tb_score := pl_id p\<rparr>"

lemma moved_simps [simp]:
  "tb_total (moved p r) = pl_total p" "tb_rank (moved p r) = pl_rank p" "tb_score (moved p r) = pl_id p"
  "tb_user (moved p r) = tb_user r" "tb_mode (moved p r) = tb_mode r" "tb_beatmap (moved p r) = tb_beatmap r"
  "rows_at uid g bm (moved p r) = rows_at uid g bm r"
  by (simp_all add: moved_def rows_at_def)

lemma total_best_of_simps [simp]:
  "tb_total (total_best_of p) = pl_total p" "tb_rank (total_best_of p) = pl_rank p" "tb_score (total_best_of p) = pl_id p"
  "tb_user (total_best_of p) = pl_user p" "tb_mode (total_best_of p) = pl_mode p" "tb_beatmap (total_best_of p) = pl_beatmap p"
  by (simp_all add: total_best_of_def)

lemma set_replace_best:
  assumes "rows_ok rows" "r \<in> set rows"
  shows "set (replace_best r p rows) = insert (moved p r) (set rows - {r})"
proof -
  have "set (replace_best r p rows) = (\<lambda>x. if x = r then moved p r else x) ` set rows"
    unfolding replace_best_def set_map moved_def using rows_ok_same[OF assms(1) _ assms(2)] by (intro image_cong refl) auto
  with assms(2) show ?thesis by auto
qed

lemma rows_ok_replace:
  assumes ok: "rows_ok rows" "r \<in> set rows" and new: "new_total p rows"
    and at: "rows_at (pl_user p) (pl_mode p) (pl_beatmap p) r"
  shows "rows_ok (replace_best r p rows)"
proof -
  have "map tb_score (replace_best r p rows) = map (\<lambda>x. if x = tb_score r then pl_id p else x) (map tb_score rows)"
    by (auto simp: replace_best_def)
  moreover have "distinct (map (\<lambda>x. if x = tb_score r then pl_id p else x) (map tb_score rows))"
    using ok(1) new unfolding rows_ok_def new_total_def by (subst distinct_map) (auto simp: inj_on_def)
  ultimately have d: "distinct (map tb_score (replace_best r p rows))" by simp
  have "x = y" if "x \<in> insert (moved p r) (set rows - {r})" "y \<in> insert (moved p r) (set rows - {r})"
    "rows_at (tb_user x) (tb_mode x) (tb_beatmap x) y" "tb_total x = tb_total y" for x y
    using that ok(1) new at unfolding rows_ok_def new_total_def rows_at_def by auto
  with d show ?thesis unfolding rows_ok_def set_replace_best[OF ok] by blast
qed

lemma rows_ok_delete: "rows_ok rows \<Longrightarrow> rows_ok (del_row tb_score i rows)"
  unfolding rows_ok_def del_row_def by (auto simp: distinct_map intro: inj_on_subset)

lemma rows_ok_append:
  assumes "rows_ok rows" "new_total p rows"
  shows "rows_ok (rows @ [total_best_of p])"
  using assms unfolding rows_ok_def new_total_def rows_at_def by auto

lemma best_at_cong:
  assumes "rows_ok a" "rows_ok b" and "\<And>x. rows_at u g m x \<Longrightarrow> x \<in> set a \<longleftrightarrow> x \<in> set b"
  shows "best_at a u g m = best_at b u g m"
proof -
  have "best_at a u g m = Some r \<longleftrightarrow> best_at b u g m = Some r" for r
    using assms by (auto simp: best_at_Some)
  then show ?thesis by (metis not_None_eq)
qed

text \<open>Whether the play is the player's new best on the map.\<close>

definition wins_map :: "play \<Rightarrow> total_best list \<Rightarrow> bool" where
  "wins_map p rows \<longleftrightarrow>
     (\<forall>x \<in> set rows. rows_at (pl_user p) (pl_mode p) (pl_beatmap p) x \<longrightarrow> tb_total x < pl_total p)"

lemma record_keeps_rows:
  assumes ok: "rows_ok rows" and new: "new_total p rows"
    and best: "\<And>r. best = Some r \<Longrightarrow> r \<in> set rows \<and> rows_at (pl_user p) (pl_mode p) (pl_beatmap p) r"
    and best_mod: "\<And>r. best_mod = Some r \<Longrightarrow> r \<in> set rows \<and> rows_at (pl_user p) (pl_mode p) (pl_beatmap p) r"
  shows "rows_ok (record_total_best p d best best_mod rows)"
proof -
  have shrink: "new_total p (del_row tb_score i rows)" for i using new by (auto simp: new_total_def del_row_def)
  have "m \<in> set (del_row tb_score (tb_score g) rows)" if "best = Some g" "best_mod = Some m" "tb_score g \<noteq> tb_score m" for g m
    using best_mod[OF that(2)] that(3) by (simp add: del_row_def)
  then show ?thesis
    using best best_mod rows_ok_append[OF ok new] rows_ok_replace[OF ok _ new]
      rows_ok_replace[OF rows_ok_delete[OF ok] _ shrink] rows_ok_delete[OF ok] ok
    by (auto simp: record_total_best_def split: option.split)
qed

lemma record_elsewhere:
  assumes "rows_ok rows" and "\<not> rows_at (pl_user p) (pl_mode p) (pl_beatmap p) x"
    and "\<And>r. best = Some r \<Longrightarrow> r \<in> set rows \<and> rows_at (pl_user p) (pl_mode p) (pl_beatmap p) r"
    and "\<And>r. best_mod = Some r \<Longrightarrow> r \<in> set rows \<and> rows_at (pl_user p) (pl_mode p) (pl_beatmap p) r"
  shows "x \<in> set (record_total_best p d best best_mod rows) \<longleftrightarrow> x \<in> set rows"
proof -
  have app: "x \<noteq> total_best_of p" using assms(2) by (auto simp: rows_at_def)
  have "x \<in> set (replace_best r p rs) \<longleftrightarrow> x \<in> set rs"
    if "rows_ok rs" "r \<in> set rs" "rows_at (pl_user p) (pl_mode p) (pl_beatmap p) r" for r rs
    using set_replace_best[OF that(1,2), of p] that(3) assms(2) by auto
  moreover have "x \<in> set (del_row tb_score (tb_score r) rows) \<longleftrightarrow> x \<in> set rows"
    if "r \<in> set rows" "rows_at (pl_user p) (pl_mode p) (pl_beatmap p) r" for r
    using rows_ok_same[OF assms(1) _ that(1)] that(2) assms(2) by (auto simp: del_row_def)
  moreover have "m \<in> set (del_row tb_score (tb_score g) rows)" if "best = Some g" "best_mod = Some m" "tb_score g \<noteq> tb_score m" for g m
    using assms(4)[OF that(2)] that(3) by (simp add: del_row_def)
  ultimately show ?thesis
    using app assms rows_ok_delete[OF assms(1)]
    by (auto simp: record_total_best_def split: option.split)
qed

lemma record_here:
  assumes ok: "rows_ok rows" and new: "new_total p rows"
    and best: "best = best_at rows (pl_user p) (pl_mode p) (pl_beatmap p)"
    and best_mod: "\<And>r. best_mod = Some r \<Longrightarrow> r \<in> set rows \<and> rows_at (pl_user p) (pl_mode p) (pl_beatmap p) r"
    and d: "best \<noteq> None \<Longrightarrow> d > 0 \<longleftrightarrow> wins_map p rows"
  shows "map_option (\<lambda>r. (tb_total r, tb_rank r))
           (best_at (record_total_best p d best best_mod rows) (pl_user p) (pl_mode p) (pl_beatmap p)) =
         (if wins_map p rows then Some (pl_total p, pl_rank p) else map_option (\<lambda>r. (tb_total r, tb_rank r)) best)"
  (is "map_option ?f (best_at ?rows' ?u ?g ?b) = _")
proof -
  let ?at = "rows_at ?u ?g ?b"
  have g: "g \<in> set rows \<and> ?at g \<and> (\<forall>x \<in> set rows. ?at x \<longrightarrow> x \<noteq> g \<longrightarrow> tb_total x < tb_total g)" if "best = Some g" for g
    using best_at_Some[OF ok] best that by metis
  have ok': "rows_ok ?rows'" by (rule record_keeps_rows[OF ok new]) (use g best_mod in blast)+
  show ?thesis
  proof (cases "wins_map p rows")
    case True
    have "\<exists>c \<in> set ?rows'. ?at c \<and> ?f c = (pl_total p, pl_rank p) \<and> set ?rows' \<subseteq> insert c (set rows)"
    proof (cases best_mod)
      case None
      then show ?thesis by (auto simp: record_total_best_def rows_at_def split: option.split)
    next
      case (Some m)
      note m = best_mod[OF Some]
      show ?thesis
      proof (cases best)
        case None
        then show ?thesis by (auto simp: record_total_best_def rows_at_def)
      next
        case (Some g0)
        have "d > 0" using d Some True by simp
        have "tb_total m < pl_total p" using m True by (simp add: wins_map_def)
        show ?thesis
        proof (cases "tb_score g0 = tb_score m")
          case True
          then have "?rows' = replace_best g0 p rows"
            using Some \<open>best_mod = Some m\<close> \<open>d > 0\<close> by (simp add: record_total_best_def)
          then show ?thesis using set_replace_best[OF ok, of g0 p] g[OF Some] by auto
        next
          case False
          then have rows': "?rows' = replace_best m p (del_row tb_score (tb_score g0) rows)"
            using Some \<open>best_mod = Some m\<close> \<open>d > 0\<close> \<open>tb_total m < pl_total p\<close> by (simp add: record_total_best_def)
          have "m \<in> set (del_row tb_score (tb_score g0) rows)" using m False by (simp add: del_row_def)
          from set_replace_best[OF rows_ok_delete[OF ok] this, of p] rows' m show ?thesis
            by (auto simp: del_row_def)
        qed
      qed
    qed
    then obtain c where c: "c \<in> set ?rows'" "?at c" "?f c = (pl_total p, pl_rank p)" "set ?rows' \<subseteq> insert c (set rows)"
      by blast
    then have "best_at ?rows' ?u ?g ?b = Some c"
      unfolding best_at_Some[OF ok'] using True unfolding wins_map_def by auto
    with True c(3) show ?thesis by simp
  next
    case False
    then obtain q where q: "q \<in> set rows" "?at q" "tb_total q > pl_total p"
      using new unfolding wins_map_def new_total_def by (meson linorder_neqE)
    have "best \<noteq> None" using q best by (metis best_at_None)
    then obtain g0 where b: "best = Some g0" by blast
    have "d \<le> 0" using d False b by auto
    have top: "pl_total p < tb_total g0" using q g[OF b] by force
    have "\<exists>c. g0 \<in> set ?rows' \<and> set ?rows' \<subseteq> insert c (set rows) \<and> tb_total c = pl_total p"
    proof (cases best_mod)
      case None
      then have "?rows' = rows @ [total_best_of p]" using b by (simp add: record_total_best_def)
      then show ?thesis using g[OF b] by (intro exI[of _ "total_best_of p"]) auto
    next
      case (Some m)
      note m = best_mod[OF Some]
      have "?rows' = rows \<or> g0 \<noteq> m \<and> ?rows' = replace_best m p rows"
        using b Some \<open>d \<le> 0\<close> by (auto simp: record_total_best_def)
      then show ?thesis using g[OF b] set_replace_best[OF ok, of m p] m
        by (intro exI[of _ "moved p m"]) auto
    qed
    then obtain c where "g0 \<in> set ?rows'" "set ?rows' \<subseteq> insert c (set rows)" "tb_total c = pl_total p" by blast
    then have "best_at ?rows' ?u ?g ?b = Some g0"
      unfolding best_at_Some[OF ok'] using top g[OF b] by auto
    with b False show ?thesis by simp
  qed
qed


section \<open>The ledger\<close>

type_synonym ledger = "int \<Rightarrow> (int \<times> rank) option"

definition user_ledger :: "total_best list \<Rightarrow> int \<Rightarrow> game_mode \<Rightarrow> ledger" where
  "user_ledger rows uid g bm = map_option (\<lambda>r. (tb_total r, tb_rank r)) (best_at rows uid g bm)"

definition keep_higher :: "play \<Rightarrow> ledger \<Rightarrow> ledger" where
  "keep_higher p f =
     (if case f (pl_beatmap p) of None \<Rightarrow> True | Some (t, _) \<Rightarrow> t < pl_total p
      then f(pl_beatmap p \<mapsto> (pl_total p, pl_rank p)) else f)"

definition ledger_sum :: "(int \<times> rank \<Rightarrow> int) \<Rightarrow> ledger \<Rightarrow> int" where
  "ledger_sum w f = (\<Sum>b \<in> dom f. w (the (f b)))"

lemma ledger_sum_upd:
  assumes "finite (dom f)"
  shows "ledger_sum w (f(b \<mapsto> v)) = ledger_sum w f + w v - (case f b of None \<Rightarrow> 0 | Some u \<Rightarrow> w u)"
proof -
  have split: "ledger_sum w h = (\<Sum>x \<in> dom h - {b}. w (the (h x))) + (case h b of None \<Rightarrow> 0 | Some u \<Rightarrow> w u)"
    if "finite (dom h)" for h
    unfolding ledger_sum_def using that sum.remove[of "dom h" b "\<lambda>x. w (the (h x))"]
    by (cases "h b") (auto simp: domIff)
  have "(\<Sum>x \<in> dom (f(b \<mapsto> v)) - {b}. w (the ((f(b \<mapsto> v)) x))) = (\<Sum>x \<in> dom f - {b}. w (the (f x)))"
    by (rule sum.cong) auto
  with split[OF assms] split[of "f(b \<mapsto> v)"] assms show ?thesis by simp
qed

lemma finite_ledger [simp]: "finite (dom (user_ledger rows uid g))"
proof (rule finite_subset)
  show "dom (user_ledger rows uid g) \<subseteq> tb_beatmap ` set rows"
  proof
    fix bm assume "bm \<in> dom (user_ledger rows uid g)"
    then have "best_at rows uid g bm \<noteq> None" by (auto simp: user_ledger_def)
    then show "bm \<in> tb_beatmap ` set rows" by (auto simp: best_at_None rows_at_def)
  qed
qed simp

lemma wins_map_ledger:
  assumes "rows_ok rows"
  shows "wins_map p rows \<longleftrightarrow>
    (case user_ledger rows (pl_user p) (pl_mode p) (pl_beatmap p) of None \<Rightarrow> True | Some (t, _) \<Rightarrow> t < pl_total p)"
proof (cases "best_at rows (pl_user p) (pl_mode p) (pl_beatmap p)")
  case None
  then have "\<forall>x \<in> set rows. \<not> rows_at (pl_user p) (pl_mode p) (pl_beatmap p) x" by (simp only: best_at_None)
  with None show ?thesis by (simp add: user_ledger_def wins_map_def)
next
  case (Some r)
  with best_at_Some[OF assms] have "r \<in> set rows" "rows_at (pl_user p) (pl_mode p) (pl_beatmap p) r"
    "\<forall>x \<in> set rows. rows_at (pl_user p) (pl_mode p) (pl_beatmap p) x \<longrightarrow> x \<noteq> r \<longrightarrow> tb_total x < tb_total r" by auto
  then show ?thesis using Some by (fastforce simp: user_ledger_def wins_map_def)
qed

lemma record_ledger:
  assumes ok: "rows_ok rows" and new: "new_total p rows"
    and best: "best = best_at rows (pl_user p) (pl_mode p) (pl_beatmap p)"
    and best_mod: "\<And>r. best_mod = Some r \<Longrightarrow> r \<in> set rows \<and> rows_at (pl_user p) (pl_mode p) (pl_beatmap p) r"
    and d: "best \<noteq> None \<Longrightarrow> d > 0 \<longleftrightarrow> wins_map p rows"
  shows "user_ledger (record_total_best p d best best_mod rows) uid g =
    (if uid = pl_user p \<and> g = pl_mode p then keep_higher p (user_ledger rows uid g) else user_ledger rows uid g)"
proof
  fix bm
  have b: "r \<in> set rows \<and> rows_at (pl_user p) (pl_mode p) (pl_beatmap p) r" if "best = Some r" for r
    using best_at_Some[OF ok] best that by metis
  have ok': "rows_ok (record_total_best p d best best_mod rows)" by (rule record_keeps_rows[OF ok new b best_mod])
  show "user_ledger (record_total_best p d best best_mod rows) uid g bm =
    (if uid = pl_user p \<and> g = pl_mode p then keep_higher p (user_ledger rows uid g) else user_ledger rows uid g) bm"
  proof (cases "uid = pl_user p \<and> g = pl_mode p \<and> bm = pl_beatmap p")
    case True
    then show ?thesis
      using record_here[OF ok new best best_mod d] wins_map_ledger[OF ok, of p] best
      by (simp add: keep_higher_def user_ledger_def)
  next
    case False
    have "x \<in> set (record_total_best p d best best_mod rows) \<longleftrightarrow> x \<in> set rows" if "rows_at uid g bm x" for x
      using record_elsewhere[OF ok _ b best_mod, where x = x] that False by (auto simp: rows_at_def)
    then have "user_ledger (record_total_best p d best best_mod rows) uid g bm = user_ledger rows uid g bm"
      unfolding user_ledger_def using best_at_cong[OF ok' ok] by simp
    with False show ?thesis by (auto simp: keep_higher_def)
  qed
qed

section \<open>The books\<close>

definition graded :: "rank set" where
  "graded = {Rank_XH, Rank_X, Rank_SH, Rank_S, Rank_A, Rank_B, Rank_C, Rank_D}"

text \<open>Ranked score and grade counts are the sums over the ledger.\<close>

definition balanced :: "ledger \<Rightarrow> user_statistics \<Rightarrow> bool" where
  "balanced f st \<longleftrightarrow> ranked_score st = ledger_sum fst f
     \<and> (\<forall>r \<in> graded. grades st r = ledger_sum (\<lambda>(t, q). of_bool (q = r)) f)"

lemma ledger_sum_nonneg: "(\<And>v. 0 \<le> w v) \<Longrightarrow> 0 \<le> ledger_sum w f"
  unfolding ledger_sum_def by (rule sum_nonneg) simp

lemma ledger_sum_ge:
  assumes "finite (dom f)" "f b = Some v" "\<And>v. 0 \<le> w v"
  shows "w v \<le> ledger_sum w f"
  using ledger_sum_upd[OF assms(1), of w b v] ledger_sum_nonneg[of w "f(b := None)"] assms
  by (smt (verit, best) domIff ledger_sum_def member_le_sum option.distinct(1) option.sel)

lemma grade_fields [simp]:
  "ranked_score (change_grade_count r d st) = ranked_score st"
  "us_total_score (change_grade_count r d st) = us_total_score st"
  "grades (change_grade_count r d st) =
     (if r \<in> graded then (grades st)(r := max 0 (grades st r + d)) else grades st)"
  by (simp_all add: change_grade_count_def graded_def)


lemma credit_books:
  assumes fin: "finite (dom f)" and bal: "balanced f st" and r: "pl_rank p \<in> graded" and passed: "sd_passed (pl_data p)"
    and best: "f (pl_beatmap p) = map_option (\<lambda>r. (tb_total r, tb_rank r)) best"
    and d: "d = pl_total p - (case best of None \<Rightarrow> 0 | Some r \<Rightarrow> tb_total r)" and pos: "pl_total p > 0"
  shows "balanced (keep_higher p f) (credit_score True p current d best st)"
proof (cases "d > 0")
  case False
  then obtain b where b: "best = Some b" using d pos by (cases best) auto
  with False d best have "keep_higher p f = f" by (simp add: keep_higher_def)
  then show ?thesis using bal False passed by (simp add: balanced_def credit_score_def Let_def)
next
  case True
  then have f': "keep_higher p f = f(pl_beatmap p \<mapsto> (pl_total p, pl_rank p))"
    using d best by (cases best) (auto simp: keep_higher_def)
  define w where "w q = (\<lambda>(t :: int, q'). of_bool (q' = q) :: int)" for q :: rank
  have bal_w: "grades st q = ledger_sum (w q) f" if "q \<in> graded" for q
    using bal that by (simp add: balanced_def w_def)
  have w0: "0 \<le> w q v" for q v by (simp add: w_def split: prod.split)
  have nonneg: "0 \<le> ledger_sum (w q) f" for q by (rule ledger_sum_nonneg[OF w0])
  have one: "1 \<le> ledger_sum (w (tb_rank b)) f" if "best = Some b" for b
    using ledger_sum_ge[of f "pl_beatmap p" "(tb_total b, tb_rank b)" "w (tb_rank b)", OF fin _ w0] that best
    by (simp add: w_def)
  have grades: "grades (credit_score True p current d best st) q = ledger_sum (w q) (keep_higher p f)" if q: "q \<in> graded" for q
  proof (cases best)
    case None
    then show ?thesis
      using True passed r q best bal_w[OF q] nonneg[of q]
      by (auto simp: credit_score_def Let_def f' ledger_sum_upd[OF fin] w_def)
  next
    case (Some b)
    then show ?thesis
      using True passed r q best bal_w[OF q] nonneg[of q] one[OF Some]
      by (auto simp: credit_score_def Let_def f' ledger_sum_upd[OF fin] w_def)
  qed
  have "ranked_score (credit_score True p current d best st) = ledger_sum fst (keep_higher p f)"
    using True passed bal d best
    by (cases best) (simp_all add: credit_score_def Let_def f' ledger_sum_upd[OF fin] balanced_def)
  with grades show ?thesis by (simp add: balanced_def w_def)
qed


text \<open>Every leaderboard row shows player, map and total of the play it names; every statistics row is balanced.\<close>

definition backs :: "play \<Rightarrow> total_best \<Rightarrow> bool" where
  "backs q r \<longleftrightarrow> pl_total q = tb_total r \<and> rows_at (pl_user q) (pl_mode q) (pl_beatmap q) r"

definition backed :: "profiles \<Rightarrow> bool" where
  "backed s \<longleftrightarrow> (\<forall>r \<in> set (total_bests s). \<exists>q. get_row pl_id (tb_score r) (plays s) = Some q \<and> backs q r)"

definition twin :: "play \<Rightarrow> play \<Rightarrow> bool" where
  "twin p q \<longleftrightarrow> pl_total q = pl_total p \<and> pl_user q = pl_user p \<and> pl_mode q = pl_mode p \<and> pl_beatmap q = pl_beatmap p"

definition books_ok :: "profiles \<Rightarrow> bool" where
  "books_ok s \<longleftrightarrow> rows_ok (total_bests s) \<and> backed s
     \<and> (\<forall>u g st. get_row statistics_key (u, g) (statistics_rows s) = Some st \<longrightarrow>
          balanced (user_ledger (total_bests s) u g) st)"

text \<open>The circumstances in which every leaderboard play counts for the ranked score.\<close>

definition settled :: "score_config \<Rightarrow> beatmap_policy \<Rightarrow> real \<Rightarrow> play \<Rightarrow> bool" where
  "settled cfg policy beatmap_length p \<longleftrightarrow>
     configured_scoring_mode cfg = STANDARDISED
     \<and> is_ranked_now cfg policy p = has_leaderboard_now cfg policy p
     \<and> (sd_passed (pl_data p) \<longrightarrow> pl_total p > 0 \<and> pl_rank p \<in> graded)
     \<and> (\<exists>x. calculate_playtime p beatmap_length = Inr x)"

definition counted :: "score_config \<Rightarrow> beatmap_policy \<Rightarrow> play \<Rightarrow> ledger \<Rightarrow> ledger" where
  "counted cfg policy p f = (if sd_passed (pl_data p) \<and> has_leaderboard_now cfg policy p then keep_higher p f else f)"

lemma balanced_fields:
  "ranked_score st' = ranked_score st \<Longrightarrow> grades st' = grades st \<Longrightarrow> balanced f st' = balanced f st"
  by (simp add: balanced_def)

lemma add_hits_fields [simp]:
  "ranked_score (add_hits p st) = ranked_score st" "grades (add_hits p st) = grades st"
  "us_user (add_hits p st) = us_user st" "us_mode (add_hits p st) = us_mode st"
  by (simp_all add: add_hits_def Let_def)

lemma credit_key [simp]:
  "us_user (credit_score c p cur d best st) = us_user st" "us_mode (credit_score c p cur d best st) = us_mode st"
  by (simp_all add: credit_score_def Let_def change_grade_count_def split: option.split)

lemma record_playtime_run:
  assumes "calculate_playtime p beatmap_length = Inr x"
  obtains s' st' where "record_playtime emit tk p uid beatmap_length st s = (Inr st', s')"
    "total_bests s' = total_bests s" "plays s' = plays s" "best_scores s' = best_scores s"
    "ranked_score st' = ranked_score st" "grades st' = grades st" "statistics_key st' = statistics_key st"
    "statistics_rows s' = (if snd x then put_row statistics_key st' (statistics_rows s) else statistics_rows s)"
proof -
  have cond: "do_if emit (modify f) = modify (\<lambda>s. if emit then f s else s)" for f :: "profiles \<Rightarrow> profiles"
    by (simp add: fun_eq_iff op_defs)
  obtain t v where x: "x = (t, v)" by (cases x)
  note run = record_playtime_def process_beatmap_playcount_def save_statistics_def cond run_simps assms[unfolded x]
  show thesis
  proof (cases v)
    case True
    show thesis
      by (rule that, simp only: run Let_def prod.case True if_True) (simp_all add: x True statistics_key_def)
  next
    case False
    show thesis
      by (rule that, simp only: run Let_def prod.case False if_False) (simp_all add: x False statistics_key_def)
  qed
qed

lemma display_of_best:
  assumes "backed s" "configured_scoring_mode cfg = STANDARDISED" "\<And>r. best = Some r \<Longrightarrow> r \<in> set (total_bests s)"
  shows "display_score_of_best cfg s best = Inr (case best of None \<Rightarrow> 0 | Some r \<Rightarrow> tb_total r)"
  using assms unfolding backed_def
  by (cases best) (fastforce simp: backs_def display_score_of_best_def display_score_def get_display_score_def)+

lemma best_mod_in:
  "get_user_best_score_with_mod_in_beatmap s bm uid ms g = Some r \<Longrightarrow> r \<in> set (total_bests s) \<and> rows_at uid g bm r"
  unfolding get_user_best_score_with_mod_in_beatmap_def by (drule first_by_total_Some) (auto simp: rows_at_def)


lemma balanced_credit:
  assumes books: "books_ok s" and row: "get_row statistics_key (pl_user p, pl_mode p) (statistics_rows s) = Some st"
    and good: "settled cfg policy beatmap_length p" and new: "sd_passed (pl_data p) \<Longrightarrow> new_total p (total_bests s)"
    and best: "best = best_at (total_bests s) (pl_user p) (pl_mode p) (pl_beatmap p)"
    and d: "d = pl_total p - (case best of None \<Rightarrow> 0 | Some r \<Rightarrow> tb_total r)"
    and best_mod: "\<And>r. best_mod = Some r \<Longrightarrow> r \<in> set (total_bests s) \<and> rows_at (pl_user p) (pl_mode p) (pl_beatmap p) r"
  defines "rows \<equiv> if sd_passed (pl_data p) \<and> has_leaderboard_now cfg policy p
                  then record_total_best p d best best_mod (total_bests s) else total_bests s"
  shows "balanced (counted cfg policy p (user_ledger (total_bests s) (pl_user p) (pl_mode p)))
           (credit_score (is_ranked_now cfg policy p) p (pl_total p) d best st)"
    and "user_ledger rows u g = (if u = pl_user p \<and> g = pl_mode p
           then counted cfg policy p (user_ledger (total_bests s) u g) else user_ledger (total_bests s) u g)"
    and "rows_ok rows"
proof -
  let ?f = "user_ledger (total_bests s) (pl_user p) (pl_mode p)"
  have ok: "rows_ok (total_bests s)" and bal: "balanced ?f st"
    using books row unfolding books_ok_def by blast+
  have f: "?f (pl_beatmap p) = map_option (\<lambda>r. (tb_total r, tb_rank r)) best" by (simp add: user_ledger_def best)
  have here: "r \<in> set (total_bests s) \<and> rows_at (pl_user p) (pl_mode p) (pl_beatmap p) r" if "best = Some r" for r
    using best_at_Some[OF ok] best that by metis
  have wins: "d > 0 \<longleftrightarrow> wins_map p (total_bests s)" if "best \<noteq> None"
    using that wins_map_ledger[OF ok, of p] d f by (cases best) auto
  show "balanced (counted cfg policy p ?f) (credit_score (is_ranked_now cfg policy p) p (pl_total p) d best st)"
  proof (cases "sd_passed (pl_data p) \<and> has_leaderboard_now cfg policy p")
    case True
    then show ?thesis
      using credit_books[OF finite_ledger bal _ _ f d] good by (simp add: settled_def counted_def)
  next
    case False
    then have "\<not> (sd_passed (pl_data p) \<and> is_ranked_now cfg policy p)" using good by (auto simp: settled_def)
    then show ?thesis
      using False bal balanced_fields[of "credit_score (is_ranked_now cfg policy p) p (pl_total p) d best st" st ?f]
      by (auto simp: counted_def credit_score_def Let_def)
  qed
  show "user_ledger rows u g = (if u = pl_user p \<and> g = pl_mode p
           then counted cfg policy p (user_ledger (total_bests s) u g) else user_ledger (total_bests s) u g)"
    using record_ledger[OF ok new best best_mod wins] by (auto simp: rows_def counted_def)
  show "rows_ok rows" using record_keeps_rows[OF ok new here best_mod] ok by (simp add: rows_def)
qed

lemma record_members:
  assumes "r \<in> set (record_total_best p d best best_mod rows)"
    and "\<And>r. best = Some r \<Longrightarrow> rows_at (pl_user p) (pl_mode p) (pl_beatmap p) r"
    and "\<And>r. best_mod = Some r \<Longrightarrow> rows_at (pl_user p) (pl_mode p) (pl_beatmap p) r"
    and "rows_ok rows"
    and "\<And>r. best = Some r \<Longrightarrow> r \<in> set rows" "\<And>r. best_mod = Some r \<Longrightarrow> r \<in> set rows"
  shows "r \<in> set rows \<or> tb_score r = pl_id p \<and> backs p r"
proof -
  have rep: "x \<in> set rs \<or> tb_score x = pl_id p \<and> backs p x"
    if "x \<in> set (replace_best b p rs)" "b \<in> set rs" "rows_ok rs" "rows_at (pl_user p) (pl_mode p) (pl_beatmap p) b" for x b rs
    using that set_replace_best[OF that(3,2), of p] by (auto simp: backs_def)
  have del: "m \<in> set (del_row tb_score (tb_score g) rows)" "set (del_row tb_score (tb_score g) rows) \<subseteq> set rows"
    if "best = Some g" "best_mod = Some m" "tb_score g \<noteq> tb_score m" for g m
    using assms(6)[OF that(2)] that(3) by (auto simp: del_row_def)
  have new: "backs p (total_best_of p)" by (simp add: backs_def rows_at_def)
  show ?thesis
  proof (cases "best = None \<or> best_mod = None")
    case True
    then have "r \<in> set (rows @ [total_best_of p])"
      using assms(1) by (cases best) (auto simp: record_total_best_def split: option.splits)
    with new show ?thesis by auto
  next
    case False
    then obtain g m where gm: "best = Some g" "best_mod = Some m" by auto
    note here = assms(2,5)[OF gm(1)] assms(3,6)[OF gm(2)]
    consider "r \<in> set rows" | "r \<in> set (replace_best g p rows)" | "r \<in> set (replace_best m p rows)"
      | "tb_score g \<noteq> tb_score m" "r \<in> set (replace_best m p (del_row tb_score (tb_score g) rows))"
      using assms(1) unfolding gm record_total_best_def
      by (auto simp: Let_def del_row_def split: if_splits)
    then show ?thesis
    proof cases
      case 4
      then show ?thesis
        using rep[OF 4(2) del(1)[OF gm 4(1)] rows_ok_delete[OF assms(4)] here(3)] del(2)[OF gm 4(1)] by blast
    qed (use rep here assms(4) in blast)+
  qed
qed

lemma backed_record:
  assumes "backed s" "get_row pl_id (pl_id p) (plays s) = Some q" "twin p q"
    and "r \<in> set (total_bests s) \<or> tb_score r = pl_id p \<and> backs p r"
  shows "\<exists>q. get_row pl_id (tb_score r) (plays s) = Some q \<and> backs q r"
  using assms unfolding backed_def twin_def backs_def by auto

lemma process_statistics_books:
  assumes books: "books_ok s" and row: "get_row statistics_key (pl_user p, pl_mode p) (statistics_rows s) = Some st"
    and good: "settled cfg policy beatmap_length p" and new: "sd_passed (pl_data p) \<Longrightarrow> new_total p (total_bests s)"
    and saved: "get_row pl_id (pl_id p) (plays s) = Some q" "twin p q"
  obtains s' where "process_statistics cfg emit tk (pl_user p) beatmap_length policy p s = (Inr (), s')"
    "books_ok s'" "plays s' = plays s" "best_scores s' = best_scores s"
    "\<And>u g. user_ledger (total_bests s') u g = (if u = pl_user p \<and> g = pl_mode p
       then counted cfg policy p (user_ledger (total_bests s) u g) else user_ledger (total_bests s) u g)"
    "\<And>u g. get_row statistics_key (u, g) (statistics_rows s') = None
       \<longleftrightarrow> get_row statistics_key (u, g) (statistics_rows s) = None"
    "\<And>r. r \<in> set (total_bests s') \<Longrightarrow> r \<in> set (total_bests s) \<or> tb_score r = pl_id p \<and> backs p r"
proof -
  let ?u = "pl_user p" and ?g = "pl_mode p"
  define best where "best = best_at (total_bests s) ?u ?g (pl_beatmap p)"
  define best_mod where "best_mod =
    get_user_best_score_with_mod_in_beatmap s (pl_beatmap p) ?u (mod_to_save (sd_mods (pl_data p))) ?g"
  define d where "d = pl_total p - (case best of None \<Rightarrow> 0 | Some r \<Rightarrow> tb_total r)"
  have in_mod: "r \<in> set (total_bests s) \<and> rows_at ?u ?g (pl_beatmap p) r" if "best_mod = Some r" for r
    using best_mod_in that unfolding best_mod_def by blast
  note credit = balanced_credit[OF books row good new best_def d_def in_mod]
  define st1 where "st1 = credit_score (is_ranked_now cfg policy p) p (pl_total p) d best st"
  define rows where "rows = (if sd_passed (pl_data p) \<and> has_leaderboard_now cfg policy p
     then record_total_best p d best best_mod (total_bests s) else total_bests s)"
  have standard: "configured_scoring_mode cfg = STANDARDISED" and bkd: "backed s" and ok: "rows_ok (total_bests s)"
    using good books by (simp_all add: settled_def books_ok_def)
  have in_best: "r \<in> set (total_bests s) \<and> rows_at ?u ?g (pl_beatmap p) r" if "best = Some r" for r
    using that best_at_Some[OF ok] best_def by metis
  have members: "r \<in> set rows \<Longrightarrow> r \<in> set (total_bests s) \<or> tb_score r = pl_id p \<and> backs p r" for r
    using record_members[of r p d best best_mod "total_bests s"] in_best in_mod ok by (auto simp: rows_def split: if_splits)
  have "r \<in> set (total_bests s)" if "best = Some r" for r using in_best[OF that] by blast
  then have shown: "display_score_of_best cfg s best = Inr (case best of None \<Rightarrow> 0 | Some r \<Rightarrow> tb_total r)"
    by (rule display_of_best[OF bkd standard])
  have current: "display_score cfg p = Inr (pl_total p)" by (simp add: display_score_def get_display_score_def standard)
  have key: "statistics_key st = (?u, ?g)" using row by (rule rows.get_key)
  obtain x where x: "calculate_playtime p beatmap_length = Inr x" using good by (auto simp: settled_def)
  define s1 where "s1 = s\<lparr>statistics_rows := put_row statistics_key st1 (statistics_rows s), total_bests := rows\<rparr>"
  have key1: "statistics_key st1 = (?u, ?g)" using key by (simp add: st1_def statistics_key_def)
  have t1: "total_bests s1 = rows" "plays s1 = plays s" "best_scores s1 = best_scores s" by (simp_all add: s1_def)
  obtain s2 st2 where run2: "record_playtime emit tk p ?u beatmap_length st1 s1 = (Inr st2, s2)"
    and same2: "total_bests s2 = rows" "plays s2 = plays s" "best_scores s2 = best_scores s"
    and st2: "ranked_score st2 = ranked_score st1" "grades st2 = grades st1" "statistics_key st2 = (?u, ?g)"
    and rows2: "statistics_rows s2 = (if snd x then put_row statistics_key st2 (statistics_rows s1) else statistics_rows s1)"
    by (rule record_playtime_run[OF x, of emit tk ?u st1 s1]) (rule that, simp_all add: key1 t1)
  define st3 where "st3 = add_hits p st2"
  have key3: "statistics_key st3 = (?u, ?g)" using st2(3) by (simp add: st3_def statistics_key_def)
  have run: "process_statistics cfg emit tk ?u beatmap_length policy p s =
      seq (save_statistics st3)
        (do_if (sd_passed (pl_data p) \<and> has_pp_now cfg policy p)
          (bnd (gets (\<lambda>s. calculate_user_pp s ?u ?g)) (\<lambda>(pp, acc). save_statistics (st3\<lparr>us_pp := pp, hit_accuracy := acc\<rparr>)))) s2"
  proof -
    have cond: "seq (do_if b (modify f)) k s' = k (if b then f s' else s')" for b f k and s' :: profiles
      by (simp add: op_defs)
    have s1: "(if sd_passed (pl_data p) \<and> has_leaderboard_now cfg policy p
        then s\<lparr>statistics_rows := put_row statistics_key st1 (statistics_rows s)\<rparr>
          \<lparr>total_bests := record_total_best p d best best_mod
            (total_bests (s\<lparr>statistics_rows := put_row statistics_key st1 (statistics_rows s)\<rparr>))\<rparr>
        else s\<lparr>statistics_rows := put_row statistics_key st1 (statistics_rows s)\<rparr>) = s1"
      by (simp add: s1_def rows_def)
    show ?thesis
      unfolding process_statistics_def Let_def best_at_query
      apply (simp only: run_simps(1-11) best_at_query best_def[symmetric] best_mod_def[symmetric] row option.case current shown d_def[symmetric]
        st1_def[symmetric] save_statistics_def[of st1] cond s1)
      apply (simp only: bnd_def[of "record_playtime emit tk p ?u beatmap_length st1"] run2 prod.case sum.case st3_def[symmetric])
      done
  qed
  let ?pp = "\<lambda>s'. st3\<lparr>us_pp := fst (calculate_user_pp s' ?u ?g), hit_accuracy := snd (calculate_user_pp s' ?u ?g)\<rparr>"
  have kpp: "statistics_key (?pp s') = (?u, ?g)" for s' using key3 by (simp add: statistics_key_def)
  have tables: "get_row statistics_key k (put_row statistics_key st3 (statistics_rows s2)) =
      (if k = (?u, ?g) then Some st3 else get_row statistics_key k (statistics_rows s))" for k
    by (simp add: rows2 s1_def key1 key3 st2(3) rows.get_put)
  have "\<exists>s' st4. process_statistics cfg emit tk ?u beatmap_length policy p s = (Inr (), s')
      \<and> total_bests s' = rows \<and> plays s' = plays s \<and> best_scores s' = best_scores s
      \<and> ranked_score st4 = ranked_score st1 \<and> grades st4 = grades st1
      \<and> (\<forall>k. get_row statistics_key k (statistics_rows s') = (if k = (?u, ?g) then Some st4 else get_row statistics_key k (statistics_rows s)))"
  proof (cases "sd_passed (pl_data p) \<and> has_pp_now cfg policy p")
    case True
    define s3 where "s3 = s2\<lparr>statistics_rows := put_row statistics_key st3 (statistics_rows s2)\<rparr>"
    define s4 where "s4 = s3\<lparr>statistics_rows := put_row statistics_key (?pp s3) (statistics_rows s3)\<rparr>"
    have "process_statistics cfg emit tk ?u beatmap_length policy p s = (Inr (), s4)"
      unfolding run using True by (simp add: save_statistics_def op_defs s3_def s4_def case_prod_beta)
    moreover have "get_row statistics_key k (statistics_rows s4) =
        (if k = (?u, ?g) then Some (?pp s3) else get_row statistics_key k (statistics_rows s))" for k
      using tables[of k] by (simp add: s4_def s3_def rows.get_put[of _ _ "?pp _"] kpp)
    moreover have "ranked_score (?pp s3) = ranked_score st1" "grades (?pp s3) = grades st1"
      by (simp_all add: st3_def st2)
    moreover have "total_bests s4 = rows" "plays s4 = plays s" "best_scores s4 = best_scores s"
      by (simp_all add: s4_def s3_def same2)
    ultimately show ?thesis by (intro exI[of _ s4] exI[of _ "?pp s3"]) blast
  next
    case False
    define s3 where "s3 = s2\<lparr>statistics_rows := put_row statistics_key st3 (statistics_rows s2)\<rparr>"
    have "process_statistics cfg emit tk ?u beatmap_length policy p s = (Inr (), s3)"
      unfolding run if_not_P[OF False] do_if_def by (simp add: save_statistics_def op_defs s3_def)
    moreover have "get_row statistics_key k (statistics_rows s3) =
        (if k = (?u, ?g) then Some st3 else get_row statistics_key k (statistics_rows s))" for k
      unfolding tables[of k, symmetric] by (simp add: s3_def)
    moreover have "ranked_score st3 = ranked_score st1" "grades st3 = grades st1"
      by (simp_all add: st3_def st2)
    moreover have "total_bests s3 = rows" "plays s3 = plays s" "best_scores s3 = best_scores s"
      by (simp_all add: s3_def same2)
    ultimately show ?thesis by (intro exI[of _ s3] exI[of _ st3]) blast
  qed
  then obtain s' st4 where s': "process_statistics cfg emit tk ?u beatmap_length policy p s = (Inr (), s')"
      "total_bests s' = rows" "plays s' = plays s" "best_scores s' = best_scores s"
      "ranked_score st4 = ranked_score st1" "grades st4 = grades st1"
    and get': "\<And>k. get_row statistics_key k (statistics_rows s') =
      (if k = (?u, ?g) then Some st4 else get_row statistics_key k (statistics_rows s))" by blast
  have ledger: "user_ledger (total_bests s') u g = (if u = ?u \<and> g = ?g
       then counted cfg policy p (user_ledger (total_bests s) u g) else user_ledger (total_bests s) u g)" for u g
    using credit(2)[where u = u and g = g] by (simp add: s'(2) rows_def)
  have "balanced (user_ledger (total_bests s') u g) st'" if "get_row statistics_key (u, g) (statistics_rows s') = Some st'" for u g st'
  proof (cases "u = ?u \<and> g = ?g")
    case True
    then have "st' = st4" using that by (simp add: get')
    then show ?thesis using credit(1) True balanced_fields[OF s'(5,6)] by (simp add: ledger st1_def)
  next
    case False
    then show ?thesis using that books by (auto simp: ledger get' books_ok_def)
  qed
  moreover have "backed s'"
    using backed_record[OF bkd saved members] unfolding backed_def s'(2,3) by blast
  moreover have "rows_ok (total_bests s')" using credit(3) by (simp add: s'(2) rows_def)
  ultimately have "books_ok s'" by (simp add: books_ok_def)
  moreover have "get_row statistics_key (u, g) (statistics_rows s') = None \<longleftrightarrow> get_row statistics_key (u, g) (statistics_rows s) = None" for u g
    using row by (simp add: get')
  moreover have "r \<in> set (total_bests s) \<or> tb_score r = pl_id p \<and> backs p r" if "r \<in> set (total_bests s')" for r
    using that members unfolding s'(2) by blast
  ultimately show thesis using that[OF s'(1) _ s'(3,4) ledger] by blast
qed


end
