(* ===== verification/PlayPoints.thy ===== *)
theory PlayPoints
  imports Profiles ModRules
begin

text \<open>
  The table of best plays (\<open>best_scores.py\<close>) and the points of a profile: processing a play refines one update
  of an abstract table, the total never drops, and total and accuracy are weighted sums within bounds.
\<close>

section \<open>The table of best plays\<close>

definition best_key :: "best_score \<Rightarrow> int \<times> int \<times> game_mode" where
  "best_key b = (b_user b, b_beatmap b, b_mode b)"

definition play_key :: "play \<Rightarrow> int \<times> int \<times> game_mode" where
  "play_key p = (pl_user p, pl_beatmap p, pl_mode p)"

definition bests_ok :: "best_score list \<Rightarrow> bool" where
  "bests_ok rows \<longleftrightarrow> distinct (map b_score rows) \<and> distinct (map best_key rows)"

abbreviation best_play :: "best_score list \<Rightarrow> int \<times> int \<times> game_mode \<Rightarrow> best_score option" where
  "best_play rows k \<equiv> get_row best_key k rows"

lemma best_query: "get_user_best_pp_in_beatmap s bm uid g = best_play (best_scores s) (uid, bm, g)"
  unfolding get_user_best_pp_in_beatmap_def get_row_def best_key_def by (rule arg_cong[where f = "\<lambda>P. find P _"]) auto

lemma best_row_key [simp]: "best_key (best_row_of p) = play_key p" "b_score (best_row_of p) = pl_id p" "b_pp (best_row_of p) = pl_pp p"
  by (simp_all add: best_key_def play_key_def best_row_of_def)

text \<open>The abstract operation: the first play of a map is the best, a later one if it has more points.\<close>

definition keep_best :: "play \<Rightarrow> (int \<times> int \<times> game_mode \<Rightarrow> best_score option) \<Rightarrow> int \<times> int \<times> game_mode \<Rightarrow> best_score option" where
  "keep_best p f =
     (case f (play_key p) of
        None \<Rightarrow> f(play_key p \<mapsto> best_row_of p)
      | Some b \<Rightarrow> if pl_pp p > b_pp b then f(play_key p \<mapsto> best_row_of p) else f)"

text \<open>The play is in the table at most as the best play of its own map.\<close>

definition at_home :: "play \<Rightarrow> best_score list \<Rightarrow> bool" where
  "at_home p rows \<longleftrightarrow> (\<forall>b \<in> set rows. b_score b = pl_id p \<longrightarrow> best_key b = play_key p)"

definition offered :: "play \<Rightarrow> best_score list \<Rightarrow> best_score list" where
  "offered p rows =
     (case best_play rows (play_key p) of
        None \<Rightarrow> rows @ [best_row_of p]
      | Some b \<Rightarrow> if pl_pp p > b_pp b then del_row b_score (b_score b) rows @ [best_row_of p] else rows)"

lemma offer_best_pp_run: "offer_best_pp p s = (Inr (), s\<lparr>best_scores := offered p (best_scores s)\<rparr>)"
  by (auto simp: offer_best_pp_def op_defs best_query offered_def play_key_def split: option.split)

lemma get_row_append: "get_row key k (t @ [r]) = (case get_row key k t of None \<Rightarrow> if key r = k then Some r else None | Some x \<Rightarrow> Some x)"
  unfolding get_row_def by (induction t) auto

lemma bests_same: "bests_ok rows \<Longrightarrow> x \<in> set rows \<Longrightarrow> y \<in> set rows \<Longrightarrow> b_score x = b_score y \<or> best_key x = best_key y \<Longrightarrow> x = y"
  unfolding bests_ok_def by (meson distinct_map inj_onD)

lemma best_of_in: "best_play rows k = Some b \<Longrightarrow> b \<in> set rows \<and> best_key b = k"
  by (auto simp: get_row_def dest: find_Some_in)

lemma best_of_iff: "bests_ok rows \<Longrightarrow> best_play rows k = Some b \<longleftrightarrow> b \<in> set rows \<and> best_key b = k"
  using best_of_in bests_same get_row_None[of best_key k rows]
  by (metis (no_types, opaque_lifting) not_None_eq)

lemma bests_ok_del: "bests_ok rows \<Longrightarrow> bests_ok (del_row b_score i rows)"
  by (auto simp: bests_ok_def del_row_def distinct_map intro: inj_on_subset)

lemma set_del_best:
  assumes "bests_ok rows" "b \<in> set rows"
  shows "set (del_row b_score (b_score b) rows) = set rows - {b}"
  using bests_same[OF assms(1) _ assms(2)] assms(2) by (auto simp: del_row_def)

lemma offered_ok:
  assumes ok: "bests_ok rows" and home: "at_home p rows"
  shows "bests_ok (offered p rows)" and "best_play (offered p rows) = keep_best p (best_play rows)"
proof -
  let ?k = "play_key p"
  have app: "bests_ok (t @ [best_row_of p])" if "bests_ok t" "\<forall>x \<in> set t. best_key x \<noteq> ?k" "set t \<subseteq> set rows" for t
    using that home by (fastforce simp: bests_ok_def at_home_def)
  have iff: "best_play (offered p rows) k = keep_best p (best_play rows) k" if "bests_ok (offered p rows)" for k
  proof (cases "best_play rows ?k")
    case None
    then show ?thesis
      by (auto simp: offered_def keep_best_def get_row_append split: option.split)
  next
    case (Some b)
    note b = best_of_in[OF Some]
    show ?thesis
    proof (cases "pl_pp p > b_pp b")
      case True
      then have o: "offered p rows = del_row b_score (b_score b) rows @ [best_row_of p]" by (simp add: offered_def Some)
      have "best_play (del_row b_score (b_score b) rows) k = (if k = ?k then None else best_play rows k)"
      proof (cases "k = ?k")
        case True
        then show ?thesis using set_del_best[OF ok, of b] b bests_same[OF ok, of _ b] by (auto simp: get_row_None)
      next
        case False
        have "best_play (del_row b_score (b_score b) rows) k = Some x \<longleftrightarrow> best_play rows k = Some x" for x
          using best_of_iff[OF ok] best_of_iff[OF bests_ok_del[OF ok]] set_del_best[OF ok, of b] b False by auto
        with False show ?thesis by (metis not_None_eq)
      qed
      then show ?thesis unfolding o get_row_append by (auto simp: keep_best_def Some True split: option.split)
    qed (simp add: offered_def keep_best_def Some)
  qed
  show ok': "bests_ok (offered p rows)"
  proof (cases "best_play rows ?k")
    case None
    then have "\<forall>x \<in> set rows. best_key x \<noteq> ?k" by (simp only: get_row_None)
    with None show ?thesis using app[OF ok] by (simp add: offered_def)
  next
    case (Some b)
    note b = best_of_in[OF Some]
    have "\<forall>x \<in> set (del_row b_score (b_score b) rows). best_key x \<noteq> ?k"
      using set_del_best[OF ok, of b] b bests_same[OF ok, of _ b] by auto
    then show ?thesis using app[OF bests_ok_del[OF ok]] set_del_best[OF ok, of b] b ok by (auto simp: offered_def Some)
  qed
  show "best_play (offered p rows) = keep_best p (best_play rows)" using iff[OF ok'] by (simp add: fun_eq_iff)
qed

section \<open>Weighted sums of ordered lists\<close>

text \<open>\<open>weigh f i\<close> starts the geometric weights at position \<open>i\<close>.\<close>

definition weigh :: "real list \<Rightarrow> real" where
  "weigh xs = (\<Sum>i < length xs. 0.95 ^ i * max (xs ! i) 0)"

lemma weighted_pp_max: "calculate_weighted_pp x i = 0.95 ^ i * max x 0" "calculate_weighted_acc x i = 0.95 ^ i * max x 0"
  by (auto simp: calculate_weighted_pp_def calculate_weighted_acc_def calculate_pp_weight_def max_def)

lemma enumerate_sum: "(\<Sum>(i, b)\<leftarrow>enumerate 0 bs. f b i) = (\<Sum>i < length bs. f (bs ! i) i :: real)"
proof -
  have "map (\<lambda>(i, b). f b i) (enumerate 0 bs) = map (\<lambda>i. f (bs ! i) i) [0..<length bs]"
    by (rule nth_equalityI) (simp_all add: nth_enumerate_eq)
  then have "(\<Sum>(i, b)\<leftarrow>enumerate 0 bs. f b i) = sum_list (map (\<lambda>i. f (bs ! i) i) [0..<length bs])" by (rule arg_cong)
  then show ?thesis by (simp add: interv_sum_list_conv_sum_set_nat lessThan_atLeast0)
qed

definition dominated :: "real list \<Rightarrow> real list \<Rightarrow> bool" where
  "dominated xs ys \<longleftrightarrow> length xs \<le> length ys \<and> (\<forall>i < length xs. xs ! i \<le> ys ! i)"

lemma weigh_mono:
  assumes "dominated xs ys"
  shows "weigh xs \<le> weigh ys"
proof -
  have "weigh xs \<le> (\<Sum>i < length xs. 0.95 ^ i * max (ys ! i) 0)"
    unfolding weigh_def using assms by (intro sum_mono mult_left_mono) (auto simp: dominated_def intro: max.mono)
  also have "\<dots> \<le> weigh ys"
    unfolding weigh_def using assms by (intro sum_mono2) (auto simp: dominated_def)
  finally show ?thesis .
qed

lemma dominated_take: "dominated xs ys \<Longrightarrow> dominated (take n xs) (take n ys)"
  by (auto simp: dominated_def)

abbreviation at_least :: "real \<Rightarrow> real list \<Rightarrow> nat" where
  "at_least t xs \<equiv> length (filter (\<lambda>x. t \<le> x) xs)"

lemma sorted_at_least:
  assumes "sorted_wrt (\<ge>) xs" "i < length xs"
  shows "t \<le> xs ! i \<longleftrightarrow> i < at_least t xs"
  using assms
proof (induction xs arbitrary: i)
  case (Cons x xs)
  show ?case
  proof (cases i)
    case 0
    have "filter (\<lambda>y. t \<le> y) xs = []" if "\<not> t \<le> x"
      using Cons.prems(1) that by (auto simp: filter_empty_conv)
    with 0 show ?thesis by auto
  next
    case (Suc j)
    then have j: "j < length xs" "xs ! j \<in> set xs" using Cons.prems(2) by auto
    then have "xs ! j \<le> x" using Cons.prems(1) by auto
    moreover have "t \<le> xs ! j \<longleftrightarrow> j < at_least t xs" using Cons j(1) by simp
    ultimately show ?thesis using Suc by auto
  qed
qed simp

lemma counts_dominate:
  assumes "sorted_wrt (\<ge>) xs" "sorted_wrt (\<ge>) ys" and "\<And>t. at_least t xs \<le> at_least t ys"
  shows "dominated xs ys"
proof -
  have reach: "i < length ys \<and> xs ! i \<le> ys ! i" if "i < length xs" for i
  proof -
    have "i < at_least (xs ! i) xs" using sorted_at_least[OF assms(1) that] by blast
    then have "i < at_least (xs ! i) ys" using assms(3) order.strict_trans2 by blast
    moreover from this have "i < length ys" using length_filter_le order.strict_trans2 by blast
    ultimately show ?thesis using sorted_at_least[OF assms(2)] by simp
  qed
  then have "length xs \<le> length ys" by (metis leI less_irrefl)
  with reach show ?thesis by (simp add: dominated_def)
qed

section \<open>Points of a profile\<close>

definition rows_of :: "int \<Rightarrow> game_mode \<Rightarrow> best_score list \<Rightarrow> best_score list" where
  "rows_of uid g rows = filter (\<lambda>b. b_user b = uid \<and> b_mode b = g) rows"

definition ranking :: "best_score list \<Rightarrow> best_score list" where
  "ranking rows = sort_key (\<lambda>b. (- b_pp b, - b_score b)) rows"

lemma best_pp_ranking: "get_user_best_pp s uid g = take 1000 (ranking (rows_of uid g (best_scores s)))"
  by (simp add: get_user_best_pp_def ranking_def rows_of_def)

lemma sorted_ranking: "sorted_wrt (\<ge>) (map b_pp (ranking rows))"
proof -
  have "sorted_wrt (\<lambda>a b. (- b_pp a, - b_score a) \<le> (- b_pp b, - b_score b)) (ranking rows)"
    using sorted_sort_key[of "\<lambda>b. (- b_pp b, - b_score b)" rows] unfolding ranking_def sorted_map .
  then show ?thesis unfolding sorted_wrt_map by (rule sorted_wrt_mono_rel[rotated]) (auto simp: less_eq_prod_def)
qed

lemma at_least_ranking: "at_least t (map b_pp (ranking rows)) = length (filter (\<lambda>b. t \<le> b_pp b) rows)"
  by (simp add: filter_map comp_def ranking_def filter_sort)

lemma unsigned_points:
  assumes "negative_rules s = []"
  shows "fst (calculate_user_pp s uid g) = weigh (take 1000 (map b_pp (ranking (rows_of uid g (best_scores s)))))"
proof -
  have "negative_map_ids s xs = []" for xs using assms by (simp add: negative_map_ids_def)
  then have "fst (calculate_user_pp s uid g) = (\<Sum>(i, b)\<leftarrow>enumerate 0 (get_user_best_pp s uid g). calculate_weighted_pp (b_pp b) i)"
    by (simp add: calculate_user_pp_def Let_def signed_weights_def)
  then show ?thesis
    by (simp add: enumerate_sum weighted_pp_max best_pp_ranking weigh_def take_map[symmetric])
qed

lemma offered_counts:
  assumes "bests_ok rows"
  shows "length (filter (\<lambda>b. t \<le> b_pp b) (rows_of u g rows)) \<le> length (filter (\<lambda>b. t \<le> b_pp b) (rows_of u g (offered p rows)))"
proof (cases "\<exists>b. best_play rows (play_key p) = Some b \<and> pl_pp p > b_pp b")
  case False
  then show ?thesis by (auto simp: offered_def rows_of_def split: option.split)
next
  case True
  then obtain b where b: "best_play rows (play_key p) = Some b" "pl_pp p > b_pp b" by blast
  obtain as cs where rows: "rows = as @ b # cs" using best_of_in[OF b(1)] by (meson split_list)
  have key: "best_key b = play_key p" using best_of_in[OF b(1)] by blast
  have "b_score b \<notin> b_score ` (set as \<union> set cs)" using assms unfolding rows bests_ok_def by auto
  then have "b_score x \<noteq> b_score b" if "x \<in> set as \<union> set cs" for x using that by (metis imageI)
  then have "filter (\<lambda>r. b_score r \<noteq> b_score b) as = as" "filter (\<lambda>r. b_score r \<noteq> b_score b) cs = cs"
    by (simp_all add: filter_id_conv)
  then have "del_row b_score (b_score b) rows = as @ cs" by (simp add: rows del_row_def)
  moreover have "b_user b = b_user (best_row_of p)" "b_mode b = b_mode (best_row_of p)"
    using key by (simp_all add: best_key_def play_key_def best_row_of_def)
  moreover have "b_pp b < b_pp (best_row_of p)" using b(2) by simp
  ultimately show ?thesis
    unfolding offered_def b(1) using b(2) by (auto simp: rows rows_of_def)
qed


section \<open>Processing a play\<close>

lemma process_score_pp_cases:
  obtains "\<not> can_get_pp cfg accepts mod_rules p"
      "process_score_pp cfg accepts mod_rules points queue p s = (Inr (True, p\<lparr>pl_pp := 0\<rparr>), s\<lparr>plays := put_row pl_id (p\<lparr>pl_pp := 0\<rparr>) (plays s)\<rparr>)"
  | "can_get_pp cfg accepts mod_rules p" "pl_pp p = 0" "points p = None"
      "process_score_pp cfg accepts mod_rules points queue p s =
         (Inr (False, p), if queue then s\<lparr>need_recalculate := need_recalculate s @ [pl_id p]\<rparr> else s)"
  | q where "can_get_pp cfg accepts mod_rules p" "pl_pp p \<noteq> 0 \<and> q = p \<or> pl_pp p = 0 \<and> (\<exists>x. points p = Some x \<and> q = p\<lparr>pl_pp := x\<rparr>)"
      "fst (process_score_pp cfg accepts mod_rules points queue p s) = Inr (True, q)"
      "best_scores (snd (process_score_pp cfg accepts mod_rules points queue p s)) = offered q (best_scores s)"
      "negative_rules (snd (process_score_pp cfg accepts mod_rules points queue p s)) = negative_rules s"
proof -
  note step = process_score_pp_def save_play_def seq_def bnd_def modify_def ret_def Let_def offer_best_pp_run do_if_def
  consider "\<not> can_get_pp cfg accepts mod_rules p" | "can_get_pp cfg accepts mod_rules p" "pl_pp p \<noteq> 0"
    | "can_get_pp cfg accepts mod_rules p" "pl_pp p = 0" "points p = None"
    | x where "can_get_pp cfg accepts mod_rules p" "pl_pp p = 0" "points p = Some x" by fastforce
  then show thesis
  proof cases
    case 1
    then show thesis by (intro that(1)) (simp_all add: step)
  next
    case 2
    then show thesis by (intro that(3)[of p]) (simp_all add: step)
  next
    case 3
    then show thesis by (intro that(2)) (simp_all add: step)
  next
    case 4
    then show thesis by (intro that(3)[of "p\<lparr>pl_pp := x\<rparr>"]) (simp_all add: step)
  qed
qed

text \<open>The points a play is worth once processed: none without permission, the cached ones, else the calculator's.\<close>

definition worth :: "score_config \<Rightarrow> (setting_rule \<Rightarrow> setting_value \<Rightarrow> bool) \<Rightarrow> (int \<Rightarrow> ranked_mods option) \<Rightarrow> (play \<Rightarrow> real option) \<Rightarrow> play \<Rightarrow> real option" where
  "worth cfg accepts mod_rules points p =
     (if \<not> can_get_pp cfg accepts mod_rules p then None else if pl_pp p \<noteq> 0 then Some (pl_pp p) else points p)"

text \<open>C21: processing the points of a play refines one update of an abstract table of best plays, "first play of
  the map, or more points than the old best"; a play that may not earn points, or whose points could not be
  computed, changes no entry.  The table keeps one row per player, map and mode.\<close>

theorem points_update_best_plays:
  assumes "bests_ok (best_scores s)" and "at_home p (best_scores s)"
  shows "\<exists>ready q s'. process_score_pp cfg accepts mod_rules points queue p s = (Inr (ready, q), s')
    \<and> bests_ok (best_scores s')
    \<and> best_play (best_scores s') =
        (case worth cfg accepts mod_rules points p of
           None \<Rightarrow> best_play (best_scores s)
         | Some x \<Rightarrow> keep_best (p\<lparr>pl_pp := x\<rparr>) (best_play (best_scores s)))
    \<and> (ready \<longleftrightarrow> can_get_pp cfg accepts mod_rules p \<longrightarrow> worth cfg accepts mod_rules points p \<noteq> None)"
proof (cases rule: process_score_pp_cases[of cfg accepts mod_rules p points queue s])
  case 1
  then show ?thesis using assms(1) by (simp add: worth_def ex_bool_eq)
next
  case 2
  then show ?thesis using assms(1) by (simp add: worth_def ex_bool_eq)
next
  case (3 q)
  have q: "worth cfg accepts mod_rules points p = Some (pl_pp q) \<and> q = p\<lparr>pl_pp := pl_pp q\<rparr>"
    using 3(1,2) by (auto simp: worth_def)
  define x where "x = pl_pp q"
  with q have "q = p\<lparr>pl_pp := x\<rparr>" by blast
  then have "pl_id q = pl_id p \<and> play_key q = play_key p" by (simp add: play_key_def)
  then have "at_home q (best_scores s)" using assms(2) by (simp add: at_home_def)
  note off = offered_ok[OF assms(1) this]
  have "process_score_pp cfg accepts mod_rules points queue p s =
      (Inr (True, q), snd (process_score_pp cfg accepts mod_rules points queue p s))" using 3(3) by (metis prod.collapse)
  then show ?thesis
    using off 3(4) q by (intro exI[of _ True] exI[of _ q] exI[of _ "snd (process_score_pp cfg accepts mod_rules points queue p s)"])
      simp
qed

text \<open>Without negative rules, processing a play never lowers the total points of anybody, in any mode.\<close>

theorem points_never_drop:
  assumes "bests_ok (best_scores s)" and "negative_rules s = []"
  shows "fst (calculate_user_pp s uid g)
       \<le> fst (calculate_user_pp (snd (process_score_pp cfg accepts mod_rules points queue p s)) uid g)"
proof (cases rule: process_score_pp_cases[of cfg accepts mod_rules p points queue s])
  case 1
  then show ?thesis using assms by (simp add: unsigned_points)
next
  case 2
  then show ?thesis using assms by (simp add: unsigned_points)
next
  case (3 q)
  have "dominated (map b_pp (ranking (rows_of uid g (best_scores s)))) (map b_pp (ranking (rows_of uid g (offered q (best_scores s)))))"
    by (rule counts_dominate[OF sorted_ranking sorted_ranking]) (simp only: at_least_ranking offered_counts[OF assms(1)])
  from weigh_mono[OF dominated_take[OF this, of 1000]] show ?thesis using assms(2) 3(4,5) by (simp add: unsigned_points)
qed


section \<open>Bounds of a profile\<close>

lemma weights_sum: "(\<Sum>i < n. 0.95 ^ i) = 20 * (1 - 0.95 ^ n :: real)"
  using geometric_sum[of "0.95 :: real" n] by simp

lemma weighted_between:
  assumes "\<And>x. x \<in> set xs \<Longrightarrow> lo \<le> x \<and> x \<le> hi" and "0 \<le> lo"
  shows "lo * (20 * (1 - 0.95 ^ length xs)) \<le> weigh xs" and "weigh xs \<le> hi * (20 * (1 - 0.95 ^ length xs))"
proof -
  have x: "lo \<le> max (xs ! i) 0 \<and> max (xs ! i) 0 \<le> hi" if "i < length xs" for i
    using assms(1)[OF nth_mem[OF that]] assms(2) by auto
  have "(\<Sum>i < length xs. 0.95 ^ i * lo) \<le> weigh xs"
    unfolding weigh_def using x by (intro sum_mono mult_left_mono) auto
  then show "lo * (20 * (1 - 0.95 ^ length xs)) \<le> weigh xs"
    by (simp only: sum_distrib_right[symmetric] weights_sum) (simp add: mult.commute)
  have "weigh xs \<le> (\<Sum>i < length xs. 0.95 ^ i * hi)"
    unfolding weigh_def using x by (intro sum_mono mult_left_mono) auto
  then show "weigh xs \<le> hi * (20 * (1 - 0.95 ^ length xs))"
    by (simp only: sum_distrib_right[symmetric] weights_sum) (simp add: mult.commute)
qed

lemma signed_below: "\<bar>signed_weights neg bps\<bar> \<le> weigh (map b_pp bps)"
proof -
  have "\<bar>\<Sum>i < length bps. calculate_weighted_pp (b_pp (bps ! i)) i * (if neg (b_beatmap (bps ! i)) then -1 else 1)\<bar>
      \<le> (\<Sum>i < length bps. \<bar>calculate_weighted_pp (b_pp (bps ! i)) i * (if neg (b_beatmap (bps ! i)) then -1 else 1)\<bar>)"
    by (rule sum_abs)
  also have "\<dots> = weigh (map b_pp bps)" by (auto simp: weigh_def weighted_pp_max abs_mult intro!: sum.cong)
  finally show ?thesis
    unfolding signed_weights_def
    using enumerate_sum[of "\<lambda>b i. calculate_weighted_pp (b_pp b) i * (if neg (b_beatmap b) then -1 else 1)" bps] by simp
qed

text \<open>C22: the totals of a profile stay within the plays they are made of: whatever the negative rules, the signed
  total is at most twenty times the largest best play in absolute value, and the profile accuracy is a weighted
  mean, between the lowest and the highest accuracy of the best plays (in percent), so the clamp to 0..100 never
  cuts it off.\<close>

theorem profile_totals_bounded:
  assumes rows: "rows_of uid g (best_scores s) \<noteq> []"
    and "\<forall>b \<in> set (rows_of uid g (best_scores s)). 0 \<le> b_pp b \<and> b_pp b \<le> M \<and> lo \<le> b_acc b \<and> b_acc b \<le> hi"
    and "0 \<le> lo" "hi \<le> 1"
  shows "\<bar>fst (calculate_user_pp s uid g)\<bar> \<le> 20 * M
    \<and> 100 * lo \<le> snd (calculate_user_pp s uid g) \<and> snd (calculate_user_pp s uid g) \<le> 100 * hi"
proof -
  let ?bps = "get_user_best_pp s uid g"
  define S where "S = 20 * (1 - 0.95 ^ length ?bps :: real)"
  have sub: "set ?bps \<subseteq> set (rows_of uid g (best_scores s))"
    using set_take_subset[of 1000 "ranking (rows_of uid g (best_scores s))"] by (simp add: best_pp_ranking ranking_def)
  have "length ?bps = min 1000 (length (rows_of uid g (best_scores s)))" by (simp add: best_pp_ranking ranking_def)
  then have "0 < length ?bps" using rows by (simp add: min_def)
  then have n: "0 < length ?bps" "?bps \<noteq> []" by auto
  have S: "0 < S" "S \<le> 20" using power_less_one_iff[of "0.95 :: real" "length ?bps"] n(1) by (simp_all add: S_def)
  have b: "0 \<le> x \<and> x \<le> M" if "x \<in> set (map b_pp ?bps)" for x using that sub assms(2) by auto
  have a: "lo \<le> x \<and> x \<le> hi" if "x \<in> set (map b_acc ?bps)" for x using that sub assms(2) by auto
  have "0 \<le> M" using b[of "b_pp (?bps ! 0)"] n by force
  have "\<bar>fst (calculate_user_pp s uid g)\<bar> \<le> weigh (map b_pp ?bps)"
    by (simp add: calculate_user_pp_def Let_def signed_below)
  also have "\<dots> \<le> M * S" using weighted_between(2)[of "map b_pp ?bps" 0 M] b by (simp add: S_def)
  also have "\<dots> \<le> 20 * M" using S \<open>0 \<le> M\<close> mult_left_mono[of S 20 M] by simp
  finally have pp: "\<bar>fst (calculate_user_pp s uid g)\<bar> \<le> 20 * M" .
  define w where "w = weigh (map b_acc ?bps)"
  have w: "lo * S \<le> w" "w \<le> hi * S"
    using weighted_between[of "map b_acc ?bps" lo hi] a assms(3) by (simp_all add: S_def w_def)
  have "snd (calculate_user_pp s uid g) = clamp (w * (100 / S)) 0 100"
    using n(2) enumerate_sum[of "\<lambda>b i. calculate_weighted_acc (b_acc b) i" ?bps]
    by (simp add: calculate_user_pp_def Let_def weighted_accuracy_def weighted_pp_max weigh_def w_def S_def)
  moreover have "100 * lo \<le> w * (100 / S)" "w * (100 / S) \<le> 100 * hi"
    using w S(1) by (simp_all add: field_simps)
  ultimately have "100 * lo \<le> snd (calculate_user_pp s uid g) \<and> snd (calculate_user_pp s uid g) \<le> 100 * hi"
    using assms(3,4) by (auto simp: clamp_def)
  with pp show ?thesis by blast
qed


section \<open>A player with one best play\<close>

definition demo_score_config :: score_config where
  "demo_score_config =
     \<lparr>game = demo_config, enable_all_beatmap_pp = False, enable_all_beatmap_leaderboard = False,
      configured_scoring_mode = STANDARDISED\<rparr>"

definition demo_policy :: beatmap_policy where
  "demo_policy = \<lparr>status_ranked = True, leaderboard_enabled = True, pp_enabled = True\<rparr>"

definition demo_play :: "int \<Rightarrow> int \<Rightarrow> rank \<Rightarrow> bool \<Rightarrow> play" where
  "demo_play i tot r processed =
     \<lparr>pl_id = i, pl_user = 7, pl_beatmap = 3,
      pl_data = \<lparr>sd_mode = OSU, sd_mods = [plain ''HD''], n300 = Some 90, n100 = Some 10, n50 = Some 0, nmiss = Some 0,
        ngeki = Some 0, nkatu = Some 0, nlarge_tick_miss = None, nlarge_tick_hit = None, nslider_tail_hit = None,
        nsmall_tick_hit = None, nsmall_tick_miss = None, maximum_statistics = [], sd_total_score = tot,
        sd_passed = True, sd_accuracy = 14 / 15\<rparr>,
      pl_without_mods = tot, pl_max_combo = 100, pl_rank = r, pl_started = 0, pl_ended = i * seconds 100, pl_pp = 0,
      pl_ranked = True, pl_leaderboard_eligible = True, pl_ranked_score_eligible = True, pl_snapshotted = True,
      pl_processed = processed\<rparr>"

lemma demo_fields [simp]:
  "pl_id (demo_play i tot r b) = i" "pl_user (demo_play i tot r b) = 7" "pl_mode (demo_play i tot r b) = OSU"
  "pl_beatmap (demo_play i tot r b) = 3" "pl_total (demo_play i tot r b) = tot" "pl_rank (demo_play i tot r b) = r"
  "pl_processed (demo_play i tot r b) = b" "sd_passed (pl_data (demo_play i tot r b))" "pl_ended (demo_play i tot r b) = i * seconds 100"
  "has_leaderboard_now demo_score_config demo_policy (demo_play i tot r b)"
  by (simp_all add: demo_play_def has_leaderboard_now_def demo_policy_def)

text \<open>Play 1 is the best play with 100 points and an accuracy of 95 percent; play 2 is worth 120 points.\<close>

definition demo_points :: profiles where
  "demo_points =
     \<lparr>plays = [demo_play 1 400000 Rank_B True, demo_play 2 500000 Rank_A False],
      best_scores = [\<lparr>b_user = 7, b_score = 1, b_beatmap = 3, b_mode = OSU, b_pp = 100, b_acc = 19 / 20\<rparr>],
      total_bests = [], statistics_rows = [], monthly_playcounts = [], beatmap_playcounts = [], need_recalculate = [],
      playtime_events = [], negative_rules = [], map_sets = [], mapper_credits = []\<rparr>"

definition hidden_ranked :: "int \<Rightarrow> ranked_mods option" where
  "hidden_ranked r = Some [(''HD'', [])]"

lemma demo_worth: "worth demo_score_config (\<lambda>_ _. True) hidden_ranked (\<lambda>_. Some 120) (demo_play 2 500000 Rank_A False) = Some 120"
  by (simp add: worth_def can_get_pp_def mods_can_get_pp_under_def hidden_ranked_def check_settings_def demo_play_def plain_def
      demo_score_config_def demo_config_def)

lemma demo_points_ok: "bests_ok (best_scores demo_points)" "at_home (demo_play 2 500000 Rank_A False) (best_scores demo_points)"
  "negative_rules demo_points = []"
  by (simp_all add: bests_ok_def at_home_def demo_points_def)

theorem points_update_best_plays_witness:
  "\<exists>q s'. process_score_pp demo_score_config (\<lambda>_ _. True) hidden_ranked (\<lambda>_. Some 120) True (demo_play 2 500000 Rank_A False) demo_points
      = (Inr (True, q), s')
    \<and> bests_ok (best_scores s')
    \<and> best_play (best_scores s') (7, 3, OSU) = Some (best_row_of ((demo_play 2 500000 Rank_A False)\<lparr>pl_pp := 120\<rparr>))"
proof -
  have old: "best_play (best_scores demo_points) (7, 3, OSU)
      = Some \<lparr>b_user = 7, b_score = 1, b_beatmap = 3, b_mode = OSU, b_pp = 100, b_acc = 19 / 20\<rparr>"
    by (simp add: get_row_def best_key_def demo_points_def)
  have "play_key ((demo_play 2 500000 Rank_A False)\<lparr>pl_pp := 120\<rparr>) = (7, 3, OSU)" by (simp add: play_key_def)
  with points_update_best_plays[OF demo_points_ok(1,2), of demo_score_config "\<lambda>_ _. True" hidden_ranked "\<lambda>_. Some 120" True] old
  show ?thesis by (auto simp: demo_worth keep_best_def dest!: fun_cong[where x = "(7, 3, OSU)"])
qed

theorem points_never_drop_witness:
  "100 \<le> fst (calculate_user_pp (snd (process_score_pp demo_score_config (\<lambda>_ _. True) hidden_ranked (\<lambda>_. Some 120) True
      (demo_play 2 500000 Rank_A False) demo_points)) 7 OSU)"
proof -
  have "fst (calculate_user_pp demo_points 7 OSU) = 100"
    by (simp add: unsigned_points demo_points_ok) (simp add: demo_points_def rows_of_def ranking_def weigh_def)
  with points_never_drop[OF demo_points_ok(1,3), of 7 OSU demo_score_config "\<lambda>_ _. True" hidden_ranked "\<lambda>_. Some 120" True
      "demo_play 2 500000 Rank_A False"]
  show ?thesis by simp
qed

theorem profile_totals_bounded_witness:
  "\<bar>fst (calculate_user_pp demo_points 7 OSU)\<bar> \<le> 2000 \<and> snd (calculate_user_pp demo_points 7 OSU) = 95"
proof -
  have "rows_of 7 OSU (best_scores demo_points) \<noteq> []"
    "\<forall>b \<in> set (rows_of 7 OSU (best_scores demo_points)). 0 \<le> b_pp b \<and> b_pp b \<le> 100 \<and> 19 / 20 \<le> b_acc b \<and> b_acc b \<le> 19 / 20"
    by (simp_all add: rows_of_def demo_points_def)
  from profile_totals_bounded[OF this] show ?thesis by simp
qed

end
