(* ===== verification/ReconcileRules.thy ===== *)
theory ReconcileRules
  imports Reconcile LedgerRules
begin

text \<open>
  Reconciliation after a full unrank: the rows of the retired maps disappear, the books of every player stay
  balanced, and the points of the players concerned are those of the remaining best plays.
\<close>

section \<open>The global best rows\<close>

lemma global_best_keys: "distinct (map fst (global_best_rows rows))"
proof -
  have keys: "fst ` set (put_key k v l) = insert k (fst ` set l)" for k v and l :: "('a \<times> 'b) list"
    using keys_put_key[of k v l] by (simp only: set_map)
  have put: "distinct (map fst l) \<Longrightarrow> distinct (map fst (put_key k v l))" for k v and l :: "('a \<times> 'b) list"
    by (induction k v l rule: put_key.induct) (simp_all add: keys)
  have "distinct (map fst acc) \<Longrightarrow> distinct (map fst (fold global_best_step rows acc))" for acc
    by (induction rows arbitrary: acc) (auto simp: global_best_step_def Let_def put split: option.split)
  from this[of "[]"] show ?thesis by (simp add: global_best_rows_def)
qed

lemma rows_ok_subset:
  assumes "rows_ok rows"
  shows "rows_ok (filter P rows)"
  using assms unfolding rows_ok_def by (auto simp: distinct_map intro: inj_on_subset)

lemma best_at_filter:
  assumes "rows_ok rows"
  shows "best_at (filter (\<lambda>r. P (tb_beatmap r)) rows) u g bm = (if P bm then best_at rows u g bm else None)"
proof (cases "P bm")
  case True
  then show ?thesis
    using best_at_cong[OF rows_ok_subset[OF assms] assms, of u g bm "\<lambda>r. P (tb_beatmap r)"] by (auto simp: rows_at_def)
next
  case False
  then show ?thesis by (auto simp: best_at_None rows_at_def)
qed

lemma best_at_append:
  assumes "rows_ok (rows @ [r])"
  shows "best_at (rows @ [r]) u g bm =
    (if \<not> rows_at u g bm r then best_at rows u g bm
     else case best_at rows u g bm of None \<Rightarrow> Some r | Some c \<Rightarrow> if better_row r c then Some r else Some c)"
proof -
  have ok: "rows_ok rows" using rows_ok_subset[OF assms, of "\<lambda>x. x \<in> set rows"] assms
    by (auto simp: rows_ok_def)
  have new: "r \<notin> set rows" using assms by (auto simp: rows_ok_def)
  show ?thesis
  proof (cases "rows_at u g bm r")
    case False
    then show ?thesis using best_at_cong[OF assms ok, of u g bm] by auto
  next
    case True
    show ?thesis
    proof (cases "best_at rows u g bm")
      case None
      then have "\<not> rows_at u g bm x" if "x \<in> set rows" for x using that by (simp only: best_at_None) blast
      then have "best_at (rows @ [r]) u g bm = Some r" unfolding best_at_Some[OF assms] using True by auto
      with None True show ?thesis by simp
    next
      case (Some c)
      have c: "c \<in> set rows" "rows_at u g bm c" "\<And>x. x \<in> set rows \<Longrightarrow> rows_at u g bm x \<Longrightarrow> x \<noteq> c \<Longrightarrow> tb_total x < tb_total c"
        using Some unfolding best_at_Some[OF ok] by auto
      have "tb_total r \<noteq> tb_total c" using assms c(1,2) True new unfolding rows_ok_def rows_at_def by auto
      then have better: "better_row r c \<longleftrightarrow> tb_total c < tb_total r" by (auto simp: better_row_def)
      show ?thesis
      proof (cases "tb_total c < tb_total r")
        case True
        then have "best_at (rows @ [r]) u g bm = Some r"
          unfolding best_at_Some[OF assms] using c \<open>rows_at u g bm r\<close> by force
        then show ?thesis using True Some better \<open>rows_at u g bm r\<close> by simp
      next
        case False
        then have "best_at (rows @ [r]) u g bm = Some c"
          unfolding best_at_Some[OF assms] using c \<open>tb_total r \<noteq> tb_total c\<close> by auto
        then show ?thesis using False Some better \<open>rows_at u g bm r\<close> by simp
      qed
    qed
  qed
qed

text \<open>The dictionary holds, for every player, map and mode, the best row of the leaderboard.\<close>

lemma global_best_rows_best:
  "rows_ok rows \<Longrightarrow> map_of (global_best_rows rows) (u, bm, g) = best_at rows u g bm"
proof (induction rows rule: rev_induct)
  case Nil
  then show ?case by (simp add: global_best_rows_def best_at_def first_by_total_def)
next
  case (snoc r rows)
  have "rows_ok rows" using rows_ok_subset[OF snoc.prems, of "\<lambda>x. x \<in> set rows"] snoc.prems by (auto simp: rows_ok_def)
  note IH = snoc.IH[OF this]
  have "global_best_rows (rows @ [r]) = global_best_step r (global_best_rows rows)" by (simp add: global_best_rows_def)
  then show ?case
    using best_at_append[OF snoc.prems, of u g bm] IH
    by (auto simp: global_best_step_def Let_def rows_at_def split: option.split)
qed

section \<open>Retiring the contributions\<close>

definition drop_entry :: "(int \<times> int \<times> game_mode) \<times> total_best \<Rightarrow> (int \<Rightarrow> game_mode \<Rightarrow> ledger) \<Rightarrow> int \<Rightarrow> game_mode \<Rightarrow> ledger" where
  "drop_entry = (\<lambda>((uid, bm, g), row) L u h. if u = uid \<and> h = g then (L u h)(bm := None) else L u h)"

lemma ledger_sum_drop:
  assumes "finite (dom f)"
  shows "ledger_sum w (f(b := None)) = ledger_sum w f - (case f b of None \<Rightarrow> 0 | Some u \<Rightarrow> w u)"
proof (cases "f b")
  case None
  then have "f(b := None) = f" by auto
  with None show ?thesis by simp
next
  case (Some v)
  have "finite (dom (f(b := None)))" using assms by (rule rev_finite_subset) (auto split: if_splits)
  from ledger_sum_upd[OF this, of w b v] Some show ?thesis by (simp add: fun_upd_idem)
qed

lemma retire_books:
  assumes fin: "finite (dom f)" and bal: "balanced f st" and row: "f bm = Some (tb_total r, tb_rank r)"
    and pos: "\<And>b t q. f b = Some (t, q) \<Longrightarrow> 0 \<le> t"
  shows "balanced (f(bm := None)) (change_grade_count (tb_rank r) (-1) (st\<lparr>ranked_score := max 0 (ranked_score st - tb_total r)\<rparr>))"
proof -
  let ?f = "f(bm := None)"
  have "0 \<le> ledger_sum fst ?f" unfolding ledger_sum_def using pos by (intro sum_nonneg) (auto simp: domIff split: if_splits)
  moreover have "ledger_sum fst ?f = ranked_score st - tb_total r"
    using ledger_sum_drop[OF fin, of fst bm] row bal by (simp add: balanced_def)
  moreover have gr: "(if q = tb_rank r then max 0 (grades st q - 1) else grades st q) = ledger_sum (\<lambda>(t, p). of_bool (p = q)) ?f"
    if "q \<in> graded" for q
    using ledger_sum_drop[OF fin, of "\<lambda>(t, p). of_bool (p = q)" bm] row bal that
      ledger_sum_nonneg[of "\<lambda>(t, p). of_bool (p = q)" ?f]
    by (auto simp: balanced_def split: if_splits prod.splits)
  moreover have "grades (change_grade_count (tb_rank r) (-1) st') q = ledger_sum (\<lambda>(t, p). of_bool (p = q)) ?f"
    if "q \<in> graded" "grades st' = grades st" for q st' using gr[OF that(1)] that by (auto split: if_splits)
  ultimately show ?thesis unfolding balanced_def grade_fields(1) by simp
qed

lemma retire_step:
  assumes std: "configured_scoring_mode cfg = STANDARDISED" and bm: "bm \<in> set beatmap_ids" and bkd: "backed s" "row \<in> set (total_bests s)"
    and bal: "\<And>v h st. get_row statistics_key (v, h) (statistics_rows s) = Some st \<Longrightarrow> balanced (L v h) st"
    and fin: "finite (dom (L u g))" and entry: "L u g bm = Some (tb_total row, tb_rank row)"
    and pos: "\<And>b t q. L u g b = Some (t, q) \<Longrightarrow> 0 \<le> t"
  obtains xs s' where "retire_contribution cfg beatmap_ids ((u, bm, g), row) s = (Inr xs, s')"
    "plays s' = plays s" "total_bests s' = total_bests s" "best_scores s' = best_scores s"
    "\<And>v h st. get_row statistics_key (v, h) (statistics_rows s') = Some st \<Longrightarrow> balanced (drop_entry ((u, bm, g), row) L v h) st"
    "\<And>k. get_row statistics_key k (statistics_rows s') = None \<longleftrightarrow> get_row statistics_key k (statistics_rows s) = None"
proof (cases "get_row statistics_key (u, g) (statistics_rows s)")
  case None
  then have run: "retire_contribution cfg beatmap_ids ((u, bm, g), row) s = (Inr [], s)"
    using bm by (simp add: retire_contribution_def run_simps)
  have "balanced (drop_entry ((u, bm, g), row) L v h) st" if "get_row statistics_key (v, h) (statistics_rows s) = Some st" for v h st
    using bal[OF that] None that by (auto simp: drop_entry_def)
  with run show thesis by (intro that[of "[]" s]) simp_all
next
  case (Some st)
  have shown: "display_score_of_best cfg s (Some row) = Inr (tb_total row)"
    using display_of_best[OF bkd(1) std, of "Some row"] bkd(2) by simp
  define st' where "st' = change_grade_count (tb_rank row) (-1) (st\<lparr>ranked_score := max 0 (ranked_score st - tb_total row)\<rparr>)"
  define s' where "s' = s\<lparr>statistics_rows := put_row statistics_key st' (statistics_rows s)\<rparr>"
  have run: "retire_contribution cfg beatmap_ids ((u, bm, g), row) s = (Inr [(u, g)], s')"
    using bm Some shown by (simp add: retire_contribution_def save_statistics_def run_simps st'_def s'_def)
  have key: "statistics_key st' = (u, g)"
    using rows.get_key[OF Some] by (simp add: st'_def statistics_key_def change_grade_count_def)
  have "balanced ((L u g)(bm := None)) st'"
    unfolding st'_def by (rule retire_books[OF fin bal[OF Some] entry pos])
  then have "balanced (drop_entry ((u, bm, g), row) L v h) x"
    if "get_row statistics_key (v, h) (statistics_rows s') = Some x" for v h x
    using that bal[of v h x] by (auto simp: s'_def drop_entry_def rows.get_put key split: if_splits)
  moreover have "get_row statistics_key k (statistics_rows s') = None \<longleftrightarrow> get_row statistics_key k (statistics_rows s) = None" for k
    using Some by (simp add: s'_def rows.get_put key)
  ultimately show thesis by (intro that[OF run]) (simp_all add: s'_def)
qed

lemma retire_loop:
  assumes std: "configured_scoring_mode cfg = STANDARDISED" and "distinct (map fst es)" and "backed s"
    and "\<And>u bm g row. ((u, bm, g), row) \<in> set es \<Longrightarrow> bm \<in> set beatmap_ids \<and> row \<in> set (total_bests s)
           \<and> L u g bm = Some (tb_total row, tb_rank row)"
    and "\<And>v h st. get_row statistics_key (v, h) (statistics_rows s) = Some st \<Longrightarrow> balanced (L v h) st"
    and "\<And>u g. finite (dom (L u g))" and "\<And>u g b t q. L u g b = Some (t, q) \<Longrightarrow> 0 \<le> t"
  shows "\<exists>xs s'. collect es (retire_contribution cfg beatmap_ids) s = (Inr xs, s')
    \<and> plays s' = plays s \<and> total_bests s' = total_bests s \<and> best_scores s' = best_scores s
    \<and> (\<forall>v h st. get_row statistics_key (v, h) (statistics_rows s') = Some st \<longrightarrow> balanced (fold drop_entry es L v h) st)
    \<and> (\<forall>k. get_row statistics_key k (statistics_rows s') = None \<longleftrightarrow> get_row statistics_key k (statistics_rows s) = None)"
  using assms(2-)
proof (induction es arbitrary: s L)
  case Nil
  then show ?case by (simp add: ret_def)
next
  case (Cons e es)
  obtain u bm g row where e: "e = ((u, bm, g), row)" by (metis prod.exhaust)
  have first: "bm \<in> set beatmap_ids" "row \<in> set (total_bests s)" "L u g bm = Some (tb_total row, tb_rank row)"
    using Cons.prems(3)[of u bm g row] by (simp_all add: e)
  obtain xs s1 where s1: "retire_contribution cfg beatmap_ids ((u, bm, g), row) s = (Inr xs, s1)"
    "plays s1 = plays s" "total_bests s1 = total_bests s" "best_scores s1 = best_scores s"
    "\<And>v h st. get_row statistics_key (v, h) (statistics_rows s1) = Some st \<Longrightarrow> balanced (drop_entry ((u, bm, g), row) L v h) st"
    "\<And>k. get_row statistics_key k (statistics_rows s1) = None \<longleftrightarrow> get_row statistics_key k (statistics_rows s) = None"
    by (rule retire_step[where L = L, OF std first(1) Cons.prems(2) first(2) _ Cons.prems(5) first(3)])
      (rule Cons.prems(4), assumption, rule Cons.prems(6), assumption, (rule that; assumption))
  let ?L = "drop_entry ((u, bm, g), row) L"
  have "backed s1" using Cons.prems(2) by (simp add: backed_def s1(2,3))
  moreover have "b \<in> set beatmap_ids \<and> r \<in> set (total_bests s1) \<and> ?L v h b = Some (tb_total r, tb_rank r)"
    if "((v, b, h), r) \<in> set es" for v b h r
  proof -
    have "(v, b, h) \<noteq> (u, bm, g)" using Cons.prems(1) that e by (auto simp: image_iff)
    then show ?thesis using Cons.prems(3)[of v b h r] that by (auto simp: drop_entry_def s1(3))
  qed
  moreover have "finite (dom (?L v h))" for v h
    using Cons.prems(5)[of v h] by (rule rev_finite_subset) (auto simp: drop_entry_def split: if_splits)
  moreover have "0 \<le> t" if "?L v h b = Some (t, q)" for v h b t q
    using Cons.prems(6) that by (auto simp: drop_entry_def split: if_splits)
  moreover have "distinct (map fst es)" using Cons.prems(1) by simp
  ultimately obtain ys s2 where s2: "collect es (retire_contribution cfg beatmap_ids) s1 = (Inr ys, s2)"
    "plays s2 = plays s1" "total_bests s2 = total_bests s1" "best_scores s2 = best_scores s1"
    "\<And>v h st. get_row statistics_key (v, h) (statistics_rows s2) = Some st \<Longrightarrow> balanced (fold drop_entry es ?L v h) st"
    "\<And>k. get_row statistics_key k (statistics_rows s2) = None \<longleftrightarrow> get_row statistics_key k (statistics_rows s1) = None"
    using Cons.IH[of s1 ?L] s1(5) by blast
  have "collect (e # es) (retire_contribution cfg beatmap_ids) s = (Inr (xs # ys), s2)"
    using s1(1) s2(1) by (simp add: e bnd_def ret_def)
  then show ?case using s1(2-4,6) s2(2-6) by (intro exI[of _ "xs # ys"] exI[of _ s2]) (simp add: e)
qed

lemma fold_drop: "fold drop_entry es L u g bm = (if (u, bm, g) \<in> fst ` set es then None else L u g bm)"
proof (induction es arbitrary: L)
  case (Cons e es)
  obtain v b h r where e: "e = ((v, b, h), r)" by (metis prod.exhaust)
  have "fold drop_entry (e # es) L u g bm = (if (u, bm, g) \<in> fst ` set es then None else drop_entry e L u g bm)"
    by (simp add: Cons.IH)
  then show ?case by (simp add: e drop_entry_def)
qed simp


section \<open>Repairing the statistics\<close>

text \<open>Both repairs write a function of the tables into the statistics rows of a list of players and modes.\<close>

definition tune :: "(profiles \<Rightarrow> int \<Rightarrow> game_mode \<Rightarrow> user_statistics \<Rightarrow> user_statistics) \<Rightarrow> (int \<times> game_mode) list \<Rightarrow> (profiles, unit) op" where
  "tune f keys = for_each keys (\<lambda>(uid, g).
     bnd (gets (\<lambda>s. get_row statistics_key (uid, g) (statistics_rows s))) (\<lambda>found.
     case found of None \<Rightarrow> ret () | Some st \<Rightarrow> bnd (gets (\<lambda>s. f s uid g st)) save_statistics))"

lemma tune_run:
  assumes "distinct keys"
    and indep: "\<And>s t. f (s\<lparr>statistics_rows := t\<rparr>) = f s"
    and key: "\<And>s u g st. statistics_key (f s u g st) = statistics_key st"
  shows "\<exists>t. tune f keys s = (Inr (), s\<lparr>statistics_rows := t\<rparr>)
    \<and> (\<forall>k. get_row statistics_key k t =
         (if k \<in> set keys then map_option (f s (fst k) (snd k)) (get_row statistics_key k (statistics_rows s))
          else get_row statistics_key k (statistics_rows s)))"
  using assms(1)
proof (induction keys arbitrary: s)
  case Nil
  then show ?case by (intro exI[of _ "statistics_rows s"]) (simp add: tune_def ret_def)
next
  case (Cons k ks)
  obtain u g where k: "k = (u, g)" by (cases k)
  define t1 where "t1 = (case get_row statistics_key k (statistics_rows s) of
     None \<Rightarrow> statistics_rows s | Some st \<Rightarrow> put_row statistics_key (f s u g st) (statistics_rows s))"
  have t1: "get_row statistics_key j t1 = (if j = k then map_option (f s u g) (get_row statistics_key k (statistics_rows s))
      else get_row statistics_key j (statistics_rows s))" for j
    using rows.get_key[of statistics_key k "statistics_rows s"]
    by (auto simp: t1_def rows.get_put key split: option.split)
  have first: "tune f (k # ks) s = tune f ks (s\<lparr>statistics_rows := t1\<rparr>)"
    by (cases "get_row statistics_key k (statistics_rows s)")
      (simp_all add: tune_def k t1_def save_statistics_def op_defs)
  obtain t where t: "tune f ks (s\<lparr>statistics_rows := t1\<rparr>) = (Inr (), s\<lparr>statistics_rows := t1\<rparr>\<lparr>statistics_rows := t\<rparr>)"
    "\<And>j. get_row statistics_key j t = (if j \<in> set ks then map_option (f s (fst j) (snd j)) (get_row statistics_key j t1)
       else get_row statistics_key j t1)"
    using Cons.IH[of "s\<lparr>statistics_rows := t1\<rparr>"] Cons.prems by (auto simp: indep)
  have "k \<notin> set ks" using Cons.prems by simp
  then show ?case using t by (intro exI[of _ t]) (auto simp: first[unfolded k] t1 k)
qed

lemma distinct_order [simp]: "distinct (user_mode_order keys)" "set (user_mode_order keys) = set keys"
  by (simp_all add: user_mode_order_def)

lemma user_pp_indep [simp]: "calculate_user_pp (s\<lparr>statistics_rows := t\<rparr>) u g = calculate_user_pp s u g"
  by (simp add: calculate_user_pp_def get_user_best_pp_def negative_map_ids_def Let_def)

lemma rebuilt_combo_indep [simp]: "rebuilt_combo (s\<lparr>statistics_rows := t\<rparr>) u g = rebuilt_combo s u g"
  by (simp add: rebuilt_combo_def)

definition with_pp :: "profiles \<Rightarrow> int \<Rightarrow> game_mode \<Rightarrow> user_statistics \<Rightarrow> user_statistics" where
  "with_pp s u g st = st\<lparr>us_pp := fst (calculate_user_pp s u g), hit_accuracy := snd (calculate_user_pp s u g)\<rparr>"

definition with_combo :: "profiles \<Rightarrow> int \<Rightarrow> game_mode \<Rightarrow> user_statistics \<Rightarrow> user_statistics" where
  "with_combo s u g st = st\<lparr>maximum_combo :=
     (if list_ex (\<lambda>p. pl_user p = u \<and> pl_mode p = g \<and> \<not> pl_snapshotted p) (plays s)
      then max (maximum_combo st) (rebuilt_combo s u g) else rebuilt_combo s u g)\<rparr>"

lemma with_fields:
  "with_pp (s\<lparr>statistics_rows := t\<rparr>) = with_pp s" "with_combo (s\<lparr>statistics_rows := t\<rparr>) = with_combo s"
  "statistics_key (with_pp s u g st) = statistics_key st" "statistics_key (with_combo s u g st) = statistics_key st"
  "ranked_score (with_pp s u g st) = ranked_score st" "ranked_score (with_combo s u g st) = ranked_score st"
  "grades (with_pp s u g st) = grades st" "grades (with_combo s u g st) = grades st"
  "(us_pp (with_pp s u g st), hit_accuracy (with_pp s u g st)) = calculate_user_pp s u g"
  by (simp_all add: with_pp_def with_combo_def statistics_key_def fun_eq_iff)

lemma repair_pp_tune: "repair_pp keys = tune with_pp (user_mode_order keys)"
  unfolding repair_pp_def tune_def with_pp_def
  by (intro arg_cong[where f = "for_each _"] ext)
    (simp add: bnd_def gets_def ret_def split: prod.split option.split)

lemma repair_combo_tune: "repair_maximum_combo keys = tune with_combo (user_mode_order keys)"
  unfolding repair_maximum_combo_def tune_def with_combo_def
  by (intro arg_cong[where f = "for_each _"] ext)
    (simp add: bnd_def gets_def ret_def split: prod.split option.split)

lemma repairs_run:
  obtains t where "seq (repair_maximum_combo ks) (seq (repair_pp ps) k) s = k (s\<lparr>statistics_rows := t\<rparr>)"
    "\<And>j. get_row statistics_key j t = None \<longleftrightarrow> get_row statistics_key j (statistics_rows s) = None"
    "\<And>j st'. get_row statistics_key j t = Some st' \<Longrightarrow>
       \<exists>st. get_row statistics_key j (statistics_rows s) = Some st \<and> ranked_score st' = ranked_score st \<and> grades st' = grades st
         \<and> (j \<in> set ps \<longrightarrow> (us_pp st', hit_accuracy st') = calculate_user_pp s (fst j) (snd j))"
proof -
  note run = tune_run[OF distinct_order(1)]
  obtain t1 where t1: "repair_maximum_combo ks s = (Inr (), s\<lparr>statistics_rows := t1\<rparr>)"
    "\<And>j. get_row statistics_key j t1 = (if j \<in> set ks
       then map_option (with_combo s (fst j) (snd j)) (get_row statistics_key j (statistics_rows s))
       else get_row statistics_key j (statistics_rows s))"
    unfolding repair_combo_tune using run[of with_combo ks s, OF with_fields(2,4)] by auto
  let ?s1 = "s\<lparr>statistics_rows := t1\<rparr>"
  obtain t2 where t2: "repair_pp ps ?s1 = (Inr (), s\<lparr>statistics_rows := t2\<rparr>)"
    "\<And>j. get_row statistics_key j t2 = (if j \<in> set ps
       then map_option (with_pp s (fst j) (snd j)) (get_row statistics_key j t1) else get_row statistics_key j t1)"
    unfolding repair_pp_tune using run[of with_pp ps ?s1, OF with_fields(1,3)] by (auto simp: with_fields(1))
  show thesis
  proof (rule that[of t2])
    show "seq (repair_maximum_combo ks) (seq (repair_pp ps) k) s = k (s\<lparr>statistics_rows := t2\<rparr>)"
      by (simp add: seq_def bnd_def t1(1) t2(1))
    show "get_row statistics_key j t2 = None \<longleftrightarrow> get_row statistics_key j (statistics_rows s) = None" for j
      by (simp add: t1(2) t2(2))
    show "\<exists>st. get_row statistics_key j (statistics_rows s) = Some st \<and> ranked_score st' = ranked_score st \<and> grades st' = grades st
         \<and> (j \<in> set ps \<longrightarrow> (us_pp st', hit_accuracy st') = calculate_user_pp s (fst j) (snd j))"
      if "get_row statistics_key j t2 = Some st'" for j st'
      using that by (cases "j \<in> set ps"; cases "j \<in> set ks") (auto simp: t1(2) t2(2) with_fields)
  qed
qed

section \<open>A full unrank\<close>

text \<open>Every listed map loses leaderboard, points and ranked score: Ranked to Graveyard, for example.\<close>

definition full_unrank :: "transition list \<Rightarrow> bool" where
  "full_unrank ts \<longleftrightarrow>
     list_all (\<lambda>t. disable_leaderboard t \<and> disable_pp t \<and> disable_ranked_score t \<and> \<not> reset_ranked_score_epoch t) ts"

lemma full_unrank_maps:
  assumes "full_unrank ts"
  shows "filter (\<lambda>t. disable_leaderboard t \<or> reset_ranked_score_epoch t) ts = ts" "filter disable_pp ts = ts"
    "filter disable_ranked_score ts = ts" "filter reset_ranked_score_epoch ts = []" "filter retires ts = ts"
  using assms by (simp_all add: full_unrank_def list_all_iff filter_id_conv filter_empty_conv retires_def)

lemma get_row_map: "(\<And>x. key (f x) = key x) \<Longrightarrow> get_row key k (map f t) = map_option f (get_row key k t)"
  by (induction t) (simp_all add: get_row_def)

lemma retract_fields [simp]:
  "pl_id (retract_play a b c p) = pl_id p" "pl_data (retract_play a b c p) = pl_data p"
  "pl_user (retract_play a b c p) = pl_user p" "pl_beatmap (retract_play a b c p) = pl_beatmap p"
  by (simp_all add: retract_play_def Let_def)

lemma unranked_ledger:
  assumes "rows_ok rows"
  shows "user_ledger (filter (\<lambda>r. tb_beatmap r \<notin> M) rows) u g bm = (if bm \<in> M then None else user_ledger rows u g bm)"
    and "fold drop_entry (global_best_rows (filter (\<lambda>r. tb_beatmap r \<in> M) rows)) (user_ledger rows) u g bm
       = (if bm \<in> M then None else user_ledger rows u g bm)"
proof -
  show "user_ledger (filter (\<lambda>r. tb_beatmap r \<notin> M) rows) u g bm = (if bm \<in> M then None else user_ledger rows u g bm)"
    by (simp add: user_ledger_def best_at_filter[OF assms, where P = "\<lambda>b. b \<notin> M"])
  let ?es = "global_best_rows (filter (\<lambda>r. tb_beatmap r \<in> M) rows)"
  have "(u, bm, g) \<in> fst ` set ?es \<longleftrightarrow> map_of ?es (u, bm, g) \<noteq> None" by (simp only: map_of_eq_None_iff not_not)
  also have "\<dots> \<longleftrightarrow> bm \<in> M \<and> user_ledger rows u g bm \<noteq> None"
    by (simp add: global_best_rows_best[OF rows_ok_subset[OF assms]] best_at_filter[OF assms, where P = "\<lambda>b. b \<in> M"] user_ledger_def)
  finally show "fold drop_entry ?es (user_ledger rows) u g bm = (if bm \<in> M then None else user_ledger rows u g bm)"
    by (auto simp: fold_drop)
qed

lemma unrank_retires:
  assumes std: "configured_scoring_mode cfg = STANDARDISED" and books: "books_ok s"
    and pos: "\<And>r. r \<in> set (total_bests s) \<Longrightarrow> 0 \<le> tb_total r"
  obtains xs s' where "retire_ranked_score_contributions cfg (filter (\<lambda>r. tb_beatmap r \<in> set M) (total_bests s)) M s = (Inr xs, s')"
    "plays s' = plays s" "total_bests s' = total_bests s" "best_scores s' = best_scores s"
    "\<And>u g st bm. get_row statistics_key (u, g) (statistics_rows s') = Some st \<Longrightarrow>
       balanced (\<lambda>bm. if bm \<in> set M then None else user_ledger (total_bests s) u g bm) st"
    "\<And>k. get_row statistics_key k (statistics_rows s') = None \<longleftrightarrow> get_row statistics_key k (statistics_rows s) = None"
proof -
  let ?assoc = "filter (\<lambda>r. tb_beatmap r \<in> set M) (total_bests s)" and ?L = "user_ledger (total_bests s)"
  have ok: "rows_ok (total_bests s)" and bkd: "backed s"
    and bal: "\<And>v h st. get_row statistics_key (v, h) (statistics_rows s) = Some st \<Longrightarrow> balanced (?L v h) st"
    using books by (simp_all add: books_ok_def)
  have entry: "bm \<in> set M \<and> row \<in> set (total_bests s) \<and> ?L u g bm = Some (tb_total row, tb_rank row)"
    if "((u, bm, g), row) \<in> set (global_best_rows ?assoc)" for u bm g row
  proof -
    have "best_at ?assoc u g bm = Some row"
      using map_of_is_SomeI[OF global_best_keys that] global_best_rows_best[OF rows_ok_subset[OF ok]] by simp
    then have "bm \<in> set M" "best_at (total_bests s) u g bm = Some row"
      by (simp_all add: best_at_filter[OF ok, where P = "\<lambda>b. b \<in> set M"] split: if_splits)
    moreover from this have "row \<in> set (total_bests s)" using best_at_Some[OF ok] by blast
    ultimately show ?thesis by (simp add: user_ledger_def)
  qed
  have nonneg: "0 \<le> t" if "?L u g b = Some (t, q)" for u g b t q
    using that pos best_at_Some[OF ok] by (auto simp: user_ledger_def)
  have "\<exists>xs s'. collect (global_best_rows ?assoc) (retire_contribution cfg M) s = (Inr xs, s')
    \<and> plays s' = plays s \<and> total_bests s' = total_bests s \<and> best_scores s' = best_scores s
    \<and> (\<forall>v h st. get_row statistics_key (v, h) (statistics_rows s') = Some st \<longrightarrow>
         balanced (fold drop_entry (global_best_rows ?assoc) ?L v h) st)
    \<and> (\<forall>k. get_row statistics_key k (statistics_rows s') = None \<longleftrightarrow> get_row statistics_key k (statistics_rows s) = None)"
    by (rule retire_loop[where L = ?L, OF std global_best_keys bkd])
      (erule entry, erule bal, rule finite_ledger, erule nonneg)
  then obtain xs s' where run: "collect (global_best_rows ?assoc) (retire_contribution cfg M) s = (Inr xs, s')"
    and same: "plays s' = plays s" "total_bests s' = total_bests s" "best_scores s' = best_scores s"
    and bal': "\<And>v h st. get_row statistics_key (v, h) (statistics_rows s') = Some st \<Longrightarrow>
        balanced (fold drop_entry (global_best_rows ?assoc) ?L v h) st"
    and ex: "\<And>k. get_row statistics_key k (statistics_rows s') = None \<longleftrightarrow> get_row statistics_key k (statistics_rows s) = None"
    by blast
  have "fold drop_entry (global_best_rows ?assoc) ?L u g = (\<lambda>bm. if bm \<in> set M then None else ?L u g bm)" for u g
    by (rule ext) (rule unranked_ledger(2)[OF ok])
  with bal' show thesis
    by (intro that[of "concat xs" s'])
      (simp_all add: retire_ranked_score_contributions_def bnd_def run ret_def same ex)
qed

lemma unrank_state:
  assumes books: "books_ok s" and bests: "bests_ok (best_scores s)" and std: "configured_scoring_mode cfg = STANDARDISED"
    and full: "full_unrank ts" and pos: "\<forall>r \<in> set (total_bests s). 0 \<le> tb_total r" and ne: "ts \<noteq> []"
  obtains ks ps res s3 where
    "reconcile_disabled_score_features cfg ts s = seq (repair_maximum_combo ks) (seq (repair_pp ps) (ret res)) s3"
    "total_bests s3 = filter (\<lambda>r. tb_beatmap r \<notin> tr_map ` set ts) (total_bests s)"
    "best_scores s3 = filter (\<lambda>b. b_beatmap b \<notin> tr_map ` set ts) (best_scores s)"
    "map pl_id (plays s3) = map pl_id (plays s)" "backed s3"
    "\<And>b. b \<in> set (best_scores s) \<Longrightarrow> b_beatmap b \<in> tr_map ` set ts \<Longrightarrow> (b_user b, b_mode b) \<in> set ps"
    "\<And>u g st. get_row statistics_key (u, g) (statistics_rows s3) = Some st \<Longrightarrow>
       balanced (\<lambda>bm. if bm \<in> tr_map ` set ts then None else user_ledger (total_bests s) u g bm) st"
proof -
  note result = that
  let ?M = "map tr_map ts"
  have ok: "rows_ok (total_bests s)" and bkd: "backed s" using books by (simp_all add: books_ok_def)
  define s1 where "s1 = s\<lparr>plays := map (retract_play (?M @ []) ?M (?M @ [])) (plays s)\<rparr>"
  have tb1: "total_bests s1 = total_bests s" by (simp add: s1_def)
  have bkd1: "backed s1" using bkd by (auto simp: s1_def backed_def backs_def get_row_map)
  then have "books_ok s1" using books by (simp add: books_ok_def s1_def)
  then obtain xs s2 where s2: "retire_ranked_score_contributions cfg (filter (\<lambda>r. tb_beatmap r \<in> set ?M) (total_bests s1)) ?M s1 = (Inr xs, s2)"
    "plays s2 = plays s1" "total_bests s2 = total_bests s1" "best_scores s2 = best_scores s1"
    and bal2: "\<And>u g st bm. get_row statistics_key (u, g) (statistics_rows s2) = Some st \<Longrightarrow>
       balanced (\<lambda>bm. if bm \<in> set ?M then None else user_ledger (total_bests s1) u g bm) st"
    by (rule unrank_retires[OF std, of s1 ?M]) (use pos in \<open>auto simp: s1_def\<close>)
  define lrows where "lrows = filter (\<lambda>r. tb_beatmap r \<in> set ?M) (total_bests s)"
  define prows where "prows = filter (\<lambda>b. b_beatmap b \<in> set ?M) (best_scores s)"
  define s3 where "s3 = s2\<lparr>total_bests := filter (\<lambda>r. tb_score r \<notin> tb_score ` set lrows) (total_bests s2),
                           best_scores := filter (\<lambda>b. b_score b \<notin> b_score ` set prows) (best_scores s2)\<rparr>"
  have rows3: "total_bests s3 = filter (\<lambda>r. tb_beatmap r \<notin> set ?M) (total_bests s)"
    using rows_ok_same[OF ok] by (auto simp: s3_def s2(3) s1_def lrows_def intro!: filter_cong)
  have bests3: "best_scores s3 = filter (\<lambda>b. b_beatmap b \<notin> set ?M) (best_scores s)"
    using bests_same[OF bests] by (auto simp: s3_def s2(4) s1_def prows_def intro!: filter_cong)
  have same: "filter (\<lambda>r. tb_beatmap r \<in> set ?M) (total_bests s1) = lrows" "filter (\<lambda>b. b_beatmap b \<in> set ?M) (best_scores s1) = prows"
    "filter (\<lambda>r. tb_beatmap r \<in> set ?M) lrows = lrows" "set (?M @ ?M) = set ?M"
    by (simp_all add: s1_def lrows_def prows_def)
  have step: "bnd (retire_ranked_score_contributions cfg lrows ?M) k s1 = k xs s2" for k :: "(int \<times> game_mode) list \<Rightarrow> (profiles, reconciliation) op"
    unfolding bnd_def s2(1)[unfolded same(1)] by simp
  have guard: "(?M = [] \<and> ?M = [] \<and> ?M = [] \<and> ?M = []) = False" using ne by simp
  show thesis
  proof (rule result)
    show "reconcile_disabled_score_features cfg ts s
      = seq (repair_maximum_combo (map (\<lambda>r. (tb_user r, tb_mode r)) lrows @ xs))
          (seq (repair_pp (map (\<lambda>b. (b_user b, b_mode b)) prows)) (ret \<lparr>leaderboard_rows_removed = length lrows,
             pp_rows_removed = length prows, contributions_removed = length xs,
             affected_user_modes = set (map (\<lambda>r. (tb_user r, tb_mode r)) lrows) \<union> set (map (\<lambda>b. (b_user b, b_mode b)) prows) \<union> set xs
               \<union> set (map (\<lambda>p. (pl_user p, pl_mode p)) (filter (\<lambda>p. pl_beatmap p \<in> set ?M \<and> \<not> pl_processed p) (plays s)))\<rparr>)) s3"
      unfolding reconcile_disabled_score_features_def Let_def full_unrank_maps[OF full] list.map guard if_False
      by (simp only: run_simps(1-11) same(4) s1_def[symmetric] same(1-3) step s3_def[symmetric])
    show "backed s3" using bkd1 by (auto simp: backed_def s3_def s2(2,3))
    show "map pl_id (plays s3) = map pl_id (plays s)" by (simp add: s3_def s2(2) s1_def comp_def)
    show "(b_user b, b_mode b) \<in> set (map (\<lambda>b. (b_user b, b_mode b)) prows)"
      if "b \<in> set (best_scores s)" "b_beatmap b \<in> tr_map ` set ts" for b using that by (auto simp: prows_def)
    show "balanced (\<lambda>bm. if bm \<in> tr_map ` set ts then None else user_ledger (total_bests s) u g bm) st"
      if "get_row statistics_key (u, g) (statistics_rows s3) = Some st" for u g st
      using bal2[of u g st] that unfolding tb1 s3_def by simp
  qed (use rows3 bests3 in simp_all)
qed

text \<open>C20: unranking maps keeps the books: after the reconciliation the retired maps have left the ledger of every
  player and everything else in it is as before, ranked score and grade counts are again the sums over the
  ledger, no best play of a retired map is left and no other is lost, the points and accuracy of every player who
  had one are those of the remaining best plays, and no raw play is deleted.\<close>

theorem unrank_keeps_books:
  assumes books: "books_ok s" and bests: "bests_ok (best_scores s)" and std: "configured_scoring_mode cfg = STANDARDISED"
    and full: "full_unrank ts" and pos: "\<forall>r \<in> set (total_bests s). 0 \<le> tb_total r"
  shows "\<exists>res s'. reconcile_disabled_score_features cfg ts s = (Inr res, s') \<and> books_ok s'
    \<and> (\<forall>u g bm. user_ledger (total_bests s') u g bm = (if bm \<in> tr_map ` set ts then None else user_ledger (total_bests s) u g bm))
    \<and> best_scores s' = filter (\<lambda>b. b_beatmap b \<notin> tr_map ` set ts) (best_scores s)
    \<and> (\<forall>b \<in> set (best_scores s). b_beatmap b \<in> tr_map ` set ts \<longrightarrow>
         (case get_row statistics_key (b_user b, b_mode b) (statistics_rows s') of None \<Rightarrow> True
          | Some st \<Rightarrow> (us_pp st, hit_accuracy st) = calculate_user_pp s' (b_user b) (b_mode b)))
    \<and> map pl_id (plays s') = map pl_id (plays s)"
proof (cases "ts = []")
  case True
  then show ?thesis using books by (simp add: reconcile_disabled_score_features_def Let_def ret_def)
next
  case False
  have ok: "rows_ok (total_bests s)" using books by (simp add: books_ok_def)
  obtain ks ps res s3 where run: "reconcile_disabled_score_features cfg ts s = seq (repair_maximum_combo ks) (seq (repair_pp ps) (ret res)) s3"
    and s3: "total_bests s3 = filter (\<lambda>r. tb_beatmap r \<notin> tr_map ` set ts) (total_bests s)"
      "best_scores s3 = filter (\<lambda>b. b_beatmap b \<notin> tr_map ` set ts) (best_scores s)"
      "map pl_id (plays s3) = map pl_id (plays s)" "backed s3"
    and ps: "\<And>b. b \<in> set (best_scores s) \<Longrightarrow> b_beatmap b \<in> tr_map ` set ts \<Longrightarrow> (b_user b, b_mode b) \<in> set ps"
    and bal: "\<And>u g st. get_row statistics_key (u, g) (statistics_rows s3) = Some st \<Longrightarrow>
       balanced (\<lambda>bm. if bm \<in> tr_map ` set ts then None else user_ledger (total_bests s) u g bm) st"
    by (rule unrank_state[OF books bests std full pos False]) (rule that; assumption)
  obtain t where t: "seq (repair_maximum_combo ks) (seq (repair_pp ps) (ret res)) s3 = ret res (s3\<lparr>statistics_rows := t\<rparr>)"
    "\<And>j. get_row statistics_key j t = None \<longleftrightarrow> get_row statistics_key j (statistics_rows s3) = None"
    "\<And>j st'. get_row statistics_key j t = Some st' \<Longrightarrow>
       \<exists>st. get_row statistics_key j (statistics_rows s3) = Some st \<and> ranked_score st' = ranked_score st \<and> grades st' = grades st
         \<and> (j \<in> set ps \<longrightarrow> (us_pp st', hit_accuracy st') = calculate_user_pp s3 (fst j) (snd j))"
    by (rule repairs_run[of ks ps "ret res" s3]) (rule that; assumption)
  let ?s4 = "s3\<lparr>statistics_rows := t\<rparr>"
  have ledger: "user_ledger (total_bests s3) u g bm = (if bm \<in> tr_map ` set ts then None else user_ledger (total_bests s) u g bm)" for u g bm
    unfolding s3(1) by (rule unranked_ledger(1)[OF ok])
  have "balanced (user_ledger (total_bests s3) u g) st" if row: "get_row statistics_key (u, g) t = Some st" for u g st
  proof -
    obtain st0 where st0: "get_row statistics_key (u, g) (statistics_rows s3) = Some st0"
      "ranked_score st = ranked_score st0" "grades st = grades st0" using t(3)[OF row] by auto
    have "user_ledger (total_bests s3) u g = (\<lambda>bm. if bm \<in> tr_map ` set ts then None else user_ledger (total_bests s) u g bm)"
      by (simp add: fun_eq_iff ledger)
    then show ?thesis using bal[OF st0(1)] balanced_fields[OF st0(2,3)] by simp
  qed
  moreover have "backed ?s4" "rows_ok (total_bests ?s4)"
    using s3(4) rows_ok_subset[OF ok] by (simp_all add: backed_def s3(1))
  ultimately have "books_ok ?s4" by (simp add: books_ok_def)
  moreover have "case get_row statistics_key (b_user b, b_mode b) t of None \<Rightarrow> True
      | Some st \<Rightarrow> (us_pp st, hit_accuracy st) = calculate_user_pp ?s4 (b_user b) (b_mode b)"
    if "b \<in> set (best_scores s)" "b_beatmap b \<in> tr_map ` set ts" for b
    using ps[OF that] t(3)[of "(b_user b, b_mode b)"] by (auto split: option.split)
  ultimately show ?thesis
    using run t(1) ledger s3(2,3) by (intro exI[of _ res] exI[of _ ?s4]) (simp add: ret_def)
qed

definition demo_ranked_policy :: effective_policy where
  "demo_ranked_policy = \<lparr>ep_status = RANKED, ep_leaderboard = True, ep_pp = True, ep_source = UPSTREAM\<rparr>"

definition demo_graveyard_policy :: effective_policy where
  "demo_graveyard_policy = \<lparr>ep_status = GRAVEYARD, ep_leaderboard = False, ep_pp = False, ep_source = FROM_BEATMAP\<rparr>"

definition demo_unranked :: profiles where
  "demo_unranked = (demo_profiles True 400000)\<lparr>best_scores := best_scores demo_points\<rparr>"

theorem unrank_keeps_books_witness:
  "\<exists>ts res s'. plan_score_policy_transitions False False [(3, demo_ranked_policy)] [(3, demo_graveyard_policy)] = Inr ts
    \<and> reconcile_disabled_score_features demo_score_config ts demo_unranked = (Inr res, s') \<and> books_ok s'
    \<and> user_ledger (total_bests demo_unranked) 7 OSU 3 = Some (400000, Rank_B)
    \<and> user_ledger (total_bests s') 7 OSU 3 = None \<and> best_scores demo_unranked \<noteq> [] \<and> best_scores s' = []"
proof -
  let ?t = "transition_of False False 3 demo_ranked_policy demo_graveyard_policy"
  have t: "?t = \<lparr>tr_map = 3, disable_leaderboard = True, disable_pp = True, disable_ranked_score = True, reset_ranked_score_epoch = False\<rparr>"
    by (simp add: transition_of_def demo_ranked_policy_def demo_graveyard_policy_def ranked_status_def)
  have plan: "plan_score_policy_transitions False False [(3, demo_ranked_policy)] [(3, demo_graveyard_policy)] = Inr [?t]"
    by (simp add: plan_score_policy_transitions_def t retires_def)
  have books: "books_ok demo_unranked"
    using demo_books[of True] by (simp add: demo_unranked_def books_ok_def backed_def)
  have bests: "bests_ok (best_scores demo_unranked)" using demo_points_ok(1) by (simp add: demo_unranked_def)
  have full: "full_unrank [?t]" by (simp add: full_unrank_def t)
  have pos: "\<forall>r \<in> set (total_bests demo_unranked). 0 \<le> tb_total r"
    by (simp add: demo_unranked_def demo_profiles_def)
  have old: "user_ledger (total_bests demo_unranked) 7 OSU 3 = Some (400000, Rank_B)"
    by (simp add: user_ledger_def best_at_def rows_at_def first_by_total_def demo_unranked_def demo_profiles_def)
  have rows: "best_scores demo_unranked \<noteq> []" "filter (\<lambda>b. b_beatmap b \<notin> tr_map ` set [?t]) (best_scores demo_unranked) = []"
    by (simp_all add: demo_unranked_def demo_points_def t)
  have std: "configured_scoring_mode demo_score_config = STANDARDISED" by (simp add: demo_score_config_def)
  from unrank_keeps_books[OF books bests std full pos] obtain res s' where
    "reconcile_disabled_score_features demo_score_config [?t] demo_unranked = (Inr res, s')" "books_ok s'"
    "user_ledger (total_bests s') 7 OSU 3 = None" "best_scores s' = []"
    unfolding rows(2) by (auto simp: t)
  with plan old rows(1) show ?thesis by blast
qed


end
