(* ===== verification/PolicyRules.thy ===== *)
theory PolicyRules
  imports RankPolicies ReconcileRules
begin

text \<open>
  What local ranking decisions promise.  The operations touch the policy tables only through a few writes, so
  a property of every row that these writes respect is an invariant of all operations (locale
  \<open>policy_rows\<close>).  It is interpreted twice: flags that follow the status, and the review that a changed
  revision needs.  The remaining lemmas say what a decision makes effective and that a refused decision
  changes nothing.
\<close>

section \<open>Properties of rows\<close>

definition rows_hold :: "(set_policy \<Rightarrow> bool) \<Rightarrow> (map_policy \<Rightarrow> bool) \<Rightarrow> ranking_db \<Rightarrow> bool" where
  "rows_hold P Q s \<longleftrightarrow> list_all P (set_policies s) \<and> list_all Q (map_policies s)"

definition row_holds :: "(set_policy \<Rightarrow> bool) \<Rightarrow> (map_policy \<Rightarrow> bool) \<Rightarrow> any_policy \<Rightarrow> bool" where
  "row_holds P Q p = (case p of OfSet q \<Rightarrow> P q | OfMap q \<Rightarrow> Q q)"

lemma keeps_lift_bnd:
  "(\<And>x. r = Inr x \<Longrightarrow> keeps I (k x)) \<Longrightarrow> keeps I (bnd (lift r) k)"
  by (rule keepsI) (auto simp: bnd_def lift_def keepsD split: sum.split)

lemma keeps_read:
  assumes "\<And>s. I s \<Longrightarrow> keeps I (k (f s))"
  shows "keeps I (bnd (gets f) k)"
  by (rule keepsI) (simp add: run_simps keepsD[OF assms])

lemma keeps_bnd_post:
  assumes "\<And>s r s'. I s \<Longrightarrow> m s = (r, s') \<Longrightarrow> I s' \<and> (\<forall>a. r = Inr a \<longrightarrow> R a)" and "\<And>a. R a \<Longrightarrow> keeps I (k a)"
  shows "keeps I (bnd m k)"
proof (rule keepsI)
  fix s assume "I s"
  then show "I (snd (bnd m k s))"
    using assms(1)[of s] keepsD[OF assms(2)] by (cases "m s") (auto simp: bnd_def split: sum.split)
qed

text \<open>Every non-policy write leaves the rows alone.\<close>

lemma keeps_other [keeps_rules]:
  "keeps (rows_hold P Q) (add_audit a sc bs bm who why old new t)"
  "keeps (rows_hold P Q) (resolve_events actor bs bm t)"
  "keeps (rows_hold P Q) (schedule_local_rank_sync bs t)"
  "keeps (rows_hold P Q) (modify (\<lambda>s. s\<lparr>ranking_events := f s\<rparr>))"
  by (auto simp: add_audit_def resolve_events_def schedule_local_rank_sync_def Let_def rows_hold_def
      intro!: keeps_modify split: option.split)

lemma keeps_on_scores [keeps_rules]: "keeps (rows_hold P Q) (on_scores m)"
  by (rule keepsI) (simp add: on_scores_def rows_hold_def split: prod.split)

lemma keeps_finish_change [keeps_rules]: "keeps (rows_hold P Q) (finish_manual_policy_change cfg ids before)"
  unfolding finish_manual_policy_change_def by (intro keeps_rules)

lemma keeps_target [keeps_rules]: "keeps I (target_difficulty bs bm msg)"
  unfolding target_difficulty_def by (intro keeps_rules)

lemma target_run:
  "target_difficulty bs bm msg s = (r, s') \<Longrightarrow> s' = s \<and>
     (\<forall>d. r = Inr d \<longrightarrow> get_row df_id bm (difficulties s) = Some d \<and> df_id d = bm \<and> df_set d = bs \<and> \<not> df_deleted d)"
  by (auto simp: target_difficulty_def run_simps get_row_def dest: find_Some_in split: option.splits if_splits)

lemma keeps_target_bnd:
  assumes "\<And>d. df_id d = bm \<Longrightarrow> df_set d = bs \<Longrightarrow> keeps I (k d)"
  shows "keeps I (bnd (target_difficulty bs bm msg) k)"
  by (rule keepsI) (auto simp: bnd_def dest!: target_run intro: keepsD[OF assms] split: prod.split sum.split)

lemma keeps_lock_set [keeps_rules]: "keeps I (lock_beatmapset bs)"
  unfolding lock_beatmapset_def by (intro keeps_rules)

lemma keeps_upsert [keeps_rules]: "keeps (rows_hold P Q) (upsert_revision_event n sc bs bm old new t)"
  unfolding upsert_revision_event_def Let_def by (intro keeps_rules)

section \<open>The locale\<close>

text \<open>
  What a property of rows has to respect: switching a policy off, taking a difficulty out of a manifest, and
  the two rows an unrank writes.
\<close>

locale policy_rows =
  fixes P :: "set_policy \<Rightarrow> bool" and Q :: "map_policy \<Rightarrow> bool"
  assumes set_off: "P p \<Longrightarrow> P (p\<lparr>sp_active := False, sp_reason := why, sp_updated_by := who, sp_updated := t\<rparr>)"
    and map_off: "Q q \<Longrightarrow> Q (q\<lparr>mp_active := False, mp_reason := why, mp_updated_by := who, mp_updated := t\<rparr>)"
    and map_invalid: "Q q \<Longrightarrow> Q (q\<lparr>mp_active := False, mp_invalidated := i, mp_updated := t, mp_updated_by := who\<rparr>)"
    and set_manifest: "P p \<Longrightarrow> P (p\<lparr>sp_manifest := filter (\<lambda>(b, c). b \<noteq> bm) (sp_manifest p), sp_updated := t, sp_updated_by := who\<rparr>)"
    and set_forced: "P (new_set_policy actor bs GRAVEYARD False False True ds why t)"
    and map_forced: "Q (new_map_policy actor d GRAVEYARD False False True False why t old)"
    and map_blocked: "Q (new_map_policy actor d st (has_leaderboard st) (has_pp st) False True why t old)"
begin

abbreviation holds :: "ranking_db \<Rightarrow> bool" where "holds \<equiv> rows_hold P Q"

lemma save_set: "P p \<Longrightarrow> keeps holds (save_set_policy p)"
  by (auto simp: save_set_policy_def rows_hold_def intro!: keeps_modify list_all_put_row)

lemma save_map: "Q p \<Longrightarrow> keeps holds (save_map_policy p)"
  by (auto simp: save_map_policy_def rows_hold_def intro!: keeps_modify list_all_put_row)

lemma holds_rows: "holds s \<Longrightarrow> get_row sp_set bs (set_policies s) = Some p \<Longrightarrow> P p"
  "holds s \<Longrightarrow> get_row mp_map bm (map_policies s) = Some q \<Longrightarrow> Q q"
  by (auto simp: rows_hold_def intro: get_row_all)

lemma clear_overrides: "keeps holds (clear_overrides actor bs why t)"
  unfolding clear_overrides_def Let_def
  by (intro keeps_read keeps_for_each keeps_seq save_map keeps_other) (auto simp: rows_hold_def list_all_iff intro: map_off)

lemma apply_to_set:
  "(\<And>ds. P (new_set_policy actor bs st leaderboard pp force ds why t)) \<Longrightarrow>
   keeps holds (apply_to_set actor bs st leaderboard pp force replace why t)"
  unfolding apply_to_set_def Let_def by (intro keeps_rules save_set clear_overrides)

lemma apply_to_map:
  "(\<And>d old. df_id d = bm \<Longrightarrow> df_set d = bs \<Longrightarrow> Q (new_map_policy actor d st leaderboard pp force False why t old)) \<Longrightarrow>
   keeps holds (apply_to_map actor bs bm st leaderboard pp force why t)"
  unfolding apply_to_map_def Let_def by (intro keeps_target_bnd keeps_rules save_map)

lemma apply_rank:
  assumes P: "\<And>leaderboard pp ds. resolve_flags st l p = Inr (leaderboard, pp) \<Longrightarrow> (force \<Longrightarrow> \<not> leaderboard \<and> \<not> pp) \<Longrightarrow>
      bm = None \<Longrightarrow> P (new_set_policy actor bs st leaderboard pp force ds (normalise_reason why) t)"
    and Q: "\<And>b leaderboard pp d old. resolve_flags st l p = Inr (leaderboard, pp) \<Longrightarrow> (force \<Longrightarrow> \<not> leaderboard \<and> \<not> pp) \<Longrightarrow>
      bm = Some (df_id d) \<Longrightarrow> df_set d = bs \<Longrightarrow>
      Q (new_map_policy actor d st leaderboard pp force False (normalise_reason why) t old)"
  shows "keeps holds (apply_local_rank cfg actor t bs st why bm l p force replace)"
  unfolding apply_local_rank_def Let_def
  by (intro keeps_transaction keeps_lift_bnd keeps_prod keeps_if keeps_throw keeps_seq keeps_lock_set keeps_bnd keeps_option
      apply_to_set apply_to_map keeps_other keeps_finish_change keeps_ret P Q) auto

lemma save_policy: "row_holds P Q p \<Longrightarrow> keeps holds (save_policy p)"
  by (cases p) (simp_all add: save_policy_def row_holds_def save_set save_map)

lemma deactivated: "row_holds P Q p \<Longrightarrow> row_holds P Q (deactivate actor why t p)"
  by (cases p) (simp_all add: row_holds_def deactivate_def set_off map_off)

lemma clear_one: "row_holds P Q p \<Longrightarrow> keeps holds (clear_policy actor bs why t p)"
  unfolding clear_policy_def by (cases p) (auto intro!: keeps_rules save_policy deactivated)

lemma to_clear: "policies_to_clear s bs r ids = p # ps \<Longrightarrow> holds s \<Longrightarrow> row_holds P Q p \<and> list_all (row_holds P Q) ps"
proof -
  assume "holds s"
  then have "list_all (row_holds P Q) (policies_to_clear s bs r ids)"
    unfolding policies_to_clear_def
    by (cases "get_row sp_set bs (set_policies s)")
      (auto simp: row_holds_def rows_hold_def list_all_iff dest!: get_row_all[where P = P, rotated])
  moreover assume "policies_to_clear s bs r ids = p # ps"
  ultimately show ?thesis by simp
qed

lemma forced_map: "keeps holds (apply_local_rank cfg actor t bs GRAVEYARD why bm l p True replace)"
proof (rule apply_rank)
  show "P (new_set_policy actor bs GRAVEYARD leaderboard pp True ds (normalise_reason why) t)"
    if "True \<Longrightarrow> \<not> leaderboard \<and> \<not> pp" for leaderboard pp ds using set_forced that by simp
  show "Q (new_map_policy actor d GRAVEYARD leaderboard pp True False (normalise_reason why) t old)"
    if "True \<Longrightarrow> \<not> leaderboard \<and> \<not> pp" for leaderboard pp d old using map_forced that by simp
qed

lemma unrank: "keeps holds (apply_local_unrank cfg actor t bs why bm replace)"
proof -
  have "keeps holds (unrank_map cfg actor t bs w b)" for w b
    unfolding unrank_map_def Let_def by (intro keeps_rules save_map forced_map map_blocked)
  moreover have "keeps holds (unrank_set cfg actor t bs w replace)" for w
    unfolding unrank_set_def Let_def
    by (intro keeps_read keeps_bnd keeps_if keeps_throw forced_map keeps_list keeps_seq keeps_for_each
        clear_one keeps_other keeps_finish_change keeps_ret) (auto simp: list_all_iff dest!: to_clear)
  ultimately show ?thesis unfolding apply_local_unrank_def Let_def by (intro keeps_rules)
qed

lemma clear_local: "keeps holds (clear_local_rank cfg actor t bs why bm)"
  unfolding clear_local_rank_def Let_def
proof (intro keeps_transaction keeps_seq keeps_lock_set keeps_bnd_post[where R = "\<lambda>(old, ds). row_holds P Q old"])
  fix s r s' assume "holds s" and run: "(case bm of
      None \<Rightarrow> bnd (gets (\<lambda>s. get_row sp_set bs (set_policies s))) (\<lambda>found. case found of None \<Rightarrow> throw KeyErr
        | Some p \<Rightarrow> bnd (gets (\<lambda>s. live_difficulties s bs)) (\<lambda>ds. ret (OfSet p, ds)))
    | Some b \<Rightarrow> bnd (target_difficulty bs b ''unranked'') (\<lambda>d.
        bnd (gets (\<lambda>s. get_row mp_map b (map_policies s))) (\<lambda>found. case found of None \<Rightarrow> throw KeyErr
        | Some p \<Rightarrow> ret (OfMap p, [d])))) s = (r, s')"
  then show "holds s' \<and> (\<forall>a. r = Inr a \<longrightarrow> (case a of (old, ds) \<Rightarrow> row_holds P Q old))"
    by (cases bm) (auto simp: run_simps row_holds_def bnd_def[of "target_difficulty _ _ _"] split: option.splits prod.splits sum.splits
        dest!: target_run dest: holds_rows)
next
  fix a assume "case a of (old :: any_policy, ds :: difficulty list) \<Rightarrow> row_holds P Q old"
  then show "keeps holds (case a of (old, ds) \<Rightarrow> bnd (gets (\<lambda>s. get_effective_beatmap_policies s ds)) (\<lambda>before.
      seq (save_policy (deactivate actor (normalise_reason why) t old)) (seq (resolve_events actor bs bm t)
      (seq (add_audit CLEAR (case bm of None \<Rightarrow> Scope_set | Some _ \<Rightarrow> Scope_map) bs bm (Some actor) (normalise_reason why)
        (Some old) (Some (deactivate actor (normalise_reason why) t old)) t)
      (bnd (finish_manual_policy_change cfg (map df_id ds) before) (\<lambda>_. ret (deactivate actor (normalise_reason why) t old)))))))"
    by (cases a) (auto intro!: keeps_rules save_policy deactivated)
qed

lemma invalidate_map: "keeps holds (invalidate_map_policy bs bm old new t)"
  unfolding invalidate_map_policy_def Let_def
  by (intro keeps_read keeps_option keeps_if keeps_seq keeps_bnd keeps_gets keeps_upsert keeps_other keeps_ret save_map map_invalid)
    (auto dest: holds_rows)

lemma invalidate_set: "keeps holds (invalidate_set_policy bs bm old new t)"
  unfolding invalidate_set_policy_def Let_def
  by (intro keeps_read keeps_option keeps_if keeps_seq keeps_bnd keeps_gets keeps_upsert keeps_other keeps_ret save_set set_manifest)
    (auto dest: holds_rows)

lemma invalidate: "keeps holds (invalidate_for_upstream_change bs bm old new ou nu t)"
  unfolding invalidate_for_upstream_change_def by (intro keeps_rules invalidate_map invalidate_set)

lemma resolve: "keeps holds (resolve_ranking_event eid actor why t)"
  unfolding resolve_ranking_event_def Let_def by (intro keeps_rules)

end

section \<open>Runs\<close>

text \<open>
  The commands that change the ranking tables.  \<open>Cached\<close> is everything else: the sync rewrites the cached
  difficulties and plays change the score tables.
\<close>

datatype ranking_command =
    Apply int time int rank_status string "int option" "bool option" "bool option" bool bool
  | Unrank int time int string "int option" bool
  | Clear int time int string "int option"
  | Upstream int int "string option" "string option" "time option" "time option" time
  | Resolve int int "string option" time
  | Cached "beatmapset_row list" "difficulty list" "sync_record list" profiles

fun run_command :: "score_config \<Rightarrow> ranking_command \<Rightarrow> ranking_db \<Rightarrow> ranking_db" where
  "run_command cfg (Apply actor t bs st why bm l p force replace) s =
     snd (apply_local_rank cfg actor t bs st why bm l p force replace s)"
| "run_command cfg (Unrank actor t bs why bm replace) s = snd (apply_local_unrank cfg actor t bs why bm replace s)"
| "run_command cfg (Clear actor t bs why bm) s = snd (clear_local_rank cfg actor t bs why bm s)"
| "run_command cfg (Upstream bs bm old new ou nu t) s = snd (invalidate_for_upstream_change bs bm old new ou nu t s)"
| "run_command cfg (Resolve eid actor why t) s = snd (resolve_ranking_event eid actor why t s)"
| "run_command cfg (Cached sets ds syncs tables) s =
     s\<lparr>beatmapsets := sets, difficulties := ds, sync_records := syncs, score_tables := tables\<rparr>"

text \<open>Lifting an invariant of the rows to runs whose rank decisions satisfy it.\<close>

definition permitted :: "(set_policy \<Rightarrow> bool) \<Rightarrow> (map_policy \<Rightarrow> bool) \<Rightarrow> ranking_command \<Rightarrow> bool" where
  "permitted P Q c = (case c of
     Apply actor t bs st why bm l p force replace \<Rightarrow>
       (\<forall>leaderboard pp. resolve_flags st l p = Inr (leaderboard, pp) \<longrightarrow> (force \<longrightarrow> \<not> leaderboard \<and> \<not> pp) \<longrightarrow>
          (bm = None \<longrightarrow> (\<forall>ds. P (new_set_policy actor bs st leaderboard pp force ds (normalise_reason why) t)))
          \<and> (\<forall>d old. bm = Some (df_id d) \<longrightarrow>
               Q (new_map_policy actor d st leaderboard pp force False (normalise_reason why) t old)))
   | _ \<Rightarrow> True)"

context policy_rows
begin

lemma command_holds: "permitted P Q c \<Longrightarrow> holds s \<Longrightarrow> holds (run_command cfg c s)"
proof (cases c)
  case (Apply actor t bs st why bm l p force replace)
  assume "permitted P Q c" "holds s"
  moreover from this(1) have "keeps holds (apply_local_rank cfg actor t bs st why bm l p force replace)"
    unfolding Apply permitted_def by (intro apply_rank) auto
  ultimately show ?thesis by (simp add: Apply keepsD)
next
  case (Cached sets ds syncs tables)
  assume "holds s"
  then show ?thesis by (simp add: Cached rows_hold_def)
qed (simp_all add: keepsD[OF unrank] keepsD[OF clear_local] keepsD[OF invalidate] keepsD[OF resolve])

lemma run_holds: "list_all (permitted P Q) cs \<Longrightarrow> holds s \<Longrightarrow> holds (fold (run_command cfg) cs s)"
  by (induction cs arbitrary: s) (simp_all add: command_holds)

end

section \<open>Flags follow the status\<close>

definition set_flags_ok :: "set_policy \<Rightarrow> bool" where
  "set_flags_ok p \<longleftrightarrow> sp_leaderboard p = has_leaderboard (sp_status p) \<and> sp_pp p = has_pp (sp_status p)
     \<and> (sp_force p \<longrightarrow> \<not> sp_leaderboard p)"

definition map_flags_ok :: "map_policy \<Rightarrow> bool" where
  "map_flags_ok p \<longleftrightarrow> mp_leaderboard p = has_leaderboard (mp_status p) \<and> mp_pp p = has_pp (mp_status p)
     \<and> (mp_force p \<longrightarrow> \<not> mp_leaderboard p)"

lemma resolved_flags:
  "resolve_flags st l p = Inr (leaderboard, pp) \<Longrightarrow> leaderboard = has_leaderboard st \<and> pp = has_pp st"
  by (auto simp: resolve_flags_def Let_def split: if_splits)

interpretation flags: policy_rows set_flags_ok map_flags_ok
  by unfold_locales
    (auto simp: set_flags_ok_def map_flags_ok_def new_set_policy_def new_map_policy_def has_leaderboard_def has_pp_def)

lemma flags_permitted: "permitted set_flags_ok map_flags_ok c"
  by (auto simp: permitted_def set_flags_ok_def map_flags_ok_def new_set_policy_def new_map_policy_def
      dest: resolved_flags split: ranking_command.split)

lemma flags_run: "rows_hold set_flags_ok map_flags_ok s \<Longrightarrow> rows_hold set_flags_ok map_flags_ok (fold (run_command cfg) cs s)"
  by (rule flags.run_holds) (simp_all add: list_all_iff flags_permitted)

section \<open>A changed revision needs a review\<close>

text \<open>No policy of the set or of the difficulty supports a revision other than \<open>c\<close>.\<close>

definition set_pinned :: "int \<Rightarrow> int \<Rightarrow> string option \<Rightarrow> set_policy \<Rightarrow> bool" where
  "set_pinned bs bm c p \<longleftrightarrow> (sp_set p = bs \<and> sp_active p \<and> \<not> sp_force p \<longrightarrow> map_of (sp_manifest p) bm \<in> {None, c})"

definition map_pinned :: "int \<Rightarrow> string option \<Rightarrow> map_policy \<Rightarrow> bool" where
  "map_pinned bm c p \<longleftrightarrow> (mp_map p = bm \<and> mp_active p \<and> \<not> mp_force p \<and> \<not> mp_blocks p \<longrightarrow> Some (mp_checksum p) = c)"

lemma map_of_drop: "map_of (filter (\<lambda>(b, c). b \<noteq> k) xs) j = (if j = k then None else map_of xs j)"
  by (induction xs) auto

interpretation pinned: policy_rows "set_pinned bs bm c" "map_pinned bm c" for bs bm c
  by unfold_locales (auto simp: set_pinned_def map_pinned_def new_set_policy_def new_map_policy_def map_of_drop)

text \<open>The decisions that count as a review of the difficulty.\<close>

fun reviews :: "int \<Rightarrow> int \<Rightarrow> ranking_command \<Rightarrow> bool" where
  "reviews bs bm (Apply actor t bs' st why tgt l p force replace) = (case tgt of None \<Rightarrow> bs' = bs | Some b \<Rightarrow> b = bm)"
| "reviews bs bm _ = False"

lemma pinned_permitted: "\<not> reviews bs bm cmd \<Longrightarrow> permitted (set_pinned bs bm c) (map_pinned bm c) cmd"
  by (cases cmd) (auto simp: permitted_def set_pinned_def map_pinned_def new_set_policy_def new_map_policy_def
      split: option.splits)

lemma pinned_run:
  "list_all (\<lambda>cmd. \<not> reviews bs bm cmd) cs \<Longrightarrow> rows_hold (set_pinned bs bm c) (map_pinned bm c) s \<Longrightarrow>
   rows_hold (set_pinned bs bm c) (map_pinned bm c) (fold (run_command cfg) cs s)"
  by (rule pinned.run_holds) (auto simp: list_all_iff pinned_permitted)

section \<open>What is effective\<close>

lemma effective_flags:
  assumes "rows_hold set_flags_ok map_flags_ok s"
  shows "ep_leaderboard (effective_beatmap_policy s d) = has_leaderboard (ep_status (effective_beatmap_policy s d))"
    and "ep_pp (effective_beatmap_policy s d) = has_pp (ep_status (effective_beatmap_policy s d))"
  using flags.holds_rows[OF assms]
  by (auto simp: effective_beatmap_policy_def status_policy_def set_flags_ok_def map_flags_ok_def has_leaderboard_def has_pp_def
      Let_def split: option.split)

lemma effective_local:
  assumes "rows_hold set_flags_ok map_flags_ok s" and "is_effective_local_rank (effective_beatmap_policy s d)"
  obtains p where "\<not> df_deleted d" "get_row mp_map (df_id d) (map_policies s) = Some p" "mp_active p" "\<not> mp_force p"
      "\<not> mp_blocks p" "mp_checksum p = df_checksum d"
  | p where "\<not> df_deleted d" "get_row sp_set (df_set d) (set_policies s) = Some p" "sp_active p" "\<not> sp_force p"
      "map_of (sp_manifest p) (df_id d) = Some (df_checksum d)" "\<not> pending_set_event s d"
proof -
  have "\<not> df_deleted d" using assms(2) by (auto simp: is_effective_local_rank_def effective_beatmap_policy_def status_policy_def)
  moreover from this assms(2) have "(\<exists>p. get_row mp_map (df_id d) (map_policies s) = Some p \<and> mp_active p \<and> \<not> mp_force p
      \<and> \<not> mp_blocks p \<and> mp_checksum p = df_checksum d)
    \<or> (\<exists>p. get_row sp_set (df_set d) (set_policies s) = Some p \<and> sp_active p \<and> \<not> sp_force p
      \<and> map_of (sp_manifest p) (df_id d) = Some (df_checksum d) \<and> \<not> pending_set_event s d)"
    using flags.holds_rows[OF assms(1), of "df_id d"] flags.holds_rows(1)[OF assms(1), of "df_set d"]
    by (auto simp: is_effective_local_rank_def effective_beatmap_policy_def status_policy_def set_flags_ok_def map_flags_ok_def
        difficulty_policy_applies_def set_policy_applies_to_difficulty_def Let_def split: option.splits if_splits)
  ultimately show thesis using that by blast
qed

lemma fresh_rows: "set_policies s = [] \<Longrightarrow> map_policies s = [] \<Longrightarrow> rows_hold P Q s"
  by (simp add: rows_hold_def)

text \<open>C17: Starting from empty policy tables, after any sequence of ranking commands and cache updates, a
difficulty has a local leaderboard only if it is not deleted and an unforced active policy was decided for exactly
its current checksum: an exception of the difficulty, or a policy of the set whose manifest pins that checksum
and that has no unresolved upstream event.  Its leaderboard and pp flags are always those of its status.\<close>

theorem local_leaderboard_is_reviewed:
  assumes fresh: "set_policies s0 = []" "map_policies s0 = []" and s: "s = fold (run_command cfg) cs s0"
    and e: "e = effective_beatmap_policy s d"
  shows "ep_leaderboard e = has_leaderboard (ep_status e) \<and> ep_pp e = has_pp (ep_status e)
    \<and> (is_effective_local_rank e \<longrightarrow> \<not> df_deleted d \<and>
      ((\<exists>p. get_row mp_map (df_id d) (map_policies s) = Some p \<and> mp_active p \<and> \<not> mp_force p \<and> \<not> mp_blocks p
          \<and> mp_checksum p = df_checksum d)
       \<or> (\<exists>p. get_row sp_set (df_set d) (set_policies s) = Some p \<and> sp_active p \<and> \<not> sp_force p
          \<and> map_of (sp_manifest p) (df_id d) = Some (df_checksum d) \<and> \<not> pending_set_event s d)))"
proof -
  have ok: "rows_hold set_flags_ok map_flags_ok s" unfolding s by (rule flags_run[OF fresh_rows[OF fresh]])
  show ?thesis
  proof (intro conjI impI)
    show "ep_leaderboard e = has_leaderboard (ep_status e)" "ep_pp e = has_pp (ep_status e)"
      unfolding e by (rule effective_flags[OF ok])+
    assume "is_effective_local_rank e"
    then have loc: "is_effective_local_rank (effective_beatmap_policy s d)" by (simp add: e)
    show "\<not> df_deleted d" by (rule effective_local[OF ok loc])
    show "(\<exists>p. get_row mp_map (df_id d) (map_policies s) = Some p \<and> mp_active p \<and> \<not> mp_force p \<and> \<not> mp_blocks p
          \<and> mp_checksum p = df_checksum d)
       \<or> (\<exists>p. get_row sp_set (df_set d) (set_policies s) = Some p \<and> sp_active p \<and> \<not> sp_force p
          \<and> map_of (sp_manifest p) (df_id d) = Some (df_checksum d) \<and> \<not> pending_set_event s d)"
      by (rule effective_local[OF ok loc]) blast+
  qed
qed

lemma pinned_blocks:
  assumes flags: "rows_hold set_flags_ok map_flags_ok s" and pins: "rows_hold (set_pinned bs bm c) (map_pinned bm c) s"
    and d: "df_id d = bm" "df_set d = bs" "c \<noteq> Some (df_checksum d)"
  shows "\<not> is_effective_local_rank (effective_beatmap_policy s d)"
proof
  assume loc: "is_effective_local_rank (effective_beatmap_policy s d)"
  show False
  proof (cases rule: effective_local[OF flags loc])
    case (1 p)
    then have "map_pinned bm c p" using pinned.holds_rows(2)[OF pins] by blast
    moreover have "mp_map p = bm" using 1(2) d by (auto simp: get_row_def dest: find_Some_in)
    ultimately show False using 1 d by (simp add: map_pinned_def)
  next
    case (2 p)
    then have "set_pinned bs bm c p" using pinned.holds_rows(1)[OF pins] by blast
    moreover have "sp_set p = bs" using 2(2) d by (auto simp: get_row_def dest: find_Some_in)
    ultimately show False using 2 d by (simp add: set_pinned_def)
  qed
qed

section \<open>Decisions do not fail half-way\<close>

definition surely :: "('s \<Rightarrow> bool) \<Rightarrow> ('s, 'a) op \<Rightarrow> bool" where
  "surely I m \<longleftrightarrow> (\<forall>s. I s \<longrightarrow> (\<exists>a s'. m s = (Inr a, s') \<and> I s'))"

lemma surelyE: "surely I m \<Longrightarrow> I s \<Longrightarrow> (\<And>a s'. m s = (Inr a, s') \<Longrightarrow> I s' \<Longrightarrow> thesis) \<Longrightarrow> thesis"
  unfolding surely_def by blast

lemma surely_ret: "surely I (ret a)"
  by (simp add: surely_def run_simps)

lemma surely_modify: "(\<And>s. I s \<Longrightarrow> I (f s)) \<Longrightarrow> surely I (modify f)"
  by (simp add: surely_def run_simps)

lemma surely_read: "(\<And>s. I s \<Longrightarrow> surely I (k (f s))) \<Longrightarrow> surely I (bnd (gets f) k)"
  by (simp add: surely_def run_simps)

lemma surely_bnd: "surely I m \<Longrightarrow> (\<And>a. surely I (k a)) \<Longrightarrow> surely I (bnd m k)"
  unfolding surely_def by (fastforce simp: bnd_def)

lemma surely_seq: "surely I m \<Longrightarrow> surely I k \<Longrightarrow> surely I (seq m k)"
  by (simp add: seq_def surely_bnd)

lemma surely_option:
  "(x = None \<Longrightarrow> surely I m) \<Longrightarrow> (\<And>a. x = Some a \<Longrightarrow> surely I (k a)) \<Longrightarrow> surely I (case x of None \<Rightarrow> m | Some a \<Rightarrow> k a)"
  by (cases x) simp_all

lemma surely_prod: "(\<And>a b. surely I (f a b)) \<Longrightarrow> surely I (case p of (a, b) \<Rightarrow> f a b)"
  by (cases p) simp

lemma surely_for_each: "(\<And>x. x \<in> set xs \<Longrightarrow> surely I (f x)) \<Longrightarrow> surely I (for_each xs f)"
  by (induction xs) (auto intro: surely_ret surely_seq)

lemma surely_collect: "(\<And>x. x \<in> set xs \<Longrightarrow> surely I (f x)) \<Longrightarrow> surely I (collect xs f)"
  by (induction xs) (auto intro!: surely_ret surely_bnd)

lemmas surely_rules = surely_ret surely_read surely_bnd surely_seq surely_option surely_prod surely_for_each surely_collect

lemma global_best_rows_in: "(k, r) \<in> set (global_best_rows rows) \<Longrightarrow> r \<in> set rows"
proof -
  have put: "(k, r) \<in> set (put_key j v l) \<Longrightarrow> r = v \<or> (k, r) \<in> set l" for j v l
    by (induction j v l rule: put_key.induct) (auto split: if_splits)
  have "(k, r) \<in> set (fold global_best_step rows acc) \<Longrightarrow> r \<in> set rows \<or> (k, r) \<in> set acc" for acc
    by (induction rows arbitrary: acc) (auto simp: global_best_step_def Let_def dest!: put split: option.splits if_splits)
  from this[of "[]"] show "(k, r) \<in> set (global_best_rows rows) \<Longrightarrow> r \<in> set rows" by (simp add: global_best_rows_def)
qed

lemma surely_save: "surely (\<lambda>s. backed s \<and> R (total_bests s)) (save_statistics st)"
  by (auto simp: save_statistics_def backed_def intro!: surely_modify)

lemma surely_retire:
  assumes "configured_scoring_mode cfg = STANDARDISED" "set rows \<subseteq> set T"
  shows "surely (\<lambda>s. backed s \<and> total_bests s = T) (retire_ranked_score_contributions cfg rows ids)"
  unfolding retire_ranked_score_contributions_def
proof (intro surely_bnd surely_collect surely_ret)
  let ?I = "\<lambda>s. backed s \<and> total_bests s = T"
  fix e assume "e \<in> set (global_best_rows rows)"
  then obtain u bm g r where e: "e = ((u, bm, g), r)" "r \<in> set T"
    using assms(2) global_best_rows_in by (metis prod.exhaust subsetD)
  have shown: "surely ?I (bnd (gets (\<lambda>s. display_score_of_best cfg s (Some r))) (\<lambda>shown. bnd (lift shown) k))"
    if "\<And>x. surely ?I (k x)" for k :: "int \<Rightarrow> (profiles, (int \<times> game_mode) list) op"
    using that e(2) display_of_best[OF _ assms(1), of _ "Some r"] by (auto simp: surely_def run_simps)
  have "surely ?I (retire_contribution cfg ids e)" if "bm \<in> set ids"
    unfolding e retire_contribution_def prod.case using that
    apply simp
    by (rule surely_read, rule surely_option, rule surely_ret, rule shown, rule surely_seq, rule surely_save, rule surely_ret)
  moreover have "surely ?I (retire_contribution cfg ids e)" if "bm \<notin> set ids"
    using that by (simp add: e retire_contribution_def surely_ret)
  ultimately show "surely ?I (retire_contribution cfg ids e)" by blast
qed

lemma surely_repairs: "surely backed (repair_maximum_combo ks)" "surely backed (repair_pp ks)"
  using surely_save[where R = "\<lambda>_. True"]
  by (auto simp: repair_maximum_combo_def repair_pp_def intro!: surely_rules)

lemma surely_reconcile:
  assumes std: "configured_scoring_mode cfg = STANDARDISED"
  shows "surely backed (reconcile_disabled_score_features cfg ts)"
proof -
  have retract: "backed (s\<lparr>plays := map (retract_play a b c) (plays s)\<rparr>)" if "backed s" for s a b c
    using that by (auto simp: backed_def backs_def get_row_map)
  have retire: "surely backed (bnd (gets (\<lambda>s. filter P (total_bests s))) (\<lambda>rows. bnd (gets g) (\<lambda>b.
      bnd (retire_ranked_score_contributions cfg rows ids) (k rows b))))"
    if k: "\<And>a b c. surely backed (k a b c)"
    for P ids and g :: "profiles \<Rightarrow> best_score list" and k :: "_ \<Rightarrow> _ \<Rightarrow> _ \<Rightarrow> (profiles, reconciliation) op"
    unfolding surely_def
  proof (intro allI impI)
    fix s assume s: "backed s"
    let ?rows = "filter P (total_bests s)"
    have "surely (\<lambda>u. backed u \<and> total_bests u = total_bests s) (retire_ranked_score_contributions cfg ?rows ids)"
      by (rule surely_retire[OF std]) simp
    then obtain xs s1 where s1: "retire_ranked_score_contributions cfg ?rows ids s = (Inr xs, s1)" "backed s1"
      using s unfolding surely_def by blast
    from surelyE[OF k[of ?rows "g s" xs] s1(2)] obtain a s2 where "k ?rows (g s) xs s1 = (Inr a, s2)" "backed s2" by metis
    then show "\<exists>a s'. bnd (gets (\<lambda>s. filter P (total_bests s))) (\<lambda>rows. bnd (gets g) (\<lambda>b.
      bnd (retire_ranked_score_contributions cfg rows ids) (k rows b))) s = (Inr a, s') \<and> backed s'"
      by (intro exI[of _ a] exI[of _ s2]) (simp add: run_simps bnd_def s1)
  qed
  show ?thesis
    unfolding reconcile_disabled_score_features_def Let_def
    by (simp add: surely_ret del: filter_filter)
      (auto intro!: surely_read surely_seq retire surely_modify retract surely_repairs surely_ret simp del: filter_filter
        simp: backed_def)
qed

lemma finish_runs:
  assumes std: "configured_scoring_mode cfg = STANDARDISED" and bkd: "backed (score_tables s)"
    and ids: "map fst before = affected" "set affected \<subseteq> df_id ` set (difficulties s)"
  obtains res tbl where "finish_manual_policy_change cfg affected before s = (Inr res, s\<lparr>score_tables := tbl\<rparr>)" "backed tbl"
proof -
  let ?after = "get_effective_beatmap_policies s (filter (\<lambda>d. df_id d \<in> set affected) (difficulties s))"
  have "set (map fst ?after) = set affected" using ids(2) by (auto simp: get_effective_beatmap_policies_def)
  then obtain ts where ts: "plan_score_policy_transitions (enable_all_beatmap_leaderboard cfg) (enable_all_beatmap_pp cfg) before ?after = Inr ts"
    using ids(1) by (simp add: plan_score_policy_transitions_def)
  obtain res tbl where "reconcile_disabled_score_features cfg ts (score_tables s) = (Inr res, tbl)" "backed tbl"
    by (rule surelyE[OF surely_reconcile[OF std] bkd])
  then show thesis
    by (intro that[of res tbl]) (simp_all add: finish_manual_policy_change_def run_simps ts on_scores_def)
qed

text \<open>Switching off the exceptions of a set, row by row.\<close>

definition override_off :: "int \<Rightarrow> string \<Rightarrow> time \<Rightarrow> map_policy \<Rightarrow> map_policy" where
  "override_off actor why t p = p\<lparr>mp_active := False, mp_reason := why, mp_updated_by := Some actor, mp_updated := t\<rparr>"

lemma override_off_key [simp]: "mp_map (override_off actor why t p) = mp_map p" "\<not> mp_active (override_off actor why t p)"
  by (simp_all add: override_off_def)

lemma overrides_off:
  assumes "distinct (map mp_map ps)" and "\<And>p. p \<in> set ps \<Longrightarrow> get_row mp_map (mp_map p) (map_policies s) = Some p"
  shows "\<exists>mps au. for_each ps (\<lambda>p. seq (save_map_policy (override_off actor why t p)) (add_audit CLEAR Scope_map bs (Some (mp_map p))
        (Some actor) why (Some (OfMap p)) (Some (OfMap (override_off actor why t p))) t)) s
      = (Inr (), s\<lparr>map_policies := mps, audits := au\<rparr>)
    \<and> (\<forall>b. get_row mp_map b mps = map_option (\<lambda>p. if p \<in> set ps then override_off actor why t p else p) (get_row mp_map b (map_policies s)))"
  using assms
proof (induction ps arbitrary: s)
  case Nil
  then show ?case by (intro exI[of _ "map_policies s"] exI[of _ "audits s"]) (simp add: ret_def option.map_ident)
next
  case (Cons p ps)
  let ?q = "override_off actor why t p"
  let ?new = "\<lparr>au_action = CLEAR, au_scope = Scope_map, au_set = bs, au_map = Some (mp_map p), au_actor = Some actor, au_reason = why,
     au_before = Some (OfMap p), au_after = Some (OfMap ?q), au_created = t\<rparr>"
  define s1 where "s1 = s\<lparr>map_policies := put_row mp_map ?q (map_policies s), audits := audits s @ [?new]\<rparr>"
  have s1_row: "get_row mp_map b (map_policies s1) = (if b = mp_map p then Some ?q else get_row mp_map b (map_policies s))" for b
    by (simp add: s1_def rows.get_put)
  have p: "get_row mp_map (mp_map p) (map_policies s) = Some p" using Cons.prems(2) by simp
  have keys: "mp_map r \<noteq> mp_map p" if "r \<in> set ps" for r
    using Cons.prems(1) that by (metis distinct.simps(2) image_eqI list.map(2) set_map)
  have "get_row mp_map (mp_map r) (map_policies s1) = Some r" if "r \<in> set ps" for r
    using Cons.prems(2)[of r] that keys by (simp add: s1_row)
  then obtain mps au where rest: "for_each ps (\<lambda>p. seq (save_map_policy (override_off actor why t p)) (add_audit CLEAR Scope_map bs (Some (mp_map p))
        (Some actor) why (Some (OfMap p)) (Some (OfMap (override_off actor why t p))) t)) s1
      = (Inr (), s1\<lparr>map_policies := mps, audits := au\<rparr>)"
    and get: "\<And>b. get_row mp_map b mps = map_option (\<lambda>p. if p \<in> set ps then override_off actor why t p else p) (get_row mp_map b (map_policies s1))"
    using Cons.IH[of s1] Cons.prems(1) by auto
  have q: "?q \<notin> set ps" using keys[of ?q] by auto
  have "get_row mp_map b mps = map_option (\<lambda>r. if r \<in> set (p # ps) then override_off actor why t r else r) (get_row mp_map b (map_policies s))" for b
  proof (cases "b = mp_map p")
    case True
    then show ?thesis using get[of b] p q by (simp add: s1_row)
  next
    case False
    then have "r \<noteq> p" if "get_row mp_map b (map_policies s) = Some r" for r using rows.get_key[OF that] by auto
    then show ?thesis using get[of b] False by (cases "get_row mp_map b (map_policies s)") (simp_all add: s1_row)
  qed
  moreover have step: "seq (save_map_policy ?q) (add_audit CLEAR Scope_map bs (Some (mp_map p)) (Some actor) why (Some (OfMap p))
      (Some (OfMap ?q)) t) s = (Inr (), s1)"
    by (simp add: save_map_policy_def add_audit_def run_simps s1_def)
  moreover have "seq (seq (save_map_policy ?q) (add_audit CLEAR Scope_map bs (Some (mp_map p)) (Some actor) why (Some (OfMap p))
      (Some (OfMap ?q)) t)) k s = k s1" for k :: "(ranking_db, unit) op"
    unfolding seq_def[of _ k] bnd_def[of _ "\<lambda>_. k"] step by simp
  moreover have "s1\<lparr>map_policies := mps, audits := au\<rparr> = s\<lparr>map_policies := mps, audits := au\<rparr>" by (simp add: s1_def)
  ultimately show ?case using rest by (intro exI[of _ mps] exI[of _ au]) simp
qed

section \<open>Running a decision\<close>

definition events_resolved :: "int \<Rightarrow> int \<Rightarrow> int option \<Rightarrow> time \<Rightarrow> ranking_event list \<Rightarrow> ranking_event list" where
  "events_resolved actor bs bm t es = map (\<lambda>e.
     if ev_set e = bs \<and> ev_resolved e = None \<and> (case bm of None \<Rightarrow> True | Some b \<Rightarrow> ev_map e = b)
     then e\<lparr>ev_resolved := Some t, ev_resolved_by := Some actor\<rparr> else e) es"

lemma resolve_events_run: "seq (resolve_events actor bs bm t) k s = k (s\<lparr>ranking_events := events_resolved actor bs bm t (ranking_events s)\<rparr>)"
  by (simp add: resolve_events_def run_simps events_resolved_def)

text \<open>The rows after the exceptions of a set were replaced, or not.\<close>

definition kept_override :: "bool \<Rightarrow> int \<Rightarrow> int \<Rightarrow> string \<Rightarrow> time \<Rightarrow> map_policy \<Rightarrow> map_policy" where
  "kept_override replace actor bs why t p = (if replace \<and> mp_set p = bs \<and> mp_active p then override_off actor why t p else p)"

lemma clear_overrides_run:
  assumes "distinct (map mp_map (map_policies s))"
  obtains mps au where "do_if replace (clear_overrides actor bs why t) s = (Inr (), s\<lparr>map_policies := mps, audits := au\<rparr>)"
    "\<And>b. get_row mp_map b mps = map_option (kept_override replace actor bs why t) (get_row mp_map b (map_policies s))"
proof (cases replace)
  case False
  show thesis
    by (rule that[where mps = "map_policies s" and au = "audits s"]) (simp_all add: False run_simps kept_override_def map_option_case split: option.split)
next
  case True
  let ?ps = "filter (\<lambda>p. mp_set p = bs \<and> mp_active p) (map_policies s)"
  have "distinct (map mp_map ?ps)" using assms by (simp add: distinct_map inj_on_def)
  moreover have "get_row mp_map (mp_map p) (map_policies s) = Some p" if "p \<in> set ?ps" for p
    using that get_row_mem[OF assms, of "mp_map p" p] by simp
  ultimately obtain mps au where mps: "clear_overrides actor bs why t s = (Inr (), s\<lparr>map_policies := mps, audits := au\<rparr>)"
    "\<And>b. get_row mp_map b mps = map_option (\<lambda>p. if p \<in> set ?ps then override_off actor why t p else p) (get_row mp_map b (map_policies s))"
    using overrides_off[of ?ps s actor why t bs]
    by (auto simp: clear_overrides_def run_simps Let_def override_off_def[symmetric])
  have "get_row mp_map b mps = map_option (kept_override replace actor bs why t) (get_row mp_map b (map_policies s))" for b
    using mps(2)[of b] get_row_mem[OF assms, of b]
    by (cases "get_row mp_map b (map_policies s)") (auto simp: kept_override_def True)
  then show thesis by (intro that[where mps = mps and au = au]) (simp_all add: True run_simps mps(1))
qed

definition apply_refusal :: "ranking_db \<Rightarrow> int \<Rightarrow> rank_status \<Rightarrow> int option \<Rightarrow> bool option \<Rightarrow> bool option \<Rightarrow> bool \<Rightarrow> error option" where
  "apply_refusal s bs st bm l p force =
     (case resolve_flags st l p of
        Inl e \<Rightarrow> Some e
      | Inr (leaderboard, pp) \<Rightarrow>
          if force \<and> (leaderboard \<or> pp) then Some (ValueErr ''A forced local unrank must disable leaderboard and PP'')
          else if get_row bs_id bs (beatmapsets s) = None then Some KeyErr
          else case bm of
            None \<Rightarrow> if live_difficulties s bs = [] then Some (ValueErr (''Beatmapset '' @ int_str bs @ '' has no cached difficulties to rank'')) else None
          | Some b \<Rightarrow>
              (case get_row df_id b (difficulties s) of
                 None \<Rightarrow> Some KeyErr
               | Some d \<Rightarrow> if df_set d \<noteq> bs then Some (ValueErr (''Beatmap '' @ int_str b @ '' does not belong to beatmapset '' @ int_str bs))
                           else if df_deleted d then Some (ValueErr (''Beatmap '' @ int_str b @ '' is deleted and cannot be ranked'')) else None))"

text \<open>The state a successful decision leaves, as far as the tables of the policies are concerned.\<close>

definition decided_rows ::
  "int \<Rightarrow> int \<Rightarrow> int option \<Rightarrow> rank_status \<Rightarrow> bool \<Rightarrow> bool \<Rightarrow> bool \<Rightarrow> bool \<Rightarrow> string \<Rightarrow> time \<Rightarrow> ranking_db \<Rightarrow> ranking_db \<Rightarrow> bool" where
  "decided_rows actor bs bm st leaderboard pp force replace why t s s' \<longleftrightarrow>
     difficulties s' = difficulties s \<and> beatmapsets s' = beatmapsets s
     \<and> ranking_events s' = events_resolved actor bs bm t (ranking_events s)
     \<and> (case get_row sy_set bs (sync_records s') of None \<Rightarrow> False | Some r \<Rightarrow> sy_next r \<le> t + LOCAL_RANK_MAX_SYNC_INTERVAL)
     \<and> (case bm of
          None \<Rightarrow> set_policies s' = put_row sp_set (new_set_policy actor bs st leaderboard pp force (live_difficulties s bs) why t) (set_policies s)
            \<and> (\<forall>b. get_row mp_map b (map_policies s') = map_option (kept_override replace actor bs why t) (get_row mp_map b (map_policies s)))
        | Some b \<Rightarrow> set_policies s' = set_policies s
            \<and> (\<exists>d. get_row df_id b (difficulties s) = Some d
                \<and> map_policies s' = put_row mp_map (new_map_policy actor d st leaderboard pp force False why t
                      (get_row mp_map b (map_policies s))) (map_policies s)))"

lemma schedule_due:
  assumes "get_row bs_id bs (beatmapsets s) \<noteq> None"
  obtains syncs r where "schedule_local_rank_sync bs t s = (Inr (), s\<lparr>sync_records := syncs\<rparr>)"
    "get_row sy_set bs syncs = Some r" "sy_next r \<le> t + LOCAL_RANK_MAX_SYNC_INTERVAL"
proof (cases "get_row sy_set bs (sync_records s)")
  case None
  obtain b where "get_row bs_id bs (beatmapsets s) = Some b" using assms by blast
  with None have "schedule_local_rank_sync bs t s = (Inr (), s\<lparr>sync_records := put_row sy_set
      \<lparr>sy_set = bs, sy_maps = map saved_of (filter (\<lambda>d. df_set d = bs) (difficulties s)), sy_status = bs_status b,
       sy_no_change = 0, sy_next = t + LOCAL_RANK_MAX_SYNC_INTERVAL\<rparr> (sync_records s)\<rparr>)"
    by (simp add: schedule_local_rank_sync_def run_simps Let_def)
  then show thesis by (rule that) (simp add: rows.get_put, simp)
next
  case (Some r)
  show thesis
  proof (cases "t + LOCAL_RANK_MAX_SYNC_INTERVAL < sy_next r")
    case True
    with Some have "schedule_local_rank_sync bs t s
        = (Inr (), s\<lparr>sync_records := put_row sy_set (r\<lparr>sy_next := t + LOCAL_RANK_MAX_SYNC_INTERVAL\<rparr>) (sync_records s)\<rparr>)"
      by (simp add: schedule_local_rank_sync_def run_simps Let_def)
    then show thesis using rows.get_key[OF Some] by (intro that) (assumption, simp add: rows.get_put, simp)
  next
    case False
    with Some have "schedule_local_rank_sync bs t s = (Inr (), s\<lparr>sync_records := sync_records s\<rparr>)"
      by (simp add: schedule_local_rank_sync_def run_simps Let_def)
    then show thesis by (rule that) (rule Some, use False in simp)
  qed
qed

lemma live_ids [simp]: "df_id ` set (live_difficulties s bs) \<subseteq> df_id ` set (difficulties s)"
  by (auto simp: live_difficulties_def)

text \<open>The common end of a decision.\<close>

lemma decision_tail:
  assumes std: "configured_scoring_mode cfg = STANDARDISED" and bkd: "backed (score_tables s)" and bs: "get_row bs_id bs (beatmapsets s) \<noteq> None"
    and ids: "map fst before = affected" "set affected \<subseteq> df_id ` set (difficulties s)"
  obtains au syncs r tbl where
    "seq (add_audit a sc bs bm who why old new t) (seq (schedule_local_rank_sync bs t)
       (bnd (finish_manual_policy_change cfg affected before) (\<lambda>_. ret x))) s
     = (Inr x, s\<lparr>audits := au, sync_records := syncs, score_tables := tbl\<rparr>)"
    "get_row sy_set bs syncs = Some r" "sy_next r \<le> t + LOCAL_RANK_MAX_SYNC_INTERVAL" "backed tbl"
proof -
  define au where "au = audits s @ [\<lparr>au_action = a, au_scope = sc, au_set = bs, au_map = bm, au_actor = who,
       au_reason = why, au_before = old, au_after = new, au_created = t\<rparr>]"
  obtain syncs r where sync: "schedule_local_rank_sync bs t (s\<lparr>audits := au\<rparr>) = (Inr (), s\<lparr>audits := au, sync_records := syncs\<rparr>)"
    "get_row sy_set bs syncs = Some r" "sy_next r \<le> t + LOCAL_RANK_MAX_SYNC_INTERVAL"
    by (rule schedule_due[of bs "s\<lparr>audits := au\<rparr>" t]) (use bs in auto)
  obtain res tbl where fin: "finish_manual_policy_change cfg affected before (s\<lparr>audits := au, sync_records := syncs\<rparr>)
      = (Inr res, s\<lparr>audits := au, sync_records := syncs, score_tables := tbl\<rparr>)" "backed tbl"
    by (rule finish_runs[OF std, of "s\<lparr>audits := au, sync_records := syncs\<rparr>" before affected]) (use bkd ids in auto)
  have logged: "seq (add_audit a sc bs bm who why old new t) k s = k (s\<lparr>audits := au\<rparr>)" for k :: "(ranking_db, 'b) op"
    by (simp add: add_audit_def run_simps au_def)
  show thesis
    by (rule that[OF _ sync(2,3) fin(2), where au = au], unfold logged) (simp add: seq_def bnd_def sync(1) fin(1) ret_def)
qed

lemma apply_refused:
  assumes "apply_refusal s bs st bm l p force = Some e"
  shows "apply_local_rank cfg actor t bs st why bm l p force replace s = (Inl e, s)"
proof (cases "resolve_flags st l p")
  case (Inl e')
  then show ?thesis
    using assms by (simp add: apply_refusal_def apply_local_rank_def transaction_def run_simps Let_def)
next
  case (Inr flags)
  obtain leaderboard pp where flags: "flags = (leaderboard, pp)" by (cases flags)
  note run = apply_local_rank_def transaction_def Let_def Inr flags
  consider (forced) "force \<and> (leaderboard \<or> pp)" | (unknown) "\<not> (force \<and> (leaderboard \<or> pp))" "get_row bs_id bs (beatmapsets s) = None"
    | (known) "\<not> (force \<and> (leaderboard \<or> pp))" "get_row bs_id bs (beatmapsets s) \<noteq> None" by blast
  then show ?thesis
  proof cases
    case forced
    then show ?thesis using assms by (auto simp: run run_simps apply_refusal_def)
  next
    case unknown
    then have "lock_beatmapset bs s = (Inl KeyErr, s)" by (simp add: lock_beatmapset_def run_simps)
    then show ?thesis using unknown assms by (auto simp: run run_simps apply_refusal_def step_runs)
  next
    case known
    then have lock: "lock_beatmapset bs s = (Inr (), s)" by (auto simp: lock_beatmapset_def run_simps)
    have "target_difficulty bs b ''ranked'' s = (Inl e, s)" if "bm = Some b" for b
      using assms known that by (auto simp: apply_refusal_def Inr flags target_difficulty_def run_simps split: option.splits if_splits)
    then have "(case bm of None \<Rightarrow> apply_to_set actor bs st leaderboard pp force replace (normalise_reason why) t
        | Some b \<Rightarrow> apply_to_map actor bs b st leaderboard pp force (normalise_reason why) t) s = (Inl e, s)"
      using assms known
      by (cases bm) (auto simp: apply_refusal_def Inr flags apply_to_set_def apply_to_map_def run_simps step_runs split: if_splits)
    then show ?thesis using known(1) by (auto simp: run run_simps lock step_runs)
  qed
qed

lemma apply_decides:
  assumes std: "configured_scoring_mode cfg = STANDARDISED" and bkd: "backed (score_tables s)"
    and key: "distinct (map mp_map (map_policies s))" and ok: "apply_refusal s bs st bm l p force = None"
  obtains pol s' leaderboard pp where
    "apply_local_rank cfg actor t bs st why bm l p force replace s = (Inr pol, s')" "resolve_flags st l p = Inr (leaderboard, pp)"
    "force \<Longrightarrow> \<not> leaderboard \<and> \<not> pp" "backed (score_tables s')"
    "decided_rows actor bs bm st leaderboard pp force replace (normalise_reason why) t s s'"
proof -
  note result = that
  let ?w = "normalise_reason why"
  obtain leaderboard pp where flags: "resolve_flags st l p = Inr (leaderboard, pp)"
    using ok by (auto simp: apply_refusal_def split: sum.splits)
  have allowed: "\<not> (force \<and> (leaderboard \<or> pp))" and bs: "get_row bs_id bs (beatmapsets s) \<noteq> None"
    using ok by (auto simp: apply_refusal_def flags split: if_splits)
  have lock: "lock_beatmapset bs s = (Inr (), s)" using bs by (auto simp: lock_beatmapset_def run_simps)
  have end_of: thesis
    if step: "(case bm of None \<Rightarrow> apply_to_set actor bs st leaderboard pp force replace ?w t
        | Some b \<Rightarrow> apply_to_map actor bs b st leaderboard pp force ?w t) s = (Inr (old, pol, affected, before), s1)"
      and s1: "score_tables s1 = score_tables s" "beatmapsets s1 = beatmapsets s" "difficulties s1 = difficulties s"
      and ids: "map fst before = affected" "set affected \<subseteq> df_id ` set (difficulties s)"
      and rows: "\<And>au syncs r tbl. get_row sy_set bs syncs = Some r \<Longrightarrow> sy_next r \<le> t + LOCAL_RANK_MAX_SYNC_INTERVAL \<Longrightarrow>
        decided_rows actor bs bm st leaderboard pp force replace ?w t s (s1\<lparr>audits := au, sync_records := syncs, score_tables := tbl\<rparr>)"
    for old pol affected before s1
  proof -
    obtain au syncs r tbl where tail:
      "seq (add_audit APPLY (case bm of None \<Rightarrow> Scope_set | Some _ \<Rightarrow> Scope_map) bs bm (Some actor) ?w old (Some pol) t)
         (seq (schedule_local_rank_sync bs t) (bnd (finish_manual_policy_change cfg affected before) (\<lambda>_. ret pol))) s1
       = (Inr pol, s1\<lparr>audits := au, sync_records := syncs, score_tables := tbl\<rparr>)"
      "get_row sy_set bs syncs = Some r" "sy_next r \<le> t + LOCAL_RANK_MAX_SYNC_INTERVAL" "backed tbl"
      by (rule decision_tail[OF std, of s1 bs before affected]) (use s1 bkd bs ids in auto)
    have "apply_local_rank cfg actor t bs st why bm l p force replace s = (Inr pol, s1\<lparr>audits := au, sync_records := syncs, score_tables := tbl\<rparr>)"
      using allowed by (auto simp: apply_local_rank_def transaction_def Let_def flags run_simps lock step_runs step tail(1))
    then show thesis by (rule result[OF _ flags _ _ rows[OF tail(2,3)]]) (use allowed tail(4) in auto)
  qed
  show thesis
  proof (cases bm)
    case (Some b)
    obtain d where d: "get_row df_id b (difficulties s) = Some d" "df_set d = bs" "\<not> df_deleted d"
      using ok by (auto simp: apply_refusal_def flags Some split: if_splits option.splits)
    have target: "target_difficulty bs b ''ranked'' s = (Inr d, s)"
      using d by (simp add: target_difficulty_def run_simps)
    let ?p = "new_map_policy actor d st leaderboard pp force False ?w t (get_row mp_map b (map_policies s))"
    let ?s1 = "s\<lparr>map_policies := put_row mp_map ?p (map_policies s), ranking_events := events_resolved actor bs (Some b) t (ranking_events s)\<rparr>"
    have in_cache: "d \<in> set (difficulties s)" using d(1) by (auto simp: get_row_def dest: find_Some_in)
    have "apply_to_map actor bs b st leaderboard pp force ?w t s
      = (Inr (map_option OfMap (get_row mp_map b (map_policies s)), OfMap ?p, [df_id d], get_effective_beatmap_policies s [d]), ?s1)"
      by (simp add: apply_to_map_def step_runs target run_simps Let_def save_map_policy_def resolve_events_run)
    then have "(case bm of None \<Rightarrow> apply_to_set actor bs st leaderboard pp force replace ?w t
        | Some b \<Rightarrow> apply_to_map actor bs b st leaderboard pp force ?w t) s
      = (Inr (map_option OfMap (get_row mp_map b (map_policies s)), OfMap ?p, [df_id d], get_effective_beatmap_policies s [d]), ?s1)"
      by (simp add: Some)
    then show thesis
      by (rule end_of) (use d in_cache in \<open>simp_all add: Some decided_rows_def get_effective_beatmap_policies_def\<close>)
  next
    case None
    let ?ds = "live_difficulties s bs"
    have ds: "?ds \<noteq> []" using ok by (auto simp: apply_refusal_def flags None split: if_splits)
    obtain mps au where over: "do_if replace (clear_overrides actor bs ?w t) s = (Inr (), s\<lparr>map_policies := mps, audits := au\<rparr>)"
      "\<And>b. get_row mp_map b mps = map_option (kept_override replace actor bs ?w t) (get_row mp_map b (map_policies s))"
      by (rule clear_overrides_run[OF key, of replace actor bs ?w t]) (rule that; assumption)
    let ?p = "new_set_policy actor bs st leaderboard pp force ?ds ?w t"
    let ?s1 = "s\<lparr>map_policies := mps, audits := au, set_policies := put_row sp_set ?p (set_policies s),
      ranking_events := events_resolved actor bs None t (ranking_events s)\<rparr>"
    have "apply_to_set actor bs st leaderboard pp force replace ?w t s
      = (Inr (map_option OfSet (get_row sp_set bs (set_policies s)), OfSet ?p, map df_id ?ds, get_effective_beatmap_policies s ?ds), ?s1)"
      using ds by (simp add: apply_to_set_def step_runs run_simps Let_def over(1) save_set_policy_def resolve_events_run)
    then have "(case bm of None \<Rightarrow> apply_to_set actor bs st leaderboard pp force replace ?w t
        | Some b \<Rightarrow> apply_to_map actor bs b st leaderboard pp force ?w t) s
      = (Inr (map_option OfSet (get_row sp_set bs (set_policies s)), OfSet ?p, map df_id ?ds, get_effective_beatmap_policies s ?ds), ?s1)"
      by (simp add: None)
    then show thesis
      by (rule end_of) (simp_all add: None over(2) decided_rows_def get_effective_beatmap_policies_def live_ids)
  qed
qed

section \<open>Decisions\<close>

text \<open>C18: a local ranking decision is refused for exactly the reasons the code lists (flags that do not fit the
  status, a forced unrank that keeps a feature, an unknown set, a set without live difficulties, a difficulty that
  is unknown, of another set or deleted); it then changes nothing.  In every other case it succeeds: neither the
  audit trail nor the reconciliation of the scores can fail, and the next sync with upstream is due within six
  hours.\<close>

theorem apply_refused_iff:
  assumes "configured_scoring_mode cfg = STANDARDISED" and "backed (score_tables s)" and "distinct (map mp_map (map_policies s))"
  shows "case apply_local_rank cfg actor t bs st why bm l p force replace s of
      (Inl e, s') \<Rightarrow> apply_refusal s bs st bm l p force = Some e \<and> s' = s
    | (Inr pol, s') \<Rightarrow> apply_refusal s bs st bm l p force = None
        \<and> (case get_row sy_set bs (sync_records s') of None \<Rightarrow> False | Some r \<Rightarrow> sy_next r \<le> t + seconds (6 * 3600))"
proof (cases "apply_refusal s bs st bm l p force")
  case (Some e)
  then show ?thesis using apply_refused[OF Some] by simp
next
  case None
  obtain pol s' leaderboard pp where run: "apply_local_rank cfg actor t bs st why bm l p force replace s = (Inr pol, s')"
    and dec: "decided_rows actor bs bm st leaderboard pp force replace (normalise_reason why) t s s'"
    by (rule apply_decides[OF assms None]) (rule that; assumption)
  then have "case get_row sy_set bs (sync_records s') of None \<Rightarrow> False | Some r \<Rightarrow> sy_next r \<le> t + seconds (6 * 3600)"
    unfolding decided_rows_def LOCAL_RANK_MAX_SYNC_INTERVAL_def by blast
  then show ?thesis by (simp add: run None)
qed

definition decided_difficulties :: "ranking_db \<Rightarrow> int \<Rightarrow> int option \<Rightarrow> difficulty list" where
  "decided_difficulties s bs bm =
     (case bm of None \<Rightarrow> live_difficulties s bs
      | Some b \<Rightarrow> (case get_row df_id b (difficulties s) of None \<Rightarrow> [] | Some d \<Rightarrow> [d]))"

lemma no_pending_set_event: "df_set d = bs \<Longrightarrow> ranking_events s' = events_resolved actor bs None t es \<Longrightarrow> \<not> pending_set_event s' d"
  by (auto simp: pending_set_event_def events_resolved_def list_ex_iff)

lemma decision_effective:
  assumes keys: "distinct (map mp_map (map_policies s))" "distinct (map df_id (difficulties s))"
    and sets: "\<forall>d \<in> set (difficulties s). \<forall>q \<in> set (map_policies s). mp_map q = df_id d \<longrightarrow> mp_set q = df_set d"
    and ok: "apply_refusal s bs st bm l p force = None" and whole: "bm = None \<Longrightarrow> replace"
    and flags: "resolve_flags st l p = Inr (leaderboard, pp)"
    and dec: "decided_rows actor bs bm st leaderboard pp force replace (normalise_reason why) t s s'"
    and d: "d \<in> set (decided_difficulties s' bs bm)"
  shows "effective_beatmap_policy s' d = \<lparr>ep_status = st, ep_leaderboard = has_leaderboard st, ep_pp = has_pp st,
          ep_source = (if bm = None then FROM_BEATMAPSET else FROM_BEATMAP)\<rparr>"
proof -
  have lbs: "leaderboard = has_leaderboard st" "pp = has_pp st" using resolved_flags[OF flags] by simp_all
  have same: "difficulties s' = difficulties s" using dec by (simp add: decided_rows_def)
  show ?thesis
  proof (cases bm)
    case (Some b)
    have row: "get_row df_id b (difficulties s) = Some d" using d by (auto simp: decided_difficulties_def Some same split: option.splits)
    then have "\<not> df_deleted d" "df_id d = b"
      using ok rows.get_key[OF row] by (auto simp: apply_refusal_def flags Some split: if_splits)
    moreover have "get_row mp_map b (map_policies s') = Some (new_map_policy actor d st leaderboard pp force False (normalise_reason why) t
        (get_row mp_map b (map_policies s)))"
      using dec row \<open>df_id d = b\<close> by (auto simp: decided_rows_def Some new_map_policy_def rows.get_put)
    ultimately show ?thesis
      by (simp add: effective_beatmap_policy_def difficulty_policy_applies_def new_map_policy_def Some lbs)
  next
    case None
    have live: "d \<in> set (live_difficulties s bs)" using d by (simp add: decided_difficulties_def None same live_difficulties_def)
    then have d': "d \<in> set (difficulties s)" "df_set d = bs" "\<not> df_deleted d" by (simp_all add: live_difficulties_def)
    have set_row: "get_row sp_set bs (set_policies s')
        = Some (new_set_policy actor bs st leaderboard pp force (live_difficulties s bs) (normalise_reason why) t)"
      using dec by (simp add: decided_rows_def None new_set_policy_def rows.get_put)
    have "map_of (map (\<lambda>d. (df_id d, df_checksum d)) (live_difficulties s bs)) (df_id d) = Some (df_checksum d)"
      using keys(2) live by (intro map_of_is_SomeI) (auto simp: live_difficulties_def distinct_map inj_on_def)
    then have applies: "set_policy_applies_to_difficulty
        (new_set_policy actor bs st leaderboard pp force (live_difficulties s bs) (normalise_reason why) t)
        (df_id d) (df_checksum d) (pending_set_event s' d)"
      using dec no_pending_set_event[OF d'(2), of s' actor t "ranking_events s"]
      by (simp add: set_policy_applies_to_difficulty_def new_set_policy_def decided_rows_def None)
    have off: "\<not> difficulty_policy_applies q (df_checksum d)" if q: "get_row mp_map (df_id d) (map_policies s') = Some q" for q
    proof -
      obtain q0 where q0: "get_row mp_map (df_id d) (map_policies s) = Some q0"
        "q = kept_override replace actor bs (normalise_reason why) t q0"
        using dec q by (auto simp: decided_rows_def None)
      then have "mp_set q0 = bs" using sets d'(1,2) get_row_mem[OF keys(1), of "df_id d" q0] by auto
      then show ?thesis using whole[OF None] by (auto simp: q0(2) kept_override_def difficulty_policy_applies_def)
    qed
    have fields: "sp_status (new_set_policy actor bs st leaderboard pp force ds w t) = st"
      "sp_leaderboard (new_set_policy actor bs st leaderboard pp force ds w t) = leaderboard"
      "sp_pp (new_set_policy actor bs st leaderboard pp force ds w t) = pp" for ds w leaderboard pp by (simp_all add: new_set_policy_def)
    show ?thesis
      by (cases "get_row mp_map (df_id d) (map_policies s')")
        (simp_all add: effective_beatmap_policy_def d' set_row[unfolded lbs] applies[unfolded lbs] fields None off Let_def)
  qed
qed

text \<open>C19: a decision takes effect exactly: once it is accepted, the effective policy of the chosen difficulty, or
  of every live difficulty of the set when its exceptions are replaced, has the decided status, that status's
  flags, and the decision as its source, whatever policies and events were there before.\<close>

theorem rank_takes_effect:
  assumes std: "configured_scoring_mode cfg = STANDARDISED" and bkd: "backed (score_tables s)"
    and keys: "distinct (map mp_map (map_policies s))" "distinct (map df_id (difficulties s))"
    and sets: "\<forall>d \<in> set (difficulties s). \<forall>q \<in> set (map_policies s). mp_map q = df_id d \<longrightarrow> mp_set q = df_set d"
    and ok: "apply_refusal s bs st bm l p force = None" and whole: "bm = None \<Longrightarrow> replace"
  shows "\<exists>pol s'. apply_local_rank cfg actor t bs st why bm l p force replace s = (Inr pol, s')
    \<and> (\<forall>d \<in> set (decided_difficulties s' bs bm). effective_beatmap_policy s' d =
         \<lparr>ep_status = st, ep_leaderboard = has_leaderboard st, ep_pp = has_pp st,
          ep_source = (if bm = None then FROM_BEATMAPSET else FROM_BEATMAP)\<rparr>)"
proof -
  obtain pol s' leaderboard pp where run: "apply_local_rank cfg actor t bs st why bm l p force replace s = (Inr pol, s')"
    and flags: "resolve_flags st l p = Inr (leaderboard, pp)"
    and dec: "decided_rows actor bs bm st leaderboard pp force replace (normalise_reason why) t s s'"
    by (rule apply_decides[OF std bkd keys(1) ok]) (rule that; assumption)
  show ?thesis
    using run decision_effective[OF keys sets ok whole flags dec] by blast
qed

section \<open>After an upstream change\<close>

lemma written_rows:
  "get_row key k t = Some p \<Longrightarrow> key q = key p \<Longrightarrow> distinct (map key t) \<Longrightarrow> R q \<Longrightarrow> (\<And>x. key x \<noteq> k \<Longrightarrow> R x) \<Longrightarrow>
   list_all R (put_row key q t)"
  using rows.get_key[of key k t p] by (auto simp: list_all_iff dest: put_row_set)

lemma untouched_rows:
  "distinct (map key t) \<Longrightarrow> (\<And>p. get_row key k t = Some p \<Longrightarrow> R p) \<Longrightarrow> (\<And>x. key x \<noteq> k \<Longrightarrow> R x) \<Longrightarrow> list_all R t"
  using get_row_mem[of key t k] by (auto simp: list_all_iff)

lemma after_save:
  "keeps (rows_hold P Q) k \<Longrightarrow> rows_hold P Q (s\<lparr>map_policies := put_row mp_map q (map_policies s)\<rparr>) \<Longrightarrow>
   rows_hold P Q (snd (seq (save_map_policy q) k s))"
  "keeps (rows_hold P Q) k \<Longrightarrow> rows_hold P Q (s\<lparr>set_policies := put_row sp_set r (set_policies s)\<rparr>) \<Longrightarrow>
   rows_hold P Q (snd (seq (save_set_policy r) k s))"
  by (simp_all add: save_map_policy_def save_set_policy_def run_simps keepsD)

lemma invalidated_map:
  assumes "distinct (map mp_map (map_policies s))"
  shows "rows_hold (\<lambda>_. True) (map_pinned bm new) (snd (invalidate_map_policy bs bm old new t s))"
proof (cases "get_row mp_map bm (map_policies s)")
  case None
  then have "list_all (map_pinned bm new) (map_policies s)"
    by (intro untouched_rows[OF assms, of bm]) (auto simp: map_pinned_def)
  with None show ?thesis by (simp add: invalidate_map_policy_def run_simps rows_hold_def list_all_iff)
next
  case (Some p)
  show ?thesis
  proof (cases "mp_active p \<and> \<not> mp_force p \<and> \<not> mp_blocks p \<and> Some (mp_checksum p) \<noteq> new")
    case True
    have "list_all (map_pinned bm new) (put_row mp_map
        (p\<lparr>mp_active := False, mp_invalidated := Some t, mp_updated := t, mp_updated_by := None\<rparr>) (map_policies s))"
      by (rule written_rows[OF Some _ assms]) (simp_all add: map_pinned_def)
    then have rows: "rows_hold (\<lambda>_. True) (map_pinned bm new) (s\<lparr>map_policies := put_row mp_map (p\<lparr>mp_active := False, mp_invalidated := Some t, mp_updated := t, mp_updated_by := None\<rparr>) (map_policies s)\<rparr>)"
      by (simp add: rows_hold_def list.pred_True)
    show ?thesis
      unfolding invalidate_map_policy_def
      by (subst run_simps(1), unfold Some option.case if_P[OF True] Let_def, rule after_save(1)[OF _ rows], intro keeps_rules)
  next
    case False
    then have "list_all (map_pinned bm new) (map_policies s)"
      by (intro untouched_rows[OF assms, of bm]) (auto simp: map_pinned_def Some)
    then show ?thesis
      unfolding invalidate_map_policy_def run_simps(1) Some option.case if_not_P[OF False]
      by (simp add: rows_hold_def list.pred_True run_simps)
  qed
qed

lemma invalidated_set:
  assumes "distinct (map sp_set (set_policies s))"
  shows "rows_hold (set_pinned bs bm new) (\<lambda>_. True) (snd (invalidate_set_policy bs bm old new t s))"
proof (cases "get_row sp_set bs (set_policies s)")
  case None
  then have "list_all (set_pinned bs bm new) (set_policies s)"
    by (intro untouched_rows[OF assms, of bs]) (auto simp: set_pinned_def)
  with None show ?thesis by (simp add: invalidate_set_policy_def run_simps rows_hold_def list_all_iff)
next
  case (Some p)
  show ?thesis
  proof (cases "sp_active p \<and> \<not> sp_force p \<and> map_of (sp_manifest p) bm \<noteq> new")
    case True
    have "list_all (set_pinned bs bm new) (put_row sp_set
        (p\<lparr>sp_manifest := filter (\<lambda>(b, c). b \<noteq> bm) (sp_manifest p), sp_updated := t, sp_updated_by := None\<rparr>) (set_policies s))"
      by (rule written_rows[OF Some _ assms]) (simp_all add: set_pinned_def map_of_drop)
    then have rows: "rows_hold (set_pinned bs bm new) (\<lambda>_. True) (s\<lparr>set_policies := put_row sp_set (p\<lparr>sp_manifest := filter (\<lambda>(b, c). b \<noteq> bm) (sp_manifest p), sp_updated := t, sp_updated_by := None\<rparr>) (set_policies s)\<rparr>)"
      by (simp add: rows_hold_def list.pred_True)
    show ?thesis
      unfolding invalidate_set_policy_def
      by (subst run_simps(1), unfold Some option.case if_P[OF True] Let_def, rule after_save(2)[OF _ rows], intro keeps_rules)
  next
    case False
    then have "list_all (set_pinned bs bm new) (set_policies s)"
      by (intro untouched_rows[OF assms, of bs]) (auto simp: set_pinned_def Some)
    then show ?thesis
      unfolding invalidate_set_policy_def run_simps(1) Some option.case if_not_P[OF False]
      by (simp add: rows_hold_def list.pred_True run_simps)
  qed
qed

lemma invalidation_frames:
  "set_policies (snd (invalidate_map_policy bs bm old new t s)) = set_policies s"
  "map_policies (snd (invalidate_set_policy bs bm old new t s)) = map_policies s"
  "\<exists>es. fst (invalidate_map_policy bs bm old new t s) = Inr es" "\<exists>es. fst (invalidate_set_policy bs bm old new t s) = Inr es"
  by (simp_all add: invalidate_map_policy_def invalidate_set_policy_def upsert_revision_event_def save_map_policy_def
      save_set_policy_def add_audit_def Let_def op_defs split: option.split)

lemma invalidated_both:
  assumes keys: "distinct (map mp_map (map_policies s))" "distinct (map sp_set (set_policies s))"
    and change: "old \<noteq> new" and known: "get_row bs_id bs (beatmapsets s) \<noteq> None" "get_row df_id bm (difficulties s) = Some d" "df_set d = bs"
  shows "rows_hold (set_pinned bs bm new) (map_pinned bm new) (snd (invalidate_for_upstream_change bs bm old new ou nu t s))"
proof -
  obtain es s1 where s1: "invalidate_map_policy bs bm old new t s = (Inr es, s1)"
    using invalidation_frames(3)[of bs bm old new t s] by (metis prod.collapse)
  obtain fs s2 where s2: "invalidate_set_policy bs bm old new t s1 = (Inr fs, s2)"
    using invalidation_frames(4)[of bs bm old new t s1] by (metis prod.collapse)
  have "invalidate_for_upstream_change bs bm old new ou nu t s = (Inr (es @ fs), s2)"
    using change known by (simp add: invalidate_for_upstream_change_def run_simps step_runs s1 s2)
  moreover have "map_policies s2 = map_policies s1" "set_policies s1 = set_policies s"
    using invalidation_frames(2)[of bs bm old new t s1] invalidation_frames(1)[of bs bm old new t s] by (simp_all add: s1 s2)
  ultimately show ?thesis
    using invalidated_map[OF keys(1), of bm new bs old t] invalidated_set[of s1 bs bm new old t] keys(2)
    by (simp add: s1 s2 rows_hold_def)
qed

text \<open>When upstream changes the revision of a difficulty, no earlier decision outlives it: whatever commands
  and cache updates follow, as long as no moderator ranks the difficulty or its whole set again, the difficulty has
  no local leaderboard under any checksum other than the new one, not even when upstream reverts to the revision
  that had been ranked.\<close>

theorem changed_revision_needs_review:
  assumes fresh: "set_policies s0 = []" "map_policies s0 = []" and s: "s = fold (run_command cfg) cs0 s0"
    and keys: "distinct (map mp_map (map_policies s))" "distinct (map sp_set (set_policies s))"
    and change: "old \<noteq> new" and known: "get_row bs_id bs (beatmapsets s) \<noteq> None" "get_row df_id bm (difficulties s) = Some d0" "df_set d0 = bs"
    and later: "s' = fold (run_command cfg) cs (run_command cfg (Upstream bs bm old new ou nu t) s)"
    and unreviewed: "list_all (\<lambda>c. \<not> reviews bs bm c) cs"
    and d: "df_id d = bm" "df_set d = bs" "new \<noteq> Some (df_checksum d)"
  shows "\<not> is_effective_local_rank (effective_beatmap_policy s' d)"
proof (rule pinned_blocks[OF _ _ d])
  have "s' = fold (run_command cfg) (cs0 @ [Upstream bs bm old new ou nu t] @ cs) s0" by (simp add: later s)
  then show "rows_hold set_flags_ok map_flags_ok s'" using flags_run[OF fresh_rows[OF fresh]] by blast
  show "rows_hold (set_pinned bs bm new) (map_pinned bm new) s'"
    unfolding later run_command.simps by (rule pinned_run[OF unreviewed invalidated_both[OF keys change known]])
qed

section \<open>Examples\<close>

definition demo_difficulty :: "string \<Rightarrow> difficulty" where
  "demo_difficulty ck = \<lparr>df_id = 11, df_set = 5, df_checksum = ck, df_status = GRAVEYARD, df_updated = 0,
     df_deleted = False\<rparr>"

definition demo_set :: "time \<Rightarrow> beatmapset_row" where
  "demo_set u = \<lparr>bs_id = 5, bs_status = GRAVEYARD, bs_updated = u\<rparr>"

definition demo_tables :: profiles where
  "demo_tables = \<lparr>plays = [], best_scores = [], total_bests = [], statistics_rows = [], monthly_playcounts = [],
     beatmap_playcounts = [], need_recalculate = [], playtime_events = [], negative_rules = [], map_sets = [], mapper_credits = []\<rparr>"

definition demo_ranking :: ranking_db where
  "demo_ranking = \<lparr>beatmapsets = [demo_set 0], difficulties = [demo_difficulty ''a''], set_policies = [], map_policies = [],
     ranking_events = [], audits = [], sync_records = [], score_tables = demo_tables\<rparr>"

abbreviation demo_apply :: ranking_command where
  "demo_apply \<equiv> Apply 1 100 5 RANKED ''fun map'' (Some 11) None None False False"

lemma demo_fresh: "set_policies demo_ranking = []" "map_policies demo_ranking = []"
  by (simp_all add: demo_ranking_def)

lemma demo_effective:
  "effective_beatmap_policy (run_command demo_score_config demo_apply demo_ranking) (demo_difficulty ''a'')
     = \<lparr>ep_status = RANKED, ep_leaderboard = True, ep_pp = True, ep_source = FROM_BEATMAP\<rparr>"
  by code_simp

theorem local_leaderboard_is_reviewed_witness:
  "is_effective_local_rank (effective_beatmap_policy (run_command demo_score_config demo_apply demo_ranking) (demo_difficulty ''a''))
   \<and> \<not> df_deleted (demo_difficulty ''a'')"
proof -
  have "is_effective_local_rank (effective_beatmap_policy (run_command demo_score_config demo_apply demo_ranking) (demo_difficulty ''a''))"
    unfolding demo_effective by (simp add: is_effective_local_rank_def)
  then show ?thesis
    using local_leaderboard_is_reviewed[OF demo_fresh, of _ demo_score_config "[demo_apply]" _ "demo_difficulty ''a''", OF refl refl] by simp
qed

theorem apply_refused_iff_witness:
  "apply_local_rank demo_score_config 1 100 5 RANKED ''w'' (Some 12) None None False False demo_ranking = (Inl KeyErr, demo_ranking)"
proof -
  have "apply_refusal demo_ranking 5 RANKED (Some 12) None None False = Some KeyErr" by code_simp
  moreover have "backed (score_tables demo_ranking)" "distinct (map mp_map (map_policies demo_ranking))"
    by (simp_all add: demo_ranking_def demo_tables_def backed_def)
  moreover have "configured_scoring_mode demo_score_config = STANDARDISED" by (simp add: demo_score_config_def)
  ultimately show ?thesis
    using apply_refused_iff[where cfg = demo_score_config and s = demo_ranking and bs = 5 and st = RANKED and bm = "Some 12" and l = None
      and p = None and force = False and replace = False and actor = 1 and t = 100 and why = "''w''"]
    by (auto split: prod.splits sum.splits)
qed

theorem rank_takes_effect_witness:
  "\<exists>pol s'. apply_local_rank demo_score_config 1 100 5 LOVED ''w'' None None None False True demo_ranking = (Inr pol, s')
    \<and> decided_difficulties s' 5 None = [demo_difficulty ''a'']
    \<and> ep_status (effective_beatmap_policy s' (demo_difficulty ''a'')) = LOVED"
proof -
  have "apply_refusal demo_ranking 5 LOVED None None None False = None" by code_simp
  moreover have "backed (score_tables demo_ranking)" "distinct (map mp_map (map_policies demo_ranking))"
    "distinct (map df_id (difficulties demo_ranking))"
    "\<forall>d \<in> set (difficulties demo_ranking). \<forall>q \<in> set (map_policies demo_ranking). mp_map q = df_id d \<longrightarrow> mp_set q = df_set d"
    by (simp_all add: demo_ranking_def demo_tables_def backed_def)
  moreover have "configured_scoring_mode demo_score_config = STANDARDISED" by (simp add: demo_score_config_def)
  ultimately obtain pol s' where s': "apply_local_rank demo_score_config 1 100 5 LOVED ''w'' None None None False True demo_ranking = (Inr pol, s')"
    "\<forall>d \<in> set (decided_difficulties s' 5 None). ep_status (effective_beatmap_policy s' d) = LOVED"
    using rank_takes_effect[where cfg = demo_score_config and s = demo_ranking and bs = 5 and st = LOVED and bm = None and l = None
      and p = None and force = False and replace = True and actor = 1 and t = 100 and why = "''w''"] by auto
  have "decided_difficulties (snd (apply_local_rank demo_score_config 1 100 5 LOVED ''w'' None None None False True demo_ranking)) 5 None
      = [demo_difficulty ''a'']" by code_simp
  with s' show ?thesis by simp
qed

text \<open>Upstream uploads revision \<open>b\<close> of a map ranked at \<open>a\<close> and later reverts to \<open>a\<close>.\<close>

theorem changed_revision_needs_review_witness:
  "\<exists>s. s = fold (run_command demo_score_config) [Cached [demo_set 0] [demo_difficulty ''b''] [] demo_tables, Cached [demo_set 0] [demo_difficulty ''a''] [] demo_tables]
       (run_command demo_score_config (Upstream 5 11 (Some ''a'') (Some ''b'') None None 200)
          (fold (run_command demo_score_config) [demo_apply] demo_ranking))
     \<and> difficulties s = [demo_difficulty ''a''] \<and> \<not> is_effective_local_rank (effective_beatmap_policy s (demo_difficulty ''a''))"
proof -
  let ?s = "fold (run_command demo_score_config) [demo_apply] demo_ranking"
  have keys: "distinct (map mp_map (map_policies ?s))" "distinct (map sp_set (set_policies ?s))"
    and known: "get_row bs_id 5 (beatmapsets ?s) \<noteq> None" "get_row df_id 11 (difficulties ?s) = Some (demo_difficulty ''a'')"
    by code_simp+
  show ?thesis
    by (intro exI conjI, rule refl, code_simp,
        rule changed_revision_needs_review[OF demo_fresh refl keys _ known _ refl])
      (simp_all add: demo_difficulty_def)
qed

end
