(* ===== verification/UpdateRules.thy ===== *)
theory UpdateRules
  imports Updates PolicyRules
begin

text \<open>
  What the synchronisation promises.  The cached difficulties of an accepted snapshot become exactly the snapshot;
  a changed revision needs a new review of its local rank; a set with a local rank stays under watch; and the
  bounds of the next synchronisation, with the draw for which a set is forgotten.
\<close>

section \<open>Frames\<close>

text \<open>
  An invariant that the single writes respect: a saved policy, the event and audit tables, the score tables.  Then
  every ranking command respects it.
\<close>

locale policy_frame =
  fixes I :: "ranking_db \<Rightarrow> bool"
  assumes set_write: "I s \<Longrightarrow> I (s\<lparr>set_policies := put_row sp_set p (set_policies s)\<rparr>)"
    and map_write: "I s \<Longrightarrow> I (s\<lparr>map_policies := put_row mp_map q (map_policies s)\<rparr>)"
    and event_write: "I s \<Longrightarrow> I (s\<lparr>ranking_events := es\<rparr>)" and audit_write: "I s \<Longrightarrow> I (s\<lparr>audits := au\<rparr>)"
    and score_write: "I s \<Longrightarrow> I (s\<lparr>score_tables := tbl\<rparr>)"
begin

lemma scores: "keeps I (on_scores m)"
  by (rule keepsI) (simp add: on_scores_def score_write split: prod.split)

lemma audit: "keeps I (add_audit a sc bs bm who why old new t)"
  unfolding add_audit_def by (intro keeps_modify audit_write)

lemma saves: "keeps I (save_set_policy p)" "keeps I (save_map_policy q)"
  unfolding save_set_policy_def save_map_policy_def by (rule keeps_modify, erule set_write) (rule keeps_modify, erule map_write)

lemma upsert: "keeps I (upsert_revision_event n sc bs bm old new t)"
  unfolding upsert_revision_event_def Let_def by (intro keeps_rules keeps_modify event_write)

lemma invalidation: "keeps I (invalidate_for_upstream_change bs bm old new ou nu t)"
proof -
  have "keeps I (invalidate_map_policy bs bm old new t)" "keeps I (invalidate_set_policy bs bm old new t)"
    unfolding invalidate_map_policy_def invalidate_set_policy_def Let_def
    by (intro keeps_bnd keeps_gets keeps_option keeps_if keeps_seq keeps_ret saves upsert audit)+
  then show ?thesis unfolding invalidate_for_upstream_change_def by (intro keeps_rules)
qed

end

text \<open>
  An invariant that, besides, no write of the cache, of the trackers and of the score tables can break survives a
  whole synchronisation.
\<close>

locale sync_frame =
  fixes I :: "ranking_db \<Rightarrow> bool"
  assumes changed_revision: "keeps I (invalidate_for_upstream_change bs bm old new ou nu t)"
    and table_write: "I s \<Longrightarrow> I (s\<lparr>score_tables := tbl\<rparr>)"
    and sets_write: "I s \<Longrightarrow> I (s\<lparr>beatmapsets := sets\<rparr>)" and rows_write: "I s \<Longrightarrow> I (s\<lparr>difficulties := ds\<rparr>)"
    and sync_write: "I s \<Longrightarrow> I (s\<lparr>sync_records := rs\<rparr>)"
begin

lemma tables: "keeps I (on_scores m)"
  by (rule keepsI) (simp add: on_scores_def table_write split: prod.split)

lemma trackers: "keeps I (save_sync r)" "keeps I (drop_sync bs)"
  unfolding save_sync_def drop_sync_def by (intro keeps_modify sync_write, assumption)+

lemma merges: "keeps I (merge_beatmap m)" "keeps I (merge_beatmapset u)"
  unfolding merge_beatmap_def merge_beatmapset_def by (intro keeps_modify sets_write rows_write table_write, assumption)+

lemma aftermath: "keeps I (retire_revision_derivatives cfg bm previous)"
  "keeps I (reconcile_effective_transition cfg bm previous current)" "keeps I (reconcile_attribution ids)"
  unfolding retire_revision_derivatives_def reconcile_effective_transition_def reconcile_attribution_def
  by (intro keeps_rules tables)+

lemmas writes = tables trackers merges aftermath changed_revision

lemma reads: "keeps I (snapshot_map by_id bs bm msg)" "keeps I (cached_map bs bm)"
  unfolding snapshot_map_def cached_map_def by (intro keeps_rules)+

lemma row: "keeps I (modify (\<lambda>s. s\<lparr>difficulties := put_row df_id d (difficulties s)\<rparr>))"
  by (intro keeps_modify rows_write)

lemma applied: "keeps I (apply_added cfg t by_id bs bm)" "keeps I (apply_deleted cfg t bs bm)"
  "keeps I (apply_updated cfg t by_id bs kind bm)"
  unfolding apply_added_def apply_deleted_def apply_updated_def Let_def by (intro keeps_rules reads row writes)+

lemma kind: "keeps I (case ch_type c of MAP_ADDED \<Rightarrow> apply_added cfg t by_id bs (ch_map c)
     | MAP_DELETED \<Rightarrow> apply_deleted cfg t bs (ch_map c) | k \<Rightarrow> apply_updated cfg t by_id bs k (ch_map c))"
  by (cases "ch_type c") (simp_all add: applied)

lemma change: "keeps I (process_change cfg t by_id bs c)"
  unfolding process_change_def by (intro keeps_rules kind writes)

lemma changes: "keeps I (process_changed_beatmaps cfg t cs ms bs)"
  unfolding process_changed_beatmaps_def by (intro keeps_rules change)

lemma set_row: "keeps I (process_changed_beatmapset u ms)"
  unfolding process_changed_beatmapset_def Let_def by (intro keeps_rules writes)

lemma graveyard: "keeps I (modify (\<lambda>s. case get_row bs_id bs (beatmapsets s) of
     None \<Rightarrow> s | Some b \<Rightarrow> s\<lparr>beatmapsets := put_row bs_id (b\<lparr>bs_status := GRAVEYARD\<rparr>) (beatmapsets s)\<rparr>))"
  by (rule keeps_modify) (simp add: sets_write split: option.split)

lemma not_found: "keeps I (set_not_found cfg t r)"
  unfolding set_not_found_def Let_def by (intro keeps_rules changes graveyard writes)

lemma rescheduled: "keeps I (reschedule randint t u r)"
  unfolding reschedule_def Let_def by (intro keeps_rules writes)

lemma synchronise: "keeps I (sync_locked cfg randint t answer r)"
  unfolding sync_locked_def Let_def
  by (cases answer) (simp_all add: not_found writes, intro keeps_rules set_row changes rescheduled writes)

end

text \<open>Both together survive every ranking command.\<close>

locale command_frame = policy_frame I + sync_frame I for I :: "ranking_db \<Rightarrow> bool"
begin

lemma events: "keeps I (modify (\<lambda>s. s\<lparr>ranking_events := f s\<rparr>))" "keeps I (resolve_events actor bs bm t)"
  unfolding resolve_events_def by (intro keeps_modify event_write, assumption)+

lemma schedule: "keeps I (schedule_local_rank_sync bs t)"
  unfolding schedule_local_rank_sync_def Let_def by (rule keeps_modify) (simp add: sync_write split: option.split)

lemma finished: "keeps I (finish_manual_policy_change cfg ids before)"
  unfolding finish_manual_policy_change_def by (intro keeps_rules scores)

lemma any_save: "keeps I (save_policy p)"
  by (cases p) (simp_all add: save_policy_def saves)

lemmas command_writes = saves any_save audit upsert events schedule finished scores

lemma rank: "keeps I (apply_local_rank cfg actor t bs st why bm l p force replace)"
proof -
  have "keeps I (clear_overrides actor bs why t)" for why unfolding clear_overrides_def Let_def by (intro keeps_rules command_writes)
  note overrides = this
  have "keeps I (apply_to_set actor bs st leaderboard pp force replace why t)" for leaderboard pp why
    unfolding apply_to_set_def Let_def by (intro keeps_rules command_writes overrides)
  note to_set = this
  have "keeps I (apply_to_map actor bs bm st leaderboard pp force why t)" for bm leaderboard pp why
    unfolding apply_to_map_def Let_def by (intro keeps_rules command_writes)
  note to_map = this
  show ?thesis unfolding apply_local_rank_def Let_def by (intro keeps_rules command_writes to_set to_map)
qed

lemma unranked: "keeps I (apply_local_unrank cfg actor t bs why bm replace)"
proof -
  have cleared: "keeps I (clear_policy actor bs why t p)" for why p
    unfolding clear_policy_def by (cases p) (auto intro!: keeps_rules command_writes)
  have to_map: "keeps I (unrank_map cfg actor t bs w b)" for w b
    unfolding unrank_map_def Let_def by (intro keeps_rules command_writes rank)
  have to_set: "keeps I (unrank_set cfg actor t bs w replace)" for w
    unfolding unrank_set_def Let_def by (intro keeps_rules command_writes rank cleared)
  show ?thesis unfolding apply_local_unrank_def Let_def by (intro keeps_rules to_map to_set)
qed

lemma command: "I s \<Longrightarrow> I (run_command cfg c s)"
proof (cases c)
  case (Clear actor t bs why bm)
  have "keeps I (clear_local_rank cfg actor t bs why bm)"
    unfolding clear_local_rank_def Let_def by (intro keeps_rules command_writes)
  then show "I s \<Longrightarrow> ?thesis" by (simp add: Clear keepsD)
next
  case (Resolve eid actor why t)
  have "keeps I (resolve_ranking_event eid actor why t)"
    unfolding resolve_ranking_event_def Let_def by (intro keeps_rules command_writes)
  then show "I s \<Longrightarrow> ?thesis" by (simp add: Resolve keepsD)
next
  case (Cached sets ds syncs tables)
  have eq: "run_command cfg c s = s\<lparr>beatmapsets := sets\<rparr>\<lparr>difficulties := ds\<rparr>\<lparr>sync_records := syncs\<rparr>\<lparr>score_tables := tables\<rparr>"
    by (simp add: Cached)
  show "I s \<Longrightarrow> ?thesis" unfolding eq by (intro sets_write rows_write sync_write table_write)
qed (simp_all add: keepsD[OF rank] keepsD[OF unranked] keepsD[OF changed_revision])

end

definition keyed :: "ranking_db \<Rightarrow> bool" where
  "keyed s \<longleftrightarrow> distinct (map mp_map (map_policies s)) \<and> distinct (map sp_set (set_policies s))"

interpretation keyed_policies: policy_frame keyed
  by unfold_locales (simp_all add: keyed_def distinct_put_row)

interpretation keyed_sync: command_frame keyed
  by unfold_locales (rule keyed_policies.invalidation, simp_all add: keyed_def)

interpretation flags_sync: sync_frame "rows_hold set_flags_ok map_flags_ok"
  by unfold_locales (rule flags.invalidate, simp_all add: rows_hold_def)

interpretation pinned_sync: sync_frame "rows_hold (set_pinned bs bm c) (map_pinned bm c)" for bs bm c
  by unfold_locales (rule pinned.invalidate, simp_all add: rows_hold_def)

definition cache_part :: "ranking_db \<Rightarrow> beatmapset_row list \<times> difficulty list \<times> sync_record list" where
  "cache_part s = (beatmapsets s, difficulties s, sync_records s)"

interpretation cache: policy_frame "\<lambda>s. cache_part s = c" for c
  by unfold_locales (simp_all add: cache_part_def)

section \<open>The rows of one change\<close>

text \<open>The cached difficulties after one processed change.\<close>

definition change_rows :: "(int \<times> upstream_map) list \<Rightarrow> changed_beatmap \<Rightarrow> difficulty list \<Rightarrow> difficulty list" where
  "change_rows by_id c ds =
     (if ch_type c = MAP_DELETED
      then (case get_row df_id (ch_map c) ds of
              None \<Rightarrow> ds
            | Some d \<Rightarrow> if df_deleted d then ds else put_row df_id (d\<lparr>df_deleted := True\<rparr>) ds)
      else (case map_of by_id (ch_map c) of None \<Rightarrow> ds | Some m \<Rightarrow> put_row df_id (difficulty_of m) ds))"

lemma keeps_cacheD:
  assumes "\<And>c. keeps (\<lambda>s. cache_part s = c) m" and "m s = (r, s')"
  shows "cache_part s' = cache_part s"
  using keeps_run[where I = "\<lambda>x. cache_part x = cache_part s", OF assms(1) refl assms(2)] .

lemma cached_map_run:
  "cached_map bs bm s = (Inr x, s') \<Longrightarrow> s' = s \<and> x = get_row df_id bm (difficulties s) \<and> (\<forall>d. x = Some d \<longrightarrow> df_set d = bs)"
  by (auto simp: cached_map_def run_simps split: option.splits if_splits)

lemma snapshot_map_run:
  "snapshot_map by_id bs bm msg s = (Inr m, s') \<Longrightarrow> s' = s \<and> map_of by_id bm = Some m \<and> um_set m = bs"
  by (auto simp: snapshot_map_def run_simps split: option.splits if_splits)

lemma merge_cache: "cache_part (snd (merge_beatmap m s)) = (beatmapsets s, put_row df_id (difficulty_of m) (difficulties s), sync_records s)"
  "fst (merge_beatmap m s) = Inr ()"
  by (simp_all add: merge_beatmap_def run_simps cache_part_def)

lemma merge_then:
  assumes "seq (merge_beatmap m) k s = (Inr (), s')" and "\<And>c. keeps (\<lambda>s. cache_part s = c) k"
  shows "cache_part s' = (beatmapsets s, put_row df_id (difficulty_of m) (difficulties s), sync_records s)"
proof -
  have "seq (merge_beatmap m) k s = k (snd (merge_beatmap m s))"
    using merge_cache(2)[of m s] by (cases "merge_beatmap m s") (simp add: seq_def bnd_def)
  with assms(1) have "k (snd (merge_beatmap m s)) = (Inr (), s')" by simp
  from keeps_cacheD[OF assms(2) this] show ?thesis by (simp add: merge_cache)
qed

lemma cache_aftermath: "keeps (\<lambda>s. cache_part s = c) (retire_revision_derivatives cfg bm previous)"
  "keeps (\<lambda>s. cache_part s = c) (reconcile_effective_transition cfg bm previous current)"
  "keeps (\<lambda>s. cache_part s = c) (reconcile_attribution ids)"
  unfolding retire_revision_derivatives_def reconcile_effective_transition_def reconcile_attribution_def
  by (intro keeps_rules cache.scores)+

lemmas cache_frames = cache.invalidation cache_aftermath keeps_rules

lemma invalidation_cache:
  "invalidate_for_upstream_change bs bm old new ou nu t s = (r, s') \<Longrightarrow> cache_part s' = cache_part s"
  by (rule keeps_cacheD[where m = "invalidate_for_upstream_change bs bm old new ou nu t"]) (rule cache.invalidation, assumption)

lemma retire_cache:
  "bnd (retire_revision_derivatives cfg bm previous) (\<lambda>_. ret u) s = (r, s') \<Longrightarrow> cache_part s' = cache_part s"
  by (rule keeps_cacheD[where m = "bnd (retire_revision_derivatives cfg bm previous) (\<lambda>_. ret u)"]) (intro cache_frames, assumption)

lemma added_rows:
  assumes "apply_added cfg t by_id bs bm s = (Inr (), s')"
  shows "cache_part s' = (beatmapsets s, change_rows by_id \<lparr>ch_map = bm, ch_type = MAP_ADDED\<rparr> (difficulties s), sync_records s)"
proof -
  obtain m where m: "map_of by_id bm = Some m" and rest: "\<exists>b eb. seq (merge_beatmap m)
      (do_if b (bnd (invalidate_for_upstream_change bs bm (map_option df_checksum (get_row df_id bm (difficulties s))) (Some (um_checksum m))
               (map_option df_updated (get_row df_id bm (difficulties s))) (Some (um_updated m)) t) (\<lambda>_.
        case eb of None \<Rightarrow> ret () | Some previous \<Rightarrow> bnd (retire_revision_derivatives cfg bm previous) (\<lambda>_. ret ())))) s = (Inr (), s')"
    using assms unfolding apply_added_def Let_def
    by (auto simp only: bnd_ok_iff gets_def prod.inject sum.inject dest!: snapshot_map_run cached_map_run)
  then obtain b eb where run: "seq (merge_beatmap m)
      (do_if b (bnd (invalidate_for_upstream_change bs bm (map_option df_checksum (get_row df_id bm (difficulties s))) (Some (um_checksum m))
               (map_option df_updated (get_row df_id bm (difficulties s))) (Some (um_updated m)) t) (\<lambda>_.
        case eb of None \<Rightarrow> ret () | Some previous \<Rightarrow> bnd (retire_revision_derivatives cfg bm previous) (\<lambda>_. ret ())))) s = (Inr (), s')"
    by blast
  have "keeps (\<lambda>s. cache_part s = c) (do_if b (bnd (invalidate_for_upstream_change bs bm x y z w t) (\<lambda>_.
        case eb of None \<Rightarrow> ret () | Some previous \<Rightarrow> bnd (retire_revision_derivatives cfg bm previous) (\<lambda>_. ret ()))))" for c x y z w
    by (intro cache_frames)
  from merge_then[OF run this] show ?thesis by (simp add: change_rows_def m)
qed

lemma deleted_rows:
  assumes "apply_deleted cfg t bs bm s = (Inr (), s')"
  shows "cache_part s' = (beatmapsets s, change_rows by_id \<lparr>ch_map = bm, ch_type = MAP_DELETED\<rparr> (difficulties s), sync_records s)"
proof -
  obtain x where x: "cached_map bs bm s = (Inr x, s)" "x = get_row df_id bm (difficulties s)"
    using assms by (auto simp: apply_deleted_def bnd_ok_iff dest: cached_map_run)
  show ?thesis
  proof (cases "\<exists>d. x = Some d \<and> \<not> df_deleted d")
    case False
    then have "s' = s" using assms by (auto simp: apply_deleted_def step_runs x(1) run_simps split: option.splits)
    then show ?thesis using False x(2) by (auto simp: change_rows_def cache_part_def split: option.split)
  next
    case True
    then obtain d where d: "x = Some d" "\<not> df_deleted d" by blast
    obtain es s1 where inv: "invalidate_for_upstream_change bs bm (Some (df_checksum d)) None (Some (df_updated d)) None t s = (Inr es, s1)"
      and rest: "bnd (retire_revision_derivatives cfg bm (effective_beatmap_policy s d)) (\<lambda>_. ret ())
          (s1\<lparr>difficulties := put_row df_id (d\<lparr>df_deleted := True\<rparr>) (difficulties s1)\<rparr>) = (Inr (), s')"
      using assms d by (auto simp: apply_deleted_def step_runs x(1) run_simps bnd_ok_iff)
    have one: "cache_part s1 = cache_part s" by (rule invalidation_cache[OF inv])
    have "cache_part s' = cache_part (s1\<lparr>difficulties := put_row df_id (d\<lparr>df_deleted := True\<rparr>) (difficulties s1)\<rparr>)"
      by (rule retire_cache[OF rest])
    then show ?thesis using one d x(2) by (simp add: change_rows_def cache_part_def)
  qed
qed

lemma updated_rows:
  assumes "apply_updated cfg t by_id bs kind bm s = (Inr (), s')" and "kind \<noteq> MAP_DELETED"
  shows "cache_part s' = (beatmapsets s, change_rows by_id \<lparr>ch_map = bm, ch_type = kind\<rparr> (difficulties s), sync_records s)"
proof -
  obtain m s0 where m0: "snapshot_map by_id bs bm '' changed but is absent from the upstream snapshot'' s = (Inr m, s0)"
    and "\<exists>k. bnd (cached_map bs bm) k s0 = (Inr (), s')"
    using assms(1) unfolding apply_updated_def bnd_ok_iff[of "snapshot_map _ _ _ _"] by blast
  moreover have m: "snapshot_map by_id bs bm '' changed but is absent from the upstream snapshot'' s = (Inr m, s)" "map_of by_id bm = Some m"
    and "s0 = s" using m0 snapshot_map_run[OF m0] by simp_all
  ultimately obtain x s2 where x0: "cached_map bs bm s = (Inr x, s2)" unfolding bnd_ok_iff by blast
  then have x: "cached_map bs bm s = (Inr x, s)" using cached_map_run[OF x0] by simp
  have "cache_part s' = (beatmapsets s, put_row df_id (difficulty_of m) (difficulties s), sync_records s)"
  proof (cases x)
    case None
    then have "seq (merge_beatmap m) (bnd (invalidate_for_upstream_change bs bm None (Some (um_checksum m)) None (Some (um_updated m)) t) (\<lambda>_. ret ())) s
        = (Inr (), s')"
      using assms(1) by (simp add: apply_updated_def step_runs m(1) x)
    then show ?thesis by (rule merge_then) (intro cache_frames)
  next
    case (Some d)
    let ?rev = "kind = MAP_UPDATED \<and> (df_deleted d \<or> df_checksum d \<noteq> um_checksum m)"
    let ?k = "if ?rev then bnd (retire_revision_derivatives cfg bm (effective_beatmap_policy s d)) (\<lambda>_. ret ())
          else if kind = STATUS_CHANGED
          then bnd (gets (\<lambda>s. effective_beatmap_policy s (difficulty_of m))) (\<lambda>current.
               bnd (reconcile_effective_transition cfg bm (effective_beatmap_policy s d) current) (\<lambda>_. ret ()))
          else ret ()"
    obtain s1 where s1: "do_if ?rev (bnd (invalidate_for_upstream_change bs bm (Some (df_checksum d)) (Some (um_checksum m))
                       (Some (df_updated d)) (Some (um_updated m)) t) (\<lambda>_. ret ())) s = (Inr (), s1)"
      and rest: "seq (merge_beatmap m) ?k s1 = (Inr (), s')"
      using assms(1) Some unfolding apply_updated_def Let_def
      by (auto simp: step_runs m(1) x run_simps(1) seq_def[of "do_if _ _"] bnd_ok_iff[of "do_if _ _"] simp del: if_split)
    have one: "cache_part s1 = cache_part s"
      using s1 by (cases ?rev) (auto simp: run_simps bnd_ok_iff dest: invalidation_cache)
    have "keeps (\<lambda>s. cache_part s = c) ?k" for c by (intro cache_frames)
    from merge_then[OF rest this] one show ?thesis by (simp add: cache_part_def)
  qed
  then show ?thesis using assms(2) by (simp add: change_rows_def m(2))
qed

lemma attribution_cache: "reconcile_attribution ids s = (r, s') \<Longrightarrow> cache_part s' = cache_part s"
  by (rule keeps_cacheD[where m = "reconcile_attribution ids"]) (rule cache_aftermath)

lemma lock_run: "lock_beatmapset bs s = (Inr u, s') \<Longrightarrow> s' = s"
  by (auto simp: lock_beatmapset_def run_simps split: option.splits)

lemma transaction_ok: "transaction m s = (Inr a, s') \<Longrightarrow> m s = (Inr a, s')"
  by (auto simp: transaction_def split: prod.splits sum.splits)

lemma process_change_rows:
  assumes "process_change cfg t by_id bs c s = (Inr (), s')"
  shows "cache_part s' = (beatmapsets s, change_rows by_id c (difficulties s), sync_records s)"
proof -
  let ?absent = "ch_type c = MAP_DELETED \<and> get_row df_id (ch_map c) (difficulties s) = None"
  let ?m = "case ch_type c of MAP_ADDED \<Rightarrow> apply_added cfg t by_id bs (ch_map c)
             | MAP_DELETED \<Rightarrow> apply_deleted cfg t bs (ch_map c) | kind \<Rightarrow> apply_updated cfg t by_id bs kind (ch_map c)"
  have c: "c = \<lparr>ch_map = ch_map c, ch_type = ch_type c\<rparr>" by simp
  have "(if ?absent then ret () else seq ?m (reconcile_attribution [ch_map c])) s = (Inr (), s')"
    using transaction_ok[OF assms[unfolded process_change_def]]
    by (auto simp: seq_def[of "lock_beatmapset _"] bnd_ok_iff[of "lock_beatmapset _"] run_simps(1) dest!: lock_run)
  then consider (absent) "?absent" "s' = s" | (run) s1 where "?m s = (Inr (), s1)" "reconcile_attribution [ch_map c] s1 = (Inr (), s')"
    by (cases ?absent) (simp_all add: run_simps(12) seq_def bnd_ok_iff, blast)
  then show ?thesis
  proof cases
    case absent
    then show ?thesis by (simp add: change_rows_def cache_part_def)
  next
    case (run s1)
    have "cache_part s1 = (beatmapsets s, change_rows by_id \<lparr>ch_map = ch_map c, ch_type = ch_type c\<rparr> (difficulties s), sync_records s)"
      using run(1) by (cases "ch_type c") (auto intro: added_rows deleted_rows updated_rows)
    then show ?thesis using attribution_cache[OF run(2)] c by simp
  qed
qed

lemma process_changes_rows:
  "process_changed_beatmaps cfg t cs ms bs s = (Inr (), s') \<Longrightarrow>
   cache_part s' = (beatmapsets s, fold (change_rows (maps_by_id ms)) cs (difficulties s), sync_records s)"
  unfolding process_changed_beatmaps_def
proof (induction cs arbitrary: s)
  case Nil
  then show ?case by (simp add: run_simps cache_part_def)
next
  case (Cons c cs)
  from Cons.prems obtain s1 where s1: "process_change cfg t (maps_by_id ms) bs c s = (Inr (), s1)"
    and rest: "for_each cs (process_change cfg t (maps_by_id ms) bs) s1 = (Inr (), s')"
    by (auto simp: seq_def bnd_ok_iff)
  show ?case using Cons.IH[OF rest] process_change_rows[OF s1] by (simp add: cache_part_def)
qed

lemma merge_all:
  "for_each ms merge_beatmap s = (Inr (), s') \<Longrightarrow>
   cache_part s' = (beatmapsets s, fold (\<lambda>m. put_row df_id (difficulty_of m)) ms (difficulties s), sync_records s)"
proof (induction ms arbitrary: s)
  case Nil
  then show ?case by (simp add: run_simps cache_part_def)
next
  case (Cons m ms)
  let ?s1 = "snd (merge_beatmap m s)"
  have "for_each ms merge_beatmap ?s1 = (Inr (), s')"
    using Cons.prems merge_cache(2)[of m s] by (cases "merge_beatmap m s") (simp add: seq_def bnd_def)
  from Cons.IH[OF this] show ?case using merge_cache(1)[of m s] by (simp add: cache_part_def)
qed

lemma merge_all_total: "\<exists>s'. for_each ms merge_beatmap s = (Inr (), s')"
  by (induction ms arbitrary: s) (simp_all add: run_simps merge_beatmap_def)

lemma process_set_rows:
  assumes "process_changed_beatmapset u ms s = (Inr ok, s')"
  shows "if ok then cache_part s' = (put_row bs_id \<lparr>bs_id = up_id u, bs_status = up_ranked u, bs_updated = up_last_updated u\<rparr> (beatmapsets s),
           fold (\<lambda>m. put_row df_id (difficulty_of m)) ms (difficulties s), sync_records s)
         \<and> list_all (\<lambda>(b, m). unchanged_in_cache (up_id u) m (difficulties s)) (maps_by_id ms)
         \<and> length (maps_by_id ms) = length ms \<and> list_all (\<lambda>m. um_set m = up_id u) ms
         else s' = s"
proof -
  let ?set = "s\<lparr>beatmapsets := put_row bs_id \<lparr>bs_id = up_id u, bs_status = up_ranked u, bs_updated = up_last_updated u\<rparr> (beatmapsets s)\<rparr>"
  let ?stale = "case get_row bs_id (up_id u) (beatmapsets s) of None \<Rightarrow> False | Some b \<Rightarrow> bs_updated b > up_last_updated u"
  let ?intact = "list_all (\<lambda>(b, m). unchanged_in_cache (up_id u) m (difficulties s)) (maps_by_id ms)"
  have run: "(if ?stale then ret False
     else if length (maps_by_id ms) \<noteq> length ms
       then throw (ValueErr (''Beatmapset '' @ int_str (up_id u) @ '' snapshot contains duplicate difficulty IDs''))
       else if list_ex (\<lambda>m. um_set m \<noteq> up_id u) ms
       then throw (ValueErr (''Beatmapset '' @ int_str (up_id u) @ '' snapshot contains a difficulty from another set''))
       else if \<not> ?intact then ret False
       else seq (merge_beatmapset u) (seq (for_each ms merge_beatmap) (seq (reconcile_attribution (map fst (maps_by_id ms))) (ret True)))) s
     = (Inr ok, s')"
    using transaction_ok[OF assms[unfolded process_changed_beatmapset_def]] unfolding run_simps(1) Let_def
    by (simp add: run_simps(1) split: if_splits)
  show ?thesis
  proof (cases "?stale \<or> \<not> ?intact \<or> length (maps_by_id ms) \<noteq> length ms \<or> list_ex (\<lambda>m. um_set m \<noteq> up_id u) ms")
    case True
    then show ?thesis using run by (auto simp: run_simps split: if_splits)
  next
    case False
    then have body: "seq (merge_beatmapset u) (seq (for_each ms merge_beatmap) (seq (reconcile_attribution (map fst (maps_by_id ms))) (ret True))) s
        = (Inr ok, s')" using run by (simp split: if_splits)
    obtain s1 where s1: "for_each ms merge_beatmap ?set = (Inr (), s1)" using merge_all_total by blast
    obtain s2 where s2: "reconcile_attribution (map fst (maps_by_id ms)) s1 = (Inr (), s2)" "s' = s2" "ok"
      using body by (auto simp: merge_beatmapset_def run_simps step_runs s1) (auto simp: seq_def bnd_ok_iff run_simps)
    have "\<not> list_ex (\<lambda>m. um_set m \<noteq> up_id u) ms" "?intact" "length (maps_by_id ms) = length ms" using False by auto
    then show ?thesis using merge_all[OF s1] attribution_cache[OF s2(1)] s2(2,3)
      by (simp add: cache_part_def list_ex_iff list_all_iff)
  qed
qed

section \<open>Convergence\<close>

definition snapshot_ok :: "upstream_set \<Rightarrow> bool" where
  "snapshot_ok u \<longleftrightarrow> distinct (map um_id (up_maps u)) \<and> list_all (\<lambda>m. um_set m = up_id u \<and> \<not> um_deleted m) (up_maps u)"

lemma find_append: "find P (xs @ ys) = (case find P xs of None \<Rightarrow> find P ys | Some x \<Rightarrow> Some x)"
  by (induction xs) auto

text \<open>A dictionary filled from a list keeps the last value of every key.\<close>

definition dict_by :: "('a \<Rightarrow> 'k) \<Rightarrow> 'a list \<Rightarrow> ('k \<times> 'a) list" where
  "dict_by key xs = fold (\<lambda>x. put_key (key x) x) xs []"

lemma dict_by_lookup: "map_of (dict_by key xs) k = find (\<lambda>x. key x = k) (rev xs)"
proof -
  have "map_of (fold (\<lambda>x. put_key (key x) x) xs acc) k
      = (case find (\<lambda>x. key x = k) (rev xs) of None \<Rightarrow> map_of acc k | Some x \<Rightarrow> Some x)" for acc
    by (induction xs arbitrary: acc) (auto simp: find_append split: option.splits)
  from this[of "[]"] show ?thesis by (simp add: dict_by_def split: option.split)
qed

lemma dict_by_keys: "distinct (map fst (dict_by key xs))"
proof -
  have keys: "fst ` set (put_key k v l) = insert k (fst ` set l)" for k v and l :: "('a \<times> 'b) list"
    using keys_put_key[of k v l] by (simp only: set_map)
  have put: "distinct (map fst l) \<Longrightarrow> distinct (map fst (put_key k v l))" for k v and l :: "('a \<times> 'b) list"
    by (induction k v l rule: put_key.induct) (simp_all add: keys)
  have "distinct (map fst acc) \<Longrightarrow> distinct (map fst (fold (\<lambda>x. put_key (key x) x) xs acc))" for acc
    by (induction xs arbitrary: acc) (simp_all add: put)
  from this[of "[]"] show ?thesis by (simp add: dict_by_def)
qed

lemma in_dict_by: "(k, x) \<in> set (dict_by key xs) \<longleftrightarrow> find (\<lambda>x. key x = k) (rev xs) = Some x"
  using map_of_eq_Some_iff[OF dict_by_keys, of key xs k x] by (simp add: dict_by_lookup)

lemma dict_by_in: "(k, x) \<in> set (dict_by key xs) \<Longrightarrow> key x = k \<and> x \<in> set xs"
  unfolding in_dict_by by (auto dest: find_Some_in)

lemma dict_by_snd: "distinct (map key (map snd (dict_by key xs)))"
proof -
  have eq: "map key (map snd (dict_by key xs)) = map fst (dict_by key xs)"
    unfolding map_map by (rule map_cong) (auto dest: dict_by_in)
  show ?thesis unfolding eq by (rule dict_by_keys)
qed

lemma dict_by_values: "snd ` set (dict_by key xs) \<subseteq> set xs" "key ` snd ` set (dict_by key xs) = key ` set xs"
proof -
  show sub: "snd ` set (dict_by key xs) \<subseteq> set xs" by (auto dest: dict_by_in)
  have "key x \<in> key ` snd ` set (dict_by key xs)" if x: "x \<in> set xs" for x
  proof -
    obtain y where y: "find (\<lambda>z. key z = key x) (rev xs) = Some y"
      using x by (cases "find (\<lambda>z. key z = key x) (rev xs)") (auto simp: find_None_iff)
    then have "(key x, y) \<in> set (dict_by key xs)" by (simp add: in_dict_by)
    moreover from this have "key x = key y" using dict_by_in by metis
    ultimately show ?thesis by (metis image_eqI snd_conv)
  qed
  then show "key ` snd ` set (dict_by key xs) = key ` set xs" using sub by blast
qed

lemma maps_by_id_dict: "maps_by_id ms = dict_by um_id ms"
  by (simp add: maps_by_id_def dict_by_def)

lemma maps_by_id_of:
  assumes "distinct (map um_id ms)"
  shows "map_of (maps_by_id ms) b = Some m \<longleftrightarrow> m \<in> set ms \<and> um_id m = b"
proof -
  have "distinct (map um_id (rev ms))" using assms by (simp add: rev_map[symmetric])
  from get_row_mem[OF this, of b m] show ?thesis by (simp add: maps_by_id_dict dict_by_lookup get_row_def)
qed

lemma maps_by_id_None: "map_of (maps_by_id ms) b = None \<longleftrightarrow> b \<notin> um_id ` set ms"
  by (auto simp: maps_by_id_dict dict_by_lookup find_None_iff)

lemma maps_by_id_length: "distinct (map um_id ms) \<Longrightarrow> length (maps_by_id ms) = length ms"
proof -
  assume d: "distinct (map um_id ms)"
  have "distinct (map snd (maps_by_id ms))" unfolding maps_by_id_dict using dict_by_snd[of um_id ms] distinct_map by blast
  moreover have "snd ` set (maps_by_id ms) = set ms"
  proof (intro equalityI subsetI)
    show "m \<in> set ms" if "m \<in> snd ` set (maps_by_id ms)" for m using that unfolding maps_by_id_dict by (auto dest: dict_by_in)
    show "m \<in> snd ` set (maps_by_id ms)" if "m \<in> set ms" for m
      using maps_by_id_of[OF d, of "um_id m" m] that by (force dest: map_of_SomeD)
  qed
  moreover have "distinct ms" using d distinct_map by blast
  ultimately show ?thesis using distinct_card[of "map snd (maps_by_id ms)"] distinct_card[of ms] by simp
qed

lemma combined_dict:
  "combined_changes s r u = map snd (sort_key fst (dict_by ch_map (changed_beatmaps r u @ database_consistency_changes s u)))"
  by (simp add: combined_changes_def dict_by_def)

lemma combined_distinct: "distinct (map ch_map (combined_changes s r u))"
proof -
  have "distinct (map h (sort_key g d)) = distinct (map h d)" for h :: "int \<times> changed_beatmap \<Rightarrow> int" and g :: "int \<times> changed_beatmap \<Rightarrow> int" and d
    by (simp add: distinct_map)
  then show ?thesis unfolding combined_dict map_map using dict_by_snd[unfolded map_map] by blast
qed

lemma combined_set: "set (combined_changes s r u) \<subseteq> set (changed_beatmaps r u @ database_consistency_changes s u)"
  and combined_ids: "ch_map ` set (combined_changes s r u) = ch_map ` set (changed_beatmaps r u @ database_consistency_changes s u)"
proof -
  have eq: "set (combined_changes s r u) = snd ` set (dict_by ch_map (changed_beatmaps r u @ database_consistency_changes s u))"
    unfolding combined_dict by simp
  show "set (combined_changes s r u) \<subseteq> set (changed_beatmaps r u @ database_consistency_changes s u)"
    "ch_map ` set (combined_changes s r u) = ch_map ` set (changed_beatmaps r u @ database_consistency_changes s u)"
    unfolding eq by (rule dict_by_values)+
qed

text \<open>A change deletes a difficulty exactly when it is not in the snapshot.\<close>

lemma find_none: "k \<notin> f ` set xs \<Longrightarrow> find (\<lambda>x. f x = k) xs = None"
  by (induction xs) auto

lemma change_types:
  assumes "c \<in> set (combined_changes s r u)"
  shows "ch_type c = MAP_DELETED \<longleftrightarrow> ch_map c \<notin> um_id ` set (up_maps u)"
proof -
  have up: "m \<in> set (up_maps u) \<and> um_id m = b" if "(b, m) \<in> set (maps_by_id (up_maps u))" for b m
    using that dict_by_in[of b m um_id] by (simp add: maps_by_id_dict)
  have "c \<in> set (changed_beatmaps r u) \<or> c \<in> set (database_consistency_changes s u)" using assms combined_set by fastforce
  then consider (manifest) m where "m \<in> set (up_maps u)" "c \<in> set (manifest_change r m)"
    | (database) m ds where "m \<in> set (up_maps u)" "c \<in> set (database_change ds m)"
    | (gone) "ch_type c = MAP_DELETED" "\<forall>m \<in> set (up_maps u). ch_map c \<noteq> um_id m"
    by (auto simp: changed_beatmaps_def database_consistency_changes_def Let_def list_ex_iff maps_by_id_None image_iff eq_commute[of _ "sm_map _"] dest: up)
  then show ?thesis
    by cases (auto simp: manifest_change_def database_change_def image_iff split: option.splits if_splits)
qed

lemma difficulty_of_key [simp]: "df_id (difficulty_of m) = um_id m" "df_set (difficulty_of m) = um_set m"
  "df_deleted (difficulty_of m) = um_deleted m" "df_checksum (difficulty_of m) = um_checksum m" "df_status (difficulty_of m) = um_ranked m"
  by (simp_all add: difficulty_of_def)

definition changed_row :: "(int \<times> upstream_map) list \<Rightarrow> changed_beatmap \<Rightarrow> difficulty option \<Rightarrow> difficulty option" where
  "changed_row by_id c x =
     (if ch_type c = MAP_DELETED then map_option (\<lambda>d. d\<lparr>df_deleted := True\<rparr>) x
      else case map_of by_id (ch_map c) of None \<Rightarrow> x | Some m \<Rightarrow> Some (difficulty_of m))"

lemma change_rows_lookup:
  "get_row df_id b (change_rows (maps_by_id ms) c ds)
     = (if b = ch_map c then changed_row (maps_by_id ms) c (get_row df_id b ds) else get_row df_id b ds)"
proof (cases "ch_type c = MAP_DELETED")
  case True
  show ?thesis
  proof (cases "get_row df_id (ch_map c) ds")
    case None
    then show ?thesis using True by (simp add: change_rows_def changed_row_def)
  next
    case (Some d)
    have "d\<lparr>df_deleted := True\<rparr> = d" if "df_deleted d" using that by simp
    then show ?thesis using True Some rows.get_key[OF Some] by (simp add: change_rows_def changed_row_def rows.get_put)
  qed
next
  case False
  have "um_id m = ch_map c" if "map_of (maps_by_id ms) (ch_map c) = Some m" for m
    using dict_by_in[OF map_of_SomeD[OF that[unfolded maps_by_id_dict]]] by simp
  then show ?thesis using False by (auto simp: change_rows_def changed_row_def rows.get_put split: option.split)
qed

lemma changes_lookup:
  assumes "distinct (map ch_map cs)"
  shows "get_row df_id b (fold (change_rows (maps_by_id ms)) cs ds)
     = (case find (\<lambda>c. ch_map c = b) cs of None \<Rightarrow> get_row df_id b ds | Some c \<Rightarrow> changed_row (maps_by_id ms) c (get_row df_id b ds))"
  using assms
proof (induction cs arbitrary: ds)
  case (Cons c cs)
  show ?case
  proof (cases "ch_map c = b")
    case True
    then have "find (\<lambda>c. ch_map c = b) cs = None" using Cons.prems by (intro find_none) simp
    then show ?thesis using Cons.IH[of "change_rows (maps_by_id ms) c ds"] Cons.prems True by (simp add: change_rows_lookup)
  next
    case False
    then show ?thesis using Cons.IH[of "change_rows (maps_by_id ms) c ds"] Cons.prems
      by (simp add: change_rows_lookup eq_commute[of b] split: option.split)
  qed
qed simp

lemma merged_lookup:
  assumes "distinct (map um_id ms)"
  shows "get_row df_id b (fold (\<lambda>m. put_row df_id (difficulty_of m)) ms ds)
     = (case get_row um_id b ms of None \<Rightarrow> get_row df_id b ds | Some m \<Rightarrow> Some (difficulty_of m))"
  using assms
proof (induction ms arbitrary: ds)
  case (Cons m ms)
  have rest: "get_row um_id b ms = None" if "um_id m = b"
    unfolding get_row_def using Cons.prems that by (intro find_none) simp
  have "get_row um_id b (m # ms) = (if um_id m = b then Some m else get_row um_id b ms)" by (simp add: get_row_def)
  then show ?case using Cons.IH[of "put_row df_id (difficulty_of m) ds"] Cons.prems rest
    by (auto simp: rows.get_put split: option.split)
qed (simp add: get_row_def)

lemma cache_keys:
  "distinct (map df_id ds) \<Longrightarrow> distinct (map df_id (fold (\<lambda>m. put_row df_id (difficulty_of m)) ms ds))"
  "distinct (map df_id ds) \<Longrightarrow> distinct (map df_id (fold (change_rows by_id) cs ds))"
proof -
  show "distinct (map df_id ds) \<Longrightarrow> distinct (map df_id (fold (\<lambda>m. put_row df_id (difficulty_of m)) ms ds))"
    by (induction ms arbitrary: ds) (simp_all add: distinct_put_row)
  have "distinct (map df_id ds) \<Longrightarrow> distinct (map df_id (change_rows by_id c ds))" for c ds
    by (auto simp: change_rows_def distinct_put_row split: option.split)
  then show "distinct (map df_id ds) \<Longrightarrow> distinct (map df_id (fold (change_rows by_id) cs ds))"
    by (induction cs arbitrary: ds) simp_all
qed

text \<open>The pure core: metadata merges and changes together produce the snapshot.\<close>

definition synced_rows :: "ranking_db \<Rightarrow> sync_record \<Rightarrow> upstream_set \<Rightarrow> difficulty list" where
  "synced_rows s r u =
     (let cs = combined_changes s r u in
      fold (change_rows (maps_by_id (up_maps u))) cs
        (fold (\<lambda>m. put_row df_id (difficulty_of m)) (metadata_only_beatmaps (up_maps u) cs) (difficulties s)))"

lemma metadata_only: "set (metadata_only_beatmaps ms cs) = {m \<in> set ms. um_id m \<notin> ch_map ` set cs}"
  "distinct (map um_id ms) \<Longrightarrow> distinct (map um_id (metadata_only_beatmaps ms cs))"
  by (simp_all add: metadata_only_beatmaps_def distinct_map_filter)

lemma synced_lookup:
  assumes ok: "snapshot_ok u" and m: "m \<in> set (up_maps u)"
  shows "get_row df_id (um_id m) (synced_rows s r u) = Some (difficulty_of m)"
proof -
  let ?cs = "combined_changes s r u" and ?b = "um_id m"
  have d: "distinct (map um_id (up_maps u))" using ok by (simp add: snapshot_ok_def)
  have look: "map_of (maps_by_id (up_maps u)) ?b = Some m" using maps_by_id_of[OF d] m by simp
  note rows = changes_lookup[OF combined_distinct, of ?b]
  show ?thesis
  proof (cases "find (\<lambda>c. ch_map c = ?b) ?cs")
    case None
    then have "m \<in> set (metadata_only_beatmaps (up_maps u) ?cs)"
      using m unfolding metadata_only(1) by (auto simp: find_None_iff)
    then have "get_row um_id ?b (metadata_only_beatmaps (up_maps u) ?cs) = Some m"
      using get_row_mem[OF metadata_only(2)[OF d]] by simp
    then show ?thesis
      by (simp add: synced_rows_def Let_def rows None merged_lookup[OF metadata_only(2)[OF d]])
  next
    case (Some c)
    then have c: "c \<in> set ?cs" "ch_map c = ?b" by (auto dest: find_Some_in)
    then have "ch_type c \<noteq> MAP_DELETED" using change_types[OF c(1)] m by auto
    then show ?thesis by (simp add: synced_rows_def Let_def rows Some changed_row_def c(2) look)
  qed
qed

lemma gone_change:
  assumes "d \<in> set (difficulties s)" "df_set d = up_id u" "df_id d \<notin> um_id ` set (up_maps u)" "\<not> df_deleted d"
  shows "\<lparr>ch_map = df_id d, ch_type = MAP_DELETED\<rparr> \<in> set (database_consistency_changes s u)"
proof -
  have "map_of (maps_by_id (up_maps u)) (df_id d) = None" using assms(3) by (simp add: maps_by_id_None)
  then show ?thesis using assms by (simp add: database_consistency_changes_def Let_def)
qed

lemma synced_other:
  assumes ok: "snapshot_ok u" and keys: "distinct (map df_id (difficulties s))"
    and d: "d \<in> set (synced_rows s r u)" "df_id d \<notin> um_id ` set (up_maps u)" "df_set d = up_id u"
  shows "df_deleted d"
proof -
  let ?cs = "combined_changes s r u" and ?b = "df_id d"
  have dm: "distinct (map um_id (up_maps u))" using ok by (simp add: snapshot_ok_def)
  have "distinct (map df_id (synced_rows s r u))" by (simp add: synced_rows_def Let_def cache_keys keys)
  then have row: "get_row df_id ?b (synced_rows s r u) = Some d" using d(1) get_row_unique by metis
  have "get_row um_id ?b (metadata_only_beatmaps (up_maps u) ?cs) = None"
    unfolding get_row_def using d(2) metadata_only(1)[of "up_maps u" ?cs] by (intro find_none) auto
  then have base: "get_row df_id ?b (synced_rows s r u) = (case find (\<lambda>c. ch_map c = ?b) ?cs of
      None \<Rightarrow> get_row df_id ?b (difficulties s) | Some c \<Rightarrow> changed_row (maps_by_id (up_maps u)) c (get_row df_id ?b (difficulties s)))"
    by (simp add: synced_rows_def Let_def changes_lookup[OF combined_distinct] merged_lookup[OF metadata_only(2)[OF dm]] split: option.split)
  show ?thesis
  proof (cases "find (\<lambda>c. ch_map c = ?b) ?cs")
    case None
    then have "get_row df_id ?b (difficulties s) = Some d" using base row by simp
    then have "d \<in> set (difficulties s)" by (simp add: get_row_mem[OF keys])
    moreover have "?b \<notin> ch_map ` set (database_consistency_changes s u)"
    proof -
      have "?b \<notin> ch_map ` set ?cs" using None by (auto simp: find_None_iff)
      then show ?thesis unfolding combined_ids by auto
    qed
    ultimately show ?thesis using gone_change[of d s u] d(2,3) by force
  next
    case (Some c)
    then have c: "c \<in> set ?cs" "ch_map c = ?b" by (auto dest: find_Some_in)
    then have "ch_type c = MAP_DELETED" using change_types[OF c(1)] d(2) by simp
    then show ?thesis using base row
      by (cases "get_row df_id ?b (difficulties s)") (auto simp: Some changed_row_def)
  qed
qed

lemma synced_live:
  assumes ok: "snapshot_ok u" and keys: "distinct (map df_id (difficulties s))"
  shows "{d \<in> set (synced_rows s r u). df_set d = up_id u \<and> \<not> df_deleted d} = difficulty_of ` set (up_maps u)"
proof (intro equalityI subsetI)
  fix d assume "d \<in> {d \<in> set (synced_rows s r u). df_set d = up_id u \<and> \<not> df_deleted d}"
  then have d: "d \<in> set (synced_rows s r u)" "df_set d = up_id u" "\<not> df_deleted d" by auto
  then obtain m where m: "m \<in> set (up_maps u)" "um_id m = df_id d"
    using synced_other[OF ok keys d(1) _ d(2)] by force
  have "distinct (map df_id (synced_rows s r u))" by (simp add: synced_rows_def Let_def cache_keys keys)
  then have "get_row df_id (df_id d) (synced_rows s r u) = Some d" using d(1) get_row_unique by metis
  then have "d = difficulty_of m" using synced_lookup[OF ok m(1), of s r] m(2) by simp
  then show "d \<in> difficulty_of ` set (up_maps u)" using m(1) by blast
next
  fix d assume "d \<in> difficulty_of ` set (up_maps u)"
  then obtain m where m: "m \<in> set (up_maps u)" "d = difficulty_of m" by blast
  then have "d \<in> set (synced_rows s r u)" using synced_lookup[OF ok m(1), of s r] by (auto simp: get_row_def dest: find_Some_in)
  then show "d \<in> {d \<in> set (synced_rows s r u). df_set d = up_id u \<and> \<not> df_deleted d}"
    using m ok by (auto simp: snapshot_ok_def list_all_iff)
qed

text \<open>The trackers after a synchronisation.\<close>

definition next_trackers :: "(int \<Rightarrow> int \<Rightarrow> int) \<Rightarrow> time \<Rightarrow> upstream_set \<Rightarrow> sync_record \<Rightarrow> ranking_db \<Rightarrow> sync_record list" where
  "next_trackers randint t u r s =
     (let delta = calculate_next_sync_time randint t (sy_no_change r) u;
          delta = (if beatmapset_has_active_local_rank s (sy_set r)
            then Some (min (case truthy_delta delta of None \<Rightarrow> LOCAL_RANK_MAX_SYNC_INTERVAL | Some x \<Rightarrow> x) LOCAL_RANK_MAX_SYNC_INTERVAL)
            else delta)
      in case truthy_delta delta of
           None \<Rightarrow> del_row sy_set (sy_set r) (sync_records s)
         | Some x \<Rightarrow> put_row sy_set (r\<lparr>sy_next := t + x\<rparr>) (sync_records s))"

lemma reschedule_run: "reschedule randint t u r s = (Inr (), s\<lparr>sync_records := next_trackers randint t u r s\<rparr>)"
  by (simp add: reschedule_def next_trackers_def save_sync_def drop_sync_def run_simps Let_def split: option.split)

definition advanced :: "sync_record \<Rightarrow> upstream_set \<Rightarrow> changed_beatmap list \<Rightarrow> sync_record" where
  "advanced r u changes =
     (if beatmapset_changed r u \<or> changes \<noteq> []
      then r\<lparr>sy_maps := map saved_of_upstream (up_maps u), sy_status := up_ranked u, sy_no_change := 0\<rparr>
      else r\<lparr>sy_no_change := sy_no_change r + 1\<rparr>)"

lemma advanced_set [simp]: "sy_set (advanced r u cs) = sy_set r" "sy_next (advanced r u cs) = sy_next r"
  by (simp_all add: advanced_def)

lemma sync_cases:
  assumes run: "sync_locked cfg randint t (Snapshot u) r s = (Inr (), s')" and bs: "up_id u = sy_set r"
  obtains (refused) "process_changed_beatmapset u (metadata_only_beatmaps (up_maps u) (combined_changes s r u)) s = (Inr False, s)" "s' = s"
  | (accepted) s1 s2 where
      "process_changed_beatmapset u (metadata_only_beatmaps (up_maps u) (combined_changes s r u)) s = (Inr True, s1)"
      "process_changed_beatmaps cfg t (combined_changes s r u) (up_maps u) (sy_set r) s1 = (Inr (), s2)"
      "s' = s2\<lparr>sync_records := next_trackers randint t u (advanced r u (combined_changes s r u)) s2\<rparr>"
proof -
  let ?cs = "combined_changes s r u" and ?bs = "sy_set r"
  let ?set = "process_changed_beatmapset u (metadata_only_beatmaps (up_maps u) ?cs)"
  obtain ok s1 where first: "?set s = (Inr ok, s1)"
    using run unfolding sync_locked_def fetched.case run_simps(1) Let_def bnd_ok_iff by blast
  show thesis
  proof (cases ok)
    case False
    have "s1 = s" using process_set_rows[OF first] False by simp
    then show thesis using run first False unfolding sync_locked_def fetched.case run_simps(1) Let_def
      by (intro refused) (simp_all add: step_runs run_simps)
  next
    case True
    have cache1: "cache_part s1 = (put_row bs_id \<lparr>bs_id = up_id u, bs_status = up_ranked u, bs_updated = up_last_updated u\<rparr> (beatmapsets s),
           fold (\<lambda>m. put_row df_id (difficulty_of m)) (metadata_only_beatmaps (up_maps u) ?cs) (difficulties s), sync_records s)"
      using process_set_rows[OF first] True by simp
    have changes: "do_if (?cs \<noteq> []) (process_changed_beatmaps cfg t ?cs (up_maps u) ?bs) = process_changed_beatmaps cfg t ?cs (up_maps u) ?bs"
      by (simp add: do_if_def process_changed_beatmaps_def)
    have "seq (process_changed_beatmaps cfg t ?cs (up_maps u) ?bs)
            (bnd (gets (\<lambda>s. get_row bs_id ?bs (beatmapsets s))) (\<lambda>locked.
            case locked of None \<Rightarrow> drop_sync ?bs | Some _ \<Rightarrow> reschedule randint t u (advanced r u ?cs))) s1 = (Inr (), s')"
      using run True unfolding sync_locked_def fetched.case run_simps(1) Let_def changes advanced_def
      by (simp add: step_runs first)
    then obtain x s2 where second0: "process_changed_beatmaps cfg t ?cs (up_maps u) ?bs s1 = (Inr x, s2)"
      and third: "(case get_row bs_id ?bs (beatmapsets s2) of None \<Rightarrow> drop_sync ?bs | Some _ \<Rightarrow> reschedule randint t u (advanced r u ?cs)) s2 = (Inr (), s')"
      unfolding seq_def bnd_ok_iff[of "process_changed_beatmaps _ _ _ _ _"] run_simps(1) by blast
    have second: "process_changed_beatmaps cfg t ?cs (up_maps u) ?bs s1 = (Inr (), s2)" using second0 by simp
    have "beatmapsets s2 = beatmapsets s1" using process_changes_rows[OF second] by (simp add: cache_part_def)
    then have "get_row bs_id ?bs (beatmapsets s2) \<noteq> None" using cache1 bs by (simp add: cache_part_def)
    then have "s' = s2\<lparr>sync_records := next_trackers randint t u (advanced r u ?cs) s2\<rparr>"
      using third by (auto simp: reschedule_run)
    then show thesis using accepted first second True by simp
  qed
qed

lemma database_named:
  "(b, m) \<in> set (maps_by_id (up_maps u)) \<Longrightarrow>
   set (database_change (filter (\<lambda>d. df_set d = up_id u) (difficulties s)) m) \<subseteq> set (database_consistency_changes s u)"
  by (auto simp: database_consistency_changes_def Let_def)

text \<open>What neither list of changes names is in the cache as it is in the snapshot, so only a stale snapshot is refused.\<close>

lemma unnamed_intact:
  assumes keys: "distinct (map df_id (difficulties s))" and ok: "snapshot_ok u"
    and m: "m \<in> set (metadata_only_beatmaps (up_maps u) (combined_changes s r u))"
  shows "unchanged_in_cache (up_id u) m (difficulties s)"
proof -
  let ?cached = "filter (\<lambda>d. df_set d = up_id u) (difficulties s)"
  have m': "m \<in> set (up_maps u)" "um_id m \<notin> ch_map ` set (database_consistency_changes s u)"
    using m unfolding metadata_only(1) combined_ids by auto
  have d: "distinct (map um_id (up_maps u))" using ok by (simp add: snapshot_ok_def)
  have "(um_id m, m) \<in> set (maps_by_id (up_maps u))"
    using maps_by_id_of[OF d, of "um_id m" m] m'(1) by (auto dest: map_of_SomeD)
  then have sub: "set (database_change ?cached m) \<subseteq> set (database_consistency_changes s u)"
    by (rule database_named)
  have named: "c \<in> set (database_change ?cached m) \<Longrightarrow> ch_map c = um_id m" for c
    by (auto simp: database_change_def split: option.splits if_splits)
  have none: "database_change ?cached m = []"
  proof (rule ccontr)
    assume "database_change ?cached m \<noteq> []"
    then obtain c where c: "c \<in> set (database_change ?cached m)" by (cases "database_change ?cached m") auto
    with sub have "ch_map c \<in> ch_map ` set (database_consistency_changes s u)" by blast
    then show False using m'(2) named[OF c] by simp
  qed
  then obtain d where row: "get_row df_id (um_id m) ?cached = Some d" "\<not> df_deleted d" "df_checksum d = um_checksum m" "df_status d = um_ranked m"
    by (auto simp: database_change_def split: option.splits if_splits)
  have "distinct (map df_id ?cached)" using keys by (simp add: distinct_map_filter)
  with row(1) have "d \<in> set (difficulties s)" "df_set d = up_id u" "df_id d = um_id m" by (simp_all add: get_row_mem)
  then have "get_row df_id (um_id m) (difficulties s) = Some d" using get_row_mem[OF keys] by simp
  with row \<open>df_set d = up_id u\<close> show ?thesis by (simp add: unchanged_in_cache_def)
qed

text \<open>Only a stale snapshot is refused: nothing else keeps the metadata of a well-formed snapshot out.\<close>

lemma stale_refused:
  assumes keys: "distinct (map df_id (difficulties s))" and ok: "snapshot_ok u"
    and first: "process_changed_beatmapset u (metadata_only_beatmaps (up_maps u) (combined_changes s r u)) s = (Inr False, s)"
  shows "\<exists>b. get_row bs_id (up_id u) (beatmapsets s) = Some b \<and> up_last_updated u < bs_updated b"
proof (rule ccontr)
  let ?ms = "metadata_only_beatmaps (up_maps u) (combined_changes s r u)"
  let ?set = "s\<lparr>beatmapsets := put_row bs_id \<lparr>bs_id = up_id u, bs_status = up_ranked u, bs_updated = up_last_updated u\<rparr> (beatmapsets s)\<rparr>"
  assume "\<not> (\<exists>b. get_row bs_id (up_id u) (beatmapsets s) = Some b \<and> up_last_updated u < bs_updated b)"
  then have fresh: "(case get_row bs_id (up_id u) (beatmapsets s) of None \<Rightarrow> False | Some b \<Rightarrow> bs_updated b > up_last_updated u) = False"
    by (auto split: option.split)
  have d: "distinct (map um_id ?ms)" using ok by (intro metadata_only(2)) (simp add: snapshot_ok_def)
  have "um_set m = up_id u" if "m \<in> set ?ms" for m using that ok unfolding metadata_only(1) by (auto simp: snapshot_ok_def list_all_iff)
  then have sets: "list_ex (\<lambda>m. um_set m \<noteq> up_id u) ?ms = False" by (auto simp: list_ex_iff)
  have "unchanged_in_cache (up_id u) m (difficulties s)" if "(b, m) \<in> set (maps_by_id ?ms)" for b m
    using dict_by_in[OF that[unfolded maps_by_id_dict]] by (intro unnamed_intact[OF keys ok, where r = r]) simp
  then have intact: "list_all (\<lambda>(b, m). unchanged_in_cache (up_id u) m (difficulties s)) (maps_by_id ?ms) = True"
    by (auto simp: list_all_iff)
  obtain s1 where s1: "for_each ?ms merge_beatmap ?set = (Inr (), s1)" using merge_all_total by blast
  obtain x s2 where s2: "reconcile_attribution (map fst (maps_by_id ?ms)) s1 = (x, s2)" by force
  have "fst (process_changed_beatmapset u ?ms s) \<noteq> Inr False"
    unfolding process_changed_beatmapset_def transaction_def run_simps(1) fresh if_False Let_def maps_by_id_length[OF d] sets intact simp_thms
    by (cases x) (simp_all add: merge_beatmapset_def run_simps step_runs s1 s2)
  then show False using first by simp
qed

text \<open>C14: One synchronisation brings the cache to the snapshot.  For a well-formed snapshot of the tracked set (distinct
  difficulty ids, all in this set) a synchronisation that returns either finds the cached set newer than the
  snapshot and changes nothing, or leaves as the live difficulties of the set exactly those of the snapshot, with
  their checksum, status and date: whatever the manifest of the last synchronisation said, difficulties that
  upstream dropped are deleted, new and revived ones added, changed ones replaced.
\<close>

theorem sync_converges:
  assumes "sync_locked cfg randint t (Snapshot u) r s = (Inr (), s')"
    and "snapshot_ok u" "up_id u = sy_set r" "distinct (map df_id (difficulties s))"
  shows "if (case get_row bs_id (up_id u) (beatmapsets s) of None \<Rightarrow> False | Some b \<Rightarrow> up_last_updated u < bs_updated b)
         then s' = s else set (live_difficulties s' (up_id u)) = difficulty_of ` set (up_maps u)"
  using assms(1,3)
proof (cases rule: sync_cases)
  case refused
  then show ?thesis using stale_refused[OF assms(4,2) refused(1)] by auto
next
  case (accepted s1 s2)
  have "\<not> (case get_row bs_id (up_id u) (beatmapsets s) of None \<Rightarrow> False | Some b \<Rightarrow> up_last_updated u < bs_updated b)"
    using transaction_ok[OF accepted(1)[unfolded process_changed_beatmapset_def]] by (auto simp: run_simps)
  moreover have "difficulties s2 = synced_rows s r u"
    using process_changes_rows[OF accepted(2)] process_set_rows[OF accepted(1)] by (simp add: cache_part_def synced_rows_def Let_def)
  then have "set (live_difficulties s' (up_id u)) = {d \<in> set (synced_rows s r u). df_set d = up_id u \<and> \<not> df_deleted d}"
    by (auto simp: live_difficulties_def accepted(3))
  ultimately show ?thesis using synced_live[OF assms(2,4)] by simp
qed

section \<open>A synchronised change needs a review\<close>

text \<open>The states a server goes through: ranking decisions and synchronisations, in any order.\<close>

datatype server_step = Decide ranking_command | Synchronise "int \<Rightarrow> int \<Rightarrow> int" time fetched sync_record

fun run_step :: "score_config \<Rightarrow> server_step \<Rightarrow> ranking_db \<Rightarrow> ranking_db" where
  "run_step cfg (Decide c) s = run_command cfg c s"
| "run_step cfg (Synchronise randint t answer r) s = snd (sync_locked cfg randint t answer r s)"

fun step_reviews :: "int \<Rightarrow> int \<Rightarrow> server_step \<Rightarrow> bool" where
  "step_reviews bs bm (Decide c) = reviews bs bm c"
| "step_reviews bs bm (Synchronise _ _ _ _) = False"

lemma steps_keyed: "keyed s \<Longrightarrow> keyed (fold (run_step cfg) steps s)"
proof (induction steps arbitrary: s)
  case (Cons x steps)
  have "keyed (run_step cfg x s)"
    using Cons.prems by (cases x) (simp_all add: keyed_sync.command keepsD[OF keyed_sync.synchronise])
  then show ?case using Cons.IH by simp
qed simp

lemma steps_flags: "rows_hold set_flags_ok map_flags_ok s \<Longrightarrow> rows_hold set_flags_ok map_flags_ok (fold (run_step cfg) steps s)"
proof (induction steps arbitrary: s)
  case (Cons x steps)
  have "rows_hold set_flags_ok map_flags_ok (run_step cfg x s)"
    using Cons.prems by (cases x) (simp_all add: flags.command_holds flags_permitted keepsD[OF flags_sync.synchronise])
  then show ?case using Cons.IH by simp
qed simp

lemma steps_pinned:
  "list_all (\<lambda>x. \<not> step_reviews bs bm x) steps \<Longrightarrow> rows_hold (set_pinned bs bm c) (map_pinned bm c) s \<Longrightarrow>
   rows_hold (set_pinned bs bm c) (map_pinned bm c) (fold (run_step cfg) steps s)"
proof (induction steps arbitrary: s)
  case (Cons x steps)
  have "rows_hold (set_pinned bs bm c) (map_pinned bm c) (run_step cfg x s)"
    using Cons.prems by (cases x) (simp_all add: pinned.command_holds pinned_permitted keepsD[OF pinned_sync.synchronise])
  then show ?case using Cons.IH Cons.prems(1) by simp
qed simp

text \<open>The change that carries a new revision pins it, and nothing that follows in the synchronisation unpins it.\<close>

definition revises :: "(int \<times> upstream_map) list \<Rightarrow> changed_beatmap \<Rightarrow> string option \<Rightarrow> bool" where
  "revises by_id c new \<longleftrightarrow> ch_type c = MAP_DELETED \<and> new = None
     \<or> ch_type c = MAP_UPDATED \<and> new = map_option um_checksum (map_of by_id (ch_map c)) \<and> new \<noteq> None"

lemma pins_after:
  "rows_hold (set_pinned bs bm c) (map_pinned bm c) s \<Longrightarrow> keeps (rows_hold (set_pinned bs bm c) (map_pinned bm c)) m \<Longrightarrow>
   m s = (r, s') \<Longrightarrow> rows_hold (set_pinned bs bm c) (map_pinned bm c) s'"
  by (rule keeps_run)

lemma deleted_pins:
  assumes run: "apply_deleted cfg t bs bm s = (Inr (), s')" and keyed: "keyed s" "get_row bs_id bs (beatmapsets s) \<noteq> None"
    and row: "get_row df_id bm (difficulties s) = Some d" "\<not> df_deleted d"
  shows "rows_hold (set_pinned bs bm None) (map_pinned bm None) s'"
proof -
  obtain x0 s0 where x0: "cached_map bs bm s = (Inr x0, s0)"
    using run unfolding apply_deleted_def bnd_ok_iff[of "cached_map _ _"] by blast
  then have x: "cached_map bs bm s = (Inr (Some d), s)" "df_set d = bs" using cached_map_run[OF x0] row(1) by auto
  obtain es s1 where inv: "invalidate_for_upstream_change bs bm (Some (df_checksum d)) None (Some (df_updated d)) None t s = (Inr es, s1)"
    and rest: "seq (modify (\<lambda>s. s\<lparr>difficulties := put_row df_id (d\<lparr>df_deleted := True\<rparr>) (difficulties s)\<rparr>))
      (bnd (retire_revision_derivatives cfg bm (effective_beatmap_policy s d)) (\<lambda>_. ret ())) s1 = (Inr (), s')"
    using run row(2) by (auto simp: apply_deleted_def step_runs x(1) run_simps(1) bnd_ok_iff[of "invalidate_for_upstream_change _ _ _ _ _ _ _"])
  have pins: "rows_hold (set_pinned bs bm None) (map_pinned bm None) s1"
    using invalidated_both[where s = s and bm = bm and bs = bs and new = None and old = "Some (df_checksum d)" and ou = "Some (df_updated d)" and nu = None and t = t]
      keyed row(1) x(2) by (simp add: inv keyed_def)
  show ?thesis
    by (rule pins_after[OF pins, where m = "seq _ _", OF _ rest]) (intro keeps_rules pinned_sync.row pinned_sync.writes)
qed

lemma updated_pins:
  assumes run: "apply_updated cfg t by_id bs MAP_UPDATED bm s = (Inr (), s')" and keyed: "keyed s" "get_row bs_id bs (beatmapsets s) \<noteq> None"
    and row: "get_row df_id bm (difficulties s) = Some d" and m: "map_of by_id bm = Some m" "df_checksum d \<noteq> um_checksum m"
  shows "rows_hold (set_pinned bs bm (Some (um_checksum m))) (map_pinned bm (Some (um_checksum m))) s'"
proof -
  let ?msg = "'' changed but is absent from the upstream snapshot''" and ?new = "Some (um_checksum m)"
  obtain m0 s0 where m0: "snapshot_map by_id bs bm ?msg s = (Inr m0, s0)"
    using run unfolding apply_updated_def bnd_ok_iff[of "snapshot_map _ _ _ _"] by blast
  have m1: "snapshot_map by_id bs bm ?msg s = (Inr m, s)" using snapshot_map_run[OF m0] m0 m(1) by simp
  obtain x0 s3 where x0: "cached_map bs bm s = (Inr x0, s3)"
    using run unfolding apply_updated_def by (simp add: step_runs m1) (auto simp: bnd_ok_iff[of "cached_map _ _"])
  then have x: "cached_map bs bm s = (Inr (Some d), s)" "df_set d = bs" using cached_map_run[OF x0] row(1) by auto
  let ?k = "seq (merge_beatmap m) (bnd (retire_revision_derivatives cfg bm (effective_beatmap_policy s d)) (\<lambda>_. ret ()))"
  have "seq (bnd (invalidate_for_upstream_change bs bm (Some (df_checksum d)) ?new (Some (df_updated d)) (Some (um_updated m)) t) (\<lambda>_. ret ())) ?k s
      = (Inr (), s')"
    using run m(2) by (simp add: apply_updated_def step_runs m1 x(1) run_simps(1,10))
  then obtain es s1 where inv: "invalidate_for_upstream_change bs bm (Some (df_checksum d)) ?new (Some (df_updated d)) (Some (um_updated m)) t s = (Inr es, s1)"
    and rest: "?k s1 = (Inr (), s')"
    unfolding seq_def[of "bnd _ _"] by (auto simp: bnd_ok_iff[of "bnd _ _"] bnd_ok_iff[of "invalidate_for_upstream_change _ _ _ _ _ _ _"] run_simps(12))
  have pins: "rows_hold (set_pinned bs bm ?new) (map_pinned bm ?new) s1"
    using invalidated_both[where s = s and bm = bm and bs = bs and new = ?new and old = "Some (df_checksum d)" and ou = "Some (df_updated d)"
        and nu = "Some (um_updated m)" and t = t] keyed row(1) x(2) m(2) by (simp add: inv keyed_def)
  show ?thesis
    by (rule pins_after[OF pins, where m = "seq _ _", OF _ rest]) (intro keeps_rules pinned_sync.writes)
qed

lemma change_pins:
  assumes run: "process_change cfg t by_id bs c s = (Inr (), s')" and keyed: "keyed s" "get_row bs_id bs (beatmapsets s) \<noteq> None"
    and row: "get_row df_id (ch_map c) (difficulties s) = Some d" "\<not> df_deleted d"
    and new: "revises by_id c new" "new \<noteq> Some (df_checksum d)"
  shows "rows_hold (set_pinned bs (ch_map c) new) (map_pinned (ch_map c) new) s'"
proof -
  let ?m = "case ch_type c of MAP_ADDED \<Rightarrow> apply_added cfg t by_id bs (ch_map c)
             | MAP_DELETED \<Rightarrow> apply_deleted cfg t bs (ch_map c) | kind \<Rightarrow> apply_updated cfg t by_id bs kind (ch_map c)"
  have "seq ?m (reconcile_attribution [ch_map c]) s = (Inr (), s')"
    using transaction_ok[OF run[unfolded process_change_def]] row(1)
    by (auto simp: seq_def[of "lock_beatmapset _"] bnd_ok_iff[of "lock_beatmapset _"] run_simps(1) dest!: lock_run)
  then obtain s1 where kind: "?m s = (Inr (), s1)" and rest: "reconcile_attribution [ch_map c] s1 = (Inr (), s')"
    by (auto simp: seq_def[of ?m] bnd_ok_iff[of ?m])
  have "rows_hold (set_pinned bs (ch_map c) new) (map_pinned (ch_map c) new) s1"
    using new(1) unfolding revises_def
  proof (elim disjE conjE)
    assume "ch_type c = MAP_DELETED" "new = None"
    then show ?thesis using kind deleted_pins[OF _ keyed row, where s' = s1] by simp
  next
    assume up: "ch_type c = MAP_UPDATED" "new = map_option um_checksum (map_of by_id (ch_map c))" "new \<noteq> None"
    then obtain m where m: "map_of by_id (ch_map c) = Some m" "new = Some (um_checksum m)" by auto
    then show ?thesis using kind up(1) new(2) updated_pins[OF _ keyed row(1) m(1), where s' = s1] by simp
  qed
  then show ?thesis
    by (rule pins_after[where m = "reconcile_attribution _", OF _ _ rest]) (rule pinned_sync.writes)
qed

lemma changes_pin:
  "process_changed_beatmaps cfg t cs ms bs s = (Inr (), s') \<Longrightarrow> c \<in> set cs \<Longrightarrow> distinct (map ch_map cs) \<Longrightarrow> keyed s \<Longrightarrow>
   get_row bs_id bs (beatmapsets s) \<noteq> None \<Longrightarrow> get_row df_id (ch_map c) (difficulties s) = Some d \<Longrightarrow> \<not> df_deleted d \<Longrightarrow>
   revises (maps_by_id ms) c new \<Longrightarrow> new \<noteq> Some (df_checksum d) \<Longrightarrow>
   rows_hold (set_pinned bs (ch_map c) new) (map_pinned (ch_map c) new) s'"
proof (induction cs arbitrary: s)
  case (Cons x cs)
  from Cons.prems(1) obtain s1 where s1: "process_change cfg t (maps_by_id ms) bs x s = (Inr (), s1)"
    and rest: "process_changed_beatmaps cfg t cs ms bs s1 = (Inr (), s')"
    by (auto simp: process_changed_beatmaps_def seq_def bnd_ok_iff)
  show ?case
  proof (cases "x = c")
    case True
    have "rows_hold (set_pinned bs (ch_map c) new) (map_pinned (ch_map c) new) s1"
      using change_pins[OF s1 Cons.prems(4,5)] Cons.prems(6-9) True by blast
    then show ?thesis
      by (rule pins_after[where m = "process_changed_beatmaps _ _ _ _ _", OF _ pinned_sync.changes rest])
  next
    case False
    then have c1: "c \<in> set cs" using Cons.prems(2) by simp
    have "ch_map x \<notin> ch_map ` set cs" using Cons.prems(3) by simp
    then have c: "c \<in> set cs" "ch_map c \<noteq> ch_map x" using c1 by (metis imageI)+
    have cache: "cache_part s1 = (beatmapsets s, change_rows (maps_by_id ms) x (difficulties s), sync_records s)"
      by (rule process_change_rows[OF s1])
    then have "get_row df_id (ch_map c) (difficulties s1) = Some d" "get_row bs_id bs (beatmapsets s1) \<noteq> None"
      using Cons.prems(5,6) c(2) by (simp_all add: cache_part_def change_rows_lookup)
    moreover have "keyed s1" by (rule keeps_run[OF keyed_sync.change Cons.prems(4) s1])
    ultimately show ?thesis using Cons.IH[OF rest c(1)] Cons.prems(3,7-9) by simp
  qed
qed simp

text \<open>A live difficulty whose revision the snapshot changed is named by a change that carries the new revision.\<close>

lemma combined_database:
  assumes "c0 \<in> set (database_consistency_changes s u)"
  shows "\<exists>c \<in> set (combined_changes s r u). ch_map c = ch_map c0 \<and> c \<in> set (database_consistency_changes s u)"
proof -
  let ?db = "database_consistency_changes s u"
  obtain c where c: "find (\<lambda>x. ch_map x = ch_map c0) (rev ?db) = Some c"
    using assms by (cases "find (\<lambda>x. ch_map x = ch_map c0) (rev ?db)") (auto simp: find_None_iff)
  then have "(ch_map c0, c) \<in> set (dict_by ch_map (changed_beatmaps r u @ ?db))" by (simp add: in_dict_by find_append)
  then have "c \<in> set (combined_changes s r u)" unfolding combined_dict by force
  then show ?thesis using find_Some_in[OF c] by auto
qed

lemma changed_named:
  assumes keys: "distinct (map df_id (difficulties s))" and ok: "snapshot_ok u"
    and d: "d \<in> set (live_difficulties s (up_id u))" and new: "new = map_option um_checksum (get_row um_id (df_id d) (up_maps u))"
      "new \<noteq> Some (df_checksum d)"
  shows "\<exists>c \<in> set (combined_changes s r u). ch_map c = df_id d \<and> revises (maps_by_id (up_maps u)) c new"
proof -
  let ?db = "database_consistency_changes s u" and ?cached = "filter (\<lambda>d. df_set d = up_id u) (difficulties s)"
  have dm: "distinct (map um_id (up_maps u))" using ok by (simp add: snapshot_ok_def)
  have d': "d \<in> set (difficulties s)" "df_set d = up_id u" "\<not> df_deleted d" using d by (auto simp: live_difficulties_def)
  have cached: "get_row df_id (df_id d) ?cached = Some d"
    using keys d'(1,2) get_row_unique[of df_id ?cached d] by (simp add: distinct_map_filter)
  show ?thesis
  proof (cases new)
    case None
    then have gone: "df_id d \<notin> um_id ` set (up_maps u)" unfolding new(1) by (auto simp: get_row_None)
    obtain c where c: "c \<in> set (combined_changes s r u)" "ch_map c = df_id d"
      using combined_database[OF gone_change[of d s u], of r] d' gone by auto
    then show ?thesis using change_types[OF c(1)] gone None by (auto simp: revises_def)
  next
    case (Some ck)
    then obtain m where m: "get_row um_id (df_id d) (up_maps u) = Some m" "ck = um_checksum m" unfolding new(1) by auto
    then have m': "m \<in> set (up_maps u)" "um_id m = df_id d" by (simp_all add: get_row_mem[OF dm])
    have look: "map_of (maps_by_id (up_maps u)) (df_id d) = Some m" using m' maps_by_id_of[OF dm] by simp
    have change: "database_change ?cached m = [\<lparr>ch_map = df_id d, ch_type = MAP_UPDATED\<rparr>]"
      using new(2) Some m(2) d'(3) by (simp add: database_change_def m'(2) cached)
    have only: "c \<in> set ?db \<Longrightarrow> ch_map c = df_id d \<Longrightarrow> ch_type c = MAP_UPDATED" for c
    proof -
      assume c: "c \<in> set ?db" "ch_map c = df_id d"
      have "\<exists>b n. (b, n) \<in> set (maps_by_id (up_maps u)) \<and> c \<in> set (database_change ?cached n)"
        using c look by (auto simp: database_consistency_changes_def Let_def)
      then obtain b n where bn: "(b, n) \<in> set (maps_by_id (up_maps u))" "c \<in> set (database_change ?cached n)" by blast
      then have n: "n \<in> set (up_maps u)" "c \<in> set (database_change ?cached n)"
        using dict_by_in[of b n um_id "up_maps u"] by (simp_all add: maps_by_id_dict)
      then have "um_id n = df_id d" using c(2) by (auto simp: database_change_def split: option.splits if_splits)
      then have "n = m" using m' n(1) dm by (auto simp: distinct_map inj_on_def)
      then show ?thesis using n(2) change by simp
    qed
    have "(df_id d, m) \<in> set (maps_by_id (up_maps u))" using look by (rule map_of_SomeD)
    then have "\<lparr>ch_map = df_id d, ch_type = MAP_UPDATED\<rparr> \<in> set ?db"
      using database_named[of "df_id d" m u s] change by simp
    from combined_database[OF this, of r] obtain c where "c \<in> set (combined_changes s r u)" "ch_map c = df_id d" "c \<in> set ?db" by auto
    then show ?thesis using only look Some m(2) by (auto simp: revises_def)
  qed
qed

text \<open>C13: A revision that upstream changes or withdraws never keeps or regains a local leaderboard without a new decision,
  end to end.  Take any history of ranking decisions and synchronisations from empty policy tables, and a
  synchronisation that accepts a snapshot in which a live difficulty of the set has another checksum, or is gone.
  Whatever decisions and synchronisations follow, as long as no moderator ranks the difficulty or the whole set again,
  the difficulty has no local leaderboard under any checksum but the new one (under none at all when it was withdrawn),
  also when upstream reverts to the revision that had been ranked.
\<close>

theorem synchronised_change_needs_review:
  assumes fresh: "set_policies s0 = []" "map_policies s0 = []" and s: "s = fold (run_step cfg) steps0 s0"
    and run: "sync_locked cfg randint t (Snapshot u) r s = (Inr (), s1)" "s1 \<noteq> s"
    and snapshot: "snapshot_ok u" "up_id u = sy_set r" and keys: "distinct (map df_id (difficulties s))"
    and d0: "d0 \<in> set (live_difficulties s (up_id u))"
    and new: "new = map_option um_checksum (get_row um_id (df_id d0) (up_maps u))" "new \<noteq> Some (df_checksum d0)"
    and later: "s' = fold (run_step cfg) steps s1" and unreviewed: "list_all (\<lambda>x. \<not> step_reviews (up_id u) (df_id d0) x) steps"
    and d: "df_id d = df_id d0" "df_set d = up_id u" "new \<noteq> Some (df_checksum d)"
  shows "\<not> is_effective_local_rank (effective_beatmap_policy s' d)"
  using run(1) snapshot(2)
proof (cases rule: sync_cases)
  case refused
  then show ?thesis using run(2) by simp
next
  case (accepted s2 s3)
  let ?pins = "rows_hold (set_pinned (up_id u) (df_id d0) new) (map_pinned (df_id d0) new)"
  have "keyed s0" using fresh by (simp add: keyed_def)
  then have "keyed s" unfolding s by (rule steps_keyed)
  then have keyed: "keyed s2" by (rule keeps_run[OF keyed_sync.set_row _ accepted(1)])
  obtain c where c: "c \<in> set (combined_changes s r u)" "ch_map c = df_id d0" "revises (maps_by_id (up_maps u)) c new"
    using changed_named[OF keys snapshot(1) d0 new] by blast
  have cache: "cache_part s2 = (put_row bs_id \<lparr>bs_id = up_id u, bs_status = up_ranked u, bs_updated = up_last_updated u\<rparr> (beatmapsets s),
      fold (\<lambda>m. put_row df_id (difficulty_of m)) (metadata_only_beatmaps (up_maps u) (combined_changes s r u)) (difficulties s), sync_records s)"
    using process_set_rows[OF accepted(1)] by simp
  have dm: "distinct (map um_id (up_maps u))" using snapshot(1) by (simp add: snapshot_ok_def)
  have "df_id d0 \<in> ch_map ` set (combined_changes s r u)" using c(1,2) by (metis imageI)
  then have "get_row um_id (df_id d0) (metadata_only_beatmaps (up_maps u) (combined_changes s r u)) = None"
    unfolding get_row_def by (intro find_none) (auto simp: metadata_only(1))
  moreover have "get_row df_id (df_id d0) (difficulties s) = Some d0" "\<not> df_deleted d0"
    using d0 keys get_row_unique[of df_id "difficulties s" d0] by (auto simp: live_difficulties_def)
  ultimately have row: "get_row df_id (ch_map c) (difficulties s2) = Some d0" "\<not> df_deleted d0"
    using cache by (simp_all add: cache_part_def merged_lookup[OF metadata_only(2)[OF dm]] c(2))
  have "get_row bs_id (up_id u) (beatmapsets s2) \<noteq> None" using cache by (simp add: cache_part_def)
  then have "?pins s3"
    using changes_pin[OF accepted(2) c(1) combined_distinct keyed _ row c(3) new(2)] c(2) snapshot(2) by simp
  then have "?pins s1" by (simp add: accepted(3) rows_hold_def)
  then have pins: "?pins s'" unfolding later by (rule steps_pinned[OF unreviewed])
  have "rows_hold set_flags_ok map_flags_ok s" unfolding s by (rule steps_flags[OF fresh_rows[OF fresh]])
  then have "rows_hold set_flags_ok map_flags_ok s1" by (rule keeps_run[OF flags_sync.synchronise _ run(1)])
  then have "rows_hold set_flags_ok map_flags_ok s'" unfolding later by (rule steps_flags)
  then show ?thesis by (rule pinned_blocks[OF _ pins d])
qed

section \<open>When a set is looked at again\<close>

lemma next_trackers_ranked:
  assumes "beatmapset_has_active_local_rank s (sy_set r)"
  shows "\<exists>x \<le> LOCAL_RANK_MAX_SYNC_INTERVAL. next_trackers randint t u r s = put_row sy_set (r\<lparr>sy_next := t + x\<rparr>) (sync_records s)"
proof -
  let ?x = "min (case truthy_delta (calculate_next_sync_time randint t (sy_no_change r) u) of
      None \<Rightarrow> LOCAL_RANK_MAX_SYNC_INTERVAL | Some x \<Rightarrow> x) LOCAL_RANK_MAX_SYNC_INTERVAL"
  have "?x \<noteq> 0" "?x \<le> LOCAL_RANK_MAX_SYNC_INTERVAL"
    by (auto simp: truthy_delta_def min_def LOCAL_RANK_MAX_SYNC_INTERVAL_def seconds_def split: option.splits)
  then show ?thesis
    using assms by (intro exI[of _ ?x]) (simp add: next_trackers_def Let_def, simp add: truthy_delta_def)
qed

lemma not_found_tracked:
  assumes run: "set_not_found cfg t r s = (Inr (), s')" and ranked: "beatmapset_has_active_local_rank s' (sy_set r)"
  shows "\<exists>r'. get_row sy_set (sy_set r) (sync_records s') = Some r' \<and> sy_next r' = t + LOCAL_RANK_MAX_SYNC_INTERVAL"
proof -
  let ?cs = "map (\<lambda>b. \<lparr>ch_map = b, ch_type = MAP_DELETED\<rparr>) (map df_id (live_difficulties s (sy_set r)))"
  obtain x0 s1 where "do_if (map df_id (live_difficulties s (sy_set r)) \<noteq> []) (process_changed_beatmaps cfg t ?cs [] (sy_set r)) s = (Inr x0, s1)"
    and rest: "bnd (gets (\<lambda>s. beatmapset_has_active_local_rank s (sy_set r) \<or> beatmapset_has_pending_local_rank_review s (sy_set r))) (\<lambda>keep_tracker.
      seq (modify (\<lambda>s. case get_row bs_id (sy_set r) (beatmapsets s) of
             None \<Rightarrow> s | Some b \<Rightarrow> s\<lparr>beatmapsets := put_row bs_id (b\<lparr>bs_status := GRAVEYARD\<rparr>) (beatmapsets s)\<rparr>))
      (if keep_tracker
       then save_sync (r\<lparr>sy_maps := map (\<lambda>x. x\<lparr>sm_deleted := True\<rparr>) (sy_maps r), sy_status := GRAVEYARD,
              sy_next := t + LOCAL_RANK_MAX_SYNC_INTERVAL\<rparr>)
       else drop_sync (sy_set r))) s1 = (Inr (), s')"
    using run unfolding set_not_found_def Let_def run_simps(1) seq_def[of "do_if _ _"] bnd_ok_iff[of "do_if _ _"] by blast
  show ?thesis
  proof (cases "beatmapset_has_active_local_rank s1 (sy_set r)")
    case True
    then show ?thesis using rest
      by (auto simp: run_simps save_sync_def)
  next
    case False
    have "set_policies s' = set_policies s1 \<and> map_policies s' = map_policies s1"
      using rest by (auto simp: run_simps save_sync_def drop_sync_def split: if_splits option.splits)
    then show ?thesis using ranked False by (simp add: beatmapset_has_active_local_rank_def)
  qed
qed

text \<open>C15: A set with an active local rank stays under watch.  Whatever upstream answers (a snapshot, no such set, no
  answer), after a synchronisation that returns the set still has its tracker if one of its local ranks is active,
  and the tracker is due at most six hours later (or when it was due before, if a stale snapshot was refused).
\<close>

theorem local_rank_stays_tracked:
  assumes run: "sync_locked cfg randint t answer r s = (Inr (), s')" and tracked: "get_row sy_set (sy_set r) (sync_records s) = Some r"
    and answer: "answer = Not_found \<or> answer = Unreachable \<or> (\<exists>u. answer = Snapshot u \<and> up_id u = sy_set r)"
    and ranked: "beatmapset_has_active_local_rank s' (sy_set r)"
  shows "\<exists>r'. get_row sy_set (sy_set r) (sync_records s') = Some r' \<and> sy_next r' \<le> max (sy_next r) (t + LOCAL_RANK_MAX_SYNC_INTERVAL)"
  using answer
proof (elim disjE exE conjE)
  assume "answer = Unreachable"
  then have "s' = s\<lparr>sync_records := put_row sy_set (r\<lparr>sy_next := t + seconds_of MIN_DELTA\<rparr>) (sync_records s)\<rparr>"
    using run by (simp add: sync_locked_def save_sync_def run_simps)
  moreover have "seconds_of MIN_DELTA \<le> LOCAL_RANK_MAX_SYNC_INTERVAL"
    by (simp add: seconds_of_def MIN_DELTA_def LOCAL_RANK_MAX_SYNC_INTERVAL_def seconds_def)
  ultimately show ?thesis using tracked by (simp add: max_def)
next
  fix u assume u: "answer = Snapshot u" "up_id u = sy_set r"
  from run[unfolded u(1)] u(2) show ?thesis
  proof (cases rule: sync_cases)
    case refused
    then show ?thesis using tracked by simp
  next
    case (accepted s1 s2)
    let ?r = "advanced r u (combined_changes s r u)"
    have "beatmapset_has_active_local_rank s2 (sy_set r)"
      using ranked by (simp add: accepted(3) beatmapset_has_active_local_rank_def)
    then obtain x where "x \<le> LOCAL_RANK_MAX_SYNC_INTERVAL" "next_trackers randint t u ?r s2 = put_row sy_set (?r\<lparr>sy_next := t + x\<rparr>) (sync_records s2)"
      using next_trackers_ranked[of s2 ?r randint t u] by auto
    then show ?thesis by (simp add: accepted(3) max_def)
  qed
next
  assume "answer = Not_found"
  then have "set_not_found cfg t r s = (Inr (), s')" using run by (simp add: sync_locked_def)
  from not_found_tracked[OF this ranked] show ?thesis by auto
qed

lemma next_delta_min:
  assumes "up_last_updated u \<le> t" "next_delta t n u = Some x"
  shows "1200 \<le> x"
proof (cases "up_ranked u")
  case GRAVEYARD
  let ?days = "(t - up_last_updated u) div seconds 86400"
  have "0 \<le> ?days" using assms(1) by (simp add: seconds_def pos_imp_zdiv_nonneg_iff)
  then have "(1::real) \<le> 2 powr (of_int ?days / GRAVEYARD_DOUBLING_PERIOD_DAYS)"
    by (intro ge_one_powr_ge_zero) (simp_all add: GRAVEYARD_DOUBLING_PERIOD_DAYS_def)
  then show ?thesis using assms(2) GRAVEYARD
    by (auto simp: next_delta_def Let_def ranked_status_def MIN_DELTA_def GRAVEYARD_MAX_DAYS_def min_def split: if_splits)
qed (use assms(2) in \<open>auto simp: next_delta_def Let_def ranked_status_def MIN_DELTA_def max_def split: if_splits\<close>)

lemma jitter_bounds:
  assumes draws: "\<And>a b. a \<le> b \<Longrightarrow> a \<le> randint a b \<and> randint a b \<le> b" and x: "1200 \<le> x"
  shows "- minutes 10 \<le> seconds_of x + jitter randint x"
proof (cases "x > 86400")
  case True
  let ?minor = "py_round (x / 10)"
  have "py_round 0 \<le> ?minor" using x by (intro py_round_mono) simp
  then have "- ?minor \<le> randint (- ?minor) ?minor" using draws[of "- ?minor" ?minor] by simp
  moreover have "of_int ?minor \<le> x / 10 + 1/2" "x * 1000000 - 1/2 \<le> of_int (seconds_of x)"
    using py_round_bounds[of "x / 10"] py_round_bounds[of "x * 1000000"] by (simp_all add: seconds_of_def)
  ultimately have "0 \<le> of_int (seconds_of x + jitter randint x) + (0::real)"
    using x True by (simp add: jitter_def Let_def seconds_def)
  then show ?thesis by (simp add: minutes_def seconds_def)
next
  case False
  have "py_round 1200000000 \<le> seconds_of x" unfolding seconds_of_def using x by (intro py_round_mono) simp
  moreover have "-30 \<le> randint JITTER_MIN JITTER_MAX" using draws[of JITTER_MIN JITTER_MAX] by (simp add: JITTER_MIN_def JITTER_MAX_def)
  ultimately show ?thesis using False by (simp add: jitter_def minutes_def seconds_def)
qed

text \<open>C16: What a synchronisation that returns schedules.  When the random draws are in their range and the set was not
  updated in the future, the tracker of a set survives exactly when one of its local ranks is active, or upstream has not
  ranked the set and the computed delay is not zero.  A surviving tracker is due at most ten minutes in the past (the
  jitter of thirty minutes can outweigh the smallest delay of twenty), and, under a local rank, within six hours.
\<close>

theorem reschedule_outcome:
  assumes draws: "\<And>a b. a \<le> b \<Longrightarrow> a \<le> randint a b \<and> randint a b \<le> b" and past: "up_last_updated u \<le> t"
    and active: "active = beatmapset_has_active_local_rank s (sy_set r)" and delay: "delay = calculate_next_sync_time randint t (sy_no_change r) u"
  shows "\<exists>s'. reschedule randint t u r s = (Inr (), s') \<and> (delay = None \<longleftrightarrow> ranked_status (up_ranked u)) \<and>
    (case get_row sy_set (sy_set r) (sync_records s') of
       None \<Rightarrow> \<not> active \<and> (ranked_status (up_ranked u) \<or> delay = Some 0)
     | Some r' \<Rightarrow> t - minutes 10 \<le> sy_next r' \<and>
         (if active then sy_next r' \<le> t + LOCAL_RANK_MAX_SYNC_INTERVAL else delay = Some (sy_next r' - t) \<and> delay \<noteq> Some 0))"
proof -
  have none: "delay = None \<longleftrightarrow> ranked_status (up_ranked u)"
    by (simp add: delay calculate_next_sync_time_def next_delta_def)
  have low: "- minutes 10 \<le> x" if d: "delay = Some x" for x
  proof -
    obtain y where y: "next_delta t (sy_no_change r) u = Some y" "x = seconds_of y + jitter randint y"
      using d by (auto simp: delay calculate_next_sync_time_def)
    show ?thesis unfolding y(2) by (rule jitter_bounds[OF draws next_delta_min[OF past y(1)]])
  qed
  have pos: "0 < LOCAL_RANK_MAX_SYNC_INTERVAL" "0 < minutes 10"
    by (simp_all add: LOCAL_RANK_MAX_SYNC_INTERVAL_def seconds_def minutes_def)
  have rows: "next_trackers randint t u r s = (case truthy_delta (if active then Some (min (case truthy_delta delay of
      None \<Rightarrow> LOCAL_RANK_MAX_SYNC_INTERVAL | Some x \<Rightarrow> x) LOCAL_RANK_MAX_SYNC_INTERVAL) else delay) of
      None \<Rightarrow> del_row sy_set (sy_set r) (sync_records s) | Some x \<Rightarrow> put_row sy_set (r\<lparr>sy_next := t + x\<rparr>) (sync_records s))"
    by (simp add: next_trackers_def Let_def active delay)
  show ?thesis
  proof (cases delay)
    case None
    then show ?thesis using none pos by (cases active) (simp_all add: reschedule_run rows truthy_delta_def)
  next
    case (Some x)
    then show ?thesis using none pos low[OF Some]
      by (cases active; cases "x = 0") (simp_all add: reschedule_run rows truthy_delta_def min_def)
  qed
qed

text \<open>
  A draw of minus twenty minutes cancels the smallest delay, and \<open>not timedelta(0)\<close> reads the result as \<open>no next
  synchronisation\<close>: a pending set uploaded this instant and not yet played loses its tracker, until
  \<open>add_missing_beatmapsets\<close> finds it again.
\<close>

theorem zero_delay_forgets_set:
  assumes "up_ranked u = PENDING" "up_last_updated u = t" "up_play_count u = 0" "sy_no_change r = 0"
    and "randint JITTER_MIN JITTER_MAX = -20" and "\<not> beatmapset_has_active_local_rank s (sy_set r)"
  shows "reschedule randint t u r s = (Inr (), s\<lparr>sync_records := del_row sy_set (sy_set r) (sync_records s)\<rparr>)"
proof -
  have "next_delta t 0 u = Some 1200"
    using assms(1-3) by (simp add: next_delta_def ranked_status_def total_seconds_def BASE_def GROWTH_def MIN_DELTA_def)
  then have "calculate_next_sync_time randint t (sy_no_change r) u = Some 0"
    using assms(4,5) by (simp add: calculate_next_sync_time_def jitter_def seconds_of_def minutes_def seconds_def)
  then show ?thesis using assms(6) by (simp add: reschedule_run next_trackers_def truthy_delta_def)
qed

section \<open>Examples\<close>

lemma sync_returns:
  assumes "fst (process_changed_beatmapset u (metadata_only_beatmaps (up_maps u) (combined_changes s r u)) s) = Inr True"
    and "s1 = snd (process_changed_beatmapset u (metadata_only_beatmaps (up_maps u) (combined_changes s r u)) s)"
    and "fst (process_changed_beatmaps cfg t (combined_changes s r u) (up_maps u) (sy_set r) s1) = Inr ()"
    and "s2 = snd (process_changed_beatmaps cfg t (combined_changes s r u) (up_maps u) (sy_set r) s1)"
    and "get_row bs_id (sy_set r) (beatmapsets s2) \<noteq> None"
  shows "sync_locked cfg randint t (Snapshot u) r s
    = (Inr (), s2\<lparr>sync_records := next_trackers randint t u (advanced r u (combined_changes s r u)) s2\<rparr>)"
proof -
  let ?cs = "combined_changes s r u"
  have first: "process_changed_beatmapset u (metadata_only_beatmaps (up_maps u) ?cs) s = (Inr True, s1)"
    using assms(1,2) by (metis prod.collapse)
  have second: "process_changed_beatmaps cfg t ?cs (up_maps u) (sy_set r) s1 = (Inr (), s2)" using assms(3,4) by (metis prod.collapse)
  have changes: "do_if (?cs \<noteq> []) (process_changed_beatmaps cfg t ?cs (up_maps u) (sy_set r)) = process_changed_beatmaps cfg t ?cs (up_maps u) (sy_set r)"
    by (simp add: do_if_def process_changed_beatmaps_def)
  show ?thesis
    unfolding sync_locked_def fetched.case run_simps(1) Let_def changes using assms(5)
    by (auto simp: step_runs first second run_simps(1) reschedule_run advanced_def)
qed

definition demo_upstream :: "int \<Rightarrow> string \<Rightarrow> upstream_map" where
  "demo_upstream b ck = \<lparr>um_id = b, um_set = 5, um_checksum = ck, um_ranked = GRAVEYARD, um_updated = 150, um_deleted = False, um_owners = None\<rparr>"

definition demo_snapshot :: "rank_status \<Rightarrow> time \<Rightarrow> upstream_set" where
  "demo_snapshot st updated = \<lparr>up_id = 5, up_ranked = st, up_ranked_date = 0, up_last_updated = updated, up_play_count = 0,
     up_maps = [demo_upstream 11 ''b'', demo_upstream 12 ''c'']\<rparr>"

definition demo_sync :: sync_record where
  "demo_sync = \<lparr>sy_set = 5, sy_maps = [\<lparr>sm_map = 11, sm_md5 = ''a'', sm_deleted = False, sm_status = GRAVEYARD\<rparr>],
     sy_status = GRAVEYARD, sy_no_change = 0, sy_next = 0\<rparr>"

abbreviation demo_ranked :: ranking_db where "demo_ranked \<equiv> run_command demo_score_config demo_apply demo_ranking"

definition demo_metadata :: "ranking_db \<Rightarrow> (error + bool) \<times> ranking_db" where
  "demo_metadata s = (let u = demo_snapshot RANKED 150 in
     process_changed_beatmapset u (metadata_only_beatmaps (up_maps u) (combined_changes s demo_sync u)) s)"

definition demo_changes :: "ranking_db \<Rightarrow> (error + unit) \<times> ranking_db" where
  "demo_changes s = (let u = demo_snapshot RANKED 150 in
     process_changed_beatmaps demo_score_config 300 (combined_changes s demo_sync u) (up_maps u) 5 (snd (demo_metadata s)))"

lemma demo_returns:
  assumes "fst (demo_metadata s) = Inr True" "fst (demo_changes s) = Inr ()" "get_row bs_id 5 (beatmapsets (snd (demo_changes s))) \<noteq> None"
  obtains rs where "sync_locked demo_score_config randint 300 (Snapshot (demo_snapshot RANKED 150)) demo_sync s
     = (Inr (), snd (demo_changes s)\<lparr>sync_records := rs\<rparr>)"
proof -
  have demo: "sy_set demo_sync = 5" by (simp add: demo_sync_def)
  show thesis
    by (rule that, unfold demo_changes_def Let_def demo_metadata_def,
        rule sync_returns[where r = demo_sync, OF _ refl _ refl, unfolded demo])
      (use assms in \<open>simp_all add: demo_metadata_def demo_changes_def Let_def\<close>)
qed

lemma demo_snapshot_ok: "snapshot_ok (demo_snapshot st updated)" "up_id (demo_snapshot st updated) = sy_set demo_sync"
  by (simp_all add: snapshot_ok_def demo_snapshot_def demo_upstream_def demo_sync_def)

theorem sync_converges_witness:
  "\<exists>s'. sync_locked demo_score_config (\<lambda>a b. 0) 300 (Snapshot (demo_snapshot RANKED 150)) demo_sync demo_ranking = (Inr (), s')
     \<and> set (live_difficulties s' 5) = {difficulty_of (demo_upstream 11 ''b''), difficulty_of (demo_upstream 12 ''c'')}"
proof -
  have "fst (demo_metadata demo_ranking) = Inr True" "fst (demo_changes demo_ranking) = Inr ()"
    "get_row bs_id 5 (beatmapsets (snd (demo_changes demo_ranking))) \<noteq> None" by code_simp+
  then obtain s' where s': "sync_locked demo_score_config (\<lambda>a b. 0) 300 (Snapshot (demo_snapshot RANKED 150)) demo_sync demo_ranking = (Inr (), s')"
    by (rule demo_returns)
  have "distinct (map df_id (difficulties demo_ranking))" by (simp add: demo_ranking_def)
  from sync_converges[OF s' demo_snapshot_ok this] show ?thesis
    by (intro exI[of _ s'] conjI s') (simp add: demo_ranking_def demo_set_def demo_snapshot_def get_row_def)
qed

theorem synchronised_change_needs_review_witness:
  "\<exists>s1. sync_locked demo_score_config (\<lambda>a b. 0) 300 (Snapshot (demo_snapshot RANKED 150)) demo_sync demo_ranked = (Inr (), s1)
     \<and> \<not> is_effective_local_rank (effective_beatmap_policy
         (run_command demo_score_config (Cached [demo_set 150] [demo_difficulty ''a''] [] demo_tables) s1) (demo_difficulty ''a''))"
proof -
  let ?revert = "Decide (Cached [demo_set 150] [demo_difficulty ''a''] [] demo_tables)"
  have "fst (demo_metadata demo_ranked) = Inr True" "fst (demo_changes demo_ranked) = Inr ()"
    "get_row bs_id 5 (beatmapsets (snd (demo_changes demo_ranked))) \<noteq> None" by code_simp+
  then obtain rs where run: "sync_locked demo_score_config (\<lambda>a b. 0) 300 (Snapshot (demo_snapshot RANKED 150)) demo_sync demo_ranked
      = (Inr (), snd (demo_changes demo_ranked)\<lparr>sync_records := rs\<rparr>)" by (rule demo_returns)
  have "difficulties demo_ranked = [demo_difficulty ''a'']" "length (difficulties (snd (demo_changes demo_ranked))) = 2" by code_simp+
  then have rows: "difficulties demo_ranked = [demo_difficulty ''a'']" "snd (demo_changes demo_ranked)\<lparr>sync_records := rs\<rparr> \<noteq> demo_ranked"
    by (auto dest!: arg_cong[of _ _ difficulties])
  have "\<not> is_effective_local_rank (effective_beatmap_policy
      (fold (run_step demo_score_config) [?revert] (snd (demo_changes demo_ranked)\<lparr>sync_records := rs\<rparr>)) (demo_difficulty ''a''))"
    by (rule synchronised_change_needs_review[OF demo_fresh _ run rows(2) demo_snapshot_ok, where ?steps0.0 = "[Decide demo_apply]"
          and ?d0.0 = "demo_difficulty ''a''" and new = "Some ''b''" and steps = "[?revert]"])
      (simp_all add: rows(1) live_difficulties_def demo_difficulty_def demo_snapshot_def demo_upstream_def get_row_def
        del: run_command.simps)
  then show ?thesis using run by simp
qed

theorem local_rank_stays_tracked_witness:
  "\<exists>s'. sync_locked demo_score_config (\<lambda>a b. 0) 300 Unreachable demo_sync (demo_ranked\<lparr>sync_records := [demo_sync]\<rparr>) = (Inr (), s')
     \<and> get_row sy_set 5 (sync_records s') \<noteq> None"
proof -
  let ?s = "demo_ranked\<lparr>sync_records := [demo_sync]\<rparr>"
  let ?s' = "?s\<lparr>sync_records := put_row sy_set (demo_sync\<lparr>sy_next := 300 + seconds_of MIN_DELTA\<rparr>) (sync_records ?s)\<rparr>"
  have run: "sync_locked demo_score_config (\<lambda>a b. 0) 300 Unreachable demo_sync ?s = (Inr (), ?s')"
    by (simp add: sync_locked_def save_sync_def run_simps)
  have set5: "sy_set demo_sync = 5" by (simp add: demo_sync_def)
  have "beatmapset_has_active_local_rank demo_ranked 5" by code_simp
  then have "beatmapset_has_active_local_rank ?s' (sy_set demo_sync)" by (simp add: beatmapset_has_active_local_rank_def set5)
  moreover have "get_row sy_set (sy_set demo_sync) (sync_records ?s) = Some demo_sync" by (simp add: get_row_def)
  ultimately have "get_row sy_set 5 (sync_records ?s') \<noteq> None"
    using local_rank_stays_tracked[OF run] by (auto simp: set5)
  then show ?thesis using run by blast
qed

theorem reschedule_outcome_witness:
  "\<exists>s' r'. reschedule (\<lambda>a b. b) 150 (demo_snapshot PENDING 150) demo_sync demo_ranking = (Inr (), s')
     \<and> get_row sy_set 5 (sync_records s') = Some r' \<and> sy_next r' = 150 + minutes 50"
proof -
  let ?u = "demo_snapshot PENDING 150"
  have "next_delta 150 0 ?u = Some 1200"
    by (simp add: next_delta_def demo_snapshot_def ranked_status_def total_seconds_def BASE_def GROWTH_def MIN_DELTA_def)
  then have delay: "calculate_next_sync_time (\<lambda>a b. b) 150 0 ?u = Some (minutes 50)"
    by (simp add: calculate_next_sync_time_def jitter_def seconds_of_def minutes_def seconds_def JITTER_MAX_def)
  have demo: "sy_set demo_sync = 5" "sy_no_change demo_sync = 0" by (simp_all add: demo_sync_def)
  have unranked: "beatmapset_has_active_local_rank demo_ranking 5 = False" by code_simp
  have past: "up_last_updated ?u \<le> 150" by (simp add: demo_snapshot_def)
  have upstream: "\<not> ranked_status (up_ranked ?u)" by (simp add: demo_snapshot_def ranked_status_def)
  from reschedule_outcome[where randint = "\<lambda>a b. b" and s = demo_ranking and r = demo_sync, OF _ past refl refl] show ?thesis
    using upstream by (auto simp: demo unranked delay minutes_def seconds_def split: option.splits)
qed

end
