(* ===== verification/RoomScores.thy ===== *)
theory RoomScores
  imports Profiles
begin

text \<open>
  Scores set inside rooms: the best score of every playlist item and the results around it
  (\<open>app/database/playlist_best_score.py\<close>), the totals of a player in a room (\<open>item_attempts_count.py\<close>), and the
  streaks of the daily challenge (\<open>app/database/daily_challenge.py\<close>, \<open>app/tasks/daily_challenge.py\<close>,
  \<open>app/helpers/time.py\<close>).

  The score a best row points to is the row of \<open>room_plays\<close> with its id, which the foreign key guarantees; a missing
  one is the \<open>AttributeError\<close> of \<open>None\<close>.  Row locks are left out.  The pages of \<open>partition_scores_around\<close> are those of the
  list it is given: its caller (\<open>app/database/score.py\<close>) leaves restricted players out of that list and, in playlists,
  failed scores.  \<open>room_users\<close> are the accounts; the last section has the operations that create them and those that
  create and reset rows of the challenge.
\<close>

section \<open>Rows\<close>

record playlist_best =
  pb_user :: int
  pb_score :: int
  pb_room :: int
  pb_item :: int
  pb_total :: int
  pb_attempts :: int

record attempts_row =
  ia_room :: int
  ia_user :: int
  ia_attempts :: int
  ia_completed :: int
  ia_pp :: real
  ia_total :: int
  ia_accuracy :: real

record daily_row =
  dc_user :: int
  daily_streak_best :: int
  daily_streak_current :: int
  last_update :: "time option"
  last_day_streak :: "time option"
  last_weekly_streak :: "time option"
  dc_playcount :: int
  top_10p_placements :: int
  top_50p_placements :: int
  weekly_streak_best :: int
  weekly_streak_current :: int

record challenge_room =
  cr_id :: int
  cr_daily :: bool
  cr_ends :: time

record room_db =
  room_plays :: "play list"
  playlist_bests :: "playlist_best list"
  item_attempts :: "attempts_row list"
  daily_rows :: "daily_row list"
  challenge_rooms :: "challenge_room list"
  room_users :: "int list"

fun update_first :: "('a \<Rightarrow> bool) \<Rightarrow> ('a \<Rightarrow> 'a) \<Rightarrow> 'a list \<Rightarrow> 'a list" where
  "update_first P f [] = []"
| "update_first P f (x # xs) = (if P x then f x # xs else x # update_first P f xs)"

section \<open>Best scores of an item\<close>

text \<open>\<open>total_score DESC, score_id ASC\<close>\<close>

definition pb_key :: "playlist_best \<Rightarrow> int \<times> int" where
  "pb_key b = (- pb_total b, pb_score b)"

definition partition_scores_around ::
  "playlist_best list \<Rightarrow> int \<Rightarrow> int \<Rightarrow> error + playlist_best list \<times> playlist_best list \<times> bool \<times> bool" where
  "partition_scores_around bests pivot_score_id most =
     (if most < 1 then Inl (ValueErr ''limit must be positive'')
      else case find (\<lambda>b. pb_score b = pivot_score_id) bests of
        None \<Rightarrow> Inr ([], [], False, False)
      | Some pivot \<Rightarrow>
          let ordered = sort_key pb_key (filter (\<lambda>b. pb_user b \<noteq> pb_user pivot) bests);
              higher_all = filter (\<lambda>b. pb_key b < pb_key pivot) ordered;
              lower_all = filter (\<lambda>b. pb_key b > pb_key pivot) ordered;
              higher = rev (drop (length higher_all - nat most) higher_all);
              lower = take (nat most) lower_all
          in Inr (higher, lower, int (length higher_all) > most, int (length lower_all) > most))"

definition on_item :: "int \<Rightarrow> int \<Rightarrow> playlist_best \<Rightarrow> bool" where
  "on_item room item b \<longleftrightarrow> pb_room b = room \<and> pb_item b = item"

definition get_position :: "room_db \<Rightarrow> int \<Rightarrow> int \<Rightarrow> int \<Rightarrow> nat" where
  "get_position s room item sid =
     (case find (\<lambda>(i, b). pb_score b = sid) (enumerate 1 (sort_key pb_key (filter (on_item room item) (playlist_bests s)))) of
        None \<Rightarrow> 0
      | Some (i, _) \<Rightarrow> i)"

definition score_row :: "int \<Rightarrow> (room_db, play) op" where
  "score_row sid =
     bnd (gets (\<lambda>s. get_row pl_id sid (room_plays s))) (\<lambda>found.
     case found of None \<Rightarrow> throw (RuntimeErr ''AttributeError'') | Some p \<Rightarrow> ret p)"

definition process_playlist_best_score :: "int \<Rightarrow> int \<Rightarrow> int \<Rightarrow> int \<Rightarrow> int \<Rightarrow> (room_db, unit) op" where
  "process_playlist_best_score room item uid sid points =
     (let mine = (\<lambda>b. on_item room item b \<and> pb_user b = uid) in
      bnd (gets (\<lambda>s. find mine (playlist_bests s))) (\<lambda>previous.
      case previous of
        None \<Rightarrow> modify (\<lambda>s. s\<lparr>playlist_bests := playlist_bests s @
            [\<lparr>pb_user = uid, pb_score = sid, pb_room = room, pb_item = item, pb_total = points, pb_attempts = 1\<rparr>]\<rparr>)
      | Some b \<Rightarrow>
          bnd (score_row (pb_score b)) (\<lambda>old.
          let b' = (if \<not> sd_passed (pl_data old) \<or> pb_total b < points then b\<lparr>pb_score := sid, pb_total := points\<rparr> else b) in
          modify (\<lambda>s. s\<lparr>playlist_bests := update_first mine (\<lambda>_. b'\<lparr>pb_attempts := pb_attempts b + 1\<rparr>) (playlist_bests s)\<rparr>))))"

section \<open>Totals of a player in a room\<close>

definition attempts_at :: "int \<Rightarrow> int \<Rightarrow> attempts_row \<Rightarrow> bool" where
  "attempts_at room uid a \<longleftrightarrow> ia_room a = room \<and> ia_user a = uid"

definition aggregate :: "(playlist_best \<times> play) list \<Rightarrow> attempts_row \<Rightarrow> attempts_row" where
  "aggregate rows a =
     (let passed_scores = filter (\<lambda>(b, p). sd_passed (pl_data p)) rows in
      a\<lparr>ia_attempts := (\<Sum>(b, p)\<leftarrow>rows. pb_attempts b), ia_total := (\<Sum>(b, p)\<leftarrow>rows. pb_total b),
        ia_pp := (\<Sum>(b, p)\<leftarrow>rows. pl_pp p), ia_completed := int (length passed_scores),
        ia_accuracy := (if passed_scores = [] then 0
          else (\<Sum>(b, p)\<leftarrow>passed_scores. sd_accuracy (pl_data p)) / real (length passed_scores))\<rparr>)"

definition update_attempts :: "int \<Rightarrow> int \<Rightarrow> (room_db, unit) op" where
  "update_attempts room uid =
     bnd (gets (\<lambda>s. filter (\<lambda>b. pb_room b = room \<and> pb_user b = uid) (playlist_bests s))) (\<lambda>bests.
     bnd (collect bests (\<lambda>b. bnd (score_row (pb_score b)) (\<lambda>p. ret (b, p)))) (\<lambda>rows.
     modify (\<lambda>s. s\<lparr>item_attempts := update_first (attempts_at room uid) (aggregate rows) (item_attempts s)\<rparr>)))"

definition get_or_create_attempts :: "int \<Rightarrow> int \<Rightarrow> (room_db, unit) op" where
  "get_or_create_attempts room uid =
     bnd (gets (\<lambda>s. list_ex (attempts_at room uid) (item_attempts s))) (\<lambda>exists.
     seq (do_if (\<not> exists) (modify (\<lambda>s. s\<lparr>item_attempts := item_attempts s @
            [\<lparr>ia_room = room, ia_user = uid, ia_attempts = 0, ia_completed = 0, ia_pp = 0, ia_total = 0, ia_accuracy = 0\<rparr>]\<rparr>)))
     (update_attempts room uid))"

text \<open>The query of \<open>ItemAttemptsCount.get_position\<close> numbers the rows of every room and filters by the user only.\<close>

definition attempts_position :: "room_db \<Rightarrow> int \<Rightarrow> nat" where
  "attempts_position s uid =
     (let ranked_in = (\<lambda>room. enumerate 1 (sort_key (\<lambda>a. - ia_total a) (filter (\<lambda>a. ia_room a = room) (item_attempts s)))) in
      case find (\<lambda>(i, a). ia_user a = uid) (concat (map ranked_in (sort (remdups (map ia_room (item_attempts s)))))) of
        None \<Rightarrow> 0
      | Some (i, _) \<Rightarrow> i)"

section \<open>Weeks\<close>

text \<open>\<open>datetime.isocalendar\<close> of the ordinal of a day.\<close>

definition isoweek1monday :: "int \<Rightarrow> int" where
  "isoweek1monday year =
     (let firstday = ymd2ord year 1 1; firstweekday = (firstday + 6) mod 7; week1monday = firstday - firstweekday
      in if firstweekday > 3 then week1monday + 7 else week1monday)"

definition isocalendar :: "int \<Rightarrow> int \<times> int" where
  "isocalendar today =
     (let year = year_of today; week = (today - isoweek1monday year) div 7 in
      if week < 0 then (year - 1, (today - isoweek1monday (year - 1)) div 7 + 1)
      else if week \<ge> 52 \<and> today \<ge> isoweek1monday (year + 1) then (year + 1, 1)
      else (year, week + 1))"

definition week_of :: "time \<Rightarrow> int \<times> int" where
  "week_of t = isocalendar (t div DAY + EPOCH_ORDINAL)"

definition adjacent :: "int \<times> int \<Rightarrow> int \<times> int \<Rightarrow> bool" where
  "adjacent a b =
     (let ((y1, w1), (y2, w2)) = (if a > b then (b, a) else (a, b)) in
      (y1 = y2 \<and> w2 - w1 = 1) \<or> (y2 = y1 + 1 \<and> w2 = 1 \<and> w1 = snd (isocalendar (ymd2ord y1 12 28))))"

definition are_adjacent_weeks :: "time \<Rightarrow> time \<Rightarrow> bool" where
  "are_adjacent_weeks dt1 dt2 = adjacent (week_of dt1) (week_of dt2)"

definition are_same_weeks :: "time \<Rightarrow> time \<Rightarrow> bool" where
  "are_same_weeks dt1 dt2 \<longleftrightarrow> week_of dt1 = week_of dt2"

section \<open>The daily challenge\<close>

definition new_daily :: "int \<Rightarrow> daily_row" where
  "new_daily uid = \<lparr>dc_user = uid, daily_streak_best = 0, daily_streak_current = 0, last_update = None, last_day_streak = None,
     last_weekly_streak = None, dc_playcount = 0, top_10p_placements = 0, top_50p_placements = 0, weekly_streak_best = 0,
     weekly_streak_current = 0\<rparr>"

definition on_day :: "time option \<Rightarrow> int \<Rightarrow> bool" where
  "on_day t day \<longleftrightarrow> (case t of None \<Rightarrow> False | Some u \<Rightarrow> u div DAY = day)"

definition daily_step :: "time \<Rightarrow> daily_row \<Rightarrow> daily_row" where
  "daily_step t d =
     (if last_update d = None then d\<lparr>daily_streak_best := 1, daily_streak_current := 1\<rparr>
      else if on_day (last_update d) (t div DAY - 1)
      then d\<lparr>daily_streak_current := daily_streak_current d + 1,
             daily_streak_best := max (daily_streak_best d) (daily_streak_current d + 1)\<rparr>
      else if on_day (last_update d) (t div DAY) then d\<lparr>dc_playcount := dc_playcount d - 1\<rparr>
      else d\<lparr>daily_streak_current := 1\<rparr>)"

definition weekly_step :: "time \<Rightarrow> daily_row \<Rightarrow> daily_row" where
  "weekly_step t d =
     (case last_weekly_streak d of
        None \<Rightarrow> d\<lparr>weekly_streak_current := 1, weekly_streak_best := 1\<rparr>
      | Some u \<Rightarrow>
          if are_adjacent_weeks u t
          then d\<lparr>weekly_streak_current := weekly_streak_current d + 1,
                 weekly_streak_best := max (weekly_streak_best d) (weekly_streak_current d + 1)\<rparr>
          else if on_day (Some u) (t div DAY) then d
          else d\<lparr>weekly_streak_current := 1\<rparr>)"

definition daily_played :: "time \<Rightarrow> daily_row \<Rightarrow> daily_row" where
  "daily_played t d =
     (weekly_step t (daily_step t (d\<lparr>dc_playcount := dc_playcount d + 1\<rparr>)))
       \<lparr>last_update := Some t, last_day_streak := Some t, last_weekly_streak := Some t\<rparr>"

definition save_daily :: "daily_row \<Rightarrow> (room_db, unit) op" where
  "save_daily d = modify (\<lambda>s. s\<lparr>daily_rows := put_row dc_user d (daily_rows s)\<rparr>)"

definition process_daily_challenge_score :: "time \<Rightarrow> int \<Rightarrow> int \<Rightarrow> (room_db, unit) op" where
  "process_daily_challenge_score t uid room =
     bnd (gets (\<lambda>s. find (\<lambda>b. on_item room 0 b \<and> pb_user b = uid) (playlist_bests s))) (\<lambda>best.
     case best of
       None \<Rightarrow> ret ()
     | Some b \<Rightarrow>
         bnd (score_row (pb_score b)) (\<lambda>p.
         if \<not> sd_passed (pl_data p) then ret ()
         else
           bnd (gets (\<lambda>s. get_row dc_user uid (daily_rows s))) (\<lambda>found.
           save_daily (daily_played t (case found of None \<Rightarrow> new_daily uid | Some d \<Rightarrow> d)))))"

text \<open>\<open>submit_playlist_score\<close> after the play has been stored.\<close>

definition record_room_score :: "time \<Rightarrow> bool \<Rightarrow> int \<Rightarrow> int \<Rightarrow> play \<Rightarrow> (room_db, unit) op" where
  "record_room_score t daily room item p =
     seq (process_playlist_best_score room item (pl_user p) (pl_id p) (pl_total p))
     (seq (do_if (daily \<and> sd_passed (pl_data p)) (process_daily_challenge_score t (pl_user p) room))
     (get_or_create_attempts room (pl_user p)))"

section \<open>The nightly job\<close>

definition placed :: "time \<Rightarrow> nat \<Rightarrow> nat \<Rightarrow> daily_row \<Rightarrow> daily_row" where
  "placed t i n d =
     (let share = real_of_int \<lceil>real (i + 1) / real n\<rceil>;
          d1 = (if \<not> on_day (last_update d) (t div DAY) \<and> (n < 10 \<or> share \<le> 0.1)
                then d\<lparr>top_10p_placements := top_10p_placements d + 1\<rparr> else d);
          d2 = (if \<not> on_day (last_update d) (t div DAY) \<and> (n < 2 \<or> share \<le> 0.5)
                then d1\<lparr>top_50p_placements := top_50p_placements d1 + 1\<rparr> else d1)
      in d2\<lparr>last_update := Some t\<rparr>)"

definition missed_day :: "time \<Rightarrow> daily_row \<Rightarrow> daily_row" where
  "missed_day t d =
     (let d1 = d\<lparr>daily_streak_current := 0\<rparr>;
          d2 = (case last_weekly_streak d of
                  None \<Rightarrow> d1
                | Some u \<Rightarrow> if are_same_weeks u (t - 7 * DAY) then d1 else d1\<lparr>weekly_streak_current := 0\<rparr>)
      in d2\<lparr>last_update := Some t\<rparr>)"

definition challenge_scores :: "room_db \<Rightarrow> int \<Rightarrow> playlist_best list" where
  "challenge_scores s room =
     sort_key (\<lambda>b. - pb_total b) (filter (\<lambda>b. on_item room 0 b
        \<and> (case get_row pl_id (pb_score b) (room_plays s) of None \<Rightarrow> False | Some p \<Rightarrow> sd_passed (pl_data p))) (playlist_bests s))"

definition place_score :: "time \<Rightarrow> nat \<Rightarrow> nat \<times> playlist_best \<Rightarrow> (room_db, int list) op" where
  "place_score t n ib =
     (let (i, b) = ib in
      bnd (gets (\<lambda>s. get_row dc_user (pb_user b) (daily_rows s))) (\<lambda>found.
      case found of
        None \<Rightarrow> ret []
      | Some d \<Rightarrow> seq (save_daily (placed t i n d)) (ret [pb_user b])))"

definition place_all :: "time \<Rightarrow> playlist_best list \<Rightarrow> (room_db, int list) op" where
  "place_all t bests =
     bnd (collect (enumerate 0 bests) (place_score t (length bests))) (\<lambda>uss. ret (concat uss))"

definition reset_user :: "time \<Rightarrow> int \<Rightarrow> (room_db, unit) op" where
  "reset_user t uid =
     bnd (gets (\<lambda>s. get_row dc_user uid (daily_rows s))) (\<lambda>found.
     case found of
       None \<Rightarrow> ret ()
     | Some d \<Rightarrow> if on_day (last_update d) (t div DAY) then ret () else save_daily (missed_day t d))"

definition reset_all :: "time \<Rightarrow> int list \<Rightarrow> (room_db, unit) op" where
  "reset_all t uids = for_each uids (reset_user t)"

definition process_daily_challenge_top :: "time \<Rightarrow> (room_db, unit) op" where
  "process_daily_challenge_top t =
     bnd (gets (\<lambda>s. find (\<lambda>r. cr_daily r \<and> t - DAY < cr_ends r \<and> cr_ends r < t) (challenge_rooms s))) (\<lambda>room.
     bnd (case room of
            None \<Rightarrow> ret []
          | Some r \<Rightarrow> bnd (gets (\<lambda>s. challenge_scores s (cr_id r))) (place_all t)) (\<lambda>participated.
     bnd (gets (\<lambda>s. filter (\<lambda>u. u \<notin> set participated) (room_users s))) (reset_all t)))"

section \<open>Accounts\<close>

text \<open>What the registration (\<open>register_user\<close> of \<open>app/router/auth.py\<close>, \<open>register_web_site\<close> of
  \<open>app/router/private/web_site.py\<close>) writes to these tables: the account and its empty row, in one transaction.  The id
  is the one the database gave the account; a key that is taken is an \<open>IntegrityError\<close>, and nothing is written.\<close>

definition register_daily :: "int \<Rightarrow> (room_db, unit) op" where
  "register_daily uid =
     bnd (gets (\<lambda>s. uid \<in> set (room_users s) \<or> get_row dc_user uid (daily_rows s) \<noteq> None)) (\<lambda>taken.
     if taken then throw (RuntimeErr ''IntegrityError'')
     else seq (modify (\<lambda>s. s\<lparr>room_users := room_users s @ [uid]\<rparr>)) (save_daily (new_daily uid)))"

text \<open>An account without a row: the bots of SOMSAI (\<open>create_bot_team\<close>), whose ids are new, and the bot of the server
  (\<open>create_banchobot.py\<close>), whose task leaves an account that exists alone.\<close>

definition create_bot_account :: "int \<Rightarrow> (room_db, unit) op" where
  "create_bot_account uid =
     bnd (gets (\<lambda>s. uid \<in> set (room_users s))) (\<lambda>taken.
     if taken then ret ()
     else modify (\<lambda>s. s\<lparr>room_users := room_users s @ [uid]\<rparr>))"

text \<open>The part of \<open>clear_user_profile\<close> that concerns these tables.\<close>

definition cleared_daily :: "daily_row \<Rightarrow> daily_row" where
  "cleared_daily d =
     d\<lparr>daily_streak_best := 0, daily_streak_current := 0, dc_playcount := 0, top_10p_placements := 0, top_50p_placements := 0,
       weekly_streak_best := 0, weekly_streak_current := 0, last_update := None, last_day_streak := None,
       last_weekly_streak := None\<rparr>"

definition clear_daily :: "int \<Rightarrow> (room_db, unit) op" where
  "clear_daily uid =
     bnd (gets (\<lambda>s. get_row dc_user uid (daily_rows s))) (\<lambda>found.
     save_daily (case found of None \<Rightarrow> new_daily uid | Some d \<Rightarrow> cleared_daily d))"

definition clear_user_rooms :: "int \<Rightarrow> (room_db, unit) op" where
  "clear_user_rooms uid =
     seq (modify (\<lambda>s. s\<lparr>playlist_bests := filter (\<lambda>b. pb_user b \<noteq> uid) (playlist_bests s),
                         item_attempts := filter (\<lambda>r. ia_user r \<noteq> uid) (item_attempts s),
                         room_plays := filter (\<lambda>p. pl_user p \<noteq> uid) (room_plays s)\<rparr>))
         (clear_daily uid)"

end
