(* ===== verification/Weeks.thy ===== *)
theory Weeks
  imports RoomScores Penalties
begin

text \<open>
  The ISO weeks of \<open>app/helpers/time.py\<close> against the calendar: a week is named by its Monday, and two instants lie in adjacent
  (the same) weeks exactly when these Mondays are seven days apart (equal), across the turn of the year too.
\<close>

definition monday :: "int \<Rightarrow> int" where
  "monday n = n - (n + 6) mod 7"

lemma monday_from:
  assumes "(M + 6) mod 7 = 0"
  shows "monday n = M + 7 * ((n - M) div 7)"
proof -
  have "(n + 6) mod 7 = (n - M) mod 7"
  proof -
    have "(n + 6) mod 7 = ((n - M) + (M + 6)) mod 7" by (simp add: algebra_simps)
    also have "\<dots> = ((n - M) + (M + 6) mod 7) mod 7" by (simp only: mod_add_right_eq)
    finally show ?thesis using assms by simp
  qed
  moreover have "n - M = 7 * ((n - M) div 7) + (n - M) mod 7" by simp
  ultimately show ?thesis unfolding monday_def by linarith
qed

lemma monday_bounds: "monday n \<le> n" "n \<le> monday n + 6" "(monday n + 6) mod 7 = 0"
proof -
  have "0 \<le> (n + 6) mod 7" "(n + 6) mod 7 < 7" by simp_all
  then show "monday n \<le> n" "n \<le> monday n + 6" unfolding monday_def by linarith+
  have "monday n + 6 = (n + 6) - (n + 6) mod 7" by (simp add: monday_def)
  then show "(monday n + 6) mod 7 = 0" by (simp add: minus_mod_eq_mult_div)
qed

lemma mondays_apart: "(a + 6) mod 7 = 0 \<Longrightarrow> (b + 6) mod 7 = 0 \<Longrightarrow> a < b \<Longrightarrow> a + 7 \<le> (b::int)"
  by presburger

section \<open>ISO years\<close>

lemma isoweek1monday_bounds:
  "(isoweek1monday y + 6) mod 7 = 0" "days_before_year y - 2 \<le> isoweek1monday y" "isoweek1monday y \<le> days_before_year y + 4"
proof -
  let ?f = "days_before_year y + 1"
  have first: "ymd2ord y 1 1 = ?f" by (simp add: ymd2ord_def days_before_month_def)
  have m: "?f - (?f + 6) mod 7 = monday ?f" by (simp add: monday_def)
  have eq: "isoweek1monday y = (if (?f + 6) mod 7 > 3 then monday ?f + 7 else monday ?f)"
    unfolding isoweek1monday_def first Let_def m ..
  show "(isoweek1monday y + 6) mod 7 = 0"
    using monday_bounds(3)[of ?f] unfolding eq by (simp split: if_split) presburger
  have "0 \<le> (?f + 6) mod 7" "(?f + 6) mod 7 < 7" by simp_all
  then show "days_before_year y - 2 \<le> isoweek1monday y" "isoweek1monday y \<le> days_before_year y + 4"
    unfolding eq monday_def by (auto split: if_split)
qed

lemma isoweek1monday_Suc: "isoweek1monday y + 364 \<le> isoweek1monday (y + 1)"
proof -
  have "isoweek1monday y + 357 < isoweek1monday (y + 1)"
    using isoweek1monday_bounds(2)[of "y + 1"] isoweek1monday_bounds(3)[of y] days_before_year_Suc[of y] by (simp split: if_splits)
  moreover have "(isoweek1monday y + 357 + 6) mod 7 = 0" using isoweek1monday_bounds(1)[of y] by presburger
  ultimately have "isoweek1monday y + 357 + 7 \<le> isoweek1monday (y + 1)"
    by (intro mondays_apart isoweek1monday_bounds(1))
  then show ?thesis by simp
qed

lemma isoweek1monday_mono: "y < z \<Longrightarrow> isoweek1monday y < isoweek1monday z"
proof (induction z rule: int_gr_induct)
  case base
  then show ?case using isoweek1monday_Suc[of y] by linarith
next
  case (step z)
  then show ?case using isoweek1monday_Suc[of z] by linarith
qed

lemma isoweek1monday_le: "y \<le> z \<Longrightarrow> isoweek1monday y \<le> isoweek1monday z"
  using isoweek1monday_mono[of y z] by (cases "y = z") simp_all

lemma year_of_bounds:
  assumes "1 \<le> n"
  shows "days_before_year (year_of n) < n" "n \<le> days_before_year (year_of n + 1)"
proof -
  obtain y m d where v: "valid_date y m d" "n = ymd2ord y m d" using date_exists[OF assms] by blast
  then have range: "days_before_year y < n \<and> n \<le> days_before_year (y + 1)" using valid_date_in_year by blast
  have "1 \<le> y" using v(1) by (simp add: valid_date_def)
  then have "year_of n = y" unfolding year_of_def using range year_estimate by (intro year_from_eq) blast+
  then show "days_before_year (year_of n) < n" "n \<le> days_before_year (year_of n + 1)" using range by simp_all
qed

text \<open>What \<open>isocalendar\<close> returns: the year whose weeks contain the Monday, and the number of weeks from its first Monday.\<close>

lemma isocalendar_monday:
  assumes n: "1 \<le> n" and iso: "isocalendar n = (y, w)"
  shows "monday n = isoweek1monday y + 7 * (w - 1) \<and> isoweek1monday y \<le> monday n \<and> monday n < isoweek1monday (y + 1)"
proof -
  let ?y = "year_of n"
  note year = year_of_bounds[OF n] and first = isoweek1monday_bounds
  have mon: "monday n = isoweek1monday z + 7 * ((n - isoweek1monday z) div 7)" for z
    by (rule monday_from[OF first(1)])
  consider (early) "n < isoweek1monday ?y" "y = ?y - 1" "w = (n - isoweek1monday (?y - 1)) div 7 + 1"
    | (late) "isoweek1monday (?y + 1) \<le> n" "y = ?y + 1" "w = 1"
    | (mid) "isoweek1monday ?y \<le> n" "n < isoweek1monday (?y + 1)" "y = ?y" "w = (n - isoweek1monday ?y) div 7 + 1"
  proof (cases "(n - isoweek1monday ?y) div 7 < 0")
    case True
    then have before: "n < isoweek1monday ?y" by (simp add: pos_imp_zdiv_neg_iff)
    have "(?y - 1, (n - isoweek1monday (?y - 1)) div 7 + 1) = (y, w)"
      using iso[unfolded isocalendar_def Let_def if_P[OF True]] .
    then have "y = ?y - 1" "w = (n - isoweek1monday (?y - 1)) div 7 + 1" by auto
    then show thesis by (rule early[OF before])
  next
    case False
    then have start: "isoweek1monday ?y \<le> n" by (simp add: pos_imp_zdiv_neg_iff)
    show thesis
    proof (cases "52 \<le> (n - isoweek1monday ?y) div 7 \<and> isoweek1monday (?y + 1) \<le> n")
      case True
      then show thesis using late iso False by (simp add: isocalendar_def Let_def)
    next
      case last: False
      have "n < isoweek1monday (?y + 1)"
      proof (cases "52 \<le> (n - isoweek1monday ?y) div 7")
        case True
        then show ?thesis using last by simp
      next
        case short: False
        then have "n - isoweek1monday ?y < 364" by linarith
        then show ?thesis using isoweek1monday_Suc[of ?y] by linarith
      qed
      note before = this
      have "(?y, (n - isoweek1monday ?y) div 7 + 1) = (y, w)"
        using iso[unfolded isocalendar_def Let_def if_not_P[OF False] if_not_P[OF last]] .
      then have "y = ?y" "w = (n - isoweek1monday ?y) div 7 + 1" by auto
      then show thesis by (rule mid[OF start before])
    qed
  qed
  then show ?thesis
  proof cases
    case early
    have "isoweek1monday (?y - 1) \<le> n"
      using isoweek1monday_Suc[of "?y - 1"] first(2)[of ?y] first(3)[of ?y] year(1) by simp
    then have "isoweek1monday (?y - 1) \<le> monday n" using mon[of "?y - 1"] by (simp add: pos_imp_zdiv_nonneg_iff)
    then show ?thesis unfolding early(2,3) using early(1) mon[of "?y - 1"] monday_bounds(1)[of n] by simp
  next
    case late
    have "n < isoweek1monday (?y + 1) + 7" using year(2) first(2)[of "?y + 1"] by linarith
    then have "(n - isoweek1monday (?y + 1)) div 7 = 0" using late(1) by simp
    then have "monday n = isoweek1monday (?y + 1)" using mon[of "?y + 1"] by simp
    then show ?thesis unfolding late(2,3) using isoweek1monday_mono[of "?y + 1" "?y + 1 + 1"] by simp
  next
    case mid
    then have "isoweek1monday ?y \<le> monday n" using mon[of ?y] by (simp add: pos_imp_zdiv_nonneg_iff)
    then show ?thesis unfolding mid(3,4) using mid(1,2) mon[of ?y] monday_bounds(1)[of n] by simp
  qed
qed

lemma same_iso_year:
  assumes "isoweek1monday y \<le> M" "M < isoweek1monday (y + 1)" "isoweek1monday z \<le> M" "M < isoweek1monday (z + 1)"
  shows "y = z"
  using assms isoweek1monday_le[of "y + 1" z] isoweek1monday_le[of "z + 1" y] by linarith

text \<open>The week of December 28 is the last one of its year.\<close>

lemma last_week:
  assumes "1 \<le> y"
  shows "isoweek1monday y + 7 * snd (isocalendar (ymd2ord y 12 28)) = isoweek1monday (y + 1)"
proof -
  let ?D = "ymd2ord y 12 28"
  have "days_before_month y 13 = days_before_month y 12 + 31"
    using days_before_month_Suc[of 12 y] by (simp add: days_in_month_def)
  then have D: "?D = days_before_year (y + 1) - 3" using year_days[of y] days_before_year_Suc[of y] by (simp add: ymd2ord_def split: if_splits)
  have "1 \<le> ?D" using D days_before_year_mono[of 2 "y + 1"] assms by (simp add: days_before_year_def)
  obtain z w where iso: "isocalendar ?D = (z, w)" by force
  note spec = isocalendar_monday[OF \<open>1 \<le> ?D\<close> iso]
  have next_year: "isoweek1monday (y + 1) = monday ?D + 7"
  proof -
    have "isoweek1monday (y + 1) > monday ?D" "isoweek1monday (y + 1) < monday ?D + 14"
      using isoweek1monday_bounds(2,3)[of "y + 1"] D monday_bounds(1,2)[of ?D] by linarith+
    moreover have "(monday ?D + 6) mod 7 = 0" "(isoweek1monday (y + 1) + 6) mod 7 = 0" by (rule monday_bounds isoweek1monday_bounds)+
    ultimately show ?thesis by presburger
  qed
  then have "isoweek1monday y \<le> monday ?D" "monday ?D < isoweek1monday (y + 1)" using isoweek1monday_Suc[of y] by linarith+
  then have "y = z" using same_iso_year spec by blast
  then show ?thesis using spec next_year iso by simp
qed

section \<open>Adjacent weeks\<close>

text \<open>Later weeks have later Mondays.\<close>

lemma week_order:
  assumes "1 \<le> m" "1 \<le> n"
  shows "isocalendar m < isocalendar n \<longleftrightarrow> monday m < monday n" "isocalendar m = isocalendar n \<longleftrightarrow> monday m = monday n"
proof -
  obtain y1 w1 y2 w2 where iso: "isocalendar m = (y1, w1)" "isocalendar n = (y2, w2)" by (metis surj_pair)
  note s1 = isocalendar_monday[OF assms(1) iso(1)] and s2 = isocalendar_monday[OF assms(2) iso(2)]
  have "y1 < y2 \<Longrightarrow> monday m < monday n" "y2 < y1 \<Longrightarrow> monday n < monday m"
    using s1 s2 isoweek1monday_le[of "y1 + 1" y2] isoweek1monday_le[of "y2 + 1" y1] by linarith+
  moreover have "y1 = y2 \<Longrightarrow> monday n - monday m = 7 * (w2 - w1)" using s1 s2 by simp
  ultimately show "isocalendar m < isocalendar n \<longleftrightarrow> monday m < monday n" "isocalendar m = isocalendar n \<longleftrightarrow> monday m = monday n"
    using iso by (cases y1 y2 rule: linorder_cases; auto)+
qed

lemma adjacent_later:
  assumes m: "1 \<le> m" "isocalendar m = (y1, w1)" and n: "1 \<le> n" "isocalendar n = (y2, w2)" and le: "monday m \<le> monday n"
  shows "(y1 = y2 \<and> w2 - w1 = 1) \<or> (y2 = y1 + 1 \<and> w2 = 1 \<and> w1 = snd (isocalendar (ymd2ord y1 12 28))) \<longleftrightarrow> monday n = monday m + 7"
proof -
  note s1 = isocalendar_monday[OF m] and s2 = isocalendar_monday[OF n]
  have "1 \<le> monday m" using monday_from[of 1 m] m(1) by (simp add: pos_imp_zdiv_nonneg_iff)
  moreover have "isoweek1monday 1 = 1" by code_simp
  ultimately have "1 \<le> y1" using s1 isoweek1monday_le[of "y1 + 1" 1] by linarith
  note last = last_week[OF this]
  show ?thesis
  proof (cases "y1 = y2")
    case True
    then show ?thesis using s1 s2 by auto
  next
    case False
    then have "y1 + 1 \<le> y2" using le s1 s2 isoweek1monday_le[of "y2 + 1" y1] by linarith
    have turn: "monday n = monday m + 7 \<longleftrightarrow> monday n = isoweek1monday (y1 + 1) \<and> monday m + 7 = isoweek1monday (y1 + 1)"
    proof
      assume gap: "monday n = monday m + 7"
      have "isoweek1monday (y1 + 1) \<le> monday n" using s2 isoweek1monday_le[OF \<open>y1 + 1 \<le> y2\<close>] by linarith
      moreover have "monday m + 7 \<le> isoweek1monday (y1 + 1)"
        using s1 by (intro mondays_apart monday_bounds isoweek1monday_bounds) blast
      ultimately show "monday n = isoweek1monday (y1 + 1) \<and> monday m + 7 = isoweek1monday (y1 + 1)" using gap by linarith
    qed simp
    have "monday n = isoweek1monday (y1 + 1) \<longleftrightarrow> y2 = y1 + 1 \<and> w2 = 1"
    proof
      assume "monday n = isoweek1monday (y1 + 1)"
      moreover from this have "y2 = y1 + 1"
        using s2 isoweek1monday_Suc[of "y1 + 1"] same_iso_year[of "y1 + 1" "monday n" y2] by linarith
      ultimately show "y2 = y1 + 1 \<and> w2 = 1" using s2 by simp
    qed (use s2 in simp)
    moreover have "monday m + 7 = isoweek1monday (y1 + 1) \<longleftrightarrow> w1 = snd (isocalendar (ymd2ord y1 12 28))"
      using s1 last by auto
    ultimately show ?thesis using turn False by blast
  qed
qed

text \<open>C28: the week arithmetic of the streaks is the calendar's.  For instants from the year 1 on, \<open>are_same_weeks\<close> holds exactly when
  their weeks begin on the same Monday and \<open>are_adjacent_weeks\<close> exactly when the Mondays are seven days apart, in either
  order and also when the ISO year changes between them (after 52 or 53 weeks).\<close>

theorem adjacent_weeks_are_seven_days_apart:
  assumes "1 \<le> t div DAY + EPOCH_ORDINAL" "1 \<le> u div DAY + EPOCH_ORDINAL"
  shows "(are_same_weeks t u \<longleftrightarrow> monday (t div DAY + EPOCH_ORDINAL) = monday (u div DAY + EPOCH_ORDINAL))
    \<and> (are_adjacent_weeks t u \<longleftrightarrow> \<bar>monday (t div DAY + EPOCH_ORDINAL) - monday (u div DAY + EPOCH_ORDINAL)\<bar> = 7)"
proof -
  let ?m = "t div DAY + EPOCH_ORDINAL" and ?n = "u div DAY + EPOCH_ORDINAL"
  obtain y1 w1 y2 w2 where iso: "isocalendar ?m = (y1, w1)" "isocalendar ?n = (y2, w2)" by (metis surj_pair)
  have "adjacent (isocalendar ?m) (isocalendar ?n) \<longleftrightarrow> \<bar>monday ?m - monday ?n\<bar> = 7"
  proof (cases "isocalendar ?m > isocalendar ?n")
    case True
    then have "monday ?n < monday ?m" using week_order(1)[OF assms(2,1)] by simp
    then show ?thesis
      using True adjacent_later[OF assms(2) iso(2) assms(1) iso(1)] by (auto simp: adjacent_def iso)
  next
    case False
    then have "monday ?m \<le> monday ?n" using week_order(1)[OF assms(2,1)] by (simp add: not_less)
    then show ?thesis
      using False adjacent_later[OF assms(1) iso(1) assms(2) iso(2)] by (auto simp: adjacent_def iso)
  qed
  then show ?thesis
    using week_order(2)[OF assms] by (simp add: are_adjacent_weeks_def are_same_weeks_def week_of_def)
qed

theorem adjacent_weeks_are_seven_days_apart_witness:
  "are_adjacent_weeks (seconds 1609372800) (seconds 1609718400) \<and> monday 737790 = 737787 \<and> monday 737794 = 737794"
proof -
  have days: "seconds 1609372800 div DAY + EPOCH_ORDINAL = 737790" "seconds 1609718400 div DAY + EPOCH_ORDINAL = 737794"
    by (simp_all add: seconds_def DAY_def EPOCH_ORDINAL_def)
  then show ?thesis
    using adjacent_weeks_are_seven_days_apart[of "seconds 1609372800" "seconds 1609718400"] by (simp add: monday_def)
qed

end
