(* ===== verification/Medals.thy ===== *)
theory Medals
  imports RoomScores RankPolicies "HOL-Library.AList"
begin

text \<open>
  Medals: the predicates and tables of \<open>app/achievements/\<close>, their registry (\<open>app/models/achievement.py\<close>,
  \<open>app/tasks/load_achievements.py\<close>), and the evaluation after a score (\<open>app/database/achievement.py\<close>,
  \<open>app/router/v2/me.py\<close>).

  The state \<open>medal_db\<close> holds the tables a predicate reads: the ranking tables with the statistics rows, the scores
  with the checksum they were set on, the beatmaps, the streaks of the daily challenge.  Outside the code are the difficulty
  calculator (\<open>me_stars\<close>, which may raise), what pydantic accepts for a setting (\<open>me_accepts\<close>) and the order in which the
  directory lists the modules.  Descriptions and image addresses of medals are left out.
\<close>

section \<open>State\<close>

record medal_score =
  ms_play :: play
  map_md5 :: string

record medal_map =
  mb_row :: difficulty
  hit_length :: int
  mb_total_length :: int
  mb_max_combo :: "int option"
  mb_title :: string
  mb_artist :: string
  mb_creator :: string
  mb_ranked_date :: "time option"

record user_achievement =
  ua_user :: int
  ua_medal :: int
  ua_at :: time

record unlock_event =
  ue_user :: int
  ue_username :: string
  ue_slug :: string
  ue_name :: string
  ue_at :: time

record unlock_notice =
  un_user :: int
  un_medal :: int
  un_slug :: string
  un_title :: string
  un_mode :: string

record medal_db =
  rankings :: ranking_db
  medal_scores :: "medal_score list"
  medal_maps :: "medal_map list"
  challenge_stats :: "daily_row list"
  medal_users :: "(int \<times> string) list"
  user_achievements :: "user_achievement list"
  unlock_events :: "unlock_event list"
  unlock_notices :: "unlock_notice list"

record medal_env =
  me_config :: game_config
  me_accepts :: "setting_rule \<Rightarrow> setting_value \<Rightarrow> bool"
  me_can_calculate :: "game_mode \<Rightarrow> bool"
  me_stars :: "int \<Rightarrow> game_mode \<Rightarrow> api_mod list \<Rightarrow> string \<Rightarrow> error + real"

record achievement =
  ach_id :: int
  ach_name :: string
  assets_id :: string
  clientside :: bool

abbreviation medal :: "int \<Rightarrow> string \<Rightarrow> string \<Rightarrow> bool \<Rightarrow> achievement" where
  "medal i name slug client \<equiv> \<lparr>ach_id = i, ach_name = name, assets_id = slug, clientside = client\<rparr>"

type_synonym medal_check = "medal_env \<Rightarrow> medal_db \<Rightarrow> medal_score \<Rightarrow> medal_map \<Rightarrow> error + bool"

type_synonym medals = "(achievement \<times> medal_check option) list"

abbreviation ms_data :: "medal_score \<Rightarrow> score_data" where
  "ms_data m \<equiv> pl_data (ms_play m)"

abbreviation ms_mods :: "medal_score \<Rightarrow> string list" where
  "ms_mods m \<equiv> mod_to_save (sd_mods (ms_data m))"

section \<open>What the predicates share\<close>

fun contains_text :: "string \<Rightarrow> string \<Rightarrow> bool" where
  "contains_text sub [] = (sub = [])"
| "contains_text sub (c # cs) = (starts_with sub (c # cs) \<or> contains_text sub cs)"

text \<open>\<open>str(round(x, ndigits=4))\<close> of a number that is not negative, from the number of ten-thousandths.\<close>

definition four_digits :: "int \<Rightarrow> string" where
  "four_digits n =
     (let ds = map (\<lambda>k. digit_char (nat (n div k mod 10))) [1000, 100, 10, 1];
          kept = rev (dropWhile (\<lambda>c. c = CHR ''0'') (rev ds))
      in int_str (n div 10000) @ ''.'' @ (if kept = [] then ''0'' else kept))"

definition perfect_rank :: "medal_score \<Rightarrow> bool" where
  "perfect_rank m \<longleftrightarrow> pl_rank (ms_play m) = Rank_X \<or> pl_rank (ms_play m) = Rank_XH"

definition policy_of :: "medal_db \<Rightarrow> medal_map \<Rightarrow> effective_policy" where
  "policy_of s bm = effective_beatmap_policy (rankings s) (mb_row bm)"

definition statistics_of :: "medal_db \<Rightarrow> game_mode \<Rightarrow> int \<Rightarrow> user_statistics option" where
  "statistics_of s g uid = find (\<lambda>u. us_mode u = g \<and> us_user u = uid) (statistics_rows (score_tables (rankings s)))"

definition is_perfect_combo :: "medal_score \<Rightarrow> medal_map \<Rightarrow> bool" where
  "is_perfect_combo m bm \<longleftrightarrow> Some (pl_max_combo (ms_play m)) = mb_max_combo bm"

text \<open>\<open>_calculate_attributes\<close>: the stars of the submitted revision, or \<open>None\<close> without a calculator for the mode.\<close>

definition calculate_attributes :: "medal_env \<Rightarrow> medal_score \<Rightarrow> medal_map \<Rightarrow> error + real option" where
  "calculate_attributes env m bm =
     (if \<not> me_can_calculate env (sd_mode (ms_data m)) then Inr None
      else andthen (me_stars env (df_id (mb_row bm)) (sd_mode (ms_data m)) (sd_mods (ms_data m)) (map_md5 m)) (\<lambda>x. Inr (Some x)))"

definition stars_at_least :: "real \<Rightarrow> medal_env \<Rightarrow> medal_score \<Rightarrow> medal_map \<Rightarrow> error + bool" where
  "stars_at_least bound env m bm =
     andthen (calculate_attributes env m bm) (\<lambda>attribute. Inr (case attribute of None \<Rightarrow> False | Some x \<Rightarrow> bound \<le> x))"

text \<open>The types of \<open>static/mods.json\<close>, per ruleset.\<close>

definition MOD_TYPES :: "(int \<times> (string \<times> string list) list) list" where
  "MOD_TYPES =
    [(0, [(''DifficultyReduction'', [''EZ'', ''NF'', ''HT'', ''DC'']),
       (''DifficultyIncrease'', [''HR'', ''SD'', ''PF'', ''DT'', ''NC'', ''HD'', ''TC'', ''FL'', ''BL'', ''ST'', ''AC'']),
       (''Conversion'', [''TP'', ''DA'', ''CL'', ''RD'', ''MR'', ''AL'', ''SG'']),
       (''Automation'', [''AT'', ''CN'', ''RX'', ''AP'', ''SO'']),
       (''Fun'', [''TR'', ''WG'', ''SI'', ''GR'', ''DF'', ''WU'', ''WD'', ''BR'', ''AD'', ''MU'', ''NS'', ''MG'', ''RP'', ''AS'', ''FR'', ''BU'', ''SY'', ''DP'', ''BM'']),
       (''System'', [''TD'', ''SV2''])]),
     (1, [(''DifficultyReduction'', [''EZ'', ''NF'', ''HT'', ''DC'', ''SR'']),
       (''DifficultyIncrease'', [''HR'', ''SD'', ''PF'', ''DT'', ''NC'', ''HD'', ''FL'', ''AC'']),
       (''Conversion'', [''RD'', ''DA'', ''CL'', ''SW'', ''SG'', ''CS'']),
       (''Automation'', [''AT'', ''CN'', ''RX'']),
       (''Fun'', [''WU'', ''WD'', ''MU'', ''AS'']),
       (''System'', [''SV2''])]),
     (2, [(''DifficultyReduction'', [''EZ'', ''NF'', ''HT'', ''DC'']),
       (''DifficultyIncrease'', [''HR'', ''SD'', ''PF'', ''DT'', ''NC'', ''HD'', ''FL'', ''AC'']),
       (''Conversion'', [''DA'', ''CL'', ''MR'']),
       (''Automation'', [''AT'', ''CN'', ''RX'']),
       (''Fun'', [''WU'', ''WD'', ''FF'', ''MU'', ''NS'', ''MF'', ''SY'']),
       (''System'', [''SV2''])]),
     (3, [(''DifficultyReduction'', [''EZ'', ''NF'', ''HT'', ''DC'', ''NR'']),
       (''DifficultyIncrease'', [''HR'', ''SD'', ''PF'', ''DT'', ''NC'', ''FI'', ''HD'', ''CO'', ''FL'', ''AC'']),
       (''Conversion'', [''RD'', ''DS'', ''MR'', ''DA'', ''CL'', ''IN'', ''CS'', ''HO'', ''1K'', ''2K'', ''3K'', ''4K'', ''5K'', ''6K'', ''7K'', ''8K'', ''9K'', ''10K'']),
       (''Automation'', [''AT'', ''CN'']),
       (''Fun'', [''WU'', ''WD'', ''MU'', ''AS'']),
       (''System'', [''SV2''])]),
     (10, [(''DifficultyReduction'', [''HT'', ''DC'']),
       (''DifficultyIncrease'', [''HR'', ''SD'', ''PF'', ''C'', ''AC'', ''DT'', ''NC'', ''HD'']),
       (''Conversion'', [''Ex'', ''CL'', ''MR'', ''DA'']),
       (''Automation'', [''AT'', ''NT'']),
       (''Fun'', [''WU'', ''WD'', ''BR'', ''MU'', ''AS'', ''SY'']),
       (''System'', [''TD''])]),
     (11, [(''DifficultyReduction'', [''EZ'', ''NF'', ''HT'', ''DC'', ''LN'']),
       (''DifficultyIncrease'', [''HR'', ''SD'', ''PF'', ''DT'', ''NC'', ''FO'', ''FI'', ''FL'', ''ST'']),
       (''Conversion'', [''DA'', ''LT'']),
       (''Automation'', [''AT'', ''CN'', ''RX'', ''AP'']),
       (''Fun'', [''WU'', ''WD'', ''AS'', ''IS'', ''RB'', ''NS'', ''TC'', ''DL'', ''BR''])]),
     (12, [(''DifficultyReduction'', [''NF'', ''HT'', ''DC'']),
       (''DifficultyIncrease'', [''SD'', ''PF'', ''DT'', ''NC'', ''FL'']),
       (''Automation'', [''AT'', ''CN'']),
       (''Fun'', [''WU'', ''WD''])]),
     (13, [(''DifficultyReduction'', [''HT'', ''DC'', ''NF'']),
       (''DifficultyIncrease'', [''HR'', ''SD'', ''DT'', ''NC'', ''HD'']),
       (''Conversion'', [''TW'', ''UW'', ''IN'']),
       (''Automation'', [''AT'']),
       (''Fun'', [''WU'', ''WD''])]),
     (14, [(''DifficultyReduction'', [''EZ'', ''NF'', ''HT'', ''DC'', ''ST'']),
       (''DifficultyIncrease'', [''HR'', ''SD'', ''PF'', ''DT'', ''NC'', ''HD'']),
       (''Conversion'', [''RD'', ''DA'']),
       (''Automation'', [''AT'', ''CN'']),
       (''Fun'', [''WU'', ''WD'', ''HO''])])]"

definition mods_of_type :: "int \<Rightarrow> string \<Rightarrow> error + string list" where
  "mods_of_type r kind =
     (case map_of MOD_TYPES r of
        None \<Rightarrow> Inl KeyErr
      | Some kinds \<Rightarrow> Inr (case map_of kinds kind of None \<Rightarrow> [] | Some acronyms \<Rightarrow> acronyms))"

section \<open>Families with a parameter\<close>

definition in_band :: "int \<Rightarrow> int \<Rightarrow> int \<Rightarrow> bool" where
  "in_band low next_low x \<longleftrightarrow> (low \<le> x \<and> x < next_low) \<or> (next_low = 0 \<and> low \<le> x)"

definition bad_band :: "int \<Rightarrow> int \<Rightarrow> bool" where
  "bad_band low next_low \<longleftrightarrow> low < 1 \<or> (next_low \<noteq> 0 \<and> next_low \<le> low)"

definition process_streak :: "int \<Rightarrow> int \<Rightarrow> medal_check" where
  "process_streak streak next_streak env s m bm = Inr
     (if \<not> sd_passed (ms_data m) \<or> bad_band streak next_streak then False
      else case get_row dc_user (pl_user (ms_play m)) (challenge_stats s) of
             None \<Rightarrow> False
           | Some d \<Rightarrow> in_band streak next_streak (daily_streak_best d))"

definition process_combo :: "int \<Rightarrow> int \<Rightarrow> medal_check" where
  "process_combo combo next_combo env s m bm = Inr
     (if \<not> sd_passed (ms_data m) \<or> \<not> pl_ranked (ms_play m) \<or> \<not> ep_pp (policy_of s bm) \<or> sd_mode (ms_data m) \<noteq> OSU
         \<or> bad_band combo next_combo then False
      else in_band combo next_combo (pl_max_combo (ms_play m)))"

definition process_playcount :: "int \<Rightarrow> int \<Rightarrow> medal_check" where
  "process_playcount pc next_pc env s m bm = Inr
     (if bad_band pc next_pc \<or> sd_mode (ms_data m) \<noteq> OSU then False
      else case statistics_of s OSU (pl_user (ms_play m)) of
             None \<Rightarrow> False
           | Some u \<Rightarrow> in_band pc next_pc (play_count u))"

text \<open>The last band of the total hits looks at the play count.\<close>

definition process_tth :: "int \<Rightarrow> int \<Rightarrow> game_mode \<Rightarrow> medal_check" where
  "process_tth tth next_tth g env s m bm = Inr
     (if bad_band tth next_tth \<or> sd_mode (ms_data m) \<noteq> g then False
      else case statistics_of s (sd_mode (ms_data m)) (pl_user (ms_play m)) of
             None \<Rightarrow> False
           | Some u \<Rightarrow> (tth \<le> total_hits u \<and> total_hits u < next_tth) \<or> (next_tth = 0 \<and> tth \<le> play_count u))"

definition process_mod :: "string \<Rightarrow> medal_check" where
  "process_mod acr env s m bm = Inr
     (if \<not> sd_passed (ms_data m) \<or> \<not> pl_leaderboard_eligible (ms_play m) \<or> \<not> ep_leaderboard (policy_of s bm) then False
      else case sd_mods (ms_data m) of [x] \<Rightarrow> acronym x = acr | _ \<Rightarrow> False)"

definition process_category_mod :: "string \<Rightarrow> medal_check" where
  "process_category_mod kind env s m bm =
     (if \<not> sd_passed (ms_data m) \<or> \<not> pl_leaderboard_eligible (ms_play m) \<or> \<not> ep_leaderboard (policy_of s bm)
         \<or> sd_mods (ms_data m) = [] then Inr False
      else andthen (mods_of_type (mode_int (sd_mode (ms_data m))) kind) (\<lambda>api_mods.
        Inr (list_all (\<lambda>x. acronym x \<in> set api_mods) (sd_mods (ms_data m)))))"

datatype skill_kind = PASS | FC

definition process_skill :: "game_mode \<Rightarrow> int \<Rightarrow> skill_kind \<Rightarrow> medal_check" where
  "process_skill target star kind env s m bm =
     (let mods = sd_mods (ms_data m); ruleset = mode_int (sd_mode (ms_data m)) in
      if target \<noteq> sd_mode (ms_data m) \<or> \<not> sd_passed (ms_data m) \<or> \<not> pl_ranked (ms_play m) \<or> \<not> ep_pp (policy_of s bm)
         \<or> \<not> mods_can_get_pp_vanilla (me_config env) (me_accepts env) ruleset mods then Inr False
      else andthen (mods_of_type ruleset ''DifficultyReduction'') (\<lambda>reducing.
        if list_ex (\<lambda>x. acronym x \<in> set reducing) mods then Inr False
        else andthen (me_stars env (df_id (mb_row bm)) (sd_mode (ms_data m)) (sort_key acronym mods) (map_md5 m)) (\<lambda>x.
          Inr (of_int star \<le> x \<and> x < of_int star + 1 \<and> \<not> (kind = FC \<and> \<not> is_perfect_combo m bm)))))"

section \<open>Secret medals\<close>

definition jackpot :: medal_check where
  "jackpot env s m bm = Inr
     (let text = int_str (sd_total_score (ms_data m)) in
      sd_passed (ms_data m) \<and> 100000 < sd_total_score (ms_data m) \<and> list_all (\<lambda>d. d = hd text) text)"

definition nonstop :: medal_check where
  "nonstop env s m bm = Inr (perfect_rank m \<and> 521 < hit_length bm)"

definition time_dilation :: medal_check where
  "time_dilation env s m bm =
     (if \<not> sd_passed (ms_data m) \<or> ''NF'' \<in> set (ms_mods m) \<or> ''DT'' \<notin> set (ms_mods m) \<and> ''NC'' \<notin> set (ms_mods m)
      then Inr False
      else andthen (get_speed_rate (sd_mods (ms_data m))) (\<lambda>rate. Inr (480 < of_int (hit_length bm) / rate)))"

definition to_the_core :: medal_check where
  "to_the_core env s m bm = Inr
     (if \<not> sd_passed (ms_data m) then False
      else if \<not> contains_text ''Nightcore'' (mb_title bm) \<and> \<not> contains_text ''Nightcore'' (mb_artist bm) then False
      else \<not> (''DT'' \<notin> set (ms_mods m) \<or> ''NC'' \<notin> set (ms_mods m)))"

definition wysi :: medal_check where
  "wysi env s m bm = Inr
     (if \<not> sd_passed (ms_data m) then False
      else if drop 3 (four_digits (py_round (sd_accuracy (ms_data m) * 10000))) \<noteq> ''727'' then False
      else contains_text ''xi'' (mb_artist bm))"

definition prepared :: medal_check where
  "prepared env s m bm = Inr (perfect_rank m \<and> ''NF'' \<in> set (ms_mods m))"

definition reckless_adandon :: medal_check where
  "reckless_adandon env s m bm =
     (if \<not> perfect_rank m \<or> ''HR'' \<notin> set (ms_mods m) \<or> ''SD'' \<notin> set (ms_mods m) then Inr False
      else stars_at_least 3 env m bm)"

definition lights_out :: medal_check where
  "lights_out env s m bm = Inr (sd_passed (ms_data m) \<and> ''FL'' \<in> set (ms_mods m) \<and> ''NC'' \<in> set (ms_mods m))"

definition camera_shy :: medal_check where
  "camera_shy env s m bm = Inr (perfect_rank m \<and> ''HD'' \<in> set (ms_mods m) \<and> ''NF'' \<in> set (ms_mods m))"

definition the_sun_of_all_fears :: medal_check where
  "the_sun_of_all_fears env s m bm = Inr
     (sd_passed (ms_data m) \<and> pl_max_combo (ms_play m) = (case mb_max_combo bm of None \<Rightarrow> 0 | Some n \<Rightarrow> n) - 1)"

definition hour_before_the_down :: medal_check where
  "hour_before_the_down env s m bm = Inr (perfect_rank m \<and> mb_artist bm = ''ginkiha'' \<and> mb_title bm = ''EOS'')"

definition slow_and_steady :: medal_check where
  "slow_and_steady env s m bm =
     (if \<not> perfect_rank m \<or> ''HT'' \<notin> set (ms_mods m) \<or> ''PF'' \<notin> set (ms_mods m) then Inr False
      else stars_at_least 3 env m bm)"

definition no_time_to_spare :: medal_check where
  "no_time_to_spare env s m bm =
     (if \<not> perfect_rank m \<or> ''DT'' \<notin> set (ms_mods m) \<and> ''NC'' \<notin> set (ms_mods m) then Inr False
      else andthen (get_speed_rate (sd_mods (ms_data m))) (\<lambda>rate. Inr (of_int (mb_total_length bm) / rate \<le> 30)))"

definition sognare :: medal_check where
  "sognare env s m bm = Inr
     (sd_passed (ms_data m) \<and> ''HT'' \<in> set (ms_mods m) \<and> mb_artist bm = ''LeaF'' \<and> mb_title bm = ''Evanescent'')"

definition realtor_extraordinaire :: medal_check where
  "realtor_extraordinaire env s m bm = Inr
     (perfect_rank m \<and> (''DT'' \<in> set (ms_mods m) \<or> ''NC'' \<in> set (ms_mods m)) \<and> ''HR'' \<in> set (ms_mods m)
      \<and> mb_artist bm = ''cYsmix'' \<and> mb_title bm = ''House With Legs'')"

definition impeccable :: medal_check where
  "impeccable env s m bm =
     (if \<not> sd_passed (ms_data m) \<or> \<not> (''DT'' \<in> set (ms_mods m) \<or> ''NC'' \<in> set (ms_mods m)) \<or> ''PF'' \<notin> set (ms_mods m) then Inr False
      else stars_at_least 4 env m bm)"

text \<open>The first of January 2012.\<close>

definition START_2012 :: time where
  "START_2012 = 15340 * DAY"

definition aeon :: medal_check where
  "aeon env s m bm =
     (if \<not> sd_passed (ms_data m) \<or> ''FL'' \<notin> set (ms_mods m) \<or> ''HD'' \<notin> set (ms_mods m) \<or> ''HT'' \<notin> set (ms_mods m) then Inr False
      else if (case mb_ranked_date bm of None \<Rightarrow> True | Some d \<Rightarrow> START_2012 < d) then Inr False
      else if mb_total_length bm < 180 then Inr False
      else stars_at_least 4 env m bm)"

definition quick_maths :: medal_check where
  "quick_maths env s m bm = Inr
     (nmiss (ms_data m) = Some 34 \<and> mb_artist bm = ''Function Phantom'' \<and> mb_title bm = ''Variable'')"

definition kaleidoscope :: medal_check where
  "kaleidoscope env s m bm = Inr
     (sd_passed (ms_data m) \<and> ''EZ'' \<in> set (ms_mods m) \<and> ''HT'' \<in> set (ms_mods m)
      \<and> df_id (mb_row bm) = 2022237 \<and> 8 / 10 \<le> sd_accuracy (ms_data m))"

definition valediction :: medal_check where
  "valediction env s m bm = Inr
     (sd_passed (ms_data m) \<and> mb_artist bm = ''a_hisa''
      \<and> mb_title bm = ''Alexithymia | Lupinus | Tokei no Heya to Seishin Sekai'' \<and> 9 / 10 \<le> sd_accuracy (ms_data m))"

definition right_on_time :: medal_check where
  "right_on_time env s m bm = Inr
     (sd_passed (ms_data m) \<and> mb_artist bm = ''Kola Kid'' \<and> mb_title bm = ''timer''
      \<and> pl_ended (ms_play m) div seconds 60 mod 60 = 0)"

definition not_again :: medal_check where
  "not_again env s m bm = Inr
     (sd_passed (ms_data m) \<and> nmiss (ms_data m) = Some 1 \<and> 99 / 100 \<le> sd_accuracy (ms_data m)
      \<and> mb_artist bm = ''ARForest'' \<and> mb_title bm = ''Regret'')"

definition deliberation :: medal_check where
  "deliberation env s m bm =
     (let policy = policy_of s bm;
          eligible_for_medal = pl_ranked (ms_play m) \<or> (pl_leaderboard_eligible (ms_play m) \<and> ep_status policy = LOVED) in
      if \<not> perfect_rank m \<or> ''HT'' \<notin> set (ms_mods m) \<or> \<not> eligible_for_medal \<or> (\<not> ep_pp policy \<and> ep_status policy \<noteq> LOVED)
      then Inr False
      else stars_at_least 6 env m bm)"

definition clarity :: medal_check where
  "clarity env s m bm = Inr (sd_passed (ms_data m) \<and> df_set (mb_row bm) = 582089)"

definition autocreation :: medal_check where
  "autocreation env s m bm = Inr (sd_passed (ms_data m) \<and> mb_creator bm = mb_artist bm)"

definition value_your_identity :: medal_check where
  "value_your_identity env s m bm = Inr
     (let last_3_digits = (if pl_user (ms_play m) mod 1000 = 0 then 1000 else pl_user (ms_play m) mod 1000) in
      sd_passed (ms_data m) \<and> pl_max_combo (ms_play m) = last_3_digits)"

text \<open>The first Accuracy Challenge with a number as its accuracy decides.\<close>

definition by_the_skin_of_the_teeth :: medal_check where
  "by_the_skin_of_the_teeth env s m bm = Inr
     (if \<not> sd_passed (ms_data m) \<or> ''AC'' \<notin> set (ms_mods m) then False
      else case List.map_filter (\<lambda>x. if acronym x = ''AC'' then Option.bind (map_of (settings x) ''minimum_accuracy'') num_of else None)
                  (sd_mods (ms_data m)) of
             [] \<Rightarrow> False
           | target # rest \<Rightarrow> \<bar>sd_accuracy (ms_data m) - target\<bar> < 1 / 10000)"

definition meticulous_mayhem :: medal_check where
  "meticulous_mayhem env s m bm = Inr (sd_passed (ms_data m) \<and> 15 \<le> length (sd_mods (ms_data m)))"

section \<open>The tables\<close>

definition CLIENTSIDE_MEDALS :: medals where
  "CLIENTSIDE_MEDALS =
    [(medal 353 ''Hotshot'' ''all-secret-hotshot'' True, None),
     (medal 354 ''Cyclone'' ''osu-skill-cyclone'' True, None),
     (medal 355 ''Hamster Wheel'' ''all-secret-hamsterwheel'' True, None),
     (medal 356 ''Courier Catapult'' ''all-secret-couriercatapult'' True, None)]"

definition STREAK_MEDALS :: medals where
  "STREAK_MEDALS =
    [(medal 336 ''Daily Sprout'' ''all-skill-dc-1'' False, Some (process_streak 1 7)),
     (medal 337 ''Weekly Sapling'' ''all-skill-dc-7'' False, Some (process_streak 7 30)),
     (medal 338 ''Monthly Shrub'' ''all-skill-dc-30'' False, Some (process_streak 30 0))]"

definition HUSH_HUSH_MEDALS :: medals where
  "HUSH_HUSH_MEDALS =
    [(medal 41 ''Jackpot'' ''all-secret-jackpot'' False, Some jackpot),
     (medal 44 ''Nonstop'' ''all-secret-nonstop'' False, Some nonstop),
     (medal 134 ''Time Dilation'' ''all-secret-tidi'' False, Some time_dilation),
     (medal 137 ''To The Core'' ''all-secret-tothecore'' False, Some to_the_core),
     (medal 287 ''When You See It'' ''all-secret-when-you-see-it'' False, Some wysi),
     (medal 138 ''Prepared'' ''all-secret-prepared'' False, Some prepared),
     (medal 140 ''Reckless Abandon'' ''all-secret-reckless'' False, Some reckless_adandon),
     (medal 144 ''Lights Out'' ''all-secret-lightsout'' False, Some lights_out),
     (medal 147 ''Camera Shy'' ''all-secret-uguushy'' False, Some camera_shy),
     (medal 148 ''The Sun of All Fears'' ''all-secret-nuked'' False, Some the_sun_of_all_fears),
     (medal 150 ''Hour Before The Down'' ''all-secret-hourbeforethedawn'' False, Some hour_before_the_down),
     (medal 151 ''Slow And Steady'' ''all-secret-slowandsteady'' False, Some slow_and_steady),
     (medal 152 ''No Time To Spare'' ''all-secret-ntts'' False, Some no_time_to_spare),
     (medal 153 ''Sognare'' ''all-secret-sognare'' False, Some sognare),
     (medal 154 ''Realtor Extraordinaire'' ''all-secret-realtor'' False, Some realtor_extraordinaire),
     (medal 160 ''Impeccable'' ''all-secret-impeccable'' False, Some impeccable),
     (medal 199 ''Aeon'' ''all-secret-aeon'' False, Some aeon),
     (medal 202 ''Quick Maths'' ''all-secret-quickmaffs'' False, Some quick_maths),
     (medal 223 ''Kaleidoscope'' ''all-secret-kaleidoscope'' False, Some kaleidoscope),
     (medal 225 ''Valediction'' ''all-secret-valediction'' False, Some valediction),
     (medal 273 ''Right On Time'' ''all-secret-rightontime'' False, Some right_on_time),
     (medal 279 ''Not Again'' ''all-secret-notagain'' False, Some not_again),
     (medal 285 ''Deliberation'' ''all-secret-deliberation'' False, Some deliberation),
     (medal 318 ''Clarity'' ''all-secret-clarity'' False, Some clarity),
     (medal 319 ''Autocreation'' ''all-secret-autocreation'' False, Some autocreation),
     (medal 328 ''Value Your Identity'' ''all-secret-identity'' False, Some value_your_identity),
     (medal 346 ''By The Skin Of The Teeth'' ''all-secret-skinoftheteeth'' False, Some by_the_skin_of_the_teeth),
     (medal 349 ''Meticulous Mayhem'' ''all-secret-meticulousmayhem'' False, Some meticulous_mayhem)]"

definition INTRO_MEDALS :: medals where
  "INTRO_MEDALS =
    [(medal 119 ''Finality'' ''all-intro-suddendeath'' False, Some (process_mod ''SD'')),
     (medal 120 ''Perfectionist'' ''all-intro-perfect'' False, Some (process_mod ''PF'')),
     (medal 121 ''Rock Around The Clock'' ''all-intro-hardrock'' False, Some (process_mod ''HR'')),
     (medal 122 ''Time And A Half'' ''all-intro-doubletime'' False, Some (process_mod ''DT'')),
     (medal 123 ''Sweet Rave Party'' ''all-intro-nightcore'' False, Some (process_mod ''NC'')),
     (medal 124 ''Blindsight'' ''all-intro-hidden'' False, Some (process_mod ''HD'')),
     (medal 125 ''Are You Afraid Of The Dark?'' ''all-intro-flashlight'' False, Some (process_mod ''FL'')),
     (medal 126 ''Dial It Right Back'' ''all-intro-easy'' False, Some (process_mod ''EZ'')),
     (medal 127 ''Risk Averse'' ''all-intro-nofail'' False, Some (process_mod ''NF'')),
     (medal 128 ''Slowboat'' ''all-intro-halftime'' False, Some (process_mod ''HT'')),
     (medal 131 ''Burned Out'' ''all-intro-spunout'' False, Some (process_mod ''SO'')),
     (medal 339 ''Gear Shift'' ''all-intro-conversion'' False, Some (process_category_mod ''Conversion'')),
     (medal 340 ''Game Night'' ''all-intro-fun'' False, Some (process_category_mod ''Fun''))]"

definition COMBO_MEDALS :: medals where
  "COMBO_MEDALS =
    [(medal 1 ''500 Combo'' ''osu-combo-500'' False, Some (process_combo 500 750)),
     (medal 3 ''750 Combo'' ''osu-combo-750'' False, Some (process_combo 750 1000)),
     (medal 4 ''1000 Combo'' ''osu-combo-1000'' False, Some (process_combo 1000 2000)),
     (medal 5 ''2000 Combo'' ''osu-combo-2000'' False, Some (process_combo 2000 0))]"

definition PLAYCOUNT_MEDALS :: medals where
  "PLAYCOUNT_MEDALS =
    [(medal 20 ''5,000 Plays'' ''osu-plays-5000'' False, Some (process_playcount 5000 15000)),
     (medal 21 ''15,000 Plays'' ''osu-plays-15000'' False, Some (process_playcount 15000 25000)),
     (medal 22 ''25,000 Plays'' ''osu-plays-25000'' False, Some (process_playcount 25000 50000)),
     (medal 28 ''50,000 Plays'' ''osu-plays-50000'' False, Some (process_playcount 50000 0))]"

definition TOTAL_HITS_MEDALS :: medals where
  "TOTAL_HITS_MEDALS =
    [(medal 31 ''30,000 Drum Hits'' ''taiko-hits-30000'' False, Some (process_tth 30000 300000 TAIKO)),
     (medal 32 ''300,000 Drum Hits'' ''taiko-hits-300000'' False, Some (process_tth 300000 3000000 TAIKO)),
     (medal 33 ''3,000,000 Drum Hits'' ''taiko-hits-3000000'' False, Some (process_tth 3000000 30000000 TAIKO)),
     (medal 291 ''30,000,000 Drum Hits'' ''taiko-hits-30000000'' False, Some (process_tth 30000000 0 TAIKO)),
     (medal 13 ''Catch 20,000 fruits'' ''fruits-hits-20000'' False, Some (process_tth 20000 200000 FRUITS)),
     (medal 23 ''Catch 200,000 fruits'' ''fruits-hits-200000'' False, Some (process_tth 200000 2000000 FRUITS)),
     (medal 24 ''Catch 2,000,000 fruits'' ''fruits-hits-2000000'' False, Some (process_tth 2000000 20000000 FRUITS)),
     (medal 292 ''Catch 20,000,000 fruits'' ''fruits-hits-20000000'' False, Some (process_tth 20000000 0 FRUITS)),
     (medal 46 ''40,000 Keys'' ''mania-hits-40000'' False, Some (process_tth 40000 400000 MANIA)),
     (medal 47 ''400,000 Keys'' ''mania-hits-400000'' False, Some (process_tth 400000 4000000 MANIA)),
     (medal 48 ''4,000,000 Keys'' ''mania-hits-4000000'' False, Some (process_tth 4000000 40000000 MANIA)),
     (medal 293 ''40,000,000 Keys'' ''mania-hits-40000000'' False, Some (process_tth 40000000 0 MANIA))]"

definition SKILL_OSU_MEDALS :: medals where
  "SKILL_OSU_MEDALS =
    [(medal 55 ''Rising Star'' ''osu-skill-pass-1'' False, Some (process_skill OSU 1 PASS)),
     (medal 56 ''Constellation Prize'' ''osu-skill-pass-2'' False, Some (process_skill OSU 2 PASS)),
     (medal 57 ''Building Confidence'' ''osu-skill-pass-3'' False, Some (process_skill OSU 3 PASS)),
     (medal 58 ''Insanity Approaches'' ''osu-skill-pass-4'' False, Some (process_skill OSU 4 PASS)),
     (medal 59 ''These Clarion Skies'' ''osu-skill-pass-5'' False, Some (process_skill OSU 5 PASS)),
     (medal 60 ''Above and Beyond'' ''osu-skill-pass-6'' False, Some (process_skill OSU 6 PASS)),
     (medal 61 ''Supremacy'' ''osu-skill-pass-7'' False, Some (process_skill OSU 7 PASS)),
     (medal 62 ''Absolution'' ''osu-skill-pass-8'' False, Some (process_skill OSU 8 PASS)),
     (medal 242 ''Event Horizon'' ''osu-skill-pass-9'' False, Some (process_skill OSU 9 PASS)),
     (medal 244 ''Phantasm'' ''osu-skill-pass-10'' False, Some (process_skill OSU 10 PASS)),
     (medal 63 ''Totality'' ''osu-skill-fc-1'' False, Some (process_skill OSU 1 FC)),
     (medal 64 ''Business As Usual'' ''osu-skill-fc-2'' False, Some (process_skill OSU 2 FC)),
     (medal 65 ''Building Steam'' ''osu-skill-fc-3'' False, Some (process_skill OSU 3 FC)),
     (medal 66 ''Moving Forward'' ''osu-skill-fc-4'' False, Some (process_skill OSU 4 FC)),
     (medal 67 ''Paradigm Shift'' ''osu-skill-fc-5'' False, Some (process_skill OSU 5 FC)),
     (medal 68 ''Anguish Quelled'' ''osu-skill-fc-6'' False, Some (process_skill OSU 6 FC)),
     (medal 69 ''Never Give Up'' ''osu-skill-fc-7'' False, Some (process_skill OSU 7 FC)),
     (medal 70 ''Aberration'' ''osu-skill-fc-8'' False, Some (process_skill OSU 8 FC)),
     (medal 243 ''Chosen'' ''osu-skill-fc-9'' False, Some (process_skill OSU 9 FC)),
     (medal 245 ''Unfathomable'' ''osu-skill-fc-10'' False, Some (process_skill OSU 10 FC))]"

definition SKILL_TAIKO_MEDALS :: medals where
  "SKILL_TAIKO_MEDALS =
    [(medal 71 ''My First Don'' ''taiko-skill-pass-1'' False, Some (process_skill TAIKO 1 PASS)),
     (medal 72 ''Katsu Katsu Katsu'' ''taiko-skill-pass-2'' False, Some (process_skill TAIKO 2 PASS)),
     (medal 73 ''Not Even Trying'' ''taiko-skill-pass-3'' False, Some (process_skill TAIKO 3 PASS)),
     (medal 74 ''Face Your Demons'' ''taiko-skill-pass-4'' False, Some (process_skill TAIKO 4 PASS)),
     (medal 75 ''The Demon Within'' ''taiko-skill-pass-5'' False, Some (process_skill TAIKO 5 PASS)),
     (medal 76 ''Drumbreaker'' ''taiko-skill-pass-6'' False, Some (process_skill TAIKO 6 PASS)),
     (medal 77 ''The Godfather'' ''taiko-skill-pass-7'' False, Some (process_skill TAIKO 7 PASS)),
     (medal 78 ''Rhythm Incarnate'' ''taiko-skill-pass-8'' False, Some (process_skill TAIKO 8 PASS)),
     (medal 95 ''Keeping Time'' ''taiko-skill-fc-1'' False, Some (process_skill TAIKO 1 FC)),
     (medal 96 ''To Your Own Beat'' ''taiko-skill-fc-2'' False, Some (process_skill TAIKO 2 FC)),
     (medal 97 ''Big Drums'' ''taiko-skill-fc-3'' False, Some (process_skill TAIKO 3 FC)),
     (medal 98 ''Adversity Overcome'' ''taiko-skill-fc-4'' False, Some (process_skill TAIKO 4 FC)),
     (medal 99 ''Demonslayer'' ''taiko-skill-fc-5'' False, Some (process_skill TAIKO 5 FC)),
     (medal 100 ''Rhythm's Call'' ''taiko-skill-fc-6'' False, Some (process_skill TAIKO 6 FC)),
     (medal 101 ''Time Everlasting'' ''taiko-skill-fc-7'' False, Some (process_skill TAIKO 7 FC)),
     (medal 102 ''The Drummer's Throne'' ''taiko-skill-fc-8'' False, Some (process_skill TAIKO 8 FC))]"

definition SKILL_FRUITS_MEDALS :: medals where
  "SKILL_FRUITS_MEDALS =
    [(medal 79 ''A Slice Of Life'' ''fruits-skill-pass-1'' False, Some (process_skill FRUITS 1 PASS)),
     (medal 80 ''Dashing Ever Forward'' ''fruits-skill-pass-2'' False, Some (process_skill FRUITS 2 PASS)),
     (medal 81 ''Zesty Disposition'' ''fruits-skill-pass-3'' False, Some (process_skill FRUITS 3 PASS)),
     (medal 82 ''Hyperdash ON!'' ''fruits-skill-pass-4'' False, Some (process_skill FRUITS 4 PASS)),
     (medal 83 ''It's Raining Fruit'' ''fruits-skill-pass-5'' False, Some (process_skill FRUITS 5 PASS)),
     (medal 84 ''Fruit Ninja'' ''fruits-skill-pass-6'' False, Some (process_skill FRUITS 6 PASS)),
     (medal 85 ''Dreamcatcher'' ''fruits-skill-pass-7'' False, Some (process_skill FRUITS 7 PASS)),
     (medal 86 ''Lord of the Catch'' ''fruits-skill-pass-8'' False, Some (process_skill FRUITS 8 PASS)),
     (medal 103 ''Sweet And Sour'' ''fruits-skill-fc-1'' False, Some (process_skill FRUITS 1 FC)),
     (medal 104 ''Reaching The Core'' ''fruits-skill-fc-2'' False, Some (process_skill FRUITS 2 FC)),
     (medal 105 ''Clean Platter'' ''fruits-skill-fc-3'' False, Some (process_skill FRUITS 3 FC)),
     (medal 106 ''Between The Rain'' ''fruits-skill-fc-4'' False, Some (process_skill FRUITS 4 FC)),
     (medal 107 ''Addicted'' ''fruits-skill-fc-5'' False, Some (process_skill FRUITS 5 FC)),
     (medal 108 ''Quickening'' ''fruits-skill-fc-6'' False, Some (process_skill FRUITS 6 FC)),
     (medal 109 ''Supersonic'' ''fruits-skill-fc-7'' False, Some (process_skill FRUITS 7 FC)),
     (medal 110 ''Dashing Scarlet'' ''fruits-skill-fc-8'' False, Some (process_skill FRUITS 8 FC))]"

definition SKILL_MANIA_MEDALS :: medals where
  "SKILL_MANIA_MEDALS =
    [(medal 87 ''First Steps'' ''mania-skill-pass-1'' False, Some (process_skill MANIA 1 PASS)),
     (medal 88 ''No Normal Player'' ''mania-skill-pass-2'' False, Some (process_skill MANIA 2 PASS)),
     (medal 89 ''Impulse Drive'' ''mania-skill-pass-3'' False, Some (process_skill MANIA 3 PASS)),
     (medal 90 ''Hyperspeed'' ''mania-skill-pass-4'' False, Some (process_skill MANIA 4 PASS)),
     (medal 91 ''Ever Onwards'' ''mania-skill-pass-5'' False, Some (process_skill MANIA 5 PASS)),
     (medal 92 ''Another Surpassed'' ''mania-skill-pass-6'' False, Some (process_skill MANIA 6 PASS)),
     (medal 93 ''Extra Credit'' ''mania-skill-pass-7'' False, Some (process_skill MANIA 7 PASS)),
     (medal 94 ''Maniac'' ''mania-skill-pass-8'' False, Some (process_skill MANIA 8 PASS)),
     (medal 111 ''Keystruck'' ''mania-skill-fc-1'' False, Some (process_skill MANIA 1 FC)),
     (medal 112 ''Keying In'' ''mania-skill-fc-2'' False, Some (process_skill MANIA 2 FC)),
     (medal 113 ''Hyperflow'' ''mania-skill-fc-3'' False, Some (process_skill MANIA 3 FC)),
     (medal 114 ''Breakthrough'' ''mania-skill-fc-4'' False, Some (process_skill MANIA 4 FC)),
     (medal 115 ''Everything Extra'' ''mania-skill-fc-5'' False, Some (process_skill MANIA 5 FC)),
     (medal 116 ''Level Breaker'' ''mania-skill-fc-6'' False, Some (process_skill MANIA 6 FC)),
     (medal 117 ''Step Up'' ''mania-skill-fc-7'' False, Some (process_skill MANIA 7 FC)),
     (medal 118 ''Behind The Veil'' ''mania-skill-fc-8'' False, Some (process_skill MANIA 8 FC))]"

section \<open>The registry\<close>

text \<open>\<open>dict.update\<close> replaces the value of a key in place and appends new keys.  The modules come in the order of the directory.\<close>

definition ACHIEVEMENT_MODULES :: "medals list" where
  "ACHIEVEMENT_MODULES =
     [CLIENTSIDE_MEDALS, STREAK_MEDALS, HUSH_HUSH_MEDALS, INTRO_MEDALS, COMBO_MEDALS, PLAYCOUNT_MEDALS,
      SKILL_OSU_MEDALS @ SKILL_TAIKO_MEDALS @ SKILL_FRUITS_MEDALS @ SKILL_MANIA_MEDALS, TOTAL_HITS_MEDALS]"

definition load_achievements :: "medals list \<Rightarrow> medals" where
  "load_achievements modules = fold (\<lambda>ms d. fold (\<lambda>(a, c). AList.update a c) ms d) modules []"

definition clientside_medals :: "medals \<Rightarrow> (int \<times> achievement) list" where
  "clientside_medals ms = fold (\<lambda>(a, c) d. if clientside a then AList.update (ach_id a) a d else d) ms []"

section \<open>Awarding\<close>

definition award :: "time \<Rightarrow> int \<Rightarrow> string \<Rightarrow> game_mode option \<Rightarrow> achievement \<Rightarrow> medal_db \<Rightarrow> medal_db" where
  "award t uid uname g a s =
     s\<lparr>user_achievements := user_achievements s @ [\<lparr>ua_user = uid, ua_medal = ach_id a, ua_at = t\<rparr>],
       unlock_notices := unlock_notices s @ [\<lparr>un_user = uid, un_medal = ach_id a, un_slug = assets_id a, un_title = ach_name a,
          un_mode = (case g of None \<Rightarrow> [] | Some g \<Rightarrow> py_lower (mode_value g))\<rparr>],
       unlock_events := unlock_events s @ [\<lparr>ue_user = uid, ue_username = uname, ue_slug = assets_id a, ue_name = ach_name a, ue_at = t\<rparr>]\<rparr>"

definition unlock_achievements :: "time \<Rightarrow> achievement list \<Rightarrow> int \<Rightarrow> game_mode option \<Rightarrow> (medal_db, unit) op" where
  "unlock_achievements t achievements uid g =
     bnd (gets (\<lambda>s. map_of (medal_users s) uid)) (\<lambda>found.
     case found of
       None \<Rightarrow> throw (RuntimeErr ''NoResultFound'')
     | Some name \<Rightarrow> modify (fold (award t uid name g) achievements))"

fun satisfied :: "medal_env \<Rightarrow> medal_db \<Rightarrow> medal_score \<Rightarrow> medal_map \<Rightarrow> medals \<Rightarrow> error + achievement list" where
  "satisfied env s m bm [] = Inr []"
| "satisfied env s m bm ((a, None) # ms) = satisfied env s m bm ms"
| "satisfied env s m bm ((a, Some check) # ms) =
     andthen (check env s m bm) (\<lambda>ok.
     andthen (satisfied env s m bm ms) (\<lambda>rest. Inr (if ok then a # rest else rest)))"

definition not_achieved :: "medal_db \<Rightarrow> int \<Rightarrow> medals \<Rightarrow> medals" where
  "not_achieved s uid ms =
     filter (\<lambda>(a, c). ach_id a \<notin> set (map ua_medal (filter (\<lambda>r. ua_user r = uid) (user_achievements s)))) ms"

definition process_achievements :: "time \<Rightarrow> medal_env \<Rightarrow> medals \<Rightarrow> int \<Rightarrow> (medal_db, unit) op" where
  "process_achievements t env medals sid =
     bnd (gets (\<lambda>s. find (\<lambda>m. pl_id (ms_play m) = sid) (medal_scores s))) (\<lambda>found.
     case found of
       None \<Rightarrow> ret ()
     | Some m \<Rightarrow>
         bnd (gets (\<lambda>s. map_of (medal_users s) (pl_user (ms_play m)))) (\<lambda>user.
         if user = None then ret ()
         else
           bnd (gets (\<lambda>s. find (\<lambda>bm. df_id (mb_row bm) = pl_beatmap (ms_play m)) (medal_maps s))) (\<lambda>beatmap.
           case beatmap of
             None \<Rightarrow> throw (RuntimeErr ''AttributeError'')
           | Some bm \<Rightarrow>
               if py_lower (map_md5 m) \<noteq> py_lower (df_checksum (mb_row bm)) then ret ()
               else
                 bnd (gets (\<lambda>s. satisfied env s m bm (not_achieved s (pl_user (ms_play m)) medals))) (\<lambda>checked.
                 bnd (lift checked) (\<lambda>result.
                 do_if (result \<noteq> []) (unlock_achievements t result (pl_user (ms_play m)) (Some (sd_mode (ms_data m)))))))))"

text \<open>\<open>unlock_clientside_achievement\<close>: the client reports a medal of its own.\<close>

definition unlock_clientside_achievement :: "time \<Rightarrow> medals \<Rightarrow> int \<Rightarrow> int \<Rightarrow> (medal_db, unit) op" where
  "unlock_clientside_achievement t medals uid aid =
     (case map_of (clientside_medals medals) aid of
        None \<Rightarrow> reject ''Achievement not found'' 404
      | Some a \<Rightarrow> unlock_achievements t [a] uid None)"

end
