(* ===== verification/RoomRules.thy ===== *)
theory RoomRules
  imports RoomScores PlayPoints
begin

text \<open>
  What the rooms promise: the results around a score are its neighbours on the leaderboard, the totals of a player are
  the sums over the items, the ISO week arithmetic is the one of the calendar; and what the daily challenge does not
  deliver: with the nightly job a streak never grows, and no placement is counted.
\<close>

section \<open>Leaderboards\<close>

lemma sorted_split:
  assumes "p \<in> set xs" "inj_on f (set xs)" "distinct xs"
  obtains A B where "sort_key f xs = A @ p # B" "\<forall>a \<in> set A. f a < f p" "\<forall>b \<in> set B. f p < f b"
proof -
  have "p \<in> set (sort_key f xs)" using assms(1) by simp
  then obtain A B where split: "sort_key f xs = A @ p # B" by (meson split_list)
  have sorted: "sorted (map f (A @ p # B))" using sorted_sort_key[of f xs] by (simp only: split)
  have dist: "distinct (A @ p # B)" using assms(3) distinct_sort[of f xs] by (simp only: split)
  have sub: "set (A @ p # B) = set xs" using set_sort[of f xs] by (simp only: split)
  have "f a < f p" if a: "a \<in> set A" for a
  proof -
    have "f a \<le> f p" using sorted a by (auto simp: sorted_append)
    moreover have "f a \<noteq> f p" using assms(2) dist sub a by (auto simp: inj_on_def)
    ultimately show ?thesis by simp
  qed
  moreover have "f p < f b" if b: "b \<in> set B" for b
  proof -
    have "f p \<le> f b" using sorted b by (auto simp: sorted_append)
    moreover have "f p \<noteq> f b" using assms(2) dist sub b by (auto simp: inj_on_def)
    ultimately show ?thesis by simp
  qed
  ultimately show thesis using that split by blast
qed

lemma key_injective: "distinct (map pb_score bests) \<Longrightarrow> inj_on pb_key (set bests)"
  by (auto simp: pb_key_def inj_on_def distinct_map)

lemma find_enumerate: "P p \<Longrightarrow> (\<And>a. a \<in> set A \<Longrightarrow> \<not> P a) \<Longrightarrow> find (\<lambda>(i, b). P b) (enumerate n (A @ p # B)) = Some (n + length A, p)"
  by (induction A arbitrary: n) auto

text \<open>C24: the results shown around a score are its neighbours.  When every player has one row on the item, the leaderboard
  of the item reads: some rows, the reversed \<open>higher\<close> page, the score itself, the \<open>lower\<close> page, some rows; each page is full
  unless it reaches the end of the board, the flags say whether rows are left, and \<open>get_position\<close> is the number of rows up
  to the score.\<close>

theorem results_around_score:
  assumes most: "1 \<le> most" and bests: "bests = filter (on_item room item) (playlist_bests s)"
    and p: "p \<in> set bests" and keys: "distinct (map pb_score bests)" "distinct (map pb_user bests)"
  shows "\<exists>before high low after. partition_scores_around bests (pb_score p) most = Inr (high, low, before \<noteq> [], after \<noteq> [])
    \<and> sort_key pb_key bests = before @ rev high @ [p] @ low @ after
    \<and> (before \<noteq> [] \<longrightarrow> length high = nat most) \<and> (after \<noteq> [] \<longrightarrow> length low = nat most)
    \<and> length high \<le> nat most \<and> length low \<le> nat most
    \<and> get_position s room item (pb_score p) = length before + length high + 1"
proof -
  have dist: "distinct bests" using keys(1) by (simp add: distinct_map)
  obtain A B where halves: "sort_key pb_key bests = A @ p # B"
    and A: "\<forall>a \<in> set A. pb_key a < pb_key p" and B: "\<forall>b \<in> set B. pb_key p < pb_key b"
    by (rule sorted_split[OF p key_injective[OF keys(1)] dist])
  have members: "set (A @ p # B) = set bests" using set_sort[of pb_key bests] by (simp only: halves)
  have "distinct (A @ p # B)" using dist distinct_sort[of pb_key bests] by (simp only: halves)
  then have others: "pb_user b \<noteq> pb_user p" "pb_score b \<noteq> pb_score p" if "b \<in> set A \<union> set B" for b
    using keys members that p unfolding distinct_map inj_on_def by auto
  have "sort_key pb_key (filter (\<lambda>b. pb_user b \<noteq> pb_user p) bests) = filter (\<lambda>b. pb_user b \<noteq> pb_user p) (A @ p # B)"
    by (simp add: filter_sort[symmetric] halves del: filter_append)
  also have "\<dots> = A @ B" using others(1) by (simp add: filter_id_conv)
  finally have ordered: "sort_key pb_key (filter (\<lambda>b. pb_user b \<noteq> pb_user p) bests) = A @ B" .
  have pages: "filter (\<lambda>b. pb_key b < pb_key p) (A @ B) = A" "filter (\<lambda>b. pb_key b > pb_key p) (A @ B) = B"
    using A B by (auto simp: filter_id_conv filter_empty_conv dest: less_asym)
  have found: "find (\<lambda>b. pb_score b = pb_score p) bests = Some p"
    using get_row_unique[OF keys(1) p] by (simp add: get_row_def)
  have parts: "partition_scores_around bests (pb_score p) most
      = Inr (rev (drop (length A - nat most) A), take (nat most) B, int (length A) > most, int (length B) > most)"
    using most unfolding partition_scores_around_def Let_def found option.case ordered pages by simp
  have position: "get_position s room item (pb_score p) = length A + 1"
    unfolding get_position_def bests[symmetric] halves using others(2) by (subst find_enumerate) auto
  show ?thesis
    by (rule exI[of _ "take (length A - nat most) A"], rule exI[of _ "rev (drop (length A - nat most) A)"],
        rule exI[of _ "take (nat most) B"], rule exI[of _ "drop (nat most) B"])
      (use most in \<open>auto simp: parts halves position\<close>)
qed

section \<open>Totals in a room\<close>

lemma update_first_map: "\<not> list_ex P xs \<Longrightarrow> update_first P f xs = xs"
  by (induction xs) auto

lemma update_first_set: "x \<in> set (update_first P f xs) \<Longrightarrow> x \<in> set xs \<or> (\<exists>y \<in> set xs. P y \<and> x = f y)"
  by (induction xs) (auto split: if_splits)

lemma update_first_key: "(\<And>x. P x \<Longrightarrow> key (f x) = key x) \<Longrightarrow> map key (update_first P f xs) = map key xs"
  by (induction xs) auto

lemma update_first_filter: "(\<And>x. P x \<Longrightarrow> \<not> Q x \<and> \<not> Q (f x)) \<Longrightarrow> filter Q (update_first P f xs) = filter Q xs"
  by (induction xs) auto

text \<open>The rows a total is made of, each with its score.\<close>

definition item_rows :: "room_db \<Rightarrow> int \<Rightarrow> int \<Rightarrow> playlist_best list" where
  "item_rows s room uid = filter (\<lambda>b. pb_room b = room \<and> pb_user b = uid) (playlist_bests s)"

definition scored_rows :: "room_db \<Rightarrow> int \<Rightarrow> int \<Rightarrow> (playlist_best \<times> play) list" where
  "scored_rows s room uid = map (\<lambda>b. (b, the (get_row pl_id (pb_score b) (room_plays s)))) (item_rows s room uid)"

definition books :: "room_db \<Rightarrow> bool" where
  "books s \<longleftrightarrow> distinct (map (\<lambda>a. (ia_room a, ia_user a)) (item_attempts s))
     \<and> (\<forall>a \<in> set (item_attempts s). a = aggregate (scored_rows s (ia_room a) (ia_user a)) a)"

lemma score_row_ok: "score_row i s = (Inr p, s') \<longleftrightarrow> s' = s \<and> get_row pl_id i (room_plays s) = Some p"
  by (auto simp: score_row_def run_simps split: option.splits)

lemma score_row_runs: "get_row pl_id i (room_plays s) = Some p \<Longrightarrow> bnd (score_row i) k s = k p s"
  by (simp add: bnd_def score_row_def gets_def ret_def)

lemma ret_ok: "ret a s = (Inr b, s') \<longleftrightarrow> b = a \<and> s' = s"
  by (auto simp: ret_def)

lemma collect_scores:
  "collect bs (\<lambda>b. bnd (score_row (pb_score b)) (\<lambda>p. ret (b, p))) s = (Inr rows, s') \<Longrightarrow>
   s' = s \<and> rows = map (\<lambda>b. (b, the (get_row pl_id (pb_score b) (room_plays s)))) bs"
proof (induction bs arbitrary: rows)
  case Nil
  then show ?case by (simp add: run_simps)
next
  case (Cons b bs)
  obtain p ps where p: "get_row pl_id (pb_score b) (room_plays s) = Some p" "rows = (b, p) # ps"
    and ps: "collect bs (\<lambda>b. bnd (score_row (pb_score b)) (\<lambda>p. ret (b, p))) s = (Inr ps, s')"
    using Cons.prems by (auto simp: bnd_ok_iff ret_ok score_row_ok)
  show ?case using Cons.IH[OF ps] p by simp
qed

lemma aggregate_keys [simp]: "ia_room (aggregate rows a) = ia_room a" "ia_user (aggregate rows a) = ia_user a"
  "aggregate rows (aggregate rows a) = aggregate rows a"
  by (simp_all add: aggregate_def Let_def)

lemma best_frame:
  assumes "process_playlist_best_score room item uid sid points s = (Inr (), s')"
  shows "room_plays s' = room_plays s" "item_attempts s' = item_attempts s" "daily_rows s' = daily_rows s"
    "room' \<noteq> room \<or> uid' \<noteq> uid \<Longrightarrow> item_rows s' room' uid' = item_rows s room' uid'"
proof -
  have upd: "filter (\<lambda>b. pb_room b = room' \<and> pb_user b = uid')
      (update_first (\<lambda>b. on_item room item b \<and> pb_user b = uid) (\<lambda>_. q) bs) = filter (\<lambda>b. pb_room b = room' \<and> pb_user b = uid') bs"
    if "room' \<noteq> room \<or> uid' \<noteq> uid" "pb_room q = room" "pb_user q = uid" for q bs
    using that by (intro update_first_filter) (auto simp: on_item_def)
  have res: "room_plays s' = room_plays s \<and> item_attempts s' = item_attempts s \<and> daily_rows s' = daily_rows s
     \<and> (room' \<noteq> room \<or> uid' \<noteq> uid \<longrightarrow> item_rows s' room' uid' = item_rows s room' uid')"
  proof (cases "find (\<lambda>b. on_item room item b \<and> pb_user b = uid) (playlist_bests s)")
    case None
    then show ?thesis using assms
      by (auto simp: process_playlist_best_score_def Let_def run_simps item_rows_def)
  next
    case (Some b)
    then have b: "pb_room b = room" "pb_user b = uid" by (auto simp: on_item_def dest: find_Some_in)
    from Some assms obtain q where "s' = s\<lparr>playlist_bests := update_first (\<lambda>b. on_item room item b \<and> pb_user b = uid) (\<lambda>_. q) (playlist_bests s)\<rparr>"
      "pb_room q = room" "pb_user q = uid"
      by (auto simp: process_playlist_best_score_def run_simps bnd_ok_iff score_row_ok Let_def b split: if_splits)
    then show ?thesis using upd by (simp add: item_rows_def)
  qed
  show "room_plays s' = room_plays s" "item_attempts s' = item_attempts s" "daily_rows s' = daily_rows s"
    "room' \<noteq> room \<or> uid' \<noteq> uid \<Longrightarrow> item_rows s' room' uid' = item_rows s room' uid'" using res by auto
qed

lemma daily_frame:
  assumes "process_daily_challenge_score t uid room s = (r, s')"
  shows "room_plays s' = room_plays s \<and> item_attempts s' = item_attempts s \<and> playlist_bests s' = playlist_bests s"
proof -
  let ?I = "\<lambda>x. (room_plays x, item_attempts x, playlist_bests x) = (room_plays s, item_attempts s, playlist_bests s)"
  have "keeps ?I (save_daily d)" for d unfolding save_daily_def by (rule keeps_modify) simp
  then have "keeps ?I (process_daily_challenge_score t uid room)"
    unfolding process_daily_challenge_score_def score_row_def by (intro keeps_rules)
  from keeps_run[OF this refl assms] show ?thesis by simp
qed

lemma attempts_run:
  assumes "get_or_create_attempts room uid s = (Inr (), s')"
  shows "room_plays s' = room_plays s \<and> playlist_bests s' = playlist_bests s \<and>
    item_attempts s' = update_first (attempts_at room uid) (aggregate (scored_rows s room uid))
      (if list_ex (attempts_at room uid) (item_attempts s) then item_attempts s else item_attempts s @
        [\<lparr>ia_room = room, ia_user = uid, ia_attempts = 0, ia_completed = 0, ia_pp = 0, ia_total = 0, ia_accuracy = 0\<rparr>])"
  using assms unfolding get_or_create_attempts_def update_attempts_def run_simps(1)
  by (cases "list_ex (attempts_at room uid) (item_attempts s)")
    (auto simp: run_simps seq_def bnd_ok_iff scored_rows_def item_rows_def dest!: collect_scores)

lemma updated_books:
  assumes "distinct (map (\<lambda>a. (ia_room a, ia_user a)) base)"
    and "\<And>a. a \<in> set base \<Longrightarrow> \<not> attempts_at room uid a \<Longrightarrow> a = aggregate (sc (ia_room a) (ia_user a)) a"
  shows "distinct (map (\<lambda>a. (ia_room a, ia_user a)) (update_first (attempts_at room uid) (aggregate (sc room uid)) base))
    \<and> (\<forall>a \<in> set (update_first (attempts_at room uid) (aggregate (sc room uid)) base). a = aggregate (sc (ia_room a) (ia_user a)) a)"
  using assms
proof (induction base)
  case (Cons a base)
  show ?case
  proof (cases "attempts_at room uid a")
    case True
    have "\<not> attempts_at room uid b" if "b \<in> set base" for b
      using Cons.prems(1) True that by (auto simp: attempts_at_def image_iff)
    then show ?thesis using Cons.prems True by (auto simp: attempts_at_def)
  next
    case False
    have "map (\<lambda>a. (ia_room a, ia_user a)) (update_first (attempts_at room uid) (aggregate (sc room uid)) base) = map (\<lambda>a. (ia_room a, ia_user a)) base"
      by (rule update_first_key) simp
    then have "(\<lambda>a. (ia_room a, ia_user a)) ` set (update_first (attempts_at room uid) (aggregate (sc room uid)) base) = (\<lambda>a. (ia_room a, ia_user a)) ` set base"
      by (metis set_map)
    then show ?thesis using Cons False by simp
  qed
qed simp

lemma collect_scores_ok:
  "list_all (\<lambda>b. get_row pl_id (pb_score b) (room_plays s) \<noteq> None) bs \<Longrightarrow>
   collect bs (\<lambda>b. bnd (score_row (pb_score b)) (\<lambda>p. ret (b, p))) s
     = (Inr (map (\<lambda>b. (b, the (get_row pl_id (pb_score b) (room_plays s)))) bs), s)"
proof (induction bs)
  case Nil
  then show ?case by (simp add: run_simps)
next
  case (Cons b bs)
  then obtain p where p: "get_row pl_id (pb_score b) (room_plays s) = Some p" by auto
  have one: "bnd (score_row (pb_score b)) (\<lambda>p. Pair (Inr (b, p))) s = (Inr (b, p), s)" by (simp add: score_row_runs[OF p])
  show ?case using Cons p by (simp add: bnd_def[of "bnd _ _"] one bnd_def[of "collect _ _"] ret_def)
qed

lemma attempts_total:
  assumes "list_all (\<lambda>b. get_row pl_id (pb_score b) (room_plays s) \<noteq> None) (item_rows s room uid)" "list_ex (attempts_at room uid) (item_attempts s) = False"
  shows "get_or_create_attempts room uid s = (Inr (), s\<lparr>item_attempts := update_first (attempts_at room uid) (aggregate (scored_rows s room uid))
    (item_attempts s @ [\<lparr>ia_room = room, ia_user = uid, ia_attempts = 0, ia_completed = 0, ia_pp = 0, ia_total = 0, ia_accuracy = 0\<rparr>])\<rparr>)"
proof -
  let ?s = "s\<lparr>item_attempts := item_attempts s @ [\<lparr>ia_room = room, ia_user = uid, ia_attempts = 0, ia_completed = 0, ia_pp = 0, ia_total = 0, ia_accuracy = 0\<rparr>]\<rparr>"
  have "list_all (\<lambda>b. get_row pl_id (pb_score b) (room_plays ?s) \<noteq> None) (item_rows s room uid)" using assms(1) by simp
  note all = collect_scores_ok[OF this]
  show ?thesis
    using all unfolding get_or_create_attempts_def update_attempts_def scored_rows_def item_rows_def
    by (simp add: run_simps(1) assms(2) run_simps(8,10) bnd_def[of "collect _ _"] modify_def)
qed

text \<open>C25: the totals of a player in a room are the sums over the items.  Recording a score that succeeds keeps every row
  of totals equal to what its player's best scores in its room add up to: the attempts, the points, the pp, the number of
  items whose best score is a pass and the mean accuracy of these.\<close>

theorem room_totals_are_sums:
  assumes run: "record_room_score t daily room item p s = (Inr (), s')" and books: "books s"
  shows "books s'"
proof -
  let ?uid = "pl_user p" and ?zero = "\<lparr>ia_room = room, ia_user = pl_user p, ia_attempts = 0, ia_completed = 0, ia_pp = 0, ia_total = 0, ia_accuracy = 0\<rparr>"
  obtain x1 s1 where best: "process_playlist_best_score room item ?uid (pl_id p) (pl_total p) s = (Inr x1, s1)"
    and rest: "seq (do_if (daily \<and> sd_passed (pl_data p)) (process_daily_challenge_score t ?uid room)) (get_or_create_attempts room ?uid) s1 = (Inr (), s')"
    using run unfolding record_room_score_def seq_def bnd_ok_iff[of "process_playlist_best_score _ _ _ _ _"] by blast
  obtain x2 s2 where day: "do_if (daily \<and> sd_passed (pl_data p)) (process_daily_challenge_score t ?uid room) s1 = (Inr x2, s2)"
    and last: "get_or_create_attempts room ?uid s2 = (Inr (), s')"
    using rest unfolding seq_def bnd_ok_iff by blast
  have frame1: "room_plays s1 = room_plays s" "item_attempts s1 = item_attempts s"
    "room' \<noteq> room \<or> uid' \<noteq> ?uid \<Longrightarrow> item_rows s1 room' uid' = item_rows s room' uid'" for room' uid'
    using best_frame[of room item ?uid "pl_id p" "pl_total p" s s1] best by simp_all
  have frame2: "room_plays s2 = room_plays s1" "item_attempts s2 = item_attempts s1" "playlist_bests s2 = playlist_bests s1"
    using day daily_frame by (auto simp: do_if_def run_simps split: if_splits)
  have frame3: "room_plays s' = room_plays s2" "playlist_bests s' = playlist_bests s2"
    and rows: "item_attempts s' = update_first (attempts_at room ?uid) (aggregate (scored_rows s2 room ?uid))
      (if list_ex (attempts_at room ?uid) (item_attempts s2) then item_attempts s2 else item_attempts s2 @ [?zero])"
    using attempts_run[OF last] by auto
  have same: "scored_rows s' room' uid' = scored_rows s room' uid'" if "room' \<noteq> room \<or> uid' \<noteq> ?uid" for room' uid'
    using frame1(3)[OF that] by (simp add: scored_rows_def item_rows_def frame1 frame2 frame3)
  have new: "scored_rows s' room ?uid = scored_rows s2 room ?uid" by (simp add: scored_rows_def item_rows_def frame3)
  let ?base = "if list_ex (attempts_at room ?uid) (item_attempts s) then item_attempts s else item_attempts s @ [?zero]"
  have rows': "item_attempts s' = update_first (attempts_at room ?uid) (aggregate (scored_rows s' room ?uid)) ?base"
    using rows by (simp add: frame1 frame2 new)
  have keys: "distinct (map (\<lambda>a. (ia_room a, ia_user a)) ?base)"
    using books by (auto simp: books_def attempts_at_def list_ex_iff)
  have sums: "a = aggregate (scored_rows s' (ia_room a) (ia_user a)) a"
    if a: "a \<in> set ?base" "\<not> attempts_at room ?uid a" for a
  proof -
    have "a \<in> set (item_attempts s)" using a by (auto simp: attempts_at_def split: if_splits)
    then have "a = aggregate (scored_rows s (ia_room a) (ia_user a)) a" using books by (auto simp: books_def)
    then show ?thesis using a(2) same[of "ia_room a" "ia_user a"] by (simp add: attempts_at_def)
  qed
  show ?thesis unfolding books_def rows' by (rule updated_books[OF keys sums])
qed

section \<open>The best score of an item\<close>

lemma find_update_first: "find P xs = Some b \<Longrightarrow> P c \<Longrightarrow> find P (update_first P (\<lambda>_. c) xs) = Some c"
  by (induction xs) (auto split: if_splits)

lemma find_snoc: "find P xs = None \<Longrightarrow> P c \<Longrightarrow> find P (xs @ [c]) = Some c"
  by (induction xs) (auto split: if_splits)

definition holds_best :: "int \<Rightarrow> int \<Rightarrow> int \<Rightarrow> play list \<Rightarrow> room_db \<Rightarrow> bool" where
  "holds_best room item uid ps s \<longleftrightarrow>
     (case find (\<lambda>b. on_item room item b \<and> pb_user b = uid) (playlist_bests s) of
        None \<Rightarrow> ps = []
      | Some b \<Rightarrow> ps \<noteq> [] \<and> pb_total b = Max (pl_total ` set ps) \<and> pb_attempts b = int (length ps)
          \<and> (\<exists>p \<in> set ps. pb_score b = pl_id p \<and> pl_total p = pb_total b))"

lemma best_step:
  assumes stored: "\<forall>q \<in> set (p # ps). get_row pl_id (pl_id q) (room_plays s) = Some q \<and> sd_passed (pl_data q)"
    and before: "holds_best room item uid ps s"
  shows "\<exists>s'. process_playlist_best_score room item uid (pl_id p) (pl_total p) s = (Inr (), s') \<and> room_plays s' = room_plays s
    \<and> holds_best room item uid (ps @ [p]) s'"
proof (cases "find (\<lambda>b. on_item room item b \<and> pb_user b = uid) (playlist_bests s)")
  case None
  then have "ps = []" using before by (simp add: holds_best_def)
  then show ?thesis using None
    by (simp add: process_playlist_best_score_def Let_def run_simps holds_best_def find_snoc on_item_def)
next
  case (Some b)
  then obtain q where b: "ps \<noteq> []" "pb_total b = Max (pl_total ` set ps)" "pb_attempts b = int (length ps)"
    and q: "q \<in> set ps" "pb_score b = pl_id q" "pl_total q = pb_total b"
    using before by (auto simp: holds_best_def)
  have mine: "pb_room b = room" "pb_item b = item" "pb_user b = uid" using Some by (auto simp: on_item_def dest: find_Some_in)
  have row: "get_row pl_id (pb_score b) (room_plays s) = Some q" "sd_passed (pl_data q)" using stored q by auto
  let ?c = "(if pb_total b < pl_total p then b\<lparr>pb_score := pl_id p, pb_total := pl_total p\<rparr> else b)\<lparr>pb_attempts := pb_attempts b + 1\<rparr>"
  let ?s = "s\<lparr>playlist_bests := update_first (\<lambda>b. on_item room item b \<and> pb_user b = uid) (\<lambda>_. ?c) (playlist_bests s)\<rparr>"
  have run: "process_playlist_best_score room item uid (pl_id p) (pl_total p) s = (Inr (), ?s)"
    using row by (simp add: process_playlist_best_score_def Let_def run_simps Some score_row_runs)
  have "find (\<lambda>b. on_item room item b \<and> pb_user b = uid) (playlist_bests ?s) = Some ?c"
    using find_update_first[OF Some, of ?c] mine by (simp add: on_item_def)
  moreover have "Max (pl_total ` set (ps @ [p])) = max (pl_total p) (pb_total b)" using b(1,2) by simp
  ultimately have "holds_best room item uid (ps @ [p]) ?s" using b(1,3) q
    by (cases "pb_total b < pl_total p") (auto simp: holds_best_def max_def)
  then show ?thesis using run by simp
qed

text \<open>C26: the best score of an item.  After a player has set any number of passes on an item, in any order, the player's row
  points to a pass with the highest total and counts the attempts.\<close>

theorem best_of_passes:
  assumes stored: "\<forall>q \<in> set ps. get_row pl_id (pl_id q) (room_plays s) = Some q \<and> sd_passed (pl_data q)"
    and fresh: "find (\<lambda>b. on_item room item b \<and> pb_user b = uid) (playlist_bests s) = None" and some: "ps \<noteq> []"
  shows "\<exists>s' b. for_each ps (\<lambda>p. process_playlist_best_score room item uid (pl_id p) (pl_total p)) s = (Inr (), s')
    \<and> find (\<lambda>b. on_item room item b \<and> pb_user b = uid) (playlist_bests s') = Some b
    \<and> pb_total b = Max (pl_total ` set ps) \<and> pb_attempts b = int (length ps)
    \<and> (\<exists>p \<in> set ps. pb_score b = pl_id p \<and> pl_total p = pb_total b)"
proof -
  have run: "\<exists>s'. for_each qs (\<lambda>p. process_playlist_best_score room item uid (pl_id p) (pl_total p)) x = (Inr (), s')
      \<and> holds_best room item uid (had @ qs) s'"
    if "set (had @ qs) \<subseteq> set ps" "room_plays x = room_plays s" "holds_best room item uid had x" for qs had x
    using that
  proof (induction qs arbitrary: had x)
    case Nil
    then show ?case by (simp add: run_simps)
  next
    case (Cons q qs)
    have "\<forall>r \<in> set (q # had). get_row pl_id (pl_id r) (room_plays x) = Some r \<and> sd_passed (pl_data r)"
      using stored Cons.prems(1,2) by auto
    from best_step[OF this Cons.prems(3)] obtain x1 where x1: "process_playlist_best_score room item uid (pl_id q) (pl_total q) x = (Inr (), x1)"
      "room_plays x1 = room_plays x" "holds_best room item uid (had @ [q]) x1" by blast
    show ?case using Cons.IH[of "had @ [q]" x1] Cons.prems(1,2) x1 by (simp add: seq_def bnd_def)
  qed
  have "holds_best room item uid [] s" using fresh by (simp add: holds_best_def)
  from run[of "[]" ps, OF _ refl this] show ?thesis using some by (auto simp: holds_best_def split: option.splits)
qed

text \<open>The comparison looks at whether the previous score is a pass, not at whether the new one is: a failed run with more
  points replaces a pass.\<close>

theorem failed_run_replaces_pass:
  assumes "find (\<lambda>b. on_item room item b \<and> pb_user b = uid) (playlist_bests s) = Some b"
    and "get_row pl_id (pb_score b) (room_plays s) = Some old" "sd_passed (pl_data old)"
    and "\<not> sd_passed (pl_data p)" "pb_total b < pl_total p" "pl_user p = uid"
  shows "\<exists>s' b'. process_playlist_best_score room item uid (pl_id p) (pl_total p) s = (Inr (), s')
    \<and> find (\<lambda>b. on_item room item b \<and> pb_user b = uid) (playlist_bests s') = Some b' \<and> pb_score b' = pl_id p"
proof -
  let ?c = "b\<lparr>pb_score := pl_id p, pb_total := pl_total p, pb_attempts := pb_attempts b + 1\<rparr>"
  have "on_item room item b \<and> pb_user b = uid" using find_Some_in[OF assms(1)] by simp
  then have "find (\<lambda>b. on_item room item b \<and> pb_user b = uid) (update_first (\<lambda>b. on_item room item b \<and> pb_user b = uid) (\<lambda>_. ?c) (playlist_bests s)) = Some ?c"
    by (intro find_update_first[OF assms(1)]) (simp add: on_item_def)
  then show ?thesis using assms
    by (simp add: process_playlist_best_score_def Let_def run_simps score_row_runs)
qed

section \<open>Streaks\<close>

lemma placed_keys [simp]: "dc_user (placed t i n d) = dc_user d" "daily_streak_best (placed t i n d) = daily_streak_best d"
  "daily_streak_current (placed t i n d) = daily_streak_current d" "last_update (placed t i n d) = Some t"
  "dc_playcount (placed t i n d) = dc_playcount d"
  by (simp_all add: placed_def Let_def)

lemma missed_keys [simp]: "dc_user (missed_day t d) = dc_user d" "daily_streak_best (missed_day t d) = daily_streak_best d"
  "daily_streak_current (missed_day t d) = 0" "last_update (missed_day t d) = Some t"
  "dc_playcount (missed_day t d) = dc_playcount d"
  by (simp_all add: missed_day_def Let_def split: option.split)

lemma weekly_keys [simp]: "dc_user (weekly_step t d) = dc_user d" "daily_streak_best (weekly_step t d) = daily_streak_best d"
  "daily_streak_current (weekly_step t d) = daily_streak_current d" "dc_playcount (weekly_step t d) = dc_playcount d"
  by (simp_all add: weekly_step_def split: option.split)

text \<open>No row counts more than it did in a given table, or more than one.\<close>

definition row_at :: "room_db \<Rightarrow> int \<Rightarrow> daily_row" where
  "row_at s u = (case get_row dc_user u (daily_rows s) of None \<Rightarrow> new_daily u | Some d \<Rightarrow> d)"

definition no_longer :: "daily_row \<Rightarrow> daily_row \<Rightarrow> bool" where
  "no_longer b d \<longleftrightarrow> daily_streak_best d \<le> max 1 (daily_streak_best b) \<and> daily_streak_current d \<le> max 1 (daily_streak_current b)
     \<and> dc_playcount d \<le> max 1 (dc_playcount b)"

definition keyed_rows :: "room_db \<Rightarrow> bool" where
  "keyed_rows s \<longleftrightarrow> distinct (map dc_user (daily_rows s)) \<and> dc_user ` set (daily_rows s) \<subseteq> set (room_users s)"

definition short_streaks :: "(int \<Rightarrow> daily_row) \<Rightarrow> room_db \<Rightarrow> bool" where
  "short_streaks b s \<longleftrightarrow> keyed_rows s \<and> (\<forall>d \<in> set (daily_rows s). no_longer (b (dc_user d)) d)"

text \<open>A row of a day on which the job has run: it was updated on that day, or it is as new.\<close>

definition of_day :: "int \<Rightarrow> daily_row \<Rightarrow> bool" where
  "of_day day d \<longleftrightarrow> on_day (last_update d) day \<or> last_update d = None \<and> dc_playcount d = 0"

definition updated_on :: "int \<Rightarrow> int set \<Rightarrow> room_db \<Rightarrow> bool" where
  "updated_on day us s \<longleftrightarrow> (\<forall>d \<in> set (daily_rows s). dc_user d \<in> us \<longrightarrow> of_day day d)"

lemma no_longer_kept [simp]: "no_longer c (placed t i n d) = no_longer c d" "no_longer c d \<Longrightarrow> no_longer c (missed_day t d)"
  by (simp_all add: no_longer_def)

lemma of_day_now [simp]: "last_update d = Some t \<Longrightarrow> of_day (t div DAY) d"
  by (simp add: of_day_def on_day_def)

lemma save_daily_run:
  assumes ok: "short_streaks b s" "updated_on day us s" and d: "dc_user d \<in> set (room_users s)" "no_longer (b (dc_user d)) d" "of_day day d"
  shows "\<exists>s'. save_daily d s = (Inr (), s') \<and> short_streaks b s' \<and> updated_on day (insert (dc_user d) us) s' \<and> room_users s' = room_users s"
proof -
  have dist: "distinct (map dc_user (daily_rows s))" using ok(1) by (simp add: short_streaks_def keyed_rows_def)
  have rows: "x = d \<or> x \<in> set (daily_rows s) \<and> dc_user x \<noteq> dc_user d" if "x \<in> set (put_row dc_user d (daily_rows s))" for x
    using put_row_set[of dc_user "daily_rows s" x d] dist that by simp
  then have "short_streaks b (s\<lparr>daily_rows := put_row dc_user d (daily_rows s)\<rparr>)"
    using ok(1) d distinct_put_row[OF dist, of d] by (auto simp: short_streaks_def keyed_rows_def dest!: rows)
  moreover have "updated_on day (insert (dc_user d) us) (s\<lparr>daily_rows := put_row dc_user d (daily_rows s)\<rparr>)"
    using ok(2) d(3) by (auto simp: updated_on_def dest!: rows)
  ultimately show ?thesis by (simp add: save_daily_def run_simps)
qed

lemma row_of_user: "short_streaks b s \<Longrightarrow> get_row dc_user u (daily_rows s) = Some d \<Longrightarrow>
   d \<in> set (daily_rows s) \<and> dc_user d = u \<and> no_longer (b u) d \<and> u \<in> set (room_users s)"
  using get_row_mem[of dc_user "daily_rows s" u d] by (auto simp: short_streaks_def keyed_rows_def)

lemma no_row_updated: "get_row dc_user u (daily_rows s) = None \<Longrightarrow> updated_on day us s \<Longrightarrow> updated_on day (insert u us) s"
  by (auto simp: updated_on_def get_row_None)

text \<open>The two passes of the nightly job.\<close>

lemma place_one:
  assumes ok: "short_streaks b s" "updated_on (t div DAY) us s"
  shows "\<exists>x s'. place_score t n ib s = (Inr x, s') \<and> short_streaks b s' \<and> updated_on (t div DAY) (set x \<union> us) s' \<and> room_users s' = room_users s"
proof -
  obtain i q where ib: "ib = (i, q)" by (cases ib)
  show ?thesis
  proof (cases "get_row dc_user (pb_user q) (daily_rows s)")
    case None
    then show ?thesis using ok by (simp add: place_score_def ib run_simps)
  next
    case (Some d)
    note row = row_of_user[OF ok(1) Some]
    obtain s' where "save_daily (placed t i n d) s = (Inr (), s')" "short_streaks b s'" "updated_on (t div DAY) (insert (pb_user q) us) s'"
      "room_users s' = room_users s"
      using save_daily_run[OF ok, of "placed t i n d"] row by auto
    then show ?thesis using Some by (simp add: place_score_def ib run_simps(1,12) step_runs)
  qed
qed

lemma place_run:
  "short_streaks b s \<Longrightarrow> updated_on (t div DAY) us s \<Longrightarrow>
   \<exists>xs s'. collect ibs (place_score t n) s = (Inr xs, s')
     \<and> short_streaks b s' \<and> updated_on (t div DAY) (set (concat xs) \<union> us) s' \<and> room_users s' = room_users s"
proof (induction ibs arbitrary: s us)
  case Nil
  then show ?case by (simp add: run_simps)
next
  case (Cons ib ibs)
  obtain x s1 where one: "place_score t n ib s = (Inr x, s1)" "short_streaks b s1" "updated_on (t div DAY) (set x \<union> us) s1" "room_users s1 = room_users s"
    using place_one[OF Cons.prems, of n ib] by blast
  from Cons.IH[OF one(2,3)] obtain xs s' where rest: "collect ibs (place_score t n) s1 = (Inr xs, s')"
    "short_streaks b s'" "updated_on (t div DAY) (set (concat xs) \<union> (set x \<union> us)) s'" "room_users s' = room_users s1" by blast
  have "set (concat (x # xs)) \<union> us = set (concat xs) \<union> (set x \<union> us)" by auto
  then show ?case
    by (intro exI[of _ "x # xs"] exI[of _ s']) (use one rest in \<open>simp add: step_runs run_simps(12)\<close>)
qed

lemma reset_one:
  assumes ok: "short_streaks b s" "updated_on (t div DAY) us s"
  shows "\<exists>s'. reset_user t u s = (Inr (), s') \<and> short_streaks b s' \<and> updated_on (t div DAY) (insert u us) s' \<and> room_users s' = room_users s"
proof (cases "get_row dc_user u (daily_rows s)")
  case None
  then show ?thesis using ok no_row_updated[OF None ok(2)] by (simp add: reset_user_def run_simps)
next
  case (Some d)
  note row = row_of_user[OF ok(1) Some]
  show ?thesis
  proof (cases "on_day (last_update d) (t div DAY)")
    case True
    have "d' = d" if "d' \<in> set (daily_rows s)" "dc_user d' = u" for d'
      using get_row_unique[of dc_user "daily_rows s" d'] that Some ok(1) by (simp add: short_streaks_def keyed_rows_def)
    then have "updated_on (t div DAY) (insert u us) s" using ok(2) True by (auto simp: updated_on_def of_day_def)
    then show ?thesis using Some True ok(1) by (simp add: reset_user_def run_simps)
  next
    case False
    then show ?thesis using Some row save_daily_run[OF ok, of "missed_day t d"] by (simp add: reset_user_def run_simps)
  qed
qed

lemma reset_run:
  "short_streaks b s \<Longrightarrow> updated_on (t div DAY) us s \<Longrightarrow>
   \<exists>s'. reset_all t uids s = (Inr (), s') \<and> short_streaks b s' \<and> updated_on (t div DAY) (set uids \<union> us) s' \<and> room_users s' = room_users s"
proof (induction uids arbitrary: s us)
  case Nil
  then show ?case by (simp add: reset_all_def run_simps)
next
  case (Cons u uids)
  obtain s1 where one: "reset_user t u s = (Inr (), s1)" "short_streaks b s1" "updated_on (t div DAY) (insert u us) s1" "room_users s1 = room_users s"
    using reset_one[OF Cons.prems] by blast
  from Cons.IH[OF one(2,3)] obtain s' where "reset_all t uids s1 = (Inr (), s')" "short_streaks b s'"
    "updated_on (t div DAY) (set uids \<union> insert u us) s'" "room_users s' = room_users s1" by blast
  then show ?case using one by (simp add: reset_all_def step_runs)
qed

lemma nightly_run:
  assumes ok: "short_streaks b s"
  shows "\<exists>s'. process_daily_challenge_top t s = (Inr (), s') \<and> short_streaks b s' \<and> updated_on (t div DAY) UNIV s' \<and> room_users s' = room_users s"
proof -
  have none: "updated_on (t div DAY) {} s" by (simp add: updated_on_def)
  let ?room = "find (\<lambda>r. cr_daily r \<and> t - DAY < cr_ends r \<and> cr_ends r < t) (challenge_rooms s)"
  let ?place = "case ?room of None \<Rightarrow> ret [] | Some r \<Rightarrow> bnd (gets (\<lambda>s. challenge_scores s (cr_id r))) (place_all t)"
  have "\<exists>us s1. ?place s = (Inr us, s1) \<and> short_streaks b s1 \<and> updated_on (t div DAY) (set us) s1 \<and> room_users s1 = room_users s"
  proof (cases ?room)
    case None
    then show ?thesis using ok none by (simp add: run_simps)
  next
    case (Some r)
    let ?bests = "challenge_scores s (cr_id r)"
    obtain xs s1 where "collect (enumerate 0 ?bests) (place_score t (length ?bests)) s = (Inr xs, s1)" "short_streaks b s1"
      "updated_on (t div DAY) (set (concat xs) \<union> {}) s1" "room_users s1 = room_users s"
      using place_run[OF ok none] by blast
    then show ?thesis using Some by (simp add: place_all_def run_simps(1,12) step_runs)
  qed
  then obtain us s1 where place: "?place s = (Inr us, s1)" "short_streaks b s1" "updated_on (t div DAY) (set us) s1" "room_users s1 = room_users s" by blast
  obtain s' where s': "reset_all t (filter (\<lambda>u. u \<notin> set us) (room_users s1)) s1 = (Inr (), s')" "short_streaks b s'"
    "updated_on (t div DAY) (set (filter (\<lambda>u. u \<notin> set us) (room_users s1)) \<union> set us) s'" "room_users s' = room_users s1"
    using reset_run[OF place(2,3)] by blast
  have "process_daily_challenge_top t s = (Inr (), s')"
    unfolding process_daily_challenge_top_def by (simp add: run_simps(1) step_runs place(1) s'(1))
  moreover have "updated_on (t div DAY) UNIV s'"
    using s'(2,3,4) by (auto simp: updated_on_def short_streaks_def keyed_rows_def)
  ultimately show ?thesis using s' place(4) by simp
qed

text \<open>A play on a day on which the job has run.\<close>

lemma played_keys [simp]: "dc_user (daily_played t d) = dc_user d" "last_update (daily_played t d) = Some t"
  by (simp_all add: daily_played_def daily_step_def)

lemma played_row:
  assumes "of_day (t div DAY) d" "no_longer c d"
  shows "no_longer c (daily_played t d)"
proof (cases "last_update d")
  case None
  then show ?thesis using assms by (auto simp: of_day_def on_day_def no_longer_def daily_played_def daily_step_def)
next
  case (Some u)
  then have "\<not> on_day (last_update d) (t div DAY - 1)" "on_day (last_update d) (t div DAY)" using assms(1)
    by (auto simp: of_day_def on_day_def)
  then show ?thesis using assms(2) Some by (simp add: no_longer_def daily_played_def daily_step_def)
qed

lemma new_row [simp]: "no_longer c (new_daily u)" "of_day day (new_daily u)" "dc_user (new_daily u) = u"
  "no_longer c (cleared_daily d)" "of_day day (cleared_daily d)" "dc_user (cleared_daily d) = dc_user d"
  by (simp_all add: no_longer_def new_daily_def of_day_def cleared_daily_def le_max_iff_disj)

lemma played_run:
  assumes ok: "short_streaks b s" "updated_on (t div DAY) UNIV s" and u: "u \<in> set (room_users s)"
    and run: "process_daily_challenge_score t u room s = (r, s')"
  shows "short_streaks b s' \<and> updated_on (t div DAY) UNIV s' \<and> room_users s' = room_users s"
proof -
  let ?d = "daily_played t (case get_row dc_user u (daily_rows s) of None \<Rightarrow> new_daily u | Some d \<Rightarrow> d)"
  have "dc_user ?d = u \<and> no_longer (b u) ?d"
    using row_of_user[OF ok(1), of u] ok(2) by (auto simp: updated_on_def played_row split: option.split)
  then obtain s1 where s1: "save_daily ?d s = (Inr (), s1)" "short_streaks b s1" "updated_on (t div DAY) (insert u UNIV) s1" "room_users s1 = room_users s"
    using save_daily_run[OF ok, of ?d] u by auto
  have "s' = s \<or> s' = s1"
    using run s1(1) by (auto simp: process_daily_challenge_score_def run_simps score_row_def bnd_def[of "bnd _ _"] split: option.splits if_splits)
  then show ?thesis using ok s1 by auto
qed

text \<open>New accounts and cleared profiles.\<close>

lemma new_user_ok:
  assumes "short_streaks b s" "updated_on day us s"
  shows "short_streaks b (s\<lparr>room_users := room_users s @ [u]\<rparr>)" "updated_on day us (s\<lparr>room_users := room_users s @ [u]\<rparr>)"
  using assms by (auto simp: short_streaks_def keyed_rows_def updated_on_def)

lemma registered_run:
  assumes ok: "short_streaks b s" "updated_on day us s" and run: "register_daily u s = (r, s')"
  shows "short_streaks b s' \<and> updated_on day us s' \<and> set (room_users s') = insert u (set (room_users s))"
proof (cases "u \<in> set (room_users s)")
  case True
  then show ?thesis using ok run by (auto simp: register_daily_def run_simps)
next
  case False
  let ?s = "s\<lparr>room_users := room_users s @ [u]\<rparr>"
  have "get_row dc_user u (daily_rows s) = None" using False row_of_user[OF ok(1), of u] by (cases "get_row dc_user u (daily_rows s)") auto
  then have "s' = snd (save_daily (new_daily u) ?s)" using False run by (auto simp: register_daily_def run_simps)
  moreover obtain s1 where "save_daily (new_daily u) ?s = (Inr (), s1)" "short_streaks b s1" "updated_on day (insert u us) s1" "room_users s1 = room_users ?s"
    using save_daily_run[OF new_user_ok[OF ok, of u], of "new_daily u"] by auto
  ultimately show ?thesis by (auto simp: updated_on_def)
qed

lemma bot_run:
  assumes "short_streaks b s" "updated_on day us s" and "create_bot_account u s = (r, s')"
  shows "short_streaks b s' \<and> updated_on day us s' \<and> set (room_users s') = insert u (set (room_users s))"
  using assms(3) new_user_ok[OF assms(1,2), of u] assms(1,2) by (auto simp: create_bot_account_def run_simps split: if_splits)

lemma cleared_run:
  assumes ok: "short_streaks b s" "updated_on day us s" and u: "u \<in> set (room_users s)" and run: "clear_user_rooms u s = (r, s')"
  shows "short_streaks b s' \<and> updated_on day us s' \<and> room_users s' = room_users s"
proof -
  let ?s = "s\<lparr>playlist_bests := filter (\<lambda>b. pb_user b \<noteq> u) (playlist_bests s), item_attempts := filter (\<lambda>r. ia_user r \<noteq> u) (item_attempts s),
      room_plays := filter (\<lambda>p. pl_user p \<noteq> u) (room_plays s)\<rparr>"
  let ?d = "case get_row dc_user u (daily_rows s) of None \<Rightarrow> new_daily u | Some d \<Rightarrow> cleared_daily d"
  have "short_streaks b ?s" "updated_on day us ?s" using ok by (simp_all add: short_streaks_def keyed_rows_def updated_on_def)
  moreover have "dc_user ?d = u" "no_longer (b u) ?d" "of_day day ?d" using row_of_user[OF ok(1), of u] by (auto split: option.split)
  ultimately obtain s1 where "save_daily ?d ?s = (Inr (), s1)" "short_streaks b s1" "updated_on day (insert u us) s1" "room_users s1 = room_users ?s"
    using save_daily_run[of b ?s day us ?d] u by auto
  moreover have "s' = snd (save_daily ?d ?s)" using run by (simp add: clear_user_rooms_def clear_daily_def run_simps)
  ultimately show ?thesis by (auto simp: updated_on_def)
qed

text \<open>The life of the challenge tables: the nightly job, plays, new accounts with and without a row, cleared profiles, and any
  change of the other tables.\<close>

datatype challenge_event = Nightly time | Played time int int | Registered int | BotCreated int | Cleared int
  | Elsewhere "play list" "playlist_best list" "attempts_row list" "challenge_room list"

fun run_event :: "challenge_event \<Rightarrow> room_db \<Rightarrow> room_db" where
  "run_event (Nightly t) s = snd (process_daily_challenge_top t s)"
| "run_event (Played t u room) s = snd (process_daily_challenge_score t u room s)"
| "run_event (Registered u) s = snd (register_daily u s)"
| "run_event (BotCreated u) s = snd (create_bot_account u s)"
| "run_event (Cleared u) s = snd (clear_user_rooms u s)"
| "run_event (Elsewhere ps bs as rs) s = s\<lparr>room_plays := ps, playlist_bests := bs, item_attempts := as, challenge_rooms := rs\<rparr>"

text \<open>On the day of every play the job has run before it: it runs when the server starts and one minute after midnight.  The
  first argument is the day of its last run, the second the accounts: only they play, and only they are cleared.\<close>

fun on_schedule :: "int option \<Rightarrow> int set \<Rightarrow> challenge_event list \<Rightarrow> bool" where
  "on_schedule day us [] = True"
| "on_schedule day us (Nightly t # es) = on_schedule (Some (t div DAY)) us es"
| "on_schedule day us (Played t u room # es) = (day = Some (t div DAY) \<and> u \<in> us \<and> on_schedule day us es)"
| "on_schedule day us (Registered u # es) = on_schedule day (insert u us) es"
| "on_schedule day us (BotCreated u # es) = on_schedule day (insert u us) es"
| "on_schedule day us (Cleared u # es) = (u \<in> us \<and> on_schedule day us es)"
| "on_schedule day us (Elsewhere ps bs as rs # es) = on_schedule day us es"

definition settled :: "int option \<Rightarrow> room_db \<Rightarrow> bool" where
  "settled day s = (case day of None \<Rightarrow> True | Some n \<Rightarrow> updated_on n UNIV s)"

lemma settled_parts: "settled day s \<longleftrightarrow> updated_on (case day of None \<Rightarrow> 0 | Some n \<Rightarrow> n) (if day = None then {} else UNIV) s"
  by (cases day) (simp_all add: settled_def updated_on_def)

lemma event_run:
  assumes ok: "short_streaks b s" "settled day s" and sched: "on_schedule day (set (room_users s)) (e # es)"
  obtains day' where "short_streaks b (run_event e s)" "settled day' (run_event e s)" "on_schedule day' (set (room_users (run_event e s))) es"
proof (cases e)
  case (Nightly t)
  obtain s' where "process_daily_challenge_top t s = (Inr (), s')" "short_streaks b s'" "updated_on (t div DAY) UNIV s'" "room_users s' = room_users s"
    using nightly_run[OF ok(1)] by blast
  then show ?thesis using that[of "Some (t div DAY)"] sched Nightly by (simp add: settled_def)
next
  case (Played t u room)
  obtain r s' where run: "process_daily_challenge_score t u room s = (r, s')" by force
  moreover have day: "day = Some (t div DAY)" using sched Played by simp
  ultimately show ?thesis using that[of day] played_run[OF ok(1) _ _ run] ok(2) sched Played by (simp add: settled_def)
next
  case (Registered u)
  obtain r s' where run: "register_daily u s = (r, s')" by force
  then show ?thesis using that[of day] registered_run[OF ok(1) ok(2)[unfolded settled_parts] run] sched Registered
    by (simp add: settled_parts)
next
  case (BotCreated u)
  obtain r s' where run: "create_bot_account u s = (r, s')" by force
  then show ?thesis using that[of day] bot_run[OF ok(1) ok(2)[unfolded settled_parts] run] sched BotCreated
    by (simp add: settled_parts)
next
  case (Cleared u)
  obtain r s' where run: "clear_user_rooms u s = (r, s')" by force
  then show ?thesis using that[of day] cleared_run[OF ok(1) ok(2)[unfolded settled_parts] _ run] sched Cleared
    by (simp add: settled_parts)
next
  case (Elsewhere ps bs as rs)
  have "short_streaks b (run_event e s)" "settled day (run_event e s)" "room_users (run_event e s) = room_users s"
    using ok by (simp_all add: Elsewhere short_streaks_def keyed_rows_def settled_parts updated_on_def)
  then show ?thesis using that[of day] sched Elsewhere by simp
qed

lemma challenge_run:
  "short_streaks b s \<Longrightarrow> settled day s \<Longrightarrow> on_schedule day (set (room_users s)) es \<Longrightarrow> short_streaks b (fold run_event es s)"
proof (induction es arbitrary: s day)
  case (Cons e es)
  from Cons.prems obtain day' where "short_streaks b (run_event e s)" "settled day' (run_event e s)"
    "on_schedule day' (set (room_users (run_event e s))) es" by (rule event_run)
  then show ?case using Cons.IH[of "run_event e s" day'] by simp
qed simp

lemma rows_start:
  assumes "keyed_rows s"
  shows "short_streaks (row_at s) s"
proof -
  have "row_at s (dc_user d) = d" if "d \<in> set (daily_rows s)" for d
    using get_row_unique[of dc_user "daily_rows s" d] that assms by (simp add: row_at_def keyed_rows_def)
  then show ?thesis using assms by (simp add: short_streaks_def no_longer_def)
qed

text \<open>C27: with the nightly job in place no streak ever grows beyond one day.  Start from any table of the challenge (one row per
  player at most, of known players) and let the server run: the nightly job, plays of the challenge, registrations, which
  insert an empty row, accounts of bots, which have none, profiles cleared by an administrator, and any change of the other
  tables, in any order in which the job has run on the day of a play before it, as it does when the server starts and
  after midnight.  Then no row counts a best streak, a current streak or a number of challenges greater than one, or
  greater than what the row of that player counted at the start: the job marks every row as updated on the new day, and
  a play on a day that already marks the row is taken for a repetition, so that only the first play of a fresh row
  counts.\<close>

theorem nightly_job_freezes_streaks:
  assumes "distinct (map dc_user (daily_rows s))" "dc_user ` set (daily_rows s) \<subseteq> set (room_users s)"
    and "on_schedule None (set (room_users s)) es" "d \<in> set (daily_rows (fold run_event es s))"
  shows "daily_streak_best d \<le> max 1 (daily_streak_best (row_at s (dc_user d)))
    \<and> daily_streak_current d \<le> max 1 (daily_streak_current (row_at s (dc_user d)))
    \<and> dc_playcount d \<le> max 1 (dc_playcount (row_at s (dc_user d)))"
  using challenge_run[OF rows_start _ assms(3)] assms(1,2,4) by (simp add: keyed_rows_def settled_def short_streaks_def no_longer_def)

text \<open>With ten players no placement among the first ten per cent is counted, with two none among the first half: the share is
  rounded up to one before the comparison.\<close>

theorem no_placements:
  assumes "i < n"
  shows "10 \<le> n \<Longrightarrow> top_10p_placements (placed t i n d) = top_10p_placements d"
    and "2 \<le> n \<Longrightarrow> top_50p_placements (placed t i n d) = top_50p_placements d"
proof -
  have "0 < (1 + real i) / real n" "(1 + real i) / real n \<le> 1" using assms by simp_all
  then have "\<lceil>(1 + real i) / real n\<rceil> = 1" by (simp add: ceiling_eq_iff)
  then show "10 \<le> n \<Longrightarrow> top_10p_placements (placed t i n d) = top_10p_placements d"
    and "2 \<le> n \<Longrightarrow> top_50p_placements (placed t i n d) = top_50p_placements d"
    by (simp_all add: placed_def Let_def add.commute)
qed

text \<open>A second challenge in the same week, on another day, sets the weekly streak back to one.\<close>

theorem weekly_streak_reset:
  assumes "last_weekly_streak d = Some u" "are_same_weeks u t" "u div DAY \<noteq> t div DAY"
  shows "weekly_streak_current (weekly_step t d) = 1"
  using assms by (simp add: weekly_step_def are_adjacent_weeks_def are_same_weeks_def adjacent_def Let_def on_day_def split: prod.split)

section \<open>Examples\<close>

abbreviation demo_pass :: "int \<Rightarrow> int \<Rightarrow> play" where
  "demo_pass i points \<equiv> demo_play i points Rank_A True"

definition demo_best :: "int \<Rightarrow> int \<Rightarrow> int \<Rightarrow> playlist_best" where
  "demo_best u i points = \<lparr>pb_user = u, pb_score = i, pb_room = 7, pb_item = 0, pb_total = points, pb_attempts = 1\<rparr>"

definition demo_rooms :: "playlist_best list \<Rightarrow> room_db" where
  "demo_rooms bs = \<lparr>room_plays = [demo_pass 1 500, demo_pass 2 800], playlist_bests = bs, item_attempts = [], daily_rows = [],
     challenge_rooms = [], room_users = [7, 4]\<rparr>"

theorem results_around_score_witness:
  "\<exists>(before :: playlist_best list) high low (after :: playlist_best list). partition_scores_around [demo_best 7 1 500, demo_best 4 2 800] 1 1 = Inr (high, low, before \<noteq> [], after \<noteq> [])
     \<and> length high \<le> nat 1 \<and> get_position (demo_rooms [demo_best 7 1 500, demo_best 4 2 800]) 7 0 1 = length before + length high + 1"
proof -
  let ?bs = "[demo_best 7 1 500, demo_best 4 2 800]"
  have bs: "?bs = filter (on_item 7 0) (playlist_bests (demo_rooms ?bs))" by (simp add: demo_rooms_def demo_best_def on_item_def)
  have p: "demo_best 7 1 500 \<in> set ?bs" and keys: "distinct (map pb_score ?bs)" "distinct (map pb_user ?bs)"
    and sid: "pb_score (demo_best 7 1 500) = 1" by (simp_all add: demo_best_def)
  show ?thesis
    using results_around_score[OF order_refl bs p keys, unfolded sid]
    by (elim exE conjE) (rule exI, rule exI, rule exI, rule exI, rule conjI, assumption, rule conjI, assumption, assumption)
qed

theorem room_totals_are_sums_witness:
  "\<exists>s'. record_room_score 0 False 7 0 (demo_pass 2 800) (demo_rooms [demo_best 7 1 500]) = (Inr (), s') \<and> books s'"
proof -
  let ?s = "demo_rooms [demo_best 7 1 500]"
  let ?s1 = "?s\<lparr>playlist_bests := [(demo_best 7 1 500)\<lparr>pb_score := 2, pb_total := 800, pb_attempts := 2\<rparr>]\<rparr>"
  have fields: "pb_score (demo_best u i n) = i" "pb_total (demo_best u i n) = n" "pb_attempts (demo_best u i n) = 1" for u i n
    by (simp_all add: demo_best_def)
  have row: "get_row pl_id 1 (room_plays ?s) = Some (demo_pass 1 500)" by (simp add: demo_rooms_def get_row_def)
  have found: "find (\<lambda>b. on_item 7 0 b \<and> pb_user b = 7) (playlist_bests ?s) = Some (demo_best 7 1 500)"
    by (simp add: demo_rooms_def demo_best_def on_item_def)
  have upd: "update_first (\<lambda>b. on_item 7 0 b \<and> pb_user b = 7) (\<lambda>_. x) (playlist_bests ?s) = [x]" for x
    by (simp add: demo_rooms_def demo_best_def on_item_def)
  have best: "process_playlist_best_score 7 0 7 2 800 ?s = (Inr (), ?s1)"
    unfolding process_playlist_best_score_def Let_def run_simps(1) found option.case upd
    by (simp add: fields run_simps(5,16) score_row_runs[OF row] upd)
  obtain s' where last: "get_or_create_attempts 7 7 ?s1 = (Inr (), s')"
    using attempts_total[of ?s1 7 7] by (simp add: demo_rooms_def demo_best_def item_rows_def get_row_def)
  have mine: "pl_user (demo_pass 2 800) = 7" "pl_id (demo_pass 2 800) = 2" "pl_total (demo_pass 2 800) = 800" by simp_all
  have run: "record_room_score 0 False 7 0 (demo_pass 2 800) ?s = (Inr (), s')"
    unfolding record_room_score_def mine by (simp add: step_runs(3)[where m = "process_playlist_best_score 7 0 7 2 800", OF best] run_simps(9,11) last)
  have "books ?s" by (simp add: books_def demo_rooms_def)
  from room_totals_are_sums[OF run this] show ?thesis using run by blast
qed

theorem best_of_passes_witness:
  "\<exists>s' b. for_each [demo_pass 1 500, demo_pass 2 800] (\<lambda>p. process_playlist_best_score 7 0 7 (pl_id p) (pl_total p)) (demo_rooms []) = (Inr (), s')
     \<and> find (\<lambda>b. on_item 7 0 b \<and> pb_user b = 7) (playlist_bests s') = Some b \<and> pb_total b = 800 \<and> pb_attempts b = 2"
proof -
  have stored: "\<forall>q \<in> set [demo_pass 1 500, demo_pass 2 800]. get_row pl_id (pl_id q) (room_plays (demo_rooms [])) = Some q \<and> sd_passed (pl_data q)"
    by (simp add: demo_rooms_def get_row_def)
  have "find (\<lambda>b. on_item 7 0 b \<and> pb_user b = 7) (playlist_bests (demo_rooms [])) = None" by (simp add: demo_rooms_def)
  from best_of_passes[OF stored this] obtain s' b where
    "for_each [demo_pass 1 500, demo_pass 2 800] (\<lambda>p. process_playlist_best_score 7 0 7 (pl_id p) (pl_total p)) (demo_rooms []) = (Inr (), s')"
    "find (\<lambda>b. on_item 7 0 b \<and> pb_user b = 7) (playlist_bests s') = Some b" "pb_total b = 800" "pb_attempts b = 2"
    by (simp del: for_each.simps) blast
  then show ?thesis by blast
qed

abbreviation demo_days :: "challenge_event list" where
  "demo_days \<equiv> [Nightly 60000000, Registered 9, Played 70000000 7 7, Cleared 4, Nightly (DAY + 60000000), BotCreated 5,
     Played (DAY + 70000000) 7 7]"

abbreviation demo_challenge :: room_db where
  "demo_challenge \<equiv> (demo_rooms [demo_best 7 1 500])\<lparr>daily_rows := [(new_daily 4)\<lparr>daily_streak_best := 3\<rparr>]\<rparr>"

theorem nightly_job_freezes_streaks_witness:
  "map dc_user (daily_rows (fold run_event demo_days demo_challenge)) = [4, 9, 7]
   \<and> daily_streak_best (last (daily_rows (fold run_event demo_days demo_challenge))) \<le> 1"
proof -
  let ?rows = "daily_rows (fold run_event demo_days demo_challenge)"
  have users: "map dc_user ?rows = [4, 9, 7]" by code_simp
  then have some: "?rows \<noteq> []" by force
  have last: "last ?rows \<in> set ?rows" by (rule last_in_set[OF some])
  have "dc_user (last ?rows) = last (map dc_user ?rows)" by (rule last_map[OF some, symmetric])
  then have seven: "dc_user (last ?rows) = 7" unfolding users by simp
  have "on_schedule None (set (room_users demo_challenge)) demo_days" by (simp add: DAY_def seconds_def demo_rooms_def)
  then have "daily_streak_best (last ?rows) \<le> max 1 (daily_streak_best (row_at demo_challenge (dc_user (last ?rows))))"
    using nightly_job_freezes_streaks[of demo_challenge demo_days "last ?rows"] last by (simp add: demo_rooms_def new_daily_def del: fold.simps)
  moreover have "daily_streak_best (row_at demo_challenge 7) = 0" by code_simp
  ultimately show ?thesis using users unfolding seven by (simp del: fold.simps)
qed

end
