(* ===== verification/Achievements.thy ===== *)
theory Achievements
  imports Medals RoomRules ModRules "HOL-Library.Multiset"
begin

text \<open>
  What the evaluation of medals promises.  The locale \<open>medal_registry\<close> states what the evaluation needs of a registry: no
  id twice, and predicates that do not look at the awarded medals.  Every order in which the modules are loaded gives such
  a registry.
\<close>

section \<open>Awards\<close>

definition held :: "medal_db \<Rightarrow> (int \<times> int) set" where
  "held s = (\<lambda>r. (ua_user r, ua_medal r)) ` set (user_achievements s)"

definition held_once :: "medal_db \<Rightarrow> bool" where
  "held_once s \<longleftrightarrow> distinct (map (\<lambda>r. (ua_user r, ua_medal r)) (user_achievements s))"

definition earns :: "medal_env \<Rightarrow> medal_db \<Rightarrow> medal_score \<Rightarrow> medal_map \<Rightarrow> achievement \<times> medal_check option \<Rightarrow> bool" where
  "earns env s m bm entry = (case snd entry of None \<Rightarrow> False | Some c \<Rightarrow> c env s m bm = Inr True)"

definition fails_with :: "medal_env \<Rightarrow> medal_db \<Rightarrow> medal_score \<Rightarrow> medal_map \<Rightarrow> achievement \<times> medal_check option \<Rightarrow> error \<Rightarrow> bool" where
  "fails_with env s m bm entry e = (case snd entry of None \<Rightarrow> False | Some c \<Rightarrow> c env s m bm = Inl e)"

lemma satisfied_Inr: "satisfied env s m bm ms = Inr r \<Longrightarrow> r = map fst (filter (earns env s m bm) ms)"
  by (induction env s m bm ms arbitrary: r rule: satisfied.induct) (auto simp: andthen_def earns_def split: sum.splits if_splits)

lemma satisfied_Inl: "satisfied env s m bm ms = Inl e \<Longrightarrow> \<exists>x \<in> set ms. fails_with env s m bm x e"
  by (induction env s m bm ms rule: satisfied.induct) (auto simp: andthen_def fails_with_def split: sum.splits if_splits)

lemma satisfied_total: "satisfied env s m bm ms = Inr r \<Longrightarrow> x \<in> set ms \<Longrightarrow> \<not> fails_with env s m bm x e"
  by (induction env s m bm ms arbitrary: r rule: satisfied.induct) (auto simp: andthen_def fails_with_def split: sum.splits)

lemma fold_award:
  "fold (award t uid n g) as s =
     s\<lparr>user_achievements := user_achievements s @ map (\<lambda>a. \<lparr>ua_user = uid, ua_medal = ach_id a, ua_at = t\<rparr>) as,
       unlock_notices := unlock_notices s @ map (\<lambda>a. \<lparr>un_user = uid, un_medal = ach_id a, un_slug = assets_id a, un_title = ach_name a,
          un_mode = (case g of None \<Rightarrow> [] | Some g \<Rightarrow> py_lower (mode_value g))\<rparr>) as,
       unlock_events := unlock_events s @ map (\<lambda>a. \<lparr>ue_user = uid, ue_username = n, ue_slug = assets_id a, ue_name = ach_name a, ue_at = t\<rparr>) as\<rparr>"
  by (induction as arbitrary: s) (simp_all add: award_def)

text \<open>The score, its player and its chart are there and the chart is the one the score was set on.\<close>

definition assessed :: "int \<Rightarrow> medal_score \<Rightarrow> string \<Rightarrow> medal_map \<Rightarrow> medal_db \<Rightarrow> bool" where
  "assessed sid m n bm s \<longleftrightarrow>
     find (\<lambda>m. pl_id (ms_play m) = sid) (medal_scores s) = Some m \<and> map_of (medal_users s) (pl_user (ms_play m)) = Some n
     \<and> find (\<lambda>bm. df_id (mb_row bm) = pl_beatmap (ms_play m)) (medal_maps s) = Some bm
     \<and> py_lower (map_md5 m) = py_lower (df_checksum (mb_row bm))"

lemma process_run:
  "assessed sid m n bm s \<Longrightarrow> process_achievements t env medals sid s =
     (case satisfied env s m bm (not_achieved s (pl_user (ms_play m)) medals) of
        Inl e \<Rightarrow> (Inl e, s)
      | Inr r \<Rightarrow> (Inr (), fold (award t (pl_user (ms_play m)) n (Some (sd_mode (ms_data m)))) r s))"
  by (simp add: assessed_def process_achievements_def unlock_achievements_def run_simps split: sum.split)
    (auto simp: do_if_def run_simps)

lemma process_idle:
  assumes "\<And>m n bm. \<not> assessed sid m n bm s"
  shows "process_achievements t env medals sid s \<in> {(Inr (), s), (Inl (RuntimeErr ''AttributeError''), s)}"
  using assms unfolding assessed_def process_achievements_def
  by (auto simp: run_simps split: option.split)

lemma process_cases:
  assumes "process_achievements t env medals sid s = (r, s')"
  obtains (idle) "s' = s" "r = Inr () \<or> r = Inl (RuntimeErr ''AttributeError'')" "\<And>m n bm. \<not> assessed sid m n bm s"
  | (failed) m n bm e where "assessed sid m n bm s" "s' = s" "r = Inl e"
      "satisfied env s m bm (not_achieved s (pl_user (ms_play m)) medals) = Inl e"
  | (awarded) m n bm as where "assessed sid m n bm s" "r = Inr ()"
      "satisfied env s m bm (not_achieved s (pl_user (ms_play m)) medals) = Inr as"
      "s' = fold (award t (pl_user (ms_play m)) n (Some (sd_mode (ms_data m)))) as s"
proof (cases "\<exists>m n bm. assessed sid m n bm s")
  case True
  then obtain m n bm where a: "assessed sid m n bm s" by blast
  note run = assms[unfolded process_run[OF a]]
  show ?thesis
  proof (cases "satisfied env s m bm (not_achieved s (pl_user (ms_play m)) medals)")
    case (Inl e)
    show ?thesis using run Inl by (intro failed[OF a _ _ Inl]) simp_all
  next
    case (Inr as)
    show ?thesis using run Inr by (intro awarded[OF a _ Inr]) simp_all
  qed
next
  case False
  then show ?thesis using assms process_idle[of sid s t env medals] by (intro idle) auto
qed

lemma not_achieved_iff: "x \<in> set (not_achieved s uid ms) \<longleftrightarrow> x \<in> set ms \<and> (uid, ach_id (fst x)) \<notin> held s"
  by (auto simp: not_achieved_def held_def)

section \<open>Registries\<close>

text \<open>A predicate that does not depend on what has been awarded.\<close>

definition blind :: "medal_check \<Rightarrow> bool" where
  "blind c \<longleftrightarrow> (\<forall>env s m bm x y z. c env (s\<lparr>user_achievements := x, unlock_notices := y, unlock_events := z\<rparr>) m bm = c env s m bm)"

locale medal_registry =
  fixes medals :: medals
  assumes distinct_ids: "distinct (map (ach_id \<circ> fst) medals)"
    and blind_checks: "(a, Some c) \<in> set medals \<Longrightarrow> blind c"
begin

lemma blind_after: "blind c \<Longrightarrow> c env (fold (award t uid n g) as s) m bm = c env s m bm"
  unfolding fold_award blind_def by blast

lemma earns_after:
  assumes "x \<in> set medals"
  shows "earns env (fold (award t uid n g) as s) m bm x = earns env s m bm x"
    and "fails_with env (fold (award t uid n g) as s) m bm x e = fails_with env s m bm x e"
proof -
  have "blind c" if "snd x = Some c" for c using blind_checks[of "fst x" c] assms that by (metis prod.collapse)
  then show "earns env (fold (award t uid n g) as s) m bm x = earns env s m bm x"
    and "fails_with env (fold (award t uid n g) as s) m bm x e = fails_with env s m bm x e"
    by (simp_all add: earns_def fails_with_def blind_after split: option.split)
qed

lemma missing_distinct: "distinct (map (ach_id \<circ> fst) (filter P (not_achieved s uid medals)))"
  using distinct_ids unfolding not_achieved_def by (simp only: filter_filter distinct_map_filter)

lemma awards_once:
  assumes "satisfied env s m bm (not_achieved s uid medals) = Inr as"
  shows "distinct (map ach_id as)" and "a \<in> set as \<Longrightarrow> (uid, ach_id a) \<notin> held s"
proof -
  note as = satisfied_Inr[OF assms]
  show "distinct (map ach_id as)" using missing_distinct unfolding as by (simp add: comp_def)
  show "a \<in> set as \<Longrightarrow> (uid, ach_id a) \<notin> held s" unfolding as by (auto simp: not_achieved_iff)
qed

lemma process_held_once:
  assumes run: "process_achievements t env medals sid s = (r, s')" and once: "held_once s"
  shows "held_once s'"
  using run
proof (cases rule: process_cases)
  case (awarded m n bm as)
  have "distinct (map (\<lambda>a. (pl_user (ms_play m), ach_id a)) as)"
    using awards_once(1)[OF awarded(3)] by (simp add: distinct_map inj_on_def)
  moreover have "(\<lambda>r. (ua_user r, ua_medal r)) ` set (user_achievements s) \<inter> (\<lambda>a. (pl_user (ms_play m), ach_id a)) ` set as = {}"
  proof (intro equals0I, elim IntE)
    fix x assume x: "x \<in> (\<lambda>r. (ua_user r, ua_medal r)) ` set (user_achievements s)"
      and "x \<in> (\<lambda>a. (pl_user (ms_play m), ach_id a)) ` set as"
    then obtain a where "a \<in> set as" "x = (pl_user (ms_play m), ach_id a)" by (elim imageE)
    then show False using awards_once(2)[OF awarded(3)] x unfolding held_def by simp
  qed
  ultimately show ?thesis using once unfolding awarded(4) fold_award by (simp add: held_once_def comp_def image_image)
qed (use once in simp_all)

lemma process_awards:
  assumes "assessed sid m n bm s" "process_achievements t env medals sid s = (Inr (), s')"
  shows "held s' = held s \<union> {(pl_user (ms_play m), ach_id (fst x)) |x. x \<in> set medals \<and> earns env s m bm x}"
proof -
  from process_run[OF assms(1), of t env medals] assms(2)
  obtain as where as: "satisfied env s m bm (not_achieved s (pl_user (ms_play m)) medals) = Inr as"
    and s': "s' = fold (award t (pl_user (ms_play m)) n (Some (sd_mode (ms_data m)))) as s" by (auto split: sum.splits)
  have "held s' = held s \<union> (\<lambda>a. (pl_user (ms_play m), ach_id a)) ` set as"
    unfolding s' fold_award by (simp add: held_def image_Un image_image)
  also have "set as = fst ` {x \<in> set medals. earns env s m bm x \<and> (pl_user (ms_play m), ach_id (fst x)) \<notin> held s}"
    unfolding satisfied_Inr[OF as] by (auto simp: not_achieved_iff)
  finally have "held s' = held s \<union> (\<lambda>x. (pl_user (ms_play m), ach_id (fst x))) `
      {x \<in> set medals. earns env s m bm x \<and> (pl_user (ms_play m), ach_id (fst x)) \<notin> held s}" by (simp only: image_image)
  then show ?thesis by blast
qed

lemma assessed_after: "assessed sid m n bm (fold (award t uid k g) as s) = assessed sid m n bm s"
  by (simp add: assessed_def fold_award)

lemma satisfied_none:
  "(\<And>x. x \<in> set ms \<Longrightarrow> \<not> earns env s m bm x) \<Longrightarrow> (\<And>x e. x \<in> set ms \<Longrightarrow> \<not> fails_with env s m bm x e) \<Longrightarrow> satisfied env s m bm ms = Inr []"
proof (cases "satisfied env s m bm ms")
  case (Inr r)
  then show "(\<And>x. x \<in> set ms \<Longrightarrow> \<not> earns env s m bm x) \<Longrightarrow> satisfied env s m bm ms = Inr []"
    using satisfied_Inr[OF Inr] by (simp add: filter_empty_conv)
qed (use satisfied_Inl in blast)

lemma process_again:
  assumes run: "process_achievements t env medals sid s = (Inr (), s')"
  shows "process_achievements t' env medals sid s' = (Inr (), s')"
  using run
proof (cases rule: process_cases)
  case idle
  have "process_achievements t' env medals sid s = process_achievements t env medals sid s" if "\<And>m n bm. \<not> assessed sid m n bm s"
    using that unfolding assessed_def process_achievements_def by (auto simp: run_simps split: option.split)
  then show ?thesis using idle run by simp
next
  case (awarded m n bm as)
  let ?uid = "pl_user (ms_play m)"
  have a: "assessed sid m n bm s'" unfolding awarded(4) assessed_after by (rule awarded(1))
  note all = process_awards[OF awarded(1) run]
  have "satisfied env s' m bm (not_achieved s' ?uid medals) = Inr []"
  proof (rule satisfied_none)
    fix x assume "x \<in> set (not_achieved s' ?uid medals)"
    then have x: "x \<in> set medals" "(?uid, ach_id (fst x)) \<notin> held s'" by (simp_all add: not_achieved_iff)
    then have "\<not> earns env s m bm x" using all by blast
    then show "\<not> earns env s' m bm x" unfolding awarded(4) earns_after(1)[OF x(1)] .
    fix e
    have "x \<in> set (not_achieved s ?uid medals)" using x all by (simp add: not_achieved_iff)
    then have "\<not> fails_with env s m bm x e" using satisfied_total[OF awarded(3)] by blast
    then show "\<not> fails_with env s' m bm x e" unfolding awarded(4) earns_after(2)[OF x(1)] .
  qed
  then show ?thesis unfolding process_run[OF a] by simp
qed simp

end
section \<open>The shipped registry\<close>

lemma policy_of_awards [simp]:
  "policy_of (s\<lparr>user_achievements := x, unlock_notices := y, unlock_events := z\<rparr>) bm = policy_of s bm"
  "statistics_of (s\<lparr>user_achievements := x, unlock_notices := y, unlock_events := z\<rparr>) g u = statistics_of s g u"
  by (simp_all add: policy_of_def statistics_of_def)

lemma blind_families [simp]:
  "blind (process_streak a b)" "blind (process_combo a b)" "blind (process_playcount a b)" "blind (process_tth a b g)"
  "blind (process_mod acr)" "blind (process_category_mod kind)" "blind (process_skill g star sk)"
  unfolding blind_def process_streak_def process_combo_def process_playcount_def process_tth_def process_mod_def
    process_category_mod_def process_skill_def by simp_all

lemmas secret_defs = jackpot_def nonstop_def time_dilation_def to_the_core_def wysi_def prepared_def reckless_adandon_def
  lights_out_def camera_shy_def the_sun_of_all_fears_def hour_before_the_down_def slow_and_steady_def no_time_to_spare_def
  sognare_def realtor_extraordinaire_def impeccable_def aeon_def quick_maths_def kaleidoscope_def valediction_def
  right_on_time_def not_again_def deliberation_def clarity_def autocreation_def value_your_identity_def
  by_the_skin_of_the_teeth_def meticulous_mayhem_def

lemma blind_secrets [simp]:
  "blind jackpot" "blind nonstop" "blind time_dilation" "blind to_the_core" "blind wysi" "blind prepared" "blind reckless_adandon"
  "blind lights_out" "blind camera_shy" "blind the_sun_of_all_fears" "blind hour_before_the_down" "blind slow_and_steady"
  "blind no_time_to_spare" "blind sognare" "blind realtor_extraordinaire" "blind impeccable" "blind aeon" "blind quick_maths"
  "blind kaleidoscope" "blind valediction" "blind right_on_time" "blind not_again" "blind deliberation" "blind clarity"
  "blind autocreation" "blind value_your_identity" "blind by_the_skin_of_the_teeth" "blind meticulous_mayhem"
  unfolding blind_def secret_defs by simp_all

lemmas medal_tables = CLIENTSIDE_MEDALS_def STREAK_MEDALS_def HUSH_HUSH_MEDALS_def INTRO_MEDALS_def COMBO_MEDALS_def
  PLAYCOUNT_MEDALS_def TOTAL_HITS_MEDALS_def SKILL_OSU_MEDALS_def SKILL_TAIKO_MEDALS_def SKILL_FRUITS_MEDALS_def SKILL_MANIA_MEDALS_def

lemma modules_blind: "list_all (\<lambda>x. \<forall>c. snd x = Some c \<longrightarrow> blind c) (concat ACHIEVEMENT_MODULES)"
  unfolding ACHIEVEMENT_MODULES_def medal_tables by simp

lemma modules_ids: "distinct (map (ach_id \<circ> fst) (concat ACHIEVEMENT_MODULES))"
  unfolding ACHIEVEMENT_MODULES_def medal_tables by simp

lemma update_all: "distinct (map fst (d @ ms)) \<Longrightarrow> fold (\<lambda>(a, c). AList.update a c) ms d = d @ ms"
proof (induction ms arbitrary: d)
  case (Cons x ms)
  have new: "AList.update k v d = d @ [(k, v)]" if "k \<notin> fst ` set d" for k v and d :: "('a \<times> 'b) list"
    using that by (induction d) auto
  show ?case using Cons.prems Cons.IH[of "d @ [x]"] by (cases x) (auto simp: new)
qed simp

lemma load_distinct: "distinct (map fst (concat modules)) \<Longrightarrow> load_achievements modules = concat modules"
proof -
  have "fold (\<lambda>ms d. fold (\<lambda>(a, c). AList.update a c) ms d) modules d = d @ concat modules" if "distinct (map fst (d @ concat modules))" for d
    using that
  proof (induction modules arbitrary: d)
    case (Cons ms modules)
    have "fold (\<lambda>(a, c). AList.update a c) ms d = d @ ms" using Cons.prems by (intro update_all) auto
    then show ?case using Cons.IH[of "d @ ms"] Cons.prems by simp
  qed simp
  from this[of "[]"] show "distinct (map fst (concat modules)) \<Longrightarrow> load_achievements modules = concat modules"
    by (simp add: load_achievements_def)
qed

text \<open>The modules in any order.\<close>

lemma registry_of:
  assumes "mset modules = mset ACHIEVEMENT_MODULES"
  shows "medal_registry (load_achievements modules)"
proof -
  have same: "mset (concat modules) = mset (concat ACHIEVEMENT_MODULES)" 
    by (simp only: mset_concat sum_mset_sum_list[symmetric] mset_map assms)
  then have "mset (map (ach_id \<circ> fst) (concat modules)) = mset (map (ach_id \<circ> fst) (concat ACHIEVEMENT_MODULES))" by simp
  from mset_eq_imp_distinct_iff[OF this] have ids: "distinct (map (ach_id \<circ> fst) (concat modules))" using modules_ids by blast
  then have "distinct (map fst (concat modules))" by (metis distinct_map map_map)
  note load = load_distinct[OF this]
  have "set (concat modules) = set (concat ACHIEVEMENT_MODULES)" using same by (metis set_mset_mset)
  then have "blind c" if "(a, Some c) \<in> set (concat modules)" for a c
    using modules_blind that unfolding list_all_iff by (metis snd_conv)
  then show ?thesis unfolding load using ids by unfold_locales blast+
qed

interpretation registry: medal_registry "load_achievements ACHIEVEMENT_MODULES"
  by (rule registry_of) (rule refl)

section \<open>Evaluation\<close>

text \<open>C30: the evaluation of a score awards exactly what the score earns.  In whatever order the modules were loaded, after an
  evaluation that returns, the medals held are those held before and, for the player of the score, every medal whose predicate
  is true of the score and the chart it was set on.\<close>

theorem medals_awarded:
  assumes "mset modules = mset ACHIEVEMENT_MODULES" "assessed sid m n bm s"
    and "process_achievements t env (load_achievements modules) sid s = (Inr (), s')"
  shows "held s' = held s \<union> {(pl_user (ms_play m), ach_id (fst x)) |x. x \<in> set (load_achievements modules) \<and> earns env s m bm x}"
  by (rule medal_registry.process_awards[OF registry_of[OF assms(1)] assms(2,3)])

text \<open>C31: a score that is delivered twice awards nothing twice.  An evaluation that returns leaves every medal held at most once,
  and evaluating the same score again, at any later time, changes nothing.\<close>

theorem processing_again:
  assumes "held_once s" "process_achievements t env (load_achievements ACHIEVEMENT_MODULES) sid s = (Inr (), s')"
  shows "held_once s' \<and> process_achievements t' env (load_achievements ACHIEVEMENT_MODULES) sid s' = (Inr (), s')"
  using registry.process_held_once[OF assms(2,1)] registry.process_again[OF assms(2)] by blast

text \<open>C32: one failing predicate withholds every medal.  The evaluation raises exactly when the predicate of some medal the player
  does not hold raises (the difficulty calculator is the usual cause); then nothing is written, not even the medals that
  were earned.\<close>

theorem failing_check_awards_nothing:
  assumes found: "assessed sid m n bm s"
  shows "((\<exists>x \<in> set (load_achievements ACHIEVEMENT_MODULES). (pl_user (ms_play m), ach_id (fst x)) \<notin> held s \<and> (\<exists>e. fails_with env s m bm x e))
       \<longleftrightarrow> (\<exists>e. process_achievements t env (load_achievements ACHIEVEMENT_MODULES) sid s = (Inl e, s)))
     \<and> (fst (process_achievements t env (load_achievements ACHIEVEMENT_MODULES) sid s) = Inr ()
        \<or> snd (process_achievements t env (load_achievements ACHIEVEMENT_MODULES) sid s) = s)"
proof -
  let ?missing = "not_achieved s (pl_user (ms_play m)) (load_achievements ACHIEVEMENT_MODULES)"
  note run = process_run[OF found, of t env "load_achievements ACHIEVEMENT_MODULES"]
  have "(\<exists>x \<in> set ?missing. \<exists>e. fails_with env s m bm x e) \<longleftrightarrow> (\<exists>e. satisfied env s m bm ?missing = Inl e)"
    using satisfied_total[of env s m bm ?missing] satisfied_Inl[of env s m bm ?missing]
    by (cases "satisfied env s m bm ?missing") fastforce+
  moreover have "(\<exists>x \<in> set ?missing. \<exists>e. fails_with env s m bm x e)
     \<longleftrightarrow> (\<exists>x \<in> set (load_achievements ACHIEVEMENT_MODULES). (pl_user (ms_play m), ach_id (fst x)) \<notin> held s \<and> (\<exists>e. fails_with env s m bm x e))"
    by (auto simp only: not_achieved_iff)
  ultimately show ?thesis unfolding run by (auto split: sum.split)
qed

section \<open>Medals that cannot be earned as described\<close>

text \<open>To The Core asks for Double Time and Nightcore at once, which no accepted submission has.\<close>

lemma speed_mods_exclusive:
  assumes "r \<in> {0, 1, 2, 3}" "validate_mods r ms = Inr ()" "''DT'' \<in> set (mod_to_save ms)"
  shows "''NC'' \<notin> set (mod_to_save ms)"
proof
  assume "''NC'' \<in> set (mod_to_save ms)"
  then obtain x y where x: "x \<in> set ms" "acronym x = ''DT''" and y: "y \<in> set ms" "acronym y = ''NC''"
    using assms(3) by (auto simp: mod_to_save_def)
  have table: "rejects r x y" "rejects r y x"
    using assms(1) x(2) y(2) by (auto simp: rejects_def mod_info_of_def API_MODS_def OSU_MODS_def TAIKO_MODS_def CATCH_MODS_def MANIA_MODS_def)
  have "sorted_wrt (\<lambda>m n. \<not> rejects r m n) ms" using assms(2) by (simp add: validate_iff)
  moreover obtain i j where "i < length ms" "ms ! i = x" "j < length ms" "ms ! j = y" using x(1) y(1) by (metis in_set_conv_nth)
  moreover have "i \<noteq> j" using x(2) y(2) \<open>ms ! i = x\<close> \<open>ms ! j = y\<close> by auto
  ultimately show False using table by (metis linorder_neqE_nat sorted_wrt_nth_less)
qed

theorem to_the_core_unreachable:
  assumes "mode_int (sd_mode (ms_data m)) \<in> {0, 1, 2, 3}" "validate_mods (mode_int (sd_mode (ms_data m))) (sd_mods (ms_data m)) = Inr ()"
  shows "to_the_core env s m bm = Inr False"
  using speed_mods_exclusive[OF assms] by (auto simp: to_the_core_def)

text \<open>While the nightly job runs on schedule nobody who has not had a streak of seven days before reaches one.\<close>

theorem streak_medals_unreachable:
  assumes "keyed_rows d" "list_all (\<lambda>r. daily_streak_best r < 7) (daily_rows d)" "on_schedule None (set (room_users d)) es"
    and "challenge_stats s = daily_rows (fold run_event es d)"
  shows "process_streak 7 30 env s m bm = Inr False \<and> process_streak 30 0 env s m bm = Inr False"
proof -
  have start: "daily_streak_best (row_at d u) < 7" for u
    using assms(1,2) get_row_mem[of dc_user "daily_rows d" u]
    by (auto simp: keyed_rows_def row_at_def new_daily_def list_all_iff split: option.split)
  have "short_streaks (row_at d) (fold run_event es d)"
    by (rule challenge_run[OF rows_start[OF assms(1)] _ assms(3)]) (simp add: settled_def)
  then have "daily_streak_best r \<le> max 1 (daily_streak_best (row_at d u))" if "get_row dc_user u (challenge_stats s) = Some r" for r u
    using that row_of_user unfolding assms(4) no_longer_def by blast
  then have "daily_streak_best r < 7" if "get_row dc_user u (challenge_stats s) = Some r" for r u
    using that start[of u] by fastforce
  then show ?thesis by (fastforce simp: process_streak_def in_band_def split: option.split)
qed

text \<open>Thirty million hits alone do not earn the medal for thirty million hits.\<close>

theorem top_hits_medal_counts_plays:
  assumes "statistics_of s TAIKO (pl_user (ms_play m)) = Some u" "total_hits u = 30000000" "play_count u < 30000000"
    "sd_mode (ms_data m) = TAIKO"
  shows "process_tth 30000000 0 TAIKO env s m bm = Inr False"
  using assms by (simp add: process_tth_def bad_band_def)

text \<open>Double Time without an explicit speed counts as the normal speed, so a map of 45 seconds is too long for No Time To Spare
  although it lasts thirty with the mod.\<close>

theorem default_speed_counts_as_one:
  assumes "sd_mods (ms_data m) = [plain ''DT'']" "perfect_rank m" "mb_total_length bm = 45"
  shows "no_time_to_spare env s m bm = Inr False"
  using assms by (simp add: no_time_to_spare_def mod_to_save_def get_speed_rate_def plain_def andthen_def number_def num_of_def)

text \<open>The client may unlock one of its medals any number of times.\<close>

theorem clientside_medal_repeats:
  assumes "map_of (medal_users s) uid = Some n" "map_of (clientside_medals medals) aid = Some a"
  shows "\<exists>s'. seq (unlock_clientside_achievement t medals uid aid) (unlock_clientside_achievement t medals uid aid) s = (Inr (), s')
    \<and> \<not> held_once s'"
proof -
  have run: "unlock_clientside_achievement t medals uid aid x = (Inr (), award t uid n None a x)" if "medal_users x = medal_users s" for x
    using assms that by (simp add: unlock_clientside_achievement_def unlock_achievements_def run_simps)
  have "medal_users (award t uid n None a s) = medal_users s" by (simp add: award_def)
  then show ?thesis using run[of s] run[of "award t uid n None a s"]
    by (simp add: step_runs(3)[where m = "unlock_clientside_achievement t medals uid aid"]) (simp add: award_def held_once_def)
qed

section \<open>Examples\<close>

definition demo_map :: medal_map where
  "demo_map = \<lparr>mb_row = \<lparr>df_id = 3, df_set = 5, df_checksum = ''x'', df_status = RANKED, df_updated = 0, df_deleted = False\<rparr>,
     hit_length = 80, mb_total_length = 90, mb_max_combo = Some 100, mb_title = ''t'', mb_artist = ''a'', mb_creator = ''c'',
     mb_ranked_date = None\<rparr>"

definition demo_score :: medal_score where
  "demo_score = \<lparr>ms_play = demo_play 1 222222 Rank_A True, map_md5 = ''X''\<rparr>"

definition demo_medals :: medal_db where
  "demo_medals = \<lparr>rankings = \<lparr>beatmapsets = [], difficulties = [], set_policies = [], map_policies = [], ranking_events = [], audits = [],
       sync_records = [], score_tables = demo_points\<rparr>,
     medal_scores = [demo_score], medal_maps = [demo_map], challenge_stats = [], medal_users = [(7, ''n'')],
     user_achievements = [\<lparr>ua_user = 7, ua_medal = 124, ua_at = 0\<rparr>], unlock_events = [], unlock_notices = []\<rparr>"

definition demo_env :: "(error + real) \<Rightarrow> medal_env" where
  "demo_env stars = \<lparr>me_config = demo_config, me_accepts = (\<lambda>_ _. True), me_can_calculate = (\<lambda>_. True), me_stars = (\<lambda>_ _ _ _. stars)\<rparr>"

lemma demo_assessed: "assessed 1 demo_score ''n'' demo_map demo_medals"
proof -
  have "py_lower ''X'' = py_lower ''x''" by code_simp
  then show ?thesis by (simp add: assessed_def demo_medals_def demo_score_def demo_map_def)
qed

text \<open>With a calculator that answers and numeric speeds no predicate fails.\<close>

definition answers :: "medal_env \<Rightarrow> medal_score \<Rightarrow> bool" where
  "answers env m \<longleftrightarrow> (\<forall>a b c d. \<exists>x. me_stars env a b c d = Inr x) \<and> (\<exists>r. get_speed_rate (sd_mods (ms_data m)) = Inr r)
     \<and> (\<forall>kind. \<exists>l. mods_of_type (mode_int (sd_mode (ms_data m))) kind = Inr l)"

lemma stars_answer: "answers env m \<Longrightarrow> stars_at_least b env m bm \<noteq> Inl e"
  unfolding answers_def stars_at_least_def calculate_attributes_def by (auto simp: andthen_def split: sum.splits) (metis Inl_Inr_False)

lemma families_answer:
  assumes "answers env m"
  shows "process_streak a b env s m bm \<noteq> Inl e" "process_combo a b env s m bm \<noteq> Inl e" "process_playcount a b env s m bm \<noteq> Inl e"
    "process_tth a b g env s m bm \<noteq> Inl e" "process_mod acr env s m bm \<noteq> Inl e" "process_category_mod kind env s m bm \<noteq> Inl e"
    "process_skill g star sk env s m bm \<noteq> Inl e"
proof -
  obtain st where st: "me_stars env = (\<lambda>a b c d. Inr (st a b c d))"
    using assms unfolding answers_def by (metis)
  obtain l where l: "\<And>kind. mods_of_type (mode_int (sd_mode (ms_data m))) kind = Inr (l kind)"
    using assms unfolding answers_def by metis
  show "process_streak a b env s m bm \<noteq> Inl e" "process_combo a b env s m bm \<noteq> Inl e" "process_playcount a b env s m bm \<noteq> Inl e"
    "process_tth a b g env s m bm \<noteq> Inl e" "process_mod acr env s m bm \<noteq> Inl e" "process_category_mod kind env s m bm \<noteq> Inl e"
    "process_skill g star sk env s m bm \<noteq> Inl e"
    by (simp_all add: process_streak_def process_combo_def process_playcount_def process_tth_def process_mod_def
        process_category_mod_def process_skill_def andthen_def Let_def l st)
qed

lemma plain_secrets_answer [simp]:
  "jackpot env s m bm \<noteq> Inl e" "nonstop env s m bm \<noteq> Inl e" "to_the_core env s m bm \<noteq> Inl e"
  "wysi env s m bm \<noteq> Inl e" "prepared env s m bm \<noteq> Inl e" "lights_out env s m bm \<noteq> Inl e"
  "camera_shy env s m bm \<noteq> Inl e" "the_sun_of_all_fears env s m bm \<noteq> Inl e"
  "hour_before_the_down env s m bm \<noteq> Inl e" "sognare env s m bm \<noteq> Inl e"
  "realtor_extraordinaire env s m bm \<noteq> Inl e" "quick_maths env s m bm \<noteq> Inl e" "kaleidoscope env s m bm \<noteq> Inl e"
  "valediction env s m bm \<noteq> Inl e" "right_on_time env s m bm \<noteq> Inl e" "not_again env s m bm \<noteq> Inl e"
  "clarity env s m bm \<noteq> Inl e" "autocreation env s m bm \<noteq> Inl e" "value_your_identity env s m bm \<noteq> Inl e"
  "by_the_skin_of_the_teeth env s m bm \<noteq> Inl e" "meticulous_mayhem env s m bm \<noteq> Inl e"
  unfolding jackpot_def nonstop_def to_the_core_def wysi_def prepared_def lights_out_def camera_shy_def the_sun_of_all_fears_def hour_before_the_down_def sognare_def realtor_extraordinaire_def quick_maths_def kaleidoscope_def valediction_def right_on_time_def not_again_def clarity_def autocreation_def value_your_identity_def by_the_skin_of_the_teeth_def meticulous_mayhem_def by simp_all

lemma secrets_answer:
  assumes "answers env m"
  shows "time_dilation env s m bm \<noteq> Inl e" "reckless_adandon env s m bm \<noteq> Inl e" "slow_and_steady env s m bm \<noteq> Inl e"
    "no_time_to_spare env s m bm \<noteq> Inl e" "impeccable env s m bm \<noteq> Inl e" "aeon env s m bm \<noteq> Inl e"
    "deliberation env s m bm \<noteq> Inl e"
proof -
  obtain r where r: "get_speed_rate (sd_mods (ms_data m)) = Inr r" using assms unfolding answers_def by blast
  show "time_dilation env s m bm \<noteq> Inl e" "reckless_adandon env s m bm \<noteq> Inl e" "slow_and_steady env s m bm \<noteq> Inl e"
    "no_time_to_spare env s m bm \<noteq> Inl e" "impeccable env s m bm \<noteq> Inl e" "aeon env s m bm \<noteq> Inl e"
    "deliberation env s m bm \<noteq> Inl e"
    unfolding time_dilation_def reckless_adandon_def slow_and_steady_def no_time_to_spare_def impeccable_def aeon_def deliberation_def by (simp_all add: stars_answer[OF assms] andthen_def Let_def r split: option.split)
qed

lemma registry_answers:
  assumes "answers env m" "x \<in> set (concat ACHIEVEMENT_MODULES)"
  shows "\<not> fails_with env s m bm x e"
proof -
  have "list_all (\<lambda>x. \<not> fails_with env s m bm x e) ms"
    if "ms \<in> {CLIENTSIDE_MEDALS, STREAK_MEDALS, HUSH_HUSH_MEDALS, INTRO_MEDALS, COMBO_MEDALS, PLAYCOUNT_MEDALS, TOTAL_HITS_MEDALS,
       SKILL_OSU_MEDALS, SKILL_TAIKO_MEDALS, SKILL_FRUITS_MEDALS, SKILL_MANIA_MEDALS}" for ms
    using that unfolding medal_tables fails_with_def by (elim insertE emptyE) (simp_all add: families_answer[OF assms(1)] secrets_answer[OF assms(1)])
  then have "list_all (\<lambda>x. \<not> fails_with env s m bm x e) (concat ACHIEVEMENT_MODULES)"
    by (simp add: ACHIEVEMENT_MODULES_def)
  then show ?thesis using assms(2) unfolding list_all_iff by blast
qed

lemma registry_load: "load_achievements ACHIEVEMENT_MODULES = concat ACHIEVEMENT_MODULES"
  using modules_ids by (intro load_distinct) (metis distinct_map map_map)

lemma demo_answers: "answers (demo_env (Inr x)) demo_score"
proof -
  have "\<exists>l. mods_of_type 0 kind = Inr l" for kind by (simp add: mods_of_type_def MOD_TYPES_def)
  then show ?thesis
    by (simp add: answers_def demo_env_def demo_score_def demo_play_def get_speed_rate_def plain_def)
qed

lemma demo_run: "\<exists>s'. process_achievements t (demo_env (Inr x)) (load_achievements ACHIEVEMENT_MODULES) 1 demo_medals = (Inr (), s')"
proof (cases "satisfied (demo_env (Inr x)) demo_medals demo_score demo_map
    (not_achieved demo_medals (pl_user (ms_play demo_score)) (load_achievements ACHIEVEMENT_MODULES))")
  case (Inl e)
  from satisfied_Inl[OF this] obtain y where "y \<in> set (load_achievements ACHIEVEMENT_MODULES)"
    "fails_with (demo_env (Inr x)) demo_medals demo_score demo_map y e" using not_achieved_iff by blast
  then show ?thesis using registry_answers[OF demo_answers] unfolding registry_load by blast
qed (simp add: process_run[OF demo_assessed])

lemma demo_entries:
  "(medal 41 ''Jackpot'' ''all-secret-jackpot'' False, Some jackpot) \<in> set (concat ACHIEVEMENT_MODULES)"
  "(medal 59 ''These Clarion Skies'' ''osu-skill-pass-5'' False, Some (process_skill OSU 5 PASS)) \<in> set (concat ACHIEVEMENT_MODULES)"
  by (simp_all add: ACHIEVEMENT_MODULES_def HUSH_HUSH_MEDALS_def SKILL_OSU_MEDALS_def)

lemma demo_held_once: "held_once demo_medals" by (simp add: held_once_def demo_medals_def)

theorem medals_awarded_witness:
  "\<exists>s'. process_achievements 0 (demo_env (Inr 5)) (load_achievements ACHIEVEMENT_MODULES) 1 demo_medals = (Inr (), s')
     \<and> (7, 41) \<in> held s' \<and> (7, 124) \<in> held s'"
proof -
  obtain s' where s': "process_achievements 0 (demo_env (Inr 5)) (load_achievements ACHIEVEMENT_MODULES) 1 demo_medals = (Inr (), s')"
    using demo_run by blast
  have "jackpot (demo_env (Inr 5)) demo_medals demo_score demo_map = Inr True"
    by (simp add: jackpot_def demo_score_def demo_play_def int_str_def nat_str.simps digit_char_def)
  then have "earns (demo_env (Inr 5)) demo_medals demo_score demo_map (medal 41 ''Jackpot'' ''all-secret-jackpot'' False, Some jackpot)"
    by (simp add: earns_def)
  then have "(pl_user (ms_play demo_score), ach_id (fst (medal 41 ''Jackpot'' ''all-secret-jackpot'' False, Some jackpot))) \<in> held s'"
    using medals_awarded[OF refl demo_assessed s'] demo_entries(1) unfolding registry_load by blast
  moreover have "pl_user (ms_play demo_score) = 7" "(7, 124) \<in> held demo_medals" by (simp_all add: demo_score_def held_def demo_medals_def)
  ultimately show ?thesis using s' medals_awarded[OF refl demo_assessed s'] by auto
qed

theorem processing_again_witness:
  "\<exists>s'. process_achievements 0 (demo_env (Inr 5)) (load_achievements ACHIEVEMENT_MODULES) 1 demo_medals = (Inr (), s')
     \<and> process_achievements 9 (demo_env (Inr 5)) (load_achievements ACHIEVEMENT_MODULES) 1 s' = (Inr (), s')"
proof -
  obtain s' where s': "process_achievements 0 (demo_env (Inr 5)) (load_achievements ACHIEVEMENT_MODULES) 1 demo_medals = (Inr (), s')"
    using demo_run by blast
  show ?thesis using processing_again[OF demo_held_once s', of 9] s' by blast
qed

theorem failing_check_awards_nothing_witness:
  "\<exists>e. process_achievements 0 (demo_env (Inl KeyErr)) (load_achievements ACHIEVEMENT_MODULES) 1 demo_medals = (Inl e, demo_medals)"
proof -
  have "process_skill OSU 5 PASS (demo_env (Inl KeyErr)) demo_medals demo_score demo_map = Inl KeyErr"
    by (simp add: process_skill_def demo_score_def demo_play_def demo_map_def demo_medals_def demo_env_def demo_config_def plain_def Let_def
        policy_of_def effective_beatmap_policy_def status_policy_def mods_can_get_pp_vanilla_def mods_can_get_pp_under_def
        DEFAULT_RANKED_MODS_def RANKED_OSU_def check_settings_def mods_of_type_def MOD_TYPES_def andthen_def has_pp_def)
  then have "fails_with (demo_env (Inl KeyErr)) demo_medals demo_score demo_map
      (medal 59 ''These Clarion Skies'' ''osu-skill-pass-5'' False, Some (process_skill OSU 5 PASS)) KeyErr" by (simp add: fails_with_def)
  moreover have "(pl_user (ms_play demo_score), ach_id (fst (medal 59 ''These Clarion Skies'' ''osu-skill-pass-5'' False, Some (process_skill OSU 5 PASS)))) \<notin> held demo_medals"
    by (simp add: held_def demo_medals_def)
  ultimately have "\<exists>x \<in> set (load_achievements ACHIEVEMENT_MODULES). (pl_user (ms_play demo_score), ach_id (fst x)) \<notin> held demo_medals
      \<and> (\<exists>e. fails_with (demo_env (Inl KeyErr)) demo_medals demo_score demo_map x e)"
    using demo_entries(2) unfolding registry_load by blast
  then show ?thesis using failing_check_awards_nothing[OF demo_assessed] by blast
qed

end
