(* ===== verification/Pins.thy ===== *)
theory Pins
  imports Store GameModes "HOL-Library.Product_Lexorder"
begin

text \<open>
  Scores pinned to a profile: the shared helpers of \<open>app/service/score_pin_service.py\<close> and the endpoints of the game
  client (\<open>app/router/v2/score.py\<close>) and of the website (\<open>app/router/private/web_site.py\<close>).

  A handler works on the rows its session has loaded and flushes them at the commit; an exception discards them, so nothing is
  written before \<open>save_rows\<close>.  Locks, the check of the CSRF token and the cache are left out.
\<close>

section \<open>The table\<close>

record pin_row =
  pn_score :: int
  pn_user :: int
  pn_mode :: game_mode
  pn_passed :: bool
  pn_processed :: bool
  pinned_order :: int

record pin_db =
  pin_rows :: "pin_row list"
  pin_users :: "int list"

record pin_state =
  locked_score :: "pin_row option"
  pinned_scores :: "pin_row list"
  order_normalised :: bool

fun number_from :: "int \<Rightarrow> pin_row list \<Rightarrow> pin_row list" where
  "number_from k [] = []"
| "number_from k (r # rs) = r\<lparr>pinned_order := k\<rparr> # number_from (k + 1) rs"

definition pin_key :: "pin_row \<Rightarrow> int \<times> int" where
  "pin_key r = (pinned_order r, pn_score r)"

definition selected_pins :: "pin_db \<Rightarrow> int \<Rightarrow> game_mode \<Rightarrow> pin_row list" where
  "selected_pins s uid g = sort_key pin_key (filter (\<lambda>r. pn_user r = uid \<and> pn_mode r = g \<and> 0 < pinned_order r) (pin_rows s))"

text \<open>The score is the object of the pinned list when it is in it: the session keeps one object per row.\<close>

definition lock_score_pin_state :: "pin_db \<Rightarrow> int \<Rightarrow> int \<Rightarrow> pin_state" where
  "lock_score_pin_state s uid sid =
     (if uid \<notin> set (pin_users s) then \<lparr>locked_score = None, pinned_scores = [], order_normalised = False\<rparr>
      else case find (\<lambda>r. pn_score r = sid \<and> pn_user r = uid) (pin_rows s) of
             None \<Rightarrow> \<lparr>locked_score = None, pinned_scores = [], order_normalised = False\<rparr>
           | Some sc \<Rightarrow>
               let pinned = number_from 1 (selected_pins s uid (pn_mode sc)) in
               \<lparr>locked_score = Some (case get_row pn_score sid pinned of None \<Rightarrow> sc | Some r \<Rightarrow> r),
                pinned_scores = pinned, order_normalised = pinned \<noteq> selected_pins s uid (pn_mode sc)\<rparr>)"

definition reordered_score_pin_ids :: "int list \<Rightarrow> int \<Rightarrow> int option \<Rightarrow> int option \<Rightarrow> error + int list" where
  "reordered_score_pin_ids ordered_ids sid before after =
     (if sid \<notin> set ordered_ids then Inl (ValueErr ''Score is not pinned'')
      else case (case before of Some i \<Rightarrow> Some i | None \<Rightarrow> after) of
             None \<Rightarrow> Inl (ValueErr ''Reference score is not pinned'')
           | Some ref \<Rightarrow>
               if ref \<notin> set ordered_ids then Inl (ValueErr ''Reference score is not pinned'')
               else if ref = sid then Inl (ValueErr ''A score cannot be reordered relative to itself'')
               else
                 let reordered = filter (\<lambda>i. i \<noteq> sid) ordered_ids;
                     reference_index = length (takeWhile (\<lambda>i. i \<noteq> ref) reordered);
                     destination = (if before \<noteq> None then reference_index else reference_index + 1)
                 in Inr (take destination reordered @ sid # drop destination reordered))"

definition save_rows :: "pin_row list \<Rightarrow> (pin_db, unit) op" where
  "save_rows qs = modify (\<lambda>s. s\<lparr>pin_rows := map (\<lambda>r. case get_row pn_score (pn_score r) qs of None \<Rightarrow> r | Some q \<Rightarrow> q) (pin_rows s)\<rparr>)"

section \<open>The client\<close>

definition pin_score :: "int \<Rightarrow> int \<Rightarrow> (pin_db, unit) op" where
  "pin_score uid sid =
     bnd (gets (\<lambda>s. lock_score_pin_state s uid sid)) (\<lambda>st.
     case locked_score st of
       None \<Rightarrow> reject ''Score not found'' 404
     | Some sc \<Rightarrow>
         if \<not> pn_passed sc then reject ''Score not found'' 404
         else if 0 < pinned_order sc then do_if (order_normalised st) (save_rows (pinned_scores st))
         else save_rows (pinned_scores st @ [sc\<lparr>pinned_order := int (length (pinned_scores st)) + 1\<rparr>]))"

definition without_pin :: "int \<Rightarrow> int \<Rightarrow> pin_row \<Rightarrow> pin_row" where
  "without_pin sid removed_order r =
     (if pn_score r = sid then r\<lparr>pinned_order := 0\<rparr>
      else if removed_order < pinned_order r then r\<lparr>pinned_order := pinned_order r - 1\<rparr> else r)"

definition unpin_score :: "int \<Rightarrow> int \<Rightarrow> (pin_db, unit) op" where
  "unpin_score uid sid =
     bnd (gets (\<lambda>s. lock_score_pin_state s uid sid)) (\<lambda>st.
     case locked_score st of
       None \<Rightarrow> reject ''Score not found'' 404
     | Some sc \<Rightarrow>
         if pinned_order sc = 0 then do_if (order_normalised st) (save_rows (pinned_scores st))
         else save_rows (map (without_pin sid (pinned_order sc)) (pinned_scores st)))"

definition rows_in_order :: "pin_row list \<Rightarrow> int list \<Rightarrow> pin_row list" where
  "rows_in_order pinned ids = number_from 1 (map (\<lambda>i. the (get_row pn_score i pinned)) ids)"

definition reorder_error :: "error \<Rightarrow> bool \<Rightarrow> error" where
  "reorder_error e has_after =
     (if e = ValueErr ''Reference score is not pinned''
      then Http 404 (if has_after then ''After score not found'' else ''Before score not found'') else Http 400 ''Invalid request'')"

text \<open>A reference with the id 0 is a reference, but the message takes it for a missing one.\<close>

definition reorder_score_pin :: "int \<Rightarrow> int \<Rightarrow> int option \<Rightarrow> int option \<Rightarrow> (pin_db, unit) op" where
  "reorder_score_pin uid sid after before =
     (if (after = None) = (before = None) then reject ''Invalid request'' 400
      else
        bnd (gets (\<lambda>s. lock_score_pin_state s uid sid)) (\<lambda>st.
        case locked_score st of
          None \<Rightarrow> reject ''Score not found'' 404
        | Some sc \<Rightarrow>
            if pinned_order sc = 0 then reject ''Score is not pinned'' 400
            else
              let current_ids = map pn_score (pinned_scores st) in
              case reordered_score_pin_ids current_ids sid before after of
                Inl e \<Rightarrow> throw (reorder_error e (after \<noteq> None \<and> after \<noteq> Some 0))
              | Inr ordered_ids \<Rightarrow>
                  if \<not> order_normalised st \<and> ordered_ids = current_ids then ret ()
                  else save_rows (rows_in_order (pinned_scores st) ordered_ids)))"

section \<open>The website\<close>

text \<open>\<open>restricted\<close> is the state of the account.  The results are the fields \<open>pinned_order\<close> of the responses.\<close>

definition pin_web_score :: "bool \<Rightarrow> int \<Rightarrow> int \<Rightarrow> (pin_db, int option) op" where
  "pin_web_score restricted uid sid =
     (if restricted then reject ''Restricted accounts cannot pin scores'' 403
      else
        bnd (gets (\<lambda>s. lock_score_pin_state s uid sid)) (\<lambda>st.
        case locked_score st of
          None \<Rightarrow> reject ''Score not found'' 404
        | Some sc \<Rightarrow>
            if \<not> pn_processed sc \<or> \<not> pn_passed sc then reject ''Only processed, passed scores can be pinned'' 422
            else if pinned_order sc \<le> 0
            then seq (save_rows (pinned_scores st @ [sc\<lparr>pinned_order := int (length (pinned_scores st)) + 1\<rparr>]))
                     (ret (Some (int (length (pinned_scores st)) + 1)))
            else seq (do_if (order_normalised st) (save_rows (pinned_scores st))) (ret (Some (pinned_order sc)))))"

definition unpin_web_score :: "bool \<Rightarrow> int \<Rightarrow> int \<Rightarrow> (pin_db, int option) op" where
  "unpin_web_score restricted uid sid =
     (if restricted then reject ''Restricted accounts cannot unpin scores'' 403
      else
        bnd (gets (\<lambda>s. lock_score_pin_state s uid sid)) (\<lambda>st.
        case locked_score st of
          None \<Rightarrow> reject ''Score not found'' 404
        | Some sc \<Rightarrow>
            seq (if 0 < pinned_order sc then save_rows (map (without_pin sid (pinned_order sc)) (pinned_scores st))
                 else do_if (order_normalised st) (save_rows (pinned_scores st)))
                (ret None)))"

definition reorder_web_score_pin :: "bool \<Rightarrow> int \<Rightarrow> int \<Rightarrow> int option \<Rightarrow> int option \<Rightarrow> (pin_db, int option) op" where
  "reorder_web_score_pin restricted uid sid after before =
     (if (after = None) = (before = None) then reject ''Provide exactly one of before_score_id or after_score_id'' 422
      else if restricted then reject ''Restricted accounts cannot reorder scores'' 403
      else
        bnd (gets (\<lambda>s. lock_score_pin_state s uid sid)) (\<lambda>st.
        case locked_score st of
          None \<Rightarrow> reject ''Score not found'' 404
        | Some sc \<Rightarrow>
            if pinned_order sc \<le> 0 then reject ''Score is not pinned'' 422
            else
              let current_ids = map pn_score (pinned_scores st) in
              case reordered_score_pin_ids current_ids sid before after of
                Inl e \<Rightarrow> throw (case e of ValueErr w \<Rightarrow> Http 422 w | _ \<Rightarrow> e)
              | Inr ordered_ids \<Rightarrow>
                  seq (do_if (order_normalised st \<or> ordered_ids \<noteq> current_ids) (save_rows (rows_in_order (pinned_scores st) ordered_ids)))
                      (ret (Some (int (length (takeWhile (\<lambda>i. i \<noteq> sid) ordered_ids)) + 1)))))"

end
