(* ===== verification/PinRules.thy ===== *)
theory PinRules
  imports Pins "HOL-Library.Multiset"
begin

text \<open>
  The pinned scores of a player and mode as a list: every request is one operation on this list, whatever the order
  numbers in the table are, and leaves the numbers compact.
\<close>

section \<open>Sorting by distinct keys\<close>

lemma filter_single: "distinct zs \<Longrightarrow> k \<in> set zs \<Longrightarrow> filter (\<lambda>x. x = k) zs = [k]"
  by (induction zs) (auto simp: filter_empty_conv)

lemma sort_key_unique:
  assumes "distinct xs" "distinct ys" "set xs = set ys" "inj_on f (set xs)" "sorted (map f ys)"
  shows "sort_key f xs = ys"
proof (rule properties_for_sort_key)
  show "mset ys = mset xs" using assms(1-3) by (metis set_eq_iff_mset_eq_distinct)
  show "filter (\<lambda>x. f k = f x) ys = filter (\<lambda>x. f k = f x) xs" if "k \<in> set ys" for k
  proof -
    have "filter (\<lambda>x. f k = f x) zs = [k]" if "distinct zs" "set zs = set xs" for zs
    proof -
      have "(f k = f x) = (x = k)" if "x \<in> set zs" for x
        using assms(3,4) that \<open>set zs = set xs\<close> \<open>k \<in> set ys\<close> by (auto simp: inj_on_def)
      then have "filter (\<lambda>x. f k = f x) zs = filter (\<lambda>x. x = k) zs" by (intro filter_cong) simp_all
      also have "\<dots> = [k]" using that \<open>k \<in> set ys\<close> assms(3) by (intro filter_single) simp_all
      finally show ?thesis .
    qed
    then show ?thesis using assms(1-3) by simp
  qed
qed (rule assms(5))

section \<open>Numbering\<close>

lemma number_from_fields [simp]:
  "map pn_score (number_from k rs) = map pn_score rs" "length (number_from k rs) = length rs"
  by (induction rs arbitrary: k) simp_all

lemma number_from_append: "number_from k (rs @ qs) = number_from k rs @ number_from (k + int (length rs)) qs"
  by (induction rs arbitrary: k) (simp_all add: algebra_simps)

lemma number_from_mem: "q \<in> set (number_from k rs) \<Longrightarrow>
   k \<le> pinned_order q \<and> (\<exists>r \<in> set rs. pn_score q = pn_score r \<and> pn_user q = pn_user r \<and> pn_mode q = pn_mode r)"
  by (induction rs arbitrary: k) fastforce+

lemma number_from_sorted: "sorted (map pin_key (number_from k rs))"
proof (induction rs arbitrary: k)
  case (Cons r rs)
  then show ?case by (force simp: pin_key_def less_eq_prod_def dest!: number_from_mem)
qed simp

lemma number_from_orders: "map pinned_order (number_from k rs) = [k..k + int (length rs) - 1]"
proof (induction rs arbitrary: k)
  case (Cons r rs)
  have "[k..k + int (length rs)] = k # [k + 1..k + int (length rs)]" by (simp add: upto_rec1)
  then show ?case using Cons[of "k + 1"] by simp
qed simp

lemma pin_key_inj: "distinct (map pn_score rs) \<Longrightarrow> inj_on pin_key (set rs)"
  by (auto simp: pin_key_def inj_on_def distinct_map)

section \<open>The list of pins\<close>

definition pins :: "pin_db \<Rightarrow> int \<Rightarrow> game_mode \<Rightarrow> int list" where
  "pins s uid g = map pn_score (selected_pins s uid g)"

definition compact :: "pin_db \<Rightarrow> int \<Rightarrow> game_mode \<Rightarrow> bool" where
  "compact s uid g \<longleftrightarrow> map pinned_order (selected_pins s uid g) = [1..int (length (pins s uid g))]"

definition pins_ok :: "pin_db \<Rightarrow> bool" where
  "pins_ok s \<longleftrightarrow> distinct (map pn_score (pin_rows s)) \<and> (\<forall>r \<in> set (pin_rows s). 0 \<le> pinned_order r)"

text \<open>What a flush of rows of one player and mode does.\<close>

definition flushed :: "pin_row list \<Rightarrow> pin_db \<Rightarrow> pin_db" where
  "flushed qs s = s\<lparr>pin_rows := map (\<lambda>r. case get_row pn_score (pn_score r) qs of None \<Rightarrow> r | Some q \<Rightarrow> q) (pin_rows s)\<rparr>"

definition rows_of :: "pin_row list \<Rightarrow> int \<Rightarrow> game_mode \<Rightarrow> pin_db \<Rightarrow> bool" where
  "rows_of qs uid g s \<longleftrightarrow> distinct (map pn_score qs) \<and> (\<forall>q \<in> set qs. 0 \<le> pinned_order q)
     \<and> (\<forall>q \<in> set qs. pn_user q = uid \<and> pn_mode q = g \<and> (\<exists>r \<in> set (pin_rows s). pn_score r = pn_score q \<and> pn_user r = uid \<and> pn_mode r = g))
     \<and> (\<forall>r \<in> set (pin_rows s). pn_user r = uid \<and> pn_mode r = g \<and> 0 < pinned_order r \<longrightarrow> pn_score r \<in> pn_score ` set qs)"

lemma flushed_mem:
  assumes "pins_ok s" "rows_of qs uid g s"
  shows "x \<in> set (pin_rows (flushed qs s)) \<and> pn_user x = uid \<and> pn_mode x = g \<and> 0 < pinned_order x \<longleftrightarrow> x \<in> set qs \<and> 0 < pinned_order x"
proof
  assume x: "x \<in> set (pin_rows (flushed qs s)) \<and> pn_user x = uid \<and> pn_mode x = g \<and> 0 < pinned_order x"
  then obtain r where r: "r \<in> set (pin_rows s)" "x = (case get_row pn_score (pn_score r) qs of None \<Rightarrow> r | Some q \<Rightarrow> q)"
    by (auto simp: flushed_def)
  show "x \<in> set qs \<and> 0 < pinned_order x"
  proof (cases "get_row pn_score (pn_score r) qs")
    case None
    then have "pn_score r \<notin> pn_score ` set qs" by (auto simp: get_row_None)
    moreover have "x = r" using None r by simp
    ultimately show ?thesis using x r(1) assms(2) by (auto simp: rows_of_def)
  next
    case (Some q)
    then show ?thesis using r x assms(2) by (simp add: get_row_mem rows_of_def)
  qed
next
  assume x: "x \<in> set qs \<and> 0 < pinned_order x"
  then obtain r where "r \<in> set (pin_rows s)" "pn_score r = pn_score x" using assms(2) unfolding rows_of_def by blast
  moreover have "get_row pn_score (pn_score x) qs = Some x" using x assms(2) by (simp add: rows_of_def get_row_unique)
  ultimately have "x \<in> set (pin_rows (flushed qs s))" unfolding flushed_def by (force simp: image_iff)
  then show "x \<in> set (pin_rows (flushed qs s)) \<and> pn_user x = uid \<and> pn_mode x = g \<and> 0 < pinned_order x"
    using x assms(2) by (simp add: rows_of_def)
qed

lemma flushed_ids: "rows_of qs uid g s \<Longrightarrow> map pn_score (pin_rows (flushed qs s)) = map pn_score (pin_rows s)"
  by (auto simp: flushed_def rows_of_def get_row_mem split: option.split)

lemma flushed_ok: "pins_ok s \<Longrightarrow> rows_of qs uid g s \<Longrightarrow> pins_ok (flushed qs s)"
  by (simp add: pins_ok_def flushed_ids) (auto simp: flushed_def rows_of_def get_row_mem split: option.split)

lemma filter_map_same: "(\<And>r. r \<in> set rs \<Longrightarrow> f r = r \<or> \<not> P r \<and> \<not> P (f r)) \<Longrightarrow> filter P (map f rs) = filter P rs"
  by (induction rs) (force, simp, metis)

lemma flushed_other:
  assumes "pins_ok s" "rows_of qs uid g s" "u \<noteq> uid \<or> h \<noteq> g"
  shows "selected_pins (flushed qs s) u h = selected_pins s u h"
proof -
  have rows: "pin_rows (flushed qs s) = map (\<lambda>r. case get_row pn_score (pn_score r) qs of None \<Rightarrow> r | Some q \<Rightarrow> q) (pin_rows s)"
    by (simp add: flushed_def)
  have "filter (\<lambda>r. pn_user r = u \<and> pn_mode r = h \<and> 0 < pinned_order r) (pin_rows (flushed qs s))
      = filter (\<lambda>r. pn_user r = u \<and> pn_mode r = h \<and> 0 < pinned_order r) (pin_rows s)"
    unfolding rows
  proof (rule filter_map_same)
    fix r assume r: "r \<in> set (pin_rows s)"
    show "(case get_row pn_score (pn_score r) qs of None \<Rightarrow> r | Some q \<Rightarrow> q) = r \<or>
      \<not> (pn_user r = u \<and> pn_mode r = h \<and> 0 < pinned_order r) \<and>
      \<not> (pn_user (case get_row pn_score (pn_score r) qs of None \<Rightarrow> r | Some q \<Rightarrow> q) = u \<and>
         pn_mode (case get_row pn_score (pn_score r) qs of None \<Rightarrow> r | Some q \<Rightarrow> q) = h \<and>
         0 < pinned_order (case get_row pn_score (pn_score r) qs of None \<Rightarrow> r | Some q \<Rightarrow> q))"
    proof (cases "get_row pn_score (pn_score r) qs")
      case (Some q)
      then have q: "q \<in> set qs" "pn_score q = pn_score r" using assms(2) by (auto simp: rows_of_def get_row_mem)
      then obtain r' where "r' \<in> set (pin_rows s)" "pn_score r' = pn_score r" "pn_user r' = uid" "pn_mode r' = g"
        "pn_user q = uid" "pn_mode q = g" using assms(2) unfolding rows_of_def by metis
      moreover have "r' = r" using same_key[of pn_score "pin_rows s" r' r] calculation(1,2) r assms(1) by (simp add: pins_ok_def)
      ultimately show ?thesis using Some assms(3) by auto
    qed simp
  qed
  then show ?thesis by (simp add: selected_pins_def)
qed

lemma flushed_selected:
  assumes ok: "pins_ok s" and qs: "rows_of qs uid g s" and zs: "filter (\<lambda>q. 0 < pinned_order q) qs = number_from 1 zs"
  shows "selected_pins (flushed qs s) uid g = number_from 1 zs"
  unfolding selected_pins_def
proof (rule sort_key_unique)
  let ?xs = "filter (\<lambda>r. pn_user r = uid \<and> pn_mode r = g \<and> 0 < pinned_order r) (pin_rows (flushed qs s))"
  have ids: "distinct (map pn_score ?xs)"
    using flushed_ok[OF ok qs] by (simp add: pins_ok_def distinct_map_filter)
  then show "distinct ?xs" by (simp add: distinct_map)
  show "inj_on pin_key (set ?xs)" by (rule pin_key_inj[OF ids])
  have "distinct (map pn_score qs)" using qs by (simp add: rows_of_def)
  then have "distinct (map pn_score (filter (\<lambda>q. 0 < pinned_order q) qs))" by (rule distinct_map_filter)
  then show "distinct (number_from 1 zs)" unfolding zs by (simp only: distinct_map)
  show "set ?xs = set (number_from 1 zs)" unfolding zs[symmetric] using flushed_mem[OF ok qs] by auto
qed (rule number_from_sorted)

lemma flush_after:
  assumes "pins_ok s" "rows_of qs uid g s" "filter (\<lambda>q. 0 < pinned_order q) qs = number_from 1 zs"
  shows "pins (flushed qs s) u h = (if u = uid \<and> h = g then map pn_score zs else pins s u h)"
    and "compact (flushed qs s) uid g" and "pins_ok (flushed qs s)"
proof -
  show "pins (flushed qs s) u h = (if u = uid \<and> h = g then map pn_score zs else pins s u h)"
    using flushed_selected[OF assms] flushed_other[OF assms(1,2)] by (auto simp: pins_def)
  show "compact (flushed qs s) uid g"
    by (simp add: compact_def pins_def flushed_selected[OF assms] number_from_orders)
qed (rule flushed_ok[OF assms(1,2)])

section \<open>The locked state\<close>

lemma selected_mem: "r \<in> set (selected_pins s uid g) \<longleftrightarrow> r \<in> set (pin_rows s) \<and> pn_user r = uid \<and> pn_mode r = g \<and> 0 < pinned_order r"
  by (auto simp: selected_pins_def)

lemma selected_ids: "pins_ok s \<Longrightarrow> distinct (map pn_score (selected_pins s uid g))"
  unfolding selected_pins_def pins_ok_def
  by (metis (no_types, lifting) distinct_map_filter mset_eq_imp_distinct_iff mset_map mset_sort)

lemma flushed_same: "pins_ok s \<Longrightarrow> flushed (selected_pins s uid g) s = s"
proof -
  assume ok: "pins_ok s"
  have "(case get_row pn_score (pn_score r) (selected_pins s uid g) of None \<Rightarrow> r | Some q \<Rightarrow> q) = r" if "r \<in> set (pin_rows s)" for r
    using that ok same_key[of pn_score "pin_rows s" _ r]
    by (auto simp: get_row_mem selected_ids selected_mem pins_ok_def split: option.split)
  then show ?thesis by (simp add: flushed_def map_idI)
qed

text \<open>Rows of the player and mode that are in the table and cover the pinned ones.\<close>

definition covering :: "pin_row list \<Rightarrow> int \<Rightarrow> game_mode \<Rightarrow> pin_db \<Rightarrow> bool" where
  "covering rs uid g s \<longleftrightarrow> distinct (map pn_score rs) \<and> set (pins s uid g) \<subseteq> set (map pn_score rs)
     \<and> (\<forall>q \<in> set rs. pn_user q = uid \<and> pn_mode q = g \<and> (\<exists>r \<in> set (pin_rows s). pn_score r = pn_score q \<and> pn_user r = uid \<and> pn_mode r = g))"

lemma covering_rows:
  assumes "covering rs uid g s" "map pn_score qs = map pn_score rs" "\<And>q. q \<in> set qs \<Longrightarrow> 0 \<le> pinned_order q \<and> pn_user q = uid \<and> pn_mode q = g"
  shows "rows_of qs uid g s"
proof -
  have ids: "distinct (map pn_score qs)" "set (map pn_score qs) = set (map pn_score rs)" using assms(1,2) by (simp_all add: covering_def)
  have "\<exists>r \<in> set (pin_rows s). pn_score r = pn_score q \<and> pn_user r = uid \<and> pn_mode r = g" if "q \<in> set qs" for q
  proof -
    have "pn_score q \<in> set (map pn_score rs)" using that ids(2) by (metis image_eqI set_map)
    then show ?thesis using assms(1) by (auto simp: covering_def)
  qed
  moreover have "pn_score r \<in> pn_score ` set qs" if "r \<in> set (pin_rows s)" "pn_user r = uid" "pn_mode r = g" "0 < pinned_order r" for r
  proof -
    have "pn_score r \<in> set (pins s uid g)" using that by (simp add: pins_def selected_mem)
    then show ?thesis using assms(1) ids(2) by (auto simp: covering_def)
  qed
  ultimately show ?thesis using ids(1) assms(3) by (simp add: rows_of_def)
qed

lemma numbered_rows:
  assumes "covering rs uid g s"
  shows "rows_of (number_from 1 rs) uid g s" "filter (\<lambda>q. 0 < pinned_order q) (number_from 1 rs) = number_from 1 rs"
proof -
  show "rows_of (number_from 1 rs) uid g s"
    using assms by (intro covering_rows[OF assms]) (auto simp: covering_def dest!: number_from_mem)
  show "filter (\<lambda>q. 0 < pinned_order q) (number_from 1 rs) = number_from 1 rs"
    by (rule filter_True) (auto dest!: number_from_mem)
qed

lemma number_from_again: "number_from k (number_from j rs) = number_from k rs"
  by (induction rs arbitrary: k j) simp_all

lemma selected_covering: "pins_ok s \<Longrightarrow> covering (number_from k (selected_pins s uid g)) uid g s"
  by (auto simp: covering_def selected_ids pins_def selected_mem dest!: number_from_mem)

lemma number_from_below: "sid \<notin> set (map pn_score rs) \<Longrightarrow> k < m \<Longrightarrow> map (without_pin sid k) (number_from m rs) = number_from (m - 1) rs"
  by (induction rs arbitrary: m) (auto simp: without_pin_def)

lemma unpinned_rows:
  "distinct (map pn_score rs) \<Longrightarrow> q \<in> set (number_from n rs) \<Longrightarrow> pn_score q = sid \<Longrightarrow> 1 \<le> n \<Longrightarrow>
   filter (\<lambda>q. 0 < pinned_order q) (map (without_pin sid (pinned_order q)) (number_from n rs)) = number_from n (filter (\<lambda>r. pn_score r \<noteq> sid) rs)"
proof (induction rs arbitrary: n)
  case (Cons r rs)
  show ?case
  proof (cases "pn_score r = sid")
    case True
    then have away: "sid \<notin> set (map pn_score rs)" using Cons.prems(1) by auto
    then have "q = r\<lparr>pinned_order := n\<rparr>" using Cons.prems(2,3) by (auto dest!: number_from_mem)
    moreover have "filter (\<lambda>r. pn_score r \<noteq> sid) rs = rs" using away by (intro filter_True) auto
    moreover have "filter (\<lambda>q. 0 < pinned_order q) (number_from n rs) = number_from n rs"
      using Cons.prems(4) by (intro filter_True) (auto dest!: number_from_mem)
    moreover have "without_pin sid n (r\<lparr>pinned_order := n\<rparr>) = r\<lparr>pinned_order := 0\<rparr>" using True by (simp add: without_pin_def)
    ultimately show ?thesis using True number_from_below[OF away, of n "n + 1"] by simp
  next
    case False
    then have q: "q \<in> set (number_from (n + 1) rs)" using Cons.prems(2,3) by auto
    then have "n < pinned_order q" by (auto dest!: number_from_mem)
    then show ?thesis using False Cons.IH[OF _ q Cons.prems(3)] Cons.prems(1,4) by (simp add: without_pin_def)
  qed
qed simp

lemma locked_row:
  assumes ok: "pins_ok s" and sc: "locked_score (lock_score_pin_state s uid sid) = Some sc"
  obtains r where "r \<in> set (pin_rows s)" "pn_score r = sid" "pn_user r = uid" "pn_mode r = pn_mode sc" "pn_user sc = uid" "pn_score sc = sid"
    "pinned_scores (lock_score_pin_state s uid sid) = number_from 1 (selected_pins s uid (pn_mode sc))"
    "order_normalised (lock_score_pin_state s uid sid) \<longleftrightarrow> number_from 1 (selected_pins s uid (pn_mode sc)) \<noteq> selected_pins s uid (pn_mode sc)"
    "sid \<in> set (pins s uid (pn_mode sc)) \<and> 0 < pinned_order sc \<and> sc \<in> set (number_from 1 (selected_pins s uid (pn_mode sc)))
     \<or> sid \<notin> set (pins s uid (pn_mode sc)) \<and> pinned_order sc = 0"
proof -
  from sc obtain r where r: "find (\<lambda>r. pn_score r = sid \<and> pn_user r = uid) (pin_rows s) = Some r" "uid \<in> set (pin_users s)"
    by (auto simp: lock_score_pin_state_def split: if_splits option.splits)
  let ?sel = "number_from 1 (selected_pins s uid (pn_mode r))"
  have row: "r \<in> set (pin_rows s)" "pn_score r = sid" "pn_user r = uid" using find_Some_in[OF r(1)] by simp_all
  have lock: "lock_score_pin_state s uid sid = \<lparr>locked_score = Some (case get_row pn_score sid ?sel of None \<Rightarrow> r | Some q \<Rightarrow> q),
      pinned_scores = ?sel, order_normalised = ?sel \<noteq> selected_pins s uid (pn_mode r)\<rparr>"
    by (simp add: lock_score_pin_state_def r Let_def)
  have ids: "distinct (map pn_score ?sel)" by (simp add: selected_ids[OF ok])
  have sids: "set (map pn_score ?sel) = set (pins s uid (pn_mode r))" by (simp add: pins_def)
  show thesis
  proof (cases "get_row pn_score sid ?sel")
    case None
    then have "sid \<notin> set (map pn_score ?sel)" unfolding set_map by (auto simp: get_row_None)
    then have "sid \<notin> set (pins s uid (pn_mode r))" unfolding sids .
    moreover have "sc = r" using sc None by (simp add: lock)
    moreover have "pinned_order r = 0"
    proof (rule ccontr)
      assume "pinned_order r \<noteq> 0"
      then have "0 < pinned_order r" using ok row by (fastforce simp: pins_ok_def)
      then have "sid \<in> set (pins s uid (pn_mode r))" using row by (auto simp: pins_def selected_mem)
      then show False using calculation(1) by simp
    qed
    ultimately show thesis using row lock by (intro that[of r]) simp_all
  next
    case (Some q)
    then have q: "q \<in> set ?sel" "pn_score q = sid" using ids by (auto simp: get_row_mem)
    then have "sid \<in> set (pins s uid (pn_mode r))" unfolding sids[symmetric] set_map by blast
    moreover have "0 < pinned_order q" "pn_user q = uid" "pn_mode q = pn_mode r" using q(1) by (auto dest!: number_from_mem simp: selected_mem)
    moreover have "sc = q" using sc Some by (simp add: lock)
    ultimately show thesis using row lock q by (intro that[of r]) simp_all
  qed
qed

section \<open>Requests\<close>

datatype pin_request = Pin | Unpin | Before int | After int

text \<open>What a request does to the list.\<close>

fun pin_spec :: "pin_request \<Rightarrow> int \<Rightarrow> int list \<Rightarrow> int list" where
  "pin_spec Pin sid xs = (if sid \<in> set xs then xs else xs @ [sid])"
| "pin_spec Unpin sid xs = filter (\<lambda>i. i \<noteq> sid) xs"
| "pin_spec (Before ref) sid xs =
     (let ys = filter (\<lambda>i. i \<noteq> sid) xs in takeWhile (\<lambda>i. i \<noteq> ref) ys @ sid # ref # tl (dropWhile (\<lambda>i. i \<noteq> ref) ys))"
| "pin_spec (After ref) sid xs =
     (let ys = filter (\<lambda>i. i \<noteq> sid) xs in takeWhile (\<lambda>i. i \<noteq> ref) ys @ ref # sid # tl (dropWhile (\<lambda>i. i \<noteq> ref) ys))"

fun run_pin :: "bool \<Rightarrow> bool \<Rightarrow> pin_request \<Rightarrow> int \<Rightarrow> int \<Rightarrow> (pin_db, unit) op" where
  "run_pin False restricted Pin uid sid = pin_score uid sid"
| "run_pin False restricted Unpin uid sid = unpin_score uid sid"
| "run_pin False restricted (Before ref) uid sid = reorder_score_pin uid sid None (Some ref)"
| "run_pin False restricted (After ref) uid sid = reorder_score_pin uid sid (Some ref) None"
| "run_pin True restricted Pin uid sid = bnd (pin_web_score restricted uid sid) (\<lambda>_. ret ())"
| "run_pin True restricted Unpin uid sid = bnd (unpin_web_score restricted uid sid) (\<lambda>_. ret ())"
| "run_pin True restricted (Before ref) uid sid = bnd (reorder_web_score_pin restricted uid sid None (Some ref)) (\<lambda>_. ret ())"
| "run_pin True restricted (After ref) uid sid = bnd (reorder_web_score_pin restricted uid sid (Some ref) None) (\<lambda>_. ret ())"

lemma mset_insert_at: "mset (take n zs @ x # drop n zs) = mset (x # zs)"
proof -
  have "mset (take n zs) + mset (drop n zs) = mset zs" by (metis append_take_drop_id mset_append)
  then show ?thesis by simp
qed

lemma reorder_spec:
  assumes run: "reordered_score_pin_ids xs sid (case q of Before r \<Rightarrow> Some r | _ \<Rightarrow> None) (case q of After r \<Rightarrow> Some r | _ \<Rightarrow> None) = Inr ys"
    and dist: "distinct xs" and q: "q \<in> {Before ref, After ref}"
  shows "ys = pin_spec q sid xs \<and> distinct ys \<and> set ys = set xs"
proof -
  let ?zs = "filter (\<lambda>i. i \<noteq> sid) xs" and ?n = "length (takeWhile (\<lambda>i. i \<noteq> ref) (filter (\<lambda>i. i \<noteq> sid) xs))"
  have in_xs: "sid \<in> set xs" "ref \<in> set xs" "ref \<noteq> sid" and ys: "ys = take (if q = Before ref then ?n else ?n + 1) ?zs @ sid # drop (if q = Before ref then ?n else ?n + 1) ?zs"
    using run q by (auto simp: reordered_score_pin_ids_def Let_def split: if_splits)
  have "ref \<in> set ?zs" using in_xs by simp
  then obtain us vs where zs: "?zs = us @ ref # vs" "ref \<notin> set us" by (meson split_list_first)
  have head: "takeWhile (\<lambda>i. i \<noteq> ref) (us @ ref # vs) = us" and tail: "dropWhile (\<lambda>i. i \<noteq> ref) (us @ ref # vs) = ref # vs"
    using zs(2) by (auto simp: takeWhile_append dropWhile_append)
  have "ys = pin_spec q sid xs" using q unfolding ys by (auto simp: Let_def head tail zs(1))
  moreover have "mset ys = mset (sid # ?zs)" unfolding ys by (rule mset_insert_at)
  moreover have "distinct (sid # ?zs)" "set (sid # ?zs) = set xs" using dist in_xs(1) by auto
  ultimately show ?thesis by (metis mset_eq_imp_distinct_iff mset_eq_setD)
qed

lemma save_run: "save_rows qs s = (Inr (), flushed qs s)"
  by (simp add: save_rows_def flushed_def run_simps)

lemma keep_run:
  assumes "pins_ok s" "b \<longleftrightarrow> number_from 1 (selected_pins s uid g) \<noteq> selected_pins s uid g"
  shows "do_if b (save_rows (number_from 1 (selected_pins s uid g))) s = (Inr (), flushed (number_from 1 (selected_pins s uid g)) s)"
  using assms flushed_same[OF assms(1), of uid g] by (auto simp: do_if_def save_run run_simps)

text \<open>The flush of rows that, without those it unpins, are numbered in the order the request asks for.\<close>

definition outcome :: "pin_request \<Rightarrow> int \<Rightarrow> int \<Rightarrow> game_mode \<Rightarrow> pin_db \<Rightarrow> pin_db \<Rightarrow> bool" where
  "outcome q sid uid g s s' \<longleftrightarrow> (\<exists>qs zs. rows_of qs uid g s \<and> filter (\<lambda>q. 0 < pinned_order q) qs = number_from 1 zs
     \<and> map pn_score zs = pin_spec q sid (pins s uid g) \<and> s' = flushed qs s)"

lemma numbered_outcome:
  "covering rs uid g s \<Longrightarrow> map pn_score rs = pin_spec q sid (pins s uid g) \<Longrightarrow> outcome q sid uid g s (flushed (number_from 1 rs) s)"
  using numbered_rows[of rs uid g s] unfolding outcome_def by blast

lemma kept_outcome:
  "pins_ok s \<Longrightarrow> pin_spec q sid (pins s uid g) = pins s uid g \<Longrightarrow> outcome q sid uid g s (flushed (number_from 1 (selected_pins s uid g)) s)"
  using numbered_outcome[OF selected_covering[of s 1 uid g], of q sid] by (simp add: number_from_again pins_def)

lemma added_outcome:
  assumes ok: "pins_ok s" and row: "r \<in> set (pin_rows s)" "pn_score r = pn_score sc" "pn_user r = pn_user sc" "pn_mode r = pn_mode sc"
    and new: "pn_score sc \<notin> set (pins s (pn_user sc) (pn_mode sc))"
  shows "outcome Pin (pn_score sc) (pn_user sc) (pn_mode sc) s (flushed (number_from 1 (selected_pins s (pn_user sc) (pn_mode sc))
     @ [sc\<lparr>pinned_order := int (length (number_from 1 (selected_pins s (pn_user sc) (pn_mode sc)))) + 1\<rparr>]) s)"
proof -
  let ?sel = "selected_pins s (pn_user sc) (pn_mode sc)"
  have "covering (?sel @ [sc]) (pn_user sc) (pn_mode sc) s"
    using row new selected_ids[OF ok] unfolding covering_def by (fastforce simp: pins_def selected_mem)
  from numbered_outcome[OF this, of Pin "pn_score sc"] show ?thesis using new
    by (simp add: number_from_append pins_def add.commute)
qed

lemma removed_outcome:
  assumes ok: "pins_ok s" and sc: "sc \<in> set (number_from 1 (selected_pins s uid g))"
  shows "outcome Unpin (pn_score sc) uid g s (flushed (map (without_pin (pn_score sc) (pinned_order sc)) (number_from 1 (selected_pins s uid g))) s)"
proof -
  let ?sel = "selected_pins s uid g" and ?f = "without_pin (pn_score sc) (pinned_order sc)"
  have ids: "map pn_score (map ?f (number_from 1 ?sel)) = map pn_score (number_from 1 ?sel)"
    unfolding map_map by (rule map_cong) (simp_all add: without_pin_def)
  have "rows_of (map ?f (number_from 1 ?sel)) uid g s"
  proof (rule covering_rows[OF selected_covering[OF ok] ids])
    fix q assume "q \<in> set (map ?f (number_from 1 ?sel))"
    then obtain x where x: "x \<in> set (number_from 1 ?sel)" "q = ?f x" by auto
    have "1 \<le> pinned_order sc" "1 \<le> pinned_order x" "pn_user x = uid" "pn_mode x = g"
      using x(1) sc by (auto dest!: number_from_mem simp: selected_mem)
    then show "0 \<le> pinned_order q \<and> pn_user q = uid \<and> pn_mode q = g" by (simp add: x(2) without_pin_def)
  qed
  moreover have "filter (\<lambda>q. 0 < pinned_order q) (map ?f (number_from 1 ?sel)) = number_from 1 (filter (\<lambda>r. pn_score r \<noteq> pn_score sc) ?sel)"
    by (rule unpinned_rows[OF selected_ids[OF ok] sc refl]) simp
  moreover have "map pn_score (filter (\<lambda>r. pn_score r \<noteq> pn_score sc) ?sel) = pin_spec Unpin (pn_score sc) (pins s uid g)"
    by (simp add: pins_def filter_map comp_def)
  ultimately show ?thesis unfolding outcome_def by blast
qed

lemma ordered_outcome:
  assumes ok: "pins_ok s" and ids: "distinct ids" "set ids = set (pins s uid g)" "ids = pin_spec q sid (pins s uid g)"
  shows "outcome q sid uid g s (flushed (rows_in_order (number_from 1 (selected_pins s uid g)) ids) s)"
proof -
  let ?pinned = "number_from 1 (selected_pins s uid g)"
  have known: "pn_score (the (get_row pn_score i ?pinned)) = i \<and> the (get_row pn_score i ?pinned) \<in> set ?pinned" if "i \<in> set ids" for i
  proof -
    have "i \<in> set (map pn_score ?pinned)" using that ids(2) by (simp add: pins_def)
    then obtain x where "x \<in> set ?pinned" "pn_score x = i" unfolding set_map by blast
    moreover have "distinct (map pn_score ?pinned)" by (simp add: selected_ids[OF ok])
    ultimately show ?thesis using get_row_unique[of pn_score ?pinned x] by simp
  qed
  have scores: "map pn_score (map (\<lambda>i. the (get_row pn_score i ?pinned)) ids) = ids"
    unfolding map_map by (rule map_idI) (simp add: known)
  have "covering (map (\<lambda>i. the (get_row pn_score i ?pinned)) ids) uid g s"
    unfolding covering_def scores
  proof (intro conjI ballI)
    fix x assume "x \<in> set (map (\<lambda>i. the (get_row pn_score i ?pinned)) ids)"
    then have "x \<in> set ?pinned" using known by auto
    then show "pn_user x = uid" "pn_mode x = g" "\<exists>r \<in> set (pin_rows s). pn_score r = pn_score x \<and> pn_user r = uid \<and> pn_mode r = g"
      using selected_covering[OF ok, of 1 uid g] unfolding covering_def by blast+
  qed (use ids in simp_all)
  from numbered_outcome[OF this] show ?thesis using scores ids(3) by (simp add: rows_in_order_def)
qed

text \<open>Every request that succeeds has one of these outcomes.\<close>

lemma request_outcome:
  assumes ok: "pins_ok s" and run: "run_pin web restricted q uid sid s = (Inr (), s')"
  obtains r where "r \<in> set (pin_rows s)" "pn_score r = sid" "pn_user r = uid" "outcome q sid uid (pn_mode r) s s'"
proof -
  let ?st = "lock_score_pin_state s uid sid"
  obtain sc where sc: "locked_score ?st = Some sc"
    using run by (cases "locked_score ?st"; cases web; cases q)
      (auto simp: pin_score_def unpin_score_def reorder_score_pin_def pin_web_score_def unpin_web_score_def reorder_web_score_pin_def
        run_simps bnd_ok_iff Let_def split: if_splits)
  let ?g = "pn_mode sc" and ?sel = "selected_pins s uid (pn_mode sc)"
  let ?pinned = "number_from 1 ?sel"
  obtain r where r: "r \<in> set (pin_rows s)" "pn_score r = sid" "pn_user r = uid" "pn_mode r = ?g" "pn_user sc = uid" "pn_score sc = sid"
    and st: "pinned_scores ?st = ?pinned" "order_normalised ?st \<longleftrightarrow> ?pinned \<noteq> ?sel"
    and pinned: "sid \<in> set (pins s uid ?g) \<and> 0 < pinned_order sc \<and> sc \<in> set ?pinned \<or> sid \<notin> set (pins s uid ?g) \<and> pinned_order sc = 0"
    by (rule locked_row[OF ok sc]) blast
  have keep: "do_if b (save_rows ?pinned) s = (Inr (), flushed ?pinned s)" if "b \<longleftrightarrow> ?pinned \<noteq> ?sel" for b
    by (rule keep_run[OF ok that])
  have ids: "distinct (pins s uid ?g)" "map pn_score ?pinned = pins s uid ?g" by (simp_all add: pins_def selected_ids[OF ok])
  note keep' = keep[OF refl]
  have moved: "outcome q sid uid ?g s s'" if q: "q \<in> {Before ref, After ref}" for ref
  proof -
    let ?bef = "case q of Before r \<Rightarrow> Some r | _ \<Rightarrow> None" and ?aft = "case q of After r \<Rightarrow> Some r | _ \<Rightarrow> None"
    obtain P N where P: "pinned_scores ?st = P" "map pn_score P = pins s uid ?g" and N: "order_normalised ?st = N" using st(1) ids(2) by blast
    have refs: "(?aft = None) \<noteq> (?bef = None)" using q by auto
    have "reorder_score_pin uid sid ?aft ?bef s = (Inr (), s') \<or> (\<exists>x. reorder_web_score_pin restricted uid sid ?aft ?bef s = (Inr x, s'))"
      using run q by (cases web) (auto simp: bnd_ok_iff run_simps(12))
    then have "\<exists>ys. reordered_score_pin_ids (pins s uid ?g) sid ?bef ?aft = Inr ys
        \<and> s' = (if \<not> N \<and> ys = pins s uid ?g then s else flushed (rows_in_order P ys) s)"
      using refs by (cases "reordered_score_pin_ids (pins s uid ?g) sid ?bef ?aft")
        (auto simp: reorder_score_pin_def reorder_web_score_pin_def run_simps sc P N seq_def bnd_ok_iff Let_def save_run do_if_def split: if_splits)
    then obtain ys where ys: "reordered_score_pin_ids (pins s uid ?g) sid ?bef ?aft = Inr ys"
      and s'': "s' = (if \<not> N \<and> ys = pins s uid ?g then s else flushed (rows_in_order P ys) s)" by blast
    have "P = ?pinned" "N \<longleftrightarrow> ?pinned \<noteq> ?sel" using st P(1) N by simp_all
    then have s': "s' = (if ?pinned = ?sel \<and> ys = pins s uid ?g then s else flushed (rows_in_order ?pinned ys) s)" using s'' by simp
    note spec = reorder_spec[OF ys ids(1) q]
    show ?thesis
    proof (cases "?pinned = ?sel \<and> ys = pins s uid ?g")
      case True
      then have "s' = flushed ?pinned s" using s' flushed_same[OF ok, of uid ?g] by simp
      then show ?thesis using kept_outcome[OF ok, of q sid uid ?g] spec True by simp
    next
      case False
      have to: "s' = flushed (rows_in_order ?pinned ys) s" unfolding s' using False by (rule if_not_P)
      have "distinct ys" "set ys = set (pins s uid ?g)" "ys = pin_spec q sid (pins s uid ?g)" using spec by blast+
      from ordered_outcome[OF ok this] show ?thesis unfolding to .
    qed
  qed
  have "outcome q sid uid ?g s s'"
  proof (cases q)
    case Pin
    from pinned show ?thesis
    proof
      assume a: "sid \<in> set (pins s uid ?g) \<and> 0 < pinned_order sc \<and> sc \<in> set ?pinned"
      have "s' = flushed ?pinned s" using run a keep'
        by (cases web) (auto simp: Pin pin_score_def pin_web_score_def run_simps sc st seq_def bnd_ok_iff split: if_splits)
      then show ?thesis using kept_outcome[OF ok, of q sid uid ?g] a Pin by simp
    next
      assume a: "sid \<notin> set (pins s uid ?g) \<and> pinned_order sc = 0"
      have "s' = flushed (?pinned @ [sc\<lparr>pinned_order := int (length ?pinned) + 1\<rparr>]) s" using run a
        by (cases web) (auto simp: Pin pin_score_def pin_web_score_def run_simps sc st seq_def bnd_ok_iff save_run split: if_splits)
      then show ?thesis using added_outcome[OF ok r(1), of sc] a r Pin by simp
    qed
  next
    case Unpin
    from pinned show ?thesis
    proof
      assume a: "sid \<in> set (pins s uid ?g) \<and> 0 < pinned_order sc \<and> sc \<in> set ?pinned"
      have "s' = flushed (map (without_pin sid (pinned_order sc)) ?pinned) s" using run a
        by (cases web) (auto simp: Unpin unpin_score_def unpin_web_score_def run_simps sc st seq_def bnd_ok_iff save_run split: if_splits)
      then show ?thesis using removed_outcome[OF ok, of sc uid ?g] a r Unpin by simp
    next
      assume a: "sid \<notin> set (pins s uid ?g) \<and> pinned_order sc = 0"
      then have "pin_spec q sid (pins s uid ?g) = pins s uid ?g" unfolding Unpin pin_spec.simps by (intro filter_True) auto
      moreover have "s' = flushed ?pinned s" using run a keep'
        by (cases web) (auto simp: Unpin unpin_score_def unpin_web_score_def run_simps sc st seq_def bnd_ok_iff split: if_splits)
      ultimately show ?thesis using kept_outcome[OF ok, of q sid uid ?g] by simp
    qed
  next
    case (Before ref)
    show ?thesis by (rule moved[of ref]) (simp_all add: Before)
  next
    case (After ref)
    show ?thesis by (rule moved[of ref]) (simp_all add: After)
  qed
  then show thesis using r by (intro that[of r]) simp_all
qed

text \<open>C29: the pins of a profile are an ordered list.  A request of the client or of the website that succeeds does exactly its
  operation on the list of the player and mode of the score (append, remove, move before or after another pin), leaves every
  other list as it was, and leaves the order numbers 1, 2, 3 and so on, also when the table held gaps or duplicates.\<close>

theorem pins_follow_requests:
  assumes "pins_ok s" "run_pin web restricted q uid sid s = (Inr (), s')"
  shows "pins_ok s' \<and> (\<exists>r \<in> set (pin_rows s). pn_score r = sid \<and> pn_user r = uid \<and> compact s' uid (pn_mode r)
    \<and> pins s' u h = (if u = uid \<and> h = pn_mode r then pin_spec q sid (pins s uid (pn_mode r)) else pins s u h))"
proof -
  obtain r where r: "r \<in> set (pin_rows s)" "pn_score r = sid" "pn_user r = uid" "outcome q sid uid (pn_mode r) s s'"
    by (rule request_outcome[OF assms]) blast
  then obtain qs zs where qs: "rows_of qs uid (pn_mode r) s" "filter (\<lambda>q. 0 < pinned_order q) qs = number_from 1 zs"
    "map pn_score zs = pin_spec q sid (pins s uid (pn_mode r))" "s' = flushed qs s" unfolding outcome_def by blast
  note after = flush_after[OF assms(1) qs(1,2)]
  have "pins s' u h = (if u = uid \<and> h = pn_mode r then pin_spec q sid (pins s uid (pn_mode r)) else pins s u h)"
    using after(1)[of u h] qs(3) unfolding qs(4) by simp
  moreover have "pins_ok s'" "compact s' uid (pn_mode r)" using after(2,3) unfolding qs(4) by simp_all
  ultimately show ?thesis using r(1-3) by blast
qed

text \<open>A refused request changes nothing.\<close>

lemma refused_request: "run_pin web restricted q uid sid s = (Inl e, s') \<Longrightarrow> s' = s"
  by (cases web; cases q)
    (auto simp: pin_score_def unpin_score_def reorder_score_pin_def pin_web_score_def unpin_web_score_def reorder_web_score_pin_def
      run_simps bnd_err_iff bnd_ok_iff seq_def save_rows_def do_if_def Let_def throw_def reject_def split: option.splits if_splits sum.splits)

text \<open>The lists shown on a profile order equal numbers by descending score, the helper by ascending score: for rows that
  share a number, as older versions left them, the first request turns the displayed order round.\<close>

definition shown_pins :: "pin_db \<Rightarrow> int \<Rightarrow> game_mode \<Rightarrow> int list" where
  "shown_pins s uid g = map pn_score (sort_key (\<lambda>r. (pinned_order r, - pn_score r))
     (filter (\<lambda>r. pn_user r = uid \<and> pn_mode r = g \<and> 0 < pinned_order r) (pin_rows s)))"

section \<open>Examples\<close>

definition demo_pin :: "int \<Rightarrow> int \<Rightarrow> pin_row" where
  "demo_pin i k = \<lparr>pn_score = i, pn_user = 7, pn_mode = OSU, pn_passed = True, pn_processed = True, pinned_order = k\<rparr>"

definition demo_pins :: "int \<Rightarrow> int \<Rightarrow> int \<Rightarrow> pin_db" where
  "demo_pins a b c = \<lparr>pin_rows = [demo_pin 1 a, demo_pin 2 b, demo_pin 3 c], pin_users = [7]\<rparr>"

theorem pins_follow_requests_witness:
  "\<exists>s'. run_pin False False (After 2) 7 1 (demo_pins 1 4 9) = (Inr (), s') \<and> pins s' 7 OSU = [2, 1, 3]"
proof -
  have ok: "pins_ok (demo_pins 1 4 9)" by (simp add: pins_ok_def demo_pins_def demo_pin_def)
  have run: "fst (run_pin False False (After 2) 7 1 (demo_pins 1 4 9)) = Inr ()" by code_simp
  then obtain s' where s': "run_pin False False (After 2) 7 1 (demo_pins 1 4 9) = (Inr (), s')" by (metis prod.collapse)
  have rows: "pn_mode r = OSU" if "r \<in> set (pin_rows (demo_pins 1 4 9))" for r
    using that by (auto simp: demo_pins_def demo_pin_def)
  have "pins (demo_pins 1 4 9) 7 OSU = [1, 2, 3]" by code_simp
  then have "pins s' 7 OSU = [2, 1, 3]" using pins_follow_requests[OF ok s', of 7 OSU] rows by auto
  then show ?thesis using s' by blast
qed

lemma shown_order_turns:
  "shown_pins (demo_pins 1 1 2) 7 OSU = [2, 1, 3]
   \<and> shown_pins (snd (run_pin False False Pin 7 3 (demo_pins 1 1 2))) 7 OSU = [1, 2, 3]"
  by code_simp

end
