(* ===== verification/Spec2Isabelle.thy ===== *)
theory Spec2Isabelle
  imports Sessions Scores MapStats Matchmaking MultiplierRules ScoringRules UpdateRules
    Weeks Achievements PinRules
begin

text \<open>
  A game server for osu! clients, written in Python (\<open>app/\<close>).  This development models four parts of it:
  the SOMSAI tournament subsystem (\<open>app/features/somsai/\<close> with \<open>app/service/ranked_dodge_service.py\<close>), a
  set of services over one database; the scoring rules for mods, accuracy, ranks and levels
  (\<open>app/models/mods/\<close>, \<open>app/models/score.py\<close>, \<open>app/calculating/osu.py\<close>), which are pure functions; the life of a
  submitted play in the score and room tables (\<open>app/database/score.py\<close>, \<open>app/service/admin_score_service.py\<close>,
  \<open>app/database/playlist_best_score.py\<close>); and the ranking and synchronisation of beatmaps
  (\<open>app/service/beatmap_ranking_service.py\<close>, \<open>app/service/beatmapset_update_service.py\<close>).

  \<^bold>\<open>How the code is modelled.\<close>  A coroutine that works in a database session is a function from the
  session state \<open>db\<close> to a result and the state reached (\<open>('s, 'a) op\<close> in \<open>Prelude\<close>): exceptions are the
  \<open>Inl\<close> results, and writes made before an exception remain until \<open>transaction\<close> discards them.  Tables
  are lists of records in primary-key order of insertion (\<open>Store\<close>), the JSON document of a match is the
  record \<open>match_state\<close> (\<open>MatchData\<close>), Python's floats are real numbers, instants are microseconds.  The
  clock, uuids, random numbers, and the answers of the network are fields of the state or parameters.
  A pure function that may raise returns \<open>error + 'a\<close>.

  \<^bold>\<open>Theories.\<close>
  \<^item> \<open>Prelude\<close>, \<open>Pytext\<close>: operations and their rules (\<open>hoare\<close>, \<open>keeps\<close>), Python's numbers and text.
  \<^item> \<open>Ranks\<close> (\<open>somsai_rank_pool.py\<close>), \<open>Ratings\<close> (\<open>somsai_rating_service.py\<close>), \<open>Bots\<close>
    (\<open>somsai_bot_skill.py\<close>), \<open>MapStats\<close> (\<open>somsai_map_stats.py\<close>, \<open>somsai_bot_tech.py\<close>): pure tables and
    formulas.  Shown: the ladder of ranks and its conversions, bounds and direction of a settlement,
    validity of a rolled bot, the automatic draft.
  \<^item> \<open>MatchData\<close>, \<open>Store\<close>: the database.  \<open>Party\<close> (\<open>somsai_party_service.py\<close>): reservations, parties,
    invitations; the locales \<open>quiet_frame\<close>, \<open>session_invariant\<close>, \<open>social_invariant\<close> state what a property
    of the social tables needs, and the interpretations \<open>lease\<close> and \<open>party\<close> discharge it.
  \<^item> \<open>Pool\<close>, \<open>PoolSearch\<close> (\<open>somsai_mixed_pool_service.py\<close>): the augmenting path search and its proof
    against systems of distinct representatives.  The recursion bound is the number of candidate rows,
    which every path respects because it visits a map at most once.
  \<^item> \<open>Dodge\<close>, \<open>Penalties\<close> (\<open>ranked_dodge_service.py\<close>): calendar arithmetic, escalation, consistency.
  \<^item> \<open>Match\<close>, \<open>MatchFrame\<close>, \<open>MatchSafety\<close> (\<open>somsai_match_service.py\<close>): the tournament state machine, the
    invariant \<open>wf_match\<close> of a row and the order \<open>evolves\<close> between its versions.
  \<^item> \<open>Services\<close>: the locale \<open>service_invariant\<close> through which every other service uses the match engine.
    \<open>Queue\<close>, \<open>Matchmaking\<close>, \<open>Lobby\<close>, \<open>BotTeam\<close>, \<open>Presence\<close>, \<open>Interop\<close> (\<open>somsai_service.py\<close>,
    \<open>somsai_lobby_service.py\<close>, \<open>somsai_bot_service.py\<close>, \<open>somsai_mmr_service.py\<close>, \<open>routers/somsai_lio.py\<close>).
    The pairing loop runs on fuel, the number of entries; the loop without fuel is shown to return within as many
    rounds, and to compute the same.
  \<^item> \<open>Sessions\<close>: one step per request, in any order and with any time in between; the properties of the
    reachable databases: exclusive leases, well-formed parties and matches, matches only move forward.
  \<^item> \<open>Scores\<close> (\<open>somsai_score_service.py\<close>): which scores a managed room admits.
  \<^item> \<open>ModTable\<close> (\<open>static/mods.json\<close>), \<open>Mods\<close>, \<open>ModRules\<close> (\<open>models/mods/\<close>): mod payloads, legacy flags,
    validation, eligibility for performance points.  \<open>GameModes\<close> (\<open>models/score.py\<close>).  \<open>Multipliers\<close>,
    \<open>MultiplierRules\<close> (\<open>models/mods/multiplier/\<close>): the score multiplier.
  \<^item> \<open>Scoring\<close>, \<open>ScoringRules\<close> (\<open>calculating/osu.py\<close>): accuracy, rank, displayed score, levels, weights.  Shown:
    the level loop against its threshold table and the closed formula, bounds of the accuracy, rank order.
  \<^item> \<open>Profiles\<close> (\<open>database/score.py\<close>, \<open>statistics.py\<close>, \<open>negative_pp_service.py\<close>, \<open>admin_score_service.py\<close>): creating,
    processing and deleting a play and the rows it maintains.  \<open>PlayPoints\<close>: the table of best plays as the
    refinement of one abstract update; the totals of a profile.  \<open>Ledger\<close>, \<open>LedgerRules\<close>: the leaderboard rows of
    a player abstracted to the best total and grade of every map; live processing updates this ledger by one
    rule, a rebuild recomputes it, ranked score and grade counts are its sums.
  \<^item> \<open>Reconcile\<close>, \<open>ReconcileRules\<close> (\<open>beatmap_ranking_reconciliation_service.py\<close>): the score features a change of
    status retires; unranking removes the entries of the retired maps from every ledger and keeps the books.
    \<open>RankPolicies\<close>, \<open>PolicyRules\<close> (\<open>beatmap_ranking_service.py\<close>, \<open>database/beatmap_ranking.py\<close>): local ranking
    decisions.  The locale \<open>policy_rows\<close> lifts a property of policy rows to all commands; shown: flags follow
    the status, a changed revision needs a review, decisions are refused for listed reasons only and otherwise
    take effect exactly.
  \<^item> \<open>Updates\<close>, \<open>UpdateRules\<close> (\<open>beatmapset_update_service.py\<close>): the synchronisation of cached sets with upstream on the
    same tables.  The locales \<open>policy_frame\<close>, \<open>sync_frame\<close> and \<open>command_frame\<close> lift invariants to a whole
    synchronisation and to every command; shown: the cache converges to the snapshot, a changed revision needs a new
    decision end to end, a locally ranked set stays scheduled, and which trackers survive.
  \<^item> \<open>RoomScores\<close>, \<open>RoomRules\<close>, \<open>Weeks\<close> (\<open>playlist_best_score.py\<close>, \<open>item_attempts_count.py\<close>, \<open>daily_challenge.py\<close>):
    scores set in rooms and the streaks of the daily challenge.  Shown: the results around a score, the best of
    several passes, totals as sums, ISO weeks across the year, and that with the nightly job no streak grows beyond one
    day, through plays, registrations, bot accounts and profiles cleared by an administrator.
  \<^item> \<open>Medals\<close>, \<open>Achievements\<close> (\<open>achievements/\<close>, \<open>database/achievement.py\<close>): all medals with their predicates and the
    evaluation of a score.  The locale \<open>medal_registry\<close> is what the evaluation needs of a registry, interpreted on the
    shipped modules.  Shown: exactly the earned medals are awarded, each once, also when a score is delivered twice or a
    predicate raises.
  \<^item> \<open>Pins\<close>, \<open>PinRules\<close> (\<open>score_pin_service.py\<close>, the pin handlers of \<open>router/v2/score.py\<close> and
    \<open>router/private/web_site.py\<close>): every request refines one operation on the ordered list of pins.

  \<^bold>\<open>Parameters.\<close>  Random choices (\<open>draws\<close>, \<open>rng\<close>, \<open>randint\<close>, \<open>rnd\<close>) with the documented ranges as
  hypotheses where a theorem needs them; what pydantic accepts for one setting (\<open>accepts\<close>); the personas,
  charts and beatmapset snapshots delivered by the network.

  \<^bold>\<open>Not modelled.\<close>  HTTP and websocket handlers that only decode requests and render responses, SQL
  queries that only list scores and beatmaps, caches, the upstream fetchers and object storage, mail and
  cryptography, migrations and command-line tools; the external performance calculator.  IEEE rounding.
  Text is ASCII; numbers in text are plain decimals.
\<close>

end
